(* ===== verification/Go_Prelude.thy ===== *)
theory Go_Prelude
  imports Main "HOL-Library.Word" "HOL-Library.Sublist"
begin

text \<open>
  What every component of the development shares: Go's error values and the result type of a
  fallible function, the list traversals the code writes as \<^verbatim>\<open>for\<close> loops with an early return,
  and the part of the string library the rule engine calls.

  An error is a value: \<^verbatim>\<open>E.New(..)\<close> is \<open>New\<close>, \<^verbatim>\<open>E.Cause(err, ..)\<close> is \<open>Cause\<close>, \<^verbatim>\<open>E.Extend(err, ..)\<close> is \<open>Extend\<close>, a package
  level variable such as \<^verbatim>\<open>os.ErrInvalid\<close> is \<open>Sentinel\<close>, \<^verbatim>\<open>E.Errors(a, b)\<close> and \<^verbatim>\<open>E.Cause1(a, b)\<close> are \<open>Joined\<close>, and a \<^verbatim>\<open>panic(..)\<close> is \<open>Panic\<close>: a
  panicking branch of the source is a branch of the model.  A string is a Go string, that is a
  sequence of bytes.
\<close>

unbundle bit_operations_syntax

named_theorems res_simps \<open>equations of the result type\<close>
named_theorems engine_simps \<open>equations that unfold one layer of the rule engine\<close>

datatype error =
  New string | Cause error string | Extend error string | Sentinel string | Panic string | Joined error error

type_synonym 'a res = "error + 'a"

definition bind_res :: "'a res \<Rightarrow> ('a \<Rightarrow> 'b res) \<Rightarrow> 'b res" where
  "bind_res r f = (case r of Inl e \<Rightarrow> Inl e | Inr x \<Rightarrow> f x)"

definition cause_res :: "string \<Rightarrow> 'a res \<Rightarrow> 'a res" where
  "cause_res msg r = (case r of Inl e \<Rightarrow> Inl (Cause e msg) | Inr x \<Rightarrow> Inr x)"

definition guard_res :: "bool \<Rightarrow> error \<Rightarrow> unit res" where
  "guard_res ok e = (if ok then Inr () else Inl e)"

fun is_panic :: "error \<Rightarrow> bool" where
  "is_panic (Panic _) = True"
| "is_panic (Cause e _) = is_panic e"
| "is_panic (Extend e _) = is_panic e"
| "is_panic (Joined e f) = (is_panic e \<or> is_panic f)"
| "is_panic _ = False"

definition io_EOF :: error where "io_EOF = Sentinel ''EOF''"
definition io_ErrUnexpectedEOF :: error where "io_ErrUnexpectedEOF = Sentinel ''unexpected EOF''"

text \<open>\<^verbatim>\<open>errors.Is\<close> along the chain of causes and over joined errors.\<close>

fun error_Is :: "error \<Rightarrow> error \<Rightarrow> bool" where
  "error_Is (Cause e s) target = (Cause e s = target \<or> error_Is e target)"
| "error_Is (Extend e s) target = (Extend e s = target \<or> error_Is e target)"
| "error_Is (Joined e f) target = (Joined e f = target \<or> error_Is e target \<or> error_Is f target)"
| "error_Is e target = (e = target)"

text \<open>\<open>for i, x := range xs\<close> building a slice and returning at the first error.\<close>

fun map_res :: "('a \<Rightarrow> 'b res) \<Rightarrow> 'a list \<Rightarrow> 'b list res" where
  "map_res f [] = Inr []"
| "map_res f (x # xs) =
     (case f x of Inl e \<Rightarrow> Inl e
      | Inr y \<Rightarrow> (case map_res f xs of Inl e \<Rightarrow> Inl e | Inr ys \<Rightarrow> Inr (y # ys)))"

fun itoa :: "nat \<Rightarrow> string" where
  "itoa n = (if n < 10 then [char_of (48 + n)] else itoa (n div 10) @ [char_of (48 + n mod 10)])"

declare itoa.simps [simp del]

text \<open>The same loop, the error of element \<open>i\<close> wrapped as \<^verbatim>\<open>E.Cause(err, pre, i, post)\<close>.\<close>

fun map_res_idx :: "string \<Rightarrow> string \<Rightarrow> nat \<Rightarrow> ('a \<Rightarrow> 'b res) \<Rightarrow> 'a list \<Rightarrow> 'b list res" where
  "map_res_idx pre post i f [] = Inr []"
| "map_res_idx pre post i f (x # xs) =
     (case f x of Inl e \<Rightarrow> Inl (Cause e (pre @ itoa i @ post))
      | Inr y \<Rightarrow> (case map_res_idx pre post (Suc i) f xs of
                    Inl e \<Rightarrow> Inl e | Inr ys \<Rightarrow> Inr (y # ys)))"

text \<open>
  \<^verbatim>\<open>strings.ToLower\<close> and \<^verbatim>\<open>strings.EqualFold\<close>: both have a path for strings of ASCII bytes and
  one that goes through the Unicode tables.  The tables are arguments.
\<close>

definition is_ascii :: "string \<Rightarrow> bool" where
  "is_ascii s = list_all (\<lambda>c. of_char c < (128 :: nat)) s"

definition lower_char :: "char \<Rightarrow> char" where
  "lower_char c = (if 65 \<le> (of_char c :: nat) \<and> (of_char c :: nat) \<le> 90
                   then char_of ((of_char c :: nat) + 32) else c)"

definition ToLower :: "(string \<Rightarrow> string) \<Rightarrow> string \<Rightarrow> string" where
  "ToLower unicode s = (if is_ascii s then map lower_char s else unicode s)"

definition EqualFold :: "(string \<Rightarrow> string \<Rightarrow> bool) \<Rightarrow> string \<Rightarrow> string \<Rightarrow> bool" where
  "EqualFold unicode s t =
     (if is_ascii s \<and> is_ascii t then map lower_char s = map lower_char t else unicode s t)"

text \<open>\<^verbatim>\<open>strings.Contains(s, sub)\<close>, \<^verbatim>\<open>HasPrefix\<close>, \<^verbatim>\<open>HasSuffix\<close>, \<^verbatim>\<open>Index(s, ":")\<close>.\<close>

definition str_contains :: "string \<Rightarrow> string \<Rightarrow> bool" where
  "str_contains s sub = sublist sub s"

fun str_index :: "string \<Rightarrow> char \<Rightarrow> nat option" where
  "str_index [] c = None"
| "str_index (x # xs) c = (if x = c then Some 0 else map_option Suc (str_index xs c))"

text \<open>\<^verbatim>\<open>strings.TrimSpace\<close>: the ASCII white space, or the Unicode tables.\<close>

definition is_space :: "char \<Rightarrow> bool" where
  "is_space c \<longleftrightarrow> (of_char c :: nat) \<in> {9, 10, 11, 12, 13, 32}"

definition TrimSpace :: "(string \<Rightarrow> string) \<Rightarrow> string \<Rightarrow> string" where
  "TrimSpace unicode s =
     (if is_ascii s then rev (dropWhile is_space (rev (dropWhile is_space s))) else unicode s)"

text \<open>
  \<^verbatim>\<open>strconv.ParseUint(s, 10, bits)\<close> with \<open>mx\<close> the largest value of the width: digits only, the first
  byte that is not a digit or the first digit that passes the bound decides the error.
\<close>

definition is_digit :: "char \<Rightarrow> bool" where
  "is_digit c \<longleftrightarrow> 48 \<le> (of_char c :: nat) \<and> (of_char c :: nat) \<le> 57"

definition digit_val :: "char \<Rightarrow> nat" where
  "digit_val c = (of_char c :: nat) - 48"

fun parse_digits :: "nat \<Rightarrow> nat \<Rightarrow> string \<Rightarrow> nat res" where
  "parse_digits mx n [] = Inr n"
| "parse_digits mx n (c # cs) =
     (if \<not> is_digit c then Inl (Sentinel ''strconv.ErrSyntax'')
      else if n * 10 + digit_val c > mx then Inl (Sentinel ''strconv.ErrRange'')
      else parse_digits mx (n * 10 + digit_val c) cs)"

definition ParseUint :: "nat \<Rightarrow> string \<Rightarrow> nat res" where
  "ParseUint mx s = (if s = [] then Inl (Sentinel ''strconv.ErrSyntax'') else parse_digits mx 0 s)"

text \<open>\<^verbatim>\<open>hex.DecodeString\<close>; \<open>None\<close> is its error.\<close>

definition hex_val :: "char \<Rightarrow> nat option" where
  "hex_val c = (let n = (of_char c :: nat) in
     if 48 \<le> n \<and> n \<le> 57 then Some (n - 48)
     else if 97 \<le> n \<and> n \<le> 102 then Some (n - 87)
     else if 65 \<le> n \<and> n \<le> 70 then Some (n - 55) else None)"

fun hex_DecodeString :: "string \<Rightarrow> 8 word list option" where
  "hex_DecodeString [] = Some []"
| "hex_DecodeString [_] = None"
| "hex_DecodeString (a # b # s) =
     (case (hex_val a, hex_val b, hex_DecodeString s) of
        (Some x, Some y, Some r) \<Rightarrow> Some (word_of_nat (16 * x + y) # r)
      | _ \<Rightarrow> None)"

text \<open>
  A Go \<^verbatim>\<open>map[K]bool\<close> filled by \<^verbatim>\<open>m[k] = true\<close> in a loop: a missing key reads \<^verbatim>\<open>false\<close>.
\<close>

definition bool_map :: "'k list \<Rightarrow> 'k \<Rightarrow> bool" where
  "bool_map ks = fold (\<lambda>k m. m(k := True)) ks (\<lambda>_. False)"

subsection \<open>Result lemmas\<close>

lemma bind_res_simps [simp, res_simps]:
  "bind_res (Inl e) f = Inl e" "bind_res (Inr x) f = f x"
  by (simp_all add: bind_res_def)

lemma cause_res_simps [simp, res_simps]:
  "cause_res m (Inl e) = Inl (Cause e m)" "cause_res m (Inr x) = Inr x"
  by (simp_all add: cause_res_def)

lemma bind_res_Inr: "bind_res r f = Inr y \<longleftrightarrow> (\<exists>x. r = Inr x \<and> f x = Inr y)"
  by (cases r) auto

lemma cause_res_Inr [simp]: "cause_res m r = Inr y \<longleftrightarrow> r = Inr y"
  by (cases r) auto

lemma guard_res_Inr [simp]: "guard_res ok e = Inr u \<longleftrightarrow> ok"
  by (simp add: guard_res_def)

lemma guard_res_Inl [simp]: "guard_res ok e = Inl e' \<longleftrightarrow> \<not> ok \<and> e' = e"
  by (auto simp: guard_res_def)

lemma map_res_Inr: "map_res f xs = Inr ys \<longleftrightarrow> list_all2 (\<lambda>x y. f x = Inr y) xs ys"
proof (induction xs arbitrary: ys)
  case (Cons x xs)
  have "map_res f (x # xs) = Inr ys \<longleftrightarrow> (\<exists>y zs. ys = y # zs \<and> f x = Inr y \<and> map_res f xs = Inr zs)"
    by (auto split: sum.splits)
  then show ?case by (auto simp: Cons.IH list_all2_Cons1)
qed auto

lemma map_res_idx_Inr:
  "map_res_idx pre post i f xs = Inr ys \<longleftrightarrow> list_all2 (\<lambda>x y. f x = Inr y) xs ys"
proof (induction xs arbitrary: i ys)
  case (Cons x xs)
  have "map_res_idx pre post i f (x # xs) = Inr ys \<longleftrightarrow>
      (\<exists>y zs. ys = y # zs \<and> f x = Inr y \<and> map_res_idx pre post (Suc i) f xs = Inr zs)"
    by (auto split: sum.splits)
  then show ?case by (auto simp: Cons.IH list_all2_Cons1)
qed auto

lemma map_res_ok_iff: "(\<exists>ys. map_res f xs = Inr ys) \<longleftrightarrow> (\<forall>x \<in> set xs. \<exists>y. f x = Inr y)"
proof (induction xs)
  case (Cons x xs)
  then show ?case by (cases "f x"; cases "map_res f xs") auto
qed simp

lemma map_res_idx_ok_iff:
  "(\<exists>ys. map_res_idx pre post i f xs = Inr ys) \<longleftrightarrow> (\<forall>x \<in> set xs. \<exists>y. f x = Inr y)"
proof (induction xs arbitrary: i)
  case (Cons x xs)
  from Cons [of "Suc i"] show ?case
    by (cases "f x"; cases "map_res_idx pre post (Suc i) f xs") auto
qed simp

lemma map_res_cong [fundef_cong]:
  "xs = ys \<Longrightarrow> (\<And>x. x \<in> set ys \<Longrightarrow> f x = g x) \<Longrightarrow> map_res f xs = map_res g ys"
  by (induction xs arbitrary: ys) (auto cong: sum.case_cong)

lemma map_res_idx_cong [fundef_cong]:
  "xs = ys \<Longrightarrow> pre = pre' \<Longrightarrow> post = post' \<Longrightarrow> i = i' \<Longrightarrow> (\<And>x. x \<in> set ys \<Longrightarrow> f x = g x) \<Longrightarrow>
   map_res_idx pre post i f xs = map_res_idx pre' post' i' g ys"
proof (induction xs arbitrary: ys i i')
  case (Cons x xs)
  then have "f x = g x" "map_res_idx pre post (Suc i) f xs = map_res_idx pre' post' (Suc i') g xs"
    by auto
  with Cons.prems show ?case by (auto split: sum.split)
qed simp

lemma bool_map_iff [simp]: "bool_map ks k \<longleftrightarrow> k \<in> set ks"
proof -
  have "fold (\<lambda>k m. m(k := True)) ks m k \<longleftrightarrow> m k \<or> k \<in> set ks" for m
    by (induction ks arbitrary: m) auto
  then show ?thesis by (simp add: bool_map_def)
qed

lemma parse_digits_bound: "parse_digits mx n s = Inr v \<Longrightarrow> n \<le> mx \<Longrightarrow> v \<le> mx"
  by (induction s arbitrary: n) (auto split: if_splits)

lemma ParseUint_bound: "ParseUint mx s = Inr v \<Longrightarrow> v \<le> mx"
  by (auto simp: ParseUint_def dest: parse_digits_bound split: if_splits)

lemma str_index_Some:
  "str_index s c = Some i \<Longrightarrow> i < length s \<and> s ! i = c \<and> c \<notin> set (take i s)"
proof (induction s arbitrary: i)
  case (Cons x xs)
  then show ?case by (cases "x = c") auto
qed simp

lemma str_index_None: "str_index s c = None \<longleftrightarrow> c \<notin> set s"
  by (induction s) auto

end
