(* ===== verification/Metadata.thy ===== *)
theory Metadata
  imports Go_Prelude
begin

text \<open>
  The data every component reads: \<^verbatim>\<open>netip.Addr\<close> and \<^verbatim>\<open>netip.Prefix\<close> of the standard library, the
  \<^verbatim>\<open>adapter.InboundContext\<close> that travels with a connection (\<^verbatim>\<open>adapter/inbound.go\<close>), and the record
  \<open>env\<close> of everything outside \<^verbatim>\<open>src/\<close> a rule consults.  The fields of \<open>env\<close> are parameters: the
  methods of the \<^verbatim>\<open>sing\<close> and \<^verbatim>\<open>netipx\<close> libraries (address classes, IP sets, domain matchers), the
  text parsers and the regular expressions of the standard library, and the answers the running
  managers give at the moment a rule is matched (default interface, Wi-Fi state, Clash mode).
\<close>

subsection \<open>\<^verbatim>\<open>net/netip\<close>\<close>

text \<open>An address: the zero \<^verbatim>\<open>Addr\<close>, an IPv4 address, an IPv6 address with its zone.\<close>

datatype addr = AddrZero | Addr4 "32 word" | Addr6 "128 word" string

fun addr_IsValid :: "addr \<Rightarrow> bool" where
  "addr_IsValid AddrZero = False"
| "addr_IsValid _ = True"

fun addr_Is4 :: "addr \<Rightarrow> bool" where
  "addr_Is4 (Addr4 _) = True"
| "addr_Is4 _ = False"

fun addr_Is6 :: "addr \<Rightarrow> bool" where
  "addr_Is6 (Addr6 _ _) = True"
| "addr_Is6 _ = False"

fun addr_BitLen :: "addr \<Rightarrow> nat" where
  "addr_BitLen AddrZero = 0"
| "addr_BitLen (Addr4 _) = 32"
| "addr_BitLen (Addr6 _ _) = 128"

text \<open>\<^verbatim>\<open>Next\<close> of the last address is the zero \<^verbatim>\<open>Addr\<close>.\<close>

fun addr_Next :: "addr \<Rightarrow> addr" where
  "addr_Next AddrZero = AddrZero"
| "addr_Next (Addr4 w) = (if w = - 1 then AddrZero else Addr4 (w + 1))"
| "addr_Next (Addr6 w z) = (if w = - 1 then AddrZero else Addr6 (w + 1) z)"

text \<open>\<^verbatim>\<open>Unmap\<close> removes the IPv4-mapped prefix \<open>::ffff:0:0/96\<close>.\<close>

fun addr_Unmap :: "addr \<Rightarrow> addr" where
  "addr_Unmap (Addr6 w z) = (if drop_bit 32 w = 0xffff then Addr4 (ucast w) else Addr6 w z)"
| "addr_Unmap a = a"

fun addr_Zone :: "addr \<Rightarrow> string" where
  "addr_Zone (Addr6 _ z) = z"
| "addr_Zone _ = []"

text \<open>A prefix: an address and a length, \<open>- 1\<close> for the zero \<^verbatim>\<open>Prefix\<close>.\<close>

record prefix =
  p_Addr :: addr
  p_Bits :: int

definition PrefixZero :: prefix where "PrefixZero = \<lparr>p_Addr = AddrZero, p_Bits = - 1\<rparr>"

definition prefix_IsValid :: "prefix \<Rightarrow> bool" where
  "prefix_IsValid p \<longleftrightarrow> 0 \<le> p_Bits p \<and> p_Bits p \<le> int (addr_BitLen (p_Addr p))
     \<and> addr_IsValid (p_Addr p)"

text \<open>The first \<open>n\<close> bits of an address, the others zero.\<close>

fun addr_mask :: "nat \<Rightarrow> addr \<Rightarrow> addr" where
  "addr_mask n AddrZero = AddrZero"
| "addr_mask n (Addr4 w) = Addr4 (push_bit (32 - n) (drop_bit (32 - n) w))"
| "addr_mask n (Addr6 w z) = Addr6 (push_bit (128 - n) (drop_bit (128 - n) w)) []"

definition prefix_Contains :: "prefix \<Rightarrow> addr \<Rightarrow> bool" where
  "prefix_Contains p a \<longleftrightarrow>
     prefix_IsValid p \<and> addr_Zone a = [] \<and> addr_IsValid a
     \<and> addr_BitLen (p_Addr p) = addr_BitLen a
     \<and> addr_mask (nat (p_Bits p)) (p_Addr p) = addr_mask (nat (p_Bits p)) a"

definition prefix_Overlaps :: "prefix \<Rightarrow> prefix \<Rightarrow> bool" where
  "prefix_Overlaps p q \<longleftrightarrow>
     prefix_IsValid p \<and> prefix_IsValid q \<and>
     (p = q \<or>
      addr_Is4 (p_Addr p) = addr_Is4 (p_Addr q) \<and>
      (let n = nat (min (p_Bits p) (p_Bits q))
       in n = 0 \<or> addr_mask n (p_Addr p) = addr_mask n (p_Addr q)))"

subsection \<open>\<^verbatim>\<open>M.Socksaddr\<close>, DNS messages, process information\<close>

record socksaddr =
  s_Addr :: addr
  s_Port :: "16 word"
  s_Fqdn :: string

definition SocksaddrZero :: socksaddr where
  "SocksaddrZero = \<lparr>s_Addr = AddrZero, s_Port = 0, s_Fqdn = []\<rparr>"

record rr_header =
  h_Name :: string
  h_Rrtype :: "16 word"
  h_Class :: "16 word"
  h_Ttl :: "32 word"

type_synonym bytes = "8 word list"

text \<open>The values of an HTTPS record the code looks at.\<close>

datatype svcb = SVCBIPv4Hint "bytes list" | SVCBIPv6Hint "bytes list" | SVCBOther nat bytes

text \<open>The options of an \<^verbatim>\<open>OPT\<close> record: the client subnet, or a code with its data.\<close>

datatype edns0 =
    EDNS0_SUBNET (es_Family: "16 word") (es_SourceNetmask: "8 word") (es_SourceScope: "8 word")
      (es_Address: bytes)
  | EDNS0_Other "16 word" bytes

datatype rr =
    RR_A (rr_hdr: rr_header) bytes
  | RR_AAAA (rr_hdr: rr_header) bytes
  | RR_HTTPS (rr_hdr: rr_header) "svcb list"
  | RR_SOA (rr_hdr: rr_header) (soa_Minttl: "32 word")
  | RR_CNAME (rr_hdr: rr_header) string
  | RR_TXT (rr_hdr: rr_header) "string list"
  | RR_MX (rr_hdr: rr_header) "16 word" string
  | RR_OPT (rr_hdr: rr_header) (opt_Option: "edns0 list")
  | RR_Other (rr_hdr: rr_header) bytes

text \<open>\<^verbatim>\<open>*record.Header() = f(*record.Header())\<close>.\<close>

fun rr_map_hdr :: "(rr_header \<Rightarrow> rr_header) \<Rightarrow> rr \<Rightarrow> rr" where
  "rr_map_hdr f (RR_A h b) = RR_A (f h) b"
| "rr_map_hdr f (RR_AAAA h b) = RR_AAAA (f h) b"
| "rr_map_hdr f (RR_HTTPS h v) = RR_HTTPS (f h) v"
| "rr_map_hdr f (RR_SOA h m) = RR_SOA (f h) m"
| "rr_map_hdr f (RR_CNAME h t) = RR_CNAME (f h) t"
| "rr_map_hdr f (RR_TXT h ts) = RR_TXT (f h) ts"
| "rr_map_hdr f (RR_MX h p x) = RR_MX (f h) p x"
| "rr_map_hdr f (RR_OPT h os) = RR_OPT (f h) os"
| "rr_map_hdr f (RR_Other h b) = RR_Other (f h) b"

record question =
  q_Name :: string
  q_Qtype :: "16 word"
  q_Qclass :: "16 word"

record dns_msg =
  d_Id :: "16 word"
  d_Response :: bool
  d_Authoritative :: bool
  d_RecursionDesired :: bool
  d_RecursionAvailable :: bool
  d_Rcode :: int
  d_Question :: "question list"
  d_Answer :: "rr list"
  d_Ns :: "rr list"
  d_Extra :: "rr list"

definition RcodeSuccess :: int where "RcodeSuccess = 0"

record connection_owner =
  c_ProcessID :: "32 word"
  c_UserId :: int
  c_UserName :: string
  c_ProcessPath :: string
  c_AndroidPackageNames :: "string list"

type_synonym interface_type = "8 word"

definition InterfaceTypeWIFI :: interface_type where "InterfaceTypeWIFI = 0"
definition InterfaceTypeCellular :: interface_type where "InterfaceTypeCellular = 1"
definition InterfaceTypeEthernet :: interface_type where "InterfaceTypeEthernet = 2"
definition InterfaceTypeOther :: interface_type where "InterfaceTypeOther = 3"

record network_interface =
  ni_Name :: string
  ni_Addresses :: "prefix list"
  ni_Type :: interface_type
  ni_Expensive :: bool
  ni_Constrained :: bool

subsection \<open>What the rules consult outside \<^verbatim>\<open>src/\<close>\<close>

text \<open>
  An IP set and a matcher are known by what the code builds them from, or by what a binary rule-set
  carries: the ranges of a set (\<open>RawIPSet\<close>) and the object of a matcher (\<open>RawMatcher\<close>, \<open>RawAdGuard\<close>).
\<close>

datatype ip_elem = IPPrefix prefix | IPAddr addr

datatype ipset = IPSetOf "ip_elem list" | RawIPSet "(addr \<times> addr) list"

datatype domain_matcher = NewMatcher "string list" "string list" | RawMatcher nat

datatype adguard_matcher = NewAdGuardMatcher "string list" | RawAdGuard nat

record env =
  unicode_ToLower :: "string \<Rightarrow> string"
  unicode_EqualFold :: "string \<Rightarrow> string \<Rightarrow> bool"
  unicode_TrimSpace :: "string \<Rightarrow> string"
  regexp_Compile :: "string \<Rightarrow> error option"
  regexp_MatchString :: "string \<Rightarrow> string \<Rightarrow> bool"
  netip_ParsePrefix :: "string \<Rightarrow> prefix res"
  netip_ParseAddr :: "string \<Rightarrow> addr res"
  net_ParseMAC :: "string \<Rightarrow> bytes res"
  HardwareAddr_String :: "bytes \<Rightarrow> string"
  filepath_Base :: "string \<Rightarrow> string"
  sa_IsIP :: "socksaddr \<Rightarrow> bool"
  sa_IsIPv4 :: "socksaddr \<Rightarrow> bool"
  sa_IsIPv6 :: "socksaddr \<Rightarrow> bool"
  sa_IsDomain :: "socksaddr \<Rightarrow> bool"
  sa_IsValid :: "socksaddr \<Rightarrow> bool"
  IsDomainName :: "string \<Rightarrow> bool"
  IsPublicAddr :: "addr \<Rightarrow> bool"
  AddrFromIP :: "bytes \<Rightarrow> addr"
  IPSetBuilder_IPSet :: "ip_elem list \<Rightarrow> error option"
  IPSet_Contains :: "ipset \<Rightarrow> addr \<Rightarrow> bool"
  Matcher_Match :: "domain_matcher \<Rightarrow> string \<Rightarrow> bool"
  AdGuardMatcher_Match :: "adguard_matcher \<Rightarrow> string \<Rightarrow> bool"
  dns_CanonicalName :: "string \<Rightarrow> string"
  dns_IsDuplicate :: "rr \<Rightarrow> rr \<Rightarrow> bool"
  is_android :: bool
  clash_Mode :: "string option"
  DefaultNetworkInterface :: "network_interface option"
  NetworkInterfaces :: "network_interface list"
  MyInterfaces :: "string list"
  FinderInterfaces :: "network_interface list"
  MonitorDefaultInterface :: "network_interface option"
  WIFI_SSID :: string
  WIFI_BSSID :: string
  PreferredDomain :: "string \<Rightarrow> string \<Rightarrow> bool"
  PreferredAddress :: "string \<Rightarrow> addr \<Rightarrow> bool"
  TransportPreferredDomain :: "string \<Rightarrow> string \<Rightarrow> bool"

text \<open>
  A concrete environment: no compiled expression fails, an IP set holds its elements, a host name
  is matched by equality or by suffix.  The examples of the development run in it.
\<close>

fun addr_between :: "addr \<Rightarrow> addr \<Rightarrow> addr \<Rightarrow> bool" where
  "addr_between (Addr4 from) (Addr4 to) (Addr4 w) \<longleftrightarrow> from \<le> w \<and> w \<le> to"
| "addr_between (Addr6 from _) (Addr6 to _) (Addr6 w _) \<longleftrightarrow> from \<le> w \<and> w \<le> to"
| "addr_between _ _ _ \<longleftrightarrow> False"

definition plain_env :: env where
  "plain_env = \<lparr>
     unicode_ToLower = (\<lambda>s. s), unicode_EqualFold = (=), unicode_TrimSpace = (\<lambda>s. s),
     regexp_Compile = (\<lambda>_. None), regexp_MatchString = (=),
     netip_ParsePrefix = (\<lambda>_. Inl (New ''netip.ParsePrefix'')),
     netip_ParseAddr = (\<lambda>_. Inl (New ''netip.ParseAddr'')),
     net_ParseMAC = (\<lambda>_. Inl (New ''net.ParseMAC'')), HardwareAddr_String = (\<lambda>_. []),
     filepath_Base = (\<lambda>s. s),
     sa_IsIP = (\<lambda>a. addr_IsValid (s_Addr a)), sa_IsIPv4 = (\<lambda>a. addr_Is4 (s_Addr a)),
     sa_IsIPv6 = (\<lambda>a. addr_Is6 (s_Addr a)), sa_IsDomain = (\<lambda>a. s_Fqdn a \<noteq> []),
     sa_IsValid = (\<lambda>a. addr_IsValid (s_Addr a) \<or> s_Fqdn a \<noteq> []),
     IsDomainName = (\<lambda>s. s \<noteq> []), IsPublicAddr = addr_IsValid, AddrFromIP = (\<lambda>_. AddrZero),
     IPSetBuilder_IPSet = (\<lambda>_. None),
     IPSet_Contains = (\<lambda>s a. case s of
        IPSetOf es \<Rightarrow> list_ex (\<lambda>e. case e of IPPrefix p \<Rightarrow> prefix_Contains p a | IPAddr b \<Rightarrow> a = b) es
      | RawIPSet rr \<Rightarrow> list_ex (\<lambda>(from, to). addr_between from to a) rr),
     Matcher_Match = (\<lambda>d s. case d of
        NewMatcher ds ss \<Rightarrow> s \<in> set ds \<or> list_ex (\<lambda>x. suffix x s) ss
      | RawMatcher _ \<Rightarrow> False),
     AdGuardMatcher_Match = (\<lambda>_ _. False), dns_CanonicalName = (\<lambda>s. s), dns_IsDuplicate = (=),
     is_android = False, clash_Mode = None, DefaultNetworkInterface = None,
     NetworkInterfaces = [], MyInterfaces = [], FinderInterfaces = [],
     MonitorDefaultInterface = None, WIFI_SSID = [], WIFI_BSSID = [],
     PreferredDomain = (\<lambda>_ _. False), PreferredAddress = (\<lambda>_ _. False),
     TransportPreferredDomain = (\<lambda>_ _. False)\<rparr>"

subsection \<open>\<^verbatim>\<open>adapter.InboundContext\<close>\<close>

record inbound_context =
  m_Inbound :: string
  m_InboundType :: string
  m_IPVersion :: nat
  m_Network :: string
  m_Source :: socksaddr
  m_Destination :: socksaddr
  m_User :: string
  m_Outbound :: string
  m_Protocol :: string
  m_Domain :: string
  m_Client :: string
  m_SnifferNames :: "string list"
  m_SniffError :: "error option"
  m_InboundDetour :: string
  m_LastInbound :: string
  m_OriginDestination :: socksaddr
  m_RouteOriginalDestination :: socksaddr
  m_UDPDisableDomainUnmapping :: bool
  m_UDPConnect :: bool
  m_UDPTimeout :: int
  m_TLSFragment :: bool
  m_TLSFragmentFallbackDelay :: int
  m_TLSRecordFragment :: bool
  m_TLSSpoof :: string
  m_TLSSpoofMethod :: nat
  m_NetworkStrategy :: "nat option"
  m_NetworkType :: "interface_type list"
  m_FallbackNetworkType :: "interface_type list"
  m_FallbackDelay :: int
  m_DestinationAddresses :: "addr list"
  m_DNSResponse :: "dns_msg option"
  m_DestinationAddressMatchFromResponse :: bool
  m_ProcessInfo :: "connection_owner option"
  m_SourceMACAddress :: "bytes option"
  m_SourceHostname :: string
  m_QueryType :: "16 word"
  m_FakeIP :: bool
  m_IPCIDRMatchSource :: bool
  m_IPCIDRAcceptEmpty :: bool
  m_SourceAddressMatch :: bool
  m_SourcePortMatch :: bool
  m_DestinationAddressMatch :: bool
  m_DestinationPortMatch :: bool
  m_DidMatch :: bool
  m_IgnoreDestinationIPCIDRMatch :: bool

text \<open>The zero value \<^verbatim>\<open>adapter.InboundContext{}\<close>.\<close>

definition InboundContextZero :: inbound_context where
  "InboundContextZero = \<lparr>
     m_Inbound = [], m_InboundType = [], m_IPVersion = 0, m_Network = [],
     m_Source = SocksaddrZero, m_Destination = SocksaddrZero, m_User = [], m_Outbound = [],
     m_Protocol = [], m_Domain = [], m_Client = [], m_SnifferNames = [], m_SniffError = None,
     m_InboundDetour = [], m_LastInbound = [], m_OriginDestination = SocksaddrZero,
     m_RouteOriginalDestination = SocksaddrZero, m_UDPDisableDomainUnmapping = False,
     m_UDPConnect = False, m_UDPTimeout = 0, m_TLSFragment = False,
     m_TLSFragmentFallbackDelay = 0, m_TLSRecordFragment = False, m_TLSSpoof = [],
     m_TLSSpoofMethod = 0, m_NetworkStrategy = None, m_NetworkType = [],
     m_FallbackNetworkType = [], m_FallbackDelay = 0, m_DestinationAddresses = [],
     m_DNSResponse = None, m_DestinationAddressMatchFromResponse = False,
     m_ProcessInfo = None, m_SourceMACAddress = None, m_SourceHostname = [], m_QueryType = 0,
     m_FakeIP = False, m_IPCIDRMatchSource = False, m_IPCIDRAcceptEmpty = False,
     m_SourceAddressMatch = False, m_SourcePortMatch = False,
     m_DestinationAddressMatch = False, m_DestinationPortMatch = False, m_DidMatch = False,
     m_IgnoreDestinationIPCIDRMatch = False\<rparr>"

definition ResetRuleMatchCache :: "inbound_context \<Rightarrow> inbound_context" where
  "ResetRuleMatchCache c = c\<lparr>m_SourceAddressMatch := False, m_SourcePortMatch := False,
     m_DestinationAddressMatch := False, m_DestinationPortMatch := False, m_DidMatch := False\<rparr>"

definition ResetRuleCache :: "inbound_context \<Rightarrow> inbound_context" where
  "ResetRuleCache c =
     ResetRuleMatchCache (c\<lparr>m_IPCIDRMatchSource := False, m_IPCIDRAcceptEmpty := False\<rparr>)"

fun svcb_addresses :: "env \<Rightarrow> svcb \<Rightarrow> addr list" where
  "svcb_addresses E (SVCBIPv4Hint hint) =
     filter addr_IsValid (map (\<lambda>ip. addr_Unmap (AddrFromIP E ip)) hint)"
| "svcb_addresses E (SVCBIPv6Hint hint) = filter addr_IsValid (map (AddrFromIP E) hint)"
| "svcb_addresses E (SVCBOther _ _) = []"

fun record_addresses :: "env \<Rightarrow> rr \<Rightarrow> addr list" where
  "record_addresses E (RR_A _ ip) = filter addr_IsValid [AddrFromIP E ip]"
| "record_addresses E (RR_AAAA _ ip) = filter addr_IsValid [AddrFromIP E ip]"
| "record_addresses E (RR_HTTPS _ values) = concat (map (svcb_addresses E) values)"
| "record_addresses E _ = []"

definition DNSResponseAddresses :: "env \<Rightarrow> dns_msg option \<Rightarrow> addr list" where
  "DNSResponseAddresses E response =
     (case response of
        None \<Rightarrow> []
      | Some r \<Rightarrow> if d_Rcode r \<noteq> RcodeSuccess then []
                  else concat (map (record_addresses E) (d_Answer r)))"

definition DNSResponseAddressesForMatch :: "env \<Rightarrow> inbound_context \<Rightarrow> addr list" where
  "DNSResponseAddressesForMatch E c = DNSResponseAddresses E (m_DNSResponse c)"

subsection \<open>Lemmas\<close>

lemma ResetRuleMatchCache_simps [simp]:
  "m_IPCIDRMatchSource (ResetRuleMatchCache c) = m_IPCIDRMatchSource c"
  "m_IPCIDRAcceptEmpty (ResetRuleMatchCache c) = m_IPCIDRAcceptEmpty c"
  "m_IgnoreDestinationIPCIDRMatch (ResetRuleMatchCache c) = m_IgnoreDestinationIPCIDRMatch c"
  "m_DidMatch (ResetRuleMatchCache c) = False"
  by (simp_all add: ResetRuleMatchCache_def)

lemma ResetRuleCache_simps [simp]:
  "m_IPCIDRMatchSource (ResetRuleCache c) = False"
  "m_IPCIDRAcceptEmpty (ResetRuleCache c) = False"
  "m_IgnoreDestinationIPCIDRMatch (ResetRuleCache c) = m_IgnoreDestinationIPCIDRMatch c"
  "m_DidMatch (ResetRuleCache c) = False"
  by (simp_all add: ResetRuleCache_def)

lemma rr_map_hdr_simps [simp]:
  "rr_hdr (rr_map_hdr f r) = f (rr_hdr r)"
  "rr_map_hdr f (rr_map_hdr g r) = rr_map_hdr (f \<circ> g) r"
  by (cases r; simp)+

lemma DNSResponseAddresses_valid:
  "a \<in> set (DNSResponseAddresses E r) \<Longrightarrow> addr_IsValid a"
proof -
  have svcb: "a \<in> set (svcb_addresses E v) \<Longrightarrow> addr_IsValid a" for v
    by (cases v) auto
  have "a \<in> set (record_addresses E rr) \<Longrightarrow> addr_IsValid a" for rr
    by (cases rr) (auto dest: svcb split: if_splits)
  then show "a \<in> set (DNSResponseAddresses E r) \<Longrightarrow> addr_IsValid a"
    by (auto simp: DNSResponseAddresses_def split: option.splits if_splits)
qed

end
