(* ===== verification/Options.thy ===== *)
theory Options
  imports Metadata
begin

text \<open>
  The configuration the rule constructors read: \<^verbatim>\<open>option/rule.go\<close>, \<^verbatim>\<open>option/rule_dns.go\<close>,
  \<^verbatim>\<open>option/rule_set.go\<close>, \<^verbatim>\<open>option/rule_action.go\<close> and \<^verbatim>\<open>DialerOptions\<close> of \<^verbatim>\<open>option/outbound.go\<close>, after
  decoding.  A field of a Go struct is a field of the record under the same name with a prefix; an
  embedded struct is a record that is extended.

  Go tells a nil slice from an empty one, and \<^verbatim>\<open>IsValid\<close> does so through \<^verbatim>\<open>reflect.DeepEqual\<close>: a list
  option is \<open>None\<close> when the slice is nil.  \<open>DeepEqual\<close> of two options is the equality of the records.
\<close>

type_synonym 'a listable = "'a list option"

definition elems :: "'a listable \<Rightarrow> 'a list" where
  "elems l = (case l of None \<Rightarrow> [] | Some xs \<Rightarrow> xs)"

lemma elems_simps [simp]: "elems None = []" "elems (Some xs) = xs"
  by (simp_all add: elems_def)

definition RuleTypeDefault :: string where "RuleTypeDefault = ''default''"
definition RuleTypeLogical :: string where "RuleTypeLogical = ''logical''"

definition RuleActionTypeRoute :: string where "RuleActionTypeRoute = ''route''"
definition RuleActionTypeRouteOptions :: string where "RuleActionTypeRouteOptions = ''route-options''"
definition RuleActionTypeEvaluate :: string where "RuleActionTypeEvaluate = ''evaluate''"
definition RuleActionTypeRespond :: string where "RuleActionTypeRespond = ''respond''"
definition RuleActionTypeDirect :: string where "RuleActionTypeDirect = ''direct''"
definition RuleActionTypeBypass :: string where "RuleActionTypeBypass = ''bypass''"
definition RuleActionTypeReject :: string where "RuleActionTypeReject = ''reject''"
definition RuleActionTypeHijackDNS :: string where "RuleActionTypeHijackDNS = ''hijack-dns''"
definition RuleActionTypeSniff :: string where "RuleActionTypeSniff = ''sniff''"
definition RuleActionTypeResolve :: string where "RuleActionTypeResolve = ''resolve''"
definition RuleActionTypePredefined :: string where "RuleActionTypePredefined = ''predefined''"

definition RuleActionRejectMethodDefault :: string where
  "RuleActionRejectMethodDefault = ''default''"
definition RuleActionRejectMethodDrop :: string where "RuleActionRejectMethodDrop = ''drop''"
definition RuleActionRejectMethodReply :: string where "RuleActionRejectMethodReply = ''reply''"

lemmas action_types = RuleActionTypeRoute_def RuleActionTypeRouteOptions_def
  RuleActionTypeEvaluate_def RuleActionTypeRespond_def RuleActionTypeDirect_def
  RuleActionTypeBypass_def RuleActionTypeReject_def RuleActionTypeHijackDNS_def
  RuleActionTypeSniff_def RuleActionTypeResolve_def RuleActionTypePredefined_def

subsection \<open>Action options\<close>

type_synonym duration = int
type_synonym domain_strategy = nat
type_synonym network_strategy = nat

record domain_resolve_options =
  drv_Server :: string
  drv_Timeout :: duration
  drv_Strategy :: domain_strategy
  drv_DisableCache :: bool
  drv_DisableOptimisticCache :: bool
  drv_RewriteTTL :: "32 word option"
  drv_ClientSubnet :: "prefix option"

record dialer_options =
  dl_Detour :: string
  dl_BindInterface :: string
  dl_Inet4BindAddress :: "addr option"
  dl_Inet6BindAddress :: "addr option"
  dl_BindAddressNoPort :: bool
  dl_ProtectPath :: string
  dl_RoutingMark :: "32 word"
  dl_ReuseAddr :: bool
  dl_NetNs :: string
  dl_ConnectTimeout :: duration
  dl_TCPFastOpen :: bool
  dl_TCPMultiPath :: bool
  dl_DisableTCPKeepAlive :: bool
  dl_TCPKeepAlive :: duration
  dl_TCPKeepAliveInterval :: duration
  dl_UDPFragment :: "bool option"
  dl_UDPFragmentDefault :: bool
  dl_DomainResolver :: "domain_resolve_options option"
  dl_NetworkStrategy :: "network_strategy option"
  dl_NetworkType :: "interface_type listable"
  dl_FallbackNetworkType :: "interface_type listable"
  dl_FallbackDelay :: duration
  dl_DomainStrategy :: domain_strategy

record RawRouteOptionsActionOptions =
  ro_OverrideAddress :: string
  ro_OverridePort :: "16 word"
  ro_NetworkStrategy :: "network_strategy option"
  ro_FallbackDelay :: "32 word"
  ro_UDPDisableDomainUnmapping :: bool
  ro_UDPConnect :: bool
  ro_UDPTimeout :: duration
  ro_TLSFragment :: bool
  ro_TLSFragmentFallbackDelay :: duration
  ro_TLSRecordFragment :: bool
  ro_TLSSpoof :: string
  ro_TLSSpoofMethod :: string

record RouteActionOptions = RawRouteOptionsActionOptions +
  ro_Outbound :: string

record RejectActionOptions =
  rj_Method :: string
  rj_NoDrop :: bool

record RouteActionSniff =
  sn_Sniffer :: "string listable"
  sn_Timeout :: duration

record RouteActionResolve =
  rs_Server :: string
  rs_Timeout :: duration
  rs_Strategy :: domain_strategy
  rs_DisableCache :: bool
  rs_DisableOptimisticCache :: bool
  rs_RewriteTTL :: "32 word option"
  rs_ClientSubnet :: "prefix option"

record RuleActionOptions =
  ra_Action :: string
  ra_RouteOptions :: RouteActionOptions
  ra_RouteOptionsOptions :: RawRouteOptionsActionOptions
  ra_DirectOptions :: dialer_options
  ra_BypassOptions :: RouteActionOptions
  ra_RejectOptions :: RejectActionOptions
  ra_SniffOptions :: RouteActionSniff
  ra_ResolveOptions :: RouteActionResolve

record DNSRouteOptionsActionOptions =
  do_Strategy :: domain_strategy
  do_Timeout :: duration
  do_DisableCache :: bool
  do_DisableOptimisticCache :: bool
  do_RewriteTTL :: "32 word option"
  do_ClientSubnet :: "prefix option"

record DNSRouteActionOptions = DNSRouteOptionsActionOptions +
  do_Server :: string

record DNSRouteActionPredefined =
  pd_Rcode :: "int option"
  pd_Answer :: "rr listable"
  pd_Ns :: "rr listable"
  pd_Extra :: "rr listable"

record DNSRuleActionOptions =
  da_Action :: string
  da_RouteOptions :: DNSRouteActionOptions
  da_RouteOptionsOptions :: DNSRouteOptionsActionOptions
  da_RejectOptions :: RejectActionOptions
  da_PredefinedOptions :: DNSRouteActionPredefined

subsection \<open>Zero values of the action options\<close>

definition dialer_options_zero :: dialer_options where
  "dialer_options_zero = \<lparr>dl_Detour = [], dl_BindInterface = [], dl_Inet4BindAddress = None,
     dl_Inet6BindAddress = None, dl_BindAddressNoPort = False, dl_ProtectPath = [],
     dl_RoutingMark = 0, dl_ReuseAddr = False, dl_NetNs = [], dl_ConnectTimeout = 0,
     dl_TCPFastOpen = False, dl_TCPMultiPath = False, dl_DisableTCPKeepAlive = False,
     dl_TCPKeepAlive = 0, dl_TCPKeepAliveInterval = 0, dl_UDPFragment = None,
     dl_UDPFragmentDefault = False, dl_DomainResolver = None, dl_NetworkStrategy = None,
     dl_NetworkType = None, dl_FallbackNetworkType = None, dl_FallbackDelay = 0,
     dl_DomainStrategy = 0\<rparr>"

definition RawRouteOptionsActionOptions_zero :: RawRouteOptionsActionOptions where
  "RawRouteOptionsActionOptions_zero = \<lparr>ro_OverrideAddress = [], ro_OverridePort = 0,
     ro_NetworkStrategy = None, ro_FallbackDelay = 0, ro_UDPDisableDomainUnmapping = False,
     ro_UDPConnect = False, ro_UDPTimeout = 0, ro_TLSFragment = False,
     ro_TLSFragmentFallbackDelay = 0, ro_TLSRecordFragment = False, ro_TLSSpoof = [],
     ro_TLSSpoofMethod = []\<rparr>"

definition RouteActionOptions_zero :: RouteActionOptions where
  "RouteActionOptions_zero =
     RawRouteOptionsActionOptions.extend RawRouteOptionsActionOptions_zero \<lparr>ro_Outbound = []\<rparr>"

definition RuleActionOptions_zero :: RuleActionOptions where
  "RuleActionOptions_zero = \<lparr>ra_Action = [], ra_RouteOptions = RouteActionOptions_zero,
     ra_RouteOptionsOptions = RawRouteOptionsActionOptions_zero,
     ra_DirectOptions = dialer_options_zero, ra_BypassOptions = RouteActionOptions_zero,
     ra_RejectOptions = \<lparr>rj_Method = [], rj_NoDrop = False\<rparr>,
     ra_SniffOptions = \<lparr>sn_Sniffer = None, sn_Timeout = 0\<rparr>,
     ra_ResolveOptions = \<lparr>rs_Server = [], rs_Timeout = 0, rs_Strategy = 0,
       rs_DisableCache = False, rs_DisableOptimisticCache = False, rs_RewriteTTL = None,
       rs_ClientSubnet = None\<rparr>\<rparr>"

definition DNSRouteOptionsActionOptions_zero :: DNSRouteOptionsActionOptions where
  "DNSRouteOptionsActionOptions_zero = \<lparr>do_Strategy = 0, do_Timeout = 0, do_DisableCache = False,
     do_DisableOptimisticCache = False, do_RewriteTTL = None, do_ClientSubnet = None\<rparr>"

definition DNSRuleActionOptions_zero :: DNSRuleActionOptions where
  "DNSRuleActionOptions_zero = \<lparr>da_Action = [],
     da_RouteOptions =
       DNSRouteOptionsActionOptions.extend DNSRouteOptionsActionOptions_zero \<lparr>do_Server = []\<rparr>,
     da_RouteOptionsOptions = DNSRouteOptionsActionOptions_zero,
     da_RejectOptions = \<lparr>rj_Method = [], rj_NoDrop = False\<rparr>,
     da_PredefinedOptions = \<lparr>pd_Rcode = None, pd_Answer = None, pd_Ns = None, pd_Extra = None\<rparr>\<rparr>"

subsection \<open>Rule options\<close>

text \<open>The fields of a default rule, of a default rule of a rule set, and of a default DNS rule.\<close>

record RawDefaultRule =
  r_Inbound :: "string listable"
  r_IPVersion :: int
  r_Network :: "string listable"
  r_AuthUser :: "string listable"
  r_Protocol :: "string listable"
  r_Client :: "string listable"
  r_Domain :: "string listable"
  r_DomainSuffix :: "string listable"
  r_DomainKeyword :: "string listable"
  r_DomainRegex :: "string listable"
  r_Geosite :: "string listable"
  r_SourceGeoIP :: "string listable"
  r_GeoIP :: "string listable"
  r_SourceIPCIDR :: "string listable"
  r_SourceIPIsPrivate :: bool
  r_IPCIDR :: "string listable"
  r_IPIsPrivate :: bool
  r_SourcePort :: "16 word listable"
  r_SourcePortRange :: "string listable"
  r_Port :: "16 word listable"
  r_PortRange :: "string listable"
  r_ProcessName :: "string listable"
  r_ProcessPath :: "string listable"
  r_ProcessPathRegex :: "string listable"
  r_PackageName :: "string listable"
  r_PackageNameRegex :: "string listable"
  r_User :: "string listable"
  r_UserID :: "int listable"
  r_ClashMode :: string
  r_NetworkType :: "interface_type listable"
  r_NetworkIsExpensive :: bool
  r_NetworkIsConstrained :: bool
  r_WIFISSID :: "string listable"
  r_WIFIBSSID :: "string listable"
  r_InterfaceAddress :: "(string \<times> prefix list) listable"
  r_NetworkInterfaceAddress :: "(interface_type \<times> prefix list) listable"
  r_DefaultInterfaceAddress :: "prefix listable"
  r_SourceMACAddress :: "string listable"
  r_SourceHostname :: "string listable"
  r_PreferredBy :: "string listable"
  r_RuleSet :: "string listable"
  r_RuleSetIPCIDRMatchSource :: bool
  r_Invert :: bool
  r_Deprecated_RulesetIPCIDRMatchSource :: bool

record DefaultRuleOptions = RawDefaultRule +
  r_RuleAction :: RuleActionOptions

record DefaultHeadlessRuleOptions =
  hr_QueryType :: "16 word listable"
  hr_Network :: "string listable"
  hr_Domain :: "string listable"
  hr_DomainSuffix :: "string listable"
  hr_DomainKeyword :: "string listable"
  hr_DomainRegex :: "string listable"
  hr_SourceIPCIDR :: "string listable"
  hr_IPCIDR :: "string listable"
  hr_SourcePort :: "16 word listable"
  hr_SourcePortRange :: "string listable"
  hr_Port :: "16 word listable"
  hr_PortRange :: "string listable"
  hr_ProcessName :: "string listable"
  hr_ProcessPath :: "string listable"
  hr_ProcessPathRegex :: "string listable"
  hr_PackageName :: "string listable"
  hr_PackageNameRegex :: "string listable"
  hr_NetworkType :: "interface_type listable"
  hr_NetworkIsExpensive :: bool
  hr_NetworkIsConstrained :: bool
  hr_WIFISSID :: "string listable"
  hr_WIFIBSSID :: "string listable"
  hr_NetworkInterfaceAddress :: "(interface_type \<times> prefix list) listable"
  hr_DefaultInterfaceAddress :: "prefix listable"
  hr_Invert :: bool
  hr_DomainMatcher :: "domain_matcher option"
  hr_SourceIPSet :: "ipset option"
  hr_IPSet :: "ipset option"
  hr_AdGuardDomain :: "string listable"
  hr_AdGuardDomainMatcher :: "adguard_matcher option"

record RawDefaultDNSRule =
  dr_Inbound :: "string listable"
  dr_IPVersion :: int
  dr_QueryType :: "16 word listable"
  dr_Network :: "string listable"
  dr_AuthUser :: "string listable"
  dr_Protocol :: "string listable"
  dr_Domain :: "string listable"
  dr_DomainSuffix :: "string listable"
  dr_DomainKeyword :: "string listable"
  dr_DomainRegex :: "string listable"
  dr_SourceIPCIDR :: "string listable"
  dr_SourceIPIsPrivate :: bool
  dr_SourcePort :: "16 word listable"
  dr_SourcePortRange :: "string listable"
  dr_Port :: "16 word listable"
  dr_PortRange :: "string listable"
  dr_ProcessName :: "string listable"
  dr_ProcessPath :: "string listable"
  dr_ProcessPathRegex :: "string listable"
  dr_PackageName :: "string listable"
  dr_PackageNameRegex :: "string listable"
  dr_User :: "string listable"
  dr_UserID :: "int listable"
  dr_Outbound :: "string listable"
  dr_ClashMode :: string
  dr_NetworkType :: "interface_type listable"
  dr_NetworkIsExpensive :: bool
  dr_NetworkIsConstrained :: bool
  dr_WIFISSID :: "string listable"
  dr_WIFIBSSID :: "string listable"
  dr_InterfaceAddress :: "(string \<times> prefix list) listable"
  dr_NetworkInterfaceAddress :: "(interface_type \<times> prefix list) listable"
  dr_DefaultInterfaceAddress :: "prefix listable"
  dr_SourceMACAddress :: "string listable"
  dr_SourceHostname :: "string listable"
  dr_PreferredBy :: "string listable"
  dr_RuleSet :: "string listable"
  dr_RuleSetIPCIDRMatchSource :: bool
  dr_MatchResponse :: bool
  dr_IPCIDR :: "string listable"
  dr_IPIsPrivate :: bool
  dr_IPAcceptAny :: bool
  dr_ResponseRcode :: "int option"
  dr_ResponseAnswer :: "rr option listable"
  dr_ResponseNs :: "rr option listable"
  dr_ResponseExtra :: "rr option listable"
  dr_Invert :: bool
  dr_Geosite :: "string listable"
  dr_SourceGeoIP :: "string listable"
  dr_GeoIP :: "string listable"
  dr_RuleSetIPCIDRAcceptEmpty :: bool
  dr_Deprecated_RulesetIPCIDRMatchSource :: bool

record DefaultDNSRuleOptions = RawDefaultDNSRule +
  dr_DNSRuleAction :: DNSRuleActionOptions

text \<open>Zero values.\<close>

definition RawDefaultRule_zero :: RawDefaultRule where
  "RawDefaultRule_zero = \<lparr>
     r_Inbound = None, r_IPVersion = 0, r_Network = None, r_AuthUser = None,
     r_Protocol = None, r_Client = None, r_Domain = None, r_DomainSuffix = None,
     r_DomainKeyword = None, r_DomainRegex = None, r_Geosite = None, r_SourceGeoIP = None,
     r_GeoIP = None, r_SourceIPCIDR = None, r_SourceIPIsPrivate = False, r_IPCIDR = None,
     r_IPIsPrivate = False, r_SourcePort = None, r_SourcePortRange = None, r_Port = None,
     r_PortRange = None, r_ProcessName = None, r_ProcessPath = None,
     r_ProcessPathRegex = None, r_PackageName = None, r_PackageNameRegex = None,
     r_User = None, r_UserID = None, r_ClashMode = [], r_NetworkType = None,
     r_NetworkIsExpensive = False, r_NetworkIsConstrained = False, r_WIFISSID = None,
     r_WIFIBSSID = None, r_InterfaceAddress = None, r_NetworkInterfaceAddress = None,
     r_DefaultInterfaceAddress = None, r_SourceMACAddress = None, r_SourceHostname = None,
     r_PreferredBy = None, r_RuleSet = None, r_RuleSetIPCIDRMatchSource = False,
     r_Invert = False, r_Deprecated_RulesetIPCIDRMatchSource = False\<rparr>"

definition DefaultHeadlessRuleOptions_zero :: DefaultHeadlessRuleOptions where
  "DefaultHeadlessRuleOptions_zero = \<lparr>
     hr_QueryType = None, hr_Network = None, hr_Domain = None, hr_DomainSuffix = None,
     hr_DomainKeyword = None, hr_DomainRegex = None, hr_SourceIPCIDR = None, hr_IPCIDR = None,
     hr_SourcePort = None, hr_SourcePortRange = None, hr_Port = None, hr_PortRange = None,
     hr_ProcessName = None, hr_ProcessPath = None, hr_ProcessPathRegex = None,
     hr_PackageName = None, hr_PackageNameRegex = None, hr_NetworkType = None,
     hr_NetworkIsExpensive = False, hr_NetworkIsConstrained = False, hr_WIFISSID = None,
     hr_WIFIBSSID = None, hr_NetworkInterfaceAddress = None,
     hr_DefaultInterfaceAddress = None, hr_Invert = False, hr_DomainMatcher = None,
     hr_SourceIPSet = None, hr_IPSet = None, hr_AdGuardDomain = None,
     hr_AdGuardDomainMatcher = None\<rparr>"

definition RawDefaultDNSRule_zero :: RawDefaultDNSRule where
  "RawDefaultDNSRule_zero = \<lparr>
     dr_Inbound = None, dr_IPVersion = 0, dr_QueryType = None, dr_Network = None,
     dr_AuthUser = None, dr_Protocol = None, dr_Domain = None, dr_DomainSuffix = None,
     dr_DomainKeyword = None, dr_DomainRegex = None, dr_SourceIPCIDR = None,
     dr_SourceIPIsPrivate = False, dr_SourcePort = None, dr_SourcePortRange = None,
     dr_Port = None, dr_PortRange = None, dr_ProcessName = None, dr_ProcessPath = None,
     dr_ProcessPathRegex = None, dr_PackageName = None, dr_PackageNameRegex = None,
     dr_User = None, dr_UserID = None, dr_Outbound = None, dr_ClashMode = [],
     dr_NetworkType = None, dr_NetworkIsExpensive = False, dr_NetworkIsConstrained = False,
     dr_WIFISSID = None, dr_WIFIBSSID = None, dr_InterfaceAddress = None,
     dr_NetworkInterfaceAddress = None, dr_DefaultInterfaceAddress = None,
     dr_SourceMACAddress = None, dr_SourceHostname = None, dr_PreferredBy = None,
     dr_RuleSet = None, dr_RuleSetIPCIDRMatchSource = False, dr_MatchResponse = False,
     dr_IPCIDR = None, dr_IPIsPrivate = False, dr_IPAcceptAny = False,
     dr_ResponseRcode = None, dr_ResponseAnswer = None, dr_ResponseNs = None,
     dr_ResponseExtra = None, dr_Invert = False, dr_Geosite = None, dr_SourceGeoIP = None,
     dr_GeoIP = None, dr_RuleSetIPCIDRAcceptEmpty = False,
     dr_Deprecated_RulesetIPCIDRMatchSource = False\<rparr>"

definition DefaultRuleOptions_zero :: DefaultRuleOptions where
  "DefaultRuleOptions_zero =
     RawDefaultRule.extend RawDefaultRule_zero \<lparr>r_RuleAction = RuleActionOptions_zero\<rparr>"

definition DefaultDNSRuleOptions_zero :: DefaultDNSRuleOptions where
  "DefaultDNSRuleOptions_zero =
     RawDefaultDNSRule.extend RawDefaultDNSRule_zero
       \<lparr>dr_DNSRuleAction = DNSRuleActionOptions_zero\<rparr>"

text \<open>
  \<^verbatim>\<open>option.Rule\<close>, \<^verbatim>\<open>option.HeadlessRule\<close> and \<^verbatim>\<open>option.DNSRule\<close>: a type, the default options and the
  logical options, whose fields stand here directly.
\<close>

datatype ('d, 'a) option_rule =
  OptionRule (or_Type: string) (or_DefaultOptions: 'd) (or_Mode: string)
    (or_Rules: "('d, 'a) option_rule list") (or_Invert: bool) (or_RuleAction: 'a)

lemma option_rule_sub_size [termination_simp]:
  "sub \<in> set (or_Rules r) \<Longrightarrow> size sub < size r"
  by (cases r) (auto dest: size_list_estimation' [where f = size, OF _ order_refl] simp: less_Suc_eq_le)

type_synonym rule_options = "(DefaultRuleOptions, RuleActionOptions) option_rule"
type_synonym headless_options = "(DefaultHeadlessRuleOptions, unit) option_rule"
type_synonym dns_rule_options = "(DefaultDNSRuleOptions, DNSRuleActionOptions) option_rule"

definition DefaultRule_IsValid :: "DefaultRuleOptions \<Rightarrow> bool" where
  "DefaultRule_IsValid r \<longleftrightarrow> r \<noteq> DefaultRuleOptions_zero\<lparr>r_Invert := r_Invert r\<rparr>"

definition DefaultHeadlessRule_IsValid :: "DefaultHeadlessRuleOptions \<Rightarrow> bool" where
  "DefaultHeadlessRule_IsValid r \<longleftrightarrow>
     r \<noteq> DefaultHeadlessRuleOptions_zero\<lparr>hr_Invert := hr_Invert r\<rparr>"

definition DefaultDNSRule_IsValid :: "DefaultDNSRuleOptions \<Rightarrow> bool" where
  "DefaultDNSRule_IsValid r \<longleftrightarrow> r \<noteq> DefaultDNSRuleOptions_zero\<lparr>dr_Invert := dr_Invert r\<rparr>"

text \<open>\<^verbatim>\<open>common.All\<close> over a predicate that may panic: it stops at the first element that fails.\<close>

fun all_res :: "('a \<Rightarrow> bool res) \<Rightarrow> 'a list \<Rightarrow> bool res" where
  "all_res f [] = Inr True"
| "all_res f (x # xs) =
     (case f x of Inl e \<Rightarrow> Inl e | Inr b \<Rightarrow> if b then all_res f xs else Inr False)"

lemma all_res_cong [fundef_cong]:
  "xs = ys \<Longrightarrow> (\<And>x. x \<in> set ys \<Longrightarrow> f x = g x) \<Longrightarrow> all_res f xs = all_res g ys"
  by (induction xs arbitrary: ys) (auto split: sum.splits)

text \<open>
  \<^verbatim>\<open>IsValid\<close> of the three option types, which differ in the types they accept and in the message of
  the panic.
\<close>

fun Rule_IsValid :: "rule_options \<Rightarrow> bool res" where
  "Rule_IsValid (OptionRule type opts mode rules neg act) =
     (if type = RuleTypeDefault then Inr (DefaultRule_IsValid opts)
      else if type = RuleTypeLogical then
        (if rules = [] then Inr False else all_res Rule_IsValid rules)
      else Inl (Panic (''unknown rule type: '' @ type)))"

fun HeadlessRule_IsValid :: "headless_options \<Rightarrow> bool res" where
  "HeadlessRule_IsValid (OptionRule type opts mode rules neg act) =
     (if type = RuleTypeDefault \<or> type = [] then Inr (DefaultHeadlessRule_IsValid opts)
      else if type = RuleTypeLogical then
        (if rules = [] then Inr False else all_res HeadlessRule_IsValid rules)
      else Inl (Panic (''unknown rule type: '' @ type)))"

fun DNSRule_IsValid :: "dns_rule_options \<Rightarrow> bool res" where
  "DNSRule_IsValid (OptionRule type opts mode rules neg act) =
     (if type = RuleTypeDefault then Inr (DefaultDNSRule_IsValid opts)
      else if type = RuleTypeLogical then
        (if rules = [] then Inr False else all_res DNSRule_IsValid rules)
      else Inl (Panic (''unknown DNS rule type: '' @ type)))"

definition LogicalRule_IsValid :: "rule_options \<Rightarrow> bool res" where
  "LogicalRule_IsValid r = (if or_Rules r = [] then Inr False else all_res Rule_IsValid (or_Rules r))"

definition LogicalHeadlessRule_IsValid :: "headless_options \<Rightarrow> bool res" where
  "LogicalHeadlessRule_IsValid r =
     (if or_Rules r = [] then Inr False else all_res HeadlessRule_IsValid (or_Rules r))"

definition LogicalDNSRule_IsValid :: "dns_rule_options \<Rightarrow> bool res" where
  "LogicalDNSRule_IsValid r =
     (if or_Rules r = [] then Inr False else all_res DNSRule_IsValid (or_Rules r))"

subsection \<open>Rule-set options\<close>

definition RuleSetTypeInline :: string where "RuleSetTypeInline = ''inline''"
definition RuleSetTypeLocal :: string where "RuleSetTypeLocal = ''local''"
definition RuleSetTypeRemote :: string where "RuleSetTypeRemote = ''remote''"
definition RuleSetFormatSource :: string where "RuleSetFormatSource = ''source''"
definition RuleSetFormatBinary :: string where "RuleSetFormatBinary = ''binary''"

record PlainRuleSetCompat =
  pc_Version :: "8 word"
  pc_Rules :: "headless_options list"

definition RuleSetVersions :: "8 word list" where "RuleSetVersions = [1, 2, 3, 4, 5]"

definition PlainRuleSetCompat_Upgrade :: "PlainRuleSetCompat \<Rightarrow> headless_options list res" where
  "PlainRuleSetCompat_Upgrade r =
     (if pc_Version r \<in> set RuleSetVersions then Inr (pc_Rules r)
      else Inl (New (''unknown rule-set version: '' @ itoa (unat (pc_Version r)))))"

record rule_set_options =
  so_Type :: string
  so_Tag :: string
  so_Format :: string
  so_InlineRules :: "headless_options list"
  so_Path :: string
  so_URL :: string
  so_HTTPClient :: "bool option"
  so_UpdateInterval :: duration
  so_DownloadDetour :: string

end
