(* ===== verification/Rule_Action.thy ===== *)
theory Rule_Action
  imports Options
begin

text \<open>
  \<^verbatim>\<open>route/rule/rule_action.go\<close> with \<^verbatim>\<open>adapter.IsFinalAction\<close> and the option parser of
  \<^verbatim>\<open>common/tlsspoof/spoof.go\<close>: the actions a rule may have, how they are built from the options, the
  flood protection of \<^verbatim>\<open>reject\<close>, the sniffers a \<^verbatim>\<open>sniff\<close> action runs and the answer of a
  \<^verbatim>\<open>predefined\<close> action.  The strings the actions print in the log are left out.
\<close>

subsection \<open>What the constructors consult elsewhere\<close>

text \<open>
  \<open>dialer_New\<close> is the dialer constructor (its error, if any), \<open>ParseSocksaddrHostPort\<close> is the one of
  \<^verbatim>\<open>sing/common/metadata\<close>, \<open>PlatformSupported\<close> says whether the build has \<^verbatim>\<open>tls_spoof\<close>.
\<close>

record action_env =
  dialer_New :: "dialer_options \<Rightarrow> error option"
  ParseSocksaddrHostPort :: "string \<Rightarrow> 16 word \<Rightarrow> socksaddr"
  PlatformSupported :: bool

definition plain_action_env :: action_env where
  "plain_action_env = \<lparr>dialer_New = (\<lambda>_. None),
     ParseSocksaddrHostPort = (\<lambda>s p. \<lparr>s_Addr = AddrZero, s_Port = p, s_Fqdn = s\<rparr>),
     PlatformSupported = True\<rparr>"

subsection \<open>TLS spoof options\<close>

definition MethodWrongSequence :: nat where "MethodWrongSequence = 0"
definition MethodWrongChecksum :: nat where "MethodWrongChecksum = 1"
definition MethodWrongAcknowledgment :: nat where "MethodWrongAcknowledgment = 2"
definition MethodWrongMD5Sig :: nat where "MethodWrongMD5Sig = 3"
definition MethodWrongTimestamp :: nat where "MethodWrongTimestamp = 4"

definition ParseMethod :: "string \<Rightarrow> nat res" where
  "ParseMethod s =
     (if s = [] \<or> s = ''wrong-sequence'' then Inr MethodWrongSequence
      else if s = ''wrong-checksum'' then Inr MethodWrongChecksum
      else if s = ''wrong-ack'' then Inr MethodWrongAcknowledgment
      else if s = ''wrong-md5'' then Inr MethodWrongMD5Sig
      else if s = ''wrong-timestamp'' then Inr MethodWrongTimestamp
      else Inl (New (''tls_spoof: unknown method: '' @ s)))"

definition Method_String :: "nat \<Rightarrow> string" where
  "Method_String m =
     (if m = MethodWrongSequence then ''wrong-sequence''
      else if m = MethodWrongChecksum then ''wrong-checksum''
      else if m = MethodWrongAcknowledgment then ''wrong-ack''
      else if m = MethodWrongMD5Sig then ''wrong-md5''
      else if m = MethodWrongTimestamp then ''wrong-timestamp''
      else ''unknown'')"

definition tlsspoof_ParseOptions :: "bool \<Rightarrow> string \<Rightarrow> string \<Rightarrow> (string \<times> nat) res" where
  "tlsspoof_ParseOptions supported spoof method' =
     (if spoof = [] then
        (if method' \<noteq> [] then Inl (New ''spoof_method requires spoof'') else Inr ([], 0))
      else if \<not> supported then Inl (New ''tls_spoof is not supported on this platform'')
      else (case ParseMethod method' of Inl e \<Rightarrow> Inl e | Inr m \<Rightarrow> Inr (spoof, m)))"

subsection \<open>The actions\<close>

record RuleActionRouteOptions =
  a_OverrideAddress :: socksaddr
  a_OverridePort :: "16 word"
  a_NetworkStrategy :: "network_strategy option"
  a_NetworkType :: "interface_type list"
  a_FallbackNetworkType :: "interface_type list"
  a_FallbackDelay :: duration
  a_UDPDisableDomainUnmapping :: bool
  a_UDPConnect :: bool
  a_UDPTimeout :: duration
  a_TLSFragment :: bool
  a_TLSFragmentFallbackDelay :: duration
  a_TLSRecordFragment :: bool
  a_TLSSpoof :: string
  a_TLSSpoofMethod :: nat

record RuleActionDNSRouteOptions =
  a_Strategy :: domain_strategy
  a_Timeout :: duration
  a_DisableCache :: bool
  a_DisableOptimisticCache :: bool
  a_RewriteTTL :: "32 word option"
  a_ClientSubnet :: prefix

record RuleActionReject =
  a_Method :: string
  a_NoDrop :: bool
  a_dropCounter :: "int list"

datatype stream_sniffer =
  TLSClientHello | HTTPHost | StreamDomainNameQuery | BitTorrent | SSH | RDP

datatype packet_sniffer =
  QUICClientHello | DomainNameQuery | STUNMessage | UTP | UDPTracker | DTLSRecord | NTP

record RuleActionSniff =
  a_SnifferNames :: "string list"
  a_StreamSniffers :: "stream_sniffer list"
  a_PacketSniffers :: "packet_sniffer list"
  a_SniffTimeout :: duration
  a_OverrideDestination :: bool

record RuleActionResolve =
  a_ResolveServer :: string
  a_ResolveTimeout :: duration
  a_ResolveStrategy :: domain_strategy
  a_ResolveDisableCache :: bool
  a_ResolveDisableOptimisticCache :: bool
  a_ResolveRewriteTTL :: "32 word option"
  a_ResolveClientSubnet :: prefix

record RuleActionPredefined =
  a_Rcode :: int
  a_Answer :: "rr list"
  a_Ns :: "rr list"
  a_Extra :: "rr list"

datatype rule_action =
    RuleActionRoute string RuleActionRouteOptions
  | RuleActionRouteOptions RuleActionRouteOptions
  | RuleActionBypass string RuleActionRouteOptions
  | RuleActionDirect dialer_options
  | RuleActionReject RuleActionReject
  | RuleActionHijackDNS
  | RuleActionSniff RuleActionSniff
  | RuleActionResolve RuleActionResolve
  | RuleActionDNSRoute string RuleActionDNSRouteOptions
  | RuleActionEvaluate string RuleActionDNSRouteOptions
  | RuleActionRespond
  | RuleActionDNSRouteOptions RuleActionDNSRouteOptions
  | RuleActionPredefined RuleActionPredefined

fun action_Type :: "rule_action \<Rightarrow> string" where
  "action_Type (RuleActionRoute _ _) = RuleActionTypeRoute"
| "action_Type (RuleActionRouteOptions _) = RuleActionTypeRouteOptions"
| "action_Type (RuleActionBypass _ _) = RuleActionTypeBypass"
| "action_Type (RuleActionDirect _) = RuleActionTypeDirect"
| "action_Type (RuleActionReject _) = RuleActionTypeReject"
| "action_Type RuleActionHijackDNS = RuleActionTypeHijackDNS"
| "action_Type (RuleActionSniff _) = RuleActionTypeSniff"
| "action_Type (RuleActionResolve _) = RuleActionTypeResolve"
| "action_Type (RuleActionDNSRoute _ _) = RuleActionTypeRoute"
| "action_Type (RuleActionEvaluate _ _) = RuleActionTypeEvaluate"
| "action_Type RuleActionRespond = RuleActionTypeRespond"
| "action_Type (RuleActionDNSRouteOptions _) = RuleActionTypeRouteOptions"
| "action_Type (RuleActionPredefined _) = RuleActionTypePredefined"

definition IsFinalAction :: "rule_action \<Rightarrow> bool" where
  "IsFinalAction a \<longleftrightarrow>
     action_Type a \<notin> {RuleActionTypeSniff, RuleActionTypeResolve, RuleActionTypeEvaluate}"

subsection \<open>Sniffers\<close>

text \<open>One name of \<^verbatim>\<open>SnifferNames\<close>: the sniffers its case appends, in order.\<close>

definition sniffer_of :: "string \<Rightarrow> (stream_sniffer list \<times> packet_sniffer list) option" where
  "sniffer_of name =
     (if name = ''tls'' then Some ([TLSClientHello], [])
      else if name = ''http'' then Some ([HTTPHost], [])
      else if name = ''quic'' then Some ([], [QUICClientHello])
      else if name = ''dns'' then Some ([StreamDomainNameQuery], [DomainNameQuery])
      else if name = ''stun'' then Some ([], [STUNMessage])
      else if name = ''bittorrent'' then Some ([BitTorrent], [UTP, UDPTracker])
      else if name = ''dtls'' then Some ([], [DTLSRecord])
      else if name = ''ssh'' then Some ([SSH], [])
      else if name = ''rdp'' then Some ([RDP], [])
      else if name = ''ntp'' then Some ([], [NTP])
      else None)"

fun sniff_build_loop :: "string list \<Rightarrow> RuleActionSniff \<Rightarrow> RuleActionSniff res" where
  "sniff_build_loop [] r = Inr r"
| "sniff_build_loop (name # names) r =
     (case sniffer_of name of
        None \<Rightarrow> Inl (New (''unknown sniffer: '' @ name))
      | Some (ss, ps) \<Rightarrow>
          sniff_build_loop names (r\<lparr>a_StreamSniffers := a_StreamSniffers r @ ss,
                                    a_PacketSniffers := a_PacketSniffers r @ ps\<rparr>))"

definition sniff_build :: "RuleActionSniff \<Rightarrow> RuleActionSniff res" where
  "sniff_build r = sniff_build_loop (a_SnifferNames r) r"

subsection \<open>Building an action from its options\<close>

definition newRuleActionRouteOptions ::
  "action_env \<Rightarrow> 'x RawRouteOptionsActionOptions_scheme \<Rightarrow> RuleActionRouteOptions res" where
  "newRuleActionRouteOptions A options =
     (case tlsspoof_ParseOptions (PlatformSupported A) (ro_TLSSpoof options)
             (ro_TLSSpoofMethod options) of
        Inl e \<Rightarrow> Inl e
      | Inr (spoof, spoofMethod) \<Rightarrow>
          Inr \<lparr>a_OverrideAddress = ParseSocksaddrHostPort A (ro_OverrideAddress options) 0,
               a_OverridePort = ro_OverridePort options,
               a_NetworkStrategy = ro_NetworkStrategy options,
               a_NetworkType = [], a_FallbackNetworkType = [],
               a_FallbackDelay = uint (ro_FallbackDelay options),
               a_UDPDisableDomainUnmapping = ro_UDPDisableDomainUnmapping options,
               a_UDPConnect = ro_UDPConnect options,
               a_UDPTimeout = ro_UDPTimeout options,
               a_TLSFragment = ro_TLSFragment options,
               a_TLSFragmentFallbackDelay = ro_TLSFragmentFallbackDelay options,
               a_TLSRecordFragment = ro_TLSRecordFragment options,
               a_TLSSpoof = spoof, a_TLSSpoofMethod = spoofMethod\<rparr>)"

definition prefix_or_zero :: "prefix option \<Rightarrow> prefix" where
  "prefix_or_zero p = (case p of None \<Rightarrow> PrefixZero | Some q \<Rightarrow> q)"

definition NewRuleAction :: "action_env \<Rightarrow> RuleActionOptions \<Rightarrow> rule_action option res" where
  "NewRuleAction A act =
     (if ra_Action act = [] then Inr None
      else if ra_Action act = RuleActionTypeRoute then
        (case newRuleActionRouteOptions A (ra_RouteOptions act) of
           Inl e \<Rightarrow> Inl e
         | Inr o' \<Rightarrow> Inr (Some (RuleActionRoute (ro_Outbound (ra_RouteOptions act)) o')))
      else if ra_Action act = RuleActionTypeRouteOptions then
        (case newRuleActionRouteOptions A (ra_RouteOptionsOptions act) of
           Inl e \<Rightarrow> Inl e | Inr o' \<Rightarrow> Inr (Some (RuleActionRouteOptions o')))
      else if ra_Action act = RuleActionTypeBypass then
        (case newRuleActionRouteOptions A (ra_BypassOptions act) of
           Inl e \<Rightarrow> Inl e
         | Inr o' \<Rightarrow> Inr (Some (RuleActionBypass (ro_Outbound (ra_BypassOptions act)) o')))
      else if ra_Action act = RuleActionTypeDirect then
        (case dialer_New A (ra_DirectOptions act) of
           Some e \<Rightarrow> Inl e
         | None \<Rightarrow> Inr (Some (RuleActionDirect (ra_DirectOptions act))))
      else if ra_Action act = RuleActionTypeReject then
        Inr (Some (RuleActionReject \<lparr>a_Method = rj_Method (ra_RejectOptions act),
          a_NoDrop = rj_NoDrop (ra_RejectOptions act), a_dropCounter = []\<rparr>))
      else if ra_Action act = RuleActionTypeHijackDNS then Inr (Some RuleActionHijackDNS)
      else if ra_Action act = RuleActionTypeSniff then
        (case sniff_build \<lparr>a_SnifferNames = elems (sn_Sniffer (ra_SniffOptions act)),
                a_StreamSniffers = [], a_PacketSniffers = [],
                a_SniffTimeout = sn_Timeout (ra_SniffOptions act), a_OverrideDestination = False\<rparr> of
           Inl e \<Rightarrow> Inl e | Inr s \<Rightarrow> Inr (Some (RuleActionSniff s)))
      else if ra_Action act = RuleActionTypeResolve then
        (let r = ra_ResolveOptions act
         in Inr (Some (RuleActionResolve \<lparr>a_ResolveServer = rs_Server r,
              a_ResolveTimeout = rs_Timeout r, a_ResolveStrategy = rs_Strategy r,
              a_ResolveDisableCache = rs_DisableCache r,
              a_ResolveDisableOptimisticCache = rs_DisableOptimisticCache r,
              a_ResolveRewriteTTL = rs_RewriteTTL r,
              a_ResolveClientSubnet = prefix_or_zero (rs_ClientSubnet r)\<rparr>)))
      else Inl (Panic (''unknown rule action: '' @ ra_Action act)))"

definition dns_route_options :: "'x DNSRouteOptionsActionOptions_scheme \<Rightarrow> RuleActionDNSRouteOptions" where
  "dns_route_options r =
     \<lparr>a_Strategy = do_Strategy r, a_Timeout = do_Timeout r, a_DisableCache = do_DisableCache r,
      a_DisableOptimisticCache = do_DisableOptimisticCache r, a_RewriteTTL = do_RewriteTTL r,
      a_ClientSubnet = prefix_or_zero (do_ClientSubnet r)\<rparr>"

definition DNSRCode_Build :: "int option \<Rightarrow> int" where
  "DNSRCode_Build r = (case r of None \<Rightarrow> RcodeSuccess | Some c \<Rightarrow> c)"

definition NewDNSRuleAction :: "DNSRuleActionOptions \<Rightarrow> rule_action option res" where
  "NewDNSRuleAction act =
     (if da_Action act = [] then Inr None
      else if da_Action act = RuleActionTypeRoute then
        Inr (Some (RuleActionDNSRoute (do_Server (da_RouteOptions act))
                     (dns_route_options (da_RouteOptions act))))
      else if da_Action act = RuleActionTypeEvaluate then
        Inr (Some (RuleActionEvaluate (do_Server (da_RouteOptions act))
                     (dns_route_options (da_RouteOptions act))))
      else if da_Action act = RuleActionTypeRespond then Inr (Some RuleActionRespond)
      else if da_Action act = RuleActionTypeRouteOptions then
        Inr (Some (RuleActionDNSRouteOptions (dns_route_options (da_RouteOptionsOptions act))))
      else if da_Action act = RuleActionTypeReject then
        Inr (Some (RuleActionReject \<lparr>a_Method = rj_Method (da_RejectOptions act),
          a_NoDrop = rj_NoDrop (da_RejectOptions act), a_dropCounter = []\<rparr>))
      else if da_Action act = RuleActionTypePredefined then
        (let p = da_PredefinedOptions act
         in Inr (Some (RuleActionPredefined \<lparr>a_Rcode = DNSRCode_Build (pd_Rcode p),
              a_Answer = elems (pd_Answer p), a_Ns = elems (pd_Ns p), a_Extra = elems (pd_Extra p)\<rparr>)))
      else Inl (Panic (''unknown rule action: '' @ da_Action act)))"

subsection \<open>Reject\<close>

definition ErrReset :: error where "ErrReset = Sentinel ''tun.ErrReset''"
definition ErrDrop :: error where "ErrDrop = Sentinel ''tun.ErrDrop''"

definition RejectedError :: "error \<Rightarrow> error" where "RejectedError e = Cause e ''rejected''"

definition BypassedError :: "error \<Rightarrow> error" where "BypassedError e = Cause e ''bypassed''"

definition seconds30 :: duration where "seconds30 = 30 * 10 ^ 9"

text \<open>
  \<^verbatim>\<open>Error(ctx)\<close> at the time \<open>timeNow\<close> (nanoseconds): the returned error, \<open>None\<close> for nil, and the action
  with its counter.
\<close>

definition Reject_Error ::
  "duration \<Rightarrow> RuleActionReject \<Rightarrow> error option res \<times> RuleActionReject" where
  "Reject_Error timeNow r =
     (if a_Method r = RuleActionRejectMethodDefault then
        (let returnErr = Inr (Some (RejectedError ErrReset))
         in if a_NoDrop r then (returnErr, r)
            else
              let counter = filter (\<lambda>t. timeNow - t \<le> seconds30) (a_dropCounter r) @ [timeNow];
                  r' = r\<lparr>a_dropCounter := counter\<rparr>
              in if length counter > 50 then (Inr (Some (RejectedError ErrDrop)), r')
                 else (returnErr, r'))
      else if a_Method r = RuleActionRejectMethodDrop then
        (Inr (Some (RejectedError ErrDrop)), r)
      else if a_Method r = RuleActionRejectMethodReply then (Inr None, r)
      else (Inl (Panic (''unknown reject method: '' @ a_Method r)), r))"

subsection \<open>Predefined responses\<close>

definition rr_set_name :: "string \<Rightarrow> rr \<Rightarrow> rr" where
  "rr_set_name n = rr_map_hdr (\<lambda>h. h\<lparr>h_Name := n\<rparr>)"

definition rewriteRecords :: "rr list \<Rightarrow> question \<Rightarrow> rr list" where
  "rewriteRecords records question =
     map (\<lambda>it. if prefix ''*'' (h_Name (rr_hdr it)) \<and>
                  suffix (tl (h_Name (rr_hdr it))) (q_Name question)
               then rr_set_name (q_Name question) it else it) records"

definition Predefined_Response :: "RuleActionPredefined \<Rightarrow> dns_msg \<Rightarrow> dns_msg res" where
  "Predefined_Response r request =
     (case d_Question request of
        [] \<Rightarrow> Inl (Panic ''index out of range'')
      | q # _ \<Rightarrow>
          Inr \<lparr>d_Id = d_Id request, d_Response = True, d_Authoritative = True,
               d_RecursionDesired = True, d_RecursionAvailable = True, d_Rcode = a_Rcode r,
               d_Question = d_Question request,
               d_Answer = rewriteRecords (a_Answer r) q,
               d_Ns = rewriteRecords (a_Ns r) q,
               d_Extra = rewriteRecords (a_Extra r) q\<rparr>)"

subsection \<open>Lemmas\<close>

lemma sniff_build_loop_Inr:
  "sniff_build_loop names r = Inr r' \<longleftrightarrow>
     (\<forall>n \<in> set names. sniffer_of n \<noteq> None) \<and>
     r' = r\<lparr>a_StreamSniffers := a_StreamSniffers r @ concat (map (fst \<circ> the \<circ> sniffer_of) names),
            a_PacketSniffers := a_PacketSniffers r @ concat (map (snd \<circ> the \<circ> sniffer_of) names)\<rparr>"
proof (induction names arbitrary: r)
  case Nil
  then show ?case by (cases r) auto
next
  case (Cons n names)
  show ?case
    by (cases "sniffer_of n") (auto simp: Cons.IH split: prod.splits)
qed

lemma sniff_build_loop_Inl:
  "sniff_build_loop names r = Inl e \<longleftrightarrow>
     (\<exists>n. find (\<lambda>n. sniffer_of n = None) names = Some n \<and> e = New (''unknown sniffer: '' @ n))"
  by (induction names arbitrary: r) (auto split: option.splits prod.splits)

text \<open>A run of \<^verbatim>\<open>Error\<close> calls at the given times.\<close>

fun reject_run :: "duration list \<Rightarrow> RuleActionReject \<Rightarrow> RuleActionReject" where
  "reject_run [] r = r"
| "reject_run (t # ts) r = reject_run ts (snd (Reject_Error t r))"

lemma Reject_Error_counts:
  "a_Method r = RuleActionRejectMethodDefault \<Longrightarrow> \<not> a_NoDrop r \<Longrightarrow>
   snd (Reject_Error t r) =
     r\<lparr>a_dropCounter := filter (\<lambda>u. t - u \<le> seconds30) (a_dropCounter r) @ [t]\<rparr>"
  by (simp add: Reject_Error_def Let_def)

lemma Reject_Error_by_counter:
  "a_Method r = RuleActionRejectMethodDefault \<Longrightarrow> \<not> a_NoDrop r \<Longrightarrow>
   fst (Reject_Error t r) = Inr (Some (RejectedError
     (if length (a_dropCounter (snd (Reject_Error t r))) > 50 then ErrDrop else ErrReset)))"
  by (simp add: Reject_Error_def Let_def)

lemma reject_run_counter:
  assumes "a_Method r = RuleActionRejectMethodDefault" "\<not> a_NoDrop r"
    and "sorted (hs @ ts)" "ts \<noteq> []"
    and "a_dropCounter r = filter (\<lambda>u. d - u \<le> seconds30) hs" "\<forall>t \<in> set ts. d \<le> t"
  shows "reject_run ts r =
     r\<lparr>a_dropCounter := filter (\<lambda>u. last ts - u \<le> seconds30) (hs @ ts)\<rparr>"
  using assms
proof (induction ts arbitrary: r hs d)
  case (Cons t ts)
  have window: "filter (\<lambda>u. t - u \<le> seconds30) (filter (\<lambda>u. d - u \<le> seconds30) hs) @ [t] =
      filter (\<lambda>u. t - u \<le> seconds30) (hs @ [t])"
    using Cons.prems(6) by (auto simp: seconds30_def intro!: filter_cong)
  let ?r = "snd (Reject_Error t r)"
  have step: "?r = r\<lparr>a_dropCounter := filter (\<lambda>u. t - u \<le> seconds30) (hs @ [t])\<rparr>"
    using Cons.prems(1,2,5) window by (simp add: Reject_Error_counts)
  show ?case
  proof (cases "ts = []")
    case True
    then show ?thesis using step by simp
  next
    case False
    have "sorted ((hs @ [t]) @ ts)" "\<forall>t' \<in> set ts. t \<le> t'"
      using Cons.prems(3) by (auto simp: sorted_append)
    then have "reject_run ts ?r =
        ?r\<lparr>a_dropCounter := filter (\<lambda>u. last ts - u \<le> seconds30) ((hs @ [t]) @ ts)\<rparr>"
      using Cons.prems(1,2) False step by (intro Cons.IH [where d = t]) auto
    then show ?thesis using False step by simp
  qed
qed simp

lemma rr_hdr_set_name [simp]: "rr_hdr (rr_set_name n r) = (rr_hdr r)\<lparr>h_Name := n\<rparr>"
  by (simp add: rr_set_name_def)

subsection \<open>Properties\<close>



text \<open>
  A \<^verbatim>\<open>sniff\<close> action is built exactly when every sniffer name is known, and then runs the sniffers
  of the names in their order; otherwise the error names the first unknown one.
\<close>

theorem sniff_build_spec:
  "sniff_build r =
     (case find (\<lambda>n. sniffer_of n = None) (a_SnifferNames r) of
        Some n \<Rightarrow> Inl (New (''unknown sniffer: '' @ n))
      | None \<Rightarrow>
          let found = map (the \<circ> sniffer_of) (a_SnifferNames r)
          in Inr (r\<lparr>a_StreamSniffers := a_StreamSniffers r @ concat (map fst found),
                    a_PacketSniffers := a_PacketSniffers r @ concat (map snd found)\<rparr>))"
proof (cases "find (\<lambda>n. sniffer_of n = None) (a_SnifferNames r)")
  case None
  then have "\<forall>n \<in> set (a_SnifferNames r). sniffer_of n \<noteq> None"
    by (auto simp: find_None_iff)
  then show ?thesis
    using None sniff_build_loop_Inr [of "a_SnifferNames r" r]
    by (simp add: sniff_build_def comp_assoc)
next
  case (Some n)
  then show ?thesis
    using sniff_build_loop_Inl [of "a_SnifferNames r" r] by (simp add: sniff_build_def)
qed

text \<open>
  A predefined response repeats the identifier and the questions of the request, and answers
  with the configured records; a record whose name starts with \<^verbatim>\<open>*\<close> takes the name of the question
  exactly when the question's name ends with the rest of it.  A request without a question panics.
\<close>

theorem predefined_response_spec:
  "Predefined_Response r request =
     (case d_Question request of
        [] \<Rightarrow> Inl (Panic ''index out of range'')
      | q # qs \<Rightarrow>
          let rewrite = (\<lambda>rr. if (\<exists>rest. h_Name (rr_hdr rr) = CHR ''*'' # rest \<and> suffix rest (q_Name q))
                              then rr_set_name (q_Name q) rr else rr)
          in Inr \<lparr>d_Id = d_Id request, d_Response = True, d_Authoritative = True,
                  d_RecursionDesired = True, d_RecursionAvailable = True, d_Rcode = a_Rcode r,
                  d_Question = d_Question request, d_Answer = map rewrite (a_Answer r),
                  d_Ns = map rewrite (a_Ns r), d_Extra = map rewrite (a_Extra r)\<rparr>)"
proof -
  have "prefix ''*'' n \<and> suffix (tl n) m \<longleftrightarrow> (\<exists>rest. n = CHR ''*'' # rest \<and> suffix rest m)" for n m
    by (cases n) auto
  then show ?thesis by (simp add: Predefined_Response_def rewriteRecords_def Let_def split: list.splits)
qed

text \<open>
  Parsing the printed name of a spoof method gives the method back, and every name that parses
  prints as itself, apart from the empty name, which stands for \<^verbatim>\<open>wrong-sequence\<close>.
\<close>

theorem spoof_method_round_trip:
  "(ParseMethod (Method_String m) = Inr m \<longleftrightarrow> m \<le> MethodWrongTimestamp) \<and>
   (\<forall>s k. ParseMethod s = Inr k \<longrightarrow>
      k \<le> MethodWrongTimestamp \<and> Method_String k = (if s = [] then ''wrong-sequence'' else s))"
proof -
  have "m \<le> 4 \<longleftrightarrow> m \<in> {0, 1, 2, 3, 4}" by auto
  then show ?thesis
    by (auto simp: ParseMethod_def Method_String_def MethodWrongSequence_def MethodWrongChecksum_def
        MethodWrongAcknowledgment_def MethodWrongMD5Sig_def MethodWrongTimestamp_def split: if_splits)
qed

theorem spoof_method_round_trip_witness:
  "ParseMethod ''wrong-ack'' = Inr 2 \<and> Method_String 2 = ''wrong-ack''"
proof -
  have "ParseMethod ''wrong-ack'' = Inr 2" by (simp add: ParseMethod_def MethodWrongAcknowledgment_def)
  then show ?thesis using spoof_method_round_trip [of 2] by auto
qed

text \<open>
  \<^verbatim>\<open>IsFinalAction\<close> is false for \<^verbatim>\<open>sniff\<close>, \<^verbatim>\<open>resolve\<close> and \<^verbatim>\<open>evaluate\<close> only.  In particular it calls
  \<^verbatim>\<open>route-options\<close> final, which the documentation lists under the non-final actions, and route
  options built from a configuration never carry a network type.
\<close>

theorem IsFinalAction_route_options:
  "(\<not> IsFinalAction a \<longleftrightarrow>
      (\<exists>s. a = RuleActionSniff s) \<or> (\<exists>r. a = RuleActionResolve r) \<or>
      (\<exists>srv r. a = RuleActionEvaluate srv r)) \<and>
   IsFinalAction (RuleActionRouteOptions opts) \<and>
   (\<forall>A raw r. newRuleActionRouteOptions A (raw :: RawRouteOptionsActionOptions) = Inr r \<longrightarrow>
      a_NetworkType r = [] \<and> a_FallbackNetworkType r = [])"
  by (cases a) (auto simp: IsFinalAction_def action_types newRuleActionRouteOptions_def
      split: sum.splits)

theorem IsFinalAction_route_options_witness:
  "newRuleActionRouteOptions plain_action_env RawRouteOptionsActionOptions_zero =
     Inr \<lparr>a_OverrideAddress = SocksaddrZero, a_OverridePort = 0, a_NetworkStrategy = None,
          a_NetworkType = [], a_FallbackNetworkType = [], a_FallbackDelay = 0,
          a_UDPDisableDomainUnmapping = False, a_UDPConnect = False, a_UDPTimeout = 0,
          a_TLSFragment = False, a_TLSFragmentFallbackDelay = 0, a_TLSRecordFragment = False,
          a_TLSSpoof = [], a_TLSSpoofMethod = 0\<rparr> \<and>
   \<not> IsFinalAction (RuleActionEvaluate ''dns'' (dns_route_options DNSRouteOptionsActionOptions_zero))"
  using IsFinalAction_route_options
    [of "RuleActionEvaluate ''dns'' (dns_route_options DNSRouteOptionsActionOptions_zero)"]
  by (simp add: newRuleActionRouteOptions_def plain_action_env_def tlsspoof_ParseOptions_def
      RawRouteOptionsActionOptions_zero_def SocksaddrZero_def)

end
