(* ===== verification/Byte_Order.thy ===== *)
theory Byte_Order
  imports Metadata
begin

text \<open>
  Words and addresses as bytes: the big-endian order of \<^verbatim>\<open>encoding/binary\<close>, and \<^verbatim>\<open>AsSlice\<close>, \<^verbatim>\<open>As16\<close> and the
  binary marshalling of \<^verbatim>\<open>net/netip\<close>, with their round trips.
\<close>

unbundle bit_operations_syntax

subsection \<open>Big-endian words\<close>

definition word_bytes :: "nat \<Rightarrow> 'w::len word \<Rightarrow> bytes" where
  "word_bytes n w = map (\<lambda>i. ucast (drop_bit (8 * i) w)) (rev [0..<n])"

definition bytes_word :: "bytes \<Rightarrow> 'w::len word" where
  "bytes_word bs = foldl (\<lambda>w b. push_bit 8 w OR ucast b) 0 bs"

lemma length_word_bytes [simp]: "length (word_bytes n w) = n"
  by (simp add: word_bytes_def)

lemma nth_word_bytes: "i < n \<Longrightarrow> word_bytes n w ! i = ucast (drop_bit (8 * (n - 1 - i)) w)"
  by (simp add: word_bytes_def rev_nth)

lemma bit_nth_word_bytes:
  "i < n \<Longrightarrow> bit (word_bytes n w ! i) k \<longleftrightarrow> k < 8 \<and> bit w (8 * (n - 1 - i) + k)"
  by (auto simp: nth_word_bytes bit_ucast_iff bit_drop_bit_eq)

lemma bit_bytes_word:
  fixes bs :: bytes
  assumes "8 * length bs \<le> LENGTH('w::len)"
  shows "bit (bytes_word bs :: 'w word) k \<longleftrightarrow>
    k < 8 * length bs \<and> bit (bs ! (length bs - 1 - k div 8)) (k mod 8)"
  using assms
proof (induction bs arbitrary: k rule: rev_induct)
  case Nil
  show ?case by (simp add: bytes_word_def)
next
  case (snoc b bs)
  have w: "bytes_word (bs @ [b]) = push_bit 8 (bytes_word bs) OR (ucast b :: 'w word)"
    by (simp add: bytes_word_def)
  have len: "8 * length bs \<le> LENGTH('w)" "8 * length bs + 8 \<le> LENGTH('w)" using snoc.prems by simp_all
  show ?case
  proof (cases "k < 8")
    case True
    then show ?thesis using len(2)
      by (simp add: w bit_or_iff bit_push_bit_iff bit_ucast_iff nth_append)
  next
    case False
    define j where "j = k - 8"
    have k: "k = j + 8" using False by (simp add: j_def)
    have b: "\<not> bit b k" using False by (auto dest: bit_imp_le_length)
    have "bit (bytes_word (bs @ [b]) :: 'w word) k \<longleftrightarrow> k < LENGTH('w) \<and> bit (bytes_word bs :: 'w word) j"
      using b by (auto simp: w k bit_or_iff bit_push_bit_iff bit_ucast_iff)
    also have "\<dots> \<longleftrightarrow> j < 8 * length bs \<and> bit (bs ! (length bs - 1 - j div 8)) (j mod 8)"
      unfolding snoc.IH [OF len(1), of j] using len(2) k by linarith
    also have "\<dots> \<longleftrightarrow> k < 8 * length (bs @ [b]) \<and>
        bit ((bs @ [b]) ! (length (bs @ [b]) - 1 - k div 8)) (k mod 8)"
    proof (cases "j < 8 * length bs")
      case True
      then have "j div 8 < length bs" by (simp add: less_mult_imp_div_less mult.commute)
      moreover from this have "length bs - Suc (j div 8) < length bs" by linarith
      moreover have "k div 8 = Suc (j div 8)" "k mod 8 = j mod 8" by (simp_all add: k div_add_self2)
      ultimately show ?thesis using True k by (simp add: nth_append)
    qed (simp add: k)
    finally show ?thesis .
  qed
qed

lemma bytes_word_of_word_bytes:
  "8 * n = LENGTH('w) \<Longrightarrow> bytes_word (word_bytes n w) = (w :: 'w::len word)"
proof (rule bit_word_eqI)
  fix k assume len: "8 * n = LENGTH('w)" "k < LENGTH('w)"
  then have "k div 8 < n" by (simp add: less_mult_imp_div_less mult.commute)
  then show "bit (bytes_word (word_bytes n w) :: 'w word) k = bit w k"
    using len by (simp add: bit_bytes_word bit_nth_word_bytes)
qed

lemma word_bytes_of_bytes_word:
  assumes "8 * length bs \<le> LENGTH('w::len)"
  shows "word_bytes (length bs) (bytes_word bs :: 'w word) = bs"
proof (rule nth_equalityI)
  fix i assume "i < length (word_bytes (length bs) (bytes_word bs :: 'w word))"
  then have i: "i < length bs" by simp
  show "word_bytes (length bs) (bytes_word bs :: 'w word) ! i = bs ! i"
  proof (rule bit_word_eqI)
    fix k assume "k < LENGTH(8)"
    then have "8 * (length bs - Suc i) + k < 8 * length bs" "k < 8" using i by auto
    then show "bit (word_bytes (length bs) (bytes_word bs :: 'w word) ! i) k = bit (bs ! i) k"
      using i assms by (simp add: bit_nth_word_bytes bit_bytes_word)
  qed
qed simp

subsection \<open>Addresses\<close>

fun addr_AsSlice :: "addr \<Rightarrow> bytes" where
  "addr_AsSlice AddrZero = []"
| "addr_AsSlice (Addr4 w) = word_bytes 4 w"
| "addr_AsSlice (Addr6 w z) = word_bytes 16 w"

text \<open>\<^verbatim>\<open>As16\<close> of an IPv4 address is its mapped form; the zero address has sixteen zero bytes.\<close>

fun addr_As16 :: "addr \<Rightarrow> bytes" where
  "addr_As16 AddrZero = replicate 16 0"
| "addr_As16 (Addr4 w) = replicate 10 0 @ [0xff, 0xff] @ word_bytes 4 w"
| "addr_As16 (Addr6 w z) = word_bytes 16 w"

definition AddrFrom4 :: "bytes \<Rightarrow> addr" where "AddrFrom4 bs = Addr4 (bytes_word bs)"
definition AddrFrom16 :: "bytes \<Rightarrow> addr" where "AddrFrom16 bs = Addr6 (bytes_word bs) []"

definition AddrFromSlice :: "bytes \<Rightarrow> addr option" where
  "AddrFromSlice bs =
     (if length bs = 4 then Some (AddrFrom4 bs) else if length bs = 16 then Some (AddrFrom16 bs) else None)"

subsection \<open>Binary marshalling\<close>

text \<open>
  A string is a sequence of bytes; \<open>str_bytes\<close> and \<open>bytes_str\<close> are the two conversions \<^verbatim>\<open>[]byte(s)\<close> and
  \<^verbatim>\<open>string(b)\<close>.
\<close>

definition str_bytes :: "string \<Rightarrow> bytes" where "str_bytes s = map of_char s"
definition bytes_str :: "bytes \<Rightarrow> string" where "bytes_str bs = map (\<lambda>b. char_of (unat b)) bs"

lemma bytes_str_of_str_bytes [simp]: "bytes_str (str_bytes s) = s"
proof -
  have "unat (of_nat (of_char c) :: 8 word) = (of_char c :: nat)" for c :: char
    using nat_of_char_less_256 [of c] by (simp add: unat_of_nat del: of_nat_of_char)
  then have "char_of (unat (of_char c :: 8 word)) = c" for c
    by (metis of_nat_of_char char_of_char)
  then show ?thesis by (induction s) (simp_all add: bytes_str_def str_bytes_def)
qed

fun addr_MarshalBinary :: "addr \<Rightarrow> bytes" where
  "addr_MarshalBinary (Addr6 w z) = word_bytes 16 w @ str_bytes z"
| "addr_MarshalBinary a = addr_AsSlice a"

definition addr_UnmarshalBinary :: "bytes \<Rightarrow> addr res" where
  "addr_UnmarshalBinary b =
     (if b = [] then Inr AddrZero
      else if length b = 4 then Inr (AddrFrom4 b)
      else if length b \<ge> 16 then Inr (Addr6 (bytes_word (take 16 b)) (bytes_str (drop 16 b)))
      else Inl (New ''unexpected slice size''))"

definition PrefixFrom :: "addr \<Rightarrow> int \<Rightarrow> prefix" where
  "PrefixFrom ip bits =
     \<lparr>p_Addr = (case ip of Addr6 w z \<Rightarrow> Addr6 w [] | _ \<Rightarrow> ip),
      p_Bits = (if addr_IsValid ip \<and> 0 \<le> bits \<and> bits \<le> int (addr_BitLen ip) then bits else - 1)\<rparr>"

definition prefix_MarshalBinary :: "prefix \<Rightarrow> bytes" where
  "prefix_MarshalBinary p = addr_AsSlice (p_Addr p) @ [word_of_int (p_Bits p)]"

definition prefix_UnmarshalBinary :: "bytes \<Rightarrow> prefix res" where
  "prefix_UnmarshalBinary b =
     (if b = [] then Inl (New ''unexpected slice size'')
      else case addr_UnmarshalBinary (butlast b) of
        Inl e \<Rightarrow> Inl e
      | Inr ip \<Rightarrow> Inr (PrefixFrom ip (uint (last b))))"

text \<open>The prefixes \<^verbatim>\<open>netip\<close> can build: no zone, and a length that fits the address or \<open>- 1\<close>.\<close>

definition prefix_built :: "prefix \<Rightarrow> bool" where
  "prefix_built p \<longleftrightarrow> (\<exists>ip bits. p = PrefixFrom ip bits)"

lemma addr_unmarshal_marshal: "addr_UnmarshalBinary (addr_MarshalBinary a) = Inr a"
  by (cases a) (auto simp: addr_UnmarshalBinary_def AddrFrom4_def bytes_word_of_word_bytes
      simp flip: length_0_conv)

lemma prefix_unmarshal_marshal:
  assumes "prefix_built p"
  shows "prefix_UnmarshalBinary (prefix_MarshalBinary p) = Inr p"
proof -
  obtain ip bits where p: "p = PrefixFrom ip bits" using assms by (auto simp: prefix_built_def)
  have u: "addr_UnmarshalBinary (addr_AsSlice (p_Addr p)) = Inr (p_Addr p)"
    using addr_unmarshal_marshal [of "p_Addr p"]
    by (cases ip) (simp_all add: p PrefixFrom_def str_bytes_def)
  have m: "uint (word_of_int n :: 8 word) = n" if "0 \<le> n" "n \<le> 128" for n
    using that by (simp add: uint_word_of_int)
  have n: "uint (- 1 :: 8 word) = 255" by (simp add: unsigned_minus_1_eq_mask mask_eq_exp_minus_1)
  have "PrefixFrom (p_Addr p) (uint (word_of_int (p_Bits p) :: 8 word)) = p"
  proof (cases "p_Bits p = - 1")
    case True
    then show ?thesis by (cases ip) (simp_all add: p PrefixFrom_def n split: if_splits)
  next
    case False
    then have b: "0 \<le> bits" "bits \<le> int (addr_BitLen ip)" "p_Bits p = bits" "addr_IsValid ip"
      by (simp_all add: p PrefixFrom_def split: if_splits)
    then have "uint (word_of_int bits :: 8 word) = bits" by (intro m) (cases ip; simp)+
    then show ?thesis using b by (cases ip) (simp_all add: p PrefixFrom_def)
  qed
  then show ?thesis using u by (simp add: prefix_UnmarshalBinary_def prefix_MarshalBinary_def)
qed

end
