(* ===== verification/Component_Manager.thy ===== *)
theory Component_Manager
  imports Go_Prelude "HOL-Library.AList" "HOL-Library.Multiset"
begin

text \<open>
  The managers of inbounds, outbounds, endpoints and services (\<^verbatim>\<open>adapter/*/manager.go\<close>) and the start of a
  component by stages (\<^verbatim>\<open>adapter/lifecycle.go\<close>, \<^verbatim>\<open>adapter/lifecycle_legacy.go\<close>).

  A component is what a manager sees of it: its identity, type, tag and dependencies, the interfaces it
  implements and what their methods return.  An operation of a manager returns the error, the manager
  and the calls it made, in order.  The registries that build a component from its options are
  arguments.  The managers of inbounds, endpoints and services have the same code; it is written once,
  over the name of the kind.
\<close>

subsection \<open>Components and stages\<close>

datatype StartStage = StartStateInitialize | StartStateStart | StartStatePostStart | StartStateStarted

fun stage_num :: "StartStage \<Rightarrow> nat" where
  "stage_num StartStateInitialize = 0"
| "stage_num StartStateStart = 1"
| "stage_num StartStatePostStart = 2"
| "stage_num StartStateStarted = 3"

fun StartStage_String :: "StartStage \<Rightarrow> string" where
  "StartStage_String StartStateInitialize = ''initialize''"
| "StartStage_String StartStateStart = ''start''"
| "StartStage_String StartStatePostStart = ''post-start''"
| "StartStage_String StartStateStarted = ''finish-start''"

definition ListStartStages :: "StartStage list" where
  "ListStartStages = [StartStateInitialize, StartStateStart, StartStatePostStart, StartStateStarted]"

record component =
  c_id :: nat
  c_Type :: string
  c_Tag :: string
  c_Dependencies :: "string list"
  c_Lifecycle :: "(StartStage \<Rightarrow> error option) option"
  c_PreStart :: "error option option"
  c_Start :: "error option option"
  c_PostStart :: "error option option"
  c_Close :: "error option option"

datatype call = CallStart nat StartStage | CallClose nat

definition LegacyStart :: "component \<Rightarrow> StartStage \<Rightarrow> error option \<times> call list" where
  "LegacyStart starter stage =
     (case c_Lifecycle starter of
        Some start \<Rightarrow> (start stage, [CallStart (c_id starter) stage])
      | None \<Rightarrow>
          (case (case stage of
                   StartStateInitialize \<Rightarrow> c_PreStart starter
                 | StartStateStart \<Rightarrow> c_Start starter
                 | StartStateStarted \<Rightarrow> c_PostStart starter
                 | StartStatePostStart \<Rightarrow> None) of
             Some r \<Rightarrow> (r, [CallStart (c_id starter) stage])
           | None \<Rightarrow> (None, [])))"

definition common_Close :: "component \<Rightarrow> error option \<times> call list" where
  "common_Close c = (case c_Close c of None \<Rightarrow> (None, []) | Some r \<Rightarrow> (r, [CallClose (c_id c)]))"

definition component_name :: "string \<Rightarrow> component \<Rightarrow> string" where
  "component_name kind c = kind @ ''/'' @ c_Type c @ ''['' @ c_Tag c @ '']''"

fun start_list :: "string \<Rightarrow> StartStage \<Rightarrow> component list \<Rightarrow> error option \<times> call list" where
  "start_list kind stage [] = (None, [])"
| "start_list kind stage (c # cs) =
     (let (err, calls) = LegacyStart c stage
      in case err of
           Some e \<Rightarrow> (Some (Cause e (StartStage_String stage @ '' '' @ component_name kind c)), calls)
         | None \<Rightarrow> apsnd (\<lambda>more. calls @ more) (start_list kind stage cs))"

fun start_stages :: "string \<Rightarrow> StartStage list \<Rightarrow> component \<Rightarrow> error option \<times> call list" where
  "start_stages kind [] c = (None, [])"
| "start_stages kind (stage # stages) c =
     (let (err, calls) = LegacyStart c stage
      in case err of
           Some e \<Rightarrow> (Some (Cause e (StartStage_String stage @ '' '' @ component_name kind c)), calls)
         | None \<Rightarrow> apsnd (\<lambda>more. calls @ more) (start_stages kind stages c))"

text \<open>\<^verbatim>\<open>common.Index\<close> by identity and the removal of that element; without one the source panics.\<close>

definition remove_id :: "string \<Rightarrow> component \<Rightarrow> component list \<Rightarrow> component list res" where
  "remove_id kind c cs =
     (if list_ex (\<lambda>it. c_id it = c_id c) cs
      then Inr (takeWhile (\<lambda>it. c_id it \<noteq> c_id c) cs @ tl (dropWhile (\<lambda>it. c_id it \<noteq> c_id c) cs))
      else Inl (Panic (''invalid '' @ kind @ '' index'')))"

definition ErrInvalid :: error where "ErrInvalid = Sentinel ''invalid argument''"
definition already_started :: error where "already_started = Panic ''already started''"

subsection \<open>Inbounds, endpoints, services\<close>

record manager =
  mg_started :: bool
  mg_stage :: StartStage
  mg_list :: "component list"
  mg_byTag :: "(string \<times> component) list"

definition NewManager :: manager where
  "NewManager = \<lparr>mg_started = False, mg_stage = StartStateInitialize, mg_list = [], mg_byTag = []\<rparr>"

definition manager_Start :: "string \<Rightarrow> StartStage \<Rightarrow> manager \<Rightarrow> error option \<times> manager \<times> call list" where
  "manager_Start kind stage m =
     (if mg_started m \<and> stage_num (mg_stage m) \<ge> stage_num stage then (Some already_started, m, [])
      else let m1 = m\<lparr>mg_started := True, mg_stage := stage\<rparr>;
               (err, calls) = start_list kind stage (mg_list m1)
           in (err, m1, calls))"

definition inbound_Start :: "StartStage \<Rightarrow> manager \<Rightarrow> error option \<times> manager \<times> call list" where
  "inbound_Start = manager_Start ''inbound''"

definition service_Start :: "StartStage \<Rightarrow> manager \<Rightarrow> error option \<times> manager \<times> call list" where
  "service_Start = manager_Start ''service''"

text \<open>Endpoints are started by the manager of the outbounds.\<close>

definition endpoint_Start :: "StartStage \<Rightarrow> manager \<Rightarrow> error option \<times> manager \<times> call list" where
  "endpoint_Start stage m =
     (if mg_started m \<and> stage_num (mg_stage m) \<ge> stage_num stage then (Some already_started, m, [])
      else let m1 = m\<lparr>mg_started := True, mg_stage := stage\<rparr>
           in if stage = StartStateStart then (None, m1, [])
              else let (err, calls) = start_list ''endpoint'' stage (mg_list m1) in (err, m1, calls))"

text \<open>The errors of closing are collected and then dropped.\<close>

definition manager_Close :: "manager \<Rightarrow> error option \<times> manager \<times> call list" where
  "manager_Close m =
     (if \<not> mg_started m then (None, m, [])
      else (None, m\<lparr>mg_started := False, mg_list := []\<rparr>, concat (map (snd \<circ> common_Close) (mg_list m))))"

definition manager_Get :: "string \<Rightarrow> manager \<Rightarrow> component option" where
  "manager_Get tag m = map_of (mg_byTag m) tag"

definition inbound_Get :: "manager \<Rightarrow> string \<Rightarrow> manager \<Rightarrow> component option" where
  "inbound_Get endpoint tag m =
     (case map_of (mg_byTag m) tag of Some c \<Rightarrow> Some c | None \<Rightarrow> manager_Get tag endpoint)"

definition manager_Remove :: "string \<Rightarrow> string \<Rightarrow> manager \<Rightarrow> error option \<times> manager \<times> call list" where
  "manager_Remove kind tag m =
     (case map_of (mg_byTag m) tag of
        None \<Rightarrow> (Some ErrInvalid, m, [])
      | Some c \<Rightarrow>
          let m1 = m\<lparr>mg_byTag := AList.delete tag (mg_byTag m)\<rparr>
          in case remove_id kind c (mg_list m1) of
               Inl e \<Rightarrow> (Some e, m1, [])
             | Inr cs \<Rightarrow>
                 let m2 = m1\<lparr>mg_list := cs\<rparr>
                 in if mg_started m2 then let (err, calls) = common_Close c in (err, m2, calls)
                    else (None, m2, []))"

text \<open>\<open>created\<close> is the answer of the registry.\<close>

definition manager_Create ::
  "string \<Rightarrow> component res \<Rightarrow> string \<Rightarrow> manager \<Rightarrow> error option \<times> manager \<times> call list" where
  "manager_Create kind created tag m =
     (case created of
        Inl e \<Rightarrow> (Some e, m, [])
      | Inr c \<Rightarrow>
          let (err, calls) = (if mg_started m then start_stages kind ListStartStages c else (None, []))
          in case err of
               Some e \<Rightarrow> (Some e, m, calls)
             | None \<Rightarrow>
                 (case map_of (mg_byTag m) tag of
                    None \<Rightarrow>
                      (None, m\<lparr>mg_list := mg_list m @ [c], mg_byTag := AList.update tag c (mg_byTag m)\<rparr>, calls)
                  | Some exists \<Rightarrow>
                      let (err2, calls2) = (if mg_started m then common_Close exists else (None, []))
                      in case err2 of
                           Some e \<Rightarrow> (Some (Cause e (''close '' @ component_name kind exists)), m, calls @ calls2)
                         | None \<Rightarrow>
                             (case remove_id kind exists (mg_list m) of
                                Inl e \<Rightarrow> (Some e, m, calls @ calls2)
                              | Inr cs \<Rightarrow>
                                  (None, m\<lparr>mg_list := cs @ [c], mg_byTag := AList.update tag c (mg_byTag m)\<rparr>,
                                   calls @ calls2))))"

definition inbound_Remove :: "string \<Rightarrow> manager \<Rightarrow> error option \<times> manager \<times> call list" where
  "inbound_Remove = manager_Remove ''inbound''"

definition endpoint_Remove :: "string \<Rightarrow> manager \<Rightarrow> error option \<times> manager \<times> call list" where
  "endpoint_Remove = manager_Remove ''endpoint''"

definition service_Remove :: "string \<Rightarrow> manager \<Rightarrow> error option \<times> manager \<times> call list" where
  "service_Remove = manager_Remove ''service''"

definition inbound_Create :: "component res \<Rightarrow> string \<Rightarrow> manager \<Rightarrow> error option \<times> manager \<times> call list" where
  "inbound_Create = manager_Create ''inbound''"

definition endpoint_Create :: "component res \<Rightarrow> string \<Rightarrow> manager \<Rightarrow> error option \<times> manager \<times> call list" where
  "endpoint_Create = manager_Create ''endpoint''"

definition service_Create :: "component res \<Rightarrow> string \<Rightarrow> manager \<Rightarrow> error option \<times> manager \<times> call list" where
  "service_Create = manager_Create ''service''"


subsection \<open>Table and list agree\<close>

text \<open>The tag table holds exactly the components of the list; a component is an object of its own.\<close>

definition registered :: "(string \<times> component) list \<Rightarrow> component list \<Rightarrow> bool" where
  "registered byTag cs \<longleftrightarrow> distinct (map c_id cs) \<and> distinct (map c_Tag cs) \<and>
     (\<forall>t c. map_of byTag t = Some c \<longleftrightarrow> c \<in> set cs \<and> c_Tag c = t)"

lemma registered_Nil [simp]: "registered [] []"
  by (simp add: registered_def)

lemma registeredD:
  assumes "registered byTag cs" "map_of byTag t = Some c"
  shows "c \<in> set cs" "c_Tag c = t"
  using assms by (auto simp: registered_def)

lemma distinct_map_filter_neq:
  assumes "distinct (map f cs)" "c \<in> set cs"
  shows "takeWhile (\<lambda>it. f it \<noteq> f c) cs @ tl (dropWhile (\<lambda>it. f it \<noteq> f c) cs) = filter (\<lambda>it. f it \<noteq> f c) cs"
  using assms
proof (induction cs)
  case (Cons b cs)
  show ?case
  proof (cases "f b = f c")
    case True
    then have "filter (\<lambda>it. f it \<noteq> f c) cs = cs" using Cons.prems(1) by (intro filter_True) (auto simp: image_iff)
    then show ?thesis using True by simp
  next
    case False
    then show ?thesis using Cons by auto
  qed
qed simp

lemma remove_id_registered:
  assumes "registered byTag cs" "map_of byTag t = Some c"
  shows "remove_id kind c cs = Inr (filter (\<lambda>it. c_Tag it \<noteq> t) cs)"
proof -
  have c: "c \<in> set cs" "c_Tag c = t" using registeredD [OF assms] by auto
  have d: "distinct (map c_id cs)" "distinct (map c_Tag cs)" using assms(1) by (auto simp: registered_def)
  have "filter (\<lambda>it. c_id it \<noteq> c_id c) cs = filter (\<lambda>it. c_Tag it \<noteq> t) cs"
    using c d by (intro filter_cong) (auto simp: distinct_map inj_on_def)
  then show ?thesis using c(1) distinct_map_filter_neq [OF d(1) c(1)] by (auto simp: remove_id_def list_ex_iff)
qed

lemma registered_delete:
  "registered byTag cs \<Longrightarrow> registered (AList.delete t byTag) (filter (\<lambda>it. c_Tag it \<noteq> t) cs)"
  by (auto simp: registered_def delete_conv' distinct_map inj_on_def)

lemma registered_update:
  assumes "registered byTag cs" "c_id c \<notin> c_id ` set cs" "c_Tag c = t"
  shows "registered (AList.update t c byTag) (filter (\<lambda>it. c_Tag it \<noteq> t) cs @ [c])"
  using assms by (auto simp: registered_def update_conv' distinct_map inj_on_def)

lemma filter_unknown_tag:
  "registered byTag cs \<Longrightarrow> map_of byTag t = None \<Longrightarrow> filter (\<lambda>it. c_Tag it \<noteq> t) cs = cs"
  by (intro filter_True) (metis option.distinct(1) registered_def)


lemma manager_Remove_registered:
  assumes "registered (mg_byTag m) (mg_list m)" "map_of (mg_byTag m) t = Some c"
  shows "manager_Remove kind t m =
    (if mg_started m then fst (common_Close c) else None,
     m\<lparr>mg_list := filter (\<lambda>it. c_Tag it \<noteq> t) (mg_list m), mg_byTag := AList.delete t (mg_byTag m)\<rparr>,
     if mg_started m then snd (common_Close c) else [])"
  using assms remove_id_registered [OF assms, of kind] by (simp add: manager_Remove_def split_beta)

text \<open>What a creation does to a registry: nothing when building or starting the component or closing
  the one it replaces fails, and otherwise the component takes the place of the one with its tag.\<close>

lemma manager_Create_registered:
  assumes "registered (mg_byTag m) (mg_list m)"
  shows "fst (snd (manager_Create kind created t m)) = m \<and> fst (manager_Create kind created t m) \<noteq> None \<or>
    (\<exists>c. created = Inr c \<and> fst (manager_Create kind created t m) = None \<and>
      fst (snd (manager_Create kind created t m)) =
        m\<lparr>mg_list := filter (\<lambda>it. c_Tag it \<noteq> t) (mg_list m) @ [c], mg_byTag := AList.update t c (mg_byTag m)\<rparr>)"
  using filter_unknown_tag [OF assms, of t] remove_id_registered [OF assms, of t _ kind]
  by (auto simp: manager_Create_def Let_def split_beta split: sum.split option.split)

inductive manager_reach :: "manager \<Rightarrow> bool" where
  new: "manager_reach NewManager"
| create: "manager_reach m \<Longrightarrow> (\<forall>c. created = Inr c \<longrightarrow> c_Tag c = tag \<and> c_id c \<notin> c_id ` set (mg_list m)) \<Longrightarrow>
    manager_reach (fst (snd (manager_Create kind created tag m)))"
| remove: "manager_reach m \<Longrightarrow> manager_reach (fst (snd (manager_Remove kind tag m)))"
| start: "manager_reach m \<Longrightarrow> manager_reach (fst (snd (manager_Start kind stage m)))"
| start_endpoint: "manager_reach m \<Longrightarrow> manager_reach (fst (snd (endpoint_Start stage m)))"

lemma manager_reach_registered: "manager_reach m \<Longrightarrow> registered (mg_byTag m) (mg_list m)"
proof (induction rule: manager_reach.induct)
  case (create m created tag kind)
  show ?case
    using manager_Create_registered [OF create.IH, of kind created tag] create registered_update [OF create.IH] by auto
next
  case (remove m kind tag)
  show ?case
  proof (cases "map_of (mg_byTag m) tag")
    case None
    then show ?thesis using remove by (simp add: manager_Remove_def)
  next
    case (Some c)
    then show ?thesis using remove registered_delete by (simp add: manager_Remove_registered)
  qed
qed (simp_all add: NewManager_def manager_Start_def endpoint_Start_def Let_def split_beta)

end
