(* ===== verification/Sniff.thy ===== *)
theory Sniff
  imports Rule_Action Byte_Order Component_Manager
begin

text \<open>
  Protocol sniffing (\<^verbatim>\<open>common/sniff\<close>): the sniffers of streams and packets, \<^verbatim>\<open>PeekStream\<close>, which reads from a
  connection until a sniffer knows, and \<^verbatim>\<open>PeekPacket\<close>.

  An \<^verbatim>\<open>io.MultiReader\<close> over buffers is the list of the byte sequences that are left.  A connection is the sequence
  of what its next reads bring; after the sequence its deadline has passed.  The HTTP, TLS and DNS parsers
  and two helpers of \<^verbatim>\<open>sing\<close> are arguments, and so is the QUIC sniffer, which decrypts the first packets.
\<close>

unbundle bit_operations_syntax

subsection \<open>Readers\<close>

type_synonym reader = "bytes list"

text \<open>One \<^verbatim>\<open>Read\<close> of a multi-reader into \<open>n\<close> bytes, \<open>None\<close> at the end: it never reads over the end of a buffer.\<close>

fun mread :: "nat \<Rightarrow> reader \<Rightarrow> (bytes \<times> reader) option" where
  "mread n [] = None"
| "mread n (c # cs) = (if c = [] then mread n cs else Some (take n c, drop n c # cs))"

text \<open>\<^verbatim>\<open>io.ReadFull\<close>, and with it \<^verbatim>\<open>binary.Read\<close>, of \<open>n\<close> more bytes after those in \<open>acc\<close>.\<close>

fun read_more :: "nat \<Rightarrow> bytes \<Rightarrow> reader \<Rightarrow> (bytes \<times> reader) res" where
  "read_more n acc [] = Inl (if acc = [] then io_EOF else io_ErrUnexpectedEOF)"
| "read_more n acc (c # cs) =
     (if n \<le> length c then Inr (acc @ take n c, drop n c # cs) else read_more (n - length c) (acc @ c) cs)"

definition ReadFull :: "nat \<Rightarrow> reader \<Rightarrow> (bytes \<times> reader) res" where
  "ReadFull n r = read_more n [] r"

text \<open>\<^verbatim>\<open>ReadLine\<close> of a \<^verbatim>\<open>bufio.Reader\<close> of the default size on what is left.\<close>

definition drop_cr :: "bytes \<Rightarrow> bytes" where
  "drop_cr line = (if line \<noteq> [] \<and> last line = 13 then butlast line else line)"

definition bufio_ReadLine :: "bytes \<Rightarrow> bytes res" where
  "bufio_ReadLine bs =
     (let line = takeWhile (\<lambda>b. b \<noteq> 10) (take 4096 bs)
      in if length line < length (take 4096 bs) then Inr (drop_cr line)
         else if 4096 \<le> length bs then Inr (drop_cr line)
         else if bs = [] then Inl io_EOF
         else Inr line)"

subsection \<open>The sniffers\<close>

definition ErrNeedMoreData :: error where "ErrNeedMoreData = New ''need more data''"

definition needs_more :: "error \<Rightarrow> bool" where "needs_more e = error_Is e ErrNeedMoreData"

definition need :: "'a res \<Rightarrow> 'a res" where
  "need r = (case r of Inl e \<Rightarrow> Inl (Joined ErrNeedMoreData e) | Inr x \<Rightarrow> Inr x)"

record sniff_library =
  sl_SkipN :: "nat \<Rightarrow> reader \<Rightarrow> reader res"
  sl_ReadFullFrom :: "nat \<Rightarrow> reader \<Rightarrow> bytes \<times> error option"
  sl_Unpack :: "bytes \<Rightarrow> dns_msg res"
  sl_ReadRequest :: "reader \<Rightarrow> string res"
  sl_HostString :: "string \<Rightarrow> string"
  sl_ClientHello :: "reader \<Rightarrow> string option \<times> error option"
  sl_QUICClientHello :: "inbound_context \<Rightarrow> bytes \<Rightarrow> error option \<times> inbound_context"

type_synonym verdict = "error option \<times> inbound_context"

text \<open>A sniffer that found a protocol sets it; the others leave the metadata alone.\<close>

definition sniffed :: "inbound_context \<Rightarrow> inbound_context res \<Rightarrow> verdict" where
  "sniffed m r = (case r of Inl e \<Rightarrow> (Some e, m) | Inr m' \<Rightarrow> (None, m'))"

definition read_byte :: "reader \<Rightarrow> (8 word \<times> reader) res" where
  "read_byte r = bind_res (ReadFull 1 r) (\<lambda>(bs, r'). Inr (hd bs, r'))"

definition read_uint16 :: "reader \<Rightarrow> (16 word \<times> reader) res" where
  "read_uint16 r = bind_res (ReadFull 2 r) (\<lambda>(bs, r'). Inr (bytes_word bs, r'))"

text \<open>A byte that has to have this value.\<close>

definition expect :: "8 word \<Rightarrow> reader \<Rightarrow> reader res" where
  "expect b r = bind_res (need (read_byte r)) (\<lambda>(x, r'). if x \<noteq> b then Inl ErrInvalid else Inr r')"

definition bittorrent_header :: bytes where "bittorrent_header = str_bytes ''BitTorrent protocol''"

definition sniff_BitTorrent :: "inbound_context \<Rightarrow> reader \<Rightarrow> verdict" where
  "sniff_BitTorrent m r = sniffed m
     (bind_res (expect 19 r) (\<lambda>r1.
        case mread 19 r1 of
          None \<Rightarrow> Inl (Joined ErrNeedMoreData io_EOF)
        | Some (protocol, r2) \<Rightarrow>
            if protocol \<noteq> take (length protocol) bittorrent_header then Inl ErrInvalid
            else if length protocol < 19 then Inl ErrNeedMoreData
            else Inr (m\<lparr>m_Protocol := ''bittorrent''\<rparr>)))"

definition sniff_SSH :: "inbound_context \<Rightarrow> reader \<Rightarrow> verdict" where
  "sniff_SSH m r = sniffed m
     (let bs = concat r; sshPrefix = str_bytes ''SSH-2.0-''; pre = take (length sshPrefix) bs
      in if pre \<noteq> take (length pre) sshPrefix then Inl ErrInvalid
         else if length pre < length sshPrefix then Inl (Joined ErrNeedMoreData io_EOF)
         else bind_res (bufio_ReadLine bs) (\<lambda>fistLine.
           if length fistLine < 8 then Inl (Panic ''slice bounds out of range'')
           else Inr (m\<lparr>m_Protocol := ''ssh'', m_Client := bytes_str (drop 8 fistLine)\<rparr>)))"

definition rdp_header :: "sniff_library \<Rightarrow> reader \<Rightarrow> unit res" where
  "rdp_header L r =
     bind_res (expect 0x03 r) (\<lambda>r1.
     bind_res (expect 0x00 r1) (\<lambda>r2.
     bind_res (need (read_uint16 r2)) (\<lambda>(tpktLength, r3).
     if tpktLength \<noteq> 19 then Inl ErrInvalid else
     bind_res (expect 14 r3) (\<lambda>r4.
     bind_res (expect 0xE0 r4) (\<lambda>r5.
     bind_res (need (sl_SkipN L 5 r5)) (\<lambda>r6.
     bind_res (expect 0x01 r6) (\<lambda>r7.
     bind_res (need (read_byte r7)) (\<lambda>(rdpFlags, r8).
     bind_res (expect 8 r8) (\<lambda>r9.
     Inr ())))))))))"

definition sniff_RDP :: "sniff_library \<Rightarrow> inbound_context \<Rightarrow> reader \<Rightarrow> verdict" where
  "sniff_RDP L m r = sniffed m (bind_res (rdp_header L r) (\<lambda>_. Inr (m\<lparr>m_Protocol := ''rdp''\<rparr>)))"

text \<open>
  A message that is not a query returns the nil error of \<^verbatim>\<open>Unpack\<close>: the sniffer succeeds and sets no protocol.
\<close>

definition sniff_DomainNameQuery :: "sniff_library \<Rightarrow> inbound_context \<Rightarrow> bytes \<Rightarrow> verdict" where
  "sniff_DomainNameQuery L m packet =
     (case sl_Unpack L packet of
        Inl e \<Rightarrow> (Some e, m)
      | Inr msg \<Rightarrow>
          if d_Response msg \<or> d_Question msg = [] \<or> d_Answer msg \<noteq> [] \<or> d_Ns msg \<noteq> [] then (None, m)
          else (None, m\<lparr>m_Protocol := ''dns''\<rparr>))"

text \<open>What the header of a query may not have; only the bytes read so far are looked at.\<close>

definition not_query :: "bytes \<Rightarrow> bool" where
  "not_query packet \<longleftrightarrow>
     (length packet > 2 \<and> packet ! 2 AND 0x80 \<noteq> 0) \<or>
     (length packet > 5 \<and> packet ! 4 = 0 \<and> packet ! 5 = 0) \<or>
     list_ex (\<lambda>i. length packet > i \<and> packet ! i \<noteq> 0) [6..<10]"

definition sniff_StreamDomainNameQuery :: "sniff_library \<Rightarrow> inbound_context \<Rightarrow> reader \<Rightarrow> verdict" where
  "sniff_StreamDomainNameQuery L m r =
     (case need (read_uint16 r) of
        Inl e \<Rightarrow> (Some e, m)
      | Inr (len, r1) \<Rightarrow>
          if len < 12 then (Some ErrInvalid, m)
          else case sl_ReadFullFrom L (unat len) r1 of
            (packet, err) \<Rightarrow>
              if not_query packet then (Some ErrInvalid, m)
              else case err of
                Some e \<Rightarrow> (Some (Joined ErrNeedMoreData e), m)
              | None \<Rightarrow> sniff_DomainNameQuery L m packet)"

definition sniff_HTTPHost :: "sniff_library \<Rightarrow> inbound_context \<Rightarrow> reader \<Rightarrow> verdict" where
  "sniff_HTTPHost L m r =
     (case sl_ReadRequest L r of
        Inl e \<Rightarrow> (Some (if error_Is e io_ErrUnexpectedEOF then Joined ErrNeedMoreData e else e), m)
      | Inr host \<Rightarrow> (None, m\<lparr>m_Protocol := ''http'', m_Domain := sl_HostString L host\<rparr>))"

definition sniff_TLSClientHello :: "sniff_library \<Rightarrow> inbound_context \<Rightarrow> reader \<Rightarrow> verdict" where
  "sniff_TLSClientHello L m r =
     (case sl_ClientHello L r of
        (Some serverName, _) \<Rightarrow> (None, m\<lparr>m_Protocol := ''tls'', m_Domain := serverName\<rparr>)
      | (None, err) \<Rightarrow> (map_option (\<lambda>e. if error_Is e io_ErrUnexpectedEOF then Joined ErrNeedMoreData e else e) err, m))"

text \<open>The loop over the extensions of a uTP packet: after the last one the packet may go on.\<close>

function utp_extensions :: "8 word \<Rightarrow> bytes \<Rightarrow> error option" where
  "utp_extensions extension r =
     (if extension = 0 then None
      else case r of
        [] \<Rightarrow> Some io_EOF
      | e # r1 \<Rightarrow>
          if e > 0x04 then Some ErrInvalid
          else case r1 of
            [] \<Rightarrow> Some io_EOF
          | len # r2 \<Rightarrow> utp_extensions e (drop (unat len) r2))"
  by pat_completeness auto
termination by (relation "measure (length \<circ> snd)") auto

declare utp_extensions.simps [simp del]

definition sniff_UTP :: "inbound_context \<Rightarrow> bytes \<Rightarrow> verdict" where
  "sniff_UTP m packet =
     (if length packet < 20 then (Some ErrInvalid, m)
      else if packet ! 0 AND 0x0F \<noteq> 1 \<or> drop_bit 4 (packet ! 0) > 4 then (Some ErrInvalid, m)
      else case utp_extensions (packet ! 1) (drop 20 packet) of
        Some e \<Rightarrow> (Some e, m)
      | None \<Rightarrow> (None, m\<lparr>m_Protocol := ''bittorrent''\<rparr>))"

definition uint32_at :: "nat \<Rightarrow> bytes \<Rightarrow> 32 word" where
  "uint32_at i packet = bytes_word (take 4 (drop i packet))"

definition sniff_UDPTracker :: "inbound_context \<Rightarrow> bytes \<Rightarrow> verdict" where
  "sniff_UDPTracker m packet =
     (if length packet < 16 then (Some ErrInvalid, m)
      else if (bytes_word (take 8 packet) :: 64 word) \<noteq> 0x41727101980 then (Some ErrInvalid, m)
      else if uint32_at 8 packet \<noteq> 0 then (Some ErrInvalid, m)
      else (None, m\<lparr>m_Protocol := ''bittorrent''\<rparr>))"

definition sniff_STUNMessage :: "inbound_context \<Rightarrow> bytes \<Rightarrow> verdict" where
  "sniff_STUNMessage m packet =
     (if length packet < 20 then (Some ErrInvalid, m)
      else if uint32_at 4 packet \<noteq> 0x2112A442 then (Some ErrInvalid, m)
      else if length packet < 20 + unat (bytes_word (take 2 (drop 2 packet)) :: 16 word) then (Some ErrInvalid, m)
      else (None, m\<lparr>m_Protocol := ''stun''\<rparr>))"

definition sniff_DTLSRecord :: "inbound_context \<Rightarrow> bytes \<Rightarrow> verdict" where
  "sniff_DTLSRecord m packet =
     (if length packet < 13 then (Some ErrInvalid, m)
      else if packet ! 0 \<notin> {20, 21, 22, 23, 25} then (Some ErrInvalid, m)
      else if packet ! 1 \<noteq> 0xfe then (Some ErrInvalid, m)
      else if packet ! 2 \<noteq> 0xff \<and> packet ! 2 \<noteq> 0xfd then (Some ErrInvalid, m)
      else (None, m\<lparr>m_Protocol := ''dtls''\<rparr>))"

text \<open>The quotients of the floating-point comparison are exact: more than sixteen seconds is more than \<open>2 ^ 20\<close> units.\<close>

definition sniff_NTP :: "inbound_context \<Rightarrow> bytes \<Rightarrow> verdict" where
  "sniff_NTP m packet =
     (if length packet < 48 then (Some ErrInvalid, m)
      else
        let firstByte = packet ! 0;
            li = drop_bit 6 firstByte AND 0x03; vn = drop_bit 3 firstByte AND 0x07; mode = firstByte AND 0x07
        in if li > 3 then (Some ErrInvalid, m)
           else if vn \<noteq> 3 \<and> vn \<noteq> 4 then (Some ErrInvalid, m)
           else if mode \<noteq> 3 then (Some ErrInvalid, m)
           else if uint32_at 4 packet > 0x100000 then (Some ErrInvalid, m)
           else if uint32_at 8 packet > 0x100000 then (Some ErrInvalid, m)
           else (None, m\<lparr>m_Protocol := ''ntp''\<rparr>))"

fun run_stream_sniffer :: "sniff_library \<Rightarrow> stream_sniffer \<Rightarrow> inbound_context \<Rightarrow> reader \<Rightarrow> verdict" where
  "run_stream_sniffer L TLSClientHello = sniff_TLSClientHello L"
| "run_stream_sniffer L HTTPHost = sniff_HTTPHost L"
| "run_stream_sniffer L StreamDomainNameQuery = sniff_StreamDomainNameQuery L"
| "run_stream_sniffer L BitTorrent = sniff_BitTorrent"
| "run_stream_sniffer L SSH = sniff_SSH"
| "run_stream_sniffer L RDP = sniff_RDP L"

fun run_packet_sniffer :: "sniff_library \<Rightarrow> packet_sniffer \<Rightarrow> inbound_context \<Rightarrow> bytes \<Rightarrow> verdict" where
  "run_packet_sniffer L QUICClientHello = sl_QUICClientHello L"
| "run_packet_sniffer L DomainNameQuery = sniff_DomainNameQuery L"
| "run_packet_sniffer L STUNMessage = sniff_STUNMessage"
| "run_packet_sniffer L UTP = sniff_UTP"
| "run_packet_sniffer L UDPTracker = sniff_UDPTracker"
| "run_packet_sniffer L DTLSRecord = sniff_DTLSRecord"
| "run_packet_sniffer L NTP = sniff_NTP"

subsection \<open>Peeking\<close>

definition Skip :: "inbound_context \<Rightarrow> bool" where
  "Skip m \<longleftrightarrow> s_Port (m_Destination m) \<in> {25, 465, 587, 143, 993, 110, 995}"

definition E_Errors :: "error option \<Rightarrow> error \<Rightarrow> error option" where
  "E_Errors acc e = Some (case acc of None \<Rightarrow> e | Some a \<Rightarrow> Joined a e)"

text \<open>One round of the sniffers: \<open>Inl\<close> is the metadata of the first that succeeds, \<open>Inr\<close> all errors joined.\<close>

fun sniff_round ::
  "(inbound_context \<Rightarrow> 'i \<Rightarrow> verdict) list \<Rightarrow> 'i \<Rightarrow> error option \<Rightarrow> inbound_context \<Rightarrow>
     inbound_context + error option \<times> inbound_context" where
  "sniff_round [] input acc m = Inr (acc, m)"
| "sniff_round (s # ss) input acc m =
     (case s m input of
        (None, m') \<Rightarrow> Inl m'
      | (Some e, m') \<Rightarrow> sniff_round ss input (E_Errors acc e) m')"

text \<open>
  What the next use of the connection brings: the deadline cannot be set, or a read appends bytes, perhaps with an
  error.  After the last one a read runs into the deadline.
\<close>

datatype stream_read = DeadlineFails error | ReadOnce bytes "error option"

definition os_ErrDeadlineExceeded :: error where "os_ErrDeadlineExceeded = Sentinel ''i/o timeout''"

fun peek_loop ::
  "(inbound_context \<Rightarrow> reader \<Rightarrow> verdict) list \<Rightarrow> bytes list \<Rightarrow> nat \<Rightarrow> bytes \<Rightarrow> error option \<Rightarrow> inbound_context \<Rightarrow>
     stream_read list \<Rightarrow> error option \<times> bytes \<times> inbound_context \<times> stream_read list" where
  "peek_loop sniffers buffers i buffer sniffError m [] =
     (if i > 0 then sniffError else Some (Cause os_ErrDeadlineExceeded ''read payload''), buffer, m, [])"
| "peek_loop sniffers buffers i buffer sniffError m (DeadlineFails e # conn) =
     (Some (Cause e ''set read deadline''), buffer, m, conn)"
| "peek_loop sniffers buffers i buffer sniffError m (ReadOnce bs err # conn) =
     (case err of
        Some e \<Rightarrow> (if i > 0 then sniffError else Some (Cause e ''read payload''), buffer @ bs, m, conn)
      | None \<Rightarrow>
          (case sniff_round sniffers (buffers @ [buffer @ bs]) None m of
             Inl m' \<Rightarrow> (None, buffer @ bs, m', conn)
           | Inr (sniffError', m') \<Rightarrow>
               if (case sniffError' of None \<Rightarrow> False | Some e \<Rightarrow> needs_more e)
               then peek_loop sniffers buffers (Suc i) (buffer @ bs) sniffError' m' conn
               else (sniffError', buffer @ bs, m', conn)))"

definition PeekStream ::
  "sniff_library \<Rightarrow> inbound_context \<Rightarrow> stream_read list \<Rightarrow> bytes list \<Rightarrow> stream_sniffer list \<Rightarrow>
     error option \<times> bytes \<times> inbound_context \<times> stream_read list" where
  "PeekStream L m conn buffers sniffers = peek_loop (map (run_stream_sniffer L) sniffers) buffers 0 [] None m conn"

definition PeekPacket :: "sniff_library \<Rightarrow> inbound_context \<Rightarrow> bytes \<Rightarrow> packet_sniffer list \<Rightarrow> verdict" where
  "PeekPacket L m packet sniffers =
     (case sniff_round (map (run_packet_sniffer L) sniffers) packet None m of
        Inl m' \<Rightarrow> (None, m')
      | Inr (sniffError, m') \<Rightarrow> (sniffError, m'))"


subsection \<open>Verdicts do not depend on how the stream is cut\<close>

text \<open>What the two helpers of \<^verbatim>\<open>sing\<close> do: skip, or fill, exactly so many bytes.\<close>

definition sniff_documented :: "sniff_library \<Rightarrow> bool" where
  "sniff_documented L \<longleftrightarrow>
     (\<forall>n r. case sl_SkipN L n r of
        Inl _ \<Rightarrow> length (concat r) < n
      | Inr r' \<Rightarrow> n \<le> length (concat r) \<and> concat r' = drop n (concat r)) \<and>
     (\<forall>n r. fst (sl_ReadFullFrom L n r) = take n (concat r) \<and>
        (snd (sl_ReadFullFrom L n r) = None \<longleftrightarrow> n \<le> length (concat r)))"

lemma needs_more_simps [simp]:
  "needs_more ErrNeedMoreData" "needs_more (Joined ErrNeedMoreData e)" "\<not> needs_more ErrInvalid"
  by (simp_all add: needs_more_def ErrNeedMoreData_def ErrInvalid_def)

lemma read_more_spec:
  assumes "0 < n"
  shows "case read_more n acc r of
     Inl _ \<Rightarrow> length (concat r) < n
   | Inr (bs, r') \<Rightarrow> n \<le> length (concat r) \<and> bs = acc @ take n (concat r) \<and> concat r' = drop n (concat r)"
  using assms
proof (induction n acc r rule: read_more.induct)
  case (2 n acc c cs)
  then show ?case by (cases "n \<le> length c") (auto split: sum.splits)
qed simp

text \<open>
  A parser is steady when bytes that arrive later change neither its result nor that it refused the input: only
  a demand for more data is provisional.
\<close>

definition steady :: "(reader \<Rightarrow> 'a res) \<Rightarrow> bool" where
  "steady f \<longleftrightarrow> (\<forall>r r' later. concat r' = concat r @ later \<longrightarrow>
     (case f r of
        Inl e \<Rightarrow> \<not> needs_more e \<longrightarrow> f r' = Inl e
      | Inr x \<Rightarrow> f r' = Inr x))"

lemma steadyI:
  assumes "\<And>r r' later e. concat r' = concat r @ later \<Longrightarrow> f r = Inl e \<Longrightarrow> \<not> needs_more e \<Longrightarrow> f r' = Inl e"
    and "\<And>r r' later x. concat r' = concat r @ later \<Longrightarrow> f r = Inr x \<Longrightarrow> f r' = Inr x"
  shows "steady f"
  using assms by (auto simp: steady_def split: sum.splits)

lemma steadyD:
  assumes "steady f" "concat r' = concat r @ later"
  shows "f r = Inl e \<Longrightarrow> \<not> needs_more e \<Longrightarrow> f r' = Inl e" "f r = Inr x \<Longrightarrow> f r' = Inr x"
  using assms by (fastforce simp: steady_def)+

lemma steady_const [intro!]: "steady (\<lambda>r. c)"
  by (auto intro!: steadyI)

lemma steady_if [intro!]: "(c \<Longrightarrow> steady f) \<Longrightarrow> (\<not> c \<Longrightarrow> steady g) \<Longrightarrow> steady (\<lambda>r. if c then f r else g r)"
  by (cases c) simp_all

text \<open>
  Reading \<open>n\<close> bytes and going on with a steady parser is steady.  \<open>f\<close> is any way to read that fails for want of
  bytes only.
\<close>

lemma steady_bind:
  assumes f: "\<And>r. case f r of
       Inl e \<Rightarrow> length (concat r) < n
     | Inr (x, s) \<Rightarrow> n \<le> length (concat r) \<and> x = h (take n (concat r)) \<and> concat s = drop n (concat r)"
    and g: "\<And>x. steady (g x)"
  shows "steady (\<lambda>r. bind_res (need (f r)) (\<lambda>(x, s). g x s))"
proof -
  have more_data: "length (concat r) < n" if "f r = Inl e" for r e
    using f [of r] that by simp
  have read: "n \<le> length (concat r)" "x = h (take n (concat r))" "concat s = drop n (concat r)" if "f r = Inr (x, s)" for r x s
    using f [of r] that by simp_all
  have later: "\<exists>s'. f r' = Inr (x, s') \<and> concat s' = concat s @ l"
    if "concat r' = concat r @ l" "f r = Inr (x, s)" for r r' l x s
  proof (cases "f r'")
    case (Inl e)
    then show ?thesis using more_data [of r'] read [OF that(2)] that(1) by simp
  next
    case (Inr p)
    then obtain x' s' where p: "f r' = Inr (x', s')" by (cases p) simp
    then show ?thesis using read [OF p] read [OF that(2)] that(1) by simp
  qed
  show ?thesis
  proof (rule steadyI)
    fix r r' l e
    assume c: "concat r' = concat r @ l" and e: "bind_res (need (f r)) (\<lambda>(x, s). g x s) = Inl e" "\<not> needs_more e"
    then obtain x s where r: "f r = Inr (x, s)" "g x s = Inl e"
      by (auto simp: need_def bind_res_def split: sum.splits)
    then show "bind_res (need (f r')) (\<lambda>(x, s). g x s) = Inl e"
      using later [OF c r(1)] steadyD(1) [OF g _ r(2) e(2)] by (auto simp: need_def bind_res_def)
  next
    fix r r' l y
    assume c: "concat r' = concat r @ l" and y: "bind_res (need (f r)) (\<lambda>(x, s). g x s) = Inr y"
    then obtain x s where r: "f r = Inr (x, s)" "g x s = Inr y"
      by (auto simp: need_def bind_res_def split: sum.splits)
    then show "bind_res (need (f r')) (\<lambda>(x, s). g x s) = Inr y"
      using later [OF c r(1)] steadyD(2) [OF g _ r(2)] by (auto simp: need_def bind_res_def)
  qed
qed

lemma read_spec:
  assumes "0 < n"
  shows "case bind_res (ReadFull n r) (\<lambda>(bs, s). Inr (h bs, s)) of
       Inl e \<Rightarrow> length (concat r) < n
     | Inr (x, s) \<Rightarrow> n \<le> length (concat r) \<and> x = h (take n (concat r)) \<and> concat s = drop n (concat r)"
  using read_more_spec [OF assms, where acc = "[]" and r = r]
  by (auto simp: ReadFull_def bind_res_def split: sum.splits)

lemma steady_read_byte: "(\<And>x. steady (g x)) \<Longrightarrow> steady (\<lambda>r. bind_res (need (read_byte r)) (\<lambda>(x, s). g x s))"
  unfolding read_byte_def by (rule steady_bind [OF read_spec]) auto

lemma steady_read_uint16: "(\<And>x. steady (g x)) \<Longrightarrow> steady (\<lambda>r. bind_res (need (read_uint16 r)) (\<lambda>(x, s). g x s))"
  unfolding read_uint16_def by (rule steady_bind [OF read_spec]) auto

lemma steady_expect:
  assumes "steady g"
  shows "steady (\<lambda>r. bind_res (expect b r) g)"
proof -
  have "bind_res (expect b r) g = bind_res (need (read_byte r)) (\<lambda>(x, s). if x \<noteq> b then Inl ErrInvalid else g s)" for r
    by (auto simp: expect_def bind_res_def split: sum.splits)
  moreover have "steady (\<lambda>s. if x \<noteq> b then Inl ErrInvalid else g s)" for x using assms by auto
  ultimately show ?thesis using steady_read_byte [of "\<lambda>x s. if x \<noteq> b then Inl ErrInvalid else g s"] by simp
qed

lemma skip_spec:
  "sniff_documented L \<Longrightarrow> case sl_SkipN L n r of
     Inl _ \<Rightarrow> length (concat r) < n
   | Inr r' \<Rightarrow> n \<le> length (concat r) \<and> concat r' = drop n (concat r)"
  by (simp add: sniff_documented_def)

lemma steady_skip:
  assumes "sniff_documented L" "steady g"
  shows "steady (\<lambda>r. bind_res (need (sl_SkipN L n r)) g)"
proof -
  have "steady (\<lambda>r. bind_res (need (bind_res (sl_SkipN L n r) (\<lambda>s. Inr ((), s)))) (\<lambda>(x, s). g s))"
  proof (rule steady_bind [where n = n and h = "\<lambda>_. ()"])
    show "case bind_res (sl_SkipN L n r) (\<lambda>s. Inr ((), s)) of
       Inl e \<Rightarrow> length (concat r) < n
     | Inr (x, s) \<Rightarrow> n \<le> length (concat r) \<and> x = () \<and> concat s = drop n (concat r)" for r
      using skip_spec [OF assms(1), where n = n and r = r] by (auto simp: bind_res_def split: sum.splits)
  qed (rule assms(2))
  moreover have "bind_res (need (bind_res (sl_SkipN L n r) (\<lambda>s. Inr ((), s)))) (\<lambda>(x, s). g s) =
      bind_res (need (sl_SkipN L n r)) g" for r
    by (auto simp: need_def bind_res_def split: sum.splits)
  ultimately show ?thesis by simp
qed

lemma steady_rdp: "sniff_documented L \<Longrightarrow> steady (rdp_header L)"
  unfolding rdp_header_def
  by (intro steady_expect steady_read_uint16 steady_read_byte steady_skip steady_if steady_const)

text \<open>A sniffer whose verdict on the first bytes of a stream lasts, whatever follows; a failing one changes nothing.\<close>

definition lasting :: "(inbound_context \<Rightarrow> reader \<Rightarrow> verdict) \<Rightarrow> bool" where
  "lasting s \<longleftrightarrow> (\<forall>m bs later.
     case s m [bs] of
       (Some e, m') \<Rightarrow> m' = m \<and> (\<not> needs_more e \<longrightarrow> s m [bs @ later] = (Some e, m))
     | (None, m') \<Rightarrow> \<exists>m''. s m [bs @ later] = (None, m'') \<and> m_Protocol m'' = m_Protocol m')"

lemma lasting_rdp:
  assumes "sniff_documented L"
  shows "lasting (sniff_RDP L)"
  unfolding lasting_def
proof (intro allI)
  fix m and bs later :: bytes
  have "concat [bs @ later] = concat [bs] @ later" by simp
  note st = steadyD [OF steady_rdp [OF assms] this]
  show "case sniff_RDP L m [bs] of
      (Some e, m') \<Rightarrow> m' = m \<and> (\<not> needs_more e \<longrightarrow> sniff_RDP L m [bs @ later] = (Some e, m))
    | (None, m') \<Rightarrow> \<exists>m''. sniff_RDP L m [bs @ later] = (None, m'') \<and> m_Protocol m'' = m_Protocol m'"
    using st by (cases "rdp_header L [bs]") (auto simp: sniff_RDP_def sniffed_def bind_res_def)
qed

lemma ReadFull_single:
  "ReadFull n [bs] = (if n \<le> length bs then Inr (take n bs, [drop n bs]) else Inl (if bs = [] then io_EOF else io_ErrUnexpectedEOF))"
  by (auto simp: ReadFull_def)

lemma expect_single:
  "expect b [bs] = (if bs = [] then Inl (Joined ErrNeedMoreData io_EOF) else if hd bs \<noteq> b then Inl ErrInvalid else Inr [tl bs])"
  by (cases bs) (auto simp: expect_def read_byte_def ReadFull_single need_def bind_res_def)

text \<open>Bytes that agree with a header as far as they go agree with it on every shorter input.\<close>

lemma agrees_earlier:
  fixes header :: bytes
  assumes "take n (bs @ later) = take (length (take n (bs @ later))) header"
  shows "take n bs = take (length (take n bs)) header"
proof -
  have "prefix (take n (bs @ later)) header" using assms take_is_prefix by metis
  moreover have "prefix (take n bs) (take n (bs @ later))" by simp
  ultimately have "prefix (take n bs) header" by (rule prefix_order.trans [rotated])
  then obtain zs where "header = take n bs @ zs" by (auto simp: prefix_def)
  then show ?thesis by (metis append_eq_conv_conj)
qed

lemma lasting_bittorrent: "lasting sniff_BitTorrent"
  unfolding lasting_def
proof (intro allI)
  fix m and bs later :: bytes
  have single: "sniff_BitTorrent m [b # xs] =
      (if b \<noteq> 19 then (Some ErrInvalid, m)
       else if xs = [] then (Some (Joined ErrNeedMoreData io_EOF), m)
       else if take 19 xs \<noteq> take (length (take 19 xs)) bittorrent_header then (Some ErrInvalid, m)
       else if length (take 19 xs) < 19 then (Some ErrNeedMoreData, m)
       else (None, m\<lparr>m_Protocol := ''bittorrent''\<rparr>))" for b xs
    by (simp add: sniff_BitTorrent_def expect_single sniffed_def bind_res_def)
  show "case sniff_BitTorrent m [bs] of
      (Some e, m') \<Rightarrow> m' = m \<and> (\<not> needs_more e \<longrightarrow> sniff_BitTorrent m [bs @ later] = (Some e, m))
    | (None, m') \<Rightarrow> \<exists>m''. sniff_BitTorrent m [bs @ later] = (None, m'') \<and> m_Protocol m'' = m_Protocol m'"
  proof (cases bs)
    case (Cons b xs)
    show ?thesis
      using agrees_earlier [of 19 xs later bittorrent_header]
      unfolding Cons append_Cons single by auto
  qed (simp add: sniff_BitTorrent_def expect_single sniffed_def bind_res_def)
qed

lemma ssh_line:
  assumes "take 8 bs = str_bytes ''SSH-2.0-''"
  shows "\<exists>line. bufio_ReadLine bs = Inr line \<and> 8 \<le> length line"
proof -
  have pre: "take 8 bs = [83, 83, 72, 45, 50, 46, 48, 45]" using assms by (simp add: str_bytes_def)
  then obtain rest where bs: "bs = [83, 83, 72, 45, 50, 46, 48, 45] @ rest"
    by (metis append_take_drop_id)
  then have "bs \<noteq> []" by simp
  define line where "line = takeWhile (\<lambda>b. b \<noteq> 10) (take 4096 bs)"
  have line: "line = [83, 83, 72, 45, 50, 46, 48, 45] @ takeWhile (\<lambda>b. b \<noteq> 10) (take 4088 rest)"
    by (simp add: line_def bs)
  have "8 \<le> length (drop_cr line)" by (auto simp: drop_cr_def line simp flip: length_greater_0_conv split: if_splits)
  moreover have "8 \<le> length line" by (simp add: line)
  moreover have "bufio_ReadLine bs = Inr line \<or> bufio_ReadLine bs = Inr (drop_cr line)"
    using \<open>bs \<noteq> []\<close> unfolding bufio_ReadLine_def line_def [symmetric] Let_def by (auto split: if_splits)
  ultimately show ?thesis by auto
qed

lemma lasting_ssh: "lasting sniff_SSH"
  unfolding lasting_def
proof (intro allI)
  fix m and bs later :: bytes
  have len: "length (str_bytes ''SSH-2.0-'') = 8" by (simp add: str_bytes_def)
  have agree: "take 8 bs = take (length (take 8 bs)) (str_bytes ''SSH-2.0-'')"
    if "take 8 (bs @ later) = take (length (take 8 (bs @ later))) (str_bytes ''SSH-2.0-'')"
    using agrees_earlier [OF that] .
  have found: "\<exists>c. sniff_SSH m [xs] = (None, m\<lparr>m_Protocol := ''ssh'', m_Client := c\<rparr>)"
    if xs: "take 8 xs = str_bytes ''SSH-2.0-''" for xs
  proof -
    have "min (length xs) 8 = 8" using arg_cong [OF xs, of length] len by simp
    then show ?thesis using ssh_line [OF xs] by (auto simp: sniff_SSH_def Let_def len xs sniffed_def bind_res_def)
  qed
  have refusal: "sniff_SSH m [xs] = (Some ErrInvalid, m)"
    if "take 8 xs \<noteq> take (length (take 8 xs)) (str_bytes ''SSH-2.0-'')" for xs
    using that by (simp add: sniff_SSH_def Let_def len sniffed_def)
  consider (refused) "take 8 bs \<noteq> take (length (take 8 bs)) (str_bytes ''SSH-2.0-'')"
    | (short) "take 8 bs = take (length (take 8 bs)) (str_bytes ''SSH-2.0-'')" "length (take 8 bs) < 8"
    | (prefix) "take 8 bs = str_bytes ''SSH-2.0-''"
    using len by fastforce
  then show "case sniff_SSH m [bs] of
      (Some e, m') \<Rightarrow> m' = m \<and> (\<not> needs_more e \<longrightarrow> sniff_SSH m [bs @ later] = (Some e, m))
    | (None, m') \<Rightarrow> \<exists>m''. sniff_SSH m [bs @ later] = (None, m'') \<and> m_Protocol m'' = m_Protocol m'"
  proof cases
    case refused
    then have "take 8 (bs @ later) \<noteq> take (length (take 8 (bs @ later))) (str_bytes ''SSH-2.0-'')" using agree by blast
    from refusal [OF this] refusal [OF refused] show ?thesis by simp
  next
    case short
    from short(2) have "length bs < 8" by simp
    then show ?thesis using short(1) by (simp add: sniff_SSH_def Let_def len sniffed_def)
  next
    case prefix
    have "min (length bs) 8 = 8" using arg_cong [OF prefix, of length] len by simp
    then have "8 \<le> length bs" by simp
    then have "take 8 (bs @ later) = str_bytes ''SSH-2.0-''" using prefix by simp
    then show ?thesis using found [OF prefix] found [of "bs @ later"] by auto
  qed
qed

lemma not_query_later: "not_query packet \<Longrightarrow> not_query (packet @ later)"
  unfolding not_query_def list_ex_iff by (elim disjE conjE bexE) (auto simp: nth_append)

lemma lasting_dns:
  assumes L: "sniff_documented L"
  shows "lasting (sniff_StreamDomainNameQuery L)"
  unfolding lasting_def
proof (intro allI)
  fix m and bs later :: bytes
  have fill: "fst (sl_ReadFullFrom L n r) = take n (concat r)" "snd (sl_ReadFullFrom L n r) = None \<longleftrightarrow> n \<le> length (concat r)" for n r
    using L by (simp_all add: sniff_documented_def)
  define len where "len = (bytes_word (take 2 bs) :: 16 word)"
  define rest where "rest = drop 2 bs"
  have later: "sniff_StreamDomainNameQuery L m [bs @ later'] =
      (if len < 12 then (Some ErrInvalid, m)
       else if not_query (take (unat len) (rest @ later')) then (Some ErrInvalid, m)
       else case snd (sl_ReadFullFrom L (unat len) [rest @ later']) of
         Some e \<Rightarrow> (Some (Joined ErrNeedMoreData e), m)
       | None \<Rightarrow> sniff_DomainNameQuery L m (take (unat len) (rest @ later')))" if "2 \<le> length bs" for later'
  proof -
    have "need (read_uint16 [bs @ later']) = Inr (len, [rest @ later'])"
      using that by (simp add: read_uint16_def ReadFull_single need_def bind_res_def len_def rest_def)
    then show ?thesis
      using fill(1) [of "unat len" "[rest @ later']"]
      by (simp add: sniff_StreamDomainNameQuery_def case_prod_unfold split: option.split)
  qed
  have query: "\<exists>m'. sniff_DomainNameQuery L m packet = (None, m') \<or> (\<exists>e. sniff_DomainNameQuery L m packet = (Some e, m))" for packet
    by (auto simp: sniff_DomainNameQuery_def split: sum.splits)
  show "case sniff_StreamDomainNameQuery L m [bs] of
      (Some e, m') \<Rightarrow> m' = m \<and> (\<not> needs_more e \<longrightarrow> sniff_StreamDomainNameQuery L m [bs @ later] = (Some e, m))
    | (None, m') \<Rightarrow> \<exists>m''. sniff_StreamDomainNameQuery L m [bs @ later] = (None, m'') \<and> m_Protocol m'' = m_Protocol m'"
  proof (cases "2 \<le> length bs")
    case False
    then show ?thesis
      by (auto simp: sniff_StreamDomainNameQuery_def read_uint16_def ReadFull_single need_def bind_res_def)
  next
    case True
    note now = later [OF True, of "[]", simplified] and then' = later [OF True, of later]
    show ?thesis
    proof (cases "unat len \<le> length rest")
      case fits: True
      then show ?thesis
        using fill(2) [of "unat len" "[rest]"] fill(2) [of "unat len" "[rest @ later]"] query [of "take (unat len) rest"]
        unfolding now then' by (auto split: option.splits)
    next
      case False
      then show ?thesis
        using fill(2) [of "unat len" "[rest]"] not_query_later [of rest "take (unat len - length rest) later"]
        unfolding now then' by (auto split: option.splits)
    qed
  qed
qed

definition lasting_sniffers :: "stream_sniffer list" where
  "lasting_sniffers = [StreamDomainNameQuery, BitTorrent, SSH, RDP]"

lemma lasting_sniffer: "sniff_documented L \<Longrightarrow> s \<in> set lasting_sniffers \<Longrightarrow> lasting (run_stream_sniffer L s)"
  by (auto simp: lasting_sniffers_def lasting_bittorrent lasting_ssh lasting_rdp lasting_dns)

text \<open>The bytes a connection still has to bring.\<close>

fun stream_bytes :: "stream_read list \<Rightarrow> bytes" where
  "stream_bytes [] = []"
| "stream_bytes (DeadlineFails e # conn) = stream_bytes conn"
| "stream_bytes (ReadOnce bs err # conn) = bs @ stream_bytes conn"

lemma peek_loop_bytes:
  "peek_loop sniffers buffers i buffer sniffError m conn = (err, buffer', m', conn') \<Longrightarrow>
     buffer' @ stream_bytes conn' = buffer @ stream_bytes conn"
proof (induction sniffers buffers i buffer sniffError m conn rule: peek_loop.induct)
  case (3 sniffers buffers i buffer sniffError m bs failure conn)
  show ?case
  proof (cases failure)
    case None
    note s = None
    show ?thesis
    proof (cases "sniff_round sniffers (buffers @ [buffer @ bs]) None m")
      case (Inl m1)
      then show ?thesis using 3(2) s by auto
    next
      case (Inr p)
      obtain sniffError1 m1 where p: "p = (sniffError1, m1)" by (cases p)
      show ?thesis using 3(2) 3(1) [OF s Inr p [symmetric]] by (auto simp: s Inr p split: if_splits)
    qed
  qed (use 3(2) in auto)
qed auto

lemma peek_loop_chunks:
  assumes f: "lasting f"
    and "chunks = [] \<Longrightarrow> 0 < i \<and> (\<exists>e. sniffError = Some e \<and> f m [buffer] = (Some e, m))"
    and "peek_loop [f] [] i buffer sniffError m (map (\<lambda>b. ReadOnce b None) chunks) = (err, buffer', m', conn')"
  shows "(err = None \<longleftrightarrow> fst (f m [buffer @ concat chunks]) = None) \<and>
    (err = None \<longrightarrow> m_Protocol m' = m_Protocol (snd (f m [buffer @ concat chunks])))"
  using assms(2,3)
proof (induction chunks arbitrary: i buffer sniffError)
  case Nil
  then show ?case by auto
next
  case (Cons bs chunks)
  have law: "case f m [buffer @ bs] of
       (Some e, m') \<Rightarrow> m' = m \<and> (\<not> needs_more e \<longrightarrow> f m [(buffer @ bs) @ concat chunks] = (Some e, m))
     | (None, m') \<Rightarrow> \<exists>m''. f m [(buffer @ bs) @ concat chunks] = (None, m'') \<and> m_Protocol m'' = m_Protocol m'"
    using f [unfolded lasting_def] by (elim allE)
  show ?case
  proof (cases "fst (f m [buffer @ bs])")
    case None
    then show ?thesis using Cons.prems(2) law by (auto simp: case_prod_unfold)
  next
    case (Some e)
    then have e: "f m [buffer @ bs] = (Some e, m)" using law by (auto simp: case_prod_unfold prod_eq_iff)
    show ?thesis
    proof (cases "needs_more e")
      case True
      then have "peek_loop [f] [] (Suc i) (buffer @ bs) (Some e) m (map (\<lambda>b. ReadOnce b None) chunks) = (err, buffer', m', conn')"
        using Cons.prems(2) by (simp add: e E_Errors_def)
      from Cons.IH [OF _ this] show ?thesis by (simp add: e)
    next
      case False
      then have "f m [(buffer @ bs) @ concat chunks] = (Some e, m)" using law by (simp add: e)
      then show ?thesis using Cons.prems(2) False by (auto simp: e E_Errors_def)
    qed
  qed
qed

text \<open>
  C19. However the stream is cut into reads, sniffing for DNS, BitTorrent, SSH or RDP gives the verdict that the sniffer gives
  on all bytes at once, with the same protocol; and the bytes taken from the connection are exactly those in the
  buffer.
\<close>

theorem peek_stream_chunking:
  assumes "sniff_documented L" "s \<in> set lasting_sniffers" "chunks \<noteq> []"
    and "PeekStream L m (map (\<lambda>b. ReadOnce b None) chunks) [] [s] = (err, buffer, m', conn')"
  shows "(err = None \<longleftrightarrow> fst (run_stream_sniffer L s m [concat chunks]) = None) \<and>
    (err = None \<longrightarrow> m_Protocol m' = m_Protocol (snd (run_stream_sniffer L s m [concat chunks]))) \<and>
    buffer @ stream_bytes conn' = concat chunks"
proof -
  have run: "peek_loop [run_stream_sniffer L s] [] 0 [] None m (map (\<lambda>b. ReadOnce b None) chunks) = (err, buffer, m', conn')"
    using assms(4) by (simp add: PeekStream_def)
  have "stream_bytes (map (\<lambda>b. ReadOnce b None) chunks) = concat chunks" by (induction chunks) simp_all
  then show ?thesis
    using peek_loop_chunks [OF lasting_sniffer [OF assms(1,2)] _ run] peek_loop_bytes [OF run] assms(3) by simp
qed

text \<open>A library of the two helpers, for examples.\<close>

definition plain_sniff_library :: sniff_library where
  "plain_sniff_library =
     \<lparr>sl_SkipN = (\<lambda>n r. if n \<le> length (concat r) then Inr [drop n (concat r)] else Inl io_EOF),
      sl_ReadFullFrom = (\<lambda>n r. (take n (concat r), if n \<le> length (concat r) then None else Some io_ErrUnexpectedEOF)),
      sl_Unpack = (\<lambda>_. Inl (New ''unpack'')), sl_ReadRequest = (\<lambda>_. Inl io_ErrUnexpectedEOF), sl_HostString = id,
      sl_ClientHello = (\<lambda>_. (None, Some io_EOF)), sl_QUICClientHello = (\<lambda>m _. (Some ErrInvalid, m))\<rparr>"

lemma plain_sniff_documented: "sniff_documented plain_sniff_library"
  by (simp add: sniff_documented_def plain_sniff_library_def)

definition ex_rdp :: "bytes list" where "ex_rdp = [[3, 0, 0], [19, 14, 0xE0, 0, 0, 0], [0, 0, 1, 0, 8]]"

theorem peek_stream_chunking_witness:
  "\<exists>err m'. PeekStream plain_sniff_library InboundContextZero (map (\<lambda>b. ReadOnce b None) ex_rdp) [] [RDP] =
       (err, concat ex_rdp, m', []) \<and> err = None \<and> m_Protocol m' = ''rdp''"
proof -
  let ?peek = "PeekStream plain_sniff_library InboundContextZero (map (\<lambda>b. ReadOnce b None) ex_rdp) [] [RDP]"
  have run: "fst (run_stream_sniffer plain_sniff_library RDP InboundContextZero [concat ex_rdp]) = None"
    "m_Protocol (snd (run_stream_sniffer plain_sniff_library RDP InboundContextZero [concat ex_rdp])) = ''rdp''"
    by code_simp+
  obtain err b m' c where p: "?peek = (err, b, m', c)" by (metis prod_cases4)
  have "snd (snd (snd ?peek)) = []" by code_simp
  then have "c = []" by (simp only: p snd_conv)
  then show ?thesis
    using peek_stream_chunking [OF plain_sniff_documented _ _ p] p run by (auto simp: lasting_sniffers_def ex_rdp_def)
qed

subsection \<open>Packets\<close>

lemma tracker_bytes:
  assumes "fst (sniff_UDPTracker m packet) = None"
  shows "packet ! 0 = 0 \<and> uint32_at 4 packet = 0x27101980"
proof -
  have len: "16 \<le> length packet" and w: "(bytes_word (take 8 packet) :: 64 word) = 0x41727101980"
    using assms by (auto simp: sniff_UDPTracker_def split: if_splits)
  have "take 8 packet = word_bytes (length (take 8 packet)) (bytes_word (take 8 packet) :: 64 word)"
    by (rule word_bytes_of_bytes_word [symmetric]) simp
  also have "\<dots> = word_bytes 8 (0x41727101980 :: 64 word)" using len by (simp add: w)
  also have "\<dots> = [0, 0, 0x04, 0x17, 0x27, 0x10, 0x19, 0x80]" by code_simp
  finally have bytes: "take 8 packet = [0, 0, 0x04, 0x17, 0x27, 0x10, 0x19, 0x80]" .
  have "packet ! 0 = take 8 packet ! 0" by simp
  moreover have "take 4 (drop 4 packet) = drop 4 (take 8 packet)" by (simp add: drop_take)
  moreover have "(bytes_word [0x27, 0x10, 0x19, 0x80] :: 32 word) = 0x27101980" by code_simp
  ultimately show ?thesis by (simp add: bytes uint32_at_def)
qed

lemma dtls_length:
  assumes "fst (sniff_DTLSRecord m packet) = None"
  shows "64768 \<le> unat (bytes_word (take 2 (drop 2 packet)) :: 16 word)"
proof -
  have len: "13 \<le> length packet" and b: "packet ! 2 = 0xff \<or> packet ! 2 = 0xfd"
    using assms by (auto simp: sniff_DTLSRecord_def split: if_splits)
  have "take 2 (drop 2 packet) = [packet ! 2, packet ! 3]"
    using len by (simp add: numeral_2_eq_2 numeral_3_eq_3 Cons_nth_drop_Suc [symmetric] take_Suc_conv_app_nth)
  then have w: "(bytes_word (take 2 (drop 2 packet)) :: 16 word) = push_bit 8 (ucast (packet ! 2)) OR ucast (packet ! 3)"
    by (simp add: bytes_word_def)
  have "uint (push_bit 8 (ucast (packet ! 2)) :: 16 word) \<le> uint (bytes_word (take 2 (drop 2 packet)) :: 16 word)"
    by (simp add: w uint_or or_greater_eq)
  moreover have "64768 \<le> uint (push_bit 8 (ucast (packet ! 2)) :: 16 word)"
  proof -
    have "64768 \<le> uint (push_bit 8 (ucast (0xff :: 8 word)) :: 16 word)" by code_simp
    moreover have "64768 \<le> uint (push_bit 8 (ucast (0xfd :: 8 word)) :: 16 word)" by code_simp
    ultimately show ?thesis using b by (elim disjE) (simp_all only:)
  qed
  ultimately have "64768 \<le> uint (bytes_word (take 2 (drop 2 packet)) :: 16 word)" by (rule order_trans [rotated])
  moreover have "64768 \<le> uint v \<Longrightarrow> 64768 \<le> unat v" for v :: "16 word"
    using nat_mono [of 64768 "uint v"] by (simp only: nat_numeral unat_eq_nat_uint)
  ultimately show ?thesis by blast
qed

lemma ntp_bytes:
  assumes "fst (sniff_NTP m packet) = None"
  shows "packet ! 0 AND 0x07 = 3 \<and> uint32_at 4 packet \<le> 0x100000"
  using assms by (auto simp: sniff_NTP_def Let_def not_less split: if_splits)

lemma stun_bytes:
  assumes "fst (sniff_STUNMessage m packet) = None"
  shows "uint32_at 4 packet = 0x2112A442 \<and> 20 + unat (bytes_word (take 2 (drop 2 packet)) :: 16 word) \<le> length packet"
  using assms by (auto simp: sniff_STUNMessage_def split: if_splits)

lemma dtls_first:
  assumes "fst (sniff_DTLSRecord m packet) = None"
  shows "packet ! 0 \<in> {20, 21, 22, 23, 25}"
  using assms by (auto simp: sniff_DTLSRecord_def split: if_splits)

text \<open>
  C35. Of the sniffers for STUN, BitTorrent trackers, DTLS and NTP at most one accepts a packet of less than 64788 bytes, so
  their order in a rule does not matter.  A longer packet may be both a STUN message and a DTLS record.
\<close>

theorem packet_sniffers_exclusive:
  assumes "length packet < 64788"
    and "s \<in> {STUNMessage, UDPTracker, DTLSRecord, NTP}" "s' \<in> {STUNMessage, UDPTracker, DTLSRecord, NTP}" "s \<noteq> s'"
    and "fst (run_packet_sniffer L s m packet) = None"
  shows "fst (run_packet_sniffer L s' m' packet) \<noteq> None"
proof
  assume "fst (run_packet_sniffer L s' m' packet) = None"
  moreover have False if "fst (sniff_STUNMessage m packet) = None" "fst (sniff_UDPTracker m' packet) = None" for m m'
    using stun_bytes [OF that(1)] tracker_bytes [OF that(2)] assms(1) by auto
  moreover have False if "fst (sniff_STUNMessage m packet) = None" "fst (sniff_DTLSRecord m' packet) = None" for m m'
    using stun_bytes [OF that(1)] dtls_length [OF that(2)] assms(1) by auto
  moreover have False if "fst (sniff_STUNMessage m packet) = None" "fst (sniff_NTP m' packet) = None" for m m'
    using stun_bytes [OF that(1)] ntp_bytes [OF that(2)] assms(1) by auto
  moreover have False if "fst (sniff_UDPTracker m packet) = None" "fst (sniff_DTLSRecord m' packet) = None" for m m'
    using tracker_bytes [OF that(1)] dtls_first [OF that(2)] assms(1) by auto
  moreover have False if "fst (sniff_UDPTracker m packet) = None" "fst (sniff_NTP m' packet) = None" for m m'
    using tracker_bytes [OF that(1)] ntp_bytes [OF that(2)] assms(1) by auto
  moreover have False if "fst (sniff_DTLSRecord m packet) = None" "fst (sniff_NTP m' packet) = None" for m m'
    using dtls_first [OF that(1)] ntp_bytes [OF that(2)] assms(1) by auto
  ultimately show False using assms(2-5) by auto
qed

definition ex_ntp :: bytes where "ex_ntp = 0x23 # replicate 47 0"

theorem packet_sniffers_exclusive_witness:
  "fst (run_packet_sniffer plain_sniff_library NTP InboundContextZero ex_ntp) = None \<and>
   fst (run_packet_sniffer plain_sniff_library DTLSRecord InboundContextZero ex_ntp) \<noteq> None"
proof -
  have "length ex_ntp < 64788" "fst (run_packet_sniffer plain_sniff_library NTP InboundContextZero ex_ntp) = None"
    by (simp add: ex_ntp_def, code_simp)
  then show ?thesis
    using packet_sniffers_exclusive [of ex_ntp NTP DTLSRecord plain_sniff_library InboundContextZero InboundContextZero] by simp
qed

end
