(* ===== verification/Match_State.thy ===== *)
theory Match_State
  imports Go_Prelude
begin

text \<open>
  \<^verbatim>\<open>route/rule/match_state.go\<close>: a \<^verbatim>\<open>ruleMatchState\<close> is the set of address/port groups that have
  matched so far, as a 4-bit mask in a \<^verbatim>\<open>uint8\<close>; a \<^verbatim>\<open>ruleMatchStateSet\<close> is a set of such masks, as
  a \<^verbatim>\<open>uint16\<close> with one bit per mask.  The second half states what each operation does to the set
  of masks a word stands for (\<open>states_of\<close>), and the locale \<open>state_set\<close> is that interface: the
  operations of the engine with those laws.
\<close>

type_synonym ruleMatchState = "8 word"
type_synonym ruleMatchStateSet = "16 word"

definition ruleMatchSourceAddress :: ruleMatchState where "ruleMatchSourceAddress = push_bit 0 1"

definition ruleMatchSourcePort :: ruleMatchState where "ruleMatchSourcePort = push_bit 1 1"

definition ruleMatchDestinationAddress :: ruleMatchState where
  "ruleMatchDestinationAddress = push_bit 2 1"

definition ruleMatchDestinationPort :: ruleMatchState where
  "ruleMatchDestinationPort = push_bit 3 1"

text \<open>A Go shift by 16 or more of a \<^verbatim>\<open>uint16\<close> is 0, as \<open>push_bit\<close> of a 16-bit word is.\<close>

definition singleRuleMatchState :: "ruleMatchState \<Rightarrow> ruleMatchStateSet" where
  "singleRuleMatchState state = push_bit (unat state) 1"

definition emptyRuleMatchState :: ruleMatchStateSet where
  "emptyRuleMatchState = singleRuleMatchState 0"

definition isEmpty :: "ruleMatchStateSet \<Rightarrow> bool" where
  "isEmpty s \<longleftrightarrow> s = 0"

definition contains :: "ruleMatchStateSet \<Rightarrow> ruleMatchState \<Rightarrow> bool" where
  "contains s state \<longleftrightarrow> s AND push_bit (unat state) 1 \<noteq> 0"

definition add_state :: "ruleMatchStateSet \<Rightarrow> ruleMatchState \<Rightarrow> ruleMatchStateSet" where
  "add_state s state = s OR singleRuleMatchState state"

definition merge :: "ruleMatchStateSet \<Rightarrow> ruleMatchStateSet \<Rightarrow> ruleMatchStateSet" where
  "merge s other = s OR other"

text \<open>\<^verbatim>\<open>for state := range ruleMatchState(16)\<close>.\<close>

definition range16 :: "ruleMatchState list" where
  "range16 = map word_of_nat [0..<16]"

definition combine :: "ruleMatchStateSet \<Rightarrow> ruleMatchStateSet \<Rightarrow> ruleMatchStateSet" where
  "combine s other =
     (if isEmpty s \<or> isEmpty other then 0
      else fold (\<lambda>left combined.
             if \<not> contains s left then combined
             else fold (\<lambda>right combined.
                    if \<not> contains other right then combined
                    else add_state combined (left OR right)) range16 combined)
           range16 0)"

definition withBase :: "ruleMatchStateSet \<Rightarrow> ruleMatchState \<Rightarrow> ruleMatchStateSet" where
  "withBase s base =
     (if isEmpty s then 0
      else fold (\<lambda>state acc. if \<not> contains s state then acc else add_state acc (state OR base))
           range16 0)"

definition filter_states ::
  "ruleMatchStateSet \<Rightarrow> (ruleMatchState \<Rightarrow> bool) \<Rightarrow> ruleMatchStateSet" where
  "filter_states s allowed =
     fold (\<lambda>state filtered.
             if \<not> contains s state then filtered
             else if allowed state then add_state filtered state else filtered)
          range16 0"

definition has :: "ruleMatchState \<Rightarrow> ruleMatchState \<Rightarrow> bool" where
  "has s target \<longleftrightarrow> s AND target \<noteq> 0"

definition states_of :: "ruleMatchStateSet \<Rightarrow> ruleMatchState set" where
  "states_of s = {x. contains s x}"

subsection \<open>Bits\<close>

lemma less16_nat: "(x :: ruleMatchState) < 16 \<longleftrightarrow> take_bit 4 (unat x) = unat x"
  by (simp add: take_bit_nat_eq_self_iff word_less_nat_alt)

lemma or_less16 [intro]: "(x :: ruleMatchState) < 16 \<Longrightarrow> y < 16 \<Longrightarrow> x OR y < 16"
  by (simp add: less16_nat unsigned_or_eq)

lemma bit_single: "bit (singleRuleMatchState x) n \<longleftrightarrow> n = unat x \<and> n < 16"
  by (auto simp: singleRuleMatchState_def bit_simps)

lemma contains_bit: "contains s x \<longleftrightarrow> bit s (unat x)"
proof -
  have "unat x < 16" if "bit s (unat x)"
    using bit_imp_le_length [OF that] by simp
  then show ?thesis
    unfolding contains_def singleRuleMatchState_def [symmetric]
    by (auto simp: bit_eq_iff [of "s AND _"] bit_and_iff bit_single)
qed

lemma contains_less16: "contains s x \<Longrightarrow> x < 16"
  using bit_imp_le_length [of s "unat x"] by (simp add: contains_bit word_less_nat_alt)

lemma contains_add_state: "contains (add_state s x) y \<longleftrightarrow> contains s y \<or> x = y \<and> x < 16"
  by (auto simp: add_state_def contains_bit bit_or_iff bit_single word_less_nat_alt
      word_unat_eq_iff)

lemma set_range16 [simp]: "set range16 = {x. x < 16}"
proof -
  have "x \<in> word_of_nat ` {0..<16}" if "x < 16" for x :: ruleMatchState
    using that by (intro image_eqI [of _ _ "unat x"]) (auto simp: word_less_nat_alt)
  then show ?thesis
    by (auto simp: range16_def word_less_nat_alt unsigned_of_nat take_bit_nat_eq_self)
qed

lemma contains_fold_add:
  assumes "\<And>x. x \<in> set xs \<Longrightarrow> P x \<Longrightarrow> f x < 16"
  shows "contains (fold (\<lambda>x acc. if \<not> P x then acc else add_state acc (f x)) xs acc) y
         \<longleftrightarrow> contains acc y \<or> (\<exists>x \<in> set xs. P x \<and> f x = y)"
  using assms
proof (induction xs arbitrary: acc)
  case (Cons x xs)
  then show ?case by (auto simp: contains_add_state)
qed simp

subsection \<open>What the operations do to the set of masks\<close>

lemma states_of_less16: "x \<in> states_of s \<Longrightarrow> x < 16"
  by (simp add: states_of_def contains_less16)

lemma states_of_inject: "states_of s = states_of t \<longleftrightarrow> s = t"
proof
  assume eq: "states_of s = states_of t"
  show "s = t"
  proof (rule bit_word_eqI)
    fix n assume "n < LENGTH(16)"
    then have "unat (word_of_nat n :: ruleMatchState) = n"
      by (simp add: unsigned_of_nat take_bit_nat_eq_self)
    moreover have "contains s (word_of_nat n) = contains t (word_of_nat n)"
      using eq by (auto simp: states_of_def)
    ultimately show "bit s n = bit t n" by (simp add: contains_bit)
  qed
qed simp

lemma states_of_0 [simp]: "states_of 0 = {}"
  by (simp add: states_of_def contains_bit)

lemma states_of_empty_iff [simp]: "states_of s = {} \<longleftrightarrow> s = 0"
  using states_of_inject [of s 0] by simp

lemma isEmpty_iff: "isEmpty s \<longleftrightarrow> states_of s = {}"
  by (simp add: isEmpty_def)

lemma states_of_single [simp]: "x < 16 \<Longrightarrow> states_of (singleRuleMatchState x) = {x}"
  by (auto simp: states_of_def contains_bit bit_single word_less_nat_alt word_unat_eq_iff)

lemma states_of_emptyRuleMatchState [simp]: "states_of emptyRuleMatchState = {0}"
  by (simp add: emptyRuleMatchState_def)

lemma states_of_merge [simp]: "states_of (merge s t) = states_of s \<union> states_of t"
  by (auto simp: merge_def states_of_def contains_bit bit_or_iff)

lemma states_of_withBase [simp]:
  "base < 16 \<Longrightarrow> states_of (withBase s base) = (\<lambda>x. x OR base) ` states_of s"
  unfolding withBase_def states_of_def isEmpty_def
  by (auto simp: contains_fold_add contains_less16 or_less16 contains_bit [of 0])
    (blast dest: contains_less16)

lemma states_of_filter [simp]: "states_of (filter_states s P) = {x \<in> states_of s. P x}"
proof -
  have "filter_states s P =
      fold (\<lambda>x acc. if \<not> (contains s x \<and> P x) then acc else add_state acc x) range16 0"
    unfolding filter_states_def by (rule arg_cong [where f = "\<lambda>g. fold g range16 0"]) (auto simp: fun_eq_iff)
  then have "contains (filter_states s P) y \<longleftrightarrow> contains s y \<and> P y" for y
    by (simp only:, subst contains_fold_add) (auto simp: contains_bit [of 0] dest: contains_less16)
  then show ?thesis by (simp add: states_of_def)
qed

lemma contains_fold_combine:
  assumes "\<And>x. x \<in> set xs \<Longrightarrow> x < 16"
  shows "contains (fold (\<lambda>left combined. if \<not> contains s left then combined
           else fold (\<lambda>right combined. if \<not> contains t right then combined
                  else add_state combined (left OR right)) range16 combined) xs acc) y
         \<longleftrightarrow> contains acc y \<or>
             (\<exists>l \<in> set xs. contains s l \<and> (\<exists>r. contains t r \<and> l OR r = y))"
  using assms
proof (induction xs arbitrary: acc)
  case (Cons x xs)
  have inner: "contains (fold (\<lambda>right combined. if \<not> contains t right then combined
                  else add_state combined (x OR right)) range16 acc) y
      \<longleftrightarrow> contains acc y \<or> (\<exists>r. contains t r \<and> x OR r = y)" for acc y
    using Cons.prems by (subst contains_fold_add) (auto simp: or_less16 contains_less16)
  from Cons.prems have "\<And>z. z \<in> set xs \<Longrightarrow> z < 16" by simp
  then show ?case by (auto simp: Cons.IH inner)
qed simp

lemma states_of_combine [simp]:
  "states_of (combine s t) = {l OR r |l r. l \<in> states_of s \<and> r \<in> states_of t}"
proof (cases "s = 0 \<or> t = 0")
  case True
  then show ?thesis by (auto simp: combine_def isEmpty_def)
next
  case False
  then show ?thesis
    using contains_fold_combine [of range16 s t 0]
    by (simp add: combine_def isEmpty_def states_of_def contains_bit [of 0])
      (blast dest: contains_less16)
qed

lemma has_or: "has (x OR y) t \<longleftrightarrow> has x t \<or> has y t"
  by (auto simp: has_def bit.conj_disj_distrib2 or_eq_0_iff)

lemma has_bits [simp]:
  "has 0 t = False"
  "has ruleMatchSourceAddress ruleMatchSourceAddress"
  "has ruleMatchSourcePort ruleMatchSourcePort"
  "has ruleMatchDestinationAddress ruleMatchDestinationAddress"
  "has ruleMatchDestinationPort ruleMatchDestinationPort"
  "\<not> has ruleMatchSourceAddress ruleMatchSourcePort"
  "\<not> has ruleMatchSourceAddress ruleMatchDestinationAddress"
  "\<not> has ruleMatchSourceAddress ruleMatchDestinationPort"
  "\<not> has ruleMatchSourcePort ruleMatchSourceAddress"
  "\<not> has ruleMatchSourcePort ruleMatchDestinationAddress"
  "\<not> has ruleMatchSourcePort ruleMatchDestinationPort"
  "\<not> has ruleMatchDestinationAddress ruleMatchSourceAddress"
  "\<not> has ruleMatchDestinationAddress ruleMatchSourcePort"
  "\<not> has ruleMatchDestinationAddress ruleMatchDestinationPort"
  "\<not> has ruleMatchDestinationPort ruleMatchSourceAddress"
  "\<not> has ruleMatchDestinationPort ruleMatchSourcePort"
  "\<not> has ruleMatchDestinationPort ruleMatchDestinationAddress"
  by (simp_all add: has_def ruleMatchSourceAddress_def ruleMatchSourcePort_def
      ruleMatchDestinationAddress_def ruleMatchDestinationPort_def)

lemma bits_less16 [simp]:
  "ruleMatchSourceAddress < 16" "ruleMatchSourcePort < 16"
  "ruleMatchDestinationAddress < 16" "ruleMatchDestinationPort < 16"
  by (simp_all add: ruleMatchSourceAddress_def ruleMatchSourcePort_def
      ruleMatchDestinationAddress_def ruleMatchDestinationPort_def)

subsection \<open>The interface of the engine\<close>

text \<open>
  The engine uses state sets only through these operations.  A state set stands for a set of masks
  (\<open>states\<close>), masks are joined by \<open>join\<close>, and \<open>ok\<close> says which masks may occur.
\<close>

locale state_set =
  fixes states :: "'s \<Rightarrow> 'm set"
    and join :: "'m \<Rightarrow> 'm \<Rightarrow> 'm"
    and ok :: "'m \<Rightarrow> bool"
    and none :: 's
    and mrg :: "'s \<Rightarrow> 's \<Rightarrow> 's"
    and cmb :: "'s \<Rightarrow> 's \<Rightarrow> 's"
    and based :: "'s \<Rightarrow> 'm \<Rightarrow> 's"
    and flt :: "'s \<Rightarrow> ('m \<Rightarrow> bool) \<Rightarrow> 's"
  assumes states_inj: "states s = states t \<longleftrightarrow> s = t"
    and states_ok: "x \<in> states s \<Longrightarrow> ok x"
    and states_none: "states none = {}"
    and states_mrg: "states (mrg s t) = states s \<union> states t"
    and states_cmb: "states (cmb s t) = {join l r |l r. l \<in> states s \<and> r \<in> states t}"
    and states_based: "ok b \<Longrightarrow> states (based s b) = (\<lambda>x. join x b) ` states s"
    and states_flt: "states (flt s P) = {x \<in> states s. P x}"
    and join_assoc: "join (join x y) z = join x (join y z)"
    and join_comm: "join x y = join y x"
    and join_ok: "ok x \<Longrightarrow> ok y \<Longrightarrow> ok (join x y)"
begin

lemma eq_none_iff: "s = none \<longleftrightarrow> states s = {}"
  using states_inj [of s none] by (simp add: states_none)

lemma mrg_none_iff: "mrg s t = none \<longleftrightarrow> s = none \<and> t = none"
  by (simp add: eq_none_iff states_mrg)

lemma cmb_none_iff: "cmb s t = none \<longleftrightarrow> s = none \<or> t = none"
  by (auto simp: eq_none_iff states_cmb)

lemma based_none_iff: "ok b \<Longrightarrow> based s b = none \<longleftrightarrow> s = none"
  by (simp add: eq_none_iff states_based)

lemma mrg_ac: "mrg s t = mrg t s" "mrg (mrg s t) u = mrg s (mrg t u)" "mrg s s = s"
  by (auto simp: states_inj [symmetric] states_mrg)

lemma cmb_comm: "cmb s t = cmb t s"
  unfolding states_inj [symmetric] states_cmb using join_comm by blast

lemma cmb_assoc: "cmb (cmb s t) u = cmb s (cmb t u)"
proof -
  have "(\<exists>a b c. x = join (join a b) c \<and> a \<in> states s \<and> b \<in> states t \<and> c \<in> states u) \<longleftrightarrow>
        (\<exists>a b c. x = join a (join b c) \<and> a \<in> states s \<and> b \<in> states t \<and> c \<in> states u)" for x
    by (simp add: join_assoc)
  then show ?thesis
    unfolding states_inj [symmetric] states_cmb by (auto; metis)
qed

lemma cmb_mrg: "cmb s (mrg t u) = mrg (cmb s t) (cmb s u)"
  unfolding states_inj [symmetric] by (auto simp: states_cmb states_mrg)

lemma based_mrg: "ok b \<Longrightarrow> based (mrg s t) b = mrg (based s b) (based t b)"
  unfolding states_inj [symmetric] by (simp add: states_based states_mrg image_Un)

lemma based_based: "ok a \<Longrightarrow> ok b \<Longrightarrow> based (based s a) b = based s (join a b)"
  unfolding states_inj [symmetric]
  by (simp add: states_based join_ok image_image join_assoc)

lemma flt_mrg: "flt (mrg s t) P = mrg (flt s P) (flt t P)"
  unfolding states_inj [symmetric] by (auto simp: states_flt states_mrg)

lemma foldl_mrg_states: "states (foldl mrg s ss) = states s \<union> (\<Union>t \<in> set ss. states t)"
  by (induction ss arbitrary: s) (auto simp: states_mrg)

lemma foldl_cmb_none_iff: "foldl cmb s ss = none \<longleftrightarrow> s = none \<or> none \<in> set ss"
  by (induction ss arbitrary: s) (auto simp: cmb_none_iff)

end

interpretation ms: state_set states_of "(OR)" "\<lambda>x. x < 16" 0 merge combine withBase filter_states
  by unfold_locales
    (auto simp: states_of_inject states_of_less16 or_less16 ac_simps)

lemmas state_set_simps = ms.mrg_none_iff ms.cmb_none_iff ms.based_none_iff

text \<open>
  C28. The 16-bit words with the bit operations of the source implement sets of 4-bit masks: union,
  element-wise union of masks, adding a base mask to every element, and restriction; a word is 0
  exactly when the set is empty, and every word stands for a different set.
\<close>

theorem state_set_refinement:
  "base < 16 \<Longrightarrow>
     states_of (merge s t) = states_of s \<union> states_of t \<and>
     states_of (combine s t) = {l OR r |l r. l \<in> states_of s \<and> r \<in> states_of t} \<and>
     states_of (withBase s base) = (\<lambda>x. x OR base) ` states_of s \<and>
     states_of (filter_states s P) = {x \<in> states_of s. P x} \<and>
     isEmpty s = (states_of s = {}) \<and>
     (states_of s = states_of t) = (s = t)"
  by (simp add: isEmpty_iff states_of_inject)

theorem state_set_refinement_witness:
  "(2 :: ruleMatchState) < 16 \<and>
   states_of (withBase emptyRuleMatchState 2) = {2} \<and>
   states_of (merge emptyRuleMatchState (singleRuleMatchState 4)) = {0, 4}"
  using state_set_refinement [of 2 emptyRuleMatchState "singleRuleMatchState 4"] by auto

end
