(* ===== verification/Rule_Items.thy ===== *)
theory Rule_Items
  imports Metadata
begin

text \<open>
  The conditions a rule is made of: \<^verbatim>\<open>route/rule/rule_item_*.go\<close> and the three interface-address
  items.  A Go item type is a constructor of \<open>rule_item\<close> with the struct's fields, its constructor
  function is \<open>New...\<close> and its \<^verbatim>\<open>Match\<close> method is \<open>..._Match\<close>; \<open>item_Match\<close> is the dynamic dispatch of
  the interface \<^verbatim>\<open>RuleItem\<close>.  The description strings the items keep for the log are left out, and
  so are the handles on the managers: what a manager answers is a field of \<open>env\<close>.
\<close>

datatype record_section = SectionAnswer | SectionNs | SectionExtra

datatype rule_item =
    InboundItem "string list" "string \<Rightarrow> bool"
  | IPVersionItem bool
  | NetworkItem "string list" "string \<Rightarrow> bool"
  | AuthUserItem "string list" "string \<Rightarrow> bool"
  | ProtocolItem "string list" "string \<Rightarrow> bool"
  | ClientItem "string list" "string \<Rightarrow> bool"
  | DomainItem domain_matcher
  | DomainKeywordItem "string list"
  | DomainRegexItem "string list"
  | IPCIDRItem ipset bool
  | IPIsPrivateItem bool
  | IPAcceptAnyItem
  | PortItem "16 word list" "16 word \<Rightarrow> bool" bool
  | PortRangeItem bool "string list" "(16 word \<times> 16 word) list"
  | ProcessItem "string list" "string \<Rightarrow> bool"
  | ProcessPathItem "string list" "string \<Rightarrow> bool"
  | ProcessPathRegexItem "string list"
  | PackageNameItem "string list" "string \<Rightarrow> bool"
  | PackageNameRegexItem "string list"
  | UserItem "string list" "string \<Rightarrow> bool"
  | UserIdItem "int list" "int \<Rightarrow> bool"
  | OutboundItem "string list" "string \<Rightarrow> bool" bool
  | ClashModeItem bool string
  | NetworkTypeItem "interface_type list"
  | NetworkIsExpensiveItem
  | NetworkIsConstrainedItem
  | WIFISSIDItem "string list" "string \<Rightarrow> bool"
  | WIFIBSSIDItem "string list" "string \<Rightarrow> bool"
  | InterfaceAddressItem "(string \<times> prefix list) list"
  | NetworkInterfaceAddressItem "(interface_type \<times> prefix list) list"
  | DefaultInterfaceAddressItem "prefix list"
  | SourceMACAddressItem "string list" "string \<Rightarrow> bool"
  | SourceHostnameItem "string list" "string \<Rightarrow> bool"
  | PreferredByItem "string list" "string list"
  | PreferredByDNSItem "string list" "string list"
  | QueryTypeItem "16 word list" "16 word \<Rightarrow> bool"
  | DNSResponseRCodeItem int
  | DNSResponseRecordItem string "rr option list" record_section
  | AdGuardDomainItem adguard_matcher

subsection \<open>Items over one metadata field\<close>

definition NewInboundRule :: "string list \<Rightarrow> rule_item" where
  "NewInboundRule inbounds = InboundItem inbounds (bool_map inbounds)"

definition InboundItem_Match :: "(string \<Rightarrow> bool) \<Rightarrow> inbound_context \<Rightarrow> bool" where
  "InboundItem_Match inboundMap m = inboundMap (m_Inbound m)"

definition NewIPVersionItem :: "bool \<Rightarrow> rule_item" where
  "NewIPVersionItem isIPv6 = IPVersionItem isIPv6"

definition IPVersionItem_Match :: "env \<Rightarrow> bool \<Rightarrow> inbound_context \<Rightarrow> bool" where
  "IPVersionItem_Match E isIPv6 m \<longleftrightarrow>
     m_IPVersion m \<noteq> 0 \<and> (m_IPVersion m = 6) = isIPv6 \<or>
     sa_IsIP E (m_Destination m) \<and> sa_IsIPv6 E (m_Destination m) = isIPv6"

definition NewNetworkItem :: "string list \<Rightarrow> rule_item" where
  "NewNetworkItem networks = NetworkItem networks (bool_map networks)"

definition NetworkItem_Match :: "(string \<Rightarrow> bool) \<Rightarrow> inbound_context \<Rightarrow> bool" where
  "NetworkItem_Match networkMap m = networkMap (m_Network m)"

definition NewAuthUserItem :: "string list \<Rightarrow> rule_item" where
  "NewAuthUserItem users = AuthUserItem users (bool_map users)"

definition AuthUserItem_Match :: "(string \<Rightarrow> bool) \<Rightarrow> inbound_context \<Rightarrow> bool" where
  "AuthUserItem_Match userMap m = userMap (m_User m)"

definition NewProtocolItem :: "string list \<Rightarrow> rule_item" where
  "NewProtocolItem protocols = ProtocolItem protocols (bool_map protocols)"

definition ProtocolItem_Match :: "(string \<Rightarrow> bool) \<Rightarrow> inbound_context \<Rightarrow> bool" where
  "ProtocolItem_Match protocolMap m = protocolMap (m_Protocol m)"

definition NewClientItem :: "string list \<Rightarrow> rule_item" where
  "NewClientItem clients = ClientItem clients (bool_map clients)"

definition ClientItem_Match :: "(string \<Rightarrow> bool) \<Rightarrow> inbound_context \<Rightarrow> bool" where
  "ClientItem_Match clientMap m = clientMap (m_Client m)"

definition NewQueryTypeItem :: "16 word list \<Rightarrow> rule_item" where
  "NewQueryTypeItem typeList = QueryTypeItem typeList (bool_map typeList)"

definition QueryTypeItem_Match :: "(16 word \<Rightarrow> bool) \<Rightarrow> inbound_context \<Rightarrow> bool" where
  "QueryTypeItem_Match typeMap m = (if m_QueryType m = 0 then False else typeMap (m_QueryType m))"

text \<open>The tag \<^verbatim>\<open>any\<close> sets \<^verbatim>\<open>matchAny\<close> and is not stored in the map.\<close>

definition NewOutboundRule :: "string list \<Rightarrow> rule_item" where
  "NewOutboundRule outbounds =
     OutboundItem outbounds (bool_map (filter (\<lambda>o'. o' \<noteq> ''any'') outbounds))
       (list_ex (\<lambda>o'. o' = ''any'') outbounds)"

definition OutboundItem_Match :: "(string \<Rightarrow> bool) \<Rightarrow> bool \<Rightarrow> inbound_context \<Rightarrow> bool" where
  "OutboundItem_Match outboundMap matchAny m =
     (if matchAny then m_Outbound m \<noteq> [] else outboundMap (m_Outbound m))"

definition NewSourceHostnameItem :: "string list \<Rightarrow> rule_item" where
  "NewSourceHostnameItem hostnameList = SourceHostnameItem hostnameList (bool_map hostnameList)"

definition SourceHostnameItem_Match :: "(string \<Rightarrow> bool) \<Rightarrow> inbound_context \<Rightarrow> bool" where
  "SourceHostnameItem_Match hostnameMap m =
     (if m_SourceHostname m = [] then False else hostnameMap (m_SourceHostname m))"

text \<open>A MAC address that parses is stored in its canonical form, any other text as it is.\<close>

definition NewSourceMACAddressItem :: "env \<Rightarrow> string list \<Rightarrow> rule_item" where
  "NewSourceMACAddressItem E addressList =
     SourceMACAddressItem addressList
       (bool_map (map (\<lambda>address. case net_ParseMAC E address of
                                   Inr parsed \<Rightarrow> HardwareAddr_String E parsed
                                 | Inl _ \<Rightarrow> address) addressList))"

definition SourceMACAddressItem_Match ::
  "env \<Rightarrow> (string \<Rightarrow> bool) \<Rightarrow> inbound_context \<Rightarrow> bool" where
  "SourceMACAddressItem_Match E addressMap m =
     (case m_SourceMACAddress m of
        None \<Rightarrow> False
      | Some mac \<Rightarrow> addressMap (HardwareAddr_String E mac))"

subsection \<open>Domain items\<close>

text \<open>The first lines of the \<^verbatim>\<open>Match\<close> of every domain item.\<close>

definition domainHost :: "inbound_context \<Rightarrow> string" where
  "domainHost m = (if m_Domain m \<noteq> [] then m_Domain m else s_Fqdn (m_Destination m))"

definition NewDomainItem :: "string list \<Rightarrow> string list \<Rightarrow> rule_item res" where
  "NewDomainItem domains domainSuffixes =
     (if [] \<in> set domains then Inl (New ''domain: empty item is not allowed'')
      else if [] \<in> set domainSuffixes then Inl (New ''domain_suffix: empty item is not allowed'')
      else Inr (DomainItem (NewMatcher domains domainSuffixes)))"

definition NewRawDomainItem :: "domain_matcher \<Rightarrow> rule_item" where
  "NewRawDomainItem matcher = DomainItem matcher"

definition DomainItem_Match :: "env \<Rightarrow> domain_matcher \<Rightarrow> inbound_context \<Rightarrow> bool" where
  "DomainItem_Match E matcher m =
     (let host = domainHost m
      in if host = [] then False else Matcher_Match E matcher (ToLower (unicode_ToLower E) host))"

definition NewDomainKeywordItem :: "string list \<Rightarrow> rule_item" where
  "NewDomainKeywordItem keywords = DomainKeywordItem keywords"

definition DomainKeywordItem_Match :: "env \<Rightarrow> string list \<Rightarrow> inbound_context \<Rightarrow> bool" where
  "DomainKeywordItem_Match E keywords m =
     (let host = domainHost m
      in if host = [] then False
         else list_ex (str_contains (ToLower (unicode_ToLower E) host)) keywords)"

text \<open>\<^verbatim>\<open>regexp.Compile\<close> of each expression, the first failure returned with its index.\<close>

fun compile_all :: "env \<Rightarrow> nat \<Rightarrow> string list \<Rightarrow> string list res" where
  "compile_all E i [] = Inr []"
| "compile_all E i (r # rs) =
     (case regexp_Compile E r of
        Some err \<Rightarrow> Inl (Cause err (''parse expression '' @ itoa i))
      | None \<Rightarrow> (case compile_all E (Suc i) rs of Inl e \<Rightarrow> Inl e | Inr ms \<Rightarrow> Inr (r # ms)))"

definition NewDomainRegexItem :: "env \<Rightarrow> string list \<Rightarrow> rule_item res" where
  "NewDomainRegexItem E expressions =
     (case compile_all E 0 expressions of Inl e \<Rightarrow> Inl e | Inr ms \<Rightarrow> Inr (DomainRegexItem ms))"

definition DomainRegexItem_Match :: "env \<Rightarrow> string list \<Rightarrow> inbound_context \<Rightarrow> bool" where
  "DomainRegexItem_Match E matchers m =
     (let host = domainHost m
      in if host = [] then False
         else list_ex (\<lambda>r. regexp_MatchString E r (ToLower (unicode_ToLower E) host)) matchers)"

definition NewAdGuardDomainItem :: "string list \<Rightarrow> rule_item" where
  "NewAdGuardDomainItem ruleLines = AdGuardDomainItem (NewAdGuardMatcher ruleLines)"

definition NewRawAdGuardDomainItem :: "adguard_matcher \<Rightarrow> rule_item" where
  "NewRawAdGuardDomainItem matcher = AdGuardDomainItem matcher"

definition AdGuardDomainItem_Match :: "env \<Rightarrow> adguard_matcher \<Rightarrow> inbound_context \<Rightarrow> bool" where
  "AdGuardDomainItem_Match E matcher m =
     (let host = domainHost m
      in if host = [] then False
         else AdGuardMatcher_Match E matcher (ToLower (unicode_ToLower E) host))"

subsection \<open>Address items\<close>

fun ipcidr_elems :: "env \<Rightarrow> nat \<Rightarrow> string list \<Rightarrow> ip_elem list res" where
  "ipcidr_elems E i [] = Inr []"
| "ipcidr_elems E i (s # ss) =
     (case netip_ParsePrefix E s of
        Inr p \<Rightarrow> (case ipcidr_elems E (Suc i) ss of
                    Inl e \<Rightarrow> Inl e | Inr es \<Rightarrow> Inr (IPPrefix p # es))
      | Inl err \<Rightarrow>
          (case netip_ParseAddr E s of
             Inr a \<Rightarrow> (case ipcidr_elems E (Suc i) ss of
                         Inl e \<Rightarrow> Inl e | Inr es \<Rightarrow> Inr (IPAddr a # es))
           | Inl _ \<Rightarrow> Inl (Cause err (''parse ['' @ itoa i @ '']''))))"

definition NewIPCIDRItem :: "env \<Rightarrow> bool \<Rightarrow> string list \<Rightarrow> rule_item res" where
  "NewIPCIDRItem E isSource prefixStrings =
     (case ipcidr_elems E 0 prefixStrings of
        Inl e \<Rightarrow> Inl e
      | Inr elems \<Rightarrow> (case IPSetBuilder_IPSet E elems of
                        Some err \<Rightarrow> Inl err
                      | None \<Rightarrow> Inr (IPCIDRItem (IPSetOf elems) isSource)))"

definition NewRawIPCIDRItem :: "bool \<Rightarrow> ipset \<Rightarrow> rule_item" where
  "NewRawIPCIDRItem isSource ipSet = IPCIDRItem ipSet isSource"

definition IPCIDRItem_Match :: "env \<Rightarrow> ipset \<Rightarrow> bool \<Rightarrow> inbound_context \<Rightarrow> bool" where
  "IPCIDRItem_Match E ipSet isSource m =
     (if isSource \<or> m_IPCIDRMatchSource m then IPSet_Contains E ipSet (s_Addr (m_Source m))
      else if m_DestinationAddressMatchFromResponse m then
        (let addresses = DNSResponseAddressesForMatch E m
         in if addresses = [] then m_IPCIDRAcceptEmpty m
            else list_ex (IPSet_Contains E ipSet) addresses)
      else if sa_IsIP E (m_Destination m) then
        IPSet_Contains E ipSet (s_Addr (m_Destination m))
      else if m_DestinationAddresses m \<noteq> [] then
        list_ex (IPSet_Contains E ipSet) (m_DestinationAddresses m)
      else m_IPCIDRAcceptEmpty m)"

definition NewIPIsPrivateItem :: "bool \<Rightarrow> rule_item" where
  "NewIPIsPrivateItem isSource = IPIsPrivateItem isSource"

definition IPIsPrivateItem_Match :: "env \<Rightarrow> bool \<Rightarrow> inbound_context \<Rightarrow> bool" where
  "IPIsPrivateItem_Match E isSource m =
     (if isSource then \<not> IsPublicAddr E (s_Addr (m_Source m))
      else if m_DestinationAddressMatchFromResponse m then
        list_ex (\<lambda>a. \<not> IsPublicAddr E a) (DNSResponseAddressesForMatch E m)
      else if addr_IsValid (s_Addr (m_Destination m)) then
        \<not> IsPublicAddr E (s_Addr (m_Destination m))
      else list_ex (\<lambda>a. \<not> IsPublicAddr E a) (m_DestinationAddresses m))"

definition NewIPAcceptAnyItem :: rule_item where
  "NewIPAcceptAnyItem = IPAcceptAnyItem"

definition IPAcceptAnyItem_Match :: "env \<Rightarrow> inbound_context \<Rightarrow> bool" where
  "IPAcceptAnyItem_Match E m =
     (if m_DestinationAddressMatchFromResponse m then DNSResponseAddressesForMatch E m \<noteq> []
      else m_DestinationAddresses m \<noteq> [])"

subsection \<open>Port items\<close>

definition NewPortItem :: "bool \<Rightarrow> 16 word list \<Rightarrow> rule_item" where
  "NewPortItem isSource ports = PortItem ports (bool_map ports) isSource"

definition PortItem_Match :: "(16 word \<Rightarrow> bool) \<Rightarrow> bool \<Rightarrow> inbound_context \<Rightarrow> bool" where
  "PortItem_Match portMap isSource m =
     (if isSource then portMap (s_Port (m_Source m)) else portMap (s_Port (m_Destination m)))"

text \<open>One element of \<^verbatim>\<open>rangeList\<close>: \<^verbatim>\<open>a:b\<close>, \<^verbatim>\<open>a:\<close>, \<^verbatim>\<open>:b\<close> or \<^verbatim>\<open>:\<close>.\<close>

definition ErrBadPortRange :: error where "ErrBadPortRange = New ''bad port range''"

definition parse_port_range :: "string \<Rightarrow> (16 word \<times> 16 word) res" where
  "parse_port_range portRange =
     (case str_index portRange (CHR '':'') of
        None \<Rightarrow> Inl (Extend ErrBadPortRange portRange)
      | Some subIndex \<Rightarrow>
          (case (if subIndex > 0 then ParseUint 65535 (take subIndex portRange) else Inr 0) of
             Inl err \<Rightarrow> Inl (Cause err (''bad port range: '' @ portRange))
           | Inr start \<Rightarrow>
               (case (if subIndex = length portRange - 1 then Inr 65535
                      else ParseUint 65535 (drop (subIndex + 1) portRange)) of
                  Inl err \<Rightarrow> Inl (Cause err (''bad port range: '' @ portRange))
                | Inr end' \<Rightarrow> Inr (word_of_nat start, word_of_nat end'))))"

definition NewPortRangeItem :: "bool \<Rightarrow> string list \<Rightarrow> rule_item res" where
  "NewPortRangeItem isSource rangeList =
     (case map_res parse_port_range rangeList of
        Inl e \<Rightarrow> Inl e
      | Inr portRangeList \<Rightarrow> Inr (PortRangeItem isSource rangeList portRangeList))"

definition PortRangeItem_Match ::
  "bool \<Rightarrow> (16 word \<times> 16 word) list \<Rightarrow> inbound_context \<Rightarrow> bool" where
  "PortRangeItem_Match isSource portRangeList m =
     (let port = (if isSource then s_Port (m_Source m) else s_Port (m_Destination m))
      in list_ex (\<lambda>(start, end'). port \<ge> start \<and> port \<le> end') portRangeList)"

subsection \<open>Process items\<close>

definition NewProcessItem :: "string list \<Rightarrow> rule_item" where
  "NewProcessItem processNameList = ProcessItem processNameList (bool_map processNameList)"

definition ProcessItem_Match :: "env \<Rightarrow> (string \<Rightarrow> bool) \<Rightarrow> inbound_context \<Rightarrow> bool" where
  "ProcessItem_Match E processMap m =
     (case m_ProcessInfo m of
        None \<Rightarrow> False
      | Some info \<Rightarrow> if c_ProcessPath info = [] then False
                     else processMap (filepath_Base E (c_ProcessPath info)))"

definition NewProcessPathItem :: "string list \<Rightarrow> rule_item" where
  "NewProcessPathItem processNameList = ProcessPathItem processNameList (bool_map processNameList)"

definition ProcessPathItem_Match :: "env \<Rightarrow> (string \<Rightarrow> bool) \<Rightarrow> inbound_context \<Rightarrow> bool" where
  "ProcessPathItem_Match E processMap m =
     (case m_ProcessInfo m of
        None \<Rightarrow> False
      | Some info \<Rightarrow>
          if c_ProcessPath info \<noteq> [] \<and> processMap (c_ProcessPath info) then True
          else if is_android E then list_ex processMap (c_AndroidPackageNames info)
          else False)"

definition NewProcessPathRegexItem :: "env \<Rightarrow> string list \<Rightarrow> rule_item res" where
  "NewProcessPathRegexItem E expressions =
     (case compile_all E 0 expressions of
        Inl e \<Rightarrow> Inl e | Inr ms \<Rightarrow> Inr (ProcessPathRegexItem ms))"

definition ProcessPathRegexItem_Match :: "env \<Rightarrow> string list \<Rightarrow> inbound_context \<Rightarrow> bool" where
  "ProcessPathRegexItem_Match E matchers m =
     (case m_ProcessInfo m of
        None \<Rightarrow> False
      | Some info \<Rightarrow> if c_ProcessPath info = [] then False
                     else list_ex (\<lambda>r. regexp_MatchString E r (c_ProcessPath info)) matchers)"

definition NewPackageNameItem :: "string list \<Rightarrow> rule_item" where
  "NewPackageNameItem packageNameList = PackageNameItem packageNameList (bool_map packageNameList)"

definition PackageNameItem_Match :: "(string \<Rightarrow> bool) \<Rightarrow> inbound_context \<Rightarrow> bool" where
  "PackageNameItem_Match packageMap m =
     (case m_ProcessInfo m of
        None \<Rightarrow> False
      | Some info \<Rightarrow> if c_AndroidPackageNames info = [] then False
                     else list_ex packageMap (c_AndroidPackageNames info))"

definition NewPackageNameRegexItem :: "env \<Rightarrow> string list \<Rightarrow> rule_item res" where
  "NewPackageNameRegexItem E expressions =
     (case compile_all E 0 expressions of
        Inl e \<Rightarrow> Inl e | Inr ms \<Rightarrow> Inr (PackageNameRegexItem ms))"

definition PackageNameRegexItem_Match :: "env \<Rightarrow> string list \<Rightarrow> inbound_context \<Rightarrow> bool" where
  "PackageNameRegexItem_Match E matchers m =
     (case m_ProcessInfo m of
        None \<Rightarrow> False
      | Some info \<Rightarrow>
          if c_AndroidPackageNames info = [] then False
          else list_ex (\<lambda>r. list_ex (regexp_MatchString E r) (c_AndroidPackageNames info)) matchers)"

definition NewUserItem :: "string list \<Rightarrow> rule_item" where
  "NewUserItem users = UserItem users (bool_map users)"

definition UserItem_Match :: "(string \<Rightarrow> bool) \<Rightarrow> inbound_context \<Rightarrow> bool" where
  "UserItem_Match userMap m =
     (case m_ProcessInfo m of
        None \<Rightarrow> False
      | Some info \<Rightarrow> if c_UserName info = [] then False else userMap (c_UserName info))"

definition NewUserIDItem :: "int list \<Rightarrow> rule_item" where
  "NewUserIDItem userIdList = UserIdItem userIdList (bool_map userIdList)"

definition UserIdItem_Match :: "(int \<Rightarrow> bool) \<Rightarrow> inbound_context \<Rightarrow> bool" where
  "UserIdItem_Match userIdMap m =
     (case m_ProcessInfo m of
        None \<Rightarrow> False
      | Some info \<Rightarrow> if c_UserId info = - 1 then False else userIdMap (c_UserId info))"

subsection \<open>Network environment items\<close>

definition NewClashModeItem :: "string \<Rightarrow> rule_item" where
  "NewClashModeItem mode = ClashModeItem False mode"

text \<open>\<^verbatim>\<open>Start\<close> looks the Clash server up in the context; the flag says whether there is one.\<close>

definition ClashModeItem_Start :: "env \<Rightarrow> string \<Rightarrow> rule_item" where
  "ClashModeItem_Start E mode = ClashModeItem (clash_Mode E \<noteq> None) mode"

definition ClashModeItem_Match :: "env \<Rightarrow> bool \<Rightarrow> string \<Rightarrow> inbound_context \<Rightarrow> bool" where
  "ClashModeItem_Match E clashServer mode m =
     (if \<not> clashServer then False
      else (case clash_Mode E of
              None \<Rightarrow> False
            | Some current \<Rightarrow> EqualFold (unicode_EqualFold E) current mode))"

definition NewNetworkTypeItem :: "interface_type list \<Rightarrow> rule_item" where
  "NewNetworkTypeItem networkType = NetworkTypeItem networkType"

definition NetworkTypeItem_Match ::
  "env \<Rightarrow> interface_type list \<Rightarrow> inbound_context \<Rightarrow> bool" where
  "NetworkTypeItem_Match E networkType m =
     (case DefaultNetworkInterface E of
        None \<Rightarrow> False
      | Some i \<Rightarrow> ni_Type i \<in> set networkType)"

definition NewNetworkIsExpensiveItem :: rule_item where
  "NewNetworkIsExpensiveItem = NetworkIsExpensiveItem"

definition NetworkIsExpensiveItem_Match :: "env \<Rightarrow> inbound_context \<Rightarrow> bool" where
  "NetworkIsExpensiveItem_Match E m =
     (case DefaultNetworkInterface E of None \<Rightarrow> False | Some i \<Rightarrow> ni_Expensive i)"

definition NewNetworkIsConstrainedItem :: rule_item where
  "NewNetworkIsConstrainedItem = NetworkIsConstrainedItem"

definition NetworkIsConstrainedItem_Match :: "env \<Rightarrow> inbound_context \<Rightarrow> bool" where
  "NetworkIsConstrainedItem_Match E m =
     (case DefaultNetworkInterface E of None \<Rightarrow> False | Some i \<Rightarrow> ni_Constrained i)"

definition NewWIFISSIDItem :: "string list \<Rightarrow> rule_item" where
  "NewWIFISSIDItem ssidList = WIFISSIDItem ssidList (bool_map ssidList)"

definition WIFISSIDItem_Match :: "env \<Rightarrow> (string \<Rightarrow> bool) \<Rightarrow> inbound_context \<Rightarrow> bool" where
  "WIFISSIDItem_Match E ssidMap m = ssidMap (WIFI_SSID E)"

definition NormalizeWIFIBSSID :: "env \<Rightarrow> string \<Rightarrow> string" where
  "NormalizeWIFIBSSID E bssid0 =
     (let bssid = TrimSpace (unicode_TrimSpace E) bssid0;
          fallback = (if length bssid = 12 then
                        (case hex_DecodeString bssid of
                           Some decoded \<Rightarrow> HardwareAddr_String E decoded
                         | None \<Rightarrow> bssid)
                      else bssid)
      in if bssid = [] then []
         else (case net_ParseMAC E bssid of
                 Inr parsed \<Rightarrow> if length parsed = 6 then HardwareAddr_String E parsed else fallback
               | Inl _ \<Rightarrow> fallback))"

definition NewWIFIBSSIDItem :: "env \<Rightarrow> string list \<Rightarrow> rule_item" where
  "NewWIFIBSSIDItem E bssidList =
     WIFIBSSIDItem bssidList (bool_map (map (NormalizeWIFIBSSID E) bssidList))"

definition WIFIBSSIDItem_Match :: "env \<Rightarrow> (string \<Rightarrow> bool) \<Rightarrow> inbound_context \<Rightarrow> bool" where
  "WIFIBSSIDItem_Match E bssidMap m = bssidMap (WIFI_BSSID E)"

text \<open>
  The two maps from interfaces to prefixes are association lists: the entries of an ordered JSON
  object, whose keys are distinct.  Each entry is checked on its own, so the order in which Go
  walks the map does not matter.  A prefix option is given as the \<^verbatim>\<open>netip.Prefix\<close> it builds.
\<close>

definition NewInterfaceAddressItem :: "(string \<times> prefix list) list \<Rightarrow> rule_item" where
  "NewInterfaceAddressItem interfaceAddresses = InterfaceAddressItem interfaceAddresses"

definition InterfaceAddressItem_Match ::
  "env \<Rightarrow> (string \<times> prefix list) list \<Rightarrow> inbound_context \<Rightarrow> bool" where
  "InterfaceAddressItem_Match E interfaceAddresses m =
     list_all (\<lambda>(ifName, addresses).
        case find (\<lambda>i. ni_Name i = ifName) (FinderInterfaces E) of
          None \<Rightarrow> False
        | Some iface \<Rightarrow>
            if ni_Name iface = [] then False
            else \<not> list_all (\<lambda>address. list_all (\<lambda>it. \<not> prefix_Overlaps address it)
                                        (ni_Addresses iface)) addresses)
       interfaceAddresses"

definition NewNetworkInterfaceAddressItem ::
  "(interface_type \<times> prefix list) list \<Rightarrow> rule_item" where
  "NewNetworkInterfaceAddressItem interfaceAddresses =
     NetworkInterfaceAddressItem interfaceAddresses"

definition NetworkInterfaceAddressItem_Match ::
  "env \<Rightarrow> (interface_type \<times> prefix list) list \<Rightarrow> inbound_context \<Rightarrow> bool" where
  "NetworkInterfaceAddressItem_Match E interfaceAddresses m =
     list_all (\<lambda>(ifType, addresses).
        list_ex (\<lambda>i. ni_Name i \<notin> set (MyInterfaces E) \<and> ni_Type i = ifType \<and>
                     list_ex (\<lambda>it. list_ex (\<lambda>prefix. prefix_Overlaps prefix it) addresses)
                       (ni_Addresses i))
          (NetworkInterfaces E))
       interfaceAddresses"

definition NewDefaultInterfaceAddressItem :: "prefix list \<Rightarrow> rule_item" where
  "NewDefaultInterfaceAddressItem interfaceAddresses =
     DefaultInterfaceAddressItem interfaceAddresses"

definition DefaultInterfaceAddressItem_Match ::
  "env \<Rightarrow> prefix list \<Rightarrow> inbound_context \<Rightarrow> bool" where
  "DefaultInterfaceAddressItem_Match E interfaceAddresses m =
     (case MonitorDefaultInterface E of
        None \<Rightarrow> False
      | Some i \<Rightarrow>
          list_all (\<lambda>address. \<not> list_all (\<lambda>it. \<not> prefix_Overlaps address it) (ni_Addresses i))
            interfaceAddresses)"

subsection \<open>Preferred-by items\<close>

definition NewPreferredByItem :: "string list \<Rightarrow> rule_item" where
  "NewPreferredByItem outboundTags = PreferredByItem outboundTags []"

definition PreferredByItem_Match :: "env \<Rightarrow> string list \<Rightarrow> inbound_context \<Rightarrow> bool" where
  "PreferredByItem_Match E outbounds m =
     (if domainHost m \<noteq> [] \<and> list_ex (\<lambda>o'. PreferredDomain E o' (domainHost m)) outbounds
      then True
      else if sa_IsIP E (m_Destination m) \<and>
              list_ex (\<lambda>o'. PreferredAddress E o' (s_Addr (m_Destination m))) outbounds
      then True
      else list_ex (\<lambda>a. list_ex (\<lambda>o'. PreferredAddress E o' a) outbounds)
             (m_DestinationAddresses m))"

definition NewPreferredByDNSItem :: "string list \<Rightarrow> rule_item" where
  "NewPreferredByDNSItem transportTags = PreferredByDNSItem transportTags []"

definition PreferredByDNSItem_Match :: "env \<Rightarrow> string list \<Rightarrow> inbound_context \<Rightarrow> bool" where
  "PreferredByDNSItem_Match E transports m =
     (if domainHost m = [] then False
      else list_ex (\<lambda>t. TransportPreferredDomain E t (dns_CanonicalName E (domainHost m))) transports)"

text \<open>
  \<^verbatim>\<open>Start\<close> of both resolves the tags in order: an unknown tag and an object of a type without
  preferred routes are errors.  \<open>lookup\<close> is the manager: the type of the object under a tag and
  whether it has preferred routes.
\<close>

fun preferred_start ::
  "string \<Rightarrow> string \<Rightarrow> (string \<Rightarrow> (string \<times> bool) option) \<Rightarrow> string list \<Rightarrow> string list
   \<Rightarrow> string list res" where
  "preferred_start missing unsupported lookup acc [] = Inr acc"
| "preferred_start missing unsupported lookup acc (tag # tags) =
     (case lookup tag of
        None \<Rightarrow> Inl (New (missing @ tag))
      | Some (type, withRoutes) \<Rightarrow>
          if \<not> withRoutes then Inl (New (unsupported @ type))
          else preferred_start missing unsupported lookup (acc @ [tag]) tags)"

definition PreferredByItem_Start ::
  "(string \<Rightarrow> (string \<times> bool) option) \<Rightarrow> string list \<Rightarrow> string list \<Rightarrow> rule_item res" where
  "PreferredByItem_Start lookup outboundTags outbounds =
     (case preferred_start ''outbound not found: ''
             ''outbound type does not support preferred routes: '' lookup outbounds outboundTags of
        Inl e \<Rightarrow> Inl e | Inr os \<Rightarrow> Inr (PreferredByItem outboundTags os))"

definition PreferredByDNSItem_Start ::
  "(string \<Rightarrow> (string \<times> bool) option) \<Rightarrow> string list \<Rightarrow> string list \<Rightarrow> rule_item res" where
  "PreferredByDNSItem_Start lookup transportTags transports =
     (case preferred_start ''DNS server not found: ''
             ''DNS server type does not support preferred_by: '' lookup transports transportTags of
        Inl e \<Rightarrow> Inl e | Inr ts \<Rightarrow> Inr (PreferredByDNSItem transportTags ts))"

subsection \<open>DNS response items\<close>

definition NewDNSResponseRCodeItem :: "int \<Rightarrow> rule_item" where
  "NewDNSResponseRCodeItem rcode = DNSResponseRCodeItem rcode"

definition DNSResponseRCodeItem_Match :: "int \<Rightarrow> inbound_context \<Rightarrow> bool" where
  "DNSResponseRCodeItem_Match rcode m =
     (case m_DNSResponse m of None \<Rightarrow> False | Some r \<Rightarrow> d_Rcode r = rcode)"

definition DNSRecordOptions_Match :: "env \<Rightarrow> rr option \<Rightarrow> rr \<Rightarrow> bool" where
  "DNSRecordOptions_Match E opt record =
     (case opt of None \<Rightarrow> False | Some expected \<Rightarrow> dns_IsDuplicate E expected record)"

fun select_records :: "record_section \<Rightarrow> dns_msg \<Rightarrow> rr list" where
  "select_records SectionAnswer r = d_Answer r"
| "select_records SectionNs r = d_Ns r"
| "select_records SectionExtra r = d_Extra r"

definition NewDNSResponseRecordItem ::
  "string \<Rightarrow> rr option list \<Rightarrow> record_section \<Rightarrow> rule_item" where
  "NewDNSResponseRecordItem field records selector = DNSResponseRecordItem field records selector"

definition DNSResponseRecordItem_Match ::
  "env \<Rightarrow> rr option list \<Rightarrow> record_section \<Rightarrow> inbound_context \<Rightarrow> bool" where
  "DNSResponseRecordItem_Match E records selector m =
     (case m_DNSResponse m of
        None \<Rightarrow> False
      | Some r \<Rightarrow> list_ex (\<lambda>expected. list_ex (DNSRecordOptions_Match E expected)
                                        (select_records selector r)) records)"

subsection \<open>The interface \<^verbatim>\<open>RuleItem\<close>\<close>

fun item_Match :: "env \<Rightarrow> rule_item \<Rightarrow> inbound_context \<Rightarrow> bool" where
  "item_Match E (InboundItem _ f) m = InboundItem_Match f m"
| "item_Match E (IPVersionItem v) m = IPVersionItem_Match E v m"
| "item_Match E (NetworkItem _ f) m = NetworkItem_Match f m"
| "item_Match E (AuthUserItem _ f) m = AuthUserItem_Match f m"
| "item_Match E (ProtocolItem _ f) m = ProtocolItem_Match f m"
| "item_Match E (ClientItem _ f) m = ClientItem_Match f m"
| "item_Match E (DomainItem d) m = DomainItem_Match E d m"
| "item_Match E (DomainKeywordItem ks) m = DomainKeywordItem_Match E ks m"
| "item_Match E (DomainRegexItem rs) m = DomainRegexItem_Match E rs m"
| "item_Match E (IPCIDRItem s src) m = IPCIDRItem_Match E s src m"
| "item_Match E (IPIsPrivateItem src) m = IPIsPrivateItem_Match E src m"
| "item_Match E IPAcceptAnyItem m = IPAcceptAnyItem_Match E m"
| "item_Match E (PortItem _ f src) m = PortItem_Match f src m"
| "item_Match E (PortRangeItem src _ rs) m = PortRangeItem_Match src rs m"
| "item_Match E (ProcessItem _ f) m = ProcessItem_Match E f m"
| "item_Match E (ProcessPathItem _ f) m = ProcessPathItem_Match E f m"
| "item_Match E (ProcessPathRegexItem rs) m = ProcessPathRegexItem_Match E rs m"
| "item_Match E (PackageNameItem _ f) m = PackageNameItem_Match f m"
| "item_Match E (PackageNameRegexItem rs) m = PackageNameRegexItem_Match E rs m"
| "item_Match E (UserItem _ f) m = UserItem_Match f m"
| "item_Match E (UserIdItem _ f) m = UserIdItem_Match f m"
| "item_Match E (OutboundItem _ f any) m = OutboundItem_Match f any m"
| "item_Match E (ClashModeItem srv mode) m = ClashModeItem_Match E srv mode m"
| "item_Match E (NetworkTypeItem ts) m = NetworkTypeItem_Match E ts m"
| "item_Match E NetworkIsExpensiveItem m = NetworkIsExpensiveItem_Match E m"
| "item_Match E NetworkIsConstrainedItem m = NetworkIsConstrainedItem_Match E m"
| "item_Match E (WIFISSIDItem _ f) m = WIFISSIDItem_Match E f m"
| "item_Match E (WIFIBSSIDItem _ f) m = WIFIBSSIDItem_Match E f m"
| "item_Match E (InterfaceAddressItem es) m = InterfaceAddressItem_Match E es m"
| "item_Match E (NetworkInterfaceAddressItem es) m = NetworkInterfaceAddressItem_Match E es m"
| "item_Match E (DefaultInterfaceAddressItem ps) m = DefaultInterfaceAddressItem_Match E ps m"
| "item_Match E (SourceMACAddressItem _ f) m = SourceMACAddressItem_Match E f m"
| "item_Match E (SourceHostnameItem _ f) m = SourceHostnameItem_Match f m"
| "item_Match E (PreferredByItem _ os) m = PreferredByItem_Match E os m"
| "item_Match E (PreferredByDNSItem _ ts) m = PreferredByDNSItem_Match E ts m"
| "item_Match E (QueryTypeItem _ f) m = QueryTypeItem_Match f m"
| "item_Match E (DNSResponseRCodeItem c) m = DNSResponseRCodeItem_Match c m"
| "item_Match E (DNSResponseRecordItem _ rs sel) m = DNSResponseRecordItem_Match E rs sel m"
| "item_Match E (AdGuardDomainItem a) m = AdGuardDomainItem_Match E a m"

subsection \<open>Lemmas\<close>

text \<open>No item reads the match cache of the metadata.\<close>

lemmas item_Match_defs = InboundItem_Match_def IPVersionItem_Match_def NetworkItem_Match_def
  AuthUserItem_Match_def ProtocolItem_Match_def ClientItem_Match_def DomainItem_Match_def
  DomainKeywordItem_Match_def DomainRegexItem_Match_def IPCIDRItem_Match_def
  IPIsPrivateItem_Match_def IPAcceptAnyItem_Match_def PortItem_Match_def PortRangeItem_Match_def
  ProcessItem_Match_def ProcessPathItem_Match_def ProcessPathRegexItem_Match_def
  PackageNameItem_Match_def PackageNameRegexItem_Match_def UserItem_Match_def UserIdItem_Match_def
  OutboundItem_Match_def ClashModeItem_Match_def NetworkTypeItem_Match_def
  NetworkIsExpensiveItem_Match_def NetworkIsConstrainedItem_Match_def WIFISSIDItem_Match_def
  WIFIBSSIDItem_Match_def InterfaceAddressItem_Match_def NetworkInterfaceAddressItem_Match_def
  DefaultInterfaceAddressItem_Match_def SourceMACAddressItem_Match_def
  SourceHostnameItem_Match_def PreferredByItem_Match_def PreferredByDNSItem_Match_def
  QueryTypeItem_Match_def DNSResponseRCodeItem_Match_def DNSResponseRecordItem_Match_def
  AdGuardDomainItem_Match_def domainHost_def DNSResponseAddressesForMatch_def

lemma item_Match_DidMatch [simp]: "item_Match E it (m\<lparr>m_DidMatch := b\<rparr>) = item_Match E it m"
  by (cases it) (simp_all add: item_Match_defs)

lemma item_Match_ResetRuleMatchCache [simp]:
  "item_Match E it (ResetRuleMatchCache m) = item_Match E it m"
  by (cases it) (simp_all add: item_Match_defs ResetRuleMatchCache_def)

lemma compile_all_Inr: "compile_all E i rs = Inr ms \<Longrightarrow> ms = rs"
  by (induction rs arbitrary: i ms) (auto split: option.splits sum.splits)

end
