(* ===== verification/Rule_Engine.thy ===== *)
theory Rule_Engine
  imports Match_State Rule_Items
begin

text \<open>
  The matching engine: \<^verbatim>\<open>route/rule/rule_abstract.go\<close>, the two dispatch functions of
  \<^verbatim>\<open>match_state.go\<close> and the matching half of \<^verbatim>\<open>rule_item_rule_set.go\<close>.

  A Go rule keeps each item twice, in \<^verbatim>\<open>allItems\<close> and in the slice of its group, so that starting
  the item through one slice is seen through the other.  The model keeps the items once, in the
  order of \<^verbatim>\<open>allItems\<close>, each with the group it was added to; the group slices are views of that
  list.  The rule-set item is kept apart, as in the source, and is the last of \<^verbatim>\<open>allItems\<close>.

  Matching writes one field of the metadata, \<^verbatim>\<open>DidMatch\<close>: the functions return the state set and
  the metadata.  The evaluation of a rule set is an argument of the engine, because a rule of a
  rule set has no rule-set item itself.
\<close>

datatype slot =
    Items | SourceAddressItems | SourcePortItems
  | DestinationAddressItems | DestinationIPCIDRItems | DestinationPortItems

record rule_set_item =
  tagList :: "string list"
  setList :: "string list"
  ipCidrMatchSource :: bool
  ipCidrAcceptEmpty :: bool

record 'act abstractDefaultRule =
  entries :: "(slot \<times> rule_item) list"
  ruleSetItem :: "rule_set_item option"
  invert :: bool
  action :: "'act option"

definition slot_items :: "slot \<Rightarrow> ('act, 'x) abstractDefaultRule_scheme \<Rightarrow> rule_item list" where
  "slot_items s r = map snd (filter (\<lambda>e. fst e = s) (entries r))"

abbreviation "items \<equiv> slot_items Items"
abbreviation "sourceAddressItems \<equiv> slot_items SourceAddressItems"
abbreviation "sourcePortItems \<equiv> slot_items SourcePortItems"
abbreviation "destinationAddressItems \<equiv> slot_items DestinationAddressItems"
abbreviation "destinationIPCIDRItems \<equiv> slot_items DestinationIPCIDRItems"
abbreviation "destinationPortItems \<equiv> slot_items DestinationPortItems"

definition no_items :: "('act, 'x) abstractDefaultRule_scheme \<Rightarrow> bool" where
  "no_items r \<longleftrightarrow> entries r = [] \<and> ruleSetItem r = None"

datatype ('d, 'act) rule =
    DefaultRule 'd
  | LogicalRule (lr_rules: "('d, 'act) rule list") (lr_mode: string) (lr_invert: bool)
      (lr_action: "'act option")

type_synonym rs_eval = "rule_set_item \<Rightarrow> inbound_context \<Rightarrow> ruleMatchState \<Rightarrow> ruleMatchStateSet"

definition LogicalTypeAnd :: string where "LogicalTypeAnd = ''and''"

definition LogicalTypeOr :: string where "LogicalTypeOr = ''or''"

subsection \<open>The default rule\<close>

definition matchAnyItem :: "env \<Rightarrow> rule_item list \<Rightarrow> inbound_context \<Rightarrow> bool" where
  "matchAnyItem E its m = list_ex (\<lambda>it. item_Match E it m) its"

definition destinationIPCIDRMatchesSource ::
  "('act, 'x) abstractDefaultRule_scheme \<Rightarrow> inbound_context \<Rightarrow> bool" where
  "destinationIPCIDRMatchesSource r m \<longleftrightarrow>
     \<not> m_IgnoreDestinationIPCIDRMatch m \<and> m_IPCIDRMatchSource m \<and> destinationIPCIDRItems r \<noteq> []"

definition destinationIPCIDRMatchesDestination ::
  "('act, 'x) abstractDefaultRule_scheme \<Rightarrow> inbound_context \<Rightarrow> bool" where
  "destinationIPCIDRMatchesDestination r m \<longleftrightarrow>
     \<not> m_IgnoreDestinationIPCIDRMatch m \<and> \<not> m_IPCIDRMatchSource m \<and> destinationIPCIDRItems r \<noteq> []"

definition requiresSourceAddressMatch ::
  "('act, 'x) abstractDefaultRule_scheme \<Rightarrow> inbound_context \<Rightarrow> bool" where
  "requiresSourceAddressMatch r m \<longleftrightarrow>
     sourceAddressItems r \<noteq> [] \<or> destinationIPCIDRMatchesSource r m"

definition requiresDestinationAddressMatch ::
  "('act, 'x) abstractDefaultRule_scheme \<Rightarrow> inbound_context \<Rightarrow> bool" where
  "requiresDestinationAddressMatch r m \<longleftrightarrow>
     destinationAddressItems r \<noteq> [] \<or> destinationIPCIDRMatchesDestination r m"

definition invertedFailure ::
  "('act, 'x) abstractDefaultRule_scheme \<Rightarrow> ruleMatchState \<Rightarrow> ruleMatchStateSet" where
  "invertedFailure r base = (if invert r then withBase emptyRuleMatchState base else 0)"

definition didMatch :: "inbound_context \<Rightarrow> inbound_context" where
  "didMatch m = m\<lparr>m_DidMatch := True\<rparr>"

text \<open>The block \<^verbatim>\<open>if len(group) > 0 { DidMatch = true; if matchAnyItem(..) { baseState |= bit } }\<close>.\<close>

definition match_group ::
  "env \<Rightarrow> bool \<Rightarrow> rule_item list \<Rightarrow> ruleMatchState \<Rightarrow> ruleMatchState \<times> inbound_context
   \<Rightarrow> ruleMatchState \<times> inbound_context" where
  "match_group E present its flag = (\<lambda>(baseState, m).
     if present
     then (if matchAnyItem E its (didMatch m) then baseState OR flag else baseState, didMatch m)
     else (baseState, m))"

text \<open>The \<^verbatim>\<open>ip_cidr\<close> block: the items run only when the address flag is not set yet.\<close>

definition match_ipcidr_group ::
  "env \<Rightarrow> (inbound_context \<Rightarrow> bool) \<Rightarrow> rule_item list \<Rightarrow> ruleMatchState
   \<Rightarrow> ruleMatchState \<times> inbound_context \<Rightarrow> ruleMatchState \<times> inbound_context" where
  "match_ipcidr_group E applies its flag = (\<lambda>(baseState, m).
     if applies m \<and> \<not> has baseState flag
     then (if matchAnyItem E its (didMatch m) then baseState OR flag else baseState, didMatch m)
     else if applies m then (baseState, didMatch m)
     else (baseState, m))"

text \<open>The loop over \<^verbatim>\<open>r.items\<close>, stopping at the first item that does not match.\<close>

fun match_all_items :: "env \<Rightarrow> rule_item list \<Rightarrow> inbound_context \<Rightarrow> bool \<times> inbound_context" where
  "match_all_items E [] m = (True, m)"
| "match_all_items E (it # its) m =
     (if \<not> item_Match E it (didMatch m) then (False, didMatch m)
      else match_all_items E its (didMatch m))"

definition state_allowed ::
  "('act, 'x) abstractDefaultRule_scheme \<Rightarrow> inbound_context \<Rightarrow> ruleMatchState \<Rightarrow> bool" where
  "state_allowed r m state =
     (if requiresSourceAddressMatch r m \<and> \<not> has state ruleMatchSourceAddress then False
      else if sourcePortItems r \<noteq> [] \<and> \<not> has state ruleMatchSourcePort then False
      else if requiresDestinationAddressMatch r m \<and> \<not> has state ruleMatchDestinationAddress
      then False
      else if destinationPortItems r \<noteq> [] \<and> \<not> has state ruleMatchDestinationPort then False
      else True)"

definition group_state ::
  "env \<Rightarrow> ('act, 'x) abstractDefaultRule_scheme \<Rightarrow> inbound_context \<Rightarrow> ruleMatchState
   \<Rightarrow> ruleMatchState \<times> inbound_context" where
  "group_state E r m evaluationBase =
     (let s0 = (evaluationBase, m);
          s1 = match_group E (sourceAddressItems r \<noteq> []) (sourceAddressItems r)
                 ruleMatchSourceAddress s0;
          s2 = match_ipcidr_group E (destinationIPCIDRMatchesSource r) (destinationIPCIDRItems r)
                 ruleMatchSourceAddress s1;
          s3 = match_group E (sourcePortItems r \<noteq> []) (sourcePortItems r) ruleMatchSourcePort s2;
          s4 = match_group E (destinationAddressItems r \<noteq> []) (destinationAddressItems r)
                 ruleMatchDestinationAddress s3;
          s5 = match_ipcidr_group E (destinationIPCIDRMatchesDestination r)
                 (destinationIPCIDRItems r) ruleMatchDestinationAddress s4
      in match_group E (destinationPortItems r \<noteq> []) (destinationPortItems r)
           ruleMatchDestinationPort s5)"

definition default_matchStatesWithBase ::
  "env \<Rightarrow> rs_eval \<Rightarrow> ('act, 'x) abstractDefaultRule_scheme \<Rightarrow> inbound_context \<Rightarrow> ruleMatchState
   \<Rightarrow> ruleMatchStateSet \<times> inbound_context" where
  "default_matchStatesWithBase E rs r m inheritedBase =
     (if no_items r then (withBase emptyRuleMatchState inheritedBase, m)
      else
        let evaluationBase = (if invert r then 0 else inheritedBase);
            (baseState, m1) = group_state E r m evaluationBase;
            (allMatched, m2) = match_all_items E (items r) m1
        in if \<not> allMatched then (invertedFailure r inheritedBase, m2)
           else
             let (stateSet, m3) =
                   (case ruleSetItem r of
                      Some it \<Rightarrow> (rs it (didMatch m2) baseState, didMatch m2)
                    | None \<Rightarrow> (singleRuleMatchState baseState, m2));
                 stateSet = filter_states stateSet (state_allowed r m3)
             in if isEmpty stateSet then (invertedFailure r inheritedBase, m3)
                else if invert r then
                  (if m_IgnoreDestinationIPCIDRMatch m3 \<and> stateSet = emptyRuleMatchState \<and>
                      \<not> m_DidMatch m3 \<and> destinationIPCIDRItems r \<noteq> []
                   then (withBase emptyRuleMatchState inheritedBase, m3)
                   else (0, m3))
                else (stateSet, m3))"

definition default_matchStates ::
  "env \<Rightarrow> rs_eval \<Rightarrow> ('act, 'x) abstractDefaultRule_scheme \<Rightarrow> inbound_context
   \<Rightarrow> ruleMatchStateSet \<times> inbound_context" where
  "default_matchStates E rs r m = default_matchStatesWithBase E rs r m 0"

definition default_Match ::
  "env \<Rightarrow> rs_eval \<Rightarrow> ('act, 'x) abstractDefaultRule_scheme \<Rightarrow> inbound_context
   \<Rightarrow> bool \<times> inbound_context" where
  "default_Match E rs r m = (let (s, m') = default_matchStates E rs r m in (\<not> isEmpty s, m'))"

subsection \<open>The logical rule\<close>

text \<open>
  \<open>ev\<close> evaluates a sub-rule (\<^verbatim>\<open>matchHeadlessRuleStatesWithBase\<close>); each sub-rule gets its own copy of
  the metadata, so that nothing it writes is seen outside.
\<close>

fun logical_and_loop ::
  "('r \<Rightarrow> inbound_context \<Rightarrow> ruleMatchState \<Rightarrow> ruleMatchStateSet) \<Rightarrow> inbound_context
   \<Rightarrow> ruleMatchState \<Rightarrow> ruleMatchStateSet \<Rightarrow> 'r list \<Rightarrow> ruleMatchStateSet option" where
  "logical_and_loop ev m base stateSet [] = Some stateSet"
| "logical_and_loop ev m base stateSet (r # rs) =
     (let nested = ev r (ResetRuleCache m) base
      in if isEmpty nested then None
         else logical_and_loop ev m base (combine stateSet nested) rs)"

definition logical_or_loop ::
  "('r \<Rightarrow> inbound_context \<Rightarrow> ruleMatchState \<Rightarrow> ruleMatchStateSet) \<Rightarrow> inbound_context
   \<Rightarrow> ruleMatchState \<Rightarrow> 'r list \<Rightarrow> ruleMatchStateSet" where
  "logical_or_loop ev m base rs =
     foldl (\<lambda>stateSet r. merge stateSet (ev r (ResetRuleCache m) base)) 0 rs"

definition logical_matchStatesWithBase ::
  "('r \<Rightarrow> inbound_context \<Rightarrow> ruleMatchState \<Rightarrow> ruleMatchStateSet) \<Rightarrow> 'r list \<Rightarrow> string \<Rightarrow> bool
   \<Rightarrow> inbound_context \<Rightarrow> ruleMatchState \<Rightarrow> ruleMatchStateSet" where
  "logical_matchStatesWithBase ev rules mode neg m base =
     (let evaluationBase = (if neg then 0 else base);
          failure = (if neg then withBase emptyRuleMatchState base else 0)
      in if mode = LogicalTypeAnd then
           (case logical_and_loop ev m evaluationBase
                   (withBase emptyRuleMatchState evaluationBase) rules of
              None \<Rightarrow> failure
            | Some stateSet \<Rightarrow> if neg then 0 else stateSet)
         else
           (let stateSet = logical_or_loop ev m evaluationBase rules
            in if isEmpty stateSet then failure else if neg then 0 else stateSet))"

lemma logical_and_loop_cong [fundef_cong]:
  "\<lbrakk>rs = rs'; m = m'; b = b'; s = s'; \<And>r m b. r \<in> set rs' \<Longrightarrow> ev r m b = ev' r m b\<rbrakk> \<Longrightarrow>
   logical_and_loop ev m b s rs = logical_and_loop ev' m' b' s' rs'"
  by (induction rs arbitrary: s rs' s') (auto simp: Let_def)

lemma logical_or_loop_cong [fundef_cong]:
  "\<lbrakk>rs = rs'; m = m'; b = b'; \<And>r m b. r \<in> set rs' \<Longrightarrow> ev r m b = ev' r m b\<rbrakk> \<Longrightarrow>
   logical_or_loop ev m b rs = logical_or_loop ev' m' b' rs'"
  unfolding logical_or_loop_def by (intro foldl_cong) auto

lemma logical_matchStatesWithBase_cong [fundef_cong]:
  assumes "rs = rs'" "mode = mode'" "neg = neg'" "m = m'" "b = b'"
    and "\<And>r m b. r \<in> set rs' \<Longrightarrow> ev r m b = ev' r m b"
  shows "logical_matchStatesWithBase ev rs mode neg m b =
         logical_matchStatesWithBase ev' rs' mode' neg' m' b'"
proof -
  have "logical_and_loop ev m' b s rs' = logical_and_loop ev' m' b s rs'" for b s
    using assms(6) by (intro logical_and_loop_cong) auto
  moreover have "logical_or_loop ev m' b rs' = logical_or_loop ev' m' b rs'" for b
    using assms(6) by (intro logical_or_loop_cong) auto
  ultimately show ?thesis using assms(1-5) by (simp add: logical_matchStatesWithBase_def)
qed

text \<open>
  \<^verbatim>\<open>matchHeadlessRuleStatesWithBase\<close>: every rule of the program has \<^verbatim>\<open>matchStatesWithBase\<close>, so the
  first of the three cases is taken; \<open>dflt\<close> is that method of the default rule.
\<close>

fun rule_matchStatesWithBase ::
  "('d \<Rightarrow> inbound_context \<Rightarrow> ruleMatchState \<Rightarrow> ruleMatchStateSet) \<Rightarrow> ('d, 'act) rule
   \<Rightarrow> inbound_context \<Rightarrow> ruleMatchState \<Rightarrow> ruleMatchStateSet" where
  "rule_matchStatesWithBase dflt (DefaultRule d) m base = dflt d m base"
| "rule_matchStatesWithBase dflt (LogicalRule rules mode neg act) m base =
     logical_matchStatesWithBase (rule_matchStatesWithBase dflt) rules mode neg m base"

subsection \<open>The rule-set item\<close>

definition RuleSetItem_matchStatesWithBase ::
  "(string \<Rightarrow> inbound_context \<Rightarrow> ruleMatchState \<Rightarrow> ruleMatchStateSet) \<Rightarrow> rs_eval" where
  "RuleSetItem_matchStatesWithBase ruleSet r m base =
     foldl (\<lambda>stateSet tag.
        merge stateSet
          (ruleSet tag ((ResetRuleMatchCache m)
             \<lparr>m_IPCIDRMatchSource := ipCidrMatchSource r, m_IPCIDRAcceptEmpty := ipCidrAcceptEmpty r\<rparr>)
             base)) 0 (setList r)"

definition RuleSetItem_Match ::
  "(string \<Rightarrow> inbound_context \<Rightarrow> ruleMatchState \<Rightarrow> ruleMatchStateSet)
   \<Rightarrow> rule_set_item \<Rightarrow> inbound_context \<Rightarrow> bool" where
  "RuleSetItem_Match ruleSet r m \<longleftrightarrow> \<not> isEmpty (RuleSetItem_matchStatesWithBase ruleSet r m 0)"

text \<open>\<^verbatim>\<open>matchStatesWithBase\<close> of a rule set: the loop is the same in the local and the remote one.\<close>

definition rules_matchStatesWithBase ::
  "('r \<Rightarrow> inbound_context \<Rightarrow> ruleMatchState \<Rightarrow> ruleMatchStateSet) \<Rightarrow> 'r list
   \<Rightarrow> inbound_context \<Rightarrow> ruleMatchState \<Rightarrow> ruleMatchStateSet" where
  "rules_matchStatesWithBase ev rules m base =
     foldl (\<lambda>stateSet r. merge stateSet (ev r (ResetRuleMatchCache m) base)) 0 rules"

subsection \<open>Closed forms of one default rule\<close>

lemma didMatch_simps [simp]:
  "m_IgnoreDestinationIPCIDRMatch (didMatch m) = m_IgnoreDestinationIPCIDRMatch m"
  "m_IPCIDRMatchSource (didMatch m) = m_IPCIDRMatchSource m"
  "m_DidMatch (didMatch m) = True"
  "didMatch (didMatch m) = didMatch m"
  "ResetRuleMatchCache (didMatch m) = ResetRuleMatchCache m"
  "ResetRuleCache (didMatch m) = ResetRuleCache m"
  by (simp_all add: didMatch_def ResetRuleMatchCache_def ResetRuleCache_def)

lemma item_Match_didMatch [simp]: "item_Match E it (didMatch m) = item_Match E it m"
  by (simp add: didMatch_def)

lemma matchAnyItem_didMatch [simp]: "matchAnyItem E its (didMatch m) = matchAnyItem E its m"
  by (simp add: matchAnyItem_def)

lemma matchAnyItem_append [simp]:
  "matchAnyItem E (xs @ ys) m \<longleftrightarrow> matchAnyItem E xs m \<or> matchAnyItem E ys m"
  by (simp add: matchAnyItem_def)

lemma matchAnyItem_Nil [simp]: "\<not> matchAnyItem E [] m"
  by (simp add: matchAnyItem_def)

lemma rule_flags_didMatch [simp]:
  "destinationIPCIDRMatchesSource r (didMatch m) = destinationIPCIDRMatchesSource r m"
  "destinationIPCIDRMatchesDestination r (didMatch m) = destinationIPCIDRMatchesDestination r m"
  "state_allowed r (didMatch m) = state_allowed r m"
  by (simp_all add: destinationIPCIDRMatchesSource_def destinationIPCIDRMatchesDestination_def
      requiresSourceAddressMatch_def requiresDestinationAddressMatch_def state_allowed_def fun_eq_iff)

definition sourceAddressHit ::
  "env \<Rightarrow> ('act, 'x) abstractDefaultRule_scheme \<Rightarrow> inbound_context \<Rightarrow> bool" where
  "sourceAddressHit E r m \<longleftrightarrow> matchAnyItem E (sourceAddressItems r) m \<or>
     destinationIPCIDRMatchesSource r m \<and> matchAnyItem E (destinationIPCIDRItems r) m"

definition destinationAddressHit ::
  "env \<Rightarrow> ('act, 'x) abstractDefaultRule_scheme \<Rightarrow> inbound_context \<Rightarrow> bool" where
  "destinationAddressHit E r m \<longleftrightarrow> matchAnyItem E (destinationAddressItems r) m \<or>
     destinationIPCIDRMatchesDestination r m \<and> matchAnyItem E (destinationIPCIDRItems r) m"

definition group_bits ::
  "env \<Rightarrow> ('act, 'x) abstractDefaultRule_scheme \<Rightarrow> inbound_context \<Rightarrow> ruleMatchState" where
  "group_bits E r m =
     (if sourceAddressHit E r m then ruleMatchSourceAddress else 0) OR
     (if matchAnyItem E (sourcePortItems r) m then ruleMatchSourcePort else 0) OR
     (if destinationAddressHit E r m then ruleMatchDestinationAddress else 0) OR
     (if matchAnyItem E (destinationPortItems r) m then ruleMatchDestinationPort else 0)"

definition groups_present :: "('act, 'x) abstractDefaultRule_scheme \<Rightarrow> inbound_context \<Rightarrow> bool" where
  "groups_present r m \<longleftrightarrow> requiresSourceAddressMatch r m \<or> sourcePortItems r \<noteq> [] \<or>
     requiresDestinationAddressMatch r m \<or> destinationPortItems r \<noteq> []"

lemma has_absorb:
  "has b ruleMatchSourceAddress \<Longrightarrow> b OR ruleMatchSourceAddress = b"
  "has b ruleMatchDestinationAddress \<Longrightarrow> b OR ruleMatchDestinationAddress = b"
proof -
  have absorb: "b OR push_bit n 1 = b" if "b AND push_bit n 1 \<noteq> 0" for n
  proof -
    from that have "bit b n"
      by (auto simp: bit_eq_iff [of "b AND _"] bit_and_iff push_bit_eq_mult bit_exp_iff)
    then show ?thesis
      by (auto simp: bit_eq_iff [of "b OR _"] bit_or_iff push_bit_eq_mult bit_exp_iff)
  qed
  then show "has b ruleMatchSourceAddress \<Longrightarrow> b OR ruleMatchSourceAddress = b"
    and "has b ruleMatchDestinationAddress \<Longrightarrow> b OR ruleMatchDestinationAddress = b"
    unfolding has_def ruleMatchSourceAddress_def ruleMatchDestinationAddress_def by blast+
qed

text \<open>Whether \<^verbatim>\<open>DidMatch\<close> has been set on the way.\<close>

definition mark :: "bool \<Rightarrow> inbound_context \<Rightarrow> inbound_context" where
  "mark p m = (if p then didMatch m else m)"

lemma mark_simps [simp]:
  "mark p (mark q m) = mark (q \<or> p) m"
  "didMatch (mark p m) = didMatch m"
  "mark False m = m"
  "mark True m = didMatch m"
  "mark p (didMatch m) = didMatch m"
  "matchAnyItem E its (mark p m) = matchAnyItem E its m"
  "item_Match E it (mark p m) = item_Match E it m"
  "destinationIPCIDRMatchesSource r (mark p m) = destinationIPCIDRMatchesSource r m"
  "destinationIPCIDRMatchesDestination r (mark p m) = destinationIPCIDRMatchesDestination r m"
  "state_allowed r (mark p m) = state_allowed r m"
  "m_IgnoreDestinationIPCIDRMatch (mark p m) = m_IgnoreDestinationIPCIDRMatch m"
  "m_DidMatch (mark p m) \<longleftrightarrow> p \<or> m_DidMatch m"
  by (simp_all add: mark_def)

lemma match_group_eq:
  "match_group E (its \<noteq> []) its flag (b, m) =
     (b OR (if matchAnyItem E its m then flag else 0), mark (its \<noteq> []) m)"
  by (cases "its = []") (simp_all add: match_group_def)

lemma match_ipcidr_group_eq:
  assumes "has b flag \<Longrightarrow> b OR flag = b"
  shows "match_ipcidr_group E applies its flag (b, m) =
     (b OR (if applies m \<and> matchAnyItem E its m then flag else 0), mark (applies m) m)"
  using assms by (auto simp: match_ipcidr_group_def)

lemmas match_ipcidr_group_eqs =
  match_ipcidr_group_eq [OF has_absorb(1)] match_ipcidr_group_eq [OF has_absorb(2)]

lemma or_if: "(if P then y else 0) OR (if Q then y else 0) OR (z :: 8 word) =
   (if P \<or> Q then y else 0) OR z"
  by (simp add: or.assoc [symmetric])

lemma group_state_eq:
  "group_state E r m b = (b OR group_bits E r m, mark (groups_present r m) m)"
  unfolding group_state_def Let_def
  by (simp add: match_group_eq match_ipcidr_group_eqs or.assoc or_if group_bits_def
      sourceAddressHit_def destinationAddressHit_def groups_present_def
      requiresSourceAddressMatch_def requiresDestinationAddressMatch_def disj_assoc split del: if_split)
    (auto simp: mark_def)

lemma match_all_items_eq:
  "match_all_items E its m =
     (list_all (\<lambda>it. item_Match E it m) its, mark (its \<noteq> []) m)"
  by (induction its arbitrary: m) auto

definition rule_states ::
  "env \<Rightarrow> rs_eval \<Rightarrow> ('act, 'x) abstractDefaultRule_scheme \<Rightarrow> inbound_context \<Rightarrow> ruleMatchState
   \<Rightarrow> ruleMatchStateSet" where
  "rule_states E rs r m base =
     filter_states
       (case ruleSetItem r of
          Some it \<Rightarrow> rs it (didMatch m) (base OR group_bits E r m)
        | None \<Rightarrow> singleRuleMatchState (base OR group_bits E r m))
       (state_allowed r m)"

definition all_items_match ::
  "env \<Rightarrow> ('act, 'x) abstractDefaultRule_scheme \<Rightarrow> inbound_context \<Rightarrow> bool" where
  "all_items_match E r m = list_all (\<lambda>it. item_Match E it m) (items r)"

text \<open>
  The branch of the inverted rule that matches although nothing failed: \<^verbatim>\<open>ip_cidr\<close> items are to be
  ignored, and no other condition has been looked at.
\<close>

definition ignored_only ::
  "('act, 'x) abstractDefaultRule_scheme \<Rightarrow> inbound_context \<Rightarrow> bool" where
  "ignored_only r m \<longleftrightarrow> m_IgnoreDestinationIPCIDRMatch m \<and> \<not> m_DidMatch m \<and>
     \<not> groups_present r m \<and> items r = [] \<and> ruleSetItem r = None \<and> destinationIPCIDRItems r \<noteq> []"

lemma default_matchStatesWithBase_eq:
  "fst (default_matchStatesWithBase E rs r m b) =
     (if no_items r then withBase emptyRuleMatchState b
      else let S = rule_states E rs r m (if invert r then 0 else b)
           in if \<not> all_items_match E r m \<or> S = 0 then invertedFailure r b
              else if invert r then
                (if ignored_only r m \<and> S = emptyRuleMatchState
                 then withBase emptyRuleMatchState b else 0)
              else S)"
  by (auto simp: default_matchStatesWithBase_def group_state_eq match_all_items_eq
      all_items_match_def rule_states_def isEmpty_def ignored_only_def Let_def split: option.splits)

lemma default_matchStatesWithBase_metadata:
  "\<exists>p. snd (default_matchStatesWithBase E rs r m b) = mark p m"
  by (cases "no_items r"; cases "ruleSetItem r";
      simp add: default_matchStatesWithBase_def group_state_eq match_all_items_eq Let_def)
    (metis mark_simps(3,4))+

lemma group_bits_less16 [simp]: "group_bits E r m < 16"
  by (auto simp: group_bits_def intro!: or_less16)

lemma has_group_bits [simp]:
  "has (group_bits E r m) ruleMatchSourceAddress = sourceAddressHit E r m"
  "has (group_bits E r m) ruleMatchSourcePort = matchAnyItem E (sourcePortItems r) m"
  "has (group_bits E r m) ruleMatchDestinationAddress = destinationAddressHit E r m"
  "has (group_bits E r m) ruleMatchDestinationPort = matchAnyItem E (destinationPortItems r) m"
  by (simp_all add: group_bits_def has_or)

lemma state_allowed_iff:
  "state_allowed r m s \<longleftrightarrow>
     (requiresSourceAddressMatch r m \<longrightarrow> has s ruleMatchSourceAddress) \<and>
     (sourcePortItems r \<noteq> [] \<longrightarrow> has s ruleMatchSourcePort) \<and>
     (requiresDestinationAddressMatch r m \<longrightarrow> has s ruleMatchDestinationAddress) \<and>
     (destinationPortItems r \<noteq> [] \<longrightarrow> has s ruleMatchDestinationPort)"
  by (auto simp: state_allowed_def)

lemma states_of_rule_states:
  "b < 16 \<Longrightarrow> states_of (rule_states E rs r m b) =
     {s \<in> (case ruleSetItem r of
             Some it \<Rightarrow> states_of (rs it (didMatch m) (b OR group_bits E r m))
           | None \<Rightarrow> {b OR group_bits E r m}). state_allowed r m s}"
  by (auto simp: rule_states_def or_less16 split: option.splits)

subsection \<open>What a default rule means\<close>

text \<open>
  The documented reading of a default rule: the conditions fall into groups; in a group one
  condition has to hold, all groups have to hold, and every other condition has to hold.
  \<^verbatim>\<open>ip_cidr\<close> conditions belong to the destination group, or to the source group when the metadata
  says so, or nowhere when they are to be ignored.
\<close>

definition source_group ::
  "('act, 'x) abstractDefaultRule_scheme \<Rightarrow> inbound_context \<Rightarrow> rule_item list" where
  "source_group r m = sourceAddressItems r @
     (if \<not> m_IgnoreDestinationIPCIDRMatch m \<and> m_IPCIDRMatchSource m
      then destinationIPCIDRItems r else [])"

definition destination_group ::
  "('act, 'x) abstractDefaultRule_scheme \<Rightarrow> inbound_context \<Rightarrow> rule_item list" where
  "destination_group r m = destinationAddressItems r @
     (if \<not> m_IgnoreDestinationIPCIDRMatch m \<and> \<not> m_IPCIDRMatchSource m
      then destinationIPCIDRItems r else [])"

definition group_ok :: "env \<Rightarrow> rule_item list \<Rightarrow> inbound_context \<Rightarrow> bool" where
  "group_ok E its m \<longleftrightarrow> its = [] \<or> list_ex (\<lambda>it. item_Match E it m) its"

definition documented_match ::
  "env \<Rightarrow> ('act, 'x) abstractDefaultRule_scheme \<Rightarrow> inbound_context \<Rightarrow> bool" where
  "documented_match E r m \<longleftrightarrow>
     group_ok E (destination_group r m) m \<and> group_ok E (destinationPortItems r) m \<and>
     group_ok E (source_group r m) m \<and> group_ok E (sourcePortItems r) m \<and>
     list_all (\<lambda>it. item_Match E it m) (items r)"

lemma hit_groups [engine_simps]:
  "sourceAddressHit E r m = matchAnyItem E (source_group r m) m"
  "destinationAddressHit E r m = matchAnyItem E (destination_group r m) m"
  "requiresSourceAddressMatch r m = (source_group r m \<noteq> [])"
  "requiresDestinationAddressMatch r m = (destination_group r m \<noteq> [])"
  by (auto simp: sourceAddressHit_def destinationAddressHit_def source_group_def
      destination_group_def destinationIPCIDRMatchesSource_def
      destinationIPCIDRMatchesDestination_def requiresSourceAddressMatch_def
      requiresDestinationAddressMatch_def matchAnyItem_def)

lemma allowed_group_bits:
  "state_allowed r m (b OR group_bits E r m) \<longleftrightarrow>
     (has b ruleMatchSourceAddress \<or> group_ok E (source_group r m) m) \<and>
     (has b ruleMatchSourcePort \<or> group_ok E (sourcePortItems r) m) \<and>
     (has b ruleMatchDestinationAddress \<or> group_ok E (destination_group r m) m) \<and>
     (has b ruleMatchDestinationPort \<or> group_ok E (destinationPortItems r) m)"
  by (auto simp: state_allowed_iff has_or hit_groups group_ok_def matchAnyItem_def)

lemma no_items_documented: "no_items r \<Longrightarrow> documented_match E r m"
  by (simp add: no_items_def documented_match_def group_ok_def source_group_def
      destination_group_def slot_items_def)

lemma emptyRuleMatchState_neq_0 [simp]: "emptyRuleMatchState \<noteq> 0"
  using states_of_emptyRuleMatchState by fastforce

lemma withBase_empty_neq_0 [simp]: "b < 16 \<Longrightarrow> withBase emptyRuleMatchState b \<noteq> 0"
  by (simp add: state_set_simps)

lemma rule_states_plain:
  "ruleSetItem r = None \<Longrightarrow> b < 16 \<Longrightarrow>
   states_of (rule_states E rs r m b) =
     (if state_allowed r m (b OR group_bits E r m) then {b OR group_bits E r m} else {})"
  by (auto simp: states_of_rule_states)

lemma default_Match_plain:
  assumes "ruleSetItem r = None"
    and "invert r \<Longrightarrow> \<not> m_IgnoreDestinationIPCIDRMatch m \<and> entries r \<noteq> []"
  shows "fst (default_Match E rs r m) \<longleftrightarrow> documented_match E r m \<noteq> invert r"
proof -
  have nz: "rule_states E rs r m 0 = 0 \<longleftrightarrow> \<not> state_allowed r m (group_bits E r m)"
    using rule_states_plain [OF assms(1), of 0 E rs m]
    by (simp add: states_of_empty_iff [symmetric] del: states_of_empty_iff)
  have doc: "documented_match E r m \<longleftrightarrow> state_allowed r m (group_bits E r m) \<and> all_items_match E r m"
    using allowed_group_bits [of r m 0 E]
    by (auto simp: documented_match_def all_items_match_def)
  show ?thesis
    using assms no_items_documented [of r E m]
    by (auto simp: default_Match_def default_matchStates_def case_prod_unfold isEmpty_def
        default_matchStatesWithBase_eq Let_def invertedFailure_def nz doc ignored_only_def
        no_items_def)
qed

subsection \<open>Loops that merge state sets\<close>

text \<open>
  The loops over the rules of a rule set, over the rule sets of an item and over the sub-rules of
  an \<^verbatim>\<open>or\<close> have one contract: the state sets of the elements are merged into an empty one.
\<close>

locale merging_loop =
  fixes run :: "'x list \<Rightarrow> ruleMatchStateSet"
    and each :: "'x \<Rightarrow> ruleMatchStateSet"
  assumes run_eq: "run xs = foldl (\<lambda>stateSet x. merge stateSet (each x)) 0 xs"
begin

lemma states_run: "states_of (run xs) = (\<Union>x \<in> set xs. states_of (each x))"
proof -
  have "foldl (\<lambda>stateSet x. merge stateSet (each x)) s xs = foldl merge s (map each xs)" for s
    by (induction xs arbitrary: s) simp_all
  then show ?thesis by (simp add: run_eq ms.foldl_mrg_states)
qed

lemma run_empty_iff: "isEmpty (run xs) \<longleftrightarrow> (\<forall>x \<in> set xs. isEmpty (each x))"
  by (simp add: isEmpty_iff states_run del: states_of_empty_iff)

lemma run_set: "set xs = set ys \<Longrightarrow> run xs = run ys"
  by (simp add: states_of_inject [symmetric] states_run)

lemma run_append: "run (xs @ ys) = merge (run xs) (run ys)"
  by (simp add: states_of_inject [symmetric] states_run)

end

interpretation orl: merging_loop "logical_or_loop ev m b" "\<lambda>r. ev r (ResetRuleCache m) b" for ev m b
  by unfold_locales (simp add: logical_or_loop_def)

interpretation rsl: merging_loop "\<lambda>rules. rules_matchStatesWithBase ev rules m b"
    "\<lambda>r. ev r (ResetRuleMatchCache m) b" for ev m b
  by unfold_locales (simp add: rules_matchStatesWithBase_def)

definition rule_set_metadata :: "rule_set_item \<Rightarrow> inbound_context \<Rightarrow> inbound_context" where
  "rule_set_metadata r m = (ResetRuleMatchCache m)
     \<lparr>m_IPCIDRMatchSource := ipCidrMatchSource r, m_IPCIDRAcceptEmpty := ipCidrAcceptEmpty r\<rparr>"

interpretation rsi: merging_loop
    "\<lambda>tags. RuleSetItem_matchStatesWithBase ruleSet (r\<lparr>setList := tags\<rparr>) m b"
    "\<lambda>tag. ruleSet tag (rule_set_metadata r m) b" for ruleSet r m b
  by unfold_locales (simp add: RuleSetItem_matchStatesWithBase_def rule_set_metadata_def)

lemma states_of_RuleSetItem:
  "states_of (RuleSetItem_matchStatesWithBase ruleSet r m b) =
     (\<Union>tag \<in> set (setList r). states_of (ruleSet tag (rule_set_metadata r m) b))"
  using rsi.states_run [where ruleSet = ruleSet and r = r and m = m and b = b and xs = "setList r"]
  by simp

lemma rule_set_metadata_didMatch [simp]: "rule_set_metadata r (didMatch m) = rule_set_metadata r m"
  by (simp add: rule_set_metadata_def)

subsection \<open>Logical rules\<close>

lemma logical_and_loop_None:
  "logical_and_loop ev m b s rs = None \<longleftrightarrow> (\<exists>r \<in> set rs. isEmpty (ev r (ResetRuleCache m) b))"
  by (induction rs arbitrary: s) (auto simp: Let_def)

lemma logical_and_loop_neq_0:
  "logical_and_loop ev m b s rs = Some t \<Longrightarrow> s \<noteq> 0 \<Longrightarrow> t \<noteq> 0"
  by (induction rs arbitrary: s)
    (auto simp: Let_def isEmpty_def state_set_simps split: if_splits)

lemma logical_match_iff:
  assumes "b < 16"
  shows "\<not> isEmpty (logical_matchStatesWithBase ev rules mode neg m b) \<longleftrightarrow>
     ((if mode = LogicalTypeAnd then \<forall>r \<in> set rules. \<not> isEmpty (ev r (ResetRuleCache m) (if neg then 0 else b))
       else \<exists>r \<in> set rules. \<not> isEmpty (ev r (ResetRuleCache m) (if neg then 0 else b))) \<noteq> neg)"
proof -
  let ?b = "if neg then 0 else b"
  have "logical_and_loop ev m ?b (withBase emptyRuleMatchState ?b) rules \<noteq> Some 0"
    using logical_and_loop_neq_0 [of ev m ?b "withBase emptyRuleMatchState ?b" rules 0] assms
    by auto
  moreover have "logical_and_loop ev m ?b (withBase emptyRuleMatchState ?b) rules = None \<longleftrightarrow>
      (\<exists>r \<in> set rules. isEmpty (ev r (ResetRuleCache m) ?b))"
    by (rule logical_and_loop_None)
  moreover have "isEmpty (logical_or_loop ev m ?b rules) \<longleftrightarrow>
      (\<forall>r \<in> set rules. isEmpty (ev r (ResetRuleCache m) ?b))"
    by (rule orl.run_empty_iff)
  ultimately show ?thesis
    using assms unfolding logical_matchStatesWithBase_def Let_def
    by (auto simp: isEmpty_def [of "0"] isEmpty_def [of "withBase _ _"] isEmpty_def [of "the _"]
        split: option.splits) (auto simp: isEmpty_def)
qed

subsection \<open>Rules, headless rules and rule sets put together\<close>

type_synonym headless_rule = "(unit abstractDefaultRule, unit) rule"

text \<open>The rules of a rule set have no rule-set item (\<open>Rule_Build\<close>), so this value is never used.\<close>

definition no_rule_sets :: rs_eval where
  "no_rule_sets it m base = 0"

definition headless_matchStatesWithBase ::
  "env \<Rightarrow> headless_rule \<Rightarrow> inbound_context \<Rightarrow> ruleMatchState \<Rightarrow> ruleMatchStateSet" where
  "headless_matchStatesWithBase E =
     rule_matchStatesWithBase (\<lambda>d m base. fst (default_matchStatesWithBase E no_rule_sets d m base))"

definition rule_sets_eval :: "env \<Rightarrow> (string \<Rightarrow> headless_rule list) \<Rightarrow> rs_eval" where
  "rule_sets_eval E rulesOf =
     RuleSetItem_matchStatesWithBase
       (\<lambda>tag. rules_matchStatesWithBase (headless_matchStatesWithBase E) (rulesOf tag))"

text \<open>
  \<^verbatim>\<open>Match\<close> of a rule with its effect on the metadata: a logical rule works on copies, a default rule
  sets \<^verbatim>\<open>DidMatch\<close>.
\<close>

fun rule_Match ::
  "env \<Rightarrow> rs_eval \<Rightarrow> ('act abstractDefaultRule, 'act) rule \<Rightarrow> inbound_context
   \<Rightarrow> bool \<times> inbound_context" where
  "rule_Match E rs (DefaultRule d) m = default_Match E rs d m"
| "rule_Match E rs (LogicalRule rules mode neg act) m =
     (\<not> isEmpty (logical_matchStatesWithBase
        (rule_matchStatesWithBase (\<lambda>d m base. fst (default_matchStatesWithBase E rs d m base)))
        rules mode neg m 0), m)"

fun rule_Action :: "('act abstractDefaultRule, 'act) rule \<Rightarrow> 'act option" where
  "rule_Action (DefaultRule d) = action d"
| "rule_Action (LogicalRule rules mode neg act) = act"

lemma rule_Match_eq:
  "fst (rule_Match E rs r m) \<longleftrightarrow>
     \<not> isEmpty (rule_matchStatesWithBase
                 (\<lambda>d m base. fst (default_matchStatesWithBase E rs d m base)) r m 0)"
  by (cases r) (simp_all add: default_Match_def default_matchStates_def case_prod_unfold Let_def)

lemma rule_Match_metadata: "\<exists>p. snd (rule_Match E rs r m) = mark p m"
proof (cases r)
  case (DefaultRule d)
  then show ?thesis
    using default_matchStatesWithBase_metadata [of E rs d m 0]
    by (simp add: default_Match_def default_matchStates_def case_prod_unfold Let_def)
next
  case (LogicalRule x21 x22 x23 x24)
  then show ?thesis by (auto intro: exI [of _ False])
qed

lemma no_items_bits: "no_items r \<Longrightarrow> group_bits E r m = 0 \<and> all_items_match E r m \<and> state_allowed r m s"
  by (simp add: no_items_def group_bits_def sourceAddressHit_def destinationAddressHit_def
      slot_items_def all_items_match_def state_allowed_def requiresSourceAddressMatch_def
      requiresDestinationAddressMatch_def destinationIPCIDRMatchesSource_def
      destinationIPCIDRMatchesDestination_def)

lemma default_states_plain:
  assumes "ruleSetItem d = None" "\<not> invert d" "b < 16"
  shows "states_of (fst (default_matchStatesWithBase E rs d m b)) =
     (if all_items_match E d m \<and> state_allowed d m (b OR group_bits E d m)
      then {b OR group_bits E d m} else {})"
proof (cases "no_items d")
  case True
  then show ?thesis
    using assms no_items_bits [OF True, of E m] by (simp add: default_matchStatesWithBase_eq)
next
  case False
  let ?S = "rule_states E rs d m b"
  have "states_of ?S = (if state_allowed d m (b OR group_bits E d m)
      then {b OR group_bits E d m} else {})"
    using rule_states_plain [OF assms(1,3)] .
  moreover have "fst (default_matchStatesWithBase E rs d m b) =
      (if all_items_match E d m then ?S else 0)"
    using assms False by (simp add: default_matchStatesWithBase_eq Let_def invertedFailure_def)
  ultimately show ?thesis by (simp del: states_of_empty_iff)
qed

lemma default_Match_rule_set:
  assumes "ruleSetItem r = Some it"
  shows "fst (default_Match E rs r m) \<longleftrightarrow>
    (all_items_match E r m \<and>
     (\<exists>s \<in> states_of (rs it (didMatch m) (group_bits E r m)). state_allowed r m s)) \<noteq> invert r"
proof -
  have "rule_states E rs r m 0 = 0 \<longleftrightarrow>
      \<not> (\<exists>s \<in> states_of (rs it (didMatch m) (group_bits E r m)). state_allowed r m s)"
    using assms states_of_rule_states [of 0 E rs r m]
    by (auto simp flip: states_of_empty_iff)
  then show ?thesis
    using assms
    by (simp add: default_Match_def default_matchStates_def case_prod_unfold isEmpty_def
        default_matchStatesWithBase_eq Let_def invertedFailure_def ignored_only_def no_items_def)
qed

text \<open>
  A rule with a rule set is read as if the conditions of a rule of the set were its own: the groups
  of the two are joined.  The conditions of the set's rule are evaluated on the metadata \<open>m'\<close> the
  item passes on.
\<close>

definition joined_ok ::
  "env \<Rightarrow> rule_item list \<Rightarrow> inbound_context \<Rightarrow> rule_item list \<Rightarrow> inbound_context \<Rightarrow> bool" where
  "joined_ok E its m its' m' \<longleftrightarrow>
     its = [] \<and> its' = [] \<or>
     list_ex (\<lambda>it. item_Match E it m) its \<or> list_ex (\<lambda>it. item_Match E it m') its'"

definition merged_match ::
  "env \<Rightarrow> ('act, 'x) abstractDefaultRule_scheme \<Rightarrow> inbound_context
   \<Rightarrow> ('act2, 'y) abstractDefaultRule_scheme \<Rightarrow> inbound_context \<Rightarrow> bool" where
  "merged_match E r m d m' \<longleftrightarrow>
     joined_ok E (destination_group r m) m (destination_group d m') m' \<and>
     joined_ok E (destinationPortItems r) m (destinationPortItems d) m' \<and>
     joined_ok E (source_group r m) m (source_group d m') m' \<and>
     joined_ok E (sourcePortItems r) m (sourcePortItems d) m' \<and>
     list_all (\<lambda>it. item_Match E it m) (items r) \<and> list_all (\<lambda>it. item_Match E it m') (items d)"

lemma joined_ok_iff:
  "joined_ok E its m its' m' \<longleftrightarrow>
     (its' \<noteq> [] \<longrightarrow> list_ex (\<lambda>it. item_Match E it m) its \<or> list_ex (\<lambda>it. item_Match E it m') its') \<and>
     (its \<noteq> [] \<longrightarrow> list_ex (\<lambda>it. item_Match E it m) its \<or> list_ex (\<lambda>it. item_Match E it m') its')"
  by (cases its; cases its') (auto simp: joined_ok_def)

lemma merged_match_iff:
  "merged_match E r m d m' \<longleftrightarrow>
     all_items_match E r m \<and> all_items_match E d m' \<and>
     state_allowed d m' (group_bits E r m OR group_bits E d m') \<and>
     state_allowed r m (group_bits E r m OR group_bits E d m')"
  unfolding merged_match_def state_allowed_iff has_or has_group_bits hit_groups joined_ok_iff
    all_items_match_def matchAnyItem_def
  by (simp only: conj_ac)

lemma states_of_rule_sets_eval:
  assumes "\<And>tag h. tag \<in> set (setList it) \<Longrightarrow> h \<in> set (rulesOf tag) \<Longrightarrow>
      \<exists>d. h = DefaultRule d \<and> \<not> invert d \<and> ruleSetItem d = None"
    and "b < 16"
  shows "s \<in> states_of (rule_sets_eval E rulesOf it (didMatch m) b) \<longleftrightarrow>
    (\<exists>tag \<in> set (setList it). \<exists>d. DefaultRule d \<in> set (rulesOf tag) \<and>
       (let m' = rule_set_metadata it m in all_items_match E d m' \<and>
          state_allowed d m' (b OR group_bits E d m') \<and> s = b OR group_bits E d m'))"
proof -
  have rs: "ResetRuleMatchCache (rule_set_metadata it m) = rule_set_metadata it m"
    by (simp add: rule_set_metadata_def ResetRuleMatchCache_def)
  have "s \<in> states_of (headless_matchStatesWithBase E h (rule_set_metadata it m) b) \<longleftrightarrow>
     (\<exists>d. h = DefaultRule d \<and> (let m' = rule_set_metadata it m in all_items_match E d m' \<and>
          state_allowed d m' (b OR group_bits E d m') \<and> s = b OR group_bits E d m'))"
    if "tag \<in> set (setList it)" "h \<in> set (rulesOf tag)" for tag h
    using assms(1) [OF that] assms(2)
    by (auto simp: headless_matchStatesWithBase_def default_states_plain Let_def split: if_splits)
  then show ?thesis
    by (auto simp: rule_sets_eval_def states_of_RuleSetItem rsl.states_run rs)
qed

subsection \<open>Properties\<close>

text \<open>
  C1. A default rule without a rule set matches exactly when its documented formula holds: some
  condition of each address and port group that has any, and every other condition.  With
  \<^verbatim>\<open>invert\<close> it matches exactly when the formula fails, provided \<^verbatim>\<open>ip_cidr\<close> conditions are not being
  ignored and the rule has a condition.
\<close>

theorem default_rule_documented:
  assumes "ruleSetItem r = None"
    and "invert r \<longrightarrow> \<not> m_IgnoreDestinationIPCIDRMatch m \<and> entries r \<noteq> []"
  shows "fst (default_Match E rs r m) \<longleftrightarrow> documented_match E r m \<noteq> invert r"
  using assms by (intro default_Match_plain) auto

definition port_rule :: "16 word \<Rightarrow> bool \<Rightarrow> unit abstractDefaultRule" where
  "port_rule p neg = \<lparr>entries = [(DestinationPortItems, NewPortItem False [p])],
     ruleSetItem = None, invert = neg, action = None\<rparr>"

definition port_context :: "16 word \<Rightarrow> inbound_context" where
  "port_context p = InboundContextZero\<lparr>m_Destination := SocksaddrZero\<lparr>s_Port := p\<rparr>\<rparr>"

lemmas example_simps = port_rule_def port_context_def InboundContextZero_def SocksaddrZero_def
  documented_match_def group_ok_def source_group_def destination_group_def slot_items_def
  NewPortItem_def PortItem_Match_def

theorem default_rule_documented_witness:
  "ruleSetItem (port_rule 443 True) = None \<and>
   \<not> fst (default_Match plain_env no_rule_sets (port_rule 443 True) (port_context 443)) \<and>
   fst (default_Match plain_env no_rule_sets (port_rule 443 True) (port_context 80))"
  using default_rule_documented [of "port_rule 443 True" "port_context 443" plain_env no_rule_sets]
    default_rule_documented [of "port_rule 443 True" "port_context 80" plain_env no_rule_sets]
  by (simp add: example_simps)

text \<open>
  C2. A rule with rule sets whose rules are not inverted default rules matches exactly when, for
  some rule of some of its sets, the two rules read as one hold: their groups are joined, so that a
  condition of either one satisfies the group of both.  \<^verbatim>\<open>invert\<close> negates the whole.
\<close>

theorem rule_set_merge:
  assumes "ruleSetItem r = Some it"
    and "\<forall>tag \<in> set (setList it). \<forall>h \<in> set (rulesOf tag).
           \<exists>d. h = DefaultRule d \<and> \<not> invert d \<and> ruleSetItem d = None"
  shows "fst (default_Match E (rule_sets_eval E rulesOf) r m) \<longleftrightarrow>
     (\<exists>tag \<in> set (setList it). \<exists>d. DefaultRule d \<in> set (rulesOf tag) \<and>
        merged_match E r m d (rule_set_metadata it m)) \<noteq> invert r"
proof -
  have mem: "s \<in> states_of (rule_sets_eval E rulesOf it (didMatch m) (group_bits E r m)) \<longleftrightarrow>
      (\<exists>tag \<in> set (setList it). \<exists>d. DefaultRule d \<in> set (rulesOf tag) \<and>
        (let m' = rule_set_metadata it m in all_items_match E d m' \<and>
          state_allowed d m' (group_bits E r m OR group_bits E d m') \<and>
          s = group_bits E r m OR group_bits E d m'))" for s
    using assms(2) by (intro states_of_rule_sets_eval) auto
  have "(\<exists>s \<in> states_of (rule_sets_eval E rulesOf it (didMatch m) (group_bits E r m)).
        state_allowed r m s) \<and> all_items_match E r m \<longleftrightarrow>
      (\<exists>tag \<in> set (setList it). \<exists>d. DefaultRule d \<in> set (rulesOf tag) \<and>
        merged_match E r m d (rule_set_metadata it m))"
    unfolding merged_match_iff Bex_def mem Let_def by blast
  then show ?thesis
    by (simp add: default_Match_rule_set [OF assms(1)] conj_commute)
qed

theorem rule_set_merge_witness:
  "let it = \<lparr>tagList = [''s''], setList = [''s''], ipCidrMatchSource = False,
             ipCidrAcceptEmpty = False\<rparr>;
       r = port_rule 443 False\<lparr>ruleSetItem := Some it\<rparr>
   in fst (default_Match plain_env (rule_sets_eval plain_env (\<lambda>_. [DefaultRule (port_rule 80 False)]))
             r (port_context 80))"
proof -
  define it where "it = \<lparr>tagList = [''s''], setList = [''s''], ipCidrMatchSource = False,
             ipCidrAcceptEmpty = False\<rparr>"
  have sets: "\<forall>tag \<in> set (setList it). \<forall>h \<in> set [DefaultRule (port_rule 80 False)].
           \<exists>d. h = DefaultRule d \<and> \<not> invert d \<and> ruleSetItem d = None"
    by (simp add: port_rule_def)
  have "fst (default_Match plain_env (rule_sets_eval plain_env (\<lambda>_. [DefaultRule (port_rule 80 False)]))
             (port_rule 443 False\<lparr>ruleSetItem := Some it\<rparr>) (port_context 80))"
    using rule_set_merge [of "port_rule 443 False\<lparr>ruleSetItem := Some it\<rparr>" it
        "\<lambda>_. [DefaultRule (port_rule 80 False)]" plain_env "port_context 80", OF _ sets]
    by (simp add: it_def merged_match_def joined_ok_def rule_set_metadata_def
        ResetRuleMatchCache_def example_simps)
  then show ?thesis by (simp add: it_def)
qed

text \<open>
  C13. A logical rule matches exactly when all (mode \<^verbatim>\<open>and\<close>) or some (any other mode) of its rules
  match on a copy of the metadata with the rule cache reset; \<^verbatim>\<open>invert\<close> negates it.  The metadata of
  the caller is not changed.
\<close>

theorem logical_rule_documented:
  "rule_Match E rs (LogicalRule rules mode neg act) m =
     ((if mode = LogicalTypeAnd
       then list_all (\<lambda>r. fst (rule_Match E rs r (ResetRuleCache m))) rules
       else list_ex (\<lambda>r. fst (rule_Match E rs r (ResetRuleCache m))) rules) \<noteq> neg, m)"
  using logical_match_iff [of 0
      "rule_matchStatesWithBase (\<lambda>d m base. fst (default_matchStatesWithBase E rs d m base))"
      rules mode neg m]
  by (simp add: rule_Match_eq list_all_iff list_ex_iff)

text \<open>
  Matching a rule leaves every field of the metadata as it is but \<^verbatim>\<open>DidMatch\<close>, which it may set
  and never clears.
\<close>

theorem match_writes_only_DidMatch:
  "snd (rule_Match E rs r m) = m \<or> snd (rule_Match E rs r m) = m\<lparr>m_DidMatch := True\<rparr>"
  using rule_Match_metadata [of E rs r m] by (auto simp: mark_def didMatch_def)

text \<open>
  An inverted rule is evaluated on its own: what the enclosing rule has matched does not enter
  its conditions, and is added to its result.
\<close>

theorem inverted_rule_ignores_base:
  assumes "invert r" and "base < 16"
  shows "fst (default_matchStatesWithBase E rs r m base) =
         withBase (fst (default_matchStatesWithBase E rs r m 0)) base"
  using assms
  by (auto simp: default_matchStatesWithBase_eq Let_def invertedFailure_def ms.based_based
      withBase_def [of 0] isEmpty_def [of 0])

theorem inverted_rule_ignores_base_witness:
  "invert (port_rule 443 True) \<and> (2 :: ruleMatchState) < 16 \<and>
   fst (default_matchStatesWithBase plain_env no_rule_sets (port_rule 443 True) (port_context 443) 2) =
   withBase (fst (default_matchStatesWithBase plain_env no_rule_sets (port_rule 443 True)
                    (port_context 443) 0)) 2"
  using inverted_rule_ignores_base [of "port_rule 443 True" 2] by (simp add: port_rule_def)

end
