(* ===== verification/Rule_Build.thy ===== *)
theory Rule_Build
  imports Rule_Engine Rule_Action
begin

text \<open>
  From options to rules: \<^verbatim>\<open>route/rule/rule_default.go\<close>, \<^verbatim>\<open>rule_headless.go\<close>, the constructors of
  \<^verbatim>\<open>rule_dns.go\<close>, \<^verbatim>\<open>rule_nested_action.go\<close>, and the metadata of a rule set in \<^verbatim>\<open>rule_set.go\<close>.

  A constructor of a default rule is a sequence of blocks, each of which looks at one option and
  either adds an item to a group, does nothing or returns an error.  A block is a value of
  \<open>(slot \<times> rule_item) list res\<close>, and \<open>collect\<close> runs the blocks in order up to the first error.
\<close>

type_synonym block = "(slot \<times> rule_item) list res"

definition on_flag :: "bool \<Rightarrow> slot \<Rightarrow> rule_item \<Rightarrow> block" where
  "on_flag b s it = Inr (if b then [(s, it)] else [])"

definition on_flag_res :: "bool \<Rightarrow> slot \<Rightarrow> rule_item res \<Rightarrow> block" where
  "on_flag_res b s r = (if b then (case r of Inl e \<Rightarrow> Inl e | Inr it \<Rightarrow> Inr [(s, it)]) else Inr [])"

abbreviation on_list :: "'a listable \<Rightarrow> slot \<Rightarrow> ('a list \<Rightarrow> rule_item) \<Rightarrow> block" where
  "on_list l s f \<equiv> on_flag (elems l \<noteq> []) s (f (elems l))"

abbreviation on_list_res :: "'a listable \<Rightarrow> slot \<Rightarrow> ('a list \<Rightarrow> rule_item res) \<Rightarrow> block" where
  "on_list_res l s f \<equiv> on_flag_res (elems l \<noteq> []) s (f (elems l))"

definition fail_on :: "bool \<Rightarrow> string \<Rightarrow> block" where
  "fail_on b msg = (if b then Inl (New msg) else Inr [])"

definition collect :: "block list \<Rightarrow> block" where
  "collect bs = (case map_res (\<lambda>b. b) bs of Inl e \<Rightarrow> Inl e | Inr ess \<Rightarrow> Inr (concat ess))"

definition geosite_removed :: string where
  "geosite_removed = ''geosite database is deprecated in sing-box 1.8.0 and removed in sing-box 1.12.0''"

definition geoip_removed :: string where
  "geoip_removed = ''geoip database is deprecated in sing-box 1.8.0 and removed in sing-box 1.12.0''"

definition ruleset_source_removed :: string where
  "ruleset_source_removed = ''rule_set_ipcidr_match_source is deprecated in sing-box 1.10.0 and removed in sing-box 1.11.0''"

definition ip_version_block :: "int \<Rightarrow> block" where
  "ip_version_block v =
     (if v > 0 then
        (if v = 4 \<or> v = 6 then Inr [(Items, NewIPVersionItem (v = 6))]
         else Inl (New (''invalid ip version: '' @ itoa (nat v))))
      else Inr [])"

definition NewRuleSetItem :: "string list \<Rightarrow> bool \<Rightarrow> bool \<Rightarrow> rule_set_item" where
  "NewRuleSetItem tags ipCIDRMatchSource acceptEmpty =
     \<lparr>tagList = tags, setList = [], ipCidrMatchSource = ipCIDRMatchSource,
      ipCidrAcceptEmpty = acceptEmpty\<rparr>"

subsection \<open>Route rules\<close>

definition default_basic_blocks :: "'x RawDefaultRule_scheme \<Rightarrow> block list" where
  "default_basic_blocks opts = [
     on_list (r_Inbound opts) Items NewInboundRule,
     ip_version_block (r_IPVersion opts),
     on_list (r_Network opts) Items NewNetworkItem,
     on_list (r_AuthUser opts) Items NewAuthUserItem,
     on_list (r_Protocol opts) Items NewProtocolItem,
     on_list (r_Client opts) Items NewClientItem]"

definition default_address_blocks :: "env \<Rightarrow> 'x RawDefaultRule_scheme \<Rightarrow> block list" where
  "default_address_blocks E opts = [
     on_flag_res (elems (r_Domain opts) \<noteq> [] \<or> elems (r_DomainSuffix opts) \<noteq> [])
       DestinationAddressItems (NewDomainItem (elems (r_Domain opts)) (elems (r_DomainSuffix opts))),
     on_list (r_DomainKeyword opts) DestinationAddressItems NewDomainKeywordItem,
     on_list_res (r_DomainRegex opts) DestinationAddressItems (NewDomainRegexItem E),
     fail_on (elems (r_Geosite opts) \<noteq> []) geosite_removed,
     fail_on (elems (r_SourceGeoIP opts) \<noteq> []) geoip_removed,
     fail_on (elems (r_GeoIP opts) \<noteq> []) geoip_removed,
     on_list_res (r_SourceIPCIDR opts) SourceAddressItems
       (\<lambda>l. cause_res ''source_ip_cidr'' (NewIPCIDRItem E True l)),
     on_flag (r_SourceIPIsPrivate opts) SourceAddressItems (NewIPIsPrivateItem True),
     on_list_res (r_IPCIDR opts) DestinationIPCIDRItems
       (\<lambda>l. cause_res ''ipcidr'' (NewIPCIDRItem E False l)),
     on_flag (r_IPIsPrivate opts) DestinationIPCIDRItems (NewIPIsPrivateItem False)]"

definition default_port_blocks :: "'x RawDefaultRule_scheme \<Rightarrow> block list" where
  "default_port_blocks opts = [
     on_list (r_SourcePort opts) SourcePortItems (NewPortItem True),
     on_list_res (r_SourcePortRange opts) SourcePortItems
       (\<lambda>l. cause_res ''source_port_range'' (NewPortRangeItem True l)),
     on_list (r_Port opts) DestinationPortItems (NewPortItem False),
     on_list_res (r_PortRange opts) DestinationPortItems
       (\<lambda>l. cause_res ''port_range'' (NewPortRangeItem False l))]"

definition default_process_blocks :: "env \<Rightarrow> 'x RawDefaultRule_scheme \<Rightarrow> block list" where
  "default_process_blocks E opts = [
     on_list (r_ProcessName opts) Items NewProcessItem,
     on_list (r_ProcessPath opts) Items NewProcessPathItem,
     on_list_res (r_ProcessPathRegex opts) Items
       (\<lambda>l. cause_res ''process_path_regex'' (NewProcessPathRegexItem E l)),
     on_list (r_PackageName opts) Items NewPackageNameItem,
     on_list_res (r_PackageNameRegex opts) Items
       (\<lambda>l. cause_res ''package_name_regex'' (NewPackageNameRegexItem E l)),
     on_list (r_User opts) Items NewUserItem,
     on_list (r_UserID opts) Items NewUserIDItem]"

definition default_network_blocks :: "env \<Rightarrow> 'x RawDefaultRule_scheme \<Rightarrow> block list" where
  "default_network_blocks E opts = [
     on_flag (r_ClashMode opts \<noteq> []) Items (NewClashModeItem (r_ClashMode opts)),
     on_list (r_NetworkType opts) Items NewNetworkTypeItem,
     on_flag (r_NetworkIsExpensive opts) Items NewNetworkIsExpensiveItem,
     on_flag (r_NetworkIsConstrained opts) Items NewNetworkIsConstrainedItem,
     on_list (r_WIFISSID opts) Items NewWIFISSIDItem,
     on_list (r_WIFIBSSID opts) Items (NewWIFIBSSIDItem E),
     on_list (r_InterfaceAddress opts) Items NewInterfaceAddressItem,
     on_list (r_NetworkInterfaceAddress opts) Items NewNetworkInterfaceAddressItem,
     on_list (r_DefaultInterfaceAddress opts) Items NewDefaultInterfaceAddressItem,
     on_list (r_SourceMACAddress opts) Items (NewSourceMACAddressItem E),
     on_list (r_SourceHostname opts) Items NewSourceHostnameItem,
     on_list (r_PreferredBy opts) Items NewPreferredByItem]"

definition default_blocks :: "env \<Rightarrow> 'x RawDefaultRule_scheme \<Rightarrow> block list" where
  "default_blocks E opts = default_basic_blocks opts @ default_address_blocks E opts @
     default_port_blocks opts @ default_process_blocks E opts @ default_network_blocks E opts"

text \<open>The block on \<^verbatim>\<open>options.RuleSet\<close>.\<close>

definition rule_set_block :: "string listable \<Rightarrow> bool \<Rightarrow> bool \<Rightarrow> bool \<Rightarrow> rule_set_item option res" where
  "rule_set_block tags removed matchSource acceptEmpty =
     (if elems tags \<noteq> [] then
        (if removed then Inl (New ruleset_source_removed)
         else Inr (Some (NewRuleSetItem (elems tags) matchSource acceptEmpty)))
      else Inr None)"

definition NewDefaultRule ::
  "action_env \<Rightarrow> env \<Rightarrow> DefaultRuleOptions \<Rightarrow> rule_action abstractDefaultRule res" where
  "NewDefaultRule A E opts =
     bind_res (cause_res ''action'' (NewRuleAction A (r_RuleAction opts))) (\<lambda>act.
     bind_res (collect (default_blocks E opts)) (\<lambda>es.
     bind_res (rule_set_block (r_RuleSet opts) (r_Deprecated_RulesetIPCIDRMatchSource opts)
                 (r_RuleSetIPCIDRMatchSource opts) False) (\<lambda>rsi.
     Inr \<lparr>entries = es, ruleSetItem = rsi, invert = r_Invert opts, action = act\<rparr>)))"

subsection \<open>No actions in nested rules\<close>

definition ruleHasConfiguredAction :: "rule_options \<Rightarrow> bool" where
  "ruleHasConfiguredAction r =
     (if or_Type r = [] \<or> or_Type r = RuleTypeDefault
      then r_RuleAction (or_DefaultOptions r) \<noteq> RuleActionOptions_zero
      else if or_Type r = RuleTypeLogical then or_RuleAction r \<noteq> RuleActionOptions_zero
      else False)"

definition dnsRuleHasConfiguredAction :: "dns_rule_options \<Rightarrow> bool" where
  "dnsRuleHasConfiguredAction r =
     (if or_Type r = [] \<or> or_Type r = RuleTypeDefault
      then dr_DNSRuleAction (or_DefaultOptions r) \<noteq> DNSRuleActionOptions_zero
      else if or_Type r = RuleTypeLogical then or_RuleAction r \<noteq> DNSRuleActionOptions_zero
      else False)"

definition RouteRuleActionNestedUnsupportedMessage :: string where
  "RouteRuleActionNestedUnsupportedMessage = ''rule action is not supported in nested rules''"

definition DNSRuleActionNestedUnsupportedMessage :: string where
  "DNSRuleActionNestedUnsupportedMessage = ''DNS rule action is not supported in nested rules''"

fun validateNoNestedRuleActions :: "rule_options \<Rightarrow> bool \<Rightarrow> unit res" where
  "validateNoNestedRuleActions r nested =
     (if nested \<and> ruleHasConfiguredAction r
      then Inl (New RouteRuleActionNestedUnsupportedMessage)
      else if or_Type r \<noteq> RuleTypeLogical then Inr ()
      else (case map_res_idx ''sub rule['' '']'' 0
                   (\<lambda>sub. validateNoNestedRuleActions sub True) (or_Rules r) of
              Inl e \<Rightarrow> Inl e | Inr _ \<Rightarrow> Inr ()))"

fun validateNoNestedDNSRuleActions :: "dns_rule_options \<Rightarrow> bool \<Rightarrow> unit res" where
  "validateNoNestedDNSRuleActions r nested =
     (if nested \<and> dnsRuleHasConfiguredAction r
      then Inl (New DNSRuleActionNestedUnsupportedMessage)
      else if or_Type r \<noteq> RuleTypeLogical then Inr ()
      else (case map_res_idx ''sub rule['' '']'' 0
                   (\<lambda>sub. validateNoNestedDNSRuleActions sub True) (or_Rules r) of
              Inl e \<Rightarrow> Inl e | Inr _ \<Rightarrow> Inr ()))"

declare validateNoNestedRuleActions.simps [simp del]
declare validateNoNestedDNSRuleActions.simps [simp del]

subsection \<open>Route rules, continued\<close>

type_synonym route_rule = "(rule_action abstractDefaultRule, rule_action) rule"

definition missing_conditions :: error where "missing_conditions = New ''missing conditions''"

definition logical_mode :: "string \<Rightarrow> string res" where
  "logical_mode mode =
     (if mode = LogicalTypeAnd then Inr LogicalTypeAnd
      else if mode = LogicalTypeOr then Inr LogicalTypeOr
      else Inl (New (''unknown logical mode: '' @ mode)))"

definition missing_outbound :: "RuleActionOptions \<Rightarrow> bool \<Rightarrow> bool" where
  "missing_outbound act checkOutbound \<longleftrightarrow>
     (ra_Action act = [] \<or> ra_Action act = RuleActionTypeRoute) \<and>
     ro_Outbound (ra_RouteOptions act) = [] \<and> checkOutbound"

fun NewRule :: "action_env \<Rightarrow> env \<Rightarrow> rule_options \<Rightarrow> bool \<Rightarrow> route_rule res"
  and NewLogicalRule :: "action_env \<Rightarrow> env \<Rightarrow> rule_options \<Rightarrow> route_rule res" where
  "NewRule A E opts checkOutbound =
     (if or_Type opts = [] \<or> or_Type opts = RuleTypeDefault then
        (if \<not> DefaultRule_IsValid (or_DefaultOptions opts) then Inl missing_conditions
         else if missing_outbound (r_RuleAction (or_DefaultOptions opts)) checkOutbound
         then Inl (New ''missing outbound field'')
         else (case NewDefaultRule A E (or_DefaultOptions opts) of
                 Inl e \<Rightarrow> Inl e | Inr r \<Rightarrow> Inr (DefaultRule r)))
      else if or_Type opts = RuleTypeLogical then
        bind_res (LogicalRule_IsValid opts) (\<lambda>valid.
          if \<not> valid then Inl missing_conditions
          else if missing_outbound (or_RuleAction opts) checkOutbound
          then Inl (New ''missing outbound field'')
          else NewLogicalRule A E opts)
      else Inl (New (''unknown rule type: '' @ or_Type opts)))"
| "NewLogicalRule A E opts =
     bind_res (cause_res ''action'' (NewRuleAction A (or_RuleAction opts))) (\<lambda>act.
     bind_res (logical_mode (or_Mode opts)) (\<lambda>mode.
     bind_res (map_res_idx ''sub rule['' '']'' 0
                 (\<lambda>sub. bind_res (validateNoNestedRuleActions sub True)
                                (\<lambda>_. NewRule A E sub False)) (or_Rules opts)) (\<lambda>rules.
     Inr (LogicalRule rules mode (or_Invert opts) act))))"

declare NewRule.simps [simp del] NewLogicalRule.simps [simp del]

subsection \<open>Rules of a rule set\<close>

definition headless_address_blocks :: "env \<Rightarrow> DefaultHeadlessRuleOptions \<Rightarrow> block list" where
  "headless_address_blocks E opts = [
     on_list (hr_QueryType opts) Items NewQueryTypeItem,
     on_list (hr_Network opts) Items NewNetworkItem,
     (if elems (hr_Domain opts) \<noteq> [] \<or> elems (hr_DomainSuffix opts) \<noteq> []
      then on_flag_res True DestinationAddressItems
             (NewDomainItem (elems (hr_Domain opts)) (elems (hr_DomainSuffix opts)))
      else on_flag (hr_DomainMatcher opts \<noteq> None) DestinationAddressItems
             (NewRawDomainItem (the (hr_DomainMatcher opts)))),
     on_list (hr_DomainKeyword opts) DestinationAddressItems NewDomainKeywordItem,
     on_list_res (hr_DomainRegex opts) DestinationAddressItems
       (\<lambda>l. cause_res ''domain_regex'' (NewDomainRegexItem E l)),
     (if elems (hr_SourceIPCIDR opts) \<noteq> []
      then on_flag_res True SourceAddressItems
             (cause_res ''source_ip_cidr'' (NewIPCIDRItem E True (elems (hr_SourceIPCIDR opts))))
      else on_flag (hr_SourceIPSet opts \<noteq> None) SourceAddressItems
             (NewRawIPCIDRItem True (the (hr_SourceIPSet opts)))),
     (if elems (hr_IPCIDR opts) \<noteq> []
      then on_flag_res True DestinationIPCIDRItems
             (cause_res ''ipcidr'' (NewIPCIDRItem E False (elems (hr_IPCIDR opts))))
      else on_flag (hr_IPSet opts \<noteq> None) DestinationIPCIDRItems
             (NewRawIPCIDRItem False (the (hr_IPSet opts))))]"

definition headless_port_process_blocks :: "env \<Rightarrow> DefaultHeadlessRuleOptions \<Rightarrow> block list" where
  "headless_port_process_blocks E opts = [
     on_list (hr_SourcePort opts) SourcePortItems (NewPortItem True),
     on_list_res (hr_SourcePortRange opts) SourcePortItems
       (\<lambda>l. cause_res ''source_port_range'' (NewPortRangeItem True l)),
     on_list (hr_Port opts) DestinationPortItems (NewPortItem False),
     on_list_res (hr_PortRange opts) DestinationPortItems
       (\<lambda>l. cause_res ''port_range'' (NewPortRangeItem False l)),
     on_list (hr_ProcessName opts) Items NewProcessItem,
     on_list (hr_ProcessPath opts) Items NewProcessPathItem,
     on_list_res (hr_ProcessPathRegex opts) Items
       (\<lambda>l. cause_res ''process_path_regex'' (NewProcessPathRegexItem E l)),
     on_list (hr_PackageName opts) Items NewPackageNameItem,
     on_list_res (hr_PackageNameRegex opts) Items
       (\<lambda>l. cause_res ''package_name_regex'' (NewPackageNameRegexItem E l))]"

text \<open>The blocks inside \<^verbatim>\<open>if networkManager != nil\<close>, and the AdGuard block.\<close>

definition headless_network_blocks :: "env \<Rightarrow> bool \<Rightarrow> DefaultHeadlessRuleOptions \<Rightarrow> block list" where
  "headless_network_blocks E networkManager opts =
     (if networkManager then [
        on_list (hr_NetworkType opts) Items NewNetworkTypeItem,
        on_flag (hr_NetworkIsExpensive opts) Items NewNetworkIsExpensiveItem,
        on_flag (hr_NetworkIsConstrained opts) Items NewNetworkIsConstrainedItem,
        on_list (hr_WIFISSID opts) Items NewWIFISSIDItem,
        on_list (hr_WIFIBSSID opts) Items (NewWIFIBSSIDItem E),
        on_list (hr_NetworkInterfaceAddress opts) Items NewNetworkInterfaceAddressItem,
        on_list (hr_DefaultInterfaceAddress opts) Items NewDefaultInterfaceAddressItem]
      else [])"

definition headless_adguard_block :: "DefaultHeadlessRuleOptions \<Rightarrow> block" where
  "headless_adguard_block opts =
     (if elems (hr_AdGuardDomain opts) \<noteq> []
      then on_flag True DestinationAddressItems (NewAdGuardDomainItem (elems (hr_AdGuardDomain opts)))
      else on_flag (hr_AdGuardDomainMatcher opts \<noteq> None) DestinationAddressItems
             (NewRawAdGuardDomainItem (the (hr_AdGuardDomainMatcher opts))))"

definition headless_blocks :: "env \<Rightarrow> bool \<Rightarrow> DefaultHeadlessRuleOptions \<Rightarrow> block list" where
  "headless_blocks E networkManager opts =
     headless_address_blocks E opts @ headless_port_process_blocks E opts @
     headless_network_blocks E networkManager opts @ [headless_adguard_block opts]"

definition NewDefaultHeadlessRule ::
  "env \<Rightarrow> bool \<Rightarrow> DefaultHeadlessRuleOptions \<Rightarrow> unit abstractDefaultRule res" where
  "NewDefaultHeadlessRule E networkManager opts =
     bind_res (collect (headless_blocks E networkManager opts)) (\<lambda>es.
     Inr \<lparr>entries = es, ruleSetItem = None, invert = hr_Invert opts, action = None\<rparr>)"

fun NewHeadlessRule :: "env \<Rightarrow> bool \<Rightarrow> headless_options \<Rightarrow> headless_rule res"
  and NewLogicalHeadlessRule :: "env \<Rightarrow> bool \<Rightarrow> headless_options \<Rightarrow> headless_rule res" where
  "NewHeadlessRule E nm opts =
     (if or_Type opts = [] \<or> or_Type opts = RuleTypeDefault then
        (if \<not> DefaultHeadlessRule_IsValid (or_DefaultOptions opts) then Inl missing_conditions
         else (case NewDefaultHeadlessRule E nm (or_DefaultOptions opts) of
                 Inl e \<Rightarrow> Inl e | Inr r \<Rightarrow> Inr (DefaultRule r)))
      else if or_Type opts = RuleTypeLogical then
        bind_res (LogicalHeadlessRule_IsValid opts) (\<lambda>valid.
          if \<not> valid then Inl missing_conditions else NewLogicalHeadlessRule E nm opts)
      else Inl (New (''unknown rule type: '' @ or_Type opts)))"
| "NewLogicalHeadlessRule E nm opts =
     bind_res (logical_mode (or_Mode opts)) (\<lambda>mode.
     bind_res (map_res_idx ''sub rule['' '']'' 0 (NewHeadlessRule E nm) (or_Rules opts)) (\<lambda>rules.
     Inr (LogicalRule rules mode (or_Invert opts) None)))"

declare NewHeadlessRule.simps [simp del] NewLogicalHeadlessRule.simps [simp del]

subsection \<open>DNS rules\<close>

record DefaultDNSRule = "rule_action abstractDefaultRule" +
  matchResponse :: bool

type_synonym dns_rule = "(DefaultDNSRule, rule_action) rule"

definition dns_basic_blocks :: "'x RawDefaultDNSRule_scheme \<Rightarrow> block list" where
  "dns_basic_blocks opts = [
     on_list (dr_Inbound opts) Items NewInboundRule,
     ip_version_block (dr_IPVersion opts),
     on_list (dr_QueryType opts) Items NewQueryTypeItem,
     on_list (dr_Network opts) Items NewNetworkItem,
     on_list (dr_AuthUser opts) Items NewAuthUserItem,
     on_list (dr_Protocol opts) Items NewProtocolItem]"

definition dns_address_blocks :: "env \<Rightarrow> 'x RawDefaultDNSRule_scheme \<Rightarrow> block list" where
  "dns_address_blocks E opts = [
     on_flag_res (elems (dr_Domain opts) \<noteq> [] \<or> elems (dr_DomainSuffix opts) \<noteq> [])
       DestinationAddressItems (NewDomainItem (elems (dr_Domain opts)) (elems (dr_DomainSuffix opts))),
     on_list (dr_DomainKeyword opts) DestinationAddressItems NewDomainKeywordItem,
     on_list_res (dr_DomainRegex opts) DestinationAddressItems
       (\<lambda>l. cause_res ''domain_regex'' (NewDomainRegexItem E l)),
     fail_on (elems (dr_Geosite opts) \<noteq> []) geosite_removed,
     fail_on (elems (dr_SourceGeoIP opts) \<noteq> []) geoip_removed,
     fail_on (elems (dr_GeoIP opts) \<noteq> []) geoip_removed,
     on_list_res (dr_SourceIPCIDR opts) SourceAddressItems
       (\<lambda>l. cause_res ''source_ip_cidr'' (NewIPCIDRItem E True l)),
     on_list_res (dr_IPCIDR opts) DestinationIPCIDRItems
       (\<lambda>l. cause_res ''ip_cidr'' (NewIPCIDRItem E False l)),
     on_flag (dr_SourceIPIsPrivate opts) SourceAddressItems (NewIPIsPrivateItem True),
     on_flag (dr_IPIsPrivate opts) DestinationIPCIDRItems (NewIPIsPrivateItem False),
     on_flag (dr_IPAcceptAny opts) DestinationIPCIDRItems NewIPAcceptAnyItem]"

definition dns_response_port_blocks :: "'x RawDefaultDNSRule_scheme \<Rightarrow> block list" where
  "dns_response_port_blocks opts = [
     on_flag (dr_ResponseRcode opts \<noteq> None) Items
       (NewDNSResponseRCodeItem (the (dr_ResponseRcode opts))),
     on_list (dr_ResponseAnswer opts) Items
       (\<lambda>l. NewDNSResponseRecordItem ''response_answer'' l SectionAnswer),
     on_list (dr_ResponseNs opts) Items
       (\<lambda>l. NewDNSResponseRecordItem ''response_ns'' l SectionNs),
     on_list (dr_ResponseExtra opts) Items
       (\<lambda>l. NewDNSResponseRecordItem ''response_extra'' l SectionExtra),
     on_list (dr_SourcePort opts) SourcePortItems (NewPortItem True),
     on_list_res (dr_SourcePortRange opts) SourcePortItems
       (\<lambda>l. cause_res ''source_port_range'' (NewPortRangeItem True l)),
     on_list (dr_Port opts) DestinationPortItems (NewPortItem False),
     on_list_res (dr_PortRange opts) DestinationPortItems
       (\<lambda>l. cause_res ''port_range'' (NewPortRangeItem False l))]"

definition dns_process_blocks :: "env \<Rightarrow> 'x RawDefaultDNSRule_scheme \<Rightarrow> block list" where
  "dns_process_blocks E opts = [
     on_list (dr_ProcessName opts) Items NewProcessItem,
     on_list (dr_ProcessPath opts) Items NewProcessPathItem,
     on_list_res (dr_ProcessPathRegex opts) Items
       (\<lambda>l. cause_res ''process_path_regex'' (NewProcessPathRegexItem E l)),
     on_list (dr_PackageName opts) Items NewPackageNameItem,
     on_list_res (dr_PackageNameRegex opts) Items
       (\<lambda>l. cause_res ''package_name_regex'' (NewPackageNameRegexItem E l)),
     on_list (dr_User opts) Items NewUserItem,
     on_list (dr_UserID opts) Items NewUserIDItem,
     on_list (dr_Outbound opts) Items NewOutboundRule]"

definition dns_network_blocks :: "env \<Rightarrow> 'x RawDefaultDNSRule_scheme \<Rightarrow> block list" where
  "dns_network_blocks E opts = [
     on_flag (dr_ClashMode opts \<noteq> []) Items (NewClashModeItem (dr_ClashMode opts)),
     on_list (dr_NetworkType opts) Items NewNetworkTypeItem,
     on_flag (dr_NetworkIsExpensive opts) Items NewNetworkIsExpensiveItem,
     on_flag (dr_NetworkIsConstrained opts) Items NewNetworkIsConstrainedItem,
     on_list (dr_WIFISSID opts) Items NewWIFISSIDItem,
     on_list (dr_WIFIBSSID opts) Items (NewWIFIBSSIDItem E),
     on_list (dr_InterfaceAddress opts) Items NewInterfaceAddressItem,
     on_list (dr_NetworkInterfaceAddress opts) Items NewNetworkInterfaceAddressItem,
     on_list (dr_DefaultInterfaceAddress opts) Items NewDefaultInterfaceAddressItem,
     on_list (dr_SourceMACAddress opts) Items (NewSourceMACAddressItem E),
     on_list (dr_SourceHostname opts) Items NewSourceHostnameItem,
     on_list (dr_PreferredBy opts) Items NewPreferredByDNSItem]"

definition OptionRuleSetIPCIDRAcceptEmpty_message :: string where
  "OptionRuleSetIPCIDRAcceptEmpty_message =
     ''Legacy `rule_set_ip_cidr_accept_empty` DNS rule item is deprecated in sing-box 1.14.0'' @
     '' and will be removed in sing-box 1.16.0, checkout documentation for migration: '' @
     ''https://sing-box.sagernet.org/migration/#migrate-address-filter-fields-to-response-matching''"

definition dns_blocks :: "env \<Rightarrow> bool \<Rightarrow> 'x RawDefaultDNSRule_scheme \<Rightarrow> block list" where
  "dns_blocks E legacyDNSMode opts =
     dns_basic_blocks opts @ dns_address_blocks E opts @ dns_response_port_blocks opts @
     dns_process_blocks E opts @ dns_network_blocks E opts @
     [fail_on (dr_RuleSetIPCIDRAcceptEmpty opts \<and> \<not> legacyDNSMode)
        OptionRuleSetIPCIDRAcceptEmpty_message]"

definition NewDefaultDNSRule :: "env \<Rightarrow> DefaultDNSRuleOptions \<Rightarrow> bool \<Rightarrow> DefaultDNSRule res" where
  "NewDefaultDNSRule E opts legacyDNSMode =
     bind_res (NewDNSRuleAction (dr_DNSRuleAction opts)) (\<lambda>act.
     bind_res (collect (dns_blocks E legacyDNSMode opts)) (\<lambda>es.
     bind_res (rule_set_block (dr_RuleSet opts) (dr_Deprecated_RulesetIPCIDRMatchSource opts)
                 (dr_RuleSetIPCIDRMatchSource opts) (dr_RuleSetIPCIDRAcceptEmpty opts)) (\<lambda>rsi.
     Inr \<lparr>entries = es, ruleSetItem = rsi, invert = dr_Invert opts, action = act,
          matchResponse = dr_MatchResponse opts\<rparr>)))"

definition validateDNSRuleAction :: "DNSRuleActionOptions \<Rightarrow> unit res" where
  "validateDNSRuleAction act =
     guard_res (\<not> (da_Action act = RuleActionTypeReject \<and>
                  rj_Method (da_RejectOptions act) = RuleActionRejectMethodReply))
       (New ''reject method `reply` is not supported for DNS rules'')"

text \<open>The checks on the action that \<^verbatim>\<open>NewDNSRule\<close> makes in both cases, in order.\<close>

definition dns_action_checks :: "DNSRuleActionOptions \<Rightarrow> bool \<Rightarrow> unit res" where
  "dns_action_checks act checkServer =
     (if \<not> checkServer \<and> da_Action act = RuleActionTypeEvaluate
      then Inl (New (da_Action act @ '' is only allowed on top-level DNS rules''))
      else bind_res (validateDNSRuleAction act) (\<lambda>_.
        guard_res (\<not> ((da_Action act = [] \<or> da_Action act = RuleActionTypeRoute \<or>
                       da_Action act = RuleActionTypeEvaluate) \<and>
                      do_Server (da_RouteOptions act) = [] \<and> checkServer))
          (New ''missing server field'')))"

fun NewDNSRule :: "env \<Rightarrow> dns_rule_options \<Rightarrow> bool \<Rightarrow> bool \<Rightarrow> dns_rule res"
  and NewLogicalDNSRule :: "env \<Rightarrow> dns_rule_options \<Rightarrow> bool \<Rightarrow> dns_rule res" where
  "NewDNSRule E opts checkServer legacyDNSMode =
     (if or_Type opts = [] \<or> or_Type opts = RuleTypeDefault then
        (if \<not> DefaultDNSRule_IsValid (or_DefaultOptions opts) then Inl missing_conditions
         else bind_res (dns_action_checks (dr_DNSRuleAction (or_DefaultOptions opts)) checkServer) (\<lambda>_.
           case NewDefaultDNSRule E (or_DefaultOptions opts) legacyDNSMode of
             Inl e \<Rightarrow> Inl e | Inr r \<Rightarrow> Inr (DefaultRule r)))
      else if or_Type opts = RuleTypeLogical then
        bind_res (LogicalDNSRule_IsValid opts) (\<lambda>valid.
          if \<not> valid then Inl missing_conditions
          else bind_res (dns_action_checks (or_RuleAction opts) checkServer) (\<lambda>_.
            NewLogicalDNSRule E opts legacyDNSMode))
      else Inl (New (''unknown rule type: '' @ or_Type opts)))"
| "NewLogicalDNSRule E opts legacyDNSMode =
     bind_res (NewDNSRuleAction (or_RuleAction opts)) (\<lambda>act.
     bind_res (logical_mode (or_Mode opts)) (\<lambda>mode.
     bind_res (map_res_idx ''sub rule['' '']'' 0
                 (\<lambda>sub. bind_res (validateNoNestedDNSRuleActions sub True)
                                (\<lambda>_. NewDNSRule E sub False legacyDNSMode)) (or_Rules opts)) (\<lambda>rules.
     Inr (LogicalRule rules mode (or_Invert opts) act))))"

declare NewDNSRule.simps [simp del] NewLogicalDNSRule.simps [simp del]

subsection \<open>The metadata of a rule set\<close>

record RuleSetMetadata =
  ContainsProcessRule :: bool
  ContainsWIFIRule :: bool
  ContainsIPCIDRRule :: bool
  ContainsDNSQueryTypeRule :: bool
  ContainsNonIPCIDRRule :: bool

fun has_headless :: "(DefaultHeadlessRuleOptions \<Rightarrow> bool) \<Rightarrow> headless_options \<Rightarrow> bool" where
  "has_headless cond (OptionRule type opts mode rules neg act) =
     (if type = RuleTypeDefault then cond opts
      else if type = RuleTypeLogical then list_ex (has_headless cond) rules
      else False)"

definition HasHeadlessRule ::
  "headless_options list \<Rightarrow> (DefaultHeadlessRuleOptions \<Rightarrow> bool) \<Rightarrow> bool" where
  "HasHeadlessRule rules cond = list_ex (has_headless cond) rules"

definition isProcessHeadlessRule :: "DefaultHeadlessRuleOptions \<Rightarrow> bool" where
  "isProcessHeadlessRule r \<longleftrightarrow> elems (hr_ProcessName r) \<noteq> [] \<or> elems (hr_ProcessPath r) \<noteq> [] \<or>
     elems (hr_ProcessPathRegex r) \<noteq> [] \<or> elems (hr_PackageName r) \<noteq> [] \<or>
     elems (hr_PackageNameRegex r) \<noteq> []"

definition isWIFIHeadlessRule :: "DefaultHeadlessRuleOptions \<Rightarrow> bool" where
  "isWIFIHeadlessRule r \<longleftrightarrow> elems (hr_WIFISSID r) \<noteq> [] \<or> elems (hr_WIFIBSSID r) \<noteq> []"

definition isIPCIDRHeadlessRule :: "DefaultHeadlessRuleOptions \<Rightarrow> bool" where
  "isIPCIDRHeadlessRule r \<longleftrightarrow> elems (hr_IPCIDR r) \<noteq> [] \<or> hr_IPSet r \<noteq> None"

definition isDNSQueryTypeHeadlessRule :: "DefaultHeadlessRuleOptions \<Rightarrow> bool" where
  "isDNSQueryTypeHeadlessRule r \<longleftrightarrow> elems (hr_QueryType r) \<noteq> []"

definition isNonIPCIDRHeadlessRule :: "DefaultHeadlessRuleOptions \<Rightarrow> bool" where
  "isNonIPCIDRHeadlessRule r \<longleftrightarrow>
     r \<noteq> DefaultHeadlessRuleOptions_zero
           \<lparr>hr_IPCIDR := hr_IPCIDR r, hr_IPSet := hr_IPSet r, hr_Invert := hr_Invert r\<rparr>"

definition buildRuleSetMetadata :: "headless_options list \<Rightarrow> RuleSetMetadata" where
  "buildRuleSetMetadata rules =
     \<lparr>ContainsProcessRule = HasHeadlessRule rules isProcessHeadlessRule,
      ContainsWIFIRule = HasHeadlessRule rules isWIFIHeadlessRule,
      ContainsIPCIDRRule = HasHeadlessRule rules isIPCIDRHeadlessRule,
      ContainsDNSQueryTypeRule = HasHeadlessRule rules isDNSQueryTypeHeadlessRule,
      ContainsNonIPCIDRRule = HasHeadlessRule rules isNonIPCIDRHeadlessRule\<rparr>"

fun item_ipset :: "rule_item \<Rightarrow> ipset list" where
  "item_ipset (IPCIDRItem s _) = [s]"
| "item_ipset _ = []"

fun extractIPSetFromRule :: "headless_rule \<Rightarrow> ipset list" where
  "extractIPSetFromRule (DefaultRule r) = concat (map item_ipset (destinationIPCIDRItems r))"
| "extractIPSetFromRule (LogicalRule rules mode neg act) =
     concat (map extractIPSetFromRule rules)"

subsection \<open>Starting the items of a rule\<close>

text \<open>
  \<^verbatim>\<open>abstractDefaultRule.Start\<close> starts the items in order and stops at the first error.  Three item types
  have a \<^verbatim>\<open>Start\<close>; the fourth, the rule-set item, is in \<open>Rule_Set\<close>.  \<open>outbound\<close> and \<open>transport\<close> are the
  managers: the type of the object under a tag and whether it has preferred routes or domains.
\<close>

type_synonym lookup = "string \<Rightarrow> (string \<times> bool) option"

fun item_Start :: "env \<Rightarrow> lookup \<Rightarrow> lookup \<Rightarrow> rule_item \<Rightarrow> rule_item res" where
  "item_Start E outbound transport (ClashModeItem _ mode) = Inr (ClashModeItem_Start E mode)"
| "item_Start E outbound transport (PreferredByItem tags started) =
     PreferredByItem_Start outbound tags started"
| "item_Start E outbound transport (PreferredByDNSItem tags started) =
     PreferredByDNSItem_Start transport tags started"
| "item_Start E outbound transport it = Inr it"

definition entries_Start ::
  "env \<Rightarrow> lookup \<Rightarrow> lookup \<Rightarrow> (slot \<times> rule_item) list \<Rightarrow> (slot \<times> rule_item) list res" where
  "entries_Start E outbound transport es =
     map_res (\<lambda>(s, it). case item_Start E outbound transport it of
                          Inl e \<Rightarrow> Inl e | Inr it' \<Rightarrow> Inr (s, it')) es"

text \<open>What a successful start leaves.\<close>

fun started :: "env \<Rightarrow> rule_item \<Rightarrow> rule_item" where
  "started E (ClashModeItem _ mode) = ClashModeItem (clash_Mode E \<noteq> None) mode"
| "started E (PreferredByItem tags os) = PreferredByItem tags (os @ tags)"
| "started E (PreferredByDNSItem tags ts) = PreferredByDNSItem tags (ts @ tags)"
| "started E it = it"

lemma preferred_start_Inr: "preferred_start a b look acc tags = Inr r \<Longrightarrow> r = acc @ tags"
  by (induction tags arbitrary: acc) (fastforce split: option.splits prod.splits if_splits)+

lemma item_Start_Inr: "item_Start E outbound transport it = Inr it' \<Longrightarrow> it' = started E it"
  by (cases it)
    (auto simp: ClashModeItem_Start_def PreferredByItem_Start_def PreferredByDNSItem_Start_def
      dest!: preferred_start_Inr split: sum.splits)

lemma entries_Start_Inr:
  "entries_Start E outbound transport es = Inr es' \<Longrightarrow> es' = map (apsnd (started E)) es"
proof -
  assume "entries_Start E outbound transport es = Inr es'"
  then have "list_all2 (\<lambda>e e'. e' = apsnd (started E) e) es es'"
    unfolding entries_Start_def map_res_Inr
    by (rule list_all2_mono) (auto dest!: item_Start_Inr split: sum.splits prod.splits)
  then show ?thesis
    by (simp add: list_all2_conv_all_nth nth_equalityI)
qed

subsection \<open>What the blocks contribute\<close>

lemma collect_Inr:
  "collect bs = Inr es \<longleftrightarrow> (\<exists>ess. bs = map Inr ess \<and> es = concat ess)"
proof -
  have iff: "map_res (\<lambda>b. b) bs = Inr ess \<longleftrightarrow> bs = map Inr ess"
    for bs and ess :: "(slot \<times> rule_item) list list"
    by (simp add: map_res_Inr list_all2_map2 list.rel_eq flip: list.rel_map)
  then have "map_res (\<lambda>b. b) (map Inr ess) = Inr ess" for ess :: "(slot \<times> rule_item) list list"
    by simp
  then show ?thesis
    by (cases "map_res (\<lambda>b. b) bs") (auto simp: collect_def dest: iff [THEN iffD1])
qed

lemma collect_append:
  "collect (bs @ cs) = Inr es \<longleftrightarrow>
     (\<exists>es1 es2. collect bs = Inr es1 \<and> collect cs = Inr es2 \<and> es = es1 @ es2)"
  by (auto simp: collect_Inr append_eq_map_conv)

lemma collect_Cons:
  "collect (b # bs) = Inr es \<longleftrightarrow> (\<exists>es1 es2. b = Inr es1 \<and> collect bs = Inr es2 \<and> es = es1 @ es2)"
  by (auto simp: collect_Inr Cons_eq_map_conv)

lemma collect_Nil [simp]: "collect [] = Inr es \<longleftrightarrow> es = []"
  by (auto simp: collect_Inr)

text \<open>
  The truth values of the conditions once the rule has been started, in the order of the items.
\<close>

definition truths :: "env \<Rightarrow> inbound_context \<Rightarrow> (slot \<times> rule_item) list \<Rightarrow> (slot \<times> bool) list" where
  "truths E m es = map (\<lambda>(s, it). (s, item_Match E (started E it) m)) es"

definition cond :: "bool \<Rightarrow> slot \<Rightarrow> bool \<Rightarrow> (slot \<times> bool) list" where
  "cond p s b = (if p then [(s, b)] else [])"

lemma truths_simps [simp]: "truths E m [] = []" "truths E m (es @ fs) = truths E m es @ truths E m fs"
  by (simp_all add: truths_def)

lemma truths_on_flag: "on_flag p s it = Inr es \<Longrightarrow> truths E m es = cond p s (item_Match E (started E it) m)"
  by (auto simp: on_flag_def truths_def cond_def)

lemma truths_on_flag_res:
  assumes "on_flag_res p s r = Inr es" and "\<And>it. r = Inr it \<Longrightarrow> item_Match E (started E it) m = b"
  shows "truths E m es = cond p s b"
  using assms by (auto simp: on_flag_res_def truths_def cond_def split: sum.splits if_splits)

lemma fail_on_Inr [simp]: "fail_on p msg = Inr es \<longleftrightarrow> \<not> p \<and> es = []"
  by (auto simp: fail_on_def)

lemma truths_ip_version:
  "ip_version_block v = Inr es \<Longrightarrow> truths E m es = cond (v > 0) Items (IPVersionItem_Match E (v = 6) m)"
  by (auto simp: ip_version_block_def truths_def cond_def NewIPVersionItem_def split: if_splits)

definition ipset_of :: "env \<Rightarrow> string list \<Rightarrow> ipset" where
  "ipset_of E l = IPSetOf (projr (ipcidr_elems E 0 l))"

lemma NewIPCIDRItem_Inr:
  "NewIPCIDRItem E src l = Inr it \<Longrightarrow> item_Match E (started E it) m = IPCIDRItem_Match E (ipset_of E l) src m"
  by (auto simp: NewIPCIDRItem_def ipset_of_def split: sum.splits option.splits)

definition ranges_of :: "string list \<Rightarrow> (16 word \<times> 16 word) list" where
  "ranges_of l = projr (map_res parse_port_range l)"

lemma NewPortRangeItem_Inr:
  "NewPortRangeItem src l = Inr it \<Longrightarrow> item_Match E (started E it) m = PortRangeItem_Match src (ranges_of l) m"
  by (auto simp: NewPortRangeItem_def ranges_of_def split: sum.splits)

lemma NewDomainItem_Inr:
  "NewDomainItem ds ss = Inr it \<Longrightarrow> item_Match E (started E it) m = DomainItem_Match E (NewMatcher ds ss) m"
  by (auto simp: NewDomainItem_def split: if_splits)

lemma NewDomainRegexItem_Inr:
  "NewDomainRegexItem E l = Inr it \<Longrightarrow> item_Match E (started E it) m = DomainRegexItem_Match E l m"
  by (auto simp: NewDomainRegexItem_def dest: compile_all_Inr split: sum.splits)

lemma NewProcessPathRegexItem_Inr:
  "NewProcessPathRegexItem E l = Inr it \<Longrightarrow> item_Match E (started E it) m = ProcessPathRegexItem_Match E l m"
  by (auto simp: NewProcessPathRegexItem_def dest: compile_all_Inr split: sum.splits)

lemma NewPackageNameRegexItem_Inr:
  "NewPackageNameRegexItem E l = Inr it \<Longrightarrow> item_Match E (started E it) m = PackageNameRegexItem_Match E l m"
  by (auto simp: NewPackageNameRegexItem_def dest: compile_all_Inr split: sum.splits)

lemmas New_res_Match = NewIPCIDRItem_Inr NewPortRangeItem_Inr NewDomainItem_Inr
  NewDomainRegexItem_Inr NewProcessPathRegexItem_Inr NewPackageNameRegexItem_Inr

subsection \<open>The conditions of a route rule, as its options state them\<close>

definition host_ok :: "env \<Rightarrow> (string \<Rightarrow> bool) \<Rightarrow> inbound_context \<Rightarrow> bool" where
  "host_ok E p m \<longleftrightarrow> domainHost m \<noteq> [] \<and> p (ToLower (unicode_ToLower E) (domainHost m))"

definition process_ok :: "(connection_owner \<Rightarrow> bool) \<Rightarrow> inbound_context \<Rightarrow> bool" where
  "process_ok p m = (case m_ProcessInfo m of None \<Rightarrow> False | Some info \<Rightarrow> p info)"

definition interface_ok :: "env \<Rightarrow> (network_interface \<Rightarrow> bool) \<Rightarrow> bool" where
  "interface_ok E p = (case DefaultNetworkInterface E of None \<Rightarrow> False | Some i \<Rightarrow> p i)"

definition basic_conditions :: "env \<Rightarrow> 'x RawDefaultRule_scheme \<Rightarrow> inbound_context \<Rightarrow> (slot \<times> bool) list" where
  "basic_conditions E opts m =
     cond (elems (r_Inbound opts) \<noteq> []) Items (m_Inbound m \<in> set (elems (r_Inbound opts))) @
     cond (r_IPVersion opts > 0) Items (IPVersionItem_Match E (r_IPVersion opts = 6) m) @
     cond (elems (r_Network opts) \<noteq> []) Items (m_Network m \<in> set (elems (r_Network opts))) @
     cond (elems (r_AuthUser opts) \<noteq> []) Items (m_User m \<in> set (elems (r_AuthUser opts))) @
     cond (elems (r_Protocol opts) \<noteq> []) Items (m_Protocol m \<in> set (elems (r_Protocol opts))) @
     cond (elems (r_Client opts) \<noteq> []) Items (m_Client m \<in> set (elems (r_Client opts)))"

definition address_conditions :: "env \<Rightarrow> 'x RawDefaultRule_scheme \<Rightarrow> inbound_context \<Rightarrow> (slot \<times> bool) list" where
  "address_conditions E opts m =
     cond (elems (r_Domain opts) \<noteq> [] \<or> elems (r_DomainSuffix opts) \<noteq> []) DestinationAddressItems
       (host_ok E (Matcher_Match E (NewMatcher (elems (r_Domain opts)) (elems (r_DomainSuffix opts)))) m) @
     cond (elems (r_DomainKeyword opts) \<noteq> []) DestinationAddressItems
       (host_ok E (\<lambda>h. \<exists>k \<in> set (elems (r_DomainKeyword opts)). str_contains h k) m) @
     cond (elems (r_DomainRegex opts) \<noteq> []) DestinationAddressItems
       (host_ok E (\<lambda>h. \<exists>x \<in> set (elems (r_DomainRegex opts)). regexp_MatchString E x h) m) @
     cond (elems (r_SourceIPCIDR opts) \<noteq> []) SourceAddressItems
       (IPSet_Contains E (ipset_of E (elems (r_SourceIPCIDR opts))) (s_Addr (m_Source m))) @
     cond (r_SourceIPIsPrivate opts) SourceAddressItems (\<not> IsPublicAddr E (s_Addr (m_Source m))) @
     cond (elems (r_IPCIDR opts) \<noteq> []) DestinationIPCIDRItems
       (IPCIDRItem_Match E (ipset_of E (elems (r_IPCIDR opts))) False m) @
     cond (r_IPIsPrivate opts) DestinationIPCIDRItems (IPIsPrivateItem_Match E False m)"

definition in_ranges :: "16 word \<Rightarrow> string list \<Rightarrow> bool" where
  "in_ranges port l \<longleftrightarrow> (\<exists>(a, b) \<in> set (ranges_of l). a \<le> port \<and> port \<le> b)"

definition port_conditions :: "'x RawDefaultRule_scheme \<Rightarrow> inbound_context \<Rightarrow> (slot \<times> bool) list" where
  "port_conditions opts m =
     cond (elems (r_SourcePort opts) \<noteq> []) SourcePortItems
       (s_Port (m_Source m) \<in> set (elems (r_SourcePort opts))) @
     cond (elems (r_SourcePortRange opts) \<noteq> []) SourcePortItems
       (in_ranges (s_Port (m_Source m)) (elems (r_SourcePortRange opts))) @
     cond (elems (r_Port opts) \<noteq> []) DestinationPortItems
       (s_Port (m_Destination m) \<in> set (elems (r_Port opts))) @
     cond (elems (r_PortRange opts) \<noteq> []) DestinationPortItems
       (in_ranges (s_Port (m_Destination m)) (elems (r_PortRange opts)))"

definition process_conditions :: "env \<Rightarrow> 'x RawDefaultRule_scheme \<Rightarrow> inbound_context \<Rightarrow> (slot \<times> bool) list" where
  "process_conditions E opts m =
     cond (elems (r_ProcessName opts) \<noteq> []) Items
       (process_ok (\<lambda>i. c_ProcessPath i \<noteq> [] \<and>
          filepath_Base E (c_ProcessPath i) \<in> set (elems (r_ProcessName opts))) m) @
     cond (elems (r_ProcessPath opts) \<noteq> []) Items
       (process_ok (\<lambda>i. c_ProcessPath i \<noteq> [] \<and> c_ProcessPath i \<in> set (elems (r_ProcessPath opts)) \<or>
          is_android E \<and> (\<exists>n \<in> set (c_AndroidPackageNames i). n \<in> set (elems (r_ProcessPath opts)))) m) @
     cond (elems (r_ProcessPathRegex opts) \<noteq> []) Items
       (process_ok (\<lambda>i. c_ProcessPath i \<noteq> [] \<and>
          (\<exists>x \<in> set (elems (r_ProcessPathRegex opts)). regexp_MatchString E x (c_ProcessPath i))) m) @
     cond (elems (r_PackageName opts) \<noteq> []) Items
       (process_ok (\<lambda>i. \<exists>n \<in> set (c_AndroidPackageNames i). n \<in> set (elems (r_PackageName opts))) m) @
     cond (elems (r_PackageNameRegex opts) \<noteq> []) Items
       (process_ok (\<lambda>i. \<exists>n \<in> set (c_AndroidPackageNames i).
          \<exists>x \<in> set (elems (r_PackageNameRegex opts)). regexp_MatchString E x n) m) @
     cond (elems (r_User opts) \<noteq> []) Items
       (process_ok (\<lambda>i. c_UserName i \<noteq> [] \<and> c_UserName i \<in> set (elems (r_User opts))) m) @
     cond (elems (r_UserID opts) \<noteq> []) Items
       (process_ok (\<lambda>i. c_UserId i \<noteq> - 1 \<and> c_UserId i \<in> set (elems (r_UserID opts))) m)"

definition network_conditions :: "env \<Rightarrow> 'x RawDefaultRule_scheme \<Rightarrow> inbound_context \<Rightarrow> (slot \<times> bool) list" where
  "network_conditions E opts m =
     cond (r_ClashMode opts \<noteq> []) Items
       (case clash_Mode E of
          None \<Rightarrow> False | Some mode \<Rightarrow> EqualFold (unicode_EqualFold E) mode (r_ClashMode opts)) @
     cond (elems (r_NetworkType opts) \<noteq> []) Items
       (interface_ok E (\<lambda>i. ni_Type i \<in> set (elems (r_NetworkType opts)))) @
     cond (r_NetworkIsExpensive opts) Items (interface_ok E ni_Expensive) @
     cond (r_NetworkIsConstrained opts) Items (interface_ok E ni_Constrained) @
     cond (elems (r_WIFISSID opts) \<noteq> []) Items (WIFI_SSID E \<in> set (elems (r_WIFISSID opts))) @
     cond (elems (r_WIFIBSSID opts) \<noteq> []) Items
       (WIFI_BSSID E \<in> NormalizeWIFIBSSID E ` set (elems (r_WIFIBSSID opts))) @
     cond (elems (r_InterfaceAddress opts) \<noteq> []) Items
       (InterfaceAddressItem_Match E (elems (r_InterfaceAddress opts)) m) @
     cond (elems (r_NetworkInterfaceAddress opts) \<noteq> []) Items
       (NetworkInterfaceAddressItem_Match E (elems (r_NetworkInterfaceAddress opts)) m) @
     cond (elems (r_DefaultInterfaceAddress opts) \<noteq> []) Items
       (DefaultInterfaceAddressItem_Match E (elems (r_DefaultInterfaceAddress opts)) m) @
     cond (elems (r_SourceMACAddress opts) \<noteq> []) Items
       (item_Match E (NewSourceMACAddressItem E (elems (r_SourceMACAddress opts))) m) @
     cond (elems (r_SourceHostname opts) \<noteq> []) Items
       (m_SourceHostname m \<noteq> [] \<and> m_SourceHostname m \<in> set (elems (r_SourceHostname opts))) @
     cond (elems (r_PreferredBy opts) \<noteq> []) Items
       (PreferredByItem_Match E (elems (r_PreferredBy opts)) m)"

definition route_conditions :: "env \<Rightarrow> 'x RawDefaultRule_scheme \<Rightarrow> inbound_context \<Rightarrow> (slot \<times> bool) list" where
  "route_conditions E opts m = basic_conditions E opts m @ address_conditions E opts m @
     port_conditions opts m @ process_conditions E opts m @ network_conditions E opts m"

text \<open>What each started item means.\<close>

lemma basic_meaning:
  "item_Match E (started E (NewInboundRule l)) m \<longleftrightarrow> m_Inbound m \<in> set l"
  "item_Match E (started E (NewNetworkItem l)) m \<longleftrightarrow> m_Network m \<in> set l"
  "item_Match E (started E (NewAuthUserItem l)) m \<longleftrightarrow> m_User m \<in> set l"
  "item_Match E (started E (NewProtocolItem l)) m \<longleftrightarrow> m_Protocol m \<in> set l"
  "item_Match E (started E (NewClientItem l)) m \<longleftrightarrow> m_Client m \<in> set l"
  "item_Match E (started E (NewPortItem src ports)) m \<longleftrightarrow>
     s_Port (if src then m_Source m else m_Destination m) \<in> set ports"
  by (simp_all add: NewInboundRule_def NewNetworkItem_def NewAuthUserItem_def NewProtocolItem_def
      NewClientItem_def NewPortItem_def item_Match_defs)

lemma address_meaning:
  "item_Match E (started E (NewDomainKeywordItem l)) m \<longleftrightarrow>
     host_ok E (\<lambda>h. \<exists>k \<in> set l. str_contains h k) m"
  "item_Match E (started E (NewIPIsPrivateItem src)) m = IPIsPrivateItem_Match E src m"
  "DomainItem_Match E d m \<longleftrightarrow> host_ok E (Matcher_Match E d) m"
  "DomainRegexItem_Match E l m \<longleftrightarrow> host_ok E (\<lambda>h. \<exists>x \<in> set l. regexp_MatchString E x h) m"
  "IPCIDRItem_Match E s True m \<longleftrightarrow> IPSet_Contains E s (s_Addr (m_Source m))"
  "IPIsPrivateItem_Match E True m \<longleftrightarrow> \<not> IsPublicAddr E (s_Addr (m_Source m))"
  by (simp_all add: NewDomainKeywordItem_def NewIPIsPrivateItem_def DomainKeywordItem_Match_def
      DomainItem_Match_def DomainRegexItem_Match_def IPCIDRItem_Match_def IPIsPrivateItem_Match_def
      host_ok_def Let_def list_ex_iff)

lemma port_range_meaning:
  "PortRangeItem_Match src (ranges_of l) m \<longleftrightarrow>
     in_ranges (s_Port (if src then m_Source m else m_Destination m)) l"
  by (auto simp: PortRangeItem_Match_def in_ranges_def Let_def list_ex_iff)

lemma process_meaning:
  "item_Match E (started E (NewProcessItem l)) m \<longleftrightarrow> process_ok (\<lambda>i. c_ProcessPath i \<noteq> [] \<and>
     filepath_Base E (c_ProcessPath i) \<in> set l) m"
  "item_Match E (started E (NewProcessPathItem l)) m \<longleftrightarrow>
     process_ok (\<lambda>i. c_ProcessPath i \<noteq> [] \<and> c_ProcessPath i \<in> set l \<or>
       is_android E \<and> (\<exists>n \<in> set (c_AndroidPackageNames i). n \<in> set l)) m"
  "item_Match E (started E (NewPackageNameItem l)) m \<longleftrightarrow>
     process_ok (\<lambda>i. \<exists>n \<in> set (c_AndroidPackageNames i). n \<in> set l) m"
  "item_Match E (started E (NewUserItem l)) m \<longleftrightarrow>
     process_ok (\<lambda>i. c_UserName i \<noteq> [] \<and> c_UserName i \<in> set l) m"
  "item_Match E (started E (NewUserIDItem ids)) m \<longleftrightarrow>
     process_ok (\<lambda>i. c_UserId i \<noteq> - 1 \<and> c_UserId i \<in> set ids) m"
  "ProcessPathRegexItem_Match E l m \<longleftrightarrow> process_ok (\<lambda>i. c_ProcessPath i \<noteq> [] \<and>
     (\<exists>x \<in> set l. regexp_MatchString E x (c_ProcessPath i))) m"
  "PackageNameRegexItem_Match E l m \<longleftrightarrow> process_ok (\<lambda>i. \<exists>n \<in> set (c_AndroidPackageNames i).
     \<exists>x \<in> set l. regexp_MatchString E x n) m"
  by (auto simp: NewProcessItem_def NewProcessPathItem_def NewPackageNameItem_def NewUserItem_def
      NewUserIDItem_def ProcessItem_Match_def ProcessPathItem_Match_def PackageNameItem_Match_def
      UserItem_Match_def UserIdItem_Match_def ProcessPathRegexItem_Match_def
      PackageNameRegexItem_Match_def process_ok_def list_ex_iff split: option.splits)

lemma network_meaning:
  "item_Match E (started E (NewClashModeItem mode)) m \<longleftrightarrow>
     (case clash_Mode E of None \<Rightarrow> False | Some c \<Rightarrow> EqualFold (unicode_EqualFold E) c mode)"
  "item_Match E (started E (NewNetworkTypeItem ts)) m \<longleftrightarrow> interface_ok E (\<lambda>i. ni_Type i \<in> set ts)"
  "item_Match E (started E NewNetworkIsExpensiveItem) m \<longleftrightarrow> interface_ok E ni_Expensive"
  "item_Match E (started E NewNetworkIsConstrainedItem) m \<longleftrightarrow> interface_ok E ni_Constrained"
  "item_Match E (started E (NewWIFISSIDItem l)) m \<longleftrightarrow> WIFI_SSID E \<in> set l"
  "item_Match E (started E (NewWIFIBSSIDItem E l)) m \<longleftrightarrow>
     WIFI_BSSID E \<in> NormalizeWIFIBSSID E ` set l"
  "item_Match E (started E (NewInterfaceAddressItem a)) m = InterfaceAddressItem_Match E a m"
  "item_Match E (started E (NewNetworkInterfaceAddressItem b)) m =
     NetworkInterfaceAddressItem_Match E b m"
  "item_Match E (started E (NewDefaultInterfaceAddressItem ps)) m =
     DefaultInterfaceAddressItem_Match E ps m"
  "item_Match E (started E (NewSourceMACAddressItem E l)) m =
     item_Match E (NewSourceMACAddressItem E l) m"
  "item_Match E (started E (NewSourceHostnameItem l)) m \<longleftrightarrow>
     m_SourceHostname m \<noteq> [] \<and> m_SourceHostname m \<in> set l"
  "item_Match E (started E (NewPreferredByItem l)) m = PreferredByItem_Match E l m"
  by (simp_all add: NewClashModeItem_def NewNetworkTypeItem_def NewNetworkIsExpensiveItem_def
      NewNetworkIsConstrainedItem_def NewWIFISSIDItem_def NewWIFIBSSIDItem_def
      NewInterfaceAddressItem_def NewNetworkInterfaceAddressItem_def
      NewDefaultInterfaceAddressItem_def NewSourceMACAddressItem_def NewSourceHostnameItem_def
      NewPreferredByItem_def ClashModeItem_Match_def NetworkTypeItem_Match_def
      NetworkIsExpensiveItem_Match_def NetworkIsConstrainedItem_Match_def WIFISSIDItem_Match_def
      WIFIBSSIDItem_Match_def SourceHostnameItem_Match_def interface_ok_def split: option.splits)

lemma on_flag_res_cause [simp]:
  "on_flag_res p s (cause_res c r) = Inr es \<longleftrightarrow> on_flag_res p s r = Inr es"
  by (auto simp: on_flag_res_def cause_res_def split: sum.splits)

lemma block_truths:
  "on_flag_res p s (NewDomainItem ds ss) = Inr es \<Longrightarrow>
     truths E m es = cond p s (DomainItem_Match E (NewMatcher ds ss) m)"
  "on_flag_res p s (NewDomainRegexItem E l) = Inr es \<Longrightarrow>
     truths E m es = cond p s (DomainRegexItem_Match E l m)"
  "on_flag_res p s (NewIPCIDRItem E src l) = Inr es \<Longrightarrow>
     truths E m es = cond p s (IPCIDRItem_Match E (ipset_of E l) src m)"
  "on_flag_res p s (NewPortRangeItem src l) = Inr es \<Longrightarrow>
     truths E m es = cond p s (PortRangeItem_Match src (ranges_of l) m)"
  "on_flag_res p s (NewProcessPathRegexItem E l) = Inr es \<Longrightarrow>
     truths E m es = cond p s (ProcessPathRegexItem_Match E l m)"
  "on_flag_res p s (NewPackageNameRegexItem E l) = Inr es \<Longrightarrow>
     truths E m es = cond p s (PackageNameRegexItem_Match E l m)"
  by (erule truths_on_flag_res, erule New_res_Match)+

lemma basic_blocks_truths:
  "collect (default_basic_blocks opts) = Inr es \<Longrightarrow> truths E m es = basic_conditions E opts m"
  by (auto simp: default_basic_blocks_def basic_conditions_def collect_Cons truths_ip_version
      basic_meaning dest!: truths_on_flag [where E = E and m = m])

lemma address_blocks_truths:
  "collect (default_address_blocks E opts) = Inr es \<Longrightarrow> truths E m es = address_conditions E opts m"
  by (auto simp: default_address_blocks_def address_conditions_def collect_Cons address_meaning
      dest!: truths_on_flag [where E = E and m = m] block_truths [where E = E and m = m])

lemma port_blocks_truths:
  "collect (default_port_blocks opts) = Inr es \<Longrightarrow> truths E m es = port_conditions opts m"
  by (auto simp: default_port_blocks_def port_conditions_def collect_Cons basic_meaning
      port_range_meaning dest!: truths_on_flag [where E = E and m = m] block_truths(4) [where E = E and m = m])

lemma process_blocks_truths:
  "collect (default_process_blocks E opts) = Inr es \<Longrightarrow> truths E m es = process_conditions E opts m"
  by (auto simp: default_process_blocks_def process_conditions_def collect_Cons process_meaning
      dest!: truths_on_flag [where E = E and m = m] block_truths [where E = E and m = m])

lemma network_blocks_truths:
  "collect (default_network_blocks E opts) = Inr es \<Longrightarrow> truths E m es = network_conditions E opts m"
  by (auto simp: default_network_blocks_def network_conditions_def collect_Cons network_meaning
      dest!: truths_on_flag [where E = E and m = m])

lemma default_blocks_truths:
  "collect (default_blocks E opts) = Inr es \<Longrightarrow> truths E m es = route_conditions E opts m"
  unfolding default_blocks_def route_conditions_def collect_append
  by (elim exE conjE) (simp add: basic_blocks_truths address_blocks_truths port_blocks_truths
      process_blocks_truths network_blocks_truths)

text \<open>The documented formula over a list of conditions with their truth values.\<close>

definition group_holds :: "slot list \<Rightarrow> (slot \<times> bool) list \<Rightarrow> bool" where
  "group_holds ss cs \<longleftrightarrow> list_all (\<lambda>(s, b). s \<notin> set ss) cs \<or> list_ex (\<lambda>(s, b). s \<in> set ss \<and> b) cs"

definition conditions_hold :: "(slot \<times> bool) list \<Rightarrow> bool" where
  "conditions_hold cs \<longleftrightarrow>
     group_holds [DestinationAddressItems, DestinationIPCIDRItems] cs \<and>
     group_holds [DestinationPortItems] cs \<and> group_holds [SourceAddressItems] cs \<and>
     group_holds [SourcePortItems] cs \<and> list_all (\<lambda>(s, b). s = Items \<longrightarrow> b) cs"

lemma slot_items_started:
  "entries r = map (apsnd (started E)) es \<Longrightarrow>
   slot_items s r = map (started E) (map snd (filter (\<lambda>e. fst e = s) es))"
  by (simp add: slot_items_def filter_map comp_def)

lemma group_holds_truths:
  "group_holds ss (truths E m es) \<longleftrightarrow>
     (\<forall>s \<in> set ss. filter (\<lambda>e. fst e = s) es = []) \<or>
     (\<exists>s \<in> set ss. list_ex (\<lambda>it. item_Match E it m)
        (map (started E) (map snd (filter (\<lambda>e. fst e = s) es))))"
proof -
  have "list_all (\<lambda>(s, b). s \<notin> set ss) (truths E m es) \<longleftrightarrow>
      (\<forall>s \<in> set ss. filter (\<lambda>e. fst e = s) es = [])"
    by (induction es) (auto simp: truths_def)
  moreover have "list_ex (\<lambda>(s, b). s \<in> set ss \<and> b) (truths E m es) \<longleftrightarrow>
      (\<exists>s \<in> set ss. list_ex (\<lambda>it. item_Match E it m)
        (map (started E) (map snd (filter (\<lambda>e. fst e = s) es))))"
    by (induction es) (auto simp: truths_def)
  ultimately show ?thesis by (simp add: group_holds_def)
qed

lemma group_holds_iff:
  "group_holds [s] (truths E m es) \<longleftrightarrow>
     group_ok E (map (started E) (map snd (filter (\<lambda>e. fst e = s) es))) m"
  by (simp add: group_holds_truths group_ok_def)

lemma group_holds_2_iff:
  "group_holds [s, t] (truths E m es) \<longleftrightarrow>
     group_ok E (map (started E) (map snd (filter (\<lambda>e. fst e = s) es)) @
                 map (started E) (map snd (filter (\<lambda>e. fst e = t) es))) m"
  by (simp add: group_holds_truths group_ok_def)

lemma documented_match_truths:
  assumes "entries r = map (apsnd (started E)) es"
    and "\<not> m_IgnoreDestinationIPCIDRMatch m" "\<not> m_IPCIDRMatchSource m"
  shows "documented_match E r m \<longleftrightarrow> conditions_hold (truths E m es)"
proof -
  have "list_all (\<lambda>it. item_Match E it m) (items r) \<longleftrightarrow>
      list_all (\<lambda>(s, b). s = Items \<longrightarrow> b) (truths E m es)"
    by (auto simp: slot_items_started [OF assms(1)] truths_def list_all_iff)
  then show ?thesis
    using assms(2,3)
    by (simp add: documented_match_def conditions_hold_def group_holds_iff group_holds_2_iff
        source_group_def destination_group_def slot_items_started [OF assms(1)])
qed

subsection \<open>Properties of route rules\<close>

text \<open>
  C3. From the options to the verdict: a route rule without rule sets, built from its options and
  started, matches exactly when the conditions the options state hold as documented - one of each
  group, all of the others - and the opposite with \<^verbatim>\<open>invert\<close>.
\<close>

theorem route_rule_from_options:
  assumes "NewDefaultRule A E opts = Inr r" and "elems (r_RuleSet opts) = []"
    and "entries_Start E outbound transport (entries r) = Inr es"
    and "\<not> m_IgnoreDestinationIPCIDRMatch m" "\<not> m_IPCIDRMatchSource m"
    and "r_Invert opts \<longrightarrow> route_conditions E opts m \<noteq> []"
  shows "fst (default_Match E rs (r\<lparr>entries := es\<rparr>) m) \<longleftrightarrow>
         conditions_hold (route_conditions E opts m) \<noteq> r_Invert opts"
proof -
  from assms(1) have built: "collect (default_blocks E opts) = Inr (entries r)"
      "invert r = r_Invert opts" "ruleSetItem r = None"
    using assms(2) by (auto simp: NewDefaultRule_def bind_res_Inr rule_set_block_def)
  have truths: "truths E m (entries r) = route_conditions E opts m"
    using default_blocks_truths [OF built(1)] .
  have "es = map (apsnd (started E)) (entries r)"
    using entries_Start_Inr [OF assms(3)] .
  then have "documented_match E (r\<lparr>entries := es\<rparr>) m \<longleftrightarrow> conditions_hold (route_conditions E opts m)"
    using documented_match_truths [of "r\<lparr>entries := es\<rparr>" E "entries r" m] assms(4,5) truths by simp
  moreover have "es = [] \<longleftrightarrow> route_conditions E opts m = []"
    using \<open>es = _\<close> truths by (auto simp: truths_def)
  ultimately show ?thesis
    using assms(4,6) built default_Match_plain [of "r\<lparr>entries := es\<rparr>" m E rs] by simp
qed

definition web_options :: DefaultRuleOptions where
  "web_options = DefaultRuleOptions_zero
     \<lparr>r_Network := Some [''tcp''], r_Port := Some [80, 443], r_Invert := True\<rparr>"

lemma web_rule:
  "NewDefaultRule plain_action_env plain_env web_options =
     Inr \<lparr>entries = [(Items, NewNetworkItem [''tcp'']), (DestinationPortItems, NewPortItem False [80, 443])],
          ruleSetItem = None, invert = True, action = None\<rparr>"
  by (simp add: NewDefaultRule_def web_options_def DefaultRuleOptions_zero_def RawDefaultRule_zero_def
      RawDefaultRule.defs NewRuleAction_def RuleActionOptions_zero_def collect_def default_blocks_def
      default_basic_blocks_def default_address_blocks_def default_port_blocks_def
      default_process_blocks_def default_network_blocks_def on_flag_def on_flag_res_def fail_on_def
      ip_version_block_def rule_set_block_def)

theorem route_rule_from_options_witness:
  "\<exists>r es. NewDefaultRule plain_action_env plain_env web_options = Inr r \<and>
     entries_Start plain_env (\<lambda>_. None) (\<lambda>_. None) (entries r) = Inr es \<and>
     fst (default_Match plain_env no_rule_sets (r\<lparr>entries := es\<rparr>)
            ((port_context 443)\<lparr>m_Network := ''udp''\<rparr>))"
proof -
  let ?m = "(port_context 443)\<lparr>m_Network := ''udp''\<rparr>"
  let ?es = "[(Items, NewNetworkItem [''tcp'']), (DestinationPortItems, NewPortItem False [80, 443])]"
  have start: "entries_Start plain_env (\<lambda>_. None) (\<lambda>_. None) ?es = Inr ?es"
    by (simp add: entries_Start_def NewNetworkItem_def NewPortItem_def)
  have truths: "route_conditions plain_env web_options ?m =
      [(Items, False), (DestinationPortItems, True)]"
    using default_blocks_truths [of plain_env web_options ?es ?m] web_rule
    by (auto simp: NewDefaultRule_def bind_res_Inr truths_def basic_meaning port_context_def
        InboundContextZero_def SocksaddrZero_def)
  let ?r = "\<lparr>entries = ?es, ruleSetItem = None, invert = True, action = None\<rparr>
      :: rule_action abstractDefaultRule"
  have opts: "elems (r_RuleSet web_options) = []" "r_Invert web_options"
    by (simp_all add: web_options_def DefaultRuleOptions_zero_def RawDefaultRule_zero_def
        RawDefaultRule.defs)
  have flags: "\<not> m_IgnoreDestinationIPCIDRMatch ?m" "\<not> m_IPCIDRMatchSource ?m"
    by (simp_all add: port_context_def InboundContextZero_def)
  have "fst (default_Match plain_env no_rule_sets (?r\<lparr>entries := ?es\<rparr>) ?m) \<longleftrightarrow>
      conditions_hold (route_conditions plain_env web_options ?m) \<noteq> r_Invert web_options"
    using start truths
    by (intro route_rule_from_options [OF web_rule opts(1) _ flags]) simp_all
  then have "fst (default_Match plain_env no_rule_sets (?r\<lparr>entries := ?es\<rparr>) ?m)"
    using opts(2) by (simp add: truths conditions_hold_def)
  then show ?thesis
    using web_rule start by (intro exI [of _ ?r] exI [of _ ?es] conjI) simp_all
qed

subsection \<open>Shapes of the built rules\<close>

fun all_defaults :: "('d \<Rightarrow> bool) \<Rightarrow> ('d, 'act) rule \<Rightarrow> bool" where
  "all_defaults P (DefaultRule d) = P d"
| "all_defaults P (LogicalRule rules mode neg act) = list_all (all_defaults P) rules"

lemma map_res_idx_all:
  "map_res_idx pre post i f xs = Inr ys \<Longrightarrow>
   (\<And>x y. x \<in> set xs \<Longrightarrow> f x = Inr y \<Longrightarrow> P y) \<Longrightarrow> list_all P ys"
  by (auto simp: map_res_idx_Inr list_all2_conv_all_nth list_all_length) (metis nth_mem)

lemma all_defaults_conj: "all_defaults P r \<Longrightarrow> all_defaults Q r \<Longrightarrow> all_defaults (\<lambda>d. P d \<and> Q d) r"
  by (induction r) (auto simp: list_all_iff)

lemma headless_no_rule_set:
  "NewHeadlessRule E nm opts = Inr h \<Longrightarrow> all_defaults (\<lambda>d. ruleSetItem d = None) h"
  "NewLogicalHeadlessRule E nm opts = Inr h \<Longrightarrow> all_defaults (\<lambda>d. ruleSetItem d = None) h"
proof (induction E nm opts and E nm opts arbitrary: h and h
    rule: NewHeadlessRule_NewLogicalHeadlessRule.induct)
  case (1 E nm opts)
  then show ?case
    by (subst (asm) NewHeadlessRule.simps)
      (auto simp: NewDefaultHeadlessRule_def bind_res_Inr split: if_splits sum.splits)
next
  case (2 E nm opts)
  then show ?case
    by (subst (asm) NewLogicalHeadlessRule.simps)
      (auto simp: bind_res_Inr elim!: map_res_idx_all)
qed

lemma rule_matchStatesWithBase_cong:
  "all_defaults P r \<Longrightarrow> (\<And>d m b. P d \<Longrightarrow> f d m b = g d m b) \<Longrightarrow>
   rule_matchStatesWithBase f r m b = rule_matchStatesWithBase g r m b"
proof (induction r arbitrary: m b)
  case (LogicalRule rules mode neg act)
  then show ?case
    by (auto simp: list_all_iff intro!: logical_matchStatesWithBase_cong)
qed simp

text \<open>A rule all of whose rules, at any depth, carry no action.\<close>

fun actionless :: "route_rule \<Rightarrow> bool" where
  "actionless (DefaultRule d) \<longleftrightarrow> action d = None"
| "actionless (LogicalRule rules mode neg act) \<longleftrightarrow> act = None \<and> list_all actionless rules"

lemma NewRuleAction_zero: "NewRuleAction A RuleActionOptions_zero = Inr None"
  by (simp add: NewRuleAction_def RuleActionOptions_zero_def)

lemma validated_actionless:
  "validateNoNestedRuleActions opts True = Inr () \<Longrightarrow> NewRule A E opts c = Inr r \<Longrightarrow> actionless r"
  "\<not> ruleHasConfiguredAction opts \<Longrightarrow> or_Type opts = RuleTypeLogical \<Longrightarrow>
   NewLogicalRule A E opts = Inr r \<Longrightarrow> actionless r"
proof (induction A E opts c and A E opts arbitrary: r and r rule: NewRule_NewLogicalRule.induct)
  case (1 A E opts c)
  have quiet: "\<not> ruleHasConfiguredAction opts"
    using "1.prems"(1) by (subst (asm) validateNoNestedRuleActions.simps) (auto split: if_splits)
  have "r_RuleAction (or_DefaultOptions opts) = RuleActionOptions_zero"
    if "or_Type opts = [] \<or> or_Type opts = RuleTypeDefault"
    using quiet that by (simp add: ruleHasConfiguredAction_def)
  then show ?case
    using "1.prems"(2) "1.IH" quiet
    by (subst (asm) NewRule.simps)
      (auto simp: NewDefaultRule_def bind_res_Inr NewRuleAction_zero split: if_splits sum.splits)
next
  case (2 A E opts)
  have "or_RuleAction opts = RuleActionOptions_zero"
    using "2.prems"(1,2)
    by (simp add: ruleHasConfiguredAction_def RuleTypeLogical_def RuleTypeDefault_def)
  then show ?case
    using "2.prems"(3) "2.IH"
    by (subst (asm) NewLogicalRule.simps)
      (auto simp: bind_res_Inr NewRuleAction_zero elim!: map_res_idx_all)
qed

text \<open>The groups a block adds to.\<close>

definition slots :: "(slot \<times> rule_item) list \<Rightarrow> slot set" where
  "slots es = fst ` set es"

lemma slots_simps [simp]: "slots [] = {}" "slots (es @ fs) = slots es \<union> slots fs"
  by (auto simp: slots_def)

lemma slots_of_block:
  "on_flag p s it = Inr es \<Longrightarrow> slots es = {t. p \<and> t = s}"
  "on_flag_res p s r = Inr es \<Longrightarrow> slots es = {t. p \<and> t = s}"
  by (auto simp: slots_def on_flag_def on_flag_res_def split: if_splits sum.splits)

lemma slots_of_if_block:
  "(if q then on_flag_res True s r else on_flag p s it) = Inr es \<Longrightarrow>
     slots es = {t. (q \<or> p) \<and> t = s}"
  "(if q then on_flag True s it else on_flag p s it') = Inr es \<Longrightarrow>
     slots es = {t. (q \<or> p) \<and> t = s}"
  by (auto simp: slots_def on_flag_def on_flag_res_def split: if_splits sum.splits)

lemma in_slot: "slot_items s r \<noteq> [] \<longleftrightarrow> s \<in> slots (entries r)"
  by (force simp: slot_items_def slots_def filter_empty_conv)

lemma headless_cidr_blocks:
  "collect (headless_port_process_blocks E opts) = Inr es \<Longrightarrow> DestinationIPCIDRItems \<notin> slots es"
  "collect (headless_network_blocks E nm opts) = Inr es \<Longrightarrow> DestinationIPCIDRItems \<notin> slots es"
  "headless_adguard_block opts = Inr es \<Longrightarrow> DestinationIPCIDRItems \<notin> slots es"
  unfolding headless_port_process_blocks_def headless_network_blocks_def headless_adguard_block_def
  by (cases nm; auto simp: collect_Cons simp del: on_flag_res_cause
      dest!: slots_of_block slots_of_if_block)+

lemma headless_address_cidr:
  "collect (headless_address_blocks E opts) = Inr es \<Longrightarrow>
   DestinationIPCIDRItems \<in> slots es \<longleftrightarrow> isIPCIDRHeadlessRule opts"
  unfolding headless_address_blocks_def isIPCIDRHeadlessRule_def
  by (auto simp: collect_Cons simp del: on_flag_res_cause
      dest!: slots_of_block slots_of_if_block)

lemma NewDefaultHeadlessRule_cidr:
  assumes "NewDefaultHeadlessRule E nm opts = Inr d"
  shows "destinationIPCIDRItems d \<noteq> [] \<longleftrightarrow> isIPCIDRHeadlessRule opts"
proof -
  obtain es1 es2 es3 es4 where parts: "collect (headless_address_blocks E opts) = Inr es1"
      "collect (headless_port_process_blocks E opts) = Inr es2"
      "collect (headless_network_blocks E nm opts) = Inr es3" "headless_adguard_block opts = Inr es4"
    and d: "entries d = es1 @ es2 @ es3 @ es4"
    using assms by (auto simp: NewDefaultHeadlessRule_def bind_res_Inr headless_blocks_def
        collect_append collect_Cons)
  have "DestinationIPCIDRItems \<in> slots (entries d) \<longleftrightarrow> DestinationIPCIDRItems \<in> slots es1"
    using headless_cidr_blocks(1) [OF parts(2)] headless_cidr_blocks(2) [OF parts(3)]
      headless_cidr_blocks(3) [OF parts(4)] by (simp add: d)
  then show ?thesis using headless_address_cidr [OF parts(1)] by (simp only: in_slot)
qed

fun has_cidr :: "headless_rule \<Rightarrow> bool" where
  "has_cidr (DefaultRule d) \<longleftrightarrow> destinationIPCIDRItems d \<noteq> []"
| "has_cidr (LogicalRule rules mode neg act) = list_ex has_cidr rules"

text \<open>Options as decoding leaves them: the type is never empty.\<close>

fun decoded :: "('d, 'a) option_rule \<Rightarrow> bool" where
  "decoded (OptionRule type opts mode rules neg act) \<longleftrightarrow>
     type = RuleTypeDefault \<or> type = RuleTypeLogical \<and> list_all decoded rules"

lemma list_ex_all2:
  "list_all2 (\<lambda>x y. f x = Inr y) xs ys \<Longrightarrow> (\<And>x y. x \<in> set xs \<Longrightarrow> f x = Inr y \<Longrightarrow> P x = Q y) \<Longrightarrow>
   list_ex P xs = list_ex Q ys"
  by (induction rule: list_all2_induct) auto

lemma headless_has_cidr:
  "NewHeadlessRule E nm opts = Inr h \<Longrightarrow> decoded opts \<Longrightarrow>
     has_headless isIPCIDRHeadlessRule opts = has_cidr h"
  "NewLogicalHeadlessRule E nm opts = Inr h \<Longrightarrow> decoded opts \<Longrightarrow> or_Type opts = RuleTypeLogical \<Longrightarrow>
     has_headless isIPCIDRHeadlessRule opts = has_cidr h"
proof (induction E nm opts and E nm opts arbitrary: h and h
    rule: NewHeadlessRule_NewLogicalHeadlessRule.induct)
  case (1 E nm opts)
  have types: "RuleTypeDefault \<noteq> []" "RuleTypeLogical \<noteq> []" "RuleTypeDefault \<noteq> RuleTypeLogical"
    by (simp_all add: RuleTypeDefault_def RuleTypeLogical_def)
  obtain type dopts mode rules neg act where o: "opts = OptionRule type dopts mode rules neg act"
    by (cases opts)
  show ?case
  proof (cases "type = RuleTypeDefault")
    case True
    then obtain d where "NewDefaultHeadlessRule E nm dopts = Inr d" "h = DefaultRule d"
      using "1.prems"(1) by (subst (asm) NewHeadlessRule.simps) (auto simp: o split: if_splits sum.splits)
    then show ?thesis using True by (simp add: o NewDefaultHeadlessRule_cidr)
  next
    case False
    then have t: "type = RuleTypeLogical" using "1.prems"(2) by (auto simp: o)
    then have "NewLogicalHeadlessRule E nm opts = Inr h"
      using "1.prems"(1) types
      by (subst (asm) NewHeadlessRule.simps) (auto simp: o bind_res_Inr split: if_splits)
    moreover have "\<not> (or_Type opts = [] \<or> or_Type opts = RuleTypeDefault)" "or_Type opts = RuleTypeLogical"
      using t types by (simp_all add: o)
    ultimately show ?thesis using "1.IH" "1.prems" by blast
  qed
next
  case (2 E nm opts)
  have ne: "RuleTypeLogical \<noteq> RuleTypeDefault" by (simp add: RuleTypeDefault_def RuleTypeLogical_def)
  obtain rules mode where h: "h = LogicalRule rules mode (or_Invert opts) None"
    and all2: "list_all2 (\<lambda>x y. NewHeadlessRule E nm x = Inr y) (or_Rules opts) rules"
    using "2.prems"(1)
    by (subst (asm) NewLogicalHeadlessRule.simps) (auto simp: bind_res_Inr map_res_idx_Inr)
  have dec: "\<And>x. x \<in> set (or_Rules opts) \<Longrightarrow> decoded x"
    using "2.prems"(2,3) ne by (cases opts) (auto simp: list_all_iff)
  have "list_ex (has_headless isIPCIDRHeadlessRule) (or_Rules opts) = list_ex has_cidr rules"
    using all2 by (rule list_ex_all2) (use "2.IH" dec in auto)
  then show ?case using "2.prems"(3) ne h by (cases opts) auto
qed

lemma headless_list_has_cidr:
  assumes "list_all2 (\<lambda>x y. NewHeadlessRule E nm x = Inr y) opts hs" and "list_all decoded opts"
  shows "ContainsIPCIDRRule (buildRuleSetMetadata opts) \<longleftrightarrow> list_ex has_cidr hs"
proof -
  have "list_ex (has_headless isIPCIDRHeadlessRule) opts = list_ex has_cidr hs"
    using assms(1) by (rule list_ex_all2) (use assms(2) headless_has_cidr(1) in \<open>auto simp: list_all_iff\<close>)
  then show ?thesis by (simp add: buildRuleSetMetadata_def HasHeadlessRule_def)
qed

text \<open>
  The items that read a DNS response.  A rule is quiet when they all are in its group of destination
  address conditions; the rules of a rule set are.
\<close>

fun response_item :: "rule_item \<Rightarrow> bool" where
  "response_item (IPCIDRItem _ src) \<longleftrightarrow> \<not> src"
| "response_item (IPIsPrivateItem src) \<longleftrightarrow> \<not> src"
| "response_item IPAcceptAnyItem \<longleftrightarrow> True"
| "response_item (DNSResponseRCodeItem _) \<longleftrightarrow> True"
| "response_item (DNSResponseRecordItem _ _ _) \<longleftrightarrow> True"
| "response_item _ \<longleftrightarrow> False"

definition quiet_entries :: "(slot \<times> rule_item) list \<Rightarrow> bool" where
  "quiet_entries es \<longleftrightarrow> (\<forall>(s, it) \<in> set es. response_item it \<longrightarrow> s = DestinationIPCIDRItems)"

abbreviation quiet :: "('act, 'x) abstractDefaultRule_scheme \<Rightarrow> bool" where
  "quiet d \<equiv> quiet_entries (entries d)"

definition quiet_block :: "block \<Rightarrow> bool" where
  "quiet_block b \<longleftrightarrow> (\<forall>es. b = Inr es \<longrightarrow> quiet_entries es)"

lemma quiet_collect: "collect bs = Inr es \<Longrightarrow> list_all quiet_block bs \<Longrightarrow> quiet_entries es"
  by (fastforce simp: collect_Inr quiet_block_def quiet_entries_def list_all_iff)

lemma quiet_blocks:
  "quiet_block (on_flag p s it) \<longleftrightarrow> p \<and> response_item it \<longrightarrow> s = DestinationIPCIDRItems"
  "quiet_block (on_flag_res p s r) \<longleftrightarrow>
     (\<forall>it. p \<and> r = Inr it \<and> response_item it \<longrightarrow> s = DestinationIPCIDRItems)"
  "quiet_block (if q then b else c) \<longleftrightarrow> (if q then quiet_block b else quiet_block c)"
  by (auto simp: quiet_block_def quiet_entries_def on_flag_def on_flag_res_def split: sum.splits)

lemma response_item_new [simp]:
  "\<not> response_item (NewQueryTypeItem q)" "\<not> response_item (NewNetworkItem l)"
  "\<not> response_item (NewRawDomainItem dm)" "\<not> response_item (NewDomainKeywordItem l)"
  "response_item (NewRawIPCIDRItem src x) \<longleftrightarrow> \<not> src" "\<not> response_item (NewPortItem src ps)"
  "\<not> response_item (NewProcessItem l)" "\<not> response_item (NewProcessPathItem l)"
  "\<not> response_item (NewPackageNameItem l)" "\<not> response_item (NewNetworkTypeItem ts)"
  "\<not> response_item NewNetworkIsExpensiveItem" "\<not> response_item NewNetworkIsConstrainedItem"
  "\<not> response_item (NewWIFISSIDItem l)" "\<not> response_item (NewWIFIBSSIDItem E l)"
  "\<not> response_item (NewNetworkInterfaceAddressItem nis)" "\<not> response_item (NewDefaultInterfaceAddressItem ps')"
  "\<not> response_item (NewAdGuardDomainItem l)" "\<not> response_item (NewRawAdGuardDomainItem am)"
  by (simp_all add: NewQueryTypeItem_def NewNetworkItem_def NewRawDomainItem_def NewDomainKeywordItem_def
      NewRawIPCIDRItem_def NewPortItem_def NewProcessItem_def NewProcessPathItem_def NewPackageNameItem_def
      NewNetworkTypeItem_def NewNetworkIsExpensiveItem_def NewNetworkIsConstrainedItem_def
      NewWIFISSIDItem_def NewWIFIBSSIDItem_def NewNetworkInterfaceAddressItem_def
      NewDefaultInterfaceAddressItem_def NewAdGuardDomainItem_def NewRawAdGuardDomainItem_def)

lemma response_item_new_res:
  "NewIPCIDRItem E src l = Inr it \<Longrightarrow> response_item it \<longleftrightarrow> \<not> src"
  "NewPortRangeItem src l = Inr it \<Longrightarrow> \<not> response_item it"
  "NewDomainItem ds ss = Inr it \<Longrightarrow> \<not> response_item it"
  "NewDomainRegexItem E l = Inr it \<Longrightarrow> \<not> response_item it"
  "NewProcessPathRegexItem E l = Inr it \<Longrightarrow> \<not> response_item it"
  "NewPackageNameRegexItem E l = Inr it \<Longrightarrow> \<not> response_item it"
  by (auto simp: NewIPCIDRItem_def NewPortRangeItem_def NewDomainItem_def NewDomainRegexItem_def
      NewProcessPathRegexItem_def NewPackageNameRegexItem_def split: sum.splits option.splits if_splits)

lemma headless_blocks_quiet: "list_all quiet_block (headless_blocks E nm opts)"
proof -
  have "list_all quiet_block (headless_address_blocks E opts)"
    by (auto simp: headless_address_blocks_def quiet_blocks cause_res_def dest!: response_item_new_res
        split: sum.splits)
  moreover have "list_all quiet_block (headless_port_process_blocks E opts)"
    by (auto simp: headless_port_process_blocks_def quiet_blocks cause_res_def dest!: response_item_new_res
        split: sum.splits)
  moreover have "list_all quiet_block (headless_network_blocks E nm opts)"
    by (simp add: headless_network_blocks_def quiet_blocks)
  moreover have "quiet_block (headless_adguard_block opts)"
    by (simp add: headless_adguard_block_def quiet_blocks)
  ultimately show ?thesis by (simp add: headless_blocks_def)
qed

lemma headless_quiet:
  "NewHeadlessRule E nm opts = Inr h \<Longrightarrow> all_defaults quiet h"
  "NewLogicalHeadlessRule E nm opts = Inr h \<Longrightarrow> all_defaults quiet h"
proof (induction E nm opts and E nm opts arbitrary: h and h
    rule: NewHeadlessRule_NewLogicalHeadlessRule.induct)
  case (1 E nm opts)
  then show ?case
    by (subst (asm) NewHeadlessRule.simps)
      (auto simp: NewDefaultHeadlessRule_def bind_res_Inr dest: quiet_collect [OF _ headless_blocks_quiet]
        split: if_splits sum.splits)
next
  case (2 E nm opts)
  then show ?case
    by (subst (asm) NewLogicalHeadlessRule.simps)
      (auto simp: bind_res_Inr elim!: map_res_idx_all)
qed

subsection \<open>Properties of the built rules\<close>

text \<open>
  The rules of a rule set hold no rule-set item at any depth: however rule sets would be
  evaluated, the state set of such a rule is the one the engine computes without them.
\<close>

theorem headless_rules_are_ground:
  assumes "NewHeadlessRule E nm opts = Inr h"
  shows "rule_matchStatesWithBase (\<lambda>d m base. fst (default_matchStatesWithBase E rs d m base)) h m base
         = headless_matchStatesWithBase E h m base"
proof -
  have "fst (default_matchStatesWithBase E rs d m b) =
      fst (default_matchStatesWithBase E no_rule_sets d m b)"
    if "ruleSetItem d = None" for d :: "unit abstractDefaultRule" and m b
    using that by (simp add: default_matchStatesWithBase_eq rule_states_def)
  then show ?thesis
    unfolding headless_matchStatesWithBase_def
    by (intro rule_matchStatesWithBase_cong [OF headless_no_rule_set(1) [OF assms]]) simp
qed

definition port_set_options :: headless_options where
  "port_set_options = OptionRule RuleTypeDefault
     (DefaultHeadlessRuleOptions_zero\<lparr>hr_Port := Some [53], hr_IPSet := Some (RawIPSet [])\<rparr>) [] [] False ()"

lemma port_set_rule:
  "NewHeadlessRule E nm port_set_options =
     Inr (DefaultRule \<lparr>entries = [(DestinationIPCIDRItems, NewRawIPCIDRItem False (RawIPSet [])),
          (DestinationPortItems, NewPortItem False [53])],
        ruleSetItem = None, invert = False, action = None\<rparr>)"
  by (cases nm) (simp_all add: NewHeadlessRule.simps port_set_options_def DefaultHeadlessRule_IsValid_def
      DefaultHeadlessRuleOptions_zero_def NewDefaultHeadlessRule_def headless_blocks_def collect_def
      headless_address_blocks_def headless_port_process_blocks_def headless_network_blocks_def
      headless_adguard_block_def on_flag_def on_flag_res_def RuleTypeDefault_def)

theorem headless_rules_are_ground_witness:
  "\<exists>h. NewHeadlessRule plain_env True port_set_options = Inr h \<and>
     rule_matchStatesWithBase (\<lambda>d m base. fst (default_matchStatesWithBase plain_env (\<lambda>_ _ _. 1) d m base))
       h (port_context 53) 0 = headless_matchStatesWithBase plain_env h (port_context 53) 0"
  using headless_rules_are_ground [OF port_set_rule] port_set_rule by blast

text \<open>
  No action hides inside a logical rule: when a logical rule is built, none of the rules below
  it, at any depth, carries an action.
\<close>

theorem nested_rules_have_no_action:
  assumes "NewRule A E opts checkOutbound = Inr (LogicalRule rules mode neg act)"
  shows "list_all actionless rules"
proof -
  have "NewLogicalRule A E opts = Inr (LogicalRule rules mode neg act)"
    using assms by (subst (asm) NewRule.simps) (auto simp: bind_res_Inr split: if_splits sum.splits)
  then show ?thesis
    by (subst (asm) NewLogicalRule.simps)
      (auto simp: bind_res_Inr elim!: map_res_idx_all dest: validated_actionless(1))
qed

definition nested_options :: rule_options where
  "nested_options = OptionRule RuleTypeLogical DefaultRuleOptions_zero ''and''
     [OptionRule RuleTypeDefault web_options [] [] False RuleActionOptions_zero] False
     (RuleActionOptions_zero\<lparr>ra_Action := ''hijack-dns''\<rparr>)"

theorem nested_rules_have_no_action_witness:
  "\<exists>rules. NewRule plain_action_env plain_env nested_options True =
      Inr (LogicalRule rules ''and'' False (Some RuleActionHijackDNS)) \<and> list_all actionless rules"
proof -
  have act: "r_RuleAction web_options = RuleActionOptions_zero"
    by (simp add: web_options_def DefaultRuleOptions_zero_def RawDefaultRule.defs)
  have types: "RuleTypeLogical \<noteq> []" "RuleTypeLogical \<noteq> RuleTypeDefault"
    by (simp_all add: RuleTypeLogical_def RuleTypeDefault_def)
  have valid: "DefaultRule_IsValid web_options"
    by (simp add: DefaultRule_IsValid_def web_options_def DefaultRuleOptions_zero_def
        RawDefaultRule_zero_def RawDefaultRule.defs)
  have sub: "NewRule plain_action_env plain_env
      (OptionRule RuleTypeDefault web_options [] [] False RuleActionOptions_zero) False =
      Inr (DefaultRule \<lparr>entries = [(Items, NewNetworkItem [''tcp'']),
        (DestinationPortItems, NewPortItem False [80, 443])],
        ruleSetItem = None, invert = True, action = None\<rparr>)"
    by (simp add: NewRule.simps valid web_rule missing_outbound_def)
  have checked: "validateNoNestedRuleActions
      (OptionRule RuleTypeDefault web_options [] [] False RuleActionOptions_zero) True = Inr ()"
    by (simp add: validateNoNestedRuleActions.simps ruleHasConfiguredAction_def act
        RuleTypeLogical_def RuleTypeDefault_def)
  have built: "NewRule plain_action_env plain_env nested_options True =
      Inr (LogicalRule [DefaultRule \<lparr>entries = [(Items, NewNetworkItem [''tcp'']),
        (DestinationPortItems, NewPortItem False [80, 443])],
        ruleSetItem = None, invert = True, action = None\<rparr>] ''and'' False (Some RuleActionHijackDNS))"
    by (subst NewRule.simps) (simp add: nested_options_def sub checked valid types
        LogicalRule_IsValid_def NewLogicalRule.simps NewRuleAction_def action_types logical_mode_def
        missing_outbound_def LogicalTypeAnd_def)
  show ?thesis using nested_rules_have_no_action [OF built] built by blast
qed

text \<open>
  The metadata of a rule set tells the truth about addresses: for decoded options that build,
  \<^verbatim>\<open>ContainsIPCIDRRule\<close> holds exactly when some built rule, at any depth, has a destination address
  condition.
\<close>

theorem rule_set_metadata_ipcidr:
  assumes "map_res (NewHeadlessRule E nm) opts = Inr hs" and "list_all decoded opts"
  shows "ContainsIPCIDRRule (buildRuleSetMetadata opts) \<longleftrightarrow> list_ex has_cidr hs"
  using headless_list_has_cidr [OF _ assms(2)] assms(1) by (simp add: map_res_Inr)

theorem rule_set_metadata_ipcidr_witness:
  "\<exists>hs. map_res (NewHeadlessRule plain_env False) [port_set_options] = Inr hs \<and>
     ContainsIPCIDRRule (buildRuleSetMetadata [port_set_options]) \<and> list_ex has_cidr hs"
proof -
  have built: "map_res (NewHeadlessRule plain_env False) [port_set_options] =
     Inr [DefaultRule \<lparr>entries = [(DestinationIPCIDRItems, NewRawIPCIDRItem False (RawIPSet [])),
          (DestinationPortItems, NewPortItem False [53])],
        ruleSetItem = None, invert = False, action = None\<rparr>]" (is "_ = Inr ?hs")
    by (simp add: port_set_rule)
  have "list_all decoded [port_set_options]" by (simp add: port_set_options_def)
  then show ?thesis
    using rule_set_metadata_ipcidr [OF built] built by (simp add: slot_items_def)
qed

text \<open>
  The check for missing conditions compares with the zero value, in which a list is nil: an
  option given as an empty list passes it, and the rule that is built has no condition and matches
  everything, while leaving the option out is an error.
\<close>

theorem empty_list_passes_validation:
  "NewHeadlessRule E nm (OptionRule RuleTypeDefault DefaultHeadlessRuleOptions_zero [] [] False ()) =
     Inl missing_conditions \<and>
   (\<exists>h. NewHeadlessRule E nm (OptionRule RuleTypeDefault
          (DefaultHeadlessRuleOptions_zero\<lparr>hr_Domain := Some []\<rparr>) [] [] False ()) = Inr h \<and>
        (\<forall>m. \<not> isEmpty (headless_matchStatesWithBase E h m 0)))"
proof -
  have "NewHeadlessRule E nm (OptionRule RuleTypeDefault
          (DefaultHeadlessRuleOptions_zero\<lparr>hr_Domain := Some []\<rparr>) [] [] False ()) =
     Inr (DefaultRule \<lparr>entries = [], ruleSetItem = None, invert = False, action = None\<rparr>)"
    by (cases nm) (simp_all add: NewHeadlessRule.simps DefaultHeadlessRule_IsValid_def
      DefaultHeadlessRuleOptions_zero_def NewDefaultHeadlessRule_def headless_blocks_def collect_def
      headless_address_blocks_def headless_port_process_blocks_def headless_network_blocks_def
      headless_adguard_block_def on_flag_def on_flag_res_def RuleTypeDefault_def)
  then show ?thesis
    by (simp add: NewHeadlessRule.simps DefaultHeadlessRule_IsValid_def RuleTypeDefault_def
        DefaultHeadlessRuleOptions_zero_def headless_matchStatesWithBase_def
        default_matchStatesWithBase_def no_items_def isEmpty_def)
qed

end
