(* ===== verification/Rule_Set.thy ===== *)
theory Rule_Set
  imports Rule_Build
begin

text \<open>
  Rule sets and their users: \<^verbatim>\<open>route/rule/rule_set.go\<close>, \<^verbatim>\<open>rule_set_local.go\<close>, \<^verbatim>\<open>rule_set_remote.go\<close> and
  the life cycle of \<^verbatim>\<open>rule_item_rule_set.go\<close>.

  A rule set is a value and an operation returns the new value; what runs under the mutex of the
  source is one step.  Reading and decoding a file, the watcher, HTTP and the clock are arguments.
  A reference counter is an integer: the number of rule-set items of a configuration is far below
  the bound of an \<^verbatim>\<open>int32\<close>.  A panic ends the run, so it has no state.  Callbacks are known by a
  number, and the handle \<^verbatim>\<open>RegisterCallback\<close> returns is the position in the order of registration.
  Times are nanoseconds and 0 is the zero time.
\<close>

subsection \<open>What the rule sets consult\<close>

datatype client_request = ConfiguredClient | DetourClient string

record rs_env =
  ReadFile :: "string \<Rightarrow> bytes res"
  UnmarshalPlain :: "bytes \<Rightarrow> PlainRuleSetCompat res"
  srs_Read :: "bytes \<Rightarrow> PlainRuleSetCompat res"
  AbsPath :: "string \<Rightarrow> string"
  NewWatcher :: "string \<Rightarrow> error option"
  UpdateValidator :: "(string \<Rightarrow> RuleSetMetadata \<Rightarrow> error option) option"
  ResolveTransport :: "client_request \<Rightarrow> error option"
  DefaultTransport :: bool
  rs_items :: env
  rs_networkManager :: bool

definition validateRuleSetMetadataUpdate ::
  "rs_env \<Rightarrow> string \<Rightarrow> RuleSetMetadata \<Rightarrow> error option" where
  "validateRuleSetMetadataUpdate R tag md =
     (case UpdateValidator R of None \<Rightarrow> None | Some v \<Rightarrow> v tag md)"

definition NoMetadata :: RuleSetMetadata where
  "NoMetadata = \<lparr>ContainsProcessRule = False, ContainsWIFIRule = False, ContainsIPCIDRRule = False,
     ContainsDNSQueryTypeRule = False, ContainsNonIPCIDRRule = False\<rparr>"

text \<open>The loop over the options in \<^verbatim>\<open>reloadRules\<close> and in \<^verbatim>\<open>loadBytes\<close>.\<close>

definition build_rules :: "rs_env \<Rightarrow> headless_options list \<Rightarrow> headless_rule list res" where
  "build_rules R opts =
     map_res_idx ''parse rule_set.rules.['' '']'' 0
       (NewHeadlessRule (rs_items R) (rs_networkManager R)) opts"

subsection \<open>Local rule sets\<close>

record LocalRuleSet =
  ls_tag :: string
  ls_rules :: "headless_rule list"
  ls_metadata :: RuleSetMetadata
  ls_fileFormat :: string
  ls_watcher :: "string option"
  ls_watching :: bool
  ls_callbacks :: "(nat \<times> nat) list"
  ls_nextHandle :: nat
  ls_refs :: int

text \<open>The error, the rule set and the callbacks that were called, in order.\<close>

definition Local_reloadRules ::
  "rs_env \<Rightarrow> LocalRuleSet \<Rightarrow> headless_options list \<Rightarrow> error option \<times> LocalRuleSet \<times> nat list" where
  "Local_reloadRules R s headlessRules =
     (case build_rules R headlessRules of
        Inl e \<Rightarrow> (Some e, s, [])
      | Inr rules \<Rightarrow>
          let metadata = buildRuleSetMetadata headlessRules
          in case validateRuleSetMetadataUpdate R (ls_tag s) metadata of
               Some e \<Rightarrow> (Some e, s, [])
             | None \<Rightarrow> (None, s\<lparr>ls_rules := rules, ls_metadata := metadata\<rparr>, map snd (ls_callbacks s)))"

definition Local_decodeFile :: "rs_env \<Rightarrow> string \<Rightarrow> string \<Rightarrow> PlainRuleSetCompat res" where
  "Local_decodeFile R fileFormat path =
     (if fileFormat = RuleSetFormatSource \<or> fileFormat = [] then
        bind_res (ReadFile R path) (UnmarshalPlain R)
      else if fileFormat = RuleSetFormatBinary then
        bind_res (ReadFile R path) (srs_Read R)
      else Inl (New (''unknown rule-set format: '' @ fileFormat)))"

definition Local_reloadFile ::
  "rs_env \<Rightarrow> LocalRuleSet \<Rightarrow> string \<Rightarrow> error option \<times> LocalRuleSet \<times> nat list" where
  "Local_reloadFile R s path =
     (case Local_decodeFile R (ls_fileFormat s) path of
        Inl e \<Rightarrow> (Some e, s, [])
      | Inr ruleSet \<Rightarrow>
          (case PlainRuleSetCompat_Upgrade ruleSet of
             Inl e \<Rightarrow> (Some e, s, [])
           | Inr rules \<Rightarrow> Local_reloadRules R s rules))"

definition NewLocalRuleSet :: "rs_env \<Rightarrow> rule_set_options \<Rightarrow> LocalRuleSet res" where
  "NewLocalRuleSet R options =
     (let ruleSet = \<lparr>ls_tag = so_Tag options, ls_rules = [], ls_metadata = NoMetadata,
            ls_fileFormat = so_Format options, ls_watcher = None, ls_watching = False,
            ls_callbacks = [], ls_nextHandle = 0, ls_refs = 0\<rparr>
      in if so_Type options = RuleSetTypeInline then
           (if so_InlineRules options = [] then Inl (New ''empty inline rule-set'')
            else (case Local_reloadRules R ruleSet (so_InlineRules options) of
                    (Some e, _, _) \<Rightarrow> Inl e
                  | (None, s, _) \<Rightarrow> Inr s))
         else
           (let filePath = AbsPath R (so_Path options)
            in case Local_reloadFile R ruleSet filePath of
                 (Some e, _, _) \<Rightarrow> Inl e
               | (None, s, _) \<Rightarrow>
                   (case NewWatcher R filePath of
                      Some e \<Rightarrow> Inl e
                    | None \<Rightarrow> Inr (s\<lparr>ls_watcher := Some filePath\<rparr>))))"

text \<open>A watcher that fails to start is logged, and the rule set starts without it.\<close>

definition Local_StartContext :: "error option \<Rightarrow> LocalRuleSet \<Rightarrow> error option \<times> LocalRuleSet" where
  "Local_StartContext watchErr s =
     (if ls_watcher s \<noteq> None then (None, s\<lparr>ls_watching := (watchErr = None)\<rparr>) else (None, s))"

definition negative_refs :: error where "negative_refs = Panic ''rule-set: negative refs''"

definition Local_IncRef :: "LocalRuleSet \<Rightarrow> LocalRuleSet" where
  "Local_IncRef s = s\<lparr>ls_refs := ls_refs s + 1\<rparr>"

definition Local_DecRef :: "LocalRuleSet \<Rightarrow> LocalRuleSet res" where
  "Local_DecRef s =
     (if ls_refs s - 1 < 0 then Inl negative_refs else Inr (s\<lparr>ls_refs := ls_refs s - 1\<rparr>))"

definition Local_Cleanup :: "LocalRuleSet \<Rightarrow> LocalRuleSet" where
  "Local_Cleanup s = (if ls_refs s = 0 then s\<lparr>ls_rules := []\<rparr> else s)"

definition Local_RegisterCallback :: "LocalRuleSet \<Rightarrow> nat \<Rightarrow> nat \<times> LocalRuleSet" where
  "Local_RegisterCallback s callback =
     (ls_nextHandle s, s\<lparr>ls_callbacks := ls_callbacks s @ [(ls_nextHandle s, callback)],
                         ls_nextHandle := ls_nextHandle s + 1\<rparr>)"

definition Local_UnregisterCallback :: "LocalRuleSet \<Rightarrow> nat \<Rightarrow> LocalRuleSet" where
  "Local_UnregisterCallback s element =
     s\<lparr>ls_callbacks := filter (\<lambda>c. fst c \<noteq> element) (ls_callbacks s)\<rparr>"

definition Local_Close :: "error option \<Rightarrow> LocalRuleSet \<Rightarrow> error option \<times> LocalRuleSet" where
  "Local_Close closeErr s =
     (if ls_watcher s = None then None else closeErr, s\<lparr>ls_rules := [], ls_watching := False\<rparr>)"

definition Local_ExtractIPSet :: "LocalRuleSet \<Rightarrow> ipset list" where
  "Local_ExtractIPSet s = concat (map extractIPSetFromRule (ls_rules s))"

definition Local_matchStatesWithBase ::
  "env \<Rightarrow> LocalRuleSet \<Rightarrow> inbound_context \<Rightarrow> ruleMatchState \<Rightarrow> ruleMatchStateSet" where
  "Local_matchStatesWithBase E s m base =
     rules_matchStatesWithBase (headless_matchStatesWithBase E) (ls_rules s) m base"

definition Local_Match :: "env \<Rightarrow> LocalRuleSet \<Rightarrow> inbound_context \<Rightarrow> bool" where
  "Local_Match E s m \<longleftrightarrow> \<not> isEmpty (Local_matchStatesWithBase E s m 0)"

subsection \<open>Remote rule sets\<close>

record SavedBinary =
  sv_Content :: bytes
  sv_LastUpdated :: int
  sv_LastEtag :: string

text \<open>The cache file: what it holds under a tag, and whether a save fails.\<close>

record rule_set_cache =
  ca_saved :: "string \<Rightarrow> SavedBinary option"
  ca_saveError :: "error option"

datatype http_result =
    RequestError error
  | DoError error
  | Response nat string string "bytes res"

record RemoteRuleSet =
  rm_options :: rule_set_options
  rm_updateInterval :: duration
  rm_rules :: "headless_rule list"
  rm_metadata :: RuleSetMetadata
  rm_lastUpdated :: int
  rm_lastEtag :: string
  rm_updateTicker :: bool
  rm_canceled :: bool
  rm_callbacks :: "(nat \<times> nat) list"
  rm_nextHandle :: nat
  rm_refs :: int

definition hours24 :: duration where "hours24 = 24 * 3600 * 10 ^ 9"

definition NewRemoteRuleSet :: "rule_set_options \<Rightarrow> RemoteRuleSet" where
  "NewRemoteRuleSet options =
     \<lparr>rm_options = options,
      rm_updateInterval = (if so_UpdateInterval options > 0 then so_UpdateInterval options else hours24),
      rm_rules = [], rm_metadata = NoMetadata, rm_lastUpdated = 0, rm_lastEtag = [],
      rm_updateTicker = False, rm_canceled = False, rm_callbacks = [], rm_nextHandle = 0,
      rm_refs = 0\<rparr>"

definition Remote_parse :: "rs_env \<Rightarrow> string \<Rightarrow> bytes \<Rightarrow> PlainRuleSetCompat res" where
  "Remote_parse R fmt content =
     (if fmt = RuleSetFormatSource then UnmarshalPlain R content
      else if fmt = RuleSetFormatBinary then srs_Read R content
      else Inl (New (''unknown rule-set format: '' @ fmt)))"

definition Remote_loadBytes ::
  "rs_env \<Rightarrow> RemoteRuleSet \<Rightarrow> bytes \<Rightarrow> error option \<times> RemoteRuleSet \<times> nat list" where
  "Remote_loadBytes R s content =
     (case bind_res (Remote_parse R (so_Format (rm_options s)) content) PlainRuleSetCompat_Upgrade of
           Inl e \<Rightarrow> (Some e, s, [])
         | Inr opts \<Rightarrow>
             (case build_rules R opts of
                Inl e \<Rightarrow> (Some e, s, [])
              | Inr rules \<Rightarrow>
                  let metadata = buildRuleSetMetadata opts
                  in case validateRuleSetMetadataUpdate R (so_Tag (rm_options s)) metadata of
                       Some e \<Rightarrow> (Some e, s, [])
                     | None \<Rightarrow> (None, s\<lparr>rm_metadata := metadata, rm_rules := rules\<rparr>,
                                 map snd (rm_callbacks s))))"

text \<open>
  \<^verbatim>\<open>fetch\<close> at the time \<open>now\<close>: the HTTP client answers a URL and the header \<^verbatim>\<open>If-None-Match\<close>;
  \<open>cache\<close> is \<open>None\<close> when no cache file is configured.  A save that fails is logged only.
\<close>

type_synonym http_client = "string \<Rightarrow> string option \<Rightarrow> http_result"

definition fetch_etag :: "RemoteRuleSet \<Rightarrow> string option" where
  "fetch_etag s = (if rm_lastEtag s \<noteq> [] then Some (rm_lastEtag s) else None)"

definition SaveRuleSet :: "rule_set_cache \<Rightarrow> string \<Rightarrow> SavedBinary \<Rightarrow> rule_set_cache" where
  "SaveRuleSet c tag saved =
     (if ca_saveError c = None then c\<lparr>ca_saved := (ca_saved c)(tag := Some saved)\<rparr> else c)"

definition Remote_notModified ::
  "int \<Rightarrow> rule_set_cache option \<Rightarrow> RemoteRuleSet \<Rightarrow> RemoteRuleSet \<times> rule_set_cache option" where
  "Remote_notModified now cache s =
     (s\<lparr>rm_lastUpdated := now\<rparr>,
      case cache of
        None \<Rightarrow> None
      | Some c \<Rightarrow>
          (case ca_saved c (so_Tag (rm_options s)) of
             None \<Rightarrow> Some c
           | Some saved \<Rightarrow>
               Some (SaveRuleSet c (so_Tag (rm_options s)) (saved\<lparr>sv_LastUpdated := now\<rparr>))))"

definition Remote_updated ::
  "int \<Rightarrow> string \<Rightarrow> bytes \<Rightarrow> rule_set_cache option \<Rightarrow> RemoteRuleSet
   \<Rightarrow> RemoteRuleSet \<times> rule_set_cache option" where
  "Remote_updated now eTagHeader content cache s =
     (let s' = s\<lparr>rm_lastEtag := (if eTagHeader \<noteq> [] then eTagHeader else rm_lastEtag s),
                 rm_lastUpdated := now\<rparr>
      in (s', case cache of
                None \<Rightarrow> None
              | Some c \<Rightarrow> Some (SaveRuleSet c (so_Tag (rm_options s))
                  \<lparr>sv_Content = content, sv_LastUpdated = now, sv_LastEtag = rm_lastEtag s'\<rparr>)))"

text \<open>The error, the rule set, the cache file and the callbacks that were called.\<close>

type_synonym fetched = "error option \<times> RemoteRuleSet \<times> rule_set_cache option \<times> nat list"

definition Remote_fetch ::
  "rs_env \<Rightarrow> int \<Rightarrow> http_client \<Rightarrow> rule_set_cache option \<Rightarrow> RemoteRuleSet \<Rightarrow> fetched" where
  "Remote_fetch R now http cache s =
     (case http (so_URL (rm_options s)) (fetch_etag s) of
        RequestError e \<Rightarrow> (Some e, s, cache, [])
      | DoError e \<Rightarrow> (Some e, s, cache, [])
      | Response statusCode status eTagHeader body \<Rightarrow>
          if statusCode = 304 then
            (let (s', cache') = Remote_notModified now cache s in (None, s', cache', []))
          else if statusCode \<noteq> 200 then (Some (New (''unexpected status: '' @ status)), s, cache, [])
          else
            (case body of
               Inl e \<Rightarrow> (Some e, s, cache, [])
             | Inr content \<Rightarrow>
                 (case Remote_loadBytes R s content of
                    (Some e, s', called) \<Rightarrow> (Some e, s', cache, called)
                  | (None, s', called) \<Rightarrow>
                      (let (s'', cache') = Remote_updated now eTagHeader content cache s'
                       in (None, s'', cache', called)))))"

text \<open>In the options, \<open>Some b\<close> is a given HTTP client and \<open>b\<close> its \<^verbatim>\<open>IsEmpty\<close>.\<close>

definition Remote_resolveTransport :: "rs_env \<Rightarrow> RemoteRuleSet \<Rightarrow> error option" where
  "Remote_resolveTransport R s =
     (if so_HTTPClient (rm_options s) = Some False then
        (if so_DownloadDetour (rm_options s) \<noteq> []
         then Some (New ''http_client is conflict with deprecated download_detour field'')
         else ResolveTransport R ConfiguredClient)
      else if so_DownloadDetour (rm_options s) \<noteq> [] then
        ResolveTransport R (DetourClient (so_DownloadDetour (rm_options s)))
      else if \<not> DefaultTransport R then
        Some (New ''default http client transport is not initialized'')
      else None)"

definition Remote_restore ::
  "rs_env \<Rightarrow> rule_set_cache option \<Rightarrow> RemoteRuleSet \<Rightarrow> RemoteRuleSet \<times> nat list" where
  "Remote_restore R cache s =
     (case cache of
        None \<Rightarrow> (s, [])
      | Some c \<Rightarrow>
          (case ca_saved c (so_Tag (rm_options s)) of
             None \<Rightarrow> (s, [])
           | Some saved \<Rightarrow>
               (case Remote_loadBytes R s (sv_Content saved) of
                  (Some _, s', called) \<Rightarrow> (s', called)
                | (None, s', called) \<Rightarrow>
                    (s'\<lparr>rm_lastUpdated := sv_LastUpdated saved, rm_lastEtag := sv_LastEtag saved\<rparr>,
                     called))))"

definition Remote_StartContext ::
  "rs_env \<Rightarrow> int \<Rightarrow> http_client \<Rightarrow> rule_set_cache option \<Rightarrow> RemoteRuleSet \<Rightarrow> fetched" where
  "Remote_StartContext R now http cache s =
     (case Remote_resolveTransport R s of
        Some e \<Rightarrow> (Some (Cause e ''create rule-set http client''), s, cache, [])
      | None \<Rightarrow>
          let (s1, called) = Remote_restore R cache s
          in if rm_lastUpdated s1 = 0 then
               (case Remote_fetch R now http cache s1 of
                  (Some e, s2, cache', called') \<Rightarrow>
                    (Some (Cause e (''initial rule-set: '' @ so_Tag (rm_options s))), s2, cache',
                     called @ called')
                | (None, s2, cache', called') \<Rightarrow>
                    (None, s2\<lparr>rm_updateTicker := True\<rparr>, cache', called @ called'))
             else (None, s1\<lparr>rm_updateTicker := True\<rparr>, cache, called))"

definition Remote_updateOnce ::
  "rs_env \<Rightarrow> int \<Rightarrow> http_client \<Rightarrow> rule_set_cache option \<Rightarrow> RemoteRuleSet
   \<Rightarrow> RemoteRuleSet \<times> rule_set_cache option \<times> nat list" where
  "Remote_updateOnce R now http cache s =
     (case Remote_fetch R now http cache s of
        (Some e, s', cache', called) \<Rightarrow> (s', cache', called)
      | (None, s', cache', called) \<Rightarrow>
          (if rm_refs s' = 0 then s'\<lparr>rm_rules := []\<rparr> else s', cache', called))"

text \<open>
  \<^verbatim>\<open>loopUpdate\<close> on the times it wakes at, each with the answers of the HTTP client then: the first
  entry is the start of the loop, which updates only when the interval has passed, and each later
  one a tick.  The list ends where the context is done.
\<close>

fun Remote_ticks ::
  "rs_env \<Rightarrow> (int \<times> http_client) list \<Rightarrow> rule_set_cache option \<Rightarrow> RemoteRuleSet
   \<Rightarrow> RemoteRuleSet \<times> rule_set_cache option" where
  "Remote_ticks R [] cache s = (s, cache)"
| "Remote_ticks R ((now, http) # ticks) cache s =
     (let (s', cache', _) = Remote_updateOnce R now http cache s in Remote_ticks R ticks cache' s')"

fun Remote_loopUpdate ::
  "rs_env \<Rightarrow> (int \<times> http_client) list \<Rightarrow> rule_set_cache option \<Rightarrow> RemoteRuleSet
   \<Rightarrow> RemoteRuleSet \<times> rule_set_cache option" where
  "Remote_loopUpdate R [] cache s = (s, cache)"
| "Remote_loopUpdate R ((now, http) # ticks) cache s =
     (if now - rm_lastUpdated s > rm_updateInterval s
      then Remote_ticks R ((now, http) # ticks) cache s
      else Remote_ticks R ticks cache s)"

definition Remote_IncRef :: "RemoteRuleSet \<Rightarrow> RemoteRuleSet" where
  "Remote_IncRef s = s\<lparr>rm_refs := rm_refs s + 1\<rparr>"

definition Remote_DecRef :: "RemoteRuleSet \<Rightarrow> RemoteRuleSet res" where
  "Remote_DecRef s =
     (if rm_refs s - 1 < 0 then Inl negative_refs else Inr (s\<lparr>rm_refs := rm_refs s - 1\<rparr>))"

definition Remote_Cleanup :: "RemoteRuleSet \<Rightarrow> RemoteRuleSet" where
  "Remote_Cleanup s = (if rm_refs s = 0 then s\<lparr>rm_rules := []\<rparr> else s)"

definition Remote_RegisterCallback :: "RemoteRuleSet \<Rightarrow> nat \<Rightarrow> nat \<times> RemoteRuleSet" where
  "Remote_RegisterCallback s callback =
     (rm_nextHandle s, s\<lparr>rm_callbacks := rm_callbacks s @ [(rm_nextHandle s, callback)],
                         rm_nextHandle := rm_nextHandle s + 1\<rparr>)"

definition Remote_UnregisterCallback :: "RemoteRuleSet \<Rightarrow> nat \<Rightarrow> RemoteRuleSet" where
  "Remote_UnregisterCallback s element =
     s\<lparr>rm_callbacks := filter (\<lambda>c. fst c \<noteq> element) (rm_callbacks s)\<rparr>"

definition Remote_Close :: "RemoteRuleSet \<Rightarrow> RemoteRuleSet" where
  "Remote_Close s = s\<lparr>rm_rules := [], rm_canceled := True, rm_updateTicker := False\<rparr>"

definition Remote_ExtractIPSet :: "RemoteRuleSet \<Rightarrow> ipset list" where
  "Remote_ExtractIPSet s = concat (map extractIPSetFromRule (rm_rules s))"

definition Remote_matchStatesWithBase ::
  "env \<Rightarrow> RemoteRuleSet \<Rightarrow> inbound_context \<Rightarrow> ruleMatchState \<Rightarrow> ruleMatchStateSet" where
  "Remote_matchStatesWithBase E s m base =
     rules_matchStatesWithBase (headless_matchStatesWithBase E) (rm_rules s) m base"

definition Remote_Match :: "env \<Rightarrow> RemoteRuleSet \<Rightarrow> inbound_context \<Rightarrow> bool" where
  "Remote_Match E s m \<longleftrightarrow> \<not> isEmpty (Remote_matchStatesWithBase E s m 0)"

subsection \<open>The interface \<^verbatim>\<open>adapter.RuleSet\<close> and its users\<close>

datatype rule_set = LocalSet LocalRuleSet | RemoteSet RemoteRuleSet

definition NewRuleSet :: "rs_env \<Rightarrow> rule_set_options \<Rightarrow> rule_set res" where
  "NewRuleSet R options =
     (if so_Type options \<in> {RuleSetTypeInline, RuleSetTypeLocal, []} then
        (case NewLocalRuleSet R options of Inl e \<Rightarrow> Inl e | Inr s \<Rightarrow> Inr (LocalSet s))
      else if so_Type options = RuleSetTypeRemote then Inr (RemoteSet (NewRemoteRuleSet options))
      else Inl (New (''unknown rule-set type: '' @ so_Type options)))"

fun set_refs :: "rule_set \<Rightarrow> int" where
  "set_refs (LocalSet s) = ls_refs s"
| "set_refs (RemoteSet s) = rm_refs s"

fun set_rules :: "rule_set \<Rightarrow> headless_rule list" where
  "set_rules (LocalSet s) = ls_rules s"
| "set_rules (RemoteSet s) = rm_rules s"

fun set_Metadata :: "rule_set \<Rightarrow> RuleSetMetadata" where
  "set_Metadata (LocalSet s) = ls_metadata s"
| "set_Metadata (RemoteSet s) = rm_metadata s"

fun set_IncRef :: "rule_set \<Rightarrow> rule_set" where
  "set_IncRef (LocalSet s) = LocalSet (Local_IncRef s)"
| "set_IncRef (RemoteSet s) = RemoteSet (Remote_IncRef s)"

fun set_DecRef :: "rule_set \<Rightarrow> rule_set res" where
  "set_DecRef (LocalSet s) = (case Local_DecRef s of Inl e \<Rightarrow> Inl e | Inr s' \<Rightarrow> Inr (LocalSet s'))"
| "set_DecRef (RemoteSet s) = (case Remote_DecRef s of Inl e \<Rightarrow> Inl e | Inr s' \<Rightarrow> Inr (RemoteSet s'))"

fun set_matchStatesWithBase ::
  "env \<Rightarrow> rule_set \<Rightarrow> inbound_context \<Rightarrow> ruleMatchState \<Rightarrow> ruleMatchStateSet" where
  "set_matchStatesWithBase E (LocalSet s) m base = Local_matchStatesWithBase E s m base"
| "set_matchStatesWithBase E (RemoteSet s) m base = Remote_matchStatesWithBase E s m base"

fun set_Cleanup :: "rule_set \<Rightarrow> rule_set" where
  "set_Cleanup (LocalSet s) = LocalSet (Local_Cleanup s)"
| "set_Cleanup (RemoteSet s) = RemoteSet (Remote_Cleanup s)"

fun set_Close :: "error option \<Rightarrow> rule_set \<Rightarrow> error option \<times> rule_set" where
  "set_Close closeErr (LocalSet s) = (let (e, s') = Local_Close closeErr s in (e, LocalSet s'))"
| "set_Close closeErr (RemoteSet s) = (None, RemoteSet (Remote_Close s))"

text \<open>The router's map from tags to rule sets; every item of a set list is a tag of it.\<close>

type_synonym rule_sets = "string \<Rightarrow> rule_set option"

fun dec_all :: "('s \<Rightarrow> 's res) \<Rightarrow> (string \<Rightarrow> 's option) \<Rightarrow> string list \<Rightarrow> (string \<Rightarrow> 's option) res" where
  "dec_all dec sets [] = Inr sets"
| "dec_all dec sets (tag # tags) =
     (case sets tag of
        None \<Rightarrow> Inl (Panic ''nil pointer dereference'')
      | Some s \<Rightarrow> (case dec s of
                     Inl e \<Rightarrow> Inl e
                   | Inr s' \<Rightarrow> dec_all dec (sets(tag \<mapsto> s')) tags))"

definition RuleSetItem_Close :: "rule_sets \<Rightarrow> rule_set_item \<Rightarrow> (rule_set_item \<times> rule_sets) res" where
  "RuleSetItem_Close sets r =
     (case dec_all set_DecRef sets (setList r) of
        Inl e \<Rightarrow> Inl e
      | Inr sets' \<Rightarrow> Inr (r\<lparr>setList := []\<rparr>, sets'))"

definition rule_set_not_found :: "string \<Rightarrow> error" where
  "rule_set_not_found tag = New (''rule-set not found: '' @ tag)"

fun RuleSetItem_Start_loop ::
  "rule_sets \<Rightarrow> rule_set_item \<Rightarrow> string list \<Rightarrow> (error option \<times> rule_set_item \<times> rule_sets) res" where
  "RuleSetItem_Start_loop sets r [] = Inr (None, r, sets)"
| "RuleSetItem_Start_loop sets r (tag # tags) =
     (case sets tag of
        None \<Rightarrow>
          (case RuleSetItem_Close sets r of
             Inl e \<Rightarrow> Inl e
           | Inr (r', sets') \<Rightarrow> Inr (Some (rule_set_not_found tag), r', sets'))
      | Some s \<Rightarrow>
          RuleSetItem_Start_loop (sets(tag \<mapsto> set_IncRef s)) (r\<lparr>setList := setList r @ [tag]\<rparr>) tags)"

definition RuleSetItem_Start ::
  "rule_sets \<Rightarrow> rule_set_item \<Rightarrow> (error option \<times> rule_set_item \<times> rule_sets) res" where
  "RuleSetItem_Start sets r =
     (case RuleSetItem_Close sets r of
        Inl e \<Rightarrow> Inl e
      | Inr (r', sets') \<Rightarrow> RuleSetItem_Start_loop sets' r' (tagList r'))"

definition ContainsDestinationIPCIDRRule :: "rule_sets \<Rightarrow> rule_set_item \<Rightarrow> bool" where
  "ContainsDestinationIPCIDRRule sets r =
     (if ipCidrMatchSource r then False
      else list_ex (\<lambda>tag. case sets tag of
                            None \<Rightarrow> False
                          | Some s \<Rightarrow> ContainsIPCIDRRule (set_Metadata s)) (setList r))"

subsection \<open>Reference counting\<close>

definition owned :: "('s \<Rightarrow> int) \<Rightarrow> (string \<Rightarrow> 's option) \<Rightarrow> string list \<Rightarrow> bool" where
  "owned refs sets tags \<longleftrightarrow>
     (\<forall>tag. case sets tag of None \<Rightarrow> tag \<notin> set tags | Some s \<Rightarrow> int (count_list tags tag) \<le> refs s)"

text \<open>The counters moved by \<open>d\<close> and nothing else that \<open>content\<close> sees has changed.\<close>

definition moved ::
  "('s \<Rightarrow> int) \<Rightarrow> ('s \<Rightarrow> 'c) \<Rightarrow> (string \<Rightarrow> 's option) \<Rightarrow> (string \<Rightarrow> 's option) \<Rightarrow> (string \<Rightarrow> int) \<Rightarrow> bool" where
  "moved refs content sets sets' d \<longleftrightarrow>
     (\<forall>tag. map_option (\<lambda>s. (refs s, content s)) (sets' tag) =
            map_option (\<lambda>s. (refs s + d tag, content s)) (sets tag))"

lemma moved_None: "moved refs content sets sets' d \<Longrightarrow> sets' tag = None \<longleftrightarrow> sets tag = None"
  by (cases "sets tag"; cases "sets' tag") (auto simp: moved_def dest!: spec [of _ tag])

lemma moved_Some:
  "moved refs content sets sets' d \<Longrightarrow> sets' tag = Some s' \<Longrightarrow>
     \<exists>s. sets tag = Some s \<and> refs s' = refs s + d tag \<and> content s' = content s"
  by (cases "sets tag") (auto simp: moved_def dest!: spec [of _ tag])

lemma moved_trans:
  assumes "moved refs content sets sets' d" and "moved refs content sets' sets'' e"
    and "\<And>tag. f tag = d tag + e tag"
  shows "moved refs content sets sets'' f"
  unfolding moved_def
proof
  fix tag
  show "map_option (\<lambda>s. (refs s, content s)) (sets'' tag) =
      map_option (\<lambda>s. (refs s + f tag, content s)) (sets tag)"
    using assms(1,2)[unfolded moved_def, rule_format, of tag] assms(3)[of tag]
    by (cases "sets tag"; cases "sets' tag"; cases "sets'' tag") auto
qed

locale ref_counted =
  fixes refs :: "'s \<Rightarrow> int" and inc :: "'s \<Rightarrow> 's" and dec :: "'s \<Rightarrow> 's res" and content :: "'s \<Rightarrow> 'c"
  assumes refs_inc: "refs (inc s) = refs s + 1"
    and content_inc: "content (inc s) = content s"
    and dec_positive: "0 < refs s \<Longrightarrow> \<exists>s'. dec s = Inr s' \<and> refs s' = refs s - 1 \<and> content s' = content s"
    and dec_panics: "refs s \<le> 0 \<Longrightarrow> dec s = Inl negative_refs"
begin

lemma moved_inc:
  "sets tag = Some s \<Longrightarrow> moved refs content sets (sets(tag \<mapsto> inc s)) (\<lambda>t. if t = tag then 1 else 0)"
  by (simp add: moved_def refs_inc content_inc)

lemma dec_all_owned:
  "owned refs sets tags \<Longrightarrow>
     \<exists>sets'. dec_all dec sets tags = Inr sets' \<and>
       moved refs content sets sets' (\<lambda>tag. - int (count_list tags tag))"
proof (induction tags arbitrary: sets)
  case Nil
  show ?case by (simp add: moved_def)
next
  case (Cons tag tags)
  obtain s where s: "sets tag = Some s" "int (count_list tags tag) + 1 \<le> refs s"
    using Cons.prems by (auto simp: owned_def split: option.splits dest!: spec [of _ tag])
  then obtain s' where s': "dec s = Inr s'" "refs s' = refs s - 1" "content s' = content s"
    using dec_positive [of s] by auto
  have "owned refs (sets(tag \<mapsto> s')) tags"
    using Cons.prems s s' unfolding owned_def
    by (auto split: option.splits if_splits)
  then obtain sets' where IH: "dec_all dec (sets(tag \<mapsto> s')) tags = Inr sets'"
      "moved refs content (sets(tag \<mapsto> s')) sets' (\<lambda>t. - int (count_list tags t))"
    using Cons.IH by blast
  have "moved refs content sets (sets(tag \<mapsto> s')) (\<lambda>t. if t = tag then - 1 else 0)"
    using s s' by (simp add: moved_def)
  then have "moved refs content sets sets' (\<lambda>t. - int (count_list (tag # tags) t))"
    using IH(2) by (rule moved_trans) simp
  then show ?case using s s' IH(1) by auto
qed

lemma dec_all_panics:
  "sets tag = Some s \<Longrightarrow> refs s \<le> 0 \<Longrightarrow> dec_all dec sets (tag # tags) = Inl negative_refs"
  by (simp add: dec_panics)

end

interpretation lrs: ref_counted ls_refs Local_IncRef Local_DecRef
    "\<lambda>s. s\<lparr>ls_refs := 0\<rparr>"
  by unfold_locales (auto simp: Local_IncRef_def Local_DecRef_def)

interpretation rrs: ref_counted rm_refs Remote_IncRef Remote_DecRef
    "\<lambda>s. s\<lparr>rm_refs := 0\<rparr>"
  by unfold_locales (auto simp: Remote_IncRef_def Remote_DecRef_def)

fun set_content :: "rule_set \<Rightarrow> rule_set" where
  "set_content (LocalSet s) = LocalSet (s\<lparr>ls_refs := 0\<rparr>)"
| "set_content (RemoteSet s) = RemoteSet (s\<lparr>rm_refs := 0\<rparr>)"

interpretation rs: ref_counted set_refs set_IncRef set_DecRef set_content
proof
  fix s
  show "set_refs (set_IncRef s) = set_refs s + 1"
    by (cases s) (simp_all add: lrs.refs_inc rrs.refs_inc)
  show "set_content (set_IncRef s) = set_content s"
    by (cases s) (simp_all add: lrs.content_inc rrs.content_inc)
  show "0 < set_refs s \<Longrightarrow>
      \<exists>s'. set_DecRef s = Inr s' \<and> set_refs s' = set_refs s - 1 \<and> set_content s' = set_content s"
  proof (cases s)
    case (LocalSet l)
    then show "0 < set_refs s \<Longrightarrow> ?thesis" using lrs.dec_positive [of l] by auto
  next
    case (RemoteSet r)
    then show "0 < set_refs s \<Longrightarrow> ?thesis" using rrs.dec_positive [of r] by auto
  qed
  show "set_refs s \<le> 0 \<Longrightarrow> set_DecRef s = Inl negative_refs"
    by (cases s) (simp_all add: lrs.dec_panics rrs.dec_panics)
qed

abbreviation sets_moved :: "rule_sets \<Rightarrow> rule_sets \<Rightarrow> (string \<Rightarrow> int) \<Rightarrow> bool" where
  "sets_moved \<equiv> moved set_refs set_content"

lemma RuleSetItem_Close_owned:
  assumes "owned set_refs sets (setList r)"
  shows "\<exists>sets'. RuleSetItem_Close sets r = Inr (r\<lparr>setList := []\<rparr>, sets') \<and>
    sets_moved sets sets' (\<lambda>tag. - int (count_list (setList r) tag))"
  using rs.dec_all_owned [OF assms] by (auto simp: RuleSetItem_Close_def)

lemma owned_inc:
  assumes "owned set_refs sets tags" and "sets tag = Some s"
  shows "owned set_refs (sets(tag \<mapsto> set_IncRef s)) (tags @ [tag])"
  unfolding owned_def
proof
  fix t
  show "case (sets(tag \<mapsto> set_IncRef s)) t of
      None \<Rightarrow> t \<notin> set (tags @ [tag])
    | Some s \<Rightarrow> int (count_list (tags @ [tag]) t) \<le> set_refs s"
    using assms(1)[unfolded owned_def, rule_format, of t] assms(2)
    by (cases "sets t") (auto simp: rs.refs_inc)
qed

text \<open>The tag that \<^verbatim>\<open>Start\<close> stops at.\<close>

definition first_missing :: "rule_sets \<Rightarrow> string list \<Rightarrow> string" where
  "first_missing sets tags = hd (dropWhile (\<lambda>t. sets t \<noteq> None) tags)"

lemma first_missing_Cons:
  "sets tag = None \<Longrightarrow> first_missing sets (tag # tags) = tag"
  "sets tag = Some s \<Longrightarrow> first_missing sets (tag # tags) = first_missing sets tags"
  by (simp_all add: first_missing_def)

lemma first_missing_upd:
  "sets tag = Some s \<Longrightarrow> first_missing (sets(tag \<mapsto> s')) tags = first_missing sets tags"
proof -
  assume "sets tag = Some s"
  then have "(\<lambda>t. (sets(tag \<mapsto> s')) t \<noteq> None) = (\<lambda>t. sets t \<noteq> None)" by auto
  then show ?thesis unfolding first_missing_def by (rule arg_cong)
qed

lemma first_missing_moved:
  "moved refs content sets sets' d \<Longrightarrow> first_missing sets' tags = first_missing sets tags"
  by (simp add: first_missing_def moved_None [of refs content sets sets' d])

lemma RuleSetItem_Start_loop_all:
  "(\<forall>tag \<in> set tags. sets tag \<noteq> None) \<Longrightarrow>
     \<exists>sets'. RuleSetItem_Start_loop sets r tags = Inr (None, r\<lparr>setList := setList r @ tags\<rparr>, sets') \<and>
       sets_moved sets sets' (\<lambda>tag. int (count_list tags tag))"
proof (induction tags arbitrary: sets r)
  case Nil
  show ?case by (simp add: moved_def)
next
  case (Cons tag tags)
  then obtain s where s: "sets tag = Some s" by auto
  let ?sets = "sets(tag \<mapsto> set_IncRef s)" and ?r = "r\<lparr>setList := setList r @ [tag]\<rparr>"
  have "\<forall>t \<in> set tags. ?sets t \<noteq> None" using Cons.prems by simp
  then obtain sets' where *:
      "RuleSetItem_Start_loop ?sets ?r tags = Inr (None, ?r\<lparr>setList := setList ?r @ tags\<rparr>, sets')"
      "sets_moved ?sets sets' (\<lambda>t. int (count_list tags t))"
    using Cons.IH by blast
  have "RuleSetItem_Start_loop sets r (tag # tags) =
      Inr (None, r\<lparr>setList := setList r @ tag # tags\<rparr>, sets')"
    unfolding RuleSetItem_Start_loop.simps s option.case *(1) by simp
  moreover have "sets_moved sets sets' (\<lambda>t. int (count_list (tag # tags) t))"
    using rs.moved_inc [of sets, OF s] *(2) by (rule moved_trans) simp
  ultimately show ?case by blast
qed

lemma RuleSetItem_Start_loop_missing:
  "owned set_refs sets (setList r) \<Longrightarrow> \<exists>tag \<in> set tags. sets tag = None \<Longrightarrow>
     \<exists>sets'. RuleSetItem_Start_loop sets r tags =
         Inr (Some (rule_set_not_found (first_missing sets tags)),
              r\<lparr>setList := []\<rparr>, sets') \<and>
       sets_moved sets sets' (\<lambda>tag. - int (count_list (setList r) tag))"
proof (induction tags arbitrary: sets r)
  case Nil
  then show ?case by simp
next
  case (Cons tag tags)
  show ?case
  proof (cases "sets tag")
    case None
    then show ?thesis
      using RuleSetItem_Close_owned [OF Cons.prems(1)] by (auto simp: first_missing_Cons)
  next
    case (Some s)
    let ?sets = "sets(tag \<mapsto> set_IncRef s)" and ?r = "r\<lparr>setList := setList r @ [tag]\<rparr>"
    have "owned set_refs ?sets (setList ?r)"
      using owned_inc [OF Cons.prems(1) Some] by simp
    moreover have "\<exists>t \<in> set tags. ?sets t = None"
      using Cons.prems(2) Some by (metis fun_upd_other option.distinct(1) set_ConsD)
    ultimately obtain sets' where *: "RuleSetItem_Start_loop ?sets ?r tags =
          Inr (Some (rule_set_not_found (first_missing ?sets tags)), ?r\<lparr>setList := []\<rparr>, sets')"
        "sets_moved ?sets sets' (\<lambda>t. - int (count_list (setList ?r) t))"
      using Cons.IH by blast
    have "sets_moved sets sets' (\<lambda>t. - int (count_list (setList r) t))"
      using rs.moved_inc [of sets, OF Some] *(2) by (rule moved_trans) simp
    moreover have "RuleSetItem_Start_loop sets r (tag # tags) =
        Inr (Some (rule_set_not_found (first_missing sets (tag # tags))),
             r\<lparr>setList := []\<rparr>, sets')"
      unfolding RuleSetItem_Start_loop.simps Some option.case *(1)
        first_missing_upd [of sets, OF Some] first_missing_Cons(2) [of sets, OF Some]
      by simp
    ultimately show ?thesis by blast
  qed
qed

end
