(* ===== verification/Rule_Set_Lifecycle.thy ===== *)
theory Rule_Set_Lifecycle
  imports Rule_Set
begin

text \<open>
  Rule sets while they are used: items take and release references, files are reloaded, remote sets
  are fetched, and unused sets are cleaned up, in any order.  The step relation \<open>world_step\<close> has one
  rule per operation of \<^verbatim>\<open>Rule_Set\<close> that changes a set or an item; the invariants below hold in every
  state the constructors and the steps reach.
\<close>

subsection \<open>What an update does to one rule set\<close>

lemma build_rules_Inr:
  "build_rules R opts = Inr rules \<longleftrightarrow>
     list_all2 (\<lambda>x y. NewHeadlessRule (rs_items R) (rs_networkManager R) x = Inr y) opts rules"
  by (simp add: build_rules_def map_res_idx_Inr)

text \<open>
  The metadata admits every destination address condition among the rules, and no other condition of
  them reads a DNS response.
\<close>

definition honest :: "headless_rule list \<Rightarrow> RuleSetMetadata \<Rightarrow> bool" where
  "honest rules md \<longleftrightarrow> (list_ex has_cidr rules \<longrightarrow> ContainsIPCIDRRule md) \<and>
     list_all (all_defaults (\<lambda>d. quiet d \<and> ruleSetItem d = None)) rules"

lemma honest_Nil [simp]: "honest [] md"
  by (simp add: honest_def)

lemma list_all2_right: "list_all2 P xs ys \<Longrightarrow> y \<in> set ys \<Longrightarrow> \<exists>x \<in> set xs. P x y"
  by (induction rule: list_all2_induct) auto

lemma honest_built:
  assumes "build_rules R opts = Inr rules" and "list_all decoded opts"
  shows "honest rules (buildRuleSetMetadata opts)"
proof -
  have all2: "list_all2 (\<lambda>x y. NewHeadlessRule (rs_items R) (rs_networkManager R) x = Inr y) opts rules"
    using assms(1) by (simp add: build_rules_Inr)
  have "all_defaults (\<lambda>d. quiet d \<and> ruleSetItem d = None) h" if h: "h \<in> set rules" for h
  proof -
    obtain x where "NewHeadlessRule (rs_items R) (rs_networkManager R) x = Inr h"
      using list_all2_right [OF all2 h] by blast
    then show ?thesis using headless_quiet(1) headless_no_rule_set(1) all_defaults_conj by blast
  qed
  then show ?thesis
    using all2 assms(2) by (simp add: honest_def headless_list_has_cidr list_all_iff)
qed

text \<open>Decoding never leaves a rule without a type (\<^verbatim>\<open>HeadlessRule.UnmarshalJSON\<close> and \<^verbatim>\<open>srs.readRule\<close>).\<close>

definition decoders_type_rules :: "rs_env \<Rightarrow> bool" where
  "decoders_type_rules R \<longleftrightarrow>
     (\<forall>content p. UnmarshalPlain R content = Inr p \<or> srs_Read R content = Inr p \<longrightarrow>
        list_all decoded (pc_Rules p))"

lemma Upgrade_Inr: "PlainRuleSetCompat_Upgrade p = Inr rules \<Longrightarrow> rules = pc_Rules p"
  by (auto simp: PlainRuleSetCompat_Upgrade_def split: if_splits)

lemma Local_reloadRules_cases:
  obtains e where "Local_reloadRules R s opts = (Some e, s, [])"
  | rules where "Local_reloadRules R s opts =
      (None, s\<lparr>ls_rules := rules, ls_metadata := buildRuleSetMetadata opts\<rparr>, map snd (ls_callbacks s))"
      "build_rules R opts = Inr rules"
      "validateRuleSetMetadataUpdate R (ls_tag s) (buildRuleSetMetadata opts) = None"
  using that
  by (cases "build_rules R opts";
      cases "validateRuleSetMetadataUpdate R (ls_tag s) (buildRuleSetMetadata opts)")
    (simp_all add: Local_reloadRules_def)

lemma Local_decodeFile_decoded:
  "decoders_type_rules R \<Longrightarrow> Local_decodeFile R fmt path = Inr p \<Longrightarrow> list_all decoded (pc_Rules p)"
  by (auto simp: Local_decodeFile_def bind_res_Inr decoders_type_rules_def split: if_splits)

lemma Local_reloadFile_cases:
  obtains e where "Local_reloadFile R s path = (Some e, s, [])"
  | p rules where "Local_decodeFile R (ls_fileFormat s) path = Inr p"
      "Local_reloadFile R s path =
        (None, s\<lparr>ls_rules := rules, ls_metadata := buildRuleSetMetadata (pc_Rules p)\<rparr>,
         map snd (ls_callbacks s))"
      "build_rules R (pc_Rules p) = Inr rules"
proof (cases "Local_decodeFile R (ls_fileFormat s) path")
  case (Inl e)
  then show ?thesis using that(1) by (simp add: Local_reloadFile_def)
next
  case (Inr p)
  show ?thesis
  proof (cases "PlainRuleSetCompat_Upgrade p")
    case (Inl e)
    then show ?thesis using that(1) Inr by (simp add: Local_reloadFile_def)
  next
    case up: (Inr opts)
    then have opts: "opts = pc_Rules p" by (rule Upgrade_Inr)
    show ?thesis
      by (rule Local_reloadRules_cases [of R s opts])
        (use that Inr up opts in \<open>auto simp: Local_reloadFile_def\<close>)
  qed
qed

lemma Remote_parse_decoded:
  "decoders_type_rules R \<Longrightarrow> Remote_parse R fmt content = Inr p \<Longrightarrow> list_all decoded (pc_Rules p)"
  by (auto simp: Remote_parse_def decoders_type_rules_def split: if_splits)

lemma Remote_loadBytes_cases:
  obtains e where "Remote_loadBytes R s content = (Some e, s, [])"
  | p rules where "Remote_parse R (so_Format (rm_options s)) content = Inr p"
      "Remote_loadBytes R s content =
        (None, s\<lparr>rm_metadata := buildRuleSetMetadata (pc_Rules p), rm_rules := rules\<rparr>,
         map snd (rm_callbacks s))"
      "build_rules R (pc_Rules p) = Inr rules"
      "validateRuleSetMetadataUpdate R (so_Tag (rm_options s)) (buildRuleSetMetadata (pc_Rules p)) = None"
      "PlainRuleSetCompat_Upgrade p = Inr (pc_Rules p)"
proof -
  note defs = Remote_loadBytes_def
  consider e where "Remote_parse R (so_Format (rm_options s)) content = Inl e"
    | p e where "Remote_parse R (so_Format (rm_options s)) content = Inr p"
        "PlainRuleSetCompat_Upgrade p = Inl e"
    | p where "Remote_parse R (so_Format (rm_options s)) content = Inr p"
        "PlainRuleSetCompat_Upgrade p = Inr (pc_Rules p)"
    by (metis Upgrade_Inr old.sum.exhaust)
  then show ?thesis
  proof cases
    case 3
    then show ?thesis
      using that
      by (cases "build_rules R (pc_Rules p)"; cases "validateRuleSetMetadataUpdate R
          (so_Tag (rm_options s)) (buildRuleSetMetadata (pc_Rules p))") (simp_all add: defs)
  qed (use that(1) in \<open>simp_all add: defs\<close>)
qed


lemma Remote_fetch_cases:
  obtains e where "Remote_fetch R now http cache s = (Some e, s, cache, [])"
  | cache' where "Remote_fetch R now http cache s = (None, s\<lparr>rm_lastUpdated := now\<rparr>, cache', [])"
  | content s' header s'' cache' called where "Remote_loadBytes R s content = (None, s', called)"
      "Remote_updated now header content cache s' = (s'', cache')"
      "Remote_fetch R now http cache s = (None, s'', cache', called)"
proof (cases "http (so_URL (rm_options s)) (fetch_etag s)")
  case (Response statusCode status header body)
  note fetch = Remote_fetch_def Response
  show ?thesis
  proof (cases "statusCode = 200")
    case True
    show ?thesis
    proof (cases body)
      case (Inr content)
      show ?thesis
        by (rule Remote_loadBytes_cases [of R s content];
            cases "Remote_updated now header content cache (fst (snd (Remote_loadBytes R s content)))")
          (use that(1,3) True Inr in \<open>auto simp: fetch\<close>)
    qed (use that(1) True in \<open>simp add: fetch\<close>)
  qed (use that(1,2) in \<open>cases "statusCode = 304"; simp add: fetch Remote_notModified_def\<close>)
qed (use that(1) in \<open>simp_all add: Remote_fetch_def\<close>)

definition remote_kept :: "rs_env \<Rightarrow> RemoteRuleSet \<Rightarrow> RemoteRuleSet \<Rightarrow> bool" where
  "remote_kept R s s' \<longleftrightarrow> rm_refs s' = rm_refs s \<and> rm_options s' = rm_options s \<and>
     rm_callbacks s' = rm_callbacks s \<and>
     (decoders_type_rules R \<longrightarrow> honest (rm_rules s) (rm_metadata s) \<longrightarrow>
        honest (rm_rules s') (rm_metadata s'))"

lemma remote_kept_refl [simp]: "remote_kept R s s"
  by (simp add: remote_kept_def)

lemma remote_kept_trans: "remote_kept R s s' \<Longrightarrow> remote_kept R s' s'' \<Longrightarrow> remote_kept R s s''"
  by (simp add: remote_kept_def)

lemma Remote_loadBytes_kept:
  "Remote_loadBytes R s content = (e, s', called) \<Longrightarrow> remote_kept R s s'"
  by (rule Remote_loadBytes_cases [of R s content])
    (auto simp: remote_kept_def dest: Remote_parse_decoded honest_built)

lemma Remote_fetch_kept:
  assumes "Remote_fetch R now http cache s = (e, s', cache', called)"
  shows "remote_kept R s s'"
proof (rule Remote_fetch_cases [of R now http cache s])
  fix content s1 header s2 cache2 called2
  assume load: "Remote_loadBytes R s content = (None, s1, called2)"
    and "Remote_updated now header content cache s1 = (s2, cache2)"
    and "Remote_fetch R now http cache s = (None, s2, cache2, called2)"
  then have "remote_kept R s1 s'"
    using assms by (auto simp: Remote_updated_def Let_def remote_kept_def)
  with Remote_loadBytes_kept [OF load] show ?thesis by (rule remote_kept_trans)
qed (use assms in \<open>auto simp: remote_kept_def\<close>)

lemma Remote_updateOnce_kept:
  assumes "Remote_updateOnce R now http cache s = (s', cache', called)"
  shows "remote_kept R s s'"
proof -
  obtain e s1 cache1 called1 where f: "Remote_fetch R now http cache s = (e, s1, cache1, called1)"
    by (metis prod_cases4)
  have "remote_kept R s1 s'"
    using assms f by (auto simp: Remote_updateOnce_def remote_kept_def split: option.splits)
  with Remote_fetch_kept [OF f] show ?thesis by (rule remote_kept_trans)
qed

lemma Remote_restore_kept:
  assumes "Remote_restore R cache s = (s', called)"
  shows "remote_kept R s s'"
proof (cases "cache = None \<or> (\<exists>c. cache = Some c \<and> ca_saved c (so_Tag (rm_options s)) = None)")
  case True
  then show ?thesis using assms by (auto simp: Remote_restore_def)
next
  case False
  then obtain c saved where c: "cache = Some c" "ca_saved c (so_Tag (rm_options s)) = Some saved"
    by auto
  obtain e s1 called1 where l: "Remote_loadBytes R s (sv_Content saved) = (e, s1, called1)"
    by (metis prod_cases3)
  have "remote_kept R s1 s'"
    using assms c l by (auto simp: Remote_restore_def remote_kept_def split: option.splits)
  with Remote_loadBytes_kept [OF l] show ?thesis by (rule remote_kept_trans)
qed

lemma Remote_StartContext_kept:
  assumes "Remote_StartContext R now http cache s = (e, s', cache', called)"
  shows "remote_kept R s s'"
proof (cases "Remote_resolveTransport R s")
  case (Some err)
  then show ?thesis using assms by (simp add: Remote_StartContext_def)
next
  case None
  obtain s1 called1 where r: "Remote_restore R cache s = (s1, called1)" by (metis surj_pair)
  obtain e2 s2 cache2 called2 where f: "Remote_fetch R now http cache s1 = (e2, s2, cache2, called2)"
    by (metis prod_cases4)
  have "remote_kept R s1 s' \<or> remote_kept R s2 s'"
    using assms None r f
    by (auto simp: Remote_StartContext_def remote_kept_def split: option.splits if_splits)
  with Remote_restore_kept [OF r] Remote_fetch_kept [OF f] show ?thesis
    by (meson remote_kept_trans)
qed

subsection \<open>Items and sets together\<close>

definition honest_set :: "rule_set \<Rightarrow> bool" where
  "honest_set s \<longleftrightarrow> honest (set_rules s) (set_Metadata s)"

lemma set_content_simps:
  "set_rules (set_content s) = set_rules s" "set_Metadata (set_content s) = set_Metadata s"
  by (cases s; simp)+

lemma honest_set_content: "set_content s' = set_content s \<Longrightarrow> honest_set s' = honest_set s"
  unfolding honest_set_def by (metis set_content_simps)

type_synonym world = "rule_set_item list \<times> rule_sets"

inductive world_step :: "rs_env \<Rightarrow> world \<Rightarrow> world \<Rightarrow> bool" for R where
  start: "i < length its \<Longrightarrow> RuleSetItem_Start sets (its ! i) = Inr (e, r, sets') \<Longrightarrow>
     world_step R (its, sets) (its[i := r], sets')"
| close: "i < length its \<Longrightarrow> RuleSetItem_Close sets (its ! i) = Inr (r, sets') \<Longrightarrow>
     world_step R (its, sets) (its[i := r], sets')"
| cleanup: "sets tag = Some s \<Longrightarrow>
     world_step R (its, sets) (its, sets(tag \<mapsto> set_Cleanup s))"
| local_start: "sets tag = Some (LocalSet s) \<Longrightarrow> Local_StartContext watchErr s = (e, s') \<Longrightarrow>
     world_step R (its, sets) (its, sets(tag \<mapsto> LocalSet s'))"
| local_reload: "sets tag = Some (LocalSet s) \<Longrightarrow> Local_reloadFile R s path = (e, s', called) \<Longrightarrow>
     world_step R (its, sets) (its, sets(tag \<mapsto> LocalSet s'))"
| remote_start: "sets tag = Some (RemoteSet s) \<Longrightarrow>
     Remote_StartContext R now http cache s = (e, s', cache', called) \<Longrightarrow>
     world_step R (its, sets) (its, sets(tag \<mapsto> RemoteSet s'))"
| remote_update: "sets tag = Some (RemoteSet s) \<Longrightarrow>
     Remote_updateOnce R now http cache s = (s', cache', called) \<Longrightarrow>
     world_step R (its, sets) (its, sets(tag \<mapsto> RemoteSet s'))"
| set_close: "sets tag = Some s \<Longrightarrow> set_Close closeErr s = (e, s') \<Longrightarrow>
     world_step R (its, sets) (its, sets(tag \<mapsto> s'))"

inductive reachable_world :: "rs_env \<Rightarrow> world \<Rightarrow> bool" for R where
  init: "(\<forall>it \<in> set its. setList it = []) \<Longrightarrow>
     (\<forall>tag s. sets tag = Some s \<longrightarrow>
        (\<exists>options. NewRuleSet R options = Inr s \<and> list_all decoded (so_InlineRules options))) \<Longrightarrow>
     reachable_world R (its, sets)"
| step: "reachable_world R w \<Longrightarrow> world_step R w w' \<Longrightarrow> reachable_world R w'"

definition held :: "rule_set_item list \<Rightarrow> string \<Rightarrow> nat" where
  "held its tag = sum_list (map (\<lambda>it. count_list (setList it) tag) its)"

text \<open>Every counter is the number of references the items hold.\<close>

definition balanced :: "rule_set_item list \<Rightarrow> rule_sets \<Rightarrow> bool" where
  "balanced its sets \<longleftrightarrow> (\<forall>tag. sets tag = None \<longrightarrow> held its tag = 0) \<and>
     (\<forall>tag s. sets tag = Some s \<longrightarrow> set_refs s = int (held its tag))"

lemma held_update:
  "i < length its \<Longrightarrow>
   int (held (its[i := r]) tag) =
     int (held its tag) - int (count_list (setList (its ! i)) tag) + int (count_list (setList r) tag)"
proof (induction its arbitrary: i)
  case (Cons it its)
  then show ?case by (cases i) (auto simp: held_def)
qed simp

lemma held_member:
  "i < length its \<Longrightarrow> count_list (setList (its ! i)) tag \<le> held its tag"
  unfolding held_def by (rule member_le_sum_list) auto

lemma balanced_owned:
  assumes "balanced its sets" and "i < length its"
  shows "owned set_refs sets (setList (its ! i))"
  unfolding owned_def
proof
  fix tag
  show "case sets tag of None \<Rightarrow> tag \<notin> set (setList (its ! i))
      | Some s \<Rightarrow> int (count_list (setList (its ! i)) tag) \<le> set_refs s"
    using assms(1) held_member [OF assms(2), of tag]
    by (cases "sets tag") (auto simp: balanced_def simp flip: count_list_0_iff)
qed

lemma balanced_moved:
  assumes "balanced its sets" and "i < length its"
    and "sets_moved sets sets' d"
    and "\<And>tag. d tag = int (count_list (setList r) tag) - int (count_list (setList (its ! i)) tag)"
    and "\<And>tag. sets tag = None \<Longrightarrow> tag \<notin> set (setList r)"
  shows "balanced (its[i := r]) sets'"
  unfolding balanced_def
proof (intro conjI allI impI)
  fix tag
  assume "sets' tag = None"
  then have "sets tag = None" using moved_None [OF assms(3)] by simp
  then have "int (held (its[i := r]) tag) = 0"
    using assms(1,5) held_update [OF assms(2), of r tag] by (simp add: balanced_def)
  then show "held (its[i := r]) tag = 0" by simp
next
  fix tag s'
  assume "sets' tag = Some s'"
  then obtain s where "sets tag = Some s" "set_refs s' = set_refs s + d tag"
    using moved_Some [OF assms(3)] by blast
  then show "set_refs s' = int (held (its[i := r]) tag)"
    using assms(1) held_update [OF assms(2), of r tag] assms(4) [of tag] by (simp add: balanced_def)
qed

text \<open>An invariant of the whole: the counters balance and the metadata of every set is honest.\<close>

definition world_inv :: "world \<Rightarrow> bool" where
  "world_inv w \<longleftrightarrow> balanced (fst w) (snd w) \<and> (\<forall>s \<in> ran (snd w). honest_set s)"

lemma world_inv_upd:
  "world_inv (its, sets) \<Longrightarrow> sets tag = Some s \<Longrightarrow> set_refs s' = set_refs s \<Longrightarrow>
     (honest_set s \<Longrightarrow> honest_set s') \<Longrightarrow> world_inv (its, sets(tag \<mapsto> s'))"
  by (auto simp: world_inv_def balanced_def ran_def)

lemma world_inv_moved:
  assumes "world_inv (its, sets)" and "balanced its' sets'" and "sets_moved sets sets' d"
  shows "world_inv (its', sets')"
proof -
  have "honest_set s'" if s': "sets' tag = Some s'" for tag s'
  proof -
    obtain s where s: "sets tag = Some s" "set_content s' = set_content s"
      using moved_Some [OF assms(3) s'] by blast
    have "honest_set s" using assms(1) s(1) by (auto simp: world_inv_def ran_def)
    then show ?thesis using honest_set_content [OF s(2)] by simp
  qed
  then show ?thesis using assms(2) by (auto simp: world_inv_def ran_def)
qed


lemma owned_released:
  assumes "owned set_refs sets tags"
    and "sets_moved sets sets' (\<lambda>tag. - int (count_list tags tag))"
  shows "owned set_refs sets' []"
  unfolding owned_def
proof
  fix tag
  show "case sets' tag of None \<Rightarrow> tag \<notin> set [] | Some s \<Rightarrow> int (count_list [] tag) \<le> set_refs s"
    using moved_Some [OF assms(2), of tag] assms(1)[unfolded owned_def, rule_format, of tag]
    by (cases "sets' tag") auto
qed

lemma NewRuleSet_fresh:
  assumes "NewRuleSet R options = Inr s" and "list_all decoded (so_InlineRules options)"
    and "decoders_type_rules R"
  shows "set_refs s = 0 \<and> honest_set s"
proof (cases s)
  case (RemoteSet r)
  then show ?thesis
    using assms(1) by (auto simp: NewRuleSet_def NewRemoteRuleSet_def honest_set_def
        split: if_splits sum.splits)
next
  case (LocalSet l)
  then have new: "NewLocalRuleSet R options = Inr l"
    using assms(1) by (auto simp: NewRuleSet_def split: if_splits sum.splits)
  define s0 where "s0 = \<lparr>ls_tag = so_Tag options, ls_rules = [], ls_metadata = NoMetadata,
      ls_fileFormat = so_Format options, ls_watcher = None, ls_watching = False,
      ls_callbacks = [], ls_nextHandle = 0, ls_refs = 0\<rparr>"
  have "ls_refs l = 0 \<and> honest (ls_rules l) (ls_metadata l)"
  proof (cases "so_Type options = RuleSetTypeInline")
    case True
    then obtain called where "Local_reloadRules R s0 (so_InlineRules options) = (None, l, called)"
      using new unfolding NewLocalRuleSet_def Let_def s0_def [symmetric]
      by (auto split: if_splits prod.splits option.splits)
    then show ?thesis
      using Local_reloadRules_cases [of R s0 "so_InlineRules options"] honest_built [OF _ assms(2)]
      by (fastforce simp: s0_def)
  next
    case False
    then obtain l' called where l': "Local_reloadFile R s0 (AbsPath R (so_Path options)) = (None, l', called)"
        "ls_refs l' = ls_refs l" "ls_rules l' = ls_rules l" "ls_metadata l' = ls_metadata l"
      using new unfolding NewLocalRuleSet_def Let_def s0_def [symmetric]
      by (auto split: if_splits prod.splits option.splits)
    have "ls_refs l' = 0 \<and> honest (ls_rules l') (ls_metadata l')"
    proof (rule Local_reloadFile_cases [of R s0 "AbsPath R (so_Path options)"])
      fix p rules
      assume "Local_decodeFile R (ls_fileFormat s0) (AbsPath R (so_Path options)) = Inr p"
        and r: "build_rules R (pc_Rules p) = Inr rules"
        and "Local_reloadFile R s0 (AbsPath R (so_Path options)) =
          (None, s0\<lparr>ls_rules := rules, ls_metadata := buildRuleSetMetadata (pc_Rules p)\<rparr>,
           map snd (ls_callbacks s0))"
      then show ?thesis
        using l'(1) honest_built [OF r] Local_decodeFile_decoded [OF assms(3)] by (auto simp: s0_def)
    qed (use l'(1) in simp)
    then show ?thesis using l' by simp
  qed
  then show ?thesis using LocalSet by (simp add: honest_set_def)
qed

text \<open>\<^verbatim>\<open>Start\<close> and \<^verbatim>\<open>Close\<close> of an item whose references are counted.\<close>

definition missing_tag :: "rule_sets \<Rightarrow> string list \<Rightarrow> bool" where
  "missing_tag sets tags \<longleftrightarrow> (\<exists>tag \<in> set tags. sets tag = None)"

lemma RuleSetItem_Start_owned:
  assumes "owned set_refs sets (setList r)"
  obtains sets' where
    "missing_tag sets (tagList r)"
    "RuleSetItem_Start sets r =
       Inr (Some (rule_set_not_found (first_missing sets (tagList r))), r\<lparr>setList := []\<rparr>, sets')"
    "sets_moved sets sets' (\<lambda>tag. - int (count_list (setList r) tag))"
  | sets' where
    "\<not> missing_tag sets (tagList r)"
    "RuleSetItem_Start sets r = Inr (None, r\<lparr>setList := tagList r\<rparr>, sets')"
    "sets_moved sets sets' (\<lambda>tag. int (count_list (tagList r) tag) - int (count_list (setList r) tag))"
proof -
  let ?r = "r\<lparr>setList := []\<rparr>"
  obtain sets1 where c: "RuleSetItem_Close sets r = Inr (?r, sets1)"
      and m1: "sets_moved sets sets1 (\<lambda>tag. - int (count_list (setList r) tag))"
    using RuleSetItem_Close_owned [OF assms] by blast
  have none: "sets1 tag = None \<longleftrightarrow> sets tag = None" for tag by (rule moved_None [OF m1])
  have start: "RuleSetItem_Start sets r = RuleSetItem_Start_loop sets1 ?r (tagList r)"
    by (simp add: RuleSetItem_Start_def c)
  show ?thesis
  proof (cases "missing_tag sets (tagList r)")
    case True
    have "owned set_refs sets1 (setList ?r)" by (simp add: owned_released [OF assms m1])
    moreover have "\<exists>tag \<in> set (tagList r). sets1 tag = None"
      using True none by (simp add: missing_tag_def)
    ultimately obtain sets2 where l: "RuleSetItem_Start_loop sets1 ?r (tagList r) =
         Inr (Some (rule_set_not_found (first_missing sets1 (tagList r))), ?r\<lparr>setList := []\<rparr>, sets2)"
        and m2: "sets_moved sets1 sets2 (\<lambda>tag. - int (count_list (setList ?r) tag))"
      using RuleSetItem_Start_loop_missing by blast
    show ?thesis
    proof (rule that(1) [OF True])
      show "RuleSetItem_Start sets r =
          Inr (Some (rule_set_not_found (first_missing sets (tagList r))), ?r, sets2)"
        unfolding start l first_missing_moved [OF m1] by simp
      show "sets_moved sets sets2 (\<lambda>tag. - int (count_list (setList r) tag))"
        using m1 m2 by (rule moved_trans) simp
    qed
  next
    case False
    then have "\<forall>tag \<in> set (tagList r). sets1 tag \<noteq> None"
      using none by (simp add: missing_tag_def)
    then obtain sets2 where l: "RuleSetItem_Start_loop sets1 ?r (tagList r) =
         Inr (None, ?r\<lparr>setList := setList ?r @ tagList r\<rparr>, sets2)"
        and m2: "sets_moved sets1 sets2 (\<lambda>tag. int (count_list (tagList r) tag))"
      using RuleSetItem_Start_loop_all by blast
    show ?thesis
    proof (rule that(2) [OF False])
      show "RuleSetItem_Start sets r = Inr (None, r\<lparr>setList := tagList r\<rparr>, sets2)"
        unfolding start l by simp
      show "sets_moved sets sets2
          (\<lambda>tag. int (count_list (tagList r) tag) - int (count_list (setList r) tag))"
        using m1 m2 by (rule moved_trans) simp
    qed
  qed
qed

lemma world_inv_init:
  assumes "\<forall>it \<in> set its. setList it = []"
    and "\<forall>tag s. sets tag = Some s \<longrightarrow>
        (\<exists>options. NewRuleSet R options = Inr s \<and> list_all decoded (so_InlineRules options))"
    and "decoders_type_rules R"
  shows "world_inv (its, sets)"
proof -
  have "held its tag = 0" for tag
    using assms(1) by (induction its) (auto simp: held_def)
  moreover have "set_refs s = 0 \<and> honest_set s" if "sets tag = Some s" for tag s
    using assms(2,3) that NewRuleSet_fresh by blast
  ultimately show ?thesis by (auto simp: world_inv_def balanced_def ran_def)
qed

lemma world_inv_step:
  assumes "world_step R w w'" and "decoders_type_rules R" and "world_inv w"
  shows "world_inv w'"
  using assms(1,3)
proof (induction rule: world_step.induct)
  case (start i its sets e r sets')
  then have b: "balanced its sets" by (simp add: world_inv_def)
  show ?case
  proof (rule RuleSetItem_Start_owned [OF balanced_owned [OF b start(1)]])
    fix sets2
    assume "RuleSetItem_Start sets (its ! i) = Inr (Some (rule_set_not_found
          (first_missing sets (tagList (its ! i)))), (its ! i)\<lparr>setList := []\<rparr>, sets2)"
      and m: "sets_moved sets sets2 (\<lambda>tag. - int (count_list (setList (its ! i)) tag))"
    then have "r = (its ! i)\<lparr>setList := []\<rparr>" "sets' = sets2" using start(2) by auto
    then show ?case
      using world_inv_moved [OF start(3) balanced_moved [OF b start(1) m]] m by simp
  next
    fix sets2
    assume ok: "\<not> missing_tag sets (tagList (its ! i))"
      and "RuleSetItem_Start sets (its ! i) =
          Inr (None, (its ! i)\<lparr>setList := tagList (its ! i)\<rparr>, sets2)"
      and m: "sets_moved sets sets2 (\<lambda>tag. int (count_list (tagList (its ! i)) tag)
                - int (count_list (setList (its ! i)) tag))"
    then have "r = (its ! i)\<lparr>setList := tagList (its ! i)\<rparr>" "sets' = sets2" using start(2) by auto
    moreover have "balanced (its[i := (its ! i)\<lparr>setList := tagList (its ! i)\<rparr>]) sets2"
      by (rule balanced_moved [OF b start(1) m]) (use ok in \<open>auto simp: missing_tag_def\<close>)
    ultimately show ?case using world_inv_moved [OF start(3) _ m] by simp
  qed
next
  case (close i its sets r sets')
  then have b: "balanced its sets" by (simp add: world_inv_def)
  obtain sets2 where "RuleSetItem_Close sets (its ! i) = Inr ((its ! i)\<lparr>setList := []\<rparr>, sets2)"
    and m: "sets_moved sets sets2 (\<lambda>tag. - int (count_list (setList (its ! i)) tag))"
    using RuleSetItem_Close_owned [OF balanced_owned [OF b close(1)]] by blast
  then have "r = (its ! i)\<lparr>setList := []\<rparr>" "sets' = sets2" using close(2) by auto
  then show ?case
    using world_inv_moved [OF close(3) balanced_moved [OF b close(1) m]] m by simp
next
  case (cleanup sets tag s its)
  show ?case
    by (rule world_inv_upd [OF cleanup(2,1)]; cases s)
      (auto simp: Local_Cleanup_def Remote_Cleanup_def honest_set_def)
next
  case (local_start sets tag s watchErr e s' its)
  show ?case
    by (rule world_inv_upd [OF local_start(3,1)])
      (use local_start(2) in \<open>auto simp: Local_StartContext_def honest_set_def split: if_splits\<close>)
next
  case (local_reload sets tag s path e s' called its)
  show ?case
    by (rule world_inv_upd [OF local_reload(3,1)]; rule Local_reloadFile_cases [of R s path])
      (use local_reload(2) assms(2) in
        \<open>auto simp: honest_set_def dest: Local_decodeFile_decoded honest_built\<close>)
next
  case (remote_start sets tag s now http cache e s' cache' called its)
  show ?case
    by (rule world_inv_upd [OF remote_start(3,1)])
      (use Remote_StartContext_kept [OF remote_start(2)] assms(2) in
        \<open>auto simp: remote_kept_def honest_set_def\<close>)
next
  case (remote_update sets tag s now http cache s' cache' called its)
  show ?case
    by (rule world_inv_upd [OF remote_update(3,1)])
      (use Remote_updateOnce_kept [OF remote_update(2)] assms(2) in
        \<open>auto simp: remote_kept_def honest_set_def\<close>)
next
  case (set_close sets tag s closeErr e s' its)
  show ?case
    by (rule world_inv_upd [OF set_close(3,1)]; cases s)
      (use set_close(2) in \<open>auto simp: Local_Close_def Remote_Close_def honest_set_def\<close>)
qed

lemma reachable_world_inv:
  "reachable_world R w \<Longrightarrow> decoders_type_rules R \<Longrightarrow> world_inv w"
  by (induction rule: reachable_world.induct) (auto intro: world_inv_init world_inv_step)


subsection \<open>An example\<close>

definition plain_rs_env :: rs_env where
  "plain_rs_env = \<lparr>ReadFile = \<lambda>_. Inr [], UnmarshalPlain = \<lambda>_. Inr \<lparr>pc_Version = 1, pc_Rules = [port_set_options]\<rparr>,
     srs_Read = \<lambda>_. Inl (New ''invalid sing-box rule-set file''), AbsPath = id, NewWatcher = \<lambda>_. None,
     UpdateValidator = None, ResolveTransport = \<lambda>_. None, DefaultTransport = True,
     rs_items = plain_env, rs_networkManager = False\<rparr>"

definition remote_options :: rule_set_options where
  "remote_options = \<lparr>so_Type = RuleSetTypeRemote, so_Tag = ''geo'', so_Format = RuleSetFormatSource,
     so_InlineRules = [], so_Path = [], so_URL = ''https://example.org/geo.json'', so_HTTPClient = None,
     so_UpdateInterval = 0, so_DownloadDetour = []\<rparr>"

definition answers_ok :: http_client where
  "answers_ok url etag = Response 200 ''200 OK'' ''v1'' (Inr [])"

definition geo_rules :: "headless_rule list" where
  "geo_rules = [DefaultRule \<lparr>entries = [(DestinationIPCIDRItems, NewRawIPCIDRItem False (RawIPSet [])),
     (DestinationPortItems, NewPortItem False [53])], ruleSetItem = None, invert = False, action = None\<rparr>]"

definition geo_set :: RemoteRuleSet where
  "geo_set = (NewRemoteRuleSet remote_options)\<lparr>rm_rules := geo_rules,
     rm_metadata := buildRuleSetMetadata [port_set_options],
     rm_lastUpdated := 7, rm_lastEtag := ''v1''\<rparr>"

definition geo_item :: rule_set_item where
  "geo_item = \<lparr>tagList = [''geo''], setList = [], ipCidrMatchSource = False, ipCidrAcceptEmpty = False\<rparr>"

definition geo_sets :: "rule_set \<Rightarrow> rule_sets" where
  "geo_sets s = [''geo'' \<mapsto> s]"

lemma plain_rs_env_decoders: "decoders_type_rules plain_rs_env"
  by (simp add: decoders_type_rules_def plain_rs_env_def port_set_options_def)

lemma geo_loadBytes:
  "rm_options s = remote_options \<Longrightarrow> Remote_loadBytes plain_rs_env s content =
     (None, s\<lparr>rm_metadata := buildRuleSetMetadata [port_set_options], rm_rules := geo_rules\<rparr>,
      map snd (rm_callbacks s))"
  by (simp add: Remote_loadBytes_def Remote_parse_def plain_rs_env_def remote_options_def
      PlainRuleSetCompat_Upgrade_def RuleSetVersions_def build_rules_def port_set_rule geo_rules_def
      validateRuleSetMetadataUpdate_def)

lemma geo_fetch:
  "Remote_fetch plain_rs_env 7 answers_ok (Some \<lparr>ca_saved = \<lambda>_. None, ca_saveError = None\<rparr>)
     (NewRemoteRuleSet remote_options) =
   (None, geo_set, Some \<lparr>ca_saved = [''geo'' \<mapsto> \<lparr>sv_Content = [], sv_LastUpdated = 7, sv_LastEtag = ''v1''\<rparr>],
                         ca_saveError = None\<rparr>, [])"
proof -
  have o: "rm_options (NewRemoteRuleSet remote_options) = remote_options"
    by (simp add: NewRemoteRuleSet_def)
  show ?thesis
    by (simp add: Remote_fetch_def answers_ok_def geo_loadBytes [OF o] Remote_updated_def o SaveRuleSet_def
        geo_set_def)
      (simp add: remote_options_def NewRemoteRuleSet_def fun_eq_iff)
qed

definition geo_started :: RemoteRuleSet where
  "geo_started = geo_set\<lparr>rm_updateTicker := True\<rparr>"

lemma geo_StartContext:
  "\<exists>cache'. Remote_StartContext plain_rs_env 7 answers_ok (Some \<lparr>ca_saved = \<lambda>_. None, ca_saveError = None\<rparr>)
     (NewRemoteRuleSet remote_options) = (None, geo_started, cache', [])"
proof -
  have "Remote_resolveTransport plain_rs_env (NewRemoteRuleSet remote_options) = None"
    by (simp add: Remote_resolveTransport_def NewRemoteRuleSet_def remote_options_def plain_rs_env_def)
  moreover have "rm_lastUpdated (NewRemoteRuleSet remote_options) = 0"
    by (simp add: NewRemoteRuleSet_def)
  ultimately show ?thesis
    by (simp add: Remote_StartContext_def Remote_restore_def geo_fetch geo_started_def)
qed

lemma geo_reachable:
  "reachable_world plain_rs_env
     ([geo_item\<lparr>setList := [''geo'']\<rparr>], geo_sets (RemoteSet (Remote_IncRef geo_started)))"
proof -
  let ?new = "RemoteSet (NewRemoteRuleSet remote_options)"
  have "reachable_world plain_rs_env ([geo_item], geo_sets ?new)"
  proof (rule reachable_world.init)
    have "NewRuleSet plain_rs_env remote_options = Inr ?new"
      by (simp add: NewRuleSet_def remote_options_def RuleSetTypeRemote_def RuleSetTypeInline_def
          RuleSetTypeLocal_def)
    then show "\<forall>tag s. geo_sets ?new tag = Some s \<longrightarrow>
        (\<exists>options. NewRuleSet plain_rs_env options = Inr s \<and> list_all decoded (so_InlineRules options))"
      by (auto simp: geo_sets_def remote_options_def intro!: exI [of _ remote_options] split: if_splits)
  qed (simp add: geo_item_def)
  moreover have "world_step plain_rs_env ([geo_item], geo_sets ?new)
      ([geo_item], geo_sets (RemoteSet geo_started))"
    using world_step.remote_start [of "geo_sets ?new" "''geo''"] geo_StartContext
    by (auto simp: geo_sets_def)
  ultimately have "reachable_world plain_rs_env ([geo_item], geo_sets (RemoteSet geo_started))"
    by (rule reachable_world.step)
  moreover have "world_step plain_rs_env ([geo_item], geo_sets (RemoteSet geo_started))
      ([geo_item\<lparr>setList := [''geo'']\<rparr>], geo_sets (RemoteSet (Remote_IncRef geo_started)))"
    using world_step.start [of 0 "[geo_item]" "geo_sets (RemoteSet geo_started)" None]
    by (simp add: RuleSetItem_Start_def RuleSetItem_Close_def geo_item_def geo_sets_def)
  ultimately show ?thesis by (rule reachable_world.step)
qed

subsection \<open>Properties\<close>

text \<open>
  C16. References balance under every interleaving of starting and closing items, starting, reloading,
  fetching, cleaning up and closing sets: each counter is the number of references the items hold, so
  neither \<^verbatim>\<open>Start\<close> nor \<^verbatim>\<open>Close\<close> of an item ever panics on a negative counter, and \<^verbatim>\<open>Cleanup\<close> leaves every
  rule set that an item holds as it is.
\<close>

theorem rule_set_references_balance:
  assumes "reachable_world R (its, sets)" and "decoders_type_rules R" and "i < length its"
  shows "(\<exists>e r sets'. RuleSetItem_Start sets (its ! i) = Inr (e, r, sets')) \<and>
    (\<exists>r sets'. RuleSetItem_Close sets (its ! i) = Inr (r, sets')) \<and>
    (\<forall>tag \<in> set (setList (its ! i)). \<exists>s. sets tag = Some s \<and>
       set_refs s = int (held its tag) \<and> 0 < set_refs s \<and> set_Cleanup s = s)"
proof (intro conjI ballI)
  have b: "balanced its sets"
    using reachable_world_inv [OF assms(1,2)] by (simp add: world_inv_def)
  note own = balanced_owned [OF b assms(3)]
  show "\<exists>e r sets'. RuleSetItem_Start sets (its ! i) = Inr (e, r, sets')"
    by (rule RuleSetItem_Start_owned [OF own]) blast+
  show "\<exists>r sets'. RuleSetItem_Close sets (its ! i) = Inr (r, sets')"
    using RuleSetItem_Close_owned [OF own] by blast
  fix tag
  assume "tag \<in> set (setList (its ! i))"
  then have pos: "0 < held its tag"
    using held_member [OF assms(3), of tag] by (metis count_list_0_iff gr0I le_zero_eq)
  then obtain s where s: "sets tag = Some s" "set_refs s = int (held its tag)"
    using b by (metis balanced_def less_numeral_extra(3) option.exhaust)
  then have "set_Cleanup s = s"
    using pos by (cases s) (auto simp: Local_Cleanup_def Remote_Cleanup_def)
  then show "\<exists>s. sets tag = Some s \<and> set_refs s = int (held its tag) \<and> 0 < set_refs s \<and> set_Cleanup s = s"
    using s pos by simp
qed

theorem rule_set_references_balance_witness:
  "set_refs (RemoteSet (Remote_IncRef geo_started)) = 1 \<and>
   set_Cleanup (RemoteSet (Remote_IncRef geo_started)) = RemoteSet (Remote_IncRef geo_started)"
  using rule_set_references_balance [OF geo_reachable plain_rs_env_decoders, of 0]
  by (simp add: geo_sets_def held_def)

text \<open>
  Starting an item is all or nothing.  When the router knows every tag, the item holds exactly its
  tags, each one counted; when it does not, the error names the first unknown tag and every reference
  taken on the way has been given back.  In both cases what the item held before is released, and
  nothing but counters changes.
\<close>

theorem rule_set_item_start:
  assumes "owned set_refs sets (setList r)"
  shows "\<exists>sets'. if \<forall>tag \<in> set (tagList r). sets tag \<noteq> None
    then RuleSetItem_Start sets r = Inr (None, r\<lparr>setList := tagList r\<rparr>, sets') \<and>
      sets_moved sets sets' (\<lambda>tag. int (count_list (tagList r) tag) - int (count_list (setList r) tag))
    else RuleSetItem_Start sets r =
        Inr (Some (rule_set_not_found (first_missing sets (tagList r))), r\<lparr>setList := []\<rparr>, sets') \<and>
      sets_moved sets sets' (\<lambda>tag. - int (count_list (setList r) tag))"
  by (rule RuleSetItem_Start_owned [OF assms]) (auto simp: missing_tag_def)

theorem rule_set_item_start_witness:
  "\<exists>sets'. RuleSetItem_Start (geo_sets (RemoteSet geo_set)) (geo_item\<lparr>tagList := [''geo'', ''ads'']\<rparr>) =
     Inr (Some (New ''rule-set not found: ads''), geo_item\<lparr>tagList := [''geo'', ''ads''], setList := []\<rparr>, sets') \<and>
     sets_moved (geo_sets (RemoteSet geo_set)) sets' (\<lambda>_. 0)"
proof -
  have "owned set_refs (geo_sets (RemoteSet geo_set)) (setList (geo_item\<lparr>tagList := [''geo'', ''ads'']\<rparr>))"
    by (simp add: owned_def geo_item_def geo_sets_def geo_set_def NewRemoteRuleSet_def)
  from rule_set_item_start [OF this] show ?thesis
    by (simp add: geo_sets_def geo_item_def rule_set_not_found_def first_missing_def)
qed

text \<open>
  C26. What the address limit of a DNS rule relies on: in every reachable state, an item that does not
  match sources and holds a set some rule of which, at any depth, has a destination address condition,
  says so through \<^verbatim>\<open>ContainsDestinationIPCIDRRule\<close>.
\<close>

theorem address_rules_are_admitted:
  assumes "reachable_world R (its, sets)" and "decoders_type_rules R" and "it \<in> set its"
    and "\<not> ipCidrMatchSource it" and "tag \<in> set (setList it)" and "sets tag = Some s"
    and "list_ex has_cidr (set_rules s)"
  shows "ContainsDestinationIPCIDRRule sets it"
proof -
  have "honest_set s"
    using reachable_world_inv [OF assms(1,2)] assms(6) by (auto simp: world_inv_def ran_def)
  then have "ContainsIPCIDRRule (set_Metadata s)"
    using assms(7) by (simp add: honest_set_def honest_def)
  then show ?thesis
    using assms(4-6) by (auto simp: ContainsDestinationIPCIDRRule_def list_ex_iff intro!: bexI [of _ tag])
qed

theorem address_rules_are_admitted_witness:
  "ContainsDestinationIPCIDRRule (geo_sets (RemoteSet (Remote_IncRef geo_started)))
     (geo_item\<lparr>setList := [''geo'']\<rparr>)"
  using address_rules_are_admitted [OF geo_reachable plain_rs_env_decoders,
      of "geo_item\<lparr>setList := [''geo'']\<rparr>" "''geo''" "RemoteSet (Remote_IncRef geo_started)"]
  by (simp add: geo_item_def geo_sets_def Remote_IncRef_def geo_started_def geo_set_def geo_rules_def
      slot_items_def)

text \<open>
  C27. An update that fails changes nothing: after an error of \<^verbatim>\<open>reloadFile\<close> or of \<^verbatim>\<open>fetch\<close> the rules,
  the metadata, the tag, the time and the cache file are what they were, and no callback has run.  An
  update that loads rules runs every callback once, in the order of registration.
\<close>

theorem rule_set_update_atomic:
  "(case Local_reloadFile R l path of
      (Some e, l', called) \<Rightarrow> l' = l \<and> called = []
    | (None, l', called) \<Rightarrow> called = map snd (ls_callbacks l) \<and> ls_refs l' = ls_refs l) \<and>
   (case Remote_fetch R now http cache s of
      (Some e, s', cache', called) \<Rightarrow> s' = s \<and> cache' = cache \<and> called = []
    | (None, s', cache', called) \<Rightarrow> rm_lastUpdated s' = now \<and> rm_refs s' = rm_refs s \<and>
        (called = map snd (rm_callbacks s) \<or> called = [] \<and> s' = s\<lparr>rm_lastUpdated := now\<rparr>))"
proof
  show "case Local_reloadFile R l path of
      (Some e, l', called) \<Rightarrow> l' = l \<and> called = []
    | (None, l', called) \<Rightarrow> called = map snd (ls_callbacks l) \<and> ls_refs l' = ls_refs l"
    by (rule Local_reloadFile_cases [of R l path]) simp_all
  show "case Remote_fetch R now http cache s of
      (Some e, s', cache', called) \<Rightarrow> s' = s \<and> cache' = cache \<and> called = []
    | (None, s', cache', called) \<Rightarrow> rm_lastUpdated s' = now \<and> rm_refs s' = rm_refs s \<and>
        (called = map snd (rm_callbacks s) \<or> called = [] \<and> s' = s\<lparr>rm_lastUpdated := now\<rparr>)"
  proof (rule Remote_fetch_cases [of R now http cache s])
    fix content s1 header s2 cache2 called
    assume l: "Remote_loadBytes R s content = (None, s1, called)"
      and u: "Remote_updated now header content cache s1 = (s2, cache2)"
      and f: "Remote_fetch R now http cache s = (None, s2, cache2, called)"
    have "called = map snd (rm_callbacks s)"
      by (rule Remote_loadBytes_cases [of R s content]) (use l in auto)
    moreover have "rm_lastUpdated s2 = now" using u by (auto simp: Remote_updated_def Let_def)
    ultimately show ?thesis using f Remote_fetch_kept [OF f] by (simp add: remote_kept_def)
  qed simp_all
qed



end
