(* ===== verification/Dns_Rule.thy ===== *)
theory Dns_Rule
  imports Rule_Set_Lifecycle
begin

text \<open>
  Matching of DNS rules, the second half of \<^verbatim>\<open>route/rule/rule_dns.go\<close>: \<^verbatim>\<open>Match\<close> with and without
  \<^verbatim>\<open>match_response\<close>, and the two phases of the legacy mode, \<^verbatim>\<open>LegacyPreMatch\<close> before the query and
  \<^verbatim>\<open>MatchAddressLimit\<close> on the response, with \<^verbatim>\<open>WithAddressLimit\<close> that says whether the second is needed.
\<close>

subsection \<open>Operations\<close>

text \<open>The rule sets of the router as the engine evaluates them.\<close>

definition sets_eval :: "env \<Rightarrow> rule_sets \<Rightarrow> rs_eval" where
  "sets_eval E sets =
     RuleSetItem_matchStatesWithBase
       (\<lambda>tag m base. case sets tag of None \<Rightarrow> 0 | Some s \<Rightarrow> set_matchStatesWithBase E s m base)"

definition response_metadata :: "inbound_context \<Rightarrow> inbound_context" where
  "response_metadata m = m\<lparr>m_DestinationAddressMatchFromResponse := True\<rparr>"

definition DefaultDNSRule_matchStatesForMatch ::
  "env \<Rightarrow> rs_eval \<Rightarrow> DefaultDNSRule \<Rightarrow> inbound_context \<Rightarrow> ruleMatchStateSet \<times> inbound_context" where
  "DefaultDNSRule_matchStatesForMatch E rs r m =
     (if matchResponse r then
        (if m_DNSResponse m = None then (invertedFailure r 0, m)
         else (fst (default_matchStates E rs r (response_metadata m)), m))
      else default_matchStates E rs r m)"

text \<open>
  \<^verbatim>\<open>matchDNSHeadlessRuleStatesForMatch\<close> and \<^verbatim>\<open>LogicalDNSRule.matchStatesForMatch\<close>; every rule below a
  logical DNS rule is a DNS rule, so the default case of the switch is never taken.
\<close>

definition LogicalDNSRule_matchStatesForMatch ::
  "('r \<Rightarrow> inbound_context \<Rightarrow> ruleMatchStateSet) \<Rightarrow> 'r list \<Rightarrow> string \<Rightarrow> bool
   \<Rightarrow> inbound_context \<Rightarrow> ruleMatchStateSet" where
  "LogicalDNSRule_matchStatesForMatch ev rules mode neg m =
     (if mode = LogicalTypeAnd then
        (case logical_and_loop (\<lambda>r m _. ev r m) m 0 emptyRuleMatchState rules of
           None \<Rightarrow> if neg then emptyRuleMatchState else 0
         | Some stateSet \<Rightarrow> if neg then 0 else stateSet)
      else
        (let stateSet = logical_or_loop (\<lambda>r m _. ev r m) m 0 rules
         in if isEmpty stateSet then (if neg then emptyRuleMatchState else 0)
            else if neg then 0 else stateSet))"

lemma LogicalDNSRule_matchStatesForMatch_cong [fundef_cong]:
  assumes "rs = rs'" "mode = mode'" "neg = neg'" "m = m'"
    and "\<And>r m. r \<in> set rs' \<Longrightarrow> ev r m = ev' r m"
  shows "LogicalDNSRule_matchStatesForMatch ev rs mode neg m =
    LogicalDNSRule_matchStatesForMatch ev' rs' mode' neg' m'"
proof -
  have "logical_and_loop (\<lambda>r m _. ev r m) m' b s rs' = logical_and_loop (\<lambda>r m _. ev' r m) m' b s rs'" for b s
    using assms(5) by (intro logical_and_loop_cong) auto
  moreover have "logical_or_loop (\<lambda>r m _. ev r m) m' b rs' = logical_or_loop (\<lambda>r m _. ev' r m) m' b rs'" for b
    using assms(5) by (intro logical_or_loop_cong) auto
  ultimately show ?thesis using assms(1-4) by (simp add: LogicalDNSRule_matchStatesForMatch_def)
qed

fun matchDNSHeadlessRuleStatesForMatch ::
  "env \<Rightarrow> rs_eval \<Rightarrow> dns_rule \<Rightarrow> inbound_context \<Rightarrow> ruleMatchStateSet" where
  "matchDNSHeadlessRuleStatesForMatch E rs (DefaultRule d) m =
     fst (DefaultDNSRule_matchStatesForMatch E rs d m)"
| "matchDNSHeadlessRuleStatesForMatch E rs (LogicalRule rules mode neg act) m =
     LogicalDNSRule_matchStatesForMatch (matchDNSHeadlessRuleStatesForMatch E rs) rules mode neg m"

fun dns_Match :: "env \<Rightarrow> rs_eval \<Rightarrow> dns_rule \<Rightarrow> inbound_context \<Rightarrow> bool \<times> inbound_context" where
  "dns_Match E rs (DefaultRule d) m =
     (let (s, m') = DefaultDNSRule_matchStatesForMatch E rs d m in (\<not> isEmpty s, m'))"
| "dns_Match E rs (LogicalRule rules mode neg act) m =
     (\<not> isEmpty (LogicalDNSRule_matchStatesForMatch
        (matchDNSHeadlessRuleStatesForMatch E rs) rules mode neg m), m)"

fun dns_Action :: "dns_rule \<Rightarrow> rule_action option" where
  "dns_Action (DefaultRule d) = action d"
| "dns_Action (LogicalRule rules mode neg act) = act"

definition DefaultDNSRule_WithAddressLimit :: "rule_sets \<Rightarrow> DefaultDNSRule \<Rightarrow> bool" where
  "DefaultDNSRule_WithAddressLimit sets r =
     (if destinationIPCIDRItems r \<noteq> [] then True
      else case ruleSetItem r of
             Some ruleSet \<Rightarrow> if ContainsDestinationIPCIDRRule sets ruleSet then True else False
           | None \<Rightarrow> False)"

fun dns_WithAddressLimit :: "rule_sets \<Rightarrow> dns_rule \<Rightarrow> bool" where
  "dns_WithAddressLimit sets (DefaultRule d) = DefaultDNSRule_WithAddressLimit sets d"
| "dns_WithAddressLimit sets (LogicalRule rules mode neg act) =
     list_ex (dns_WithAddressLimit sets) rules"

text \<open>The state set of the embedded abstract rule, which the two legacy phases use at every depth.\<close>

definition dns_matchStates ::
  "env \<Rightarrow> rs_eval \<Rightarrow> dns_rule \<Rightarrow> inbound_context \<Rightarrow> ruleMatchStateSet" where
  "dns_matchStates E rs r m =
     rule_matchStatesWithBase (\<lambda>d m base. fst (default_matchStatesWithBase E rs d m base)) r m 0"

definition ignoring :: "bool \<Rightarrow> inbound_context \<Rightarrow> inbound_context" where
  "ignoring b m = m\<lparr>m_IgnoreDestinationIPCIDRMatch := b\<rparr>"

fun dns_LegacyPreMatch :: "env \<Rightarrow> rs_eval \<Rightarrow> dns_rule \<Rightarrow> inbound_context \<Rightarrow> bool \<times> inbound_context" where
  "dns_LegacyPreMatch E rs (DefaultRule d) m =
     (if matchResponse d then (False, m)
      else let (s, m') = default_matchStates E rs d (ignoring True m)
           in (\<not> isEmpty s, ignoring False m'))"
| "dns_LegacyPreMatch E rs (LogicalRule rules mode neg act) m =
     (\<not> isEmpty (dns_matchStates E rs (LogicalRule rules mode neg act) (ignoring True m)),
      ignoring False m)"

definition dns_MatchAddressLimit ::
  "env \<Rightarrow> rs_eval \<Rightarrow> dns_rule \<Rightarrow> inbound_context \<Rightarrow> dns_msg option \<Rightarrow> bool" where
  "dns_MatchAddressLimit E rs r m response =
     (\<not> isEmpty (dns_matchStates E rs r (response_metadata (m\<lparr>m_DNSResponse := response\<rparr>))))"

subsection \<open>Matching as documented\<close>

fun dns_documented :: "env \<Rightarrow> rs_eval \<Rightarrow> dns_rule \<Rightarrow> inbound_context \<Rightarrow> bool" where
  "dns_documented E rs (DefaultRule d) m =
     (if matchResponse d \<and> m_DNSResponse m = None then invert d
      else fst (default_Match E rs d (if matchResponse d then response_metadata m else m)))"
| "dns_documented E rs (LogicalRule rules mode neg act) m =
     ((if mode = LogicalTypeAnd then list_all (\<lambda>r. dns_documented E rs r (ResetRuleCache m)) rules
       else list_ex (\<lambda>r. dns_documented E rs r (ResetRuleCache m)) rules) \<noteq> neg)"

lemma LogicalDNSRule_isEmpty:
  "\<not> isEmpty (LogicalDNSRule_matchStatesForMatch ev rules mode neg m) \<longleftrightarrow>
     ((if mode = LogicalTypeAnd then list_all (\<lambda>r. \<not> isEmpty (ev r (ResetRuleCache m))) rules
       else list_ex (\<lambda>r. \<not> isEmpty (ev r (ResetRuleCache m))) rules) \<noteq> neg)"
proof (cases "mode = LogicalTypeAnd")
  case True
  have "logical_and_loop (\<lambda>r m _. ev r m) m 0 emptyRuleMatchState rules \<noteq> Some 0"
    using logical_and_loop_neq_0 [of "\<lambda>r m _. ev r m" m 0 emptyRuleMatchState rules 0] by auto
  then show ?thesis
    using True logical_and_loop_None [of "\<lambda>r m _. ev r m" m 0 emptyRuleMatchState rules]
    by (auto simp: LogicalDNSRule_matchStatesForMatch_def isEmpty_def list_all_iff split: option.splits)
next
  case False
  then show ?thesis
    using orl.run_empty_iff [where ev = "\<lambda>r m _. ev r m" and m = m and b = 0 and xs = rules]
    by (auto simp: LogicalDNSRule_matchStatesForMatch_def Let_def list_ex_iff isEmpty_def)
qed

lemma DefaultDNSRule_isEmpty:
  "\<not> isEmpty (fst (DefaultDNSRule_matchStatesForMatch E rs d m)) \<longleftrightarrow> dns_documented E rs (DefaultRule d) m"
  by (simp add: DefaultDNSRule_matchStatesForMatch_def default_Match_def case_prod_unfold Let_def
      invertedFailure_def isEmpty_def)

lemma matchDNSHeadlessRule_isEmpty:
  "\<not> isEmpty (matchDNSHeadlessRuleStatesForMatch E rs r m) \<longleftrightarrow> dns_documented E rs r m"
proof (induction r arbitrary: m)
  case (DefaultRule d)
  show ?case by (simp only: matchDNSHeadlessRuleStatesForMatch.simps DefaultDNSRule_isEmpty)
next
  case (LogicalRule rules mode neg act)
  then show ?case
    by (simp add: LogicalDNSRule_isEmpty list_all_iff list_ex_iff)
qed

subsection \<open>Rules that do not read the response\<close>

text \<open>Two metadata of one query that differ at most in the response.\<close>

definition same_query :: "inbound_context \<Rightarrow> inbound_context \<Rightarrow> bool" where
  "same_query m m' \<longleftrightarrow> (\<exists>response.
     m' = m\<lparr>m_DNSResponse := response, m_DestinationAddressMatchFromResponse := True\<rparr>)"

lemma same_query_simps:
  "same_query m m' \<Longrightarrow> same_query (ResetRuleCache m) (ResetRuleCache m')"
  "same_query m m' \<Longrightarrow> same_query (ResetRuleMatchCache m) (ResetRuleMatchCache m')"
  "same_query m m' \<Longrightarrow> same_query (rule_set_metadata it m) (rule_set_metadata it m')"
  "same_query m m' \<Longrightarrow> same_query (didMatch m) (didMatch m')"
  by (cases m; auto simp: same_query_def ResetRuleCache_def ResetRuleMatchCache_def
      rule_set_metadata_def didMatch_def)+

lemma item_Match_same_query:
  "same_query m m' \<Longrightarrow> \<not> response_item it \<Longrightarrow> item_Match E it m' = item_Match E it m"
  by (cases it) (auto simp: same_query_def item_Match_defs)

definition no_response :: "('act, 'x) abstractDefaultRule_scheme \<Rightarrow> bool" where
  "no_response d \<longleftrightarrow> quiet d \<and> destinationIPCIDRItems d = []"

lemma slot_Match_same_query:
  assumes "same_query m m'" and "no_response d" and "it \<in> set (slot_items s d)"
  shows "item_Match E it m' = item_Match E it m"
proof (rule item_Match_same_query [OF assms(1)])
  have "(s, it) \<in> set (entries d)" using assms(3) by (auto simp: slot_items_def)
  moreover have "s \<noteq> DestinationIPCIDRItems" using assms(2,3) by (auto simp: no_response_def)
  ultimately show "\<not> response_item it"
    using assms(2) by (auto simp: no_response_def quiet_entries_def)
qed

lemma groups_same_query:
  assumes "same_query m m'" and "no_response d"
  shows "matchAnyItem E (slot_items s d) m' = matchAnyItem E (slot_items s d) m"
    and "all_items_match E d m' = all_items_match E d m"
    and "group_bits E d m' = group_bits E d m"
    and "state_allowed d m' = state_allowed d m"
    and "\<not> ignored_only d m''"
proof -
  show any: "matchAnyItem E (slot_items s d) m' = matchAnyItem E (slot_items s d) m" for s
    using slot_Match_same_query [OF assms, of _ s E] by (auto simp: matchAnyItem_def list_ex_iff)
  show "all_items_match E d m' = all_items_match E d m"
    using slot_Match_same_query [OF assms, of _ Items E] by (auto simp: all_items_match_def list_all_iff)
  have dest: "destinationIPCIDRItems d = []" using assms(2) by (simp add: no_response_def)
  show "group_bits E d m' = group_bits E d m"
    by (simp add: group_bits_def sourceAddressHit_def destinationAddressHit_def any dest)
  show "state_allowed d m' = state_allowed d m"
    by (simp add: fun_eq_iff state_allowed_def requiresSourceAddressMatch_def
        requiresDestinationAddressMatch_def destinationIPCIDRMatchesSource_def
        destinationIPCIDRMatchesDestination_def dest)
  show "\<not> ignored_only d m''" by (simp add: ignored_only_def dest)
qed

lemma default_same_query:
  assumes "same_query m m'" and "no_response d"
    and "\<And>it b. ruleSetItem d = Some it \<Longrightarrow> rs it (didMatch m') b = rs it (didMatch m) b"
  shows "fst (default_matchStatesWithBase E rs d m' b) = fst (default_matchStatesWithBase E rs d m b)"
proof -
  have "rule_states E rs d m' base = rule_states E rs d m base" for base
    using assms(3)
    by (simp add: rule_states_def groups_same_query(3,4) [OF assms(1,2)] split: option.splits)
  then show ?thesis
    by (simp add: default_matchStatesWithBase_eq groups_same_query [OF assms(1,2)] Let_def)
qed

text \<open>A logical rule reads the metadata through its rules only.\<close>

lemma logical_metadata_cong:
  assumes "\<And>r b. r \<in> set rules \<Longrightarrow> ev r (ResetRuleCache m') b = ev r (ResetRuleCache m) b"
  shows "logical_matchStatesWithBase ev rules mode neg m' base =
    logical_matchStatesWithBase ev rules mode neg m base"
proof -
  have "logical_and_loop ev m' b s rules = logical_and_loop ev m b s rules" for b s
    using assms by (induction rules arbitrary: s) (simp_all add: Let_def)
  moreover have "logical_or_loop ev m' b rules = logical_or_loop ev m b rules" for b
    unfolding logical_or_loop_def using assms by (intro foldl_cong) auto
  ultimately show ?thesis by (simp add: logical_matchStatesWithBase_def)
qed

lemma rule_same_query:
  assumes "all_defaults P r"
    and "\<And>d m m' b. P d \<Longrightarrow> same_query m m' \<Longrightarrow> f d m' b = f d m b"
    and "same_query m m'"
  shows "rule_matchStatesWithBase f r m' b = rule_matchStatesWithBase f r m b"
  using assms(1,3)
proof (induction r arbitrary: m m' b)
  case (DefaultRule d)
  then show ?case using assms(2) by simp
next
  case (LogicalRule rules mode neg act)
  show ?case
    unfolding rule_matchStatesWithBase.simps
  proof (rule logical_metadata_cong)
    fix r b
    assume "r \<in> set rules"
    then show "rule_matchStatesWithBase f r (ResetRuleCache m') b =
        rule_matchStatesWithBase f r (ResetRuleCache m) b"
      using LogicalRule.IH LogicalRule.prems same_query_simps(1) by (auto simp: list_all_iff)
  qed
qed

lemma no_cidr_no_response:
  "all_defaults (\<lambda>d. quiet d \<and> ruleSetItem d = None) h \<Longrightarrow> \<not> has_cidr h \<Longrightarrow>
     all_defaults (\<lambda>d. no_response d \<and> ruleSetItem d = None) h"
  by (induction h) (auto simp: no_response_def list_all_iff list_ex_iff)

lemma headless_same_query:
  assumes "all_defaults (\<lambda>d. no_response d \<and> ruleSetItem d = None) h" and "same_query m m'"
  shows "headless_matchStatesWithBase E h m' b = headless_matchStatesWithBase E h m b"
  unfolding headless_matchStatesWithBase_def
  by (rule rule_same_query [OF assms(1) _ assms(2)]) (auto intro: default_same_query)

lemma rules_same_query:
  assumes "\<And>h. h \<in> set rules \<Longrightarrow> all_defaults (\<lambda>d. no_response d \<and> ruleSetItem d = None) h"
    and "same_query m m'"
  shows "rules_matchStatesWithBase (headless_matchStatesWithBase E) rules m' b =
    rules_matchStatesWithBase (headless_matchStatesWithBase E) rules m b"
  unfolding rules_matchStatesWithBase_def
proof (rule foldl_cong)
  fix a h
  assume "h \<in> set rules"
  then show "merge a (headless_matchStatesWithBase E h (ResetRuleMatchCache m') b) =
      merge a (headless_matchStatesWithBase E h (ResetRuleMatchCache m) b)"
    using headless_same_query [OF assms(1) same_query_simps(2) [OF assms(2)]] by simp
qed simp_all


lemma sets_eval_same_query:
  assumes "\<And>tag s h. tag \<in> set (setList it) \<Longrightarrow> sets tag = Some s \<Longrightarrow> h \<in> set (set_rules s) \<Longrightarrow>
      all_defaults (\<lambda>d. no_response d \<and> ruleSetItem d = None) h"
    and "same_query m m'"
  shows "sets_eval E sets it m' b = sets_eval E sets it m b"
  unfolding sets_eval_def RuleSetItem_matchStatesWithBase_def rule_set_metadata_def [symmetric]
proof (rule foldl_cong)
  fix a tag
  assume tag: "tag \<in> set (setList it)"
  have "set_matchStatesWithBase E s (rule_set_metadata it m') b =
      set_matchStatesWithBase E s (rule_set_metadata it m) b" if s: "sets tag = Some s" for s
    using rules_same_query [OF assms(1) [OF tag s] same_query_simps(3) [OF assms(2)]]
    by (cases s) (simp_all add: Local_matchStatesWithBase_def Remote_matchStatesWithBase_def)
  then show "merge a (case sets tag of None \<Rightarrow> 0
        | Some s \<Rightarrow> set_matchStatesWithBase E s (rule_set_metadata it m') b) =
      merge a (case sets tag of None \<Rightarrow> 0
        | Some s \<Rightarrow> set_matchStatesWithBase E s (rule_set_metadata it m) b)"
    by (simp split: option.splits)
qed simp_all

text \<open>
  The DNS rules whose conditions outside the group of destination addresses do not read the response,
  and whose rule sets are items of the running program that do not match the source address.
\<close>

definition limit_rule :: "rule_set_item list \<Rightarrow> DefaultDNSRule \<Rightarrow> bool" where
  "limit_rule its d \<longleftrightarrow> quiet d \<and>
     (case ruleSetItem d of None \<Rightarrow> True | Some it \<Rightarrow> it \<in> set its \<and> \<not> ipCidrMatchSource it)"

lemma no_limit_default:
  assumes "world_inv (its, sets)" and "limit_rule its d"
    and "\<not> DefaultDNSRule_WithAddressLimit sets d" and "same_query m m'"
  shows "fst (default_matchStatesWithBase E (sets_eval E sets) d m' b) =
    fst (default_matchStatesWithBase E (sets_eval E sets) d m b)"
proof (rule default_same_query [OF assms(4)])
  show "no_response d"
    using assms(2,3)
    by (auto simp: no_response_def limit_rule_def DefaultDNSRule_WithAddressLimit_def split: if_splits)
  fix it b
  assume it: "ruleSetItem d = Some it"
  then have src: "\<not> ipCidrMatchSource it" and no: "\<not> ContainsDestinationIPCIDRRule sets it"
    using assms(2,3)
    by (auto simp: limit_rule_def DefaultDNSRule_WithAddressLimit_def split: if_splits)
  show "sets_eval E sets it (didMatch m') b = sets_eval E sets it (didMatch m) b"
  proof (rule sets_eval_same_query [OF _ same_query_simps(4) [OF assms(4)]])
    fix tag s h
    assume tag: "tag \<in> set (setList it)" "sets tag = Some s" "h \<in> set (set_rules s)"
    have hon: "honest (set_rules s) (set_Metadata s)"
      using assms(1) tag(2) by (auto simp: world_inv_def ran_def honest_set_def)
    have "\<not> ContainsIPCIDRRule (set_Metadata s)"
      using no src tag(1,2) by (force simp: ContainsDestinationIPCIDRRule_def list_ex_iff)
    then have "\<not> has_cidr h" using hon tag(3) by (auto simp: honest_def list_ex_iff)
    moreover have "all_defaults (\<lambda>d. quiet d \<and> ruleSetItem d = None) h"
      using hon tag(3) by (auto simp: honest_def list_all_iff)
    ultimately show "all_defaults (\<lambda>d. no_response d \<and> ruleSetItem d = None) h"
      by (rule no_cidr_no_response [rotated])
  qed
qed

lemma no_limit_defaults:
  "all_defaults P r \<Longrightarrow> \<not> dns_WithAddressLimit sets r \<Longrightarrow>
     all_defaults (\<lambda>d. P d \<and> \<not> DefaultDNSRule_WithAddressLimit sets d) r"
  by (induction r) (auto simp: list_all_iff list_ex_iff)

subsection \<open>The two legacy phases on one rule\<close>

lemma item_Match_ignoring [simp]: "item_Match E it (ignoring b m) = item_Match E it m"
  by (cases it) (simp_all add: item_Match_defs ignoring_def)

definition answered :: "inbound_context \<Rightarrow> dns_msg option \<Rightarrow> inbound_context" where
  "answered m response = response_metadata (m\<lparr>m_DNSResponse := response\<rparr>)"

lemma same_query_answered: "same_query m (answered m response)"
  by (auto simp: same_query_def answered_def response_metadata_def)

lemma dns_MatchAddressLimit_default:
  "dns_MatchAddressLimit E rs (DefaultRule d) m response \<longleftrightarrow> fst (default_Match E rs d (answered m response))"
  by (simp add: dns_MatchAddressLimit_def dns_matchStates_def default_Match_def default_matchStates_def
      answered_def case_prod_unfold Let_def)

lemma dns_LegacyPreMatch_default:
  "\<not> matchResponse d \<Longrightarrow>
     fst (dns_LegacyPreMatch E rs (DefaultRule d) m) \<longleftrightarrow> fst (default_Match E rs d (ignoring True m))"
  by (simp add: default_Match_def case_prod_unfold Let_def)

lemma quiet_groups:
  assumes "quiet d" and "s \<noteq> DestinationIPCIDRItems"
  shows "list_ex (\<lambda>it. item_Match E it (answered m response)) (slot_items s d) \<longleftrightarrow>
      list_ex (\<lambda>it. item_Match E it m) (slot_items s d)"
    and "list_all (\<lambda>it. item_Match E it (answered m response)) (slot_items s d) \<longleftrightarrow>
      list_all (\<lambda>it. item_Match E it m) (slot_items s d)"
proof -
  have "item_Match E it (answered m response) = item_Match E it m" if "it \<in> set (slot_items s d)" for it
    using that assms
    by (intro item_Match_same_query [OF same_query_answered])
      (auto simp: slot_items_def quiet_entries_def)
  then show "list_ex (\<lambda>it. item_Match E it (answered m response)) (slot_items s d) \<longleftrightarrow>
      list_ex (\<lambda>it. item_Match E it m) (slot_items s d)"
    and "list_all (\<lambda>it. item_Match E it (answered m response)) (slot_items s d) \<longleftrightarrow>
      list_all (\<lambda>it. item_Match E it m) (slot_items s d)"
    by (auto simp: list_ex_iff list_all_iff)
qed

subsection \<open>Properties\<close>

text \<open>
  C14. A DNS rule matches as documented, at every depth: a rule with \<^verbatim>\<open>match_response\<close> reads the
  addresses of the response, and without a response it matches exactly when it is inverted; a logical
  rule is the conjunction or disjunction of its rules, negated by \<^verbatim>\<open>invert\<close>; and matching a logical rule
  or a \<^verbatim>\<open>match_response\<close> rule leaves the metadata alone.
\<close>

theorem dns_rule_documented:
  "(fst (dns_Match E rs r m) \<longleftrightarrow> dns_documented E rs r m) \<and>
   (case r of DefaultRule d \<Rightarrow> if matchResponse d then snd (dns_Match E rs r m) = m else True
    | LogicalRule _ _ _ _ \<Rightarrow> snd (dns_Match E rs r m) = m)"
proof (cases r)
  case (DefaultRule d)
  show ?thesis
    using DefaultDNSRule_isEmpty [of E rs d m]
    by (simp add: DefaultRule case_prod_unfold Let_def del: dns_documented.simps)
      (simp add: DefaultDNSRule_matchStatesForMatch_def)
next
  case (LogicalRule rules mode neg act)
  then show ?thesis using matchDNSHeadlessRule_isEmpty [of E rs r m] by simp
qed


text \<open>
  The two phases of the legacy mode on a rule without rule sets.  When the rule names domains,
  passing the first phase passes the second whatever the response: its address conditions filter
  nothing, because they are alternatives to the domains.  When it names none, the first phase lets
  every query through that the second could accept.
\<close>

theorem legacy_phases:
  assumes "ruleSetItem d = None" and "\<not> invert d" and "\<not> matchResponse d" and "quiet d"
    and "\<not> m_IgnoreDestinationIPCIDRMatch m" and "\<not> m_IPCIDRMatchSource m"
  shows "if destinationAddressItems d \<noteq> []
    then fst (dns_LegacyPreMatch E rs (DefaultRule d) m) \<longrightarrow>
           dns_MatchAddressLimit E rs (DefaultRule d) m response
    else dns_MatchAddressLimit E rs (DefaultRule d) m response \<longrightarrow>
           fst (dns_LegacyPreMatch E rs (DefaultRule d) m)"
proof -
  have pre: "fst (dns_LegacyPreMatch E rs (DefaultRule d) m) \<longleftrightarrow>
      documented_match E d (ignoring True m)"
    using default_Match_plain [OF assms(1), of "ignoring True m" E rs] assms(2,3)
    by (simp add: dns_LegacyPreMatch_default del: dns_LegacyPreMatch.simps)
  have limit: "dns_MatchAddressLimit E rs (DefaultRule d) m response \<longleftrightarrow>
      documented_match E d (answered m response)"
    using default_Match_plain [OF assms(1), of "answered m response" E rs] assms(2)
    by (simp add: dns_MatchAddressLimit_default)
  have groups: "source_group d (ignoring True m) = sourceAddressItems d"
      "destination_group d (ignoring True m) = destinationAddressItems d"
      "source_group d (answered m response) = sourceAddressItems d"
      "destination_group d (answered m response) = destinationAddressItems d @ destinationIPCIDRItems d"
    using assms(5,6) by (simp_all add: source_group_def destination_group_def ignoring_def answered_def
        response_metadata_def)
  show ?thesis
    unfolding pre limit documented_match_def groups group_ok_def
    by (auto simp: quiet_groups [OF assms(4)])
qed

definition port_dns_rule :: DefaultDNSRule where
  "port_dns_rule = \<lparr>entries = [(DestinationPortItems, NewPortItem False [53])], ruleSetItem = None,
     invert = False, action = None, matchResponse = False\<rparr>"

theorem legacy_phases_witness:
  "dns_MatchAddressLimit plain_env no_rule_sets (DefaultRule port_dns_rule) (port_context 53) None \<and>
   fst (dns_LegacyPreMatch plain_env no_rule_sets (DefaultRule port_dns_rule) (port_context 53))"
proof -
  have r: "ruleSetItem port_dns_rule = None" "\<not> invert port_dns_rule" "\<not> matchResponse port_dns_rule"
    "quiet port_dns_rule" by (simp_all add: port_dns_rule_def quiet_entries_def)
  have m: "\<not> m_IgnoreDestinationIPCIDRMatch (port_context 53)" "\<not> m_IPCIDRMatchSource (port_context 53)"
    by (simp_all add: port_context_def InboundContextZero_def)
  have d: "destinationAddressItems port_dns_rule = []" by (simp add: port_dns_rule_def slot_items_def)
  have "documented_match plain_env port_dns_rule (answered (port_context 53) None)"
    by (simp add: example_simps port_dns_rule_def answered_def response_metadata_def)
  then have "dns_MatchAddressLimit plain_env no_rule_sets (DefaultRule port_dns_rule) (port_context 53) None"
    using default_Match_plain [OF r(1)] r(2) by (simp add: dns_MatchAddressLimit_default)
  then show ?thesis using legacy_phases [OF r m, of plain_env no_rule_sets None] d by simp
qed

text \<open>
  What \<^verbatim>\<open>WithAddressLimit\<close> promises: in every reachable state, a rule for which it is false gives
  the same verdict on every response, so the second phase need not run.  The rules are those whose other
  conditions do not read the response and whose rule sets do not match the source address.
\<close>

theorem no_address_limit:
  assumes "reachable_world R (its, sets)" and "decoders_type_rules R"
    and "all_defaults (limit_rule its) r" and "\<not> dns_WithAddressLimit sets r"
  shows "dns_MatchAddressLimit E (sets_eval E sets) r m response =
    dns_MatchAddressLimit E (sets_eval E sets) r m response'"
proof -
  have inv: "world_inv (its, sets)" by (rule reachable_world_inv [OF assms(1,2)])
  have "dns_matchStates E (sets_eval E sets) r (answered m x) = dns_matchStates E (sets_eval E sets) r m" for x
    unfolding dns_matchStates_def
    by (rule rule_same_query [OF no_limit_defaults [OF assms(3,4)] _ same_query_answered])
      (use inv in \<open>auto intro: no_limit_default\<close>)
  then show ?thesis by (simp add: dns_MatchAddressLimit_def answered_def)
qed

theorem no_address_limit_witness:
  "dns_MatchAddressLimit plain_env
     (sets_eval plain_env (geo_sets (RemoteSet (Remote_IncRef geo_started)))) (DefaultRule port_dns_rule)
     (port_context 53) None =
   dns_MatchAddressLimit plain_env
     (sets_eval plain_env (geo_sets (RemoteSet (Remote_IncRef geo_started)))) (DefaultRule port_dns_rule)
     (port_context 53) (Some \<lparr>d_Id = 0, d_Response = True, d_Authoritative = False, d_RecursionDesired = True,
        d_RecursionAvailable = True, d_Rcode = 3, d_Question = [], d_Answer = [], d_Ns = [], d_Extra = []\<rparr>)"
  by (rule no_address_limit [OF geo_reachable plain_rs_env_decoders])
    (simp_all add: limit_rule_def port_dns_rule_def quiet_entries_def DefaultDNSRule_WithAddressLimit_def
      slot_items_def)

text \<open>
  A logical rule forgets that its rule set is to match the source address: its verdict does not
  depend on \<^verbatim>\<open>IPCIDRMatchSource\<close> or \<^verbatim>\<open>IPCIDRAcceptEmpty\<close>, so that \<^verbatim>\<open>ip_cidr\<close> conditions below a logical rule
  of a rule set always look at the destination, while those of its default rules follow
  \<^verbatim>\<open>rule_set_ip_cidr_match_source\<close>.
\<close>

theorem logical_rule_forgets_match_source:
  "headless_matchStatesWithBase E (LogicalRule rules mode neg act)
     (m\<lparr>m_IPCIDRMatchSource := x, m_IPCIDRAcceptEmpty := y\<rparr>) b =
   headless_matchStatesWithBase E (LogicalRule rules mode neg act) m b"
  unfolding headless_matchStatesWithBase_def rule_matchStatesWithBase.simps
  by (rule logical_metadata_cong) (cases m, simp add: ResetRuleCache_def ResetRuleMatchCache_def)

text \<open>
  \<^verbatim>\<open>LegacyPreMatch\<close> leaves the metadata as it found it, up to the mark that something was looked at:
  the flag it sets for the duration of the match is cleared again.
\<close>

theorem legacy_pre_match_restores:
  assumes "\<not> m_IgnoreDestinationIPCIDRMatch m"
  shows "snd (dns_LegacyPreMatch E rs r m) = m \<or> snd (dns_LegacyPreMatch E rs r m) = m\<lparr>m_DidMatch := True\<rparr>"
proof -
  have restored: "ignoring False (ignoring True m) = m" "ignoring False m = m"
      "ignoring False (didMatch (ignoring True m)) = m\<lparr>m_DidMatch := True\<rparr>"
    using assms by (cases m; simp add: ignoring_def didMatch_def)+
  show ?thesis
  proof (cases r)
    case (DefaultRule d)
    obtain p where "snd (default_matchStatesWithBase E rs d (ignoring True m) 0) = mark p (ignoring True m)"
      using default_matchStatesWithBase_metadata by blast
    then show ?thesis
      using restored DefaultRule
      by (cases p) (simp_all add: default_matchStates_def case_prod_unfold Let_def)
  next
    case (LogicalRule rules mode neg act)
    then show ?thesis using restored by simp
  qed
qed


theorem legacy_pre_match_restores_witness:
  "snd (dns_LegacyPreMatch plain_env no_rule_sets (LogicalRule [] LogicalTypeOr True None) (port_context 53))
     = port_context 53"
  using legacy_pre_match_restores [of "port_context 53" plain_env no_rule_sets
      "LogicalRule [] LogicalTypeOr True None"]
  by (auto simp: port_context_def InboundContextZero_def ignoring_def)

end
