(* ===== verification/Dns_Message.thy ===== *)
theory Dns_Message
  imports Options Byte_Order
begin

text \<open>
  DNS messages: the fixed responses, the time to live of a response, the client subnet option and
  the rewriting of a response, from \<^verbatim>\<open>dns/client.go\<close>, \<^verbatim>\<open>dns/client_log.go\<close>,
  \<^verbatim>\<open>dns/client_truncate.go\<close> and \<^verbatim>\<open>dns/extension_edns0_subnet.go\<close>.

  The message and its records are values of the types of \<^verbatim>\<open>Metadata\<close>; the source mutates records in
  place, always on a message no one else holds or on a copy, so an operation returns the new message.
\<close>

subsection \<open>Constants\<close>

definition TypeA :: "16 word" where "TypeA = 1"
definition TypeCNAME :: "16 word" where "TypeCNAME = 5"
definition TypeAAAA :: "16 word" where "TypeAAAA = 28"
definition TypeOPT :: "16 word" where "TypeOPT = 41"
definition TypeHTTPS :: "16 word" where "TypeHTTPS = 65"
definition ClassINET :: "16 word" where "ClassINET = 1"

definition RcodeFormatError :: int where "RcodeFormatError = 1"
definition RcodeNameError :: int where "RcodeNameError = 3"

definition EDNS0PADDING :: "16 word" where "EDNS0PADDING = 12"

definition DefaultDNSTTL :: "32 word" where "DefaultDNSTTL = 600"

definition DomainStrategyAsIS :: domain_strategy where "DomainStrategyAsIS = 0"
definition DomainStrategyPreferIPv4 :: domain_strategy where "DomainStrategyPreferIPv4 = 1"
definition DomainStrategyPreferIPv6 :: domain_strategy where "DomainStrategyPreferIPv6 = 2"
definition DomainStrategyIPv4Only :: domain_strategy where "DomainStrategyIPv4Only = 3"
definition DomainStrategyIPv6Only :: domain_strategy where "DomainStrategyIPv6Only = 4"

lemmas dns_types = TypeA_def TypeCNAME_def TypeAAAA_def TypeOPT_def TypeHTTPS_def

subsection \<open>Fixed responses\<close>

text \<open>\<^verbatim>\<open>FqdnToDomain\<close>, with \<^verbatim>\<open>dns.IsFqdn\<close> as an argument.\<close>

definition FqdnToDomain :: "(string \<Rightarrow> bool) \<Rightarrow> string \<Rightarrow> string" where
  "FqdnToDomain IsFqdn fqdn = (if IsFqdn fqdn then butlast fqdn else fqdn)"

definition FixedResponseStatus :: "dns_msg \<Rightarrow> int \<Rightarrow> dns_msg" where
  "FixedResponseStatus message rcode =
     \<lparr>d_Id = d_Id message, d_Response = True, d_Authoritative = True, d_RecursionDesired = True,
      d_RecursionAvailable = True, d_Rcode = rcode, d_Question = d_Question message,
      d_Answer = [], d_Ns = [], d_Extra = []\<rparr>"

definition fixed_header :: "question \<Rightarrow> 16 word \<Rightarrow> 32 word \<Rightarrow> rr_header" where
  "fixed_header q rrtype ttl = \<lparr>h_Name = q_Name q, h_Rrtype = rrtype, h_Class = ClassINET, h_Ttl = ttl\<rparr>"

definition fixed_message :: "16 word \<Rightarrow> question \<Rightarrow> rr list \<Rightarrow> dns_msg" where
  "fixed_message i q answer =
     \<lparr>d_Id = i, d_Response = True, d_Authoritative = True, d_RecursionDesired = True,
      d_RecursionAvailable = True, d_Rcode = RcodeSuccess, d_Question = [q],
      d_Answer = answer, d_Ns = [], d_Extra = []\<rparr>"

definition fixed_record :: "question \<Rightarrow> 32 word \<Rightarrow> addr \<Rightarrow> rr list" where
  "fixed_record q ttl address =
     (if addr_Is4 address \<and> q_Qtype q = TypeA then [RR_A (fixed_header q TypeA ttl) (addr_AsSlice address)]
      else if addr_Is6 address \<and> q_Qtype q = TypeAAAA
      then [RR_AAAA (fixed_header q TypeAAAA ttl) (addr_AsSlice address)]
      else [])"

definition FixedResponse :: "16 word \<Rightarrow> question \<Rightarrow> addr list \<Rightarrow> 32 word \<Rightarrow> dns_msg" where
  "FixedResponse i q addresses ttl = fixed_message i q (concat (map (fixed_record q ttl) addresses))"

definition FixedResponseCNAME :: "16 word \<Rightarrow> question \<Rightarrow> string \<Rightarrow> 32 word \<Rightarrow> dns_msg" where
  "FixedResponseCNAME i q record ttl = fixed_message i q [RR_CNAME (fixed_header q TypeCNAME ttl) record]"

definition FixedResponseTXT :: "16 word \<Rightarrow> question \<Rightarrow> string list \<Rightarrow> 32 word \<Rightarrow> dns_msg" where
  "FixedResponseTXT i q records ttl = fixed_message i q [RR_TXT (fixed_header q TypeA ttl) records]"

definition FixedResponseMX :: "16 word \<Rightarrow> question \<Rightarrow> (16 word \<times> string) list \<Rightarrow> 32 word \<Rightarrow> dns_msg" where
  "FixedResponseMX i q records ttl =
     fixed_message i q (map (\<lambda>(pref, host). RR_MX (fixed_header q TypeA ttl) pref host) records)"

subsection \<open>Time to live\<close>

fun extractNegativeTTL :: "rr list \<Rightarrow> 32 word option" where
  "extractNegativeTTL [] = None"
| "extractNegativeTTL (RR_SOA h soaMinimum # rs) =
     (if h_Ttl h < soaMinimum then Some (h_Ttl h) else Some soaMinimum)"
| "extractNegativeTTL (_ # rs) = extractNegativeTTL rs"

definition ttl_step :: "32 word \<Rightarrow> rr \<Rightarrow> 32 word" where
  "ttl_step timeToLive record =
     (if h_Rrtype (rr_hdr record) = TypeOPT then timeToLive
      else if timeToLive = 0 \<or> h_Ttl (rr_hdr record) > 0 \<and> h_Ttl (rr_hdr record) < timeToLive
      then h_Ttl (rr_hdr record) else timeToLive)"

definition msg_records :: "dns_msg \<Rightarrow> rr list" where
  "msg_records m = d_Answer m @ d_Ns m @ d_Extra m"

definition computeTimeToLive :: "dns_msg \<Rightarrow> 32 word" where
  "computeTimeToLive response =
     (let scan = foldl ttl_step 0 (msg_records response)
      in if d_Answer response = [] then
           (case extractNegativeTTL (d_Ns response) of Some soaTTL \<Rightarrow> soaTTL | None \<Rightarrow> scan)
         else scan)"

definition set_ttl :: "32 word \<Rightarrow> rr \<Rightarrow> rr" where
  "set_ttl ttl record =
     (if h_Rrtype (rr_hdr record) = TypeOPT then record else rr_map_hdr (\<lambda>h. h\<lparr>h_Ttl := ttl\<rparr>) record)"

definition normalizeTTL :: "dns_msg \<Rightarrow> 32 word \<Rightarrow> dns_msg" where
  "normalizeTTL m ttl =
     m\<lparr>d_Answer := map (set_ttl ttl) (d_Answer m), d_Ns := map (set_ttl ttl) (d_Ns m),
       d_Extra := map (set_ttl ttl) (d_Extra m)\<rparr>"

subsection \<open>Rewriting a response\<close>

record DNSQueryOptions =
  qo_Strategy :: domain_strategy
  qo_LookupStrategy :: domain_strategy
  qo_Timeout :: duration
  qo_DisableCache :: bool
  qo_DisableOptimisticCache :: bool
  qo_RewriteTTL :: "32 word option"
  qo_ClientSubnet :: prefix

fun keep_hint :: "domain_strategy \<Rightarrow> svcb \<Rightarrow> bool" where
  "keep_hint strategy (SVCBIPv6Hint _) \<longleftrightarrow> strategy \<noteq> DomainStrategyIPv4Only"
| "keep_hint strategy (SVCBIPv4Hint _) \<longleftrightarrow> strategy = DomainStrategyIPv4Only"
| "keep_hint strategy (SVCBOther _ _) \<longleftrightarrow> True"

fun filter_hints :: "domain_strategy \<Rightarrow> rr \<Rightarrow> rr" where
  "filter_hints strategy (RR_HTTPS h values) = RR_HTTPS h (filter (keep_hint strategy) values)"
| "filter_hints strategy r = r"

definition applyResponseOptions :: "question \<Rightarrow> dns_msg \<Rightarrow> 'x DNSQueryOptions_scheme \<Rightarrow> 32 word \<times> dns_msg" where
  "applyResponseOptions q response options =
     (let response1 =
            (if q_Qtype q = TypeHTTPS \<and>
                (qo_Strategy options = DomainStrategyIPv4Only \<or> qo_Strategy options = DomainStrategyIPv6Only)
             then response\<lparr>d_Answer := map (filter_hints (qo_Strategy options)) (d_Answer response)\<rparr>
             else response);
          timeToLive = (case qo_RewriteTTL options of
                          Some ttl \<Rightarrow> ttl
                        | None \<Rightarrow> computeTimeToLive response1)
      in (timeToLive, normalizeTTL response1 timeToLive))"

fun edns0_Option :: "edns0 \<Rightarrow> 16 word" where
  "edns0_Option (EDNS0_SUBNET _ _ _ _) = 8"
| "edns0_Option (EDNS0_Other code _) = code"

fun strip_padding :: "rr \<Rightarrow> rr" where
  "strip_padding (RR_OPT h os) = RR_OPT h (filter (\<lambda>it. edns0_Option it \<noteq> EDNS0PADDING) os)"
| "strip_padding r = r"

definition stripDNSPadding :: "dns_msg \<Rightarrow> dns_msg" where
  "stripDNSPadding response = response\<lparr>d_Extra := map strip_padding (d_Extra response)\<rparr>"

definition sortAddresses :: "addr list \<Rightarrow> addr list \<Rightarrow> domain_strategy \<Rightarrow> addr list" where
  "sortAddresses response4 response6 strategy =
     (if strategy = DomainStrategyPreferIPv6 then response6 @ response4 else response4 @ response6)"

subsection \<open>The client subnet\<close>

text \<open>
  The loop \<^verbatim>\<open>findExists\<close> as the source writes it: \<open>optRecord\<close> and \<open>subnetOption\<close> are positions, and the
  type assertion assigns to \<open>optRecord\<close> for every record, nil for a record that is not an \<^verbatim>\<open>OPT\<close> record.
\<close>

fun is_subnet :: "edns0 \<Rightarrow> bool" where
  "is_subnet (EDNS0_SUBNET _ _ _ _) = True"
| "is_subnet _ = False"

fun is_opt :: "rr \<Rightarrow> bool" where
  "is_opt (RR_OPT _ _) = True"
| "is_opt _ = False"

fun find_option :: "nat \<Rightarrow> edns0 list \<Rightarrow> nat option" where
  "find_option j [] = None"
| "find_option j (x # xs) = (if is_subnet x then Some j else find_option (Suc j) xs)"

fun findExists :: "nat \<Rightarrow> nat option \<Rightarrow> rr list \<Rightarrow> nat option \<times> nat option" where
  "findExists i optRecord [] = (optRecord, None)"
| "findExists i optRecord (r # rs) =
     (case r of
        RR_OPT h os \<Rightarrow> (case find_option 0 os of
                           Some j \<Rightarrow> (Some i, Some j)
                         | None \<Rightarrow> findExists (Suc i) (Some i) rs)
      | _ \<Rightarrow> findExists (Suc i) None rs)"

definition subnet_of :: "prefix \<Rightarrow> 8 word \<Rightarrow> edns0" where
  "subnet_of clientSubnet scope =
     EDNS0_SUBNET (if addr_Is4 (p_Addr clientSubnet) then 1 else 2) (word_of_int (p_Bits clientSubnet))
       scope (addr_AsSlice (p_Addr clientSubnet))"

definition set_subnet :: "prefix \<Rightarrow> nat option \<Rightarrow> rr \<Rightarrow> rr" where
  "set_subnet clientSubnet subnetOption r =
     RR_OPT (rr_hdr r)
       (case subnetOption of
          None \<Rightarrow> opt_Option r @ [subnet_of clientSubnet 0]
        | Some j \<Rightarrow> (opt_Option r)[j := subnet_of clientSubnet (es_SourceScope (opt_Option r ! j))])"

definition SetClientSubnet :: "dns_msg \<Rightarrow> prefix \<Rightarrow> dns_msg" where
  "SetClientSubnet message clientSubnet =
     (let (optRecord, subnetOption) = findExists 0 None (d_Extra message)
      in case optRecord of
           None \<Rightarrow>
             message\<lparr>d_Extra := d_Extra message @
               [set_subnet clientSubnet subnetOption
                 (RR_OPT \<lparr>h_Name = ''.'', h_Rrtype = TypeOPT, h_Class = 0, h_Ttl = 0\<rparr> [])]\<rparr>
         | Some i \<Rightarrow>
             message\<lparr>d_Extra := (d_Extra message)
               [i := set_subnet clientSubnet subnetOption (d_Extra message ! i)]\<rparr>)"

subsection \<open>Truncation\<close>

text \<open>
  \<^verbatim>\<open>TruncateDNSMessage\<close> up to the packing of the message: \<open>udpSize\<close> is the size the request announces,
  \<open>msgLen\<close> and \<open>trunc\<close> are \<^verbatim>\<open>Len\<close> and \<^verbatim>\<open>Truncate\<close> of the DNS library.
\<close>

definition truncate_limit :: "nat option \<Rightarrow> nat" where
  "truncate_limit udpSize = (case udpSize of None \<Rightarrow> 512 | Some n \<Rightarrow> if n > 512 then n else 512)"

definition TruncateDNSMessage ::
  "(dns_msg \<Rightarrow> nat) \<Rightarrow> (nat \<Rightarrow> dns_msg \<Rightarrow> dns_msg) \<Rightarrow> nat option \<Rightarrow> dns_msg \<Rightarrow> dns_msg" where
  "TruncateDNSMessage msgLen trunc udpSize response =
     (if msgLen response > truncate_limit udpSize then trunc (truncate_limit udpSize) response
      else response)"


subsection \<open>Lemmas\<close>

definition ttls :: "rr list \<Rightarrow> 32 word set" where
  "ttls rs = {h_Ttl (rr_hdr r) | r. r \<in> set rs \<and> h_Rrtype (rr_hdr r) \<noteq> TypeOPT \<and> h_Ttl (rr_hdr r) \<noteq> 0}"

lemma ttls_simps:
  "ttls [] = {}"
  "ttls (r # rs) = (if h_Rrtype (rr_hdr r) \<noteq> TypeOPT \<and> h_Ttl (rr_hdr r) \<noteq> 0
     then insert (h_Ttl (rr_hdr r)) (ttls rs) else ttls rs)"
  by (auto simp: ttls_def)

lemma finite_ttls [simp]: "finite (ttls rs)"
  by (induction rs) (simp_all add: ttls_simps)

lemma ttl_scan:
  "foldl ttl_step t rs = (if t = 0 then (if ttls rs = {} then 0 else Min (ttls rs))
     else Min (insert t (ttls rs)))"
proof (induction rs arbitrary: t)
  case Nil
  show ?case by (simp add: ttls_simps)
next
  case (Cons r rs)
  have "Min (insert a (insert b (ttls rs))) = Min (insert (if b < a then b else a) (ttls rs))" for a b
    by (cases "ttls rs = {}") (auto simp: min_def not_less)
  then show ?case
    unfolding foldl.simps Cons.IH ttls_simps
    by (cases "h_Rrtype (rr_hdr r) = TypeOPT"; cases "h_Ttl (rr_hdr r) = 0"; cases "t = 0")
      (simp_all add: ttl_step_def word_gt_0)
qed

lemma find_option_None: "find_option j xs = None \<longleftrightarrow> \<not> list_ex is_subnet xs"
  by (induction xs arbitrary: j) simp_all

lemma find_option_Some:
  "find_option j xs = Some k \<Longrightarrow> j \<le> k \<and> k < j + length xs \<and> is_subnet (xs ! (k - j))"
proof (induction xs arbitrary: j)
  case (Cons x xs)
  then show ?case
    by (cases "is_subnet x") (force simp: Suc_diff_le nth_Cons' split: if_splits)+
qed simp

text \<open>Some \<^verbatim>\<open>OPT\<close> record carries a subnet.\<close>

definition has_subnet :: "rr list \<Rightarrow> bool" where
  "has_subnet rs \<longleftrightarrow> (\<exists>r \<in> set rs. is_opt r \<and> list_ex is_subnet (opt_Option r))"

fun found :: "nat \<Rightarrow> nat option \<Rightarrow> rr list \<Rightarrow> nat option \<times> nat option \<Rightarrow> bool" where
  "found i r0 rs (Some k, Some j) \<longleftrightarrow> has_subnet rs \<and> i \<le> k \<and> k < i + length rs \<and>
     is_opt (rs ! (k - i)) \<and> j < length (opt_Option (rs ! (k - i)))"
| "found i r0 rs (Some k, None) \<longleftrightarrow> \<not> has_subnet rs \<and>
     (if rs = [] then r0 = Some k else is_opt (last rs) \<and> k = i + length rs - 1)"
| "found i r0 rs (None, x) \<longleftrightarrow> x = None \<and> \<not> has_subnet rs \<and>
     (if rs = [] then r0 = None else \<not> is_opt (last rs))"

lemma findExists_found: "found i r0 rs (findExists i r0 rs)"
proof (induction rs arbitrary: i r0)
  case Nil
  show ?case by (cases r0) (simp_all add: has_subnet_def)
next
  case (Cons r rs)
  have cons: "has_subnet (r # rs) \<longleftrightarrow> is_opt r \<and> list_ex is_subnet (opt_Option r) \<or> has_subnet rs"
    by (auto simp: has_subnet_def)
  show ?case
  proof (cases "is_opt r \<and> list_ex is_subnet (opt_Option r)")
    case True
    then obtain h xs where "r = RR_OPT h xs" "find_option 0 xs \<noteq> None"
      by (cases r) (simp_all add: find_option_None)
    then obtain j where r: "r = RR_OPT h xs" "find_option 0 xs = Some j" by auto
    then show ?thesis using find_option_Some [of 0 xs j] True by (simp add: has_subnet_def)
  next
    case False
    define r1 where "r1 = (if is_opt r then Some i else None)"
    have f: "findExists i r0 (r # rs) = findExists (Suc i) r1 rs"
      using False by (cases r) (simp_all add: r1_def find_option_None [THEN iffD2])
    have nth: "Suc i \<le> k \<Longrightarrow> (r # rs) ! (k - i) = rs ! (k - Suc i)" for k
      by (simp add: nth_Cons')
    show ?thesis
    proof (cases "findExists (Suc i) r1 rs")
      case (Pair a b)
      then have "found (Suc i) r1 rs (a, b)" using Cons.IH [of "Suc i" r1] by simp
      then show ?thesis
        using False cons nth unfolding f Pair
        by (cases a; cases b; cases "rs = []") (auto simp: r1_def split: if_splits)
    qed
  qed
qed

definition opt_count :: "rr list \<Rightarrow> nat" where
  "opt_count rs = length (filter is_opt rs)"

lemma opt_count_update:
  "i < length rs \<Longrightarrow> is_opt (rs ! i) \<Longrightarrow> is_opt r \<Longrightarrow> opt_count (rs[i := r]) = opt_count rs"
proof (induction rs arbitrary: i)
  case (Cons x rs)
  then show ?case by (cases i) (auto simp: opt_count_def)
qed simp

lemma set_subnet_has:
  assumes "case subnetOption of None \<Rightarrow> True | Some j \<Rightarrow> j < length (opt_Option r)"
  shows "is_opt (set_subnet p subnetOption r) \<and>
    (\<exists>scope. subnet_of p scope \<in> set (opt_Option (set_subnet p subnetOption r)))"
  using assms by (cases subnetOption) (auto simp: set_subnet_def intro!: exI set_update_memI)

subsection \<open>Properties\<close>

text \<open>
  C37. The time to live of a response is the least positive one among its records, the \<^verbatim>\<open>OPT\<close> record left
  out, and 0 when there is none; a response without an answer takes the smaller of the two values of
  its first \<^verbatim>\<open>SOA\<close> record instead.  Applying the options of a query sets every record to that value or
  to the configured one.
\<close>

theorem time_to_live:
  "computeTimeToLive m =
     (if d_Answer m = [] \<and> extractNegativeTTL (d_Ns m) \<noteq> None then the (extractNegativeTTL (d_Ns m))
      else if ttls (msg_records m) = {} then 0 else Min (ttls (msg_records m))) \<and>
   (let (t, m') = applyResponseOptions q m options
    in list_all (\<lambda>r. h_Rrtype (rr_hdr r) = TypeOPT \<or> h_Ttl (rr_hdr r) = t) (msg_records m') \<and>
       length (msg_records m') = length (msg_records m) \<and>
       (case qo_RewriteTTL options of None \<Rightarrow> t = computeTimeToLive m | Some ttl \<Rightarrow> t = ttl))"
proof
  show "computeTimeToLive m =
     (if d_Answer m = [] \<and> extractNegativeTTL (d_Ns m) \<noteq> None then the (extractNegativeTTL (d_Ns m))
      else if ttls (msg_records m) = {} then 0 else Min (ttls (msg_records m)))"
    by (auto simp: computeTimeToLive_def ttl_scan split: option.splits)
next
  have hdr: "rr_hdr (filter_hints s r) = rr_hdr r" for s r by (cases r) simp_all
  have hints: "ttls (map (filter_hints s) xs @ ys) = ttls (xs @ ys)" for s xs ys
    by (induction xs) (simp_all add: ttls_simps hdr)
  have "computeTimeToLive (m\<lparr>d_Answer := map (filter_hints s) (d_Answer m)\<rparr>) = computeTimeToLive m" for s
    using hints [of s "d_Answer m" "d_Ns m @ d_Extra m"]
    by (simp add: computeTimeToLive_def msg_records_def ttl_scan Let_def del: foldl_append split: option.splits)
  moreover have "h_Rrtype (rr_hdr (set_ttl t r)) = TypeOPT \<or> h_Ttl (rr_hdr (set_ttl t r)) = t" for t r
    by (simp add: set_ttl_def)
  ultimately show "let (t, m') = applyResponseOptions q m options
    in list_all (\<lambda>r. h_Rrtype (rr_hdr r) = TypeOPT \<or> h_Ttl (rr_hdr r) = t) (msg_records m') \<and>
       length (msg_records m') = length (msg_records m) \<and>
       (case qo_RewriteTTL options of None \<Rightarrow> t = computeTimeToLive m | Some ttl \<Rightarrow> t = ttl)"
    by (auto simp: applyResponseOptions_def normalizeTTL_def msg_records_def Let_def list_all_iff split: option.splits)
qed

text \<open>
  Setting the client subnet keeps every other section of the message and leaves the subnet in some
  \<^verbatim>\<open>OPT\<close> record.  It adds an \<^verbatim>\<open>OPT\<close> record exactly when no record has a subnet and the last record of the
  additional section is not an \<^verbatim>\<open>OPT\<close> record: a message whose \<^verbatim>\<open>OPT\<close> record is followed by another record
  ends up with two of them.
\<close>

theorem client_subnet_opt_records:
  "let m' = SetClientSubnet m p
   in m'\<lparr>d_Extra := []\<rparr> = m\<lparr>d_Extra := []\<rparr> \<and>
      (\<exists>r \<in> set (d_Extra m'). is_opt r \<and> (\<exists>scope. subnet_of p scope \<in> set (opt_Option r))) \<and>
      opt_count (d_Extra m') = opt_count (d_Extra m) +
        (if has_subnet (d_Extra m) \<or> d_Extra m \<noteq> [] \<and> is_opt (last (d_Extra m)) then 0 else 1)"
proof -
  obtain optRecord subnetOption where f: "findExists 0 None (d_Extra m) = (optRecord, subnetOption)"
    by (cases "findExists 0 None (d_Extra m)")
  note spec = findExists_found [of 0 None "d_Extra m", unfolded f]
  show ?thesis
  proof (cases optRecord)
    case None
    then have s: "subnetOption = None" "\<not> has_subnet (d_Extra m)"
        "d_Extra m = [] \<or> \<not> is_opt (last (d_Extra m))"
      using spec by (cases subnetOption; auto split: if_splits)+
    show ?thesis
      using None s set_subnet_has [where subnetOption = None and p = p]
      by (auto simp: SetClientSubnet_def f opt_count_def Let_def)
  next
    case (Some i)
    have i: "i < length (d_Extra m)" "is_opt (d_Extra m ! i)"
        "case subnetOption of None \<Rightarrow> True | Some j \<Rightarrow> j < length (opt_Option (d_Extra m ! i))"
        "has_subnet (d_Extra m) \<or> d_Extra m \<noteq> [] \<and> is_opt (last (d_Extra m))"
      using spec Some by (cases subnetOption; auto simp: last_conv_nth split: if_splits)+
    let ?r = "set_subnet p subnetOption (d_Extra m ! i)"
    have new: "is_opt ?r" "\<exists>scope. subnet_of p scope \<in> set (opt_Option ?r)"
      using set_subnet_has [OF i(3)] by auto
    have "SetClientSubnet m p = m\<lparr>d_Extra := (d_Extra m)[i := ?r]\<rparr>"
      by (simp add: SetClientSubnet_def f Some)
    moreover have "?r \<in> set ((d_Extra m)[i := ?r])" using i(1) by (rule set_update_memI)
    ultimately show ?thesis
      using new i(4) opt_count_update [OF i(1,2) new(1)] by (auto simp: Let_def)
  qed
qed

text \<open>A fixed response answers a query for addresses with one record per address of the family asked
  for, of the type asked for.  The responses for \<^verbatim>\<open>TXT\<close> and \<^verbatim>\<open>MX\<close> put the type \<^verbatim>\<open>A\<close> in the header of every
  record.
\<close>

theorem fixed_response_records:
  "list_all (\<lambda>r. h_Rrtype (rr_hdr r) = q_Qtype q) (d_Answer (FixedResponse i q addresses ttl)) \<and>
   length (d_Answer (FixedResponse i q addresses ttl)) =
     length (filter (\<lambda>a. addr_Is4 a \<and> q_Qtype q = TypeA \<or> addr_Is6 a \<and> q_Qtype q = TypeAAAA) addresses) \<and>
   list_all (\<lambda>r. h_Rrtype (rr_hdr r) = TypeA)
     (d_Answer (FixedResponseTXT i q texts ttl) @ d_Answer (FixedResponseMX i q mxs ttl))"
proof (intro conjI)
  show "list_all (\<lambda>r. h_Rrtype (rr_hdr r) = q_Qtype q) (d_Answer (FixedResponse i q addresses ttl))"
    by (auto simp: list_all_iff FixedResponse_def fixed_message_def fixed_record_def fixed_header_def split: if_splits)
  have "\<not> (addr_Is4 a \<and> addr_Is6 a)" for a by (cases a) simp_all
  then show "length (d_Answer (FixedResponse i q addresses ttl)) =
     length (filter (\<lambda>a. addr_Is4 a \<and> q_Qtype q = TypeA \<or> addr_Is6 a \<and> q_Qtype q = TypeAAAA) addresses)"
    by (induction addresses)
      (auto simp: FixedResponse_def fixed_message_def fixed_record_def dns_types)
  show "list_all (\<lambda>r. h_Rrtype (rr_hdr r) = TypeA)
      (d_Answer (FixedResponseTXT i q texts ttl) @ d_Answer (FixedResponseMX i q mxs ttl))"
    by (auto simp: list_all_iff FixedResponseTXT_def FixedResponseMX_def fixed_message_def fixed_header_def)
qed

end
