(* ===== verification/Start_Order.thy ===== *)
theory Start_Order
  imports Component_Manager
begin

text \<open>
  Starting components in the order of their dependencies: the loop of \<^verbatim>\<open>startOutbounds\<close>
  (\<^verbatim>\<open>adapter/outbound/manager.go\<close>) and \<^verbatim>\<open>startTransports\<close> (\<^verbatim>\<open>dns/transport_manager.go\<close>), with the explanation of a
  failure, and that it finds a topological order whenever there is one.
\<close>

subsection \<open>Starting in the order of the dependencies\<close>

text \<open>
  \<^verbatim>\<open>started\<close> is a map with the value true for its keys: a list of tags without repetition, in the order of
  the insertions.  Starting one outbound calls \<^verbatim>\<open>Start(StartStateStart)\<close> or, without that interface, \<^verbatim>\<open>Start()\<close>.
\<close>

definition start_outbound :: "component \<Rightarrow> error option \<times> call list" where
  "start_outbound c =
     (case c_Lifecycle c of
        Some start \<Rightarrow> (start StartStateStart, [CallStart (c_id c) StartStateStart])
      | None \<Rightarrow>
          (case c_Start c of Some r \<Rightarrow> (r, [CallStart (c_id c) StartStateStart]) | None \<Rightarrow> (None, [])))"

text \<open>The managers of outbounds and of DNS servers start their components by the same loop, in other words.\<close>

datatype start_kind = OutboundKind | ServerKind

fun kind_word :: "start_kind \<Rightarrow> string" where
  "kind_word OutboundKind = ''outbound''"
| "kind_word ServerKind = ''server''"

fun kind_name :: "start_kind \<Rightarrow> component \<Rightarrow> string" where
  "kind_name OutboundKind c = component_name ''outbound'' c"
| "kind_name ServerKind c = component_name ''dns'' c"

definition start_server :: "component \<Rightarrow> error option \<times> call list" where
  "start_server c =
     (case c_Lifecycle c of Some start \<Rightarrow> (start StartStateStart, [CallStart (c_id c) StartStateStart]) | None \<Rightarrow> (None, []))"

fun kind_start :: "start_kind \<Rightarrow> component \<Rightarrow> error option \<times> call list" where
  "kind_start OutboundKind = start_outbound"
| "kind_start ServerKind = start_server"

text \<open>One pass of the loop \<^verbatim>\<open>startOne\<close> over the outbounds.\<close>

fun start_pass ::
  "start_kind \<Rightarrow> component list \<Rightarrow> string list \<Rightarrow> call list \<Rightarrow> bool \<Rightarrow> error option \<times> string list \<times> call list \<times> bool" where
  "start_pass K [] started calls canContinue = (None, started, calls, canContinue)"
| "start_pass K (c # cs) started calls canContinue =
     (if c_Tag c \<in> set started then start_pass K cs started calls canContinue
      else if list_ex (\<lambda>dependency. dependency \<notin> set started) (c_Dependencies c)
      then start_pass K cs started calls canContinue
      else let (err, more) = kind_start K c
           in case err of
                Some e \<Rightarrow> (Some (Cause e (''start '' @ kind_name K c)), started @ [c_Tag c], calls @ more, True)
              | None \<Rightarrow> start_pass K cs (started @ [c_Tag c]) (calls @ more) True)"

fun join :: "string \<Rightarrow> string list \<Rightarrow> string" where
  "join sep [] = []"
| "join sep [s] = s"
| "join sep (s # ss) = s @ sep @ join sep ss"

text \<open>\<^verbatim>\<open>common.Find\<close>, with the zero value when there is none.\<close>

definition problem_tag :: "string list \<Rightarrow> component \<Rightarrow> string" where
  "problem_tag started c =
     (case find (\<lambda>it. it \<notin> set started) (c_Dependencies c) of None \<Rightarrow> [] | Some t \<Rightarrow> t)"

function lintOutbound :: "start_kind \<Rightarrow> (string \<times> component) list \<Rightarrow> string list \<Rightarrow> string list \<Rightarrow> component \<Rightarrow> error" where
  "lintOutbound K byTag started oTree oCurrent =
     (let problem = problem_tag started oCurrent
      in if problem \<in> set oTree
         then New (''circular '' @ kind_word K @ '' dependency: '' @ join '' -> '' oTree @ '' -> '' @ problem)
         else case map_of byTag problem of
                None \<Rightarrow> New (''dependency['' @ problem @ ''] not found for '' @ kind_word K @ ''['' @ c_Tag oCurrent @ '']'')
              | Some problemOutbound \<Rightarrow> lintOutbound K byTag started (oTree @ [problem]) problemOutbound)"
  by pat_completeness auto
termination
proof (relation "measure (\<lambda>(K, byTag, started, oTree, oCurrent). length (filter (\<lambda>t. t \<notin> set oTree) (map fst byTag)))", simp, clarify)
  fix K :: start_kind and byTag :: "(string \<times> component) list" and started oTree :: "string list" and oCurrent c
  assume new: "problem_tag started oCurrent \<notin> set oTree"
    and found: "map_of byTag (problem_tag started oCurrent) = Some c"
  let ?p = "problem_tag started oCurrent"
  have p: "?p \<in> set (map fst byTag)" using found by (metis map_of_SomeD image_eqI list.set_map fst_conv)
  have "length (filter (\<lambda>t. t \<notin> insert x T) ts) < length (filter (\<lambda>t. t \<notin> T) ts)"
    if "x \<in> set ts" "x \<notin> T" for x T and ts :: "string list"
    using that
  proof (induction ts)
    case (Cons t ts)
    have "length (filter (\<lambda>t. t \<notin> insert x T) ts) \<le> length (filter (\<lambda>t. t \<notin> T) ts)"
      by (induction ts) auto
    then show ?case using Cons by auto
  qed simp
  from this [OF p new]
  show "((K, byTag, started, oTree @ [?p], c), K, byTag, started, oTree, oCurrent)
      \<in> measure (\<lambda>(K, byTag, started, oTree, oCurrent). length (filter (\<lambda>t. t \<notin> set oTree) (map fst byTag)))"
    by simp
qed

text \<open>A pass that made progress started an outbound that was not started before.\<close>

lemma start_pass_progress:
  assumes "start_pass K cs started calls cont = (err, started', calls', cont')"
  shows "set started \<subseteq> set started' \<and> (cont' \<longrightarrow> cont \<or> (\<exists>c \<in> set cs. c_Tag c \<notin> set started \<and> c_Tag c \<in> set started'))"
  using assms
proof (induction cs arbitrary: started calls cont)
  case (Cons c cs)
  show ?case
  proof (cases "c_Tag c \<in> set started \<or> list_ex (\<lambda>d. d \<notin> set started) (c_Dependencies c)")
    case True
    then have "start_pass K cs started calls cont = (err, started', calls', cont')"
      using Cons.prems by (auto split: if_splits)
    from Cons.IH [OF this] show ?thesis by auto
  next
    case False
    show ?thesis
    proof (cases "fst (kind_start K c)")
      case None
      then have "start_pass K cs (started @ [c_Tag c]) (calls @ snd (kind_start K c)) True = (err, started', calls', cont')"
        using Cons.prems False by (simp add: split_beta)
      from Cons.IH [OF this] show ?thesis using False by auto
    next
      case (Some e)
      then show ?thesis using Cons.prems False by (auto simp: split_beta)
    qed
  qed
qed simp

lemma start_pass_decreases:
  assumes "(err, started', calls', True) = start_pass K cs started calls False"
  shows "card (c_Tag ` set cs - set started') < card (c_Tag ` set cs - set started)"
  using start_pass_progress [OF assms [symmetric]] by (intro psubset_card_mono) auto

function start_loop ::
  "start_kind \<Rightarrow> (string \<times> component) list \<Rightarrow> component list \<Rightarrow> string list \<Rightarrow> call list \<Rightarrow> error option \<times> call list" where
  "start_loop K byTag outbounds started calls =
     (case start_pass K outbounds started calls False of
        (err, started1, calls1, canContinue) \<Rightarrow>
          (case err of
             Some e \<Rightarrow> (Some e, calls1)
           | None \<Rightarrow>
               if length started1 = length outbounds then (None, calls1)
               else if canContinue then start_loop K byTag outbounds started1 calls1
               else (case find (\<lambda>it. c_Tag it \<notin> set started1) outbounds of
                       None \<Rightarrow> (Some (Panic ''invalid memory address or nil pointer dereference''), calls1)
                     | Some currentOutbound \<Rightarrow>
                         (Some (lintOutbound K byTag started1 [c_Tag currentOutbound] currentOutbound), calls1))))"
  by pat_completeness auto
termination
  by (relation "measure (\<lambda>(K, byTag, outbounds, started, calls). card (c_Tag ` set outbounds - set started))")
    (auto dest: start_pass_decreases)

declare start_loop.simps [simp del]

subsection \<open>The order of the start\<close>

text \<open>The calls of a successful start are those of some order of the outbounds.\<close>

definition topological :: "component list \<Rightarrow> bool" where
  "topological order \<longleftrightarrow>
     (\<forall>i < length order. \<forall>d \<in> set (c_Dependencies (order ! i)). d \<in> c_Tag ` set (take i order))"

definition started_by :: "start_kind \<Rightarrow> component list \<Rightarrow> string list \<Rightarrow> call list \<Rightarrow> component list \<Rightarrow> bool" where
  "started_by K outbounds started calls order \<longleftrightarrow>
     started = map c_Tag order \<and> calls = concat (map (snd \<circ> kind_start K) order) \<and>
     distinct started \<and> set order \<subseteq> set outbounds \<and> topological order"

lemma topological_snoc:
  "topological order \<Longrightarrow> set (c_Dependencies c) \<subseteq> c_Tag ` set order \<Longrightarrow> topological (order @ [c])"
  by (auto simp: topological_def nth_append less_Suc_eq)

lemma start_pass_cont: "snd (snd (snd (start_pass K cs started calls True)))"
  by (induction cs arbitrary: started calls) (auto simp: split_beta split: option.split)

lemma start_pass_order:
  assumes "started_by K outbounds started calls order" "set cs \<subseteq> set outbounds"
    "\<forall>c \<in> set cs. fst (kind_start K c) = None"
  shows "\<exists>started' calls' cont' order'. start_pass K cs started calls cont = (None, started', calls', cont') \<and>
    started_by K outbounds started' calls' order' \<and> (\<not> cont' \<longrightarrow> started' = started \<and>
      (\<forall>c \<in> set cs. c_Tag c \<in> set started \<or> \<not> set (c_Dependencies c) \<subseteq> set started))"
  using assms
proof (induction cs arbitrary: started calls order cont)
  case (Cons c cs)
  show ?case
  proof (cases "c_Tag c \<in> set started \<or> \<not> set (c_Dependencies c) \<subseteq> set started")
    case True
    then have "start_pass K (c # cs) started calls cont = start_pass K cs started calls cont"
      by (auto simp: list_ex_iff)
    then show ?thesis using Cons.IH [OF Cons.prems(1), of cont] Cons.prems(2,3) True by auto
  next
    case False
    then have eq: "start_pass K (c # cs) started calls cont =
        start_pass K cs (started @ [c_Tag c]) (calls @ snd (kind_start K c)) True"
      using Cons.prems(3) by (auto simp: list_ex_iff split_beta)
    have "started_by K outbounds (started @ [c_Tag c]) (calls @ snd (kind_start K c)) (order @ [c])"
      using Cons.prems(1,2) False topological_snoc [of order c] by (auto simp: started_by_def)
    from Cons.IH [OF this, of True] Cons.prems(2,3) obtain started' calls' cont' order' where
      r: "start_pass K cs (started @ [c_Tag c]) (calls @ snd (kind_start K c)) True = (None, started', calls', cont')"
        "started_by K outbounds started' calls' order'" by auto
    have cont' using start_pass_cont [of K cs] r(1) by (metis prod.sel)
    then show ?thesis using r eq by auto
  qed
qed auto


text \<open>A loop that stops early leaves a set of started tags that no further outbound can join.\<close>

definition stuck_at :: "component list \<Rightarrow> string set \<Rightarrow> bool" where
  "stuck_at outbounds S \<longleftrightarrow> (\<exists>c \<in> set outbounds. c_Tag c \<notin> S) \<and>
     (\<forall>c \<in> set outbounds. c_Tag c \<in> S \<or> \<not> set (c_Dependencies c) \<subseteq> S)"

text \<open>The table of the outbounds is that of the outbounds that are started.\<close>

definition tag_table :: "(string \<times> component) list \<Rightarrow> component list \<Rightarrow> bool" where
  "tag_table byTag outbounds \<longleftrightarrow> (\<forall>t c. map_of byTag t = Some c \<longrightarrow> c \<in> set outbounds \<and> c_Tag c = t)"

definition depends_on :: "component list \<Rightarrow> string \<Rightarrow> string \<Rightarrow> bool" where
  "depends_on outbounds a b \<longleftrightarrow> (\<exists>c \<in> set outbounds. c_Tag c = a \<and> b \<in> set (c_Dependencies c))"

definition names_cycle :: "start_kind \<Rightarrow> component list \<Rightarrow> string \<Rightarrow> bool" where
  "names_cycle K outbounds msg \<longleftrightarrow>
     (\<exists>path t. t \<in> set path \<and> successively (depends_on outbounds) (path @ [t]) \<and>
        msg = ''circular '' @ kind_word K @ '' dependency: '' @ join '' -> '' path @ '' -> '' @ t)"

definition names_missing :: "start_kind \<Rightarrow> (string \<times> component) list \<Rightarrow> component list \<Rightarrow> string \<Rightarrow> bool" where
  "names_missing K byTag outbounds msg \<longleftrightarrow>
     (\<exists>a t. depends_on outbounds a t \<and> map_of byTag t = None \<and>
        msg = ''dependency['' @ t @ ''] not found for '' @ kind_word K @ ''['' @ a @ '']'')"

lemma problem_tag_unstarted:
  assumes "\<not> set (c_Dependencies c) \<subseteq> set started"
  shows "problem_tag started c \<in> set (c_Dependencies c)" "problem_tag started c \<notin> set started"
proof -
  obtain t where "find (\<lambda>it. it \<notin> set started) (c_Dependencies c) = Some t"
    using assms by (metis find_None_iff not_None_eq subsetI)
  moreover from this have "t \<in> set (c_Dependencies c)" "t \<notin> set started" by (auto simp: find_Some_iff)
  ultimately show "problem_tag started c \<in> set (c_Dependencies c)" "problem_tag started c \<notin> set started"
    by (simp_all add: problem_tag_def)
qed

lemma lintOutbound_explains:
  assumes "tag_table byTag outbounds" "stuck_at outbounds (set started)" "c \<in> set outbounds" "c_Tag c \<notin> set started"
    "oTree = ts @ [c_Tag c]" "successively (depends_on outbounds) oTree"
  shows "\<exists>msg. lintOutbound K byTag started oTree c = New msg \<and>
    (names_cycle K outbounds msg \<or> names_missing K byTag outbounds msg)"
  using assms
proof (induction K byTag started oTree c arbitrary: ts rule: lintOutbound.induct)
  case (1 K byTag started oTree c)
  let ?p = "problem_tag started c"
  have p: "?p \<in> set (c_Dependencies c)" "?p \<notin> set started"
    using problem_tag_unstarted [of c started] 1(3,4,5) by (auto simp: stuck_at_def)
  have dep: "depends_on outbounds (c_Tag c) ?p" using p 1(4) by (auto simp: depends_on_def)
  have path: "successively (depends_on outbounds) (oTree @ [?p])"
    using 1(7) dep by (simp add: successively_append_iff 1(6))
  note lint = lintOutbound.simps [of K byTag started oTree c]
  consider (cycle) "?p \<in> set oTree" | (missing) "?p \<notin> set oTree" "map_of byTag ?p = None"
    | (further) b where "?p \<notin> set oTree" "map_of byTag ?p = Some b" by blast
  then show ?case
  proof cases
    case cycle
    have "names_cycle K outbounds (''circular '' @ kind_word K @ '' dependency: '' @ join '' -> '' oTree @ '' -> '' @ ?p)"
      unfolding names_cycle_def using cycle path by blast
    then show ?thesis using lint cycle by (simp add: Let_def)
  next
    case missing
    have "names_missing K byTag outbounds (''dependency['' @ ?p @ ''] not found for '' @ kind_word K @ ''['' @ c_Tag c @ '']'')"
      unfolding names_missing_def using dep missing(2) by blast
    then show ?thesis using lint missing by (simp add: Let_def)
  next
    case (further b)
    then have b: "b \<in> set outbounds" "c_Tag b = ?p" using 1(2) by (auto simp: tag_table_def)
    show ?thesis using 1(1) [OF refl further 1(2,3) b(1)] b(2) p(2) path lint further by (simp add: Let_def)
  qed
qed

lemma started_by_full:
  assumes "distinct (map c_Tag outbounds)" "started_by K outbounds started calls order" "length started = length outbounds"
  shows "mset order = mset outbounds"
proof -
  have "distinct order" "distinct outbounds" "set order \<subseteq> set outbounds" "length order = length outbounds"
    using assms by (auto simp: started_by_def distinct_map)
  then have "set order = set outbounds"
    by (metis card_subset_eq distinct_card List.finite_set)
  then show ?thesis using \<open>distinct order\<close> \<open>distinct outbounds\<close> by (simp add: set_eq_iff_mset_eq_distinct)
qed

lemma started_by_missing:
  assumes "distinct (map c_Tag outbounds)" "started_by K outbounds started calls order" "length started \<noteq> length outbounds"
  shows "\<exists>c \<in> set outbounds. c_Tag c \<notin> set started"
proof (rule ccontr)
  assume "\<not> ?thesis"
  then have "c_Tag ` set outbounds \<subseteq> set started" by auto
  moreover have "set started \<subseteq> c_Tag ` set outbounds" using assms(2) by (auto simp: started_by_def)
  ultimately have "set started = set (map c_Tag outbounds)" by auto
  moreover have "distinct started" using assms(2) unfolding started_by_def by blast
  ultimately show False using assms(1,3) by (metis distinct_card length_map)
qed

lemma start_loop_cases:
  assumes "distinct (map c_Tag outbounds)" "\<forall>c \<in> set outbounds. fst (kind_start K c) = None"
    "started_by K outbounds started calls order" "tag_table byTag outbounds"
  shows "(\<exists>calls' order'. start_loop K byTag outbounds started calls = (None, calls') \<and>
            started_by K outbounds (map c_Tag order') calls' order' \<and> mset order' = mset outbounds) \<or>
         (\<exists>msg calls' S. start_loop K byTag outbounds started calls = (Some (New msg), calls') \<and> stuck_at outbounds S \<and>
            (names_cycle K outbounds msg \<or> names_missing K byTag outbounds msg))"
  using assms
proof (induction K byTag outbounds started calls arbitrary: order rule: start_loop.induct)
  case (1 K byTag outbounds started calls)
  from start_pass_order [OF 1(4) subset_refl 1(3)] obtain started' calls' cont' order' where
    p: "start_pass K outbounds started calls False = (None, started', calls', cont')"
      "started_by K outbounds started' calls' order'"
      "\<not> cont' \<Longrightarrow> started' = started \<and>
        (\<forall>c \<in> set outbounds. c_Tag c \<in> set started \<or> \<not> set (c_Dependencies c) \<subseteq> set started)"
    by blast
  have tags: "started' = map c_Tag order'" using p(2) by (simp add: started_by_def)
  note step = start_loop.simps [of K byTag outbounds started calls, unfolded p(1), simplified]
  consider (full) "length started' = length outbounds" | (again) "length started' \<noteq> length outbounds" cont'
    | (lint) "length started' \<noteq> length outbounds" "\<not> cont'" by blast
  then show ?case
  proof cases
    case full
    then show ?thesis using step started_by_full [OF 1(2) p(2)] p(2) tags by auto
  next
    case again
    then show ?thesis using step 1(1) [OF p(1) [symmetric] refl refl refl again 1(2,3) p(2) 1(5)] by simp
  next
    case lint
    from started_by_missing [OF 1(2) p(2) lint(1)] obtain c where c: "c \<in> set outbounds" "c_Tag c \<notin> set started'" by blast
    then obtain cur where cur: "find (\<lambda>it. c_Tag it \<notin> set started') outbounds = Some cur"
      by (metis find_None_iff not_None_eq)
    have stuck: "stuck_at outbounds (set started')" using p(3) lint c by (auto simp: stuck_at_def)
    have "cur \<in> set outbounds" "c_Tag cur \<notin> set started'" using cur by (auto simp: find_Some_iff)
    from lintOutbound_explains [OF 1(5) stuck this, of "[c_Tag cur]" "[]"] obtain msg where
      "lintOutbound K byTag started' [c_Tag cur] cur = New msg" "names_cycle K outbounds msg \<or> names_missing K byTag outbounds msg"
      by auto
    moreover from this have "start_loop K byTag outbounds started calls = (Some (New msg), calls')"
      using step lint cur by simp
    ultimately show ?thesis using stuck by blast
  qed
qed

definition depends_well :: "component list \<Rightarrow> (string \<Rightarrow> nat) \<Rightarrow> bool" where
  "depends_well outbounds rank \<longleftrightarrow>
     (\<forall>c \<in> set outbounds. \<forall>d \<in> set (c_Dependencies c). d \<in> c_Tag ` set outbounds \<and> rank d < rank (c_Tag c))"

lemma stuck_not_ranked:
  assumes "depends_well outbounds rank" "stuck_at outbounds S"
  shows False
proof -
  let ?open = "{c \<in> set outbounds. c_Tag c \<notin> S}"
  have "?open \<noteq> {}" using assms(2) by (auto simp: stuck_at_def)
  then obtain c where c: "c \<in> set outbounds" "c_Tag c \<notin> S"
    and least: "\<And>b. b \<in> ?open \<Longrightarrow> rank (c_Tag c) \<le> rank (c_Tag b)"
    using ex_min_if_finite [of "(\<lambda>c. rank (c_Tag c)) ` ?open"] by (auto simp: not_less)
  then obtain d where d: "d \<in> set (c_Dependencies c)" "d \<notin> S" using assms(2) by (auto simp: stuck_at_def)
  have "d \<in> c_Tag ` set outbounds \<and> rank d < rank (c_Tag c)" using assms(1) c(1) d(1) by (auto simp: depends_well_def)
  then obtain b where "b \<in> ?open" "d = c_Tag b" "rank d < rank (c_Tag c)" using d(2) by blast
  then show False using least [of b] by simp
qed

lemma topological_ranked:
  assumes "topological order" "distinct (map c_Tag order)"
  shows "\<exists>rank. depends_well order rank"
proof -
  define rank where "rank t = (LEAST i. i < length order \<and> c_Tag (order ! i) = t)" for t
  have rank: "rank (c_Tag (order ! i)) = i" if "i < length order" for i
    unfolding rank_def
  proof (rule Least_equality)
    fix y assume "y < length order \<and> c_Tag (order ! y) = c_Tag (order ! i)"
    then have "y = i" using that assms(2) nth_eq_iff_index_eq [of "map c_Tag order" y i] by simp
    then show "i \<le> y" by simp
  qed (use that in simp)
  have "depends_well order rank"
    unfolding depends_well_def
  proof (intro ballI)
    fix c d assume "c \<in> set order" "d \<in> set (c_Dependencies c)"
    then obtain i where i: "i < length order" "order ! i = c" by (auto simp: in_set_conv_nth)
    then obtain b where "b \<in> set (take i order)" "d = c_Tag b"
      using assms(1) \<open>d \<in> set (c_Dependencies c)\<close> by (auto simp: topological_def)
    then obtain j where "j < i" "order ! j = b" using i(1) by (auto simp: in_set_conv_nth)
    then show "d \<in> c_Tag ` set order \<and> rank d < rank (c_Tag c)"
      using i rank \<open>d = c_Tag b\<close> by force
  qed
  then show ?thesis by blast
qed

lemma depends_well_mset: "mset a = mset b \<Longrightarrow> depends_well a rank = depends_well b rank"
  unfolding depends_well_def by (drule mset_eq_setD) simp

lemma start_loop_order:
  assumes "distinct (map c_Tag outbounds)" "list_all (\<lambda>c. fst (kind_start K c) = None) outbounds"
    "tag_table byTag outbounds"
  shows "if \<exists>rank. depends_well outbounds rank
    then fst (start_loop K byTag outbounds [] []) = None \<and>
      (\<exists>order. mset order = mset outbounds \<and> topological order \<and>
        snd (start_loop K byTag outbounds [] []) = concat (map (snd \<circ> kind_start K) order))
    else \<exists>msg. fst (start_loop K byTag outbounds [] []) = Some (New msg) \<and>
      (names_cycle K outbounds msg \<or> names_missing K byTag outbounds msg)"
proof -
  have start: "started_by K outbounds [] [] []" by (simp add: started_by_def topological_def)
  have ok: "\<forall>c \<in> set outbounds. fst (kind_start K c) = None" using assms(2) by (simp add: list_all_iff)
  from start_loop_cases [OF assms(1) ok start assms(3)] consider
    (all) calls' order' where "start_loop K byTag outbounds [] [] = (None, calls')"
      "started_by K outbounds (map c_Tag order') calls' order'" "mset order' = mset outbounds"
  | (stuck) msg calls' S where "start_loop K byTag outbounds [] [] = (Some (New msg), calls')" "stuck_at outbounds S"
      "names_cycle K outbounds msg \<or> names_missing K byTag outbounds msg"
    by blast
  then show ?thesis
  proof cases
    case all
    have "\<exists>rank. depends_well outbounds rank"
      using topological_ranked [of order'] all(2) depends_well_mset [OF all(3)] by (auto simp: started_by_def)
    then show ?thesis using all by (auto simp: started_by_def)
  next
    case stuck
    then show ?thesis using stuck_not_ranked [OF _ stuck(2)] by auto
  qed
qed

end
