(* ===== verification/Outbound_Manager.thy ===== *)
theory Outbound_Manager
  imports Start_Order
begin

text \<open>
  The manager of the outbounds (\<^verbatim>\<open>adapter/outbound/manager.go\<close>): the start of outbounds and endpoints in the
  order of their dependencies, the default outbound, and creating and removing outbounds at run time.
\<close>

definition startOutbounds :: "(string \<times> component) list \<Rightarrow> component list \<Rightarrow> error option \<times> call list" where
  "startOutbounds byTag outbounds = start_loop OutboundKind byTag outbounds [] []"

subsection \<open>The manager\<close>

record OutboundManager =
  om_defaultTag :: string
  om_started :: bool
  om_stage :: StartStage
  om_outbounds :: "component list"
  om_outboundByTag :: "(string \<times> component) list"
  om_dependByTag :: "string \<Rightarrow> string list"
  om_defaultOutbound :: "component option"

definition NewOutboundManager :: "string \<Rightarrow> OutboundManager" where
  "NewOutboundManager defaultTag =
     \<lparr>om_defaultTag = defaultTag, om_started = False, om_stage = StartStateInitialize, om_outbounds = [],
      om_outboundByTag = [], om_dependByTag = (\<lambda>_. []), om_defaultOutbound = None\<rparr>"

text \<open>The choice of the default outbound at the start; \<open>fallback\<close> is the answer of \<^verbatim>\<open>defaultOutboundFallback\<close>.\<close>

definition choose_default ::
  "manager \<Rightarrow> component res \<Rightarrow> OutboundManager \<Rightarrow> OutboundManager res" where
  "choose_default endpoint fallback m =
     bind_res
       (if om_defaultTag m \<noteq> [] \<and> om_defaultOutbound m = None then
          (case manager_Get (om_defaultTag m) endpoint of
             None \<Rightarrow> Inl (New (''default outbound not found: '' @ om_defaultTag m))
           | Some defaultEndpoint \<Rightarrow> Inr (m\<lparr>om_defaultOutbound := Some defaultEndpoint\<rparr>))
        else Inr m)
       (\<lambda>m1.
          if om_defaultOutbound m1 = None then
            (case fallback of
               Inl e \<Rightarrow> Inl (Cause e ''create direct outbound for fallback'')
             | Inr direct \<Rightarrow>
                 Inr (m1\<lparr>om_outbounds := om_outbounds m1 @ [direct],
                         om_outboundByTag := AList.update (c_Tag direct) direct (om_outboundByTag m1),
                         om_defaultOutbound := Some direct\<rparr>))
          else Inr m1)"

definition Outbound_Start ::
  "manager \<Rightarrow> component res \<Rightarrow> StartStage \<Rightarrow> OutboundManager \<Rightarrow> error option \<times> OutboundManager \<times> call list" where
  "Outbound_Start endpoint fallback stage m =
     (if om_started m \<and> stage_num (om_stage m) \<ge> stage_num stage then (Some already_started, m, [])
      else
        let m1 = m\<lparr>om_started := True, om_stage := stage\<rparr>
        in if stage = StartStateStart then
             (case choose_default endpoint fallback m1 of
                Inl e \<Rightarrow> (Some e, m1, [])
              | Inr m2 \<Rightarrow>
                  let (err, calls) = startOutbounds (om_outboundByTag m2) (om_outbounds m2 @ mg_list endpoint)
                  in (err, m2, calls))
           else let (err, calls) = start_list ''outbound'' stage (om_outbounds m1) in (err, m1, calls))"

definition Outbound_Close :: "OutboundManager \<Rightarrow> error option \<times> OutboundManager \<times> call list" where
  "Outbound_Close m =
     (if \<not> om_started m then (None, m, [])
      else (None, m\<lparr>om_started := False, om_outbounds := []\<rparr>, concat (map (snd \<circ> common_Close) (om_outbounds m))))"

definition Outbound_Get :: "manager \<Rightarrow> string \<Rightarrow> OutboundManager \<Rightarrow> component option" where
  "Outbound_Get endpoint tag m =
     (case map_of (om_outboundByTag m) tag of Some c \<Rightarrow> Some c | None \<Rightarrow> manager_Get tag endpoint)"

definition drop_dependency :: "string \<Rightarrow> string \<Rightarrow> (string \<Rightarrow> string list) \<Rightarrow> string \<Rightarrow> string list" where
  "drop_dependency tag dependency dependBy =
     (if length (dependBy dependency) = 1 then dependBy(dependency := [])
      else dependBy(dependency := filter (\<lambda>it. it \<noteq> tag) (dependBy dependency)))"

definition Outbound_Remove :: "string \<Rightarrow> OutboundManager \<Rightarrow> error option \<times> OutboundManager \<times> call list" where
  "Outbound_Remove tag m =
     (case map_of (om_outboundByTag m) tag of
        None \<Rightarrow> (Some ErrInvalid, m, [])
      | Some outbound \<Rightarrow>
          let m1 = m\<lparr>om_outboundByTag := AList.delete tag (om_outboundByTag m)\<rparr>
          in case remove_id ''inbound'' outbound (om_outbounds m1) of
               Inl e \<Rightarrow> (Some e, m1, [])
             | Inr outbounds \<Rightarrow>
                 let m2 = m1\<lparr>om_outbounds := outbounds\<rparr>;
                     m3 = (if map_option c_id (om_defaultOutbound m2) = Some (c_id outbound)
                           then m2\<lparr>om_defaultOutbound := (case outbounds of [] \<Rightarrow> None | c # _ \<Rightarrow> Some c)\<rparr>
                           else m2);
                     dependBy = om_dependByTag m3 tag
                 in if dependBy \<noteq> []
                    then (Some (New (''outbound['' @ tag @ ''] is depended by '' @ join '', '' dependBy)), m3, [])
                    else let m4 = m3\<lparr>om_dependByTag :=
                               fold (drop_dependency tag) (c_Dependencies outbound) (om_dependByTag m3)\<rparr>
                         in if om_started m4 then let (err, calls) = common_Close outbound in (err, m4, calls)
                            else (None, m4, []))"

definition add_outbound :: "string \<Rightarrow> component \<Rightarrow> component list \<Rightarrow> OutboundManager \<Rightarrow> OutboundManager" where
  "add_outbound tag outbound others m =
     (let m1 = m\<lparr>om_outbounds := others @ [outbound],
                 om_outboundByTag := AList.update tag outbound (om_outboundByTag m),
                 om_dependByTag := fold (\<lambda>dependency d. d(dependency := d dependency @ [tag]))
                   (c_Dependencies outbound) (om_dependByTag m)\<rparr>
      in if tag = om_defaultTag m \<or> om_defaultTag m = [] \<and> om_defaultOutbound m = None
         then m1\<lparr>om_defaultOutbound := Some outbound\<rparr> else m1)"

definition Outbound_Create ::
  "component res \<Rightarrow> string \<Rightarrow> OutboundManager \<Rightarrow> error option \<times> OutboundManager \<times> call list" where
  "Outbound_Create created tag m =
     (if tag = [] then (Some ErrInvalid, m, [])
      else case created of
        Inl e \<Rightarrow> (Some e, m, [])
      | Inr outbound \<Rightarrow>
          let (err, calls) = (if om_started m then start_stages ''outbound'' ListStartStages outbound else (None, []))
          in case err of
               Some e \<Rightarrow> (Some e, m, calls)
             | None \<Rightarrow>
                 (case map_of (om_outboundByTag m) tag of
                    None \<Rightarrow> (None, add_outbound tag outbound (om_outbounds m) m, calls)
                  | Some exists \<Rightarrow>
                      let (err2, calls2) = (if om_started m then common_Close exists else (None, []))
                      in case err2 of
                           Some e \<Rightarrow> (Some (Cause e (''close '' @ component_name ''outbound'' exists)), m, calls @ calls2)
                         | None \<Rightarrow>
                             (case remove_id ''inbound'' exists (om_outbounds m) of
                                Inl e \<Rightarrow> (Some e, m, calls @ calls2)
                              | Inr others \<Rightarrow> (None, add_outbound tag outbound others m, calls @ calls2))))"

text \<open>
  C17. Starting the outbounds and endpoints: when their tags differ and none of them fails to start, the start
  succeeds exactly if the dependencies are well founded, that is, if every dependency is the tag of one of
  them and a rank decreases along the dependencies.  It then starts each of them exactly once, in an order in which
  every one comes after all it depends on.  Otherwise it returns an error that spells out a cycle of
  dependencies, or a dependency that is not the tag of an outbound; it never loops and never fails by
  a nil dereference.\<close>

theorem start_outbounds_order:
  assumes "distinct (map c_Tag outbounds)" "list_all (\<lambda>c. fst (start_outbound c) = None) outbounds"
    "tag_table byTag outbounds"
  shows "if \<exists>rank. depends_well outbounds rank
    then fst (startOutbounds byTag outbounds) = None \<and>
      (\<exists>order. mset order = mset outbounds \<and> topological order \<and>
        snd (startOutbounds byTag outbounds) = concat (map (snd \<circ> start_outbound) order))
    else \<exists>msg. fst (startOutbounds byTag outbounds) = Some (New msg) \<and>
      (names_cycle OutboundKind outbounds msg \<or> names_missing OutboundKind byTag outbounds msg)"
  using start_loop_order [of outbounds OutboundKind byTag, unfolded kind_start.simps, OF assms] unfolding startOutbounds_def .

definition ex_outbound :: "nat \<Rightarrow> string \<Rightarrow> string list \<Rightarrow> component" where
  "ex_outbound n tag deps =
     \<lparr>c_id = n, c_Type = ''direct'', c_Tag = tag, c_Dependencies = deps, c_Lifecycle = Some (\<lambda>_. None),
      c_PreStart = None, c_Start = None, c_PostStart = None, c_Close = None\<rparr>"

theorem start_outbounds_order_witness:
  "startOutbounds [(''select'', ex_outbound 0 ''select'' [''a'']), (''a'', ex_outbound 1 ''a'' [])]
     [ex_outbound 0 ''select'' [''a''], ex_outbound 1 ''a'' []] =
     (None, [CallStart 1 StartStateStart, CallStart 0 StartStateStart])"
proof -
  let ?outs = "[ex_outbound 0 ''select'' [''a''], ex_outbound 1 ''a'' []]"
  let ?byTag = "[(''select'', ex_outbound 0 ''select'' [''a'']), (''a'', ex_outbound 1 ''a'' [])]"
  have ranked: "depends_well ?outs (\<lambda>t. if t = ''a'' then 0 else 1)" by (simp add: depends_well_def ex_outbound_def)
  have table: "tag_table ?byTag ?outs" by (simp add: tag_table_def ex_outbound_def)
  have tags: "distinct (map c_Tag ?outs)" by (simp add: ex_outbound_def)
  have ok: "list_all (\<lambda>c. fst (start_outbound c) = None) ?outs" by (simp add: ex_outbound_def start_outbound_def)
  have "snd (startOutbounds ?byTag ?outs) = [CallStart 1 StartStateStart, CallStart 0 StartStateStart]"
    by (simp add: startOutbounds_def start_loop.simps start_outbound_def ex_outbound_def)
  moreover have "fst (startOutbounds ?byTag ?outs) = None"
    using start_outbounds_order [OF tags ok table] ranked by metis
  ultimately show ?thesis by (simp add: prod_eq_iff)
qed


subsection \<open>The registry of outbounds\<close>

lemma Outbound_Remove_registered:
  assumes "registered (om_outboundByTag m) (om_outbounds m)" "map_of (om_outboundByTag m) t = Some c"
  shows "om_outbounds (fst (snd (Outbound_Remove t m))) = filter (\<lambda>it. c_Tag it \<noteq> t) (om_outbounds m)"
    "om_outboundByTag (fst (snd (Outbound_Remove t m))) = AList.delete t (om_outboundByTag m)"
    "om_defaultTag (fst (snd (Outbound_Remove t m))) = om_defaultTag m"
    "om_defaultOutbound (fst (snd (Outbound_Remove t m))) =
       (if map_option c_id (om_defaultOutbound m) = Some (c_id c)
        then (case filter (\<lambda>it. c_Tag it \<noteq> t) (om_outbounds m) of [] \<Rightarrow> None | b # _ \<Rightarrow> Some b)
        else om_defaultOutbound m)"
    "om_dependByTag m t \<noteq> [] \<Longrightarrow> Outbound_Remove t m =
       (Some (New (''outbound['' @ t @ ''] is depended by '' @ join '', '' (om_dependByTag m t))),
        fst (snd (Outbound_Remove t m)), [])"
    "om_dependByTag m t = [] \<Longrightarrow> om_started m \<Longrightarrow>
       fst (Outbound_Remove t m) = fst (common_Close c) \<and> snd (snd (Outbound_Remove t m)) = snd (common_Close c)"
  using assms remove_id_registered [OF assms, of "''inbound''"]
  by (auto simp: Outbound_Remove_def Let_def split_beta)

lemma add_outbound_sel [simp]:
  "om_outbounds (add_outbound t c others m) = others @ [c]"
  "om_outboundByTag (add_outbound t c others m) = AList.update t c (om_outboundByTag m)"
  "om_defaultTag (add_outbound t c others m) = om_defaultTag m"
  "om_started (add_outbound t c others m) = om_started m"
  "om_defaultOutbound (add_outbound t c others m) =
     (if t = om_defaultTag m \<or> om_defaultTag m = [] \<and> om_defaultOutbound m = None then Some c else om_defaultOutbound m)"
  by (simp_all add: add_outbound_def Let_def)

lemma Outbound_Create_registered:
  assumes "registered (om_outboundByTag m) (om_outbounds m)"
  shows "fst (snd (Outbound_Create created t m)) = m \<and> fst (Outbound_Create created t m) \<noteq> None \<or>
    (\<exists>c. created = Inr c \<and> fst (Outbound_Create created t m) = None \<and>
      fst (snd (Outbound_Create created t m)) =
        add_outbound t c (filter (\<lambda>it. c_Tag it \<noteq> t) (om_outbounds m)) m)"
  using filter_unknown_tag [OF assms, of t] remove_id_registered [OF assms, of t _ "''inbound''"]
  by (auto simp: Outbound_Create_def Let_def split_beta split: sum.split option.split)

text \<open>
  The states of a manager before it is closed.  The registry and the fallback build a new object each time;
  the registry gives it the tag it was asked for.
\<close>

inductive outbound_reach :: "string \<Rightarrow> OutboundManager \<Rightarrow> bool" for defaultTag where
  new: "outbound_reach defaultTag (NewOutboundManager defaultTag)"
| create: "outbound_reach defaultTag m \<Longrightarrow>
    (\<forall>c. created = Inr c \<longrightarrow> c_Tag c = tag \<and> c_id c \<notin> c_id ` set (om_outbounds m)) \<Longrightarrow>
    outbound_reach defaultTag (fst (snd (Outbound_Create created tag m)))"
| remove: "outbound_reach defaultTag m \<Longrightarrow> outbound_reach defaultTag (fst (snd (Outbound_Remove tag m)))"
| start: "outbound_reach defaultTag m \<Longrightarrow>
    outbound_reach defaultTag (fst (snd (Outbound_Start endpoint fallback stage m)))"

definition outbound_ok :: "string \<Rightarrow> OutboundManager \<Rightarrow> bool" where
  "outbound_ok defaultTag m \<longleftrightarrow> registered (om_outboundByTag m) (om_outbounds m) \<and> om_defaultTag m = defaultTag \<and>
     (defaultTag = [] \<and> om_defaultOutbound m = None \<longrightarrow> om_outbounds m = [])"

lemma outbound_ok_empty:
  "registered byTag [] \<Longrightarrow> registered (AList.update (c_Tag c) c byTag) [c]"
  using registered_update [of byTag "[]" c] by simp

lemma choose_default_ok:
  assumes "outbound_ok defaultTag m" "choose_default endpoint fallback m = Inr m'"
  shows "outbound_ok defaultTag m'"
  using assms outbound_ok_empty
  by (auto simp: outbound_ok_def choose_default_def bind_res_def split: if_splits option.splits sum.splits)

lemma Outbound_Start_ok:
  assumes "outbound_ok defaultTag m"
  shows "outbound_ok defaultTag (fst (snd (Outbound_Start endpoint fallback stage m)))"
proof -
  have "outbound_ok defaultTag (m\<lparr>om_started := True, om_stage := stage\<rparr>)" using assms by (simp add: outbound_ok_def)
  then show ?thesis
    using assms choose_default_ok by (auto simp: Outbound_Start_def Let_def split_beta split: sum.split)
qed

lemma outbound_reach_ok: "outbound_reach defaultTag m \<Longrightarrow> outbound_ok defaultTag m"
proof (induction rule: outbound_reach.induct)
  case (create m created tag)
  then have r: "registered (om_outboundByTag m) (om_outbounds m)" by (simp add: outbound_ok_def)
  show ?case
    using Outbound_Create_registered [OF r, of created tag] create registered_update [OF r]
    by (auto simp: outbound_ok_def split: if_splits)
next
  case (remove m tag)
  then have r: "registered (om_outboundByTag m) (om_outbounds m)" by (simp add: outbound_ok_def)
  show ?case
  proof (cases "map_of (om_outboundByTag m) tag")
    case None
    then show ?thesis using remove by (simp add: Outbound_Remove_def)
  next
    case (Some c)
    show ?thesis
      using remove registered_delete [OF r] unfolding outbound_ok_def Outbound_Remove_registered [OF r Some]
      by (auto split: list.splits if_splits)
  qed
next
  case (start m endpoint fallback stage)
  then show ?case using Outbound_Start_ok by blast
qed (simp add: outbound_ok_def NewOutboundManager_def)



text \<open>A manager without a configured default, with an outbound \<^verbatim>\<open>a\<close> and a selector that depends on it.\<close>

definition ex_manager :: OutboundManager where
  "ex_manager = fst (snd (Outbound_Create (Inr (ex_outbound 1 ''select'' [''a''])) ''select''
     (fst (snd (Outbound_Create (Inr (ex_outbound 0 ''a'' [])) ''a'' (NewOutboundManager []))))))"

lemmas ex_manager_simps = ex_manager_def Outbound_Create_def NewOutboundManager_def ex_outbound_def add_outbound_def Let_def

lemma ex_manager_reach: "outbound_reach [] ex_manager"
  unfolding ex_manager_def
  by (intro outbound_reach.intros) (simp_all add: ex_manager_simps)


text \<open>
  Replacing the default outbound: in a manager without a configured default tag, creating an outbound with the
  tag of the outbound that became the default closes the old one and takes it out of the
  registry, but leaves it the default, so traffic without a matching rule keeps going to a closed outbound.\<close>

theorem create_keeps_stale_default:
  assumes "outbound_reach [] m" "om_started m" "om_defaultOutbound m = Some old" "old \<in> set (om_outbounds m)"
    "c_Tag new = c_Tag old" "c_Tag old \<noteq> []" "c_id new \<notin> c_id ` set (om_outbounds m)"
    "fst (start_stages ''outbound'' ListStartStages new) = None" "c_Close old = Some None"
  shows "\<exists>m' calls. Outbound_Create (Inr new) (c_Tag old) m = (None, m', calls @ [CallClose (c_id old)]) \<and>
    om_defaultOutbound m' = Some old \<and> old \<notin> set (om_outbounds m') \<and>
    map_of (om_outboundByTag m') (c_Tag old) = Some new"
proof -
  have r: "registered (om_outboundByTag m) (om_outbounds m)" "om_defaultTag m = []"
    using outbound_reach_ok [OF assms(1)] by (simp_all add: outbound_ok_def)
  have found: "map_of (om_outboundByTag m) (c_Tag old) = Some old" using r(1) assms(4) by (auto simp: registered_def)
  show ?thesis
    using assms found r(2) remove_id_registered [OF r(1) found, of "''inbound''"]
    by (auto simp: Outbound_Create_def split_beta common_Close_def update_conv')
qed

definition ex_closing :: "nat \<Rightarrow> string \<Rightarrow> component" where
  "ex_closing n tag = (ex_outbound n tag [])\<lparr>c_Close := Some None\<rparr>"

definition ex_started :: OutboundManager where
  "ex_started = fst (snd (Outbound_Start NewManager (Inl ErrInvalid) StartStateInitialize
     (fst (snd (Outbound_Create (Inr (ex_closing 0 ''a'')) ''a'' (NewOutboundManager []))))))"

lemma ex_started_eq:
  "ex_started = \<lparr>om_defaultTag = [], om_started = True, om_stage = StartStateInitialize, om_outbounds = [ex_closing 0 ''a''],
     om_outboundByTag = [(''a'', ex_closing 0 ''a'')], om_dependByTag = (\<lambda>_. []),
     om_defaultOutbound = Some (ex_closing 0 ''a'')\<rparr>"
  by (simp add: ex_started_def ex_closing_def ex_manager_simps Outbound_Start_def split_beta)

lemma ex_started_reach: "outbound_reach [] ex_started"
  unfolding ex_started_def
  by (intro outbound_reach.intros) (simp_all add: ex_closing_def ex_outbound_def NewOutboundManager_def)

theorem create_keeps_stale_default_witness:
  "\<exists>m' calls. Outbound_Create (Inr (ex_closing 1 ''a'')) ''a'' ex_started = (None, m', calls @ [CallClose 0]) \<and>
    om_defaultOutbound m' = Some (ex_closing 0 ''a'') \<and>
    map_of (om_outboundByTag m') ''a'' = Some (ex_closing 1 ''a'')"
  using create_keeps_stale_default [OF ex_started_reach, of "ex_closing 0 ''a''" "ex_closing 1 ''a''"]
  by (auto simp: ex_started_eq ex_closing_def ex_outbound_def ListStartStages_def LegacyStart_def)

end
