(* ===== verification/Dns_Transport_Manager.thy ===== *)
theory Dns_Transport_Manager
  imports Outbound_Manager
begin

text \<open>
  The manager of the DNS servers (\<^verbatim>\<open>dns/transport_manager.go\<close>): their start in the order of their
  dependencies, the default server, the FakeIP server, and creating and removing servers at run time.
\<close>

definition DNSTypeFakeIP :: string where "DNSTypeFakeIP = ''fakeip''"

record TransportManager =
  tm_defaultTag :: string
  tm_started :: bool
  tm_stage :: StartStage
  tm_transports :: "component list"
  tm_transportByTag :: "(string \<times> component) list"
  tm_dependByTag :: "string \<Rightarrow> string list"
  tm_defaultTransport :: "component option"
  tm_fakeIPTransport :: "component option"

definition NewTransportManager :: "string \<Rightarrow> TransportManager" where
  "NewTransportManager defaultTag =
     \<lparr>tm_defaultTag = defaultTag, tm_started = False, tm_stage = StartStateInitialize, tm_transports = [],
      tm_transportByTag = [], tm_dependByTag = (\<lambda>_. []), tm_defaultTransport = None, tm_fakeIPTransport = None\<rparr>"

definition startTransports :: "(string \<times> component) list \<Rightarrow> component list \<Rightarrow> error option \<times> call list" where
  "startTransports byTag transports = start_loop ServerKind byTag transports [] []"

definition TransportManager_Start ::
  "component res \<Rightarrow> StartStage \<Rightarrow> TransportManager \<Rightarrow> error option \<times> TransportManager \<times> call list" where
  "TransportManager_Start fallback stage m =
     (if tm_started m \<and> stage_num (tm_stage m) \<ge> stage_num stage then (Some already_started, m, [])
      else
        let m1 = m\<lparr>tm_started := True, tm_stage := stage\<rparr>
        in if stage = StartStateStart then
             if tm_defaultTag m1 \<noteq> [] \<and> tm_defaultTransport m1 = None
             then (Some (New (''default DNS server not found: '' @ tm_defaultTag m1)), m1, [])
             else
               (case (if tm_defaultTransport m1 = None then
                        map_sum id (\<lambda>t. m1\<lparr>tm_transports := tm_transports m1 @ [t],
                           tm_transportByTag := AList.update (c_Tag t) t (tm_transportByTag m1),
                           tm_defaultTransport := Some t\<rparr>) fallback
                      else Inr m1) of
                  Inl e \<Rightarrow> (Some (Cause e ''default DNS server fallback''), m1, [])
                | Inr m2 \<Rightarrow>
                    let (err, calls) = startTransports (tm_transportByTag m2) (tm_transports m2) in (err, m2, calls))
           else let (err, calls) = start_list ''dns'' stage (tm_transports m1) in (err, m1, calls))"

definition TransportManager_Close :: "TransportManager \<Rightarrow> error option \<times> TransportManager \<times> call list" where
  "TransportManager_Close m =
     (if \<not> tm_started m then (None, m, [])
      else (None, m\<lparr>tm_started := False, tm_transports := []\<rparr>, concat (map (snd \<circ> common_Close) (tm_transports m))))"

definition TransportManager_Get :: "string \<Rightarrow> TransportManager \<Rightarrow> component option" where
  "TransportManager_Get tag m = map_of (tm_transportByTag m) tag"

definition TransportManager_Remove :: "string \<Rightarrow> TransportManager \<Rightarrow> error option \<times> TransportManager \<times> call list" where
  "TransportManager_Remove tag m =
     (case map_of (tm_transportByTag m) tag of
        None \<Rightarrow> (Some ErrInvalid, m, [])
      | Some transport \<Rightarrow>
          let m1 = m\<lparr>tm_transportByTag := AList.delete tag (tm_transportByTag m)\<rparr>
          in case remove_id ''inbound'' transport (tm_transports m1) of
               Inl e \<Rightarrow> (Some e, m1, [])
             | Inr transports \<Rightarrow>
                 let m2 = m1\<lparr>tm_transports := transports\<rparr>
                 in case (if map_option c_id (tm_defaultTransport m2) = Some (c_id transport) then
                            (case transports of
                               [] \<Rightarrow> Inr (m2\<lparr>tm_defaultTransport := None\<rparr>)
                             | nextTransport # _ \<Rightarrow>
                                 if c_Type nextTransport \<noteq> DNSTypeFakeIP then Inl (New ''default server cannot be fakeip'')
                                 else Inr (m2\<lparr>tm_defaultTransport := Some nextTransport\<rparr>))
                          else Inr m2) of
                      Inl e \<Rightarrow> (Some e, m2, [])
                    | Inr m3 \<Rightarrow>
                        let dependBy = tm_dependByTag m3 tag
                        in if dependBy \<noteq> []
                           then (Some (New (''server['' @ tag @ ''] is depended by '' @ join '', '' dependBy)), m3, [])
                           else let m4 = m3\<lparr>tm_dependByTag :=
                                      fold (drop_dependency tag) (c_Dependencies transport) (tm_dependByTag m3)\<rparr>
                                in (None, m4, if tm_started m4 then snd (common_Close transport) else []))"

definition add_transport ::
  "string \<Rightarrow> component \<Rightarrow> component list \<Rightarrow> TransportManager \<Rightarrow> error option \<times> TransportManager" where
  "add_transport tag transport others m =
     (let m1 = m\<lparr>tm_transports := others @ [transport],
                 tm_transportByTag := AList.update tag transport (tm_transportByTag m),
                 tm_dependByTag := fold (\<lambda>dependency d. d(dependency := d dependency @ [tag]))
                   (c_Dependencies transport) (tm_dependByTag m)\<rparr>;
          becomesDefault = (tag = tm_defaultTag m1 \<or> tm_defaultTag m1 = [] \<and> tm_defaultTransport m1 = None)
      in if becomesDefault \<and> c_Type transport = DNSTypeFakeIP then (Some (New ''default server cannot be fakeip''), m1)
         else
           let m2 = (if becomesDefault then m1\<lparr>tm_defaultTransport := Some transport\<rparr> else m1)
           in if c_Type transport = DNSTypeFakeIP then
                if tm_fakeIPTransport m2 \<noteq> None then (Some (New ''multiple fakeip server are not supported''), m2)
                else (None, m2\<lparr>tm_fakeIPTransport := Some transport\<rparr>)
              else (None, m2))"

definition TransportManager_Create ::
  "component res \<Rightarrow> string \<Rightarrow> TransportManager \<Rightarrow> error option \<times> TransportManager \<times> call list" where
  "TransportManager_Create created tag m =
     (if tag = [] then (Some ErrInvalid, m, [])
      else case created of
        Inl e \<Rightarrow> (Some e, m, [])
      | Inr transport \<Rightarrow>
          let (err, calls) = (if tm_started m then start_stages ''dns'' ListStartStages transport else (None, []))
          in case err of
               Some e \<Rightarrow> (Some e, m, calls)
             | None \<Rightarrow>
                 (case map_of (tm_transportByTag m) tag of
                    None \<Rightarrow>
                      let (err3, m') = add_transport tag transport (tm_transports m) m in (err3, m', calls)
                  | Some exists \<Rightarrow>
                      let (err2, calls2) = (if tm_started m then common_Close exists else (None, []))
                      in case err2 of
                           Some e \<Rightarrow> (Some (Cause e (''close '' @ component_name ''dns'' exists)), m, calls @ calls2)
                         | None \<Rightarrow>
                             (case remove_id ''inbound'' exists (tm_transports m) of
                                Inl e \<Rightarrow> (Some e, m, calls @ calls2)
                              | Inr others \<Rightarrow>
                                  let (err3, m') = add_transport tag transport others m in (err3, m', calls @ calls2))))"

subsection \<open>The registry of servers\<close>

lemma startTransports_order:
  assumes "distinct (map c_Tag transports)" "list_all (\<lambda>c. fst (start_server c) = None) transports"
    "tag_table byTag transports"
  shows "if \<exists>rank. depends_well transports rank
    then fst (startTransports byTag transports) = None \<and>
      (\<exists>order. mset order = mset transports \<and> topological order \<and>
        snd (startTransports byTag transports) = concat (map (snd \<circ> start_server) order))
    else \<exists>msg. fst (startTransports byTag transports) = Some (New msg) \<and>
      (names_cycle ServerKind transports msg \<or> names_missing ServerKind byTag transports msg)"
  using start_loop_order [of transports ServerKind byTag, unfolded kind_start.simps, OF assms] unfolding startTransports_def .

lemma TransportManager_Remove_registered:
  assumes "registered (tm_transportByTag m) (tm_transports m)" "map_of (tm_transportByTag m) t = Some c"
  shows "tm_transports (fst (snd (TransportManager_Remove t m))) = filter (\<lambda>it. c_Tag it \<noteq> t) (tm_transports m)"
    "tm_transportByTag (fst (snd (TransportManager_Remove t m))) = AList.delete t (tm_transportByTag m)"
  using assms remove_id_registered [OF assms, of "''inbound''"]
  by (auto simp: TransportManager_Remove_def Let_def split: list.split)

lemma add_transport_sel [simp]:
  "tm_transports (snd (add_transport t c others m)) = others @ [c]"
  "tm_transportByTag (snd (add_transport t c others m)) = AList.update t c (tm_transportByTag m)"
  by (simp_all add: add_transport_def Let_def)

lemma TransportManager_Create_registered:
  assumes "registered (tm_transportByTag m) (tm_transports m)"
  shows "fst (snd (TransportManager_Create created t m)) = m \<or>
    (\<exists>c. created = Inr c \<and> fst (snd (TransportManager_Create created t m)) =
        snd (add_transport t c (filter (\<lambda>it. c_Tag it \<noteq> t) (tm_transports m)) m))"
  using filter_unknown_tag [OF assms, of t] remove_id_registered [OF assms, of t _ "''inbound''"]
  by (auto simp: TransportManager_Create_def Let_def split_beta split: sum.split option.split)

inductive transport_reach :: "string \<Rightarrow> TransportManager \<Rightarrow> bool" for defaultTag where
  new: "transport_reach defaultTag (NewTransportManager defaultTag)"
| create: "transport_reach defaultTag m \<Longrightarrow>
    (\<forall>c. created = Inr c \<longrightarrow> c_Tag c = tag \<and> c_id c \<notin> c_id ` set (tm_transports m)) \<Longrightarrow>
    transport_reach defaultTag (fst (snd (TransportManager_Create created tag m)))"
| remove: "transport_reach defaultTag m \<Longrightarrow> transport_reach defaultTag (fst (snd (TransportManager_Remove tag m)))"
| start: "transport_reach defaultTag m \<Longrightarrow>
    (\<forall>c. fallback = Inr c \<longrightarrow> c_Tag c \<notin> c_Tag ` set (tm_transports m) \<and> c_id c \<notin> c_id ` set (tm_transports m)) \<Longrightarrow>
    transport_reach defaultTag (fst (snd (TransportManager_Start fallback stage m)))"

lemma transport_reach_registered: "transport_reach defaultTag m \<Longrightarrow> registered (tm_transportByTag m) (tm_transports m)"
proof (induction rule: transport_reach.induct)
  case (create m created tag)
  then show ?case using TransportManager_Create_registered [OF create.IH, of created tag] registered_update [OF create.IH] by auto
next
  case (remove m tag)
  show ?case
  proof (cases "map_of (tm_transportByTag m) tag")
    case None
    then show ?thesis using remove by (simp add: TransportManager_Remove_def)
  next
    case (Some c)
    then show ?thesis using remove registered_delete TransportManager_Remove_registered [OF remove.IH Some] by simp
  qed
next
  case (start m fallback stage)
  have "registered (AList.update (c_Tag c) c (tm_transportByTag m)) (tm_transports m @ [c])" if "fallback = Inr c" for c
  proof -
    have "filter (\<lambda>it. c_Tag it \<noteq> c_Tag c) (tm_transports m) = tm_transports m"
      using start.hyps(2) that by (intro filter_True) (auto simp: image_iff)
    then show ?thesis using registered_update [OF start.IH, of c "c_Tag c"] start.hyps(2) that by simp
  qed
  then show ?case using start.IH by (cases fallback) (auto simp: TransportManager_Start_def Let_def split_beta split: sum.split)
qed (simp add: NewTransportManager_def)

subsection \<open>Removing the default server\<close>

text \<open>
  C40. Removing the default server when other servers are left.  The servers of a manager reached by creating,
  removing and starting are listed in \<^verbatim>\<open>n # rest\<close> without the removed one.  If \<^verbatim>\<open>n\<close> is no FakeIP server, the
  call fails with "default server cannot be fakeip", and the server that is no longer registered, nor closed,
  stays the default; if \<^verbatim>\<open>n\<close> is the FakeIP server, it becomes the default, which creating a server refuses.
\<close>

theorem remove_default_server:
  assumes "transport_reach defaultTag m" "TransportManager_Get tag m = Some c" "tm_defaultTransport m = Some c"
    "filter (\<lambda>it. c_Tag it \<noteq> tag) (tm_transports m) = n # rest"
  shows "if c_Type n = DNSTypeFakeIP
    then tm_defaultTransport (fst (snd (TransportManager_Remove tag m))) = Some n
    else fst (TransportManager_Remove tag m) = Some (New ''default server cannot be fakeip'') \<and>
      tm_defaultTransport (fst (snd (TransportManager_Remove tag m))) = Some c \<and>
      TransportManager_Get tag (fst (snd (TransportManager_Remove tag m))) = None \<and>
      c \<notin> set (tm_transports (fst (snd (TransportManager_Remove tag m)))) \<and> snd (snd (TransportManager_Remove tag m)) = []"
proof -
  note reg = transport_reach_registered [OF assms(1)]
  have found: "map_of (tm_transportByTag m) tag = Some c" using assms(2) by (simp add: TransportManager_Get_def)
  have "c_Tag c = tag" using registeredD [OF reg] found by blast
  then have "c \<notin> set (n # rest)" unfolding assms(4) [symmetric] by simp
  then show ?thesis
    using remove_id_registered [OF reg found, of "''inbound''"] found assms(3,4)
    by (auto simp: TransportManager_Remove_def TransportManager_Get_def Let_def delete_conv)
qed

definition ex_servers :: TransportManager where
  "ex_servers = fst (snd (TransportManager_Create (Inr (ex_outbound 1 ''b'' [])) ''b''
     (fst (snd (TransportManager_Create (Inr (ex_outbound 0 ''a'' [])) ''a'' (NewTransportManager []))))))"

lemmas ex_servers_simps =
  ex_servers_def TransportManager_Create_def NewTransportManager_def ex_outbound_def add_transport_def DNSTypeFakeIP_def Let_def

theorem remove_default_server_witness:
  "fst (TransportManager_Remove ''a'' ex_servers) = Some (New ''default server cannot be fakeip'') \<and>
   c_Type (ex_outbound 1 ''b'' []) = ''direct''"
proof -
  have "transport_reach [] ex_servers"
    unfolding ex_servers_def by (intro transport_reach.intros) (simp_all add: ex_servers_simps)
  moreover have "TransportManager_Get ''a'' ex_servers = Some (ex_outbound 0 ''a'' [])"
    "tm_defaultTransport ex_servers = Some (ex_outbound 0 ''a'' [])"
    "filter (\<lambda>it. c_Tag it \<noteq> ''a'') (tm_transports ex_servers) = [ex_outbound 1 ''b'' []]"
    by (simp_all add: ex_servers_simps TransportManager_Get_def)
  ultimately have "fst (TransportManager_Remove ''a'' ex_servers) = Some (New ''default server cannot be fakeip'')"
    using remove_default_server [of "[]" ex_servers "''a''" "ex_outbound 0 ''a'' []" "ex_outbound 1 ''b'' []" "[]"]
    by (simp add: ex_outbound_def DNSTypeFakeIP_def)
  then show ?thesis by (simp add: ex_outbound_def)
qed

end
