(* ===== verification/Dns_Mode.thy ===== *)
theory Dns_Mode
  imports Dns_Rule Dns_Message Dns_Transport_Manager
begin

text \<open>
  The mode of the DNS router (\<^verbatim>\<open>dns/router.go\<close>): rules that filter by the addresses of a response, or that set a
  strategy, need the legacy mode; rules that match an evaluated response rule it out.  This theory models
  how the mode is found from the rules and the metadata of the rule sets, the checks on the rules outside the
  legacy mode, and the check of an update of a rule set at run time.
\<close>

subsection \<open>Actions and conditions\<close>

definition OptionLegacyDNSAddressFilter_message :: string where
  "OptionLegacyDNSAddressFilter_message =
     ''Legacy Address Filter Fields in DNS rules is deprecated in sing-box 1.14.0'' @
     '' and will be removed in sing-box 1.16.0, checkout documentation for migration: '' @
     ''https://sing-box.sagernet.org/migration/#migrate-address-filter-fields-to-response-matching''"

definition OptionLegacyDNSRuleStrategy_message :: string where
  "OptionLegacyDNSRuleStrategy_message =
     ''Legacy `strategy` DNS rule action option is deprecated in sing-box 1.14.0'' @
     '' and will be removed in sing-box 1.16.0, checkout documentation for migration: '' @
     ''https://sing-box.sagernet.org/migration/#migrate-dns-rule-action-strategy-to-rule-items''"

definition defaultRuleNeedsLegacyDNSModeFromAddressFilter :: "'x RawDefaultDNSRule_scheme \<Rightarrow> bool" where
  "defaultRuleNeedsLegacyDNSModeFromAddressFilter r =
     (if dr_RuleSetIPCIDRAcceptEmpty r then True
      else \<not> dr_MatchResponse r \<and> (dr_IPAcceptAny r \<or> elems (dr_IPCIDR r) \<noteq> [] \<or> dr_IPIsPrivate r))"

definition hasResponseMatchFields :: "'x RawDefaultDNSRule_scheme \<Rightarrow> bool" where
  "hasResponseMatchFields r \<longleftrightarrow> dr_ResponseRcode r \<noteq> None \<or> elems (dr_ResponseAnswer r) \<noteq> [] \<or>
     elems (dr_ResponseNs r) \<noteq> [] \<or> elems (dr_ResponseExtra r) \<noteq> []"

definition defaultRuleDisablesLegacyDNSMode :: "DefaultDNSRuleOptions \<Rightarrow> bool" where
  "defaultRuleDisablesLegacyDNSMode r \<longleftrightarrow> dr_MatchResponse r \<or> hasResponseMatchFields r \<or>
     da_Action (dr_DNSRuleAction r) = RuleActionTypeEvaluate \<or>
     da_Action (dr_DNSRuleAction r) = RuleActionTypeRespond \<or> dr_IPVersion r > 0 \<or> elems (dr_QueryType r) \<noteq> []"

definition dnsRuleActionDisablesLegacyDNSMode :: "DNSRuleActionOptions \<Rightarrow> bool" where
  "dnsRuleActionDisablesLegacyDNSMode act =
     (if da_Action act \<in> {[], RuleActionTypeRoute, RuleActionTypeEvaluate}
      then do_DisableOptimisticCache (da_RouteOptions act)
      else if da_Action act = RuleActionTypeRouteOptions then do_DisableOptimisticCache (da_RouteOptionsOptions act)
      else False)"

definition dnsRuleActionHasStrategy :: "DNSRuleActionOptions \<Rightarrow> bool" where
  "dnsRuleActionHasStrategy act =
     (if da_Action act \<in> {[], RuleActionTypeRoute, RuleActionTypeEvaluate}
      then do_Strategy (da_RouteOptions act) \<noteq> DomainStrategyAsIS
      else if da_Action act = RuleActionTypeRouteOptions
      then do_Strategy (da_RouteOptionsOptions act) \<noteq> DomainStrategyAsIS
      else False)"

definition dnsRuleActionType :: "dns_rule_options \<Rightarrow> string" where
  "dnsRuleActionType r =
     (if or_Type r = [] \<or> or_Type r = RuleTypeDefault then
        if da_Action (dr_DNSRuleAction (or_DefaultOptions r)) = [] then RuleActionTypeRoute
        else da_Action (dr_DNSRuleAction (or_DefaultOptions r))
      else if or_Type r = RuleTypeLogical then
        if da_Action (or_RuleAction r) = [] then RuleActionTypeRoute else da_Action (or_RuleAction r)
      else [])"

definition dnsRuleActionServer :: "dns_rule_options \<Rightarrow> string" where
  "dnsRuleActionServer r =
     (if or_Type r = [] \<or> or_Type r = RuleTypeDefault
      then do_Server (da_RouteOptions (dr_DNSRuleAction (or_DefaultOptions r)))
      else if or_Type r = RuleTypeLogical then do_Server (da_RouteOptions (or_RuleAction r))
      else [])"

subsection \<open>The mode\<close>

record dnsRuleModeFlags =
  mf_disabled :: bool
  mf_needed :: bool
  mf_neededFromStrategy :: bool

definition noModeFlags :: dnsRuleModeFlags where
  "noModeFlags = \<lparr>mf_disabled = False, mf_needed = False, mf_neededFromStrategy = False\<rparr>"

definition mode_merge :: "dnsRuleModeFlags \<Rightarrow> dnsRuleModeFlags \<Rightarrow> dnsRuleModeFlags" where
  "mode_merge f other =
     \<lparr>mf_disabled = mf_disabled f \<or> mf_disabled other, mf_needed = mf_needed f \<or> mf_needed other,
      mf_neededFromStrategy = mf_neededFromStrategy f \<or> mf_neededFromStrategy other\<rparr>"

text \<open>
  The router service is the map of rule sets, or absent.  \<^verbatim>\<open>metadataOverrides\<close> is nil or has one entry: a partial
  map, empty for nil.
\<close>

type_synonym overrides = "string \<Rightarrow> RuleSetMetadata option"

definition lookupDNSRuleSetMetadata :: "rule_sets option \<Rightarrow> overrides \<Rightarrow> string \<Rightarrow> RuleSetMetadata res" where
  "lookupDNSRuleSetMetadata router metadataOverrides tag =
     (case metadataOverrides tag of
        Some metadata \<Rightarrow> Inr metadata
      | None \<Rightarrow>
          (case router of
             None \<Rightarrow> Inl (Panic ''nil pointer dereference'')
           | Some sets \<Rightarrow>
               (case sets tag of
                  None \<Rightarrow> Inl (rule_set_not_found tag)
                | Some s \<Rightarrow> Inr (set_Metadata s))))"

definition mode_of_set :: "bool \<Rightarrow> RuleSetMetadata \<Rightarrow> dnsRuleModeFlags" where
  "mode_of_set matchSource metadata =
     \<lparr>mf_disabled = ContainsDNSQueryTypeRule metadata, mf_needed = \<not> matchSource \<and> ContainsIPCIDRRule metadata,
      mf_neededFromStrategy = False\<rparr>"

definition dnsRuleModeRequirementsInDefaultRule ::
  "rule_sets option \<Rightarrow> overrides \<Rightarrow> DefaultDNSRuleOptions \<Rightarrow> dnsRuleModeFlags res" where
  "dnsRuleModeRequirementsInDefaultRule router metadataOverrides r =
     (let strategy = dnsRuleActionHasStrategy (dr_DNSRuleAction r);
          flags = \<lparr>mf_disabled = defaultRuleDisablesLegacyDNSMode r \<or>
                     dnsRuleActionDisablesLegacyDNSMode (dr_DNSRuleAction r),
                   mf_needed = defaultRuleNeedsLegacyDNSModeFromAddressFilter r \<or> strategy,
                   mf_neededFromStrategy = strategy\<rparr>
      in if elems (dr_RuleSet r) = [] then Inr flags
         else if router = None then Inl (New ''router service not found'')
         else map_sum id
           (\<lambda>mds. fold (\<lambda>md f. mode_merge f (mode_of_set (dr_RuleSetIPCIDRMatchSource r) md)) mds flags)
           (map_res (lookupDNSRuleSetMetadata router metadataOverrides) (elems (dr_RuleSet r))))"

fun dnsRuleModeRequirementsInRule :: "rule_sets option \<Rightarrow> overrides \<Rightarrow> dns_rule_options \<Rightarrow> dnsRuleModeFlags res" where
  "dnsRuleModeRequirementsInRule router metadataOverrides r =
     (if or_Type r = [] \<or> or_Type r = RuleTypeDefault
      then dnsRuleModeRequirementsInDefaultRule router metadataOverrides (or_DefaultOptions r)
      else if or_Type r = RuleTypeLogical then
        let strategy = dnsRuleActionHasStrategy (or_RuleAction r);
            flags = \<lparr>mf_disabled = dnsRuleActionType r = RuleActionTypeEvaluate \<or>
                       dnsRuleActionType r = RuleActionTypeRespond \<or>
                       dnsRuleActionDisablesLegacyDNSMode (or_RuleAction r),
                     mf_needed = strategy, mf_neededFromStrategy = strategy\<rparr>
        in map_sum id (\<lambda>subs. fold (\<lambda>sub f. mode_merge f sub) subs flags)
             (map_res_idx ''sub rule['' '']'' 0 (dnsRuleModeRequirementsInRule router metadataOverrides) (or_Rules r))
      else Inr noModeFlags)"

declare dnsRuleModeRequirementsInRule.simps [simp del]

definition dnsRuleModeRequirements :: "rule_sets option \<Rightarrow> overrides \<Rightarrow> dns_rule_options list \<Rightarrow> dnsRuleModeFlags res" where
  "dnsRuleModeRequirements router metadataOverrides rules =
     map_sum id (\<lambda>fs. fold (\<lambda>sub f. mode_merge f sub) fs noModeFlags)
       (map_res_idx ''dns rule['' '']'' 0 (dnsRuleModeRequirementsInRule router metadataOverrides) rules)"

definition resolveLegacyDNSMode ::
  "rule_sets option \<Rightarrow> overrides \<Rightarrow> dns_rule_options list \<Rightarrow> (bool \<times> dnsRuleModeFlags) res" where
  "resolveLegacyDNSMode router metadataOverrides rules =
     (case dnsRuleModeRequirements router metadataOverrides rules of
        Inl e \<Rightarrow> Inl e
      | Inr flags \<Rightarrow>
          if mf_disabled flags \<and> mf_neededFromStrategy flags then Inl (New OptionLegacyDNSRuleStrategy_message)
          else if mf_disabled flags then Inr (False, flags)
          else Inr (mf_needed flags, flags))"

subsection \<open>Checks outside the legacy mode\<close>

definition response_fields_message :: string where
  "response_fields_message =
     ''Response Match Fields (ip_cidr, ip_is_private, ip_accept_any, response_rcode, response_answer, '' @
     ''response_ns, response_extra) require match_response to be enabled''"

text \<open>The loop over the rule sets stops at the first set of addresses alone.\<close>

fun check_address_sets :: "rule_sets option \<Rightarrow> overrides \<Rightarrow> string list \<Rightarrow> unit res" where
  "check_address_sets router metadataOverrides [] = Inr ()"
| "check_address_sets router metadataOverrides (tag # tags) =
     (case lookupDNSRuleSetMetadata router metadataOverrides tag of
        Inl e \<Rightarrow> Inl e
      | Inr metadata \<Rightarrow>
          if ContainsIPCIDRRule metadata \<and> \<not> ContainsNonIPCIDRRule metadata
          then Inl (New OptionLegacyDNSAddressFilter_message)
          else check_address_sets router metadataOverrides tags)"

definition validateLegacyDNSModeDisabledDefaultRule ::
  "rule_sets option \<Rightarrow> overrides \<Rightarrow> DefaultDNSRuleOptions \<Rightarrow> bool res" where
  "validateLegacyDNSModeDisabledDefaultRule router metadataOverrides r =
     (if (hasResponseMatchFields r \<or> elems (dr_IPCIDR r) \<noteq> [] \<or> dr_IPIsPrivate r \<or> dr_IPAcceptAny r) \<and>
         \<not> dr_MatchResponse r
      then Inl (New response_fields_message)
      else bind_res
        (if \<not> dr_MatchResponse r \<and> elems (dr_RuleSet r) \<noteq> []
         then check_address_sets router metadataOverrides (elems (dr_RuleSet r)) else Inr ())
        (\<lambda>_. if dr_RuleSetIPCIDRAcceptEmpty r then Inl (New OptionRuleSetIPCIDRAcceptEmpty_message)
             else Inr (dr_MatchResponse r \<or> da_Action (dr_DNSRuleAction r) = RuleActionTypeRespond)))"

fun validateLegacyDNSModeDisabledRuleTree :: "rule_sets option \<Rightarrow> overrides \<Rightarrow> dns_rule_options \<Rightarrow> bool res" where
  "validateLegacyDNSModeDisabledRuleTree router metadataOverrides r =
     (if or_Type r = [] \<or> or_Type r = RuleTypeDefault
      then validateLegacyDNSModeDisabledDefaultRule router metadataOverrides (or_DefaultOptions r)
      else if or_Type r = RuleTypeLogical then
        map_sum id (\<lambda>subs. dnsRuleActionType r = RuleActionTypeRespond \<or> list_ex id subs)
          (map_res_idx ''sub rule['' '']'' 0 (validateLegacyDNSModeDisabledRuleTree router metadataOverrides) (or_Rules r))
      else Inr False)"

declare validateLegacyDNSModeDisabledRuleTree.simps [simp del]

fun validate_rules ::
  "rule_sets option \<Rightarrow> overrides \<Rightarrow> nat \<Rightarrow> bool \<Rightarrow> dns_rule_options list \<Rightarrow> unit res" where
  "validate_rules router metadataOverrides i seenEvaluate [] = Inr ()"
| "validate_rules router metadataOverrides i seenEvaluate (r # rs) =
     (case validateLegacyDNSModeDisabledRuleTree router metadataOverrides r of
        Inl e \<Rightarrow> Inl (Cause e (''validate dns rule['' @ itoa i @ '']''))
      | Inr requiresPriorEvaluate \<Rightarrow>
          if requiresPriorEvaluate \<and> \<not> seenEvaluate
          then Inl (New (''dns rule['' @ itoa i @
            '']: response-based matching requires a preceding evaluate action''))
          else validate_rules router metadataOverrides (Suc i)
            (seenEvaluate \<or> dnsRuleActionType r = RuleActionTypeEvaluate) rs)"

definition validateLegacyDNSModeDisabledRules ::
  "rule_sets option \<Rightarrow> overrides \<Rightarrow> dns_rule_options list \<Rightarrow> unit res" where
  "validateLegacyDNSModeDisabledRules router metadataOverrides rules = validate_rules router metadataOverrides 0 False rules"

fun validate_evaluate :: "TransportManager option \<Rightarrow> nat \<Rightarrow> dns_rule_options list \<Rightarrow> unit res" where
  "validate_evaluate transport i [] = Inr ()"
| "validate_evaluate transport i (r # rs) =
     (let server = dnsRuleActionServer r
      in if dnsRuleActionType r = RuleActionTypeEvaluate \<and> server \<noteq> [] \<and>
            (case transport of None \<Rightarrow> False
             | Some m \<Rightarrow> (case TransportManager_Get server m of None \<Rightarrow> False | Some t \<Rightarrow> c_Type t = DNSTypeFakeIP))
         then Inl (New (''dns rule['' @ itoa i @ '']: evaluate action cannot use fakeip server: '' @ server))
         else validate_evaluate transport (Suc i) rs)"

definition validateEvaluateFakeIPRules :: "TransportManager option \<Rightarrow> dns_rule_options list \<Rightarrow> unit res" where
  "validateEvaluateFakeIPRules transport rules = validate_evaluate transport 0 rules"

subsection \<open>What the mode says of the rules\<close>

lemma mode_fold [simp]:
  "mf_disabled (fold (\<lambda>x f. mode_merge f (g x)) xs f0) \<longleftrightarrow> mf_disabled f0 \<or> (\<exists>x \<in> set xs. mf_disabled (g x))"
  "mf_needed (fold (\<lambda>x f. mode_merge f (g x)) xs f0) \<longleftrightarrow> mf_needed f0 \<or> (\<exists>x \<in> set xs. mf_needed (g x))"
  "mf_neededFromStrategy (fold (\<lambda>x f. mode_merge f (g x)) xs f0) \<longleftrightarrow>
     mf_neededFromStrategy f0 \<or> (\<exists>x \<in> set xs. mf_neededFromStrategy (g x))"
  by (induction xs arbitrary: f0) (auto simp: mode_merge_def)

lemmas mode_fold_id [simp] = mode_fold [where g = "\<lambda>x. x"]

text \<open>One set of flags is covered by another.\<close>

definition mode_le :: "dnsRuleModeFlags \<Rightarrow> dnsRuleModeFlags \<Rightarrow> bool" where
  "mode_le f g \<longleftrightarrow> (mf_disabled f \<longrightarrow> mf_disabled g) \<and> (mf_needed f \<longrightarrow> mf_needed g) \<and>
     (mf_neededFromStrategy f \<longrightarrow> mf_neededFromStrategy g)"

lemma mode_le_trans: "mode_le f g \<Longrightarrow> mode_le g h \<Longrightarrow> mode_le f h"
  by (auto simp: mode_le_def)

lemma mode_le_fold: "f \<in> set fs \<Longrightarrow> mode_le f (fold (\<lambda>sub f. mode_merge f sub) fs f0)"
  by (auto simp: mode_le_def)

lemma map_res_idx_member:
  assumes "map_res_idx pre post i f xs = Inr ys" "x \<in> set xs"
  obtains y where "f x = Inr y" "y \<in> set ys"
  using assms unfolding map_res_idx_Inr list_all2_conv_all_nth in_set_conv_nth by metis

lemma map_sum_Inr_iff: "map_sum f g r = Inr y \<longleftrightarrow> (\<exists>x. r = Inr x \<and> y = g x)"
  by (cases r) auto

text \<open>The default options at any depth of a rule, and the action of the rule itself.\<close>

fun opt_defaults :: "dns_rule_options \<Rightarrow> DefaultDNSRuleOptions list" where
  "opt_defaults r =
     (if or_Type r = [] \<or> or_Type r = RuleTypeDefault then [or_DefaultOptions r]
      else if or_Type r = RuleTypeLogical then concat (map opt_defaults (or_Rules r))
      else [])"

declare opt_defaults.simps [simp del]

definition opt_action :: "dns_rule_options \<Rightarrow> DNSRuleActionOptions" where
  "opt_action r =
     (if or_Type r = [] \<or> or_Type r = RuleTypeDefault then dr_DNSRuleAction (or_DefaultOptions r) else or_RuleAction r)"

lemma rule_types [simp]: "RuleTypeLogical \<noteq> []" "RuleTypeDefault \<noteq> []" "RuleTypeLogical \<noteq> RuleTypeDefault"
  by (simp_all add: RuleTypeLogical_def RuleTypeDefault_def)

lemma mode_of_defaults:
  "dnsRuleModeRequirementsInRule router ov r = Inr f \<Longrightarrow> d \<in> set (opt_defaults r) \<Longrightarrow>
     \<exists>fd. dnsRuleModeRequirementsInDefaultRule router ov d = Inr fd \<and> mode_le fd f"
proof (induction router ov r arbitrary: f rule: dnsRuleModeRequirementsInRule.induct)
  case (1 router ov r)
  show ?case
  proof (cases "or_Type r = [] \<or> or_Type r = RuleTypeDefault")
    case True
    then show ?thesis
      using "1.prems" by (auto simp: opt_defaults.simps [of r] dnsRuleModeRequirementsInRule.simps [of _ _ r] mode_le_def)
  next
    case False
    with "1.prems"(2) have log: "or_Type r = RuleTypeLogical"
      by (auto simp: opt_defaults.simps [of r] split: if_splits)
    then obtain sub where sub: "sub \<in> set (or_Rules r)" "d \<in> set (opt_defaults sub)"
      using "1.prems"(2) by (auto simp: opt_defaults.simps [of r])
    obtain subs f0 where subs: "map_res_idx ''sub rule['' '']'' 0 (dnsRuleModeRequirementsInRule router ov) (or_Rules r) = Inr subs"
      "f = fold (\<lambda>sub f. mode_merge f sub) subs f0"
      using "1.prems"(1) log by (auto simp: dnsRuleModeRequirementsInRule.simps [of _ _ r] Let_def map_sum_Inr_iff)
    obtain fs where "dnsRuleModeRequirementsInRule router ov sub = Inr fs" "fs \<in> set subs"
      using map_res_idx_member [OF subs(1) sub(1)] .
    then show ?thesis
      using "1.IH" [OF False log refl refl sub(1)] sub(2) mode_le_trans [OF _ mode_le_fold] unfolding subs(2) by blast
  qed
qed

lemma mode_of_action:
  assumes "dnsRuleModeRequirementsInRule router ov r = Inr f"
    "or_Type r = [] \<or> or_Type r = RuleTypeDefault \<or> or_Type r = RuleTypeLogical"
  shows "da_Action (opt_action r) \<in> {RuleActionTypeEvaluate, RuleActionTypeRespond} \<Longrightarrow> mf_disabled f"
    "dnsRuleActionHasStrategy (opt_action r) \<Longrightarrow> mf_neededFromStrategy f \<and> mf_needed f"
  using assms
  by (auto simp: dnsRuleModeRequirementsInRule.simps [of _ _ r] Let_def map_sum_Inr_iff opt_action_def
      dnsRuleModeRequirementsInDefaultRule_def defaultRuleDisablesLegacyDNSMode_def dnsRuleActionType_def
      RuleActionTypeEvaluate_def RuleActionTypeRespond_def split: if_splits)

lemma mode_of_rules:
  assumes "dnsRuleModeRequirements router ov rules = Inr f" "r \<in> set rules"
  obtains fr where "dnsRuleModeRequirementsInRule router ov r = Inr fr" "mode_le fr f"
  using assms mode_le_fold by (auto simp: dnsRuleModeRequirements_def map_sum_Inr_iff elim!: map_res_idx_member)

lemma resolveLegacyDNSMode_cases:
  assumes "resolveLegacyDNSMode router ov rules = Inr (legacy, f)"
  shows "dnsRuleModeRequirements router ov rules = Inr f" "legacy \<longleftrightarrow> mf_needed f \<and> \<not> mf_disabled f"
    "\<not> (mf_disabled f \<and> mf_neededFromStrategy f)"
  using assms by (auto simp: resolveLegacyDNSMode_def split: sum.splits if_splits)

lemma validate_of_defaults:
  "validateLegacyDNSModeDisabledRuleTree router ov r = Inr b \<Longrightarrow> d \<in> set (opt_defaults r) \<Longrightarrow>
     \<exists>bd. validateLegacyDNSModeDisabledDefaultRule router ov d = Inr bd \<and> (bd \<longrightarrow> b)"
proof (induction router ov r arbitrary: b rule: validateLegacyDNSModeDisabledRuleTree.induct)
  case (1 router ov r)
  show ?case
  proof (cases "or_Type r = [] \<or> or_Type r = RuleTypeDefault")
    case True
    then show ?thesis
      using "1.prems" by (auto simp: opt_defaults.simps [of r] validateLegacyDNSModeDisabledRuleTree.simps [of _ _ r])
  next
    case False
    with "1.prems"(2) have log: "or_Type r = RuleTypeLogical"
      by (auto simp: opt_defaults.simps [of r] split: if_splits)
    then obtain sub where sub: "sub \<in> set (or_Rules r)" "d \<in> set (opt_defaults sub)"
      using "1.prems"(2) by (auto simp: opt_defaults.simps [of r])
    obtain subs where subs: "map_res_idx ''sub rule['' '']'' 0 (validateLegacyDNSModeDisabledRuleTree router ov) (or_Rules r) = Inr subs"
      "list_ex id subs \<longrightarrow> b"
      using "1.prems"(1) log by (auto simp: validateLegacyDNSModeDisabledRuleTree.simps [of _ _ r] map_sum_Inr_iff)
    obtain bs where "validateLegacyDNSModeDisabledRuleTree router ov sub = Inr bs" "bs \<in> set subs"
      using map_res_idx_member [OF subs(1) sub(1)] .
    then show ?thesis using "1.IH" [OF False log sub(1)] sub(2) subs(2) by (auto simp: list_ex_iff)
  qed
qed

lemma validate_of_action:
  assumes "validateLegacyDNSModeDisabledRuleTree router ov r = Inr b"
    "or_Type r = [] \<or> or_Type r = RuleTypeDefault \<or> or_Type r = RuleTypeLogical"
    "da_Action (opt_action r) = RuleActionTypeRespond"
  shows b
  using assms
  by (auto simp: validateLegacyDNSModeDisabledRuleTree.simps [of _ _ r] map_sum_Inr_iff opt_action_def bind_res_Inr
      validateLegacyDNSModeDisabledDefaultRule_def dnsRuleActionType_def RuleActionTypeRespond_def split: if_splits)

text \<open>The rules that pass: one that needs a response comes after one that evaluates.\<close>

lemma validate_rules_nth:
  assumes "validate_rules router ov i seen rules = Inr ()" "k < length rules"
  obtains b where "validateLegacyDNSModeDisabledRuleTree router ov (rules ! k) = Inr b"
    "b \<Longrightarrow> seen \<or> (\<exists>j < k. dnsRuleActionType (rules ! j) = RuleActionTypeEvaluate)"
proof -
  have "\<exists>b. validateLegacyDNSModeDisabledRuleTree router ov (rules ! k) = Inr b \<and>
    (b \<longrightarrow> seen \<or> (\<exists>j < k. dnsRuleActionType (rules ! j) = RuleActionTypeEvaluate))"
    using assms
  proof (induction rules arbitrary: i seen k)
    case (Cons r rules)
    obtain b where b: "validateLegacyDNSModeDisabledRuleTree router ov r = Inr b" "b \<longrightarrow> seen"
      "validate_rules router ov (Suc i) (seen \<or> dnsRuleActionType r = RuleActionTypeEvaluate) rules = Inr ()"
      using Cons.prems(1) by (auto split: sum.splits if_splits)
    show ?case
    proof (cases k)
      case (Suc k')
      have shift: "\<exists>j < k. dnsRuleActionType ((r # rules) ! j) = RuleActionTypeEvaluate"
        if "dnsRuleActionType r = RuleActionTypeEvaluate \<or> (\<exists>j < k'. dnsRuleActionType (rules ! j) = RuleActionTypeEvaluate)"
        using that Suc by (auto intro: exI [of _ 0] exI [of _ "Suc _"])
      have "k' < length rules" using Cons.prems(2) Suc by simp
      from Cons.IH [OF b(3) this] shift Suc show ?thesis by auto
    qed (use b in auto)
  qed simp
  then show thesis using that by blast
qed

lemma validate_evaluate_nth:
  assumes "validate_evaluate transport i rules = Inr ()" "r \<in> set rules"
    "dnsRuleActionType r = RuleActionTypeEvaluate" "transport = Some m" "TransportManager_Get (dnsRuleActionServer r) m = Some t"
    "dnsRuleActionServer r \<noteq> []"
  shows "c_Type t \<noteq> DNSTypeFakeIP"
  using assms by (induction rules arbitrary: i) (auto simp: Let_def split: if_splits)

text \<open>What the flags and the checks say of the rule sets of a rule.\<close>

lemma map_res_member:
  assumes "map_res f xs = Inr ys" "x \<in> set xs"
  obtains y where "f x = Inr y" "y \<in> set ys"
proof -
  have "\<exists>y. f x = Inr y \<and> y \<in> set ys"
    using assms by (induction xs arbitrary: ys) (auto split: sum.splits)
  then show thesis using that by blast
qed

lemma default_mode_sets:
  assumes "dnsRuleModeRequirementsInDefaultRule router ov d = Inr f" "tag \<in> set (elems (dr_RuleSet d))"
  obtains metadata where "lookupDNSRuleSetMetadata router ov tag = Inr metadata"
    "ContainsDNSQueryTypeRule metadata \<Longrightarrow> mf_disabled f"
proof -
  have ne: "elems (dr_RuleSet d) \<noteq> []" "router \<noteq> None"
    using assms by (auto simp: dnsRuleModeRequirementsInDefaultRule_def Let_def split: if_splits)
  then obtain mds f0 where mds: "map_res (lookupDNSRuleSetMetadata router ov) (elems (dr_RuleSet d)) = Inr mds"
    "f = fold (\<lambda>md f. mode_merge f (mode_of_set (dr_RuleSetIPCIDRMatchSource d) md)) mds f0"
    using assms(1) by (auto simp: dnsRuleModeRequirementsInDefaultRule_def Let_def map_sum_Inr_iff)
  show thesis
    by (rule map_res_member [OF mds(1) assms(2)], rule that) (auto simp: mds(2) mode_of_set_def)
qed

lemma check_address_sets_member:
  assumes "check_address_sets router ov tags = Inr ()" "tag \<in> set tags"
  obtains metadata where "lookupDNSRuleSetMetadata router ov tag = Inr metadata"
    "\<not> (ContainsIPCIDRRule metadata \<and> \<not> ContainsNonIPCIDRRule metadata)"
proof -
  have "\<exists>metadata. lookupDNSRuleSetMetadata router ov tag = Inr metadata \<and>
      \<not> (ContainsIPCIDRRule metadata \<and> \<not> ContainsNonIPCIDRRule metadata)"
    using assms by (induction tags) (auto split: sum.splits if_splits)
  then show thesis using that by blast
qed

text \<open>The mode depends on the rule sets only through the metadata that is looked up.\<close>

lemma map_res_idx_same: "(\<And>x. x \<in> set xs \<Longrightarrow> f x = g x) \<Longrightarrow> map_res_idx pre post i f xs = map_res_idx pre post i g xs"
  by (rule map_res_idx_cong) auto

lemma requirements_lookup:
  assumes "lookupDNSRuleSetMetadata (Some sets) ov = lookupDNSRuleSetMetadata (Some sets') ov'"
  shows "dnsRuleModeRequirementsInRule (Some sets) ov r = dnsRuleModeRequirementsInRule (Some sets') ov' r"
proof (induction r)
  case (OptionRule type opts mode rules neg act)
  have "map_res_idx pre post i (dnsRuleModeRequirementsInRule (Some sets) ov) rules =
      map_res_idx pre post i (dnsRuleModeRequirementsInRule (Some sets') ov') rules" for pre post i
    using OptionRule by (rule map_res_idx_same)
  then show ?case
    by (subst (1 2) dnsRuleModeRequirementsInRule.simps)
      (simp add: dnsRuleModeRequirementsInDefaultRule_def assms Let_def)
qed

lemma validate_tree_lookup:
  assumes "lookupDNSRuleSetMetadata (Some sets) ov = lookupDNSRuleSetMetadata (Some sets') ov'"
  shows "validateLegacyDNSModeDisabledRuleTree (Some sets) ov r = validateLegacyDNSModeDisabledRuleTree (Some sets') ov' r"
proof (induction r)
  case (OptionRule type opts mode rules neg act)
  have "check_address_sets (Some sets) ov tags = check_address_sets (Some sets') ov' tags" for tags
    by (induction tags) (simp_all add: assms split: sum.split)
  moreover have "map_res_idx pre post i (validateLegacyDNSModeDisabledRuleTree (Some sets) ov) rules =
      map_res_idx pre post i (validateLegacyDNSModeDisabledRuleTree (Some sets') ov') rules" for pre post i
    using OptionRule by (rule map_res_idx_same)
  ultimately show ?case
    by (subst (1 2) validateLegacyDNSModeDisabledRuleTree.simps)
      (simp add: validateLegacyDNSModeDisabledDefaultRule_def)
qed

lemma mode_lookup:
  assumes "lookupDNSRuleSetMetadata (Some sets) ov = lookupDNSRuleSetMetadata (Some sets') ov'"
  shows "dnsRuleModeRequirements (Some sets) ov rules = dnsRuleModeRequirements (Some sets') ov' rules"
    "resolveLegacyDNSMode (Some sets) ov rules = resolveLegacyDNSMode (Some sets') ov' rules"
    "validateLegacyDNSModeDisabledRules (Some sets) ov rules = validateLegacyDNSModeDisabledRules (Some sets') ov' rules"
proof -
  have "dnsRuleModeRequirementsInRule (Some sets) ov = dnsRuleModeRequirementsInRule (Some sets') ov'"
    using requirements_lookup [OF assms] by blast
  then show req: "dnsRuleModeRequirements (Some sets) ov rules = dnsRuleModeRequirements (Some sets') ov' rules"
    by (simp add: dnsRuleModeRequirements_def)
  show "resolveLegacyDNSMode (Some sets) ov rules = resolveLegacyDNSMode (Some sets') ov' rules"
    by (simp add: resolveLegacyDNSMode_def req)
  have "validate_rules (Some sets) ov i seen rules = validate_rules (Some sets') ov' i seen rules" for i seen
    by (induction rules arbitrary: i seen) (simp_all add: validate_tree_lookup [OF assms] split: sum.split)
  then show "validateLegacyDNSModeDisabledRules (Some sets) ov rules = validateLegacyDNSModeDisabledRules (Some sets') ov' rules"
    by (simp add: validateLegacyDNSModeDisabledRules_def)
qed

end
