(* ===== verification/Dns_Router_Rules.thy ===== *)
theory Dns_Router_Rules
  imports Dns_Mode
begin

text \<open>
  The rules of the DNS router (\<^verbatim>\<open>dns/router.go\<close>): building, starting and closing them, with the references they
  take on rule sets, and the validation of rule-set updates while the router runs.  The validator of the rule
  sets (\<^verbatim>\<open>adapter.DNSRuleSetUpdateValidator\<close>) is the router itself.
\<close>

subsection \<open>Starting and closing rules\<close>

text \<open>
  \<^verbatim>\<open>Start\<close> of a DNS rule starts the items in order, the rule-set item last, and stops at the first error; the
  rule is then only closed, and of all items only the rule-set item has a \<^verbatim>\<open>Close\<close>.  The outer \<open>Inl\<close> is a panic.
\<close>

definition default_Start ::
  "env \<Rightarrow> lookup \<Rightarrow> lookup \<Rightarrow> rule_sets \<Rightarrow> DefaultDNSRule \<Rightarrow> (error option \<times> DefaultDNSRule \<times> rule_sets) res" where
  "default_Start E outbound transport sets d =
     (case entries_Start E outbound transport (entries d) of
        Inl e \<Rightarrow> Inr (Some e, d, sets)
      | Inr es \<Rightarrow>
          let d1 = d\<lparr>entries := es\<rparr>
          in case ruleSetItem d1 of
               None \<Rightarrow> Inr (None, d1, sets)
             | Some item \<Rightarrow>
                 bind_res (RuleSetItem_Start sets item) (\<lambda>(err, item', sets').
                   Inr (err, d1\<lparr>ruleSetItem := Some item'\<rparr>, sets')))"

definition default_Close :: "rule_sets \<Rightarrow> DefaultDNSRule \<Rightarrow> (DefaultDNSRule \<times> rule_sets) res" where
  "default_Close sets d =
     (case ruleSetItem d of
        None \<Rightarrow> Inr (d, sets)
      | Some item \<Rightarrow>
          bind_res (RuleSetItem_Close sets item) (\<lambda>(item', sets'). Inr (d\<lparr>ruleSetItem := Some item'\<rparr>, sets')))"

fun dns_Start :: "env \<Rightarrow> lookup \<Rightarrow> lookup \<Rightarrow> rule_sets \<Rightarrow> dns_rule \<Rightarrow> (error option \<times> dns_rule \<times> rule_sets) res"
  and dns_Start_all ::
    "env \<Rightarrow> lookup \<Rightarrow> lookup \<Rightarrow> rule_sets \<Rightarrow> dns_rule list \<Rightarrow> (error option \<times> dns_rule list \<times> rule_sets) res" where
  "dns_Start E outbound transport sets (DefaultRule d) =
     bind_res (default_Start E outbound transport sets d) (\<lambda>(err, d', sets'). Inr (err, DefaultRule d', sets'))"
| "dns_Start E outbound transport sets (LogicalRule rules mode neg act) =
     bind_res (dns_Start_all E outbound transport sets rules) (\<lambda>(err, rules', sets').
       Inr (err, LogicalRule rules' mode neg act, sets'))"
| "dns_Start_all E outbound transport sets [] = Inr (None, [], sets)"
| "dns_Start_all E outbound transport sets (r # rs) =
     bind_res (dns_Start E outbound transport sets r) (\<lambda>(err, r', sets').
       if err \<noteq> None then Inr (err, r' # rs, sets')
       else bind_res (dns_Start_all E outbound transport sets' rs) (\<lambda>(err, rs', sets'').
         Inr (err, r' # rs', sets'')))"

fun dns_Close :: "rule_sets \<Rightarrow> dns_rule \<Rightarrow> (dns_rule \<times> rule_sets) res"
  and closeRules :: "rule_sets \<Rightarrow> dns_rule list \<Rightarrow> (dns_rule list \<times> rule_sets) res" where
  "dns_Close sets (DefaultRule d) =
     bind_res (default_Close sets d) (\<lambda>(d', sets'). Inr (DefaultRule d', sets'))"
| "dns_Close sets (LogicalRule rules mode neg act) =
     bind_res (closeRules sets rules) (\<lambda>(rules', sets'). Inr (LogicalRule rules' mode neg act, sets'))"
| "closeRules sets [] = Inr ([], sets)"
| "closeRules sets (r # rs) =
     bind_res (dns_Close sets r) (\<lambda>(r', sets').
       bind_res (closeRules sets' rs) (\<lambda>(rs', sets''). Inr (r' # rs', sets'')))"

subsection \<open>The router\<close>

record DnsRouter =
  rtr_transport :: "TransportManager option"
  rtr_rawRules :: "dns_rule_options list"
  rtr_rules :: "dns_rule list"
  rtr_defaultDomainStrategy :: domain_strategy
  rtr_legacyDNSMode :: bool
  rtr_started :: bool
  rtr_closing :: bool

definition NewDnsRouter :: "TransportManager option \<Rightarrow> domain_strategy \<Rightarrow> DnsRouter" where
  "NewDnsRouter transport strategy =
     \<lparr>rtr_transport = transport, rtr_rawRules = [], rtr_rules = [], rtr_defaultDomainStrategy = strategy,
      rtr_legacyDNSMode = False, rtr_started = False, rtr_closing = False\<rparr>"

text \<open>The environment of a router: the services its rules look up.\<close>

record router_env =
  re_env :: env
  re_outbound :: lookup
  re_transport :: lookup

definition parse_rules ::
  "router_env \<Rightarrow> rule_sets option \<Rightarrow> DnsRouter \<Rightarrow> (dns_rule list \<times> bool \<times> dnsRuleModeFlags) res" where
  "parse_rules V router r =
     bind_res (map_res_idx ''parse dns rule['' '']'' 0 (\<lambda>opts. validateNoNestedDNSRuleActions opts False) (rtr_rawRules r)) (\<lambda>_.
     bind_res (resolveLegacyDNSMode router Map.empty (rtr_rawRules r)) (\<lambda>(legacyDNSMode, modeFlags).
     bind_res (if legacyDNSMode then Inr () else validateLegacyDNSModeDisabledRules router Map.empty (rtr_rawRules r)) (\<lambda>_.
     bind_res (validateEvaluateFakeIPRules (rtr_transport r) (rtr_rawRules r)) (\<lambda>_.
     bind_res (map_res_idx ''parse dns rule['' '']'' 0
                 (\<lambda>opts. NewDNSRule (re_env V) opts True legacyDNSMode) (rtr_rawRules r)) (\<lambda>newRules.
     Inr (newRules, legacyDNSMode, modeFlags))))))"

fun start_rules ::
  "router_env \<Rightarrow> rule_sets \<Rightarrow> nat \<Rightarrow> dns_rule list \<Rightarrow> (error option \<times> dns_rule list \<times> rule_sets) res" where
  "start_rules V sets i [] = Inr (None, [], sets)"
| "start_rules V sets i (r # rs) =
     bind_res (dns_Start (re_env V) (re_outbound V) (re_transport V) sets r) (\<lambda>(err, r', sets').
       case err of
         Some e \<Rightarrow> Inr (Some (Cause e (''initialize DNS rule['' @ itoa i @ '']'')), r' # rs, sets')
       | None \<Rightarrow>
           bind_res (start_rules V sets' (Suc i) rs) (\<lambda>(err, rs', sets''). Inr (err, r' # rs', sets'')))"

text \<open>
  The service of the router is found when rules are built.  Rules that are built but not started hold no
  reference, so the \<^verbatim>\<open>closeRules\<close> after a failed \<^verbatim>\<open>NewDNSRule\<close> has nothing to release.
\<close>

definition buildRules ::
  "router_env \<Rightarrow> bool \<Rightarrow> DnsRouter \<Rightarrow> rule_sets \<Rightarrow>
     ((dns_rule list \<times> bool \<times> dnsRuleModeFlags) res \<times> rule_sets) res" where
  "buildRules V startRules r sets =
     (case parse_rules V (Some sets) r of
        Inl e \<Rightarrow> Inr (Inl e, sets)
      | Inr (newRules, legacyDNSMode, modeFlags) \<Rightarrow>
          if \<not> startRules then Inr (Inr (newRules, legacyDNSMode, modeFlags), sets)
          else bind_res (start_rules V sets 0 newRules) (\<lambda>(err, newRules, sets').
            case err of
              None \<Rightarrow> Inr (Inr (newRules, legacyDNSMode, modeFlags), sets')
            | Some e \<Rightarrow> bind_res (closeRules sets' newRules) (\<lambda>(_, sets''). Inr (Inl e, sets''))))"

definition DnsRouter_Initialize ::
  "router_env \<Rightarrow> dns_rule_options list \<Rightarrow> DnsRouter \<Rightarrow> rule_sets \<Rightarrow> (error option \<times> DnsRouter \<times> rule_sets) res" where
  "DnsRouter_Initialize V rules r sets =
     (let r1 = r\<lparr>rtr_rawRules := rules\<rparr>
      in bind_res (buildRules V False r1 sets) (\<lambda>(built, sets').
        case built of
          Inl e \<Rightarrow> Inr (Some e, r1, sets')
        | Inr (newRules, _, _) \<Rightarrow> bind_res (closeRules sets' newRules) (\<lambda>(_, sets''). Inr (None, r1, sets''))))"

definition DnsRouter_Start ::
  "router_env \<Rightarrow> StartStage \<Rightarrow> DnsRouter \<Rightarrow> rule_sets \<Rightarrow> (error option \<times> DnsRouter \<times> rule_sets) res" where
  "DnsRouter_Start V stage r sets =
     (if stage \<noteq> StartStateStart then Inr (None, r, sets)
      else bind_res (buildRules V True r sets) (\<lambda>(built, sets').
        case built of
          Inl e \<Rightarrow> Inr (Some e, r, sets')
        | Inr (newRules, legacyDNSMode, _) \<Rightarrow>
            if rtr_closing r then bind_res (closeRules sets' newRules) (\<lambda>(_, sets''). Inr (None, r, sets''))
            else Inr (None, r\<lparr>rtr_rules := newRules, rtr_legacyDNSMode := legacyDNSMode, rtr_started := True\<rparr>, sets')))"

definition DnsRouter_Close :: "DnsRouter \<Rightarrow> rule_sets \<Rightarrow> (DnsRouter \<times> rule_sets) res" where
  "DnsRouter_Close r sets =
     (if rtr_closing r then Inr (r, sets)
      else bind_res (closeRules sets (rtr_rules r)) (\<lambda>(_, sets').
        Inr (r\<lparr>rtr_closing := True, rtr_rules := []\<rparr>, sets')))"

definition err_of :: "'a res \<Rightarrow> error option" where
  "err_of r = (case r of Inl e \<Rightarrow> Some e | Inr _ \<Rightarrow> None)"

definition ValidateRuleSetMetadataUpdate ::
  "DnsRouter \<Rightarrow> rule_sets option \<Rightarrow> string \<Rightarrow> RuleSetMetadata \<Rightarrow> error option" where
  "ValidateRuleSetMetadataUpdate r router tag metadata =
     (if rtr_rawRules r = [] then None
      else if router = None then Some (New ''router service not found'')
      else
        let overrides = [tag \<mapsto> metadata]
        in if rtr_closing r then None
           else case resolveLegacyDNSMode router overrides (rtr_rawRules r) of
                  Inl e \<Rightarrow> Some e
                | Inr (candidateLegacyDNSMode, flags) \<Rightarrow>
                    if \<not> rtr_started r then
                      if \<not> candidateLegacyDNSMode
                      then err_of (validateLegacyDNSModeDisabledRules router overrides (rtr_rawRules r)) else None
                    else if rtr_legacyDNSMode r then
                      if \<not> candidateLegacyDNSMode \<and> mf_disabled flags then
                        case validateLegacyDNSModeDisabledRules router overrides (rtr_rawRules r) of
                          Inl e \<Rightarrow> Some e
                        | Inr _ \<Rightarrow> Some (New OptionLegacyDNSAddressFilter_message)
                      else None
                    else if candidateLegacyDNSMode then Some (New OptionLegacyDNSAddressFilter_message)
                    else err_of (validateLegacyDNSModeDisabledRules router overrides (rtr_rawRules r)))"

subsection \<open>References on rule sets\<close>

text \<open>The references a rule holds, and the rule sets of \<open>sets0\<close> with the counters \<open>f\<close>.\<close>

fun rule_refs :: "dns_rule \<Rightarrow> string list" where
  "rule_refs (DefaultRule d) = (case ruleSetItem d of None \<Rightarrow> [] | Some item \<Rightarrow> setList item)"
| "rule_refs (LogicalRule rules mode neg act) = concat (map rule_refs rules)"

abbreviation rules_refs :: "dns_rule list \<Rightarrow> string list" where
  "rules_refs rules \<equiv> concat (map rule_refs rules)"

definition counted :: "rule_sets \<Rightarrow> (string \<Rightarrow> int) \<Rightarrow> string list \<Rightarrow> rule_sets \<Rightarrow> bool" where
  "counted sets0 base tags sets \<longleftrightarrow>
     (\<forall>tag. 0 \<le> base tag \<and>
        (case sets0 tag of
           None \<Rightarrow> sets tag = None \<and> tag \<notin> set tags
         | Some s0 \<Rightarrow> \<exists>s. sets tag = Some s \<and> set_content s = set_content s0 \<and>
             set_refs s = base tag + int (count_list tags tag)))"

lemma countedD:
  assumes "counted sets0 base tags sets"
  shows "0 \<le> base tag" "sets0 tag = None \<Longrightarrow> sets tag = None \<and> tag \<notin> set tags"
    "sets0 tag = Some s0 \<Longrightarrow> \<exists>s. sets tag = Some s \<and> set_content s = set_content s0 \<and>
       set_refs s = base tag + int (count_list tags tag)"
  using assms unfolding counted_def by (auto dest: spec [of _ tag])

lemma counted_owned: "counted sets0 base tags sets \<Longrightarrow> (\<And>tag. count_list mine tag \<le> count_list tags tag) \<Longrightarrow> owned set_refs sets mine"
  unfolding owned_def
proof
  fix tag
  assume c: "counted sets0 base tags sets" and le: "\<And>tag. count_list mine tag \<le> count_list tags tag"
  show "case sets tag of None \<Rightarrow> tag \<notin> set mine | Some s \<Rightarrow> int (count_list mine tag) \<le> set_refs s"
    using countedD [OF c, of tag] le [of tag]
    by (cases "sets0 tag") (auto simp flip: count_list_0_iff)
qed

lemma counted_moved:
  assumes "counted sets0 base tags sets" "sets_moved sets sets' d"
    "\<And>tag. int (count_list tags' tag) = int (count_list tags tag) + d tag"
    "\<And>tag. sets tag = None \<Longrightarrow> tag \<notin> set tags'"
  shows "counted sets0 base tags' sets'"
  unfolding counted_def
proof (intro allI conjI)
  fix tag
  show "0 \<le> base tag" by (rule countedD(1) [OF assms(1)])
  show "case sets0 tag of None \<Rightarrow> sets' tag = None \<and> tag \<notin> set tags'
      | Some s0 \<Rightarrow> \<exists>s. sets' tag = Some s \<and> set_content s = set_content s0 \<and>
          set_refs s = base tag + int (count_list tags' tag)"
  proof (cases "sets0 tag")
    case None
    then show ?thesis using countedD(2) [OF assms(1) None] assms(4) moved_None [OF assms(2)] by simp
  next
    case (Some s0)
    obtain s where s: "sets tag = Some s" "set_content s = set_content s0" "set_refs s = base tag + int (count_list tags tag)"
      using countedD(3) [OF assms(1) Some] by blast
    then obtain s' where s': "sets' tag = Some s'" using moved_None [OF assms(2), of tag] by (cases "sets' tag") auto
    then show ?thesis using moved_Some [OF assms(2) s'] s assms(3) [of tag] Some by auto
  qed
qed

text \<open>Starting a rule that holds no reference takes references that closing it gives back.\<close>

lemma default_Start_counted:
  assumes "counted sets0 base tags sets" "rule_refs (DefaultRule d) = []"
  obtains err d' sets' where "default_Start E outbound transport sets d = Inr (err, d', sets')"
    "counted sets0 base (tags @ rule_refs (DefaultRule d')) sets'"
proof (cases "\<exists>es item. entries_Start E outbound transport (entries d) = Inr es \<and> ruleSetItem d = Some item")
  case True
  then obtain es item where it: "entries_Start E outbound transport (entries d) = Inr es" "ruleSetItem d = Some item" by blast
  then have fresh: "setList item = []" using assms(2) by simp
  have own: "owned set_refs sets (setList item)" using counted_owned [OF assms(1), of "[]"] fresh by simp
  show ?thesis
  proof (rule RuleSetItem_Start_owned [OF own])
    fix sets'
    assume "RuleSetItem_Start sets item = Inr (Some (rule_set_not_found (first_missing sets (tagList item))), item\<lparr>setList := []\<rparr>, sets')"
      and "sets_moved sets sets' (\<lambda>tag. - int (count_list (setList item) tag))"
    then show thesis
      using it fresh countedD(2) [OF assms(1)] countedD(3) [OF assms(1)]
      by (intro that [of "Some (rule_set_not_found (first_missing sets (tagList item)))"])
        (force simp: default_Start_def intro!: counted_moved [OF assms(1)])+
  next
    fix sets'
    assume none: "\<not> missing_tag sets (tagList item)"
      and "RuleSetItem_Start sets item = Inr (None, item\<lparr>setList := tagList item\<rparr>, sets')"
      and "sets_moved sets sets' (\<lambda>tag. int (count_list (tagList item) tag) - int (count_list (setList item) tag))"
    moreover have "tag \<notin> set (tags @ tagList item)" if "sets tag = None" for tag
      using that none countedD(2,3) [OF assms(1), of tag] by (cases "sets0 tag") (auto simp: missing_tag_def)
    ultimately show thesis
      using it fresh
      by (intro that [of None "d\<lparr>entries := es, ruleSetItem := Some (item\<lparr>setList := tagList item\<rparr>)\<rparr>" sets'])
        (auto simp: default_Start_def intro!: counted_moved [OF assms(1)])
  qed
next
  case False
  then show ?thesis
    using that assms by (cases "entries_Start E outbound transport (entries d)"; cases "ruleSetItem d")
      (auto simp: default_Start_def)
qed

lemma dns_Start_counted:
  "counted sets0 base tags sets \<Longrightarrow> rule_refs r = [] \<Longrightarrow>
     \<exists>err r' sets'. dns_Start E outbound transport sets r = Inr (err, r', sets') \<and>
       counted sets0 base (tags @ rule_refs r') sets'"
  "counted sets0 base tags sets \<Longrightarrow> rules_refs rs = [] \<Longrightarrow>
     \<exists>err rs' sets'. dns_Start_all E outbound transport sets rs = Inr (err, rs', sets') \<and>
       counted sets0 base (tags @ rules_refs rs') sets'"
proof (induction E outbound transport sets r and E outbound transport sets rs arbitrary: tags and tags
    rule: dns_Start_dns_Start_all.induct)
  case (1 E outbound transport sets d)
  then show ?case by (auto elim: default_Start_counted [of _ _ _ _ d E outbound transport])
next
  case (2 E outbound transport sets rules mode neg act)
  then show ?case by fastforce
next
  case (4 E outbound transport sets r rs)
  obtain err r' sets' where r: "dns_Start E outbound transport sets r = Inr (err, r', sets')"
    "counted sets0 base (tags @ rule_refs r') sets'"
    using "4.IH"(1) [OF "4.prems"(1)] "4.prems"(2) by auto
  have rest: "rules_refs rs = []" using "4.prems"(2) by simp
  show ?case
  proof (cases err)
    case (Some e)
    then show ?thesis using r by (simp add: rest)
  next
    case None
    obtain err2 rs' sets2 where "dns_Start_all E outbound transport sets' rs = Inr (err2, rs', sets2)"
      "counted sets0 base ((tags @ rule_refs r') @ rules_refs rs') sets2"
      using "4.IH"(2) [OF _ r(2) rest, of err] None by auto
    then show ?thesis using r(1) None by simp
  qed
qed auto

lemma start_rules_counted:
  "counted sets0 base tags sets \<Longrightarrow> rules_refs rs = [] \<Longrightarrow>
     \<exists>err rs' sets'. start_rules V sets i rs = Inr (err, rs', sets') \<and>
       counted sets0 base (tags @ rules_refs rs') sets'"
proof (induction rs arbitrary: sets i tags)
  case (Cons r rs)
  obtain err r' sets' where r: "dns_Start (re_env V) (re_outbound V) (re_transport V) sets r = Inr (err, r', sets')"
    "counted sets0 base (tags @ rule_refs r') sets'"
    using dns_Start_counted(1) [OF Cons.prems(1), of r "re_env V" "re_outbound V" "re_transport V"] Cons.prems(2) by auto
  have rest: "rules_refs rs = []" using Cons.prems(2) by simp
  show ?case
  proof (cases err)
    case (Some e)
    then show ?thesis using r by (simp add: rest)
  next
    case None
    obtain err2 rs' sets2 where "start_rules V sets' (Suc i) rs = Inr (err2, rs', sets2)"
      "counted sets0 base ((tags @ rule_refs r') @ rules_refs rs') sets2"
      using Cons.IH [OF r(2) rest] by blast
    then show ?thesis using r(1) None by simp
  qed
qed auto

lemma default_Close_counted:
  assumes "counted sets0 base (rule_refs (DefaultRule d) @ tags) sets"
  obtains d' sets' where "default_Close sets d = Inr (d', sets')" "rule_refs (DefaultRule d') = []"
    "counted sets0 base tags sets'"
proof (cases "ruleSetItem d")
  case (Some item)
  have "owned set_refs sets (setList item)" using counted_owned [OF assms, of "setList item"] Some by simp
  then obtain sets' where c: "RuleSetItem_Close sets item = Inr (item\<lparr>setList := []\<rparr>, sets')"
    "sets_moved sets sets' (\<lambda>tag. - int (count_list (setList item) tag))"
    using RuleSetItem_Close_owned by blast
  have "counted sets0 base tags sets'"
  proof (rule counted_moved [OF assms c(2)])
    show "tag \<notin> set tags" if "sets tag = None" for tag
      using countedD(2,3) [OF assms, of tag] that by (cases "sets0 tag") auto
  qed (simp add: Some)
  then show ?thesis using that c(1) Some by (auto simp: default_Close_def)
qed (use that assms in \<open>auto simp: default_Close_def\<close>)

lemma closeRules_counted:
  "counted sets0 base (rule_refs r @ tags) sets \<Longrightarrow>
     \<exists>r' sets'. dns_Close sets r = Inr (r', sets') \<and> rule_refs r' = [] \<and> counted sets0 base tags sets'"
  "counted sets0 base (rules_refs rs @ tags) sets \<Longrightarrow>
     \<exists>rs' sets'. closeRules sets rs = Inr (rs', sets') \<and> rules_refs rs' = [] \<and> counted sets0 base tags sets'"
proof (induction sets r and sets rs arbitrary: tags and tags rule: dns_Close_closeRules.induct)
  case (1 sets d)
  show ?case by (rule default_Close_counted [OF "1.prems"]) auto
next
  case (2 sets rules mode neg act)
  then show ?case by fastforce
next
  case (4 sets r rs)
  obtain r' sets' where r: "dns_Close sets r = Inr (r', sets')" "rule_refs r' = []"
    "counted sets0 base (rules_refs rs @ tags) sets'"
    using "4.IH"(1) [of "rules_refs rs @ tags"] "4.prems" by auto
  then show ?case using "4.IH"(2) [OF r(3)] by fastforce
qed auto

text \<open>Rules that were just built hold no reference.\<close>

lemma NewDNSRule_no_refs:
  "NewDNSRule E opts c legacy = Inr r \<Longrightarrow> rule_refs r = []"
  "NewLogicalDNSRule E opts legacy = Inr r \<Longrightarrow> rule_refs r = []"
proof (induction E opts c legacy and E opts legacy arbitrary: r and r rule: NewDNSRule_NewLogicalDNSRule.induct)
  case (1 E opts c legacy)
  show ?case
    using "1.prems" "1.IH"
    by (subst (asm) NewDNSRule.simps)
      (auto simp: NewDefaultDNSRule_def rule_set_block_def NewRuleSetItem_def bind_res_Inr split: if_splits sum.splits)
next
  case (2 E opts legacy)
  have "list_all (\<lambda>r. rule_refs r = []) (lr_rules r)"
    using "2.prems" "2.IH" by (subst (asm) NewLogicalDNSRule.simps) (auto simp: bind_res_Inr elim!: map_res_idx_all)
  then show ?case
    using "2.prems" by (subst (asm) NewLogicalDNSRule.simps) (auto simp: bind_res_Inr list_all_iff)
qed

lemma counted_self:
  assumes "counted sets0 base tags sets"
  shows "counted sets base tags sets"
  unfolding counted_def
proof
  fix tag
  show "0 \<le> base tag \<and> (case sets tag of None \<Rightarrow> sets tag = None \<and> tag \<notin> set tags
      | Some s0 \<Rightarrow> \<exists>s. sets tag = Some s \<and> set_content s = set_content s0 \<and>
          set_refs s = base tag + int (count_list tags tag))"
    using countedD [OF assms, of tag] by (cases "sets0 tag") auto
qed

lemma counted_lookup:
  assumes "counted sets0 base tags sets"
  shows "lookupDNSRuleSetMetadata (Some sets0) ov = lookupDNSRuleSetMetadata (Some sets) ov"
proof
  fix tag
  show "lookupDNSRuleSetMetadata (Some sets0) ov tag = lookupDNSRuleSetMetadata (Some sets) ov tag"
    using countedD(2,3) [OF assms, of tag]
    by (cases "sets0 tag") (auto simp: lookupDNSRuleSetMetadata_def dest!: arg_cong [where f = set_Metadata]
        simp: set_content_simps split: option.splits)
qed

lemma counted_swap:
  assumes "counted sets0 base (xs @ ys) sets"
  shows "counted sets0 base (ys @ xs) sets"
proof (rule counted_moved [OF assms, of sets "\<lambda>_. 0"])
  show "tag \<notin> set (ys @ xs)" if "sets tag = None" for tag
    using countedD(2,3) [OF assms, of tag] that by (cases "sets0 tag") auto
qed (auto simp: moved_def)

lemma parse_rules_no_refs: "parse_rules V router r = Inr (newRules, x) \<Longrightarrow> rules_refs newRules = []"
  using NewDNSRule_no_refs(1) by (fastforce simp: parse_rules_def bind_res_Inr map_res_idx_Inr list_all2_conv_all_nth in_set_conv_nth)

text \<open>
  Building never panics; when it fails, the counters are as before, and when it succeeds they have grown by the
  references of the new rules.
\<close>

lemma buildRules_counted:
  assumes "counted sets0 base tags sets"
  obtains e sets' where "buildRules V startRules r sets = Inr (Inl e, sets')" "counted sets0 base tags sets'"
  | newRules legacy flags parsed sets' where "buildRules V startRules r sets = Inr (Inr (newRules, legacy, flags), sets')"
    "counted sets0 base (rules_refs newRules @ tags) sets'" "parse_rules V (Some sets) r = Inr (parsed, legacy, flags)"
proof (cases "parse_rules V (Some sets) r")
  case (Inl e)
  then show ?thesis using that(1) assms by (simp add: buildRules_def)
next
  case (Inr p)
  obtain newRules legacy flags where p: "p = (newRules, legacy, flags)" by (cases p)
  have fresh: "rules_refs newRules = []" using parse_rules_no_refs Inr p by simp
  show ?thesis
  proof (cases startRules)
    case False
    then show ?thesis using that(2) [of newRules legacy flags sets newRules] Inr p assms fresh by (simp add: buildRules_def)
  next
    case True
    obtain err rs' sets' where st: "start_rules V sets 0 newRules = Inr (err, rs', sets')"
      "counted sets0 base (tags @ rules_refs rs') sets'"
      using start_rules_counted [OF assms fresh] by blast
    have c: "counted sets0 base (rules_refs rs' @ tags) sets'"
      using st(2) by (rule counted_swap)
    show ?thesis
    proof (cases err)
      case None
      then show ?thesis using that(2) [of rs' legacy flags sets' newRules] Inr p True st(1) c by (simp add: buildRules_def)
    next
      case (Some e)
      obtain rs'' sets'' where "closeRules sets' rs' = Inr (rs'', sets'')" "counted sets0 base tags sets''"
        using closeRules_counted(2) [OF c] by blast
      then show ?thesis using that(1) [of e sets''] Inr p True st(1) Some by (simp add: buildRules_def)
    qed
  qed
qed

subsection \<open>The router among the rule sets\<close>

fun set_tag :: "rule_set \<Rightarrow> string" where
  "set_tag (LocalSet s) = ls_tag s"
| "set_tag (RemoteSet s) = so_Tag (rm_options s)"

text \<open>A rule set after an update: the metadata is the same or was validated.\<close>

definition validated :: "rs_env \<Rightarrow> rule_set \<Rightarrow> rule_set \<Rightarrow> bool" where
  "validated R s s' \<longleftrightarrow> set_refs s' = set_refs s \<and> set_tag s' = set_tag s \<and>
     (set_Metadata s' = set_Metadata s \<or> validateRuleSetMetadataUpdate R (set_tag s) (set_Metadata s') = None)"

lemma validated_refl [simp]: "validated R s s"
  by (simp add: validated_def)

lemma validated_trans: "validated R s s' \<Longrightarrow> validated R s' s'' \<Longrightarrow> validated R s s''"
  by (auto simp: validated_def)

lemma Local_reloadFile_validated:
  assumes "Local_reloadFile R s path = (e, s', called)"
  shows "validated R (LocalSet s) (LocalSet s')"
proof -
  have "validated R (LocalSet s) (LocalSet s')" if "Local_reloadRules R s opts = (e, s', called)" for opts
    by (rule Local_reloadRules_cases [of R s opts]) (use that in \<open>auto simp: validated_def\<close>)
  then show ?thesis using assms by (auto simp: Local_reloadFile_def split: sum.splits)
qed

lemma Remote_loadBytes_validated:
  "Remote_loadBytes R s content = (e, s', called) \<Longrightarrow> validated R (RemoteSet s) (RemoteSet s')"
  by (rule Remote_loadBytes_cases [of R s content]) (auto simp: validated_def)

lemma Remote_fetch_validated:
  assumes "Remote_fetch R now http cache s = (e, s', cache', called)"
  shows "validated R (RemoteSet s) (RemoteSet s')"
proof (rule Remote_fetch_cases [of R now http cache s])
  fix content s1 header s2 cache2 called2
  assume load: "Remote_loadBytes R s content = (None, s1, called2)"
    and "Remote_updated now header content cache s1 = (s2, cache2)"
    and "Remote_fetch R now http cache s = (None, s2, cache2, called2)"
  then have "validated R (RemoteSet s1) (RemoteSet s')"
    using assms by (auto simp: Remote_updated_def Let_def validated_def)
  with Remote_loadBytes_validated [OF load] show ?thesis by (rule validated_trans)
qed (use assms in \<open>auto simp: validated_def\<close>)

lemma Remote_updateOnce_validated:
  assumes "Remote_updateOnce R now http cache s = (s', cache', called)"
  shows "validated R (RemoteSet s) (RemoteSet s')"
proof -
  obtain e s1 cache1 called1 where f: "Remote_fetch R now http cache s = (e, s1, cache1, called1)"
    by (metis prod_cases4)
  have "validated R (RemoteSet s1) (RemoteSet s')"
    using assms f by (auto simp: Remote_updateOnce_def validated_def split: option.splits)
  with Remote_fetch_validated [OF f] show ?thesis by (rule validated_trans)
qed

text \<open>
  A running router and the rule sets, whose updates it validates.  \<open>base\<close> counts the references that the items of
  other rules hold.
\<close>

abbreviation validator :: "rs_env \<Rightarrow> DnsRouter \<Rightarrow> rule_sets \<Rightarrow> rs_env" where
  "validator R r sets \<equiv> R\<lparr>UpdateValidator := Some (ValidateRuleSetMetadataUpdate r (Some sets))\<rparr>"

inductive router_run :: "router_env \<Rightarrow> rs_env \<Rightarrow> (string \<Rightarrow> int) \<Rightarrow> DnsRouter \<Rightarrow> rule_sets \<Rightarrow> bool" for V R base where
  new: "(\<forall>tag. 0 \<le> base tag) \<Longrightarrow> (\<forall>tag s. sets tag = Some s \<longrightarrow> set_refs s = base tag \<and> set_tag s = tag) \<Longrightarrow>
    router_run V R base (NewDnsRouter transport strategy) sets"
| initialize: "router_run V R base r sets \<Longrightarrow> \<not> rtr_started r \<Longrightarrow>
    DnsRouter_Initialize V rules r sets = Inr (err, r', sets') \<Longrightarrow> router_run V R base r' sets'"
| start: "router_run V R base r sets \<Longrightarrow> \<not> rtr_started r \<Longrightarrow>
    DnsRouter_Start V stage r sets = Inr (err, r', sets') \<Longrightarrow> router_run V R base r' sets'"
| close: "router_run V R base r sets \<Longrightarrow> DnsRouter_Close r sets = Inr (r', sets') \<Longrightarrow> router_run V R base r' sets'"
| local_reload: "router_run V R base r sets \<Longrightarrow> sets tag = Some (LocalSet s) \<Longrightarrow>
    Local_reloadFile (validator R r sets) s path = (err, s', called) \<Longrightarrow>
    router_run V R base r (sets(tag \<mapsto> LocalSet s'))"
| remote_update: "router_run V R base r sets \<Longrightarrow> sets tag = Some (RemoteSet s) \<Longrightarrow>
    Remote_updateOnce (validator R r sets) now http cache s = (s', cache', called) \<Longrightarrow>
    router_run V R base r (sets(tag \<mapsto> RemoteSet s'))"

definition mode_ok :: "bool \<Rightarrow> rule_sets \<Rightarrow> dns_rule_options list \<Rightarrow> bool" where
  "mode_ok legacy sets raw \<longleftrightarrow>
     (if legacy then \<exists>f. dnsRuleModeRequirements (Some sets) Map.empty raw = Inr f \<and> \<not> mf_disabled f
      else (\<exists>f. resolveLegacyDNSMode (Some sets) Map.empty raw = Inr (False, f)) \<and>
        validateLegacyDNSModeDisabledRules (Some sets) Map.empty raw = Inr ())"

definition router_inv :: "(string \<Rightarrow> int) \<Rightarrow> DnsRouter \<Rightarrow> rule_sets \<Rightarrow> bool" where
  "router_inv base r sets \<longleftrightarrow> counted sets base (rules_refs (rtr_rules r)) sets \<and>
     (\<forall>tag s. sets tag = Some s \<longrightarrow> set_tag s = tag) \<and>
     (\<not> rtr_started r \<or> rtr_closing r \<longrightarrow> rtr_rules r = []) \<and>
     (rtr_started r \<and> \<not> rtr_closing r \<longrightarrow> mode_ok (rtr_legacyDNSMode r) sets (rtr_rawRules r))"

lemma mode_ok_lookup:
  "lookupDNSRuleSetMetadata (Some sets) Map.empty = lookupDNSRuleSetMetadata (Some sets') Map.empty \<Longrightarrow>
     mode_ok legacy sets raw = mode_ok legacy sets' raw"
  by (simp add: mode_ok_def mode_lookup [of sets "Map.empty" sets' "Map.empty"])

lemma parse_rules_mode: "parse_rules V (Some sets) r = Inr (parsed, legacy, flags) \<Longrightarrow> mode_ok legacy sets (rtr_rawRules r)"
  by (auto simp: parse_rules_def bind_res_Inr mode_ok_def split: if_splits dest: resolveLegacyDNSMode_cases)

lemma counted_tags:
  "counted sets0 base tags sets \<Longrightarrow> (\<And>tag s. sets0 tag = Some s \<Longrightarrow> set_tag s = tag) \<Longrightarrow> sets tag = Some s \<Longrightarrow> set_tag s = tag"
proof -
  assume c: "counted sets0 base tags sets" and t: "\<And>tag s. sets0 tag = Some s \<Longrightarrow> set_tag s = tag" and s: "sets tag = Some s"
  have content: "set_tag (set_content s) = set_tag s" for s by (cases s) simp_all
  show "set_tag s = tag"
    using countedD(2,3) [OF c, of tag] t [of tag] s content by (cases "sets0 tag") (auto, metis)
qed

text \<open>The steps of the router itself.\<close>

lemma router_inv_step:
  assumes "router_inv base r sets" "counted sets base (rules_refs (rtr_rules r')) sets'"
    "\<not> rtr_started r' \<or> rtr_closing r' \<Longrightarrow> rtr_rules r' = []"
    "rtr_started r' \<Longrightarrow> \<not> rtr_closing r' \<Longrightarrow> mode_ok (rtr_legacyDNSMode r') sets (rtr_rawRules r')"
  shows "router_inv base r' sets'"
  using assms counted_self [OF assms(2)] counted_tags [OF assms(2)] mode_ok_lookup [OF counted_lookup [OF assms(2)]]
  unfolding router_inv_def by blast

lemma Initialize_inv:
  assumes "router_inv base r sets" "\<not> rtr_started r" "DnsRouter_Initialize V rules r sets = Inr (err, r', sets')"
  shows "router_inv base r' sets'"
proof -
  have c: "counted sets base [] sets" and no: "rtr_rules r = []" using assms(1,2) by (auto simp: router_inv_def)
  let ?r = "r\<lparr>rtr_rawRules := rules\<rparr>"
  have "counted sets base [] sets' \<and> r' = ?r"
  proof (rule buildRules_counted [OF c, of V False ?r])
    fix newRules legacy flags sets1
    assume b: "buildRules V False ?r sets = Inr (Inr (newRules, legacy, flags), sets1)"
      "counted sets base (rules_refs newRules @ []) sets1"
    obtain rs sets2 where "closeRules sets1 newRules = Inr (rs, sets2)" "counted sets base [] sets2"
      using closeRules_counted(2) [OF b(2)] by blast
    then show ?thesis using assms(3) b(1) by (simp add: DnsRouter_Initialize_def)
  qed (use assms(3) in \<open>auto simp: DnsRouter_Initialize_def\<close>)
  then show ?thesis using assms(2) no by (intro router_inv_step [OF assms(1)]) auto
qed

lemma Start_inv:
  assumes "router_inv base r sets" "\<not> rtr_started r"
  obtains err r' sets' where "DnsRouter_Start V stage r sets = Inr (err, r', sets')" "router_inv base r' sets'"
    "err \<noteq> None \<Longrightarrow> r' = r" "counted sets base (rules_refs (rtr_rules r')) sets'"
proof (cases "stage = StartStateStart")
  case False
  then show ?thesis using that [of None r sets] assms(1) by (simp add: DnsRouter_Start_def router_inv_def)
next
  case True
  have c: "counted sets base [] sets" and no: "rtr_rules r = []" using assms by (auto simp: router_inv_def)
  have same: "router_inv base r sets'" if "counted sets base [] sets'" for sets'
    using assms(2) no that by (intro router_inv_step [OF assms(1)]) auto
  show ?thesis
  proof (rule buildRules_counted [OF c, of V True r])
    fix e sets'
    assume "buildRules V True r sets = Inr (Inl e, sets')" "counted sets base [] sets'"
    then show thesis using that [of "Some e" r sets'] same True no by (simp add: DnsRouter_Start_def)
  next
    fix newRules legacy flags parsed sets1
    assume b: "buildRules V True r sets = Inr (Inr (newRules, legacy, flags), sets1)"
      "counted sets base (rules_refs newRules @ []) sets1" "parse_rules V (Some sets) r = Inr (parsed, legacy, flags)"
    show thesis
    proof (cases "rtr_closing r")
      case closing: True
      obtain rs sets2 where "closeRules sets1 newRules = Inr (rs, sets2)" "counted sets base [] sets2"
        using closeRules_counted(2) [OF b(2)] by blast
      then show thesis using that [of None r sets2] same True b(1) closing no by (simp add: DnsRouter_Start_def)
    next
      case False
      let ?r = "r\<lparr>rtr_rules := newRules, rtr_legacyDNSMode := legacy, rtr_started := True\<rparr>"
      have "router_inv base ?r sets1"
        using b False parse_rules_mode by (intro router_inv_step [OF assms(1)]) auto
      then show thesis using that [of None ?r sets1] True b(1,2) False by (simp add: DnsRouter_Start_def)
    qed
  qed
qed

lemma Close_inv:
  assumes "router_inv base r sets"
  obtains r' sets' where "DnsRouter_Close r sets = Inr (r', sets')" "router_inv base r' sets'" "rtr_closing r'"
proof (cases "rtr_closing r")
  case False
  obtain rs sets' where c: "closeRules sets (rtr_rules r) = Inr (rs, sets')" "counted sets base [] sets'"
    using closeRules_counted(2) [of sets base "rtr_rules r" "[]" sets] assms by (auto simp: router_inv_def)
  let ?r = "r\<lparr>rtr_closing := True, rtr_rules := []\<rparr>"
  have "router_inv base ?r sets'" using c(2) by (intro router_inv_step [OF assms]) auto
  then show ?thesis using that [of ?r sets'] c(1) False by (simp add: DnsRouter_Close_def)
qed (use that assms in \<open>simp add: DnsRouter_Close_def\<close>)

text \<open>An update that the router accepts keeps its mode fitting.\<close>

lemma accepted_mode:
  assumes "ValidateRuleSetMetadataUpdate r (Some sets) tag metadata = None" "rtr_started r" "\<not> rtr_closing r"
    "lookupDNSRuleSetMetadata (Some sets) [tag \<mapsto> metadata] = lookupDNSRuleSetMetadata (Some sets') Map.empty"
  shows "mode_ok (rtr_legacyDNSMode r) sets' (rtr_rawRules r)"
proof (cases "rtr_rawRules r = []")
  case True
  then show ?thesis
    by (simp add: mode_ok_def dnsRuleModeRequirements_def resolveLegacyDNSMode_def noModeFlags_def
        validateLegacyDNSModeDisabledRules_def)
next
  case False
  note mode = mode_lookup [OF assms(4)]
  obtain cand flags where res: "resolveLegacyDNSMode (Some sets') Map.empty (rtr_rawRules r) = Inr (cand, flags)"
    using assms(1-3) False by (auto simp: ValidateRuleSetMetadataUpdate_def Let_def mode split: sum.splits)
  show ?thesis
    using assms(1-3) False res resolveLegacyDNSMode_cases [OF res]
    by (auto simp: ValidateRuleSetMetadataUpdate_def Let_def mode mode_ok_def err_of_def split: if_splits sum.splits)
qed

lemma update_inv:
  assumes "router_inv base r sets" "sets tag = Some s" "validated (validator R r sets) s s'"
  shows "router_inv base r (sets(tag \<mapsto> s'))"
proof -
  let ?sets = "sets(tag \<mapsto> s')"
  have inv: "counted sets base (rules_refs (rtr_rules r)) sets" "set_tag s = tag"
    "rtr_started r \<Longrightarrow> \<not> rtr_closing r \<Longrightarrow> mode_ok (rtr_legacyDNSMode r) sets (rtr_rawRules r)"
    using assms(1,2) by (auto simp: router_inv_def)
  have "counted ?sets base (rules_refs (rtr_rules r)) ?sets"
    unfolding counted_def
  proof
    fix t
    show "0 \<le> base t \<and> (case ?sets t of None \<Rightarrow> ?sets t = None \<and> t \<notin> set (rules_refs (rtr_rules r))
      | Some s0 \<Rightarrow> \<exists>s. ?sets t = Some s \<and> set_content s = set_content s0 \<and>
          set_refs s = base t + int (count_list (rules_refs (rtr_rules r)) t))"
      using countedD [OF inv(1), of t] assms(2,3) by (cases "sets t") (auto simp: validated_def)
  qed
  moreover have "mode_ok (rtr_legacyDNSMode r) ?sets (rtr_rawRules r)" if up: "rtr_started r" "\<not> rtr_closing r"
  proof (cases "set_Metadata s' = set_Metadata s")
    case True
    have "lookupDNSRuleSetMetadata (Some sets) Map.empty = lookupDNSRuleSetMetadata (Some ?sets) Map.empty"
      using True assms(2) by (auto simp: lookupDNSRuleSetMetadata_def fun_eq_iff)
    then show ?thesis using inv(3) [OF up] mode_ok_lookup by blast
  next
    case False
    then have "ValidateRuleSetMetadataUpdate r (Some sets) tag (set_Metadata s') = None"
      using assms(3) inv(2) by (auto simp: validated_def validateRuleSetMetadataUpdate_def)
    moreover have "lookupDNSRuleSetMetadata (Some sets) [tag \<mapsto> set_Metadata s'] = lookupDNSRuleSetMetadata (Some ?sets) Map.empty"
      by (auto simp: lookupDNSRuleSetMetadata_def fun_eq_iff)
    ultimately show ?thesis by (rule accepted_mode [OF _ up])
  qed
  ultimately show ?thesis using assms inv(2) by (auto simp: router_inv_def validated_def)
qed

lemma router_run_inv: "router_run V R base r sets \<Longrightarrow> router_inv base r sets"
proof (induction rule: router_run.induct)
  case (new sets transport strategy)
  then show ?case by (auto simp: router_inv_def counted_def NewDnsRouter_def split: option.split)
next
  case (initialize r sets rules err r' sets')
  show ?case by (rule Initialize_inv [OF initialize.IH initialize.hyps(2,3)])
next
  case (start r sets stage err r' sets')
  show ?case by (rule Start_inv [OF start.IH start.hyps(2), of V stage]) (use start.hyps(3) in auto)
next
  case (close r sets r' sets')
  show ?case by (rule Close_inv [OF close.IH]) (use close.hyps(2) in auto)
next
  case (local_reload r sets tag s path err s' called)
  show ?case by (rule update_inv [OF local_reload.IH local_reload.hyps(2) Local_reloadFile_validated [OF local_reload.hyps(3)]])
next
  case (remote_update r sets tag s now http cache s' cache' called)
  show ?case by (rule update_inv [OF remote_update.IH remote_update.hyps(2) Remote_updateOnce_validated [OF remote_update.hyps(3)]])
qed


subsection \<open>The rules fit the mode\<close>

definition evaluates :: "dns_rule \<Rightarrow> bool" where
  "evaluates r \<longleftrightarrow> (\<exists>server opts. dns_Action r = Some (RuleActionEvaluate server opts))"

definition matches_response :: "dns_rule \<Rightarrow> bool" where
  "matches_response r \<longleftrightarrow> \<not> all_defaults (\<lambda>d. \<not> matchResponse d) r"

fun action_strategy :: "rule_action option \<Rightarrow> domain_strategy" where
  "action_strategy (Some (RuleActionDNSRoute server opts)) = a_Strategy opts"
| "action_strategy (Some (RuleActionEvaluate server opts)) = a_Strategy opts"
| "action_strategy (Some (RuleActionDNSRouteOptions opts)) = a_Strategy opts"
| "action_strategy _ = DomainStrategyAsIS"

definition fits_mode :: "TransportManager option \<Rightarrow> bool \<Rightarrow> dns_rule list \<Rightarrow> bool" where
  "fits_mode transport legacy rules \<longleftrightarrow>
     (\<forall>i < length rules.
        (if legacy then \<not> evaluates (rules ! i) \<and> dns_Action (rules ! i) \<noteq> Some RuleActionRespond \<and> \<not> matches_response (rules ! i)
         else action_strategy (dns_Action (rules ! i)) = DomainStrategyAsIS \<and>
           (matches_response (rules ! i) \<or> dns_Action (rules ! i) = Some RuleActionRespond \<longrightarrow> (\<exists>j < i. evaluates (rules ! j)))) \<and>
        (\<forall>server opts m t. dns_Action (rules ! i) = Some (RuleActionEvaluate server opts) \<and> transport = Some m \<and>
           TransportManager_Get server m = Some t \<longrightarrow> c_Type t \<noteq> DNSTypeFakeIP))"

text \<open>What building takes over from the options.\<close>

lemma list_all2_Inr_all:
  assumes "list_all2 (\<lambda>x y. f x = Inr y) xs ys" "\<And>x y. x \<in> set xs \<Longrightarrow> f x = Inr y \<Longrightarrow> P y \<longleftrightarrow> Q x"
  shows "list_all P ys \<longleftrightarrow> (\<forall>x \<in> set xs. Q x)"
  using assms by (induction rule: list_all2_induct) auto

lemma NewDNSRule_matches_response:
  "NewDNSRule E opts c legacy = Inr r \<Longrightarrow> matches_response r \<longleftrightarrow> (\<exists>d \<in> set (opt_defaults opts). dr_MatchResponse d)"
  "NewLogicalDNSRule E opts legacy = Inr r \<Longrightarrow> or_Type opts = RuleTypeLogical \<Longrightarrow>
     matches_response r \<longleftrightarrow> (\<exists>d \<in> set (opt_defaults opts). dr_MatchResponse d)"
proof (induction E opts c legacy and E opts legacy arbitrary: r and r rule: NewDNSRule_NewLogicalDNSRule.induct)
  case (1 E opts c legacy)
  show ?case
    using "1.prems" "1.IH"
    by (subst (asm) NewDNSRule.simps)
      (auto simp: NewDefaultDNSRule_def bind_res_Inr opt_defaults.simps [of opts] matches_response_def split: if_splits sum.splits)
next
  case (2 E opts legacy)
  obtain rules mode act where r: "r = LogicalRule rules mode (or_Invert opts) act"
    "list_all2 (\<lambda>sub r. bind_res (validateNoNestedDNSRuleActions sub True) (\<lambda>_. NewDNSRule E sub False legacy) = Inr r)
       (or_Rules opts) rules"
    using "2.prems"(1) by (subst (asm) NewLogicalDNSRule.simps) (auto simp: bind_res_Inr map_res_idx_Inr)
  have "list_all (\<lambda>r. \<not> matches_response r) rules \<longleftrightarrow>
      (\<forall>sub \<in> set (or_Rules opts). \<not> (\<exists>d \<in> set (opt_defaults sub). dr_MatchResponse d))"
    by (rule list_all2_Inr_all [OF r(2)]) (use "2.IH" in \<open>auto simp: bind_res_Inr\<close>)
  then show ?case
    using "2.prems"(2) r(1) by (auto simp: matches_response_def opt_defaults.simps [of opts] list_all_iff)
qed

lemma NewDNSRule_top:
  assumes "NewDNSRule E opts True legacy = Inr r"
  shows "or_Type opts = [] \<or> or_Type opts = RuleTypeDefault \<or> or_Type opts = RuleTypeLogical"
    "NewDNSRuleAction (opt_action opts) = Inr (dns_Action r)"
    "da_Action (opt_action opts) = RuleActionTypeEvaluate \<Longrightarrow> do_Server (da_RouteOptions (opt_action opts)) \<noteq> []"
proof -
  show "or_Type opts = [] \<or> or_Type opts = RuleTypeDefault \<or> or_Type opts = RuleTypeLogical"
    using assms by (subst (asm) NewDNSRule.simps) (auto split: if_splits)
  show "NewDNSRuleAction (opt_action opts) = Inr (dns_Action r)"
    using assms by (subst (asm) NewDNSRule.simps)
      (auto simp: opt_action_def NewDefaultDNSRule_def NewLogicalDNSRule.simps bind_res_Inr split: if_splits sum.splits)
  show "do_Server (da_RouteOptions (opt_action opts)) \<noteq> []" if "da_Action (opt_action opts) = RuleActionTypeEvaluate"
    using assms that by (subst (asm) NewDNSRule.simps)
      (auto simp: opt_action_def dns_action_checks_def guard_res_def bind_res_Inr split: if_splits sum.splits)
qed

lemma built_action:
  assumes "NewDNSRuleAction act = Inr a"
  shows "a = Some (RuleActionEvaluate server o1) \<longrightarrow> da_Action act = RuleActionTypeEvaluate \<and> server = do_Server (da_RouteOptions act)"
    "(\<exists>server opts. a = Some (RuleActionEvaluate server opts)) \<longleftrightarrow> da_Action act = RuleActionTypeEvaluate"
    "a = Some RuleActionRespond \<longleftrightarrow> da_Action act = RuleActionTypeRespond"
    "\<not> dnsRuleActionHasStrategy act \<Longrightarrow> action_strategy a = DomainStrategyAsIS"
  using assms
  by (auto simp: NewDNSRuleAction_def Let_def action_types dnsRuleActionHasStrategy_def dns_route_options_def split: if_splits)

lemma dnsRuleActionType_opt:
  assumes "or_Type opts = [] \<or> or_Type opts = RuleTypeDefault \<or> or_Type opts = RuleTypeLogical" "t \<noteq> RuleActionTypeRoute" "t \<noteq> []"
  shows "dnsRuleActionType opts = t \<longleftrightarrow> da_Action (opt_action opts) = t"
    "dnsRuleActionServer opts = do_Server (da_RouteOptions (opt_action opts))"
  using assms by (auto simp: dnsRuleActionType_def dnsRuleActionServer_def opt_action_def)

lemma built_evaluates:
  assumes "NewDNSRule E opts True legacy = Inr r"
  shows "evaluates r \<longleftrightarrow> dnsRuleActionType opts = RuleActionTypeEvaluate"
    "dns_Action r = Some (RuleActionEvaluate server o1) \<Longrightarrow> dnsRuleActionServer opts = server \<and> server \<noteq> []"
proof -
  note top = NewDNSRule_top [OF assms] and ty = dnsRuleActionType_opt [OF NewDNSRule_top(1) [OF assms], of RuleActionTypeEvaluate]
  show "evaluates r \<longleftrightarrow> dnsRuleActionType opts = RuleActionTypeEvaluate"
    using built_action(2) [OF top(2)] ty(1) by (simp add: evaluates_def action_types)
  show "dns_Action r = Some (RuleActionEvaluate server o1) \<Longrightarrow> dnsRuleActionServer opts = server \<and> server \<noteq> []"
    using built_action(1) [OF top(2), of server o1] top(3) ty(2) by (auto simp: action_types)
qed

lemma built_legacy:
  assumes "NewDNSRule E opts True legacy = Inr r" "dnsRuleModeRequirementsInRule router ov opts = Inr f"
  shows "\<not> mf_disabled f \<Longrightarrow> \<not> evaluates r \<and> dns_Action r \<noteq> Some RuleActionRespond \<and> \<not> matches_response r"
    "\<not> (mf_neededFromStrategy f \<and> mf_needed f) \<Longrightarrow> action_strategy (dns_Action r) = DomainStrategyAsIS"
proof -
  note top = NewDNSRule_top [OF assms(1)]
  note act = mode_of_action [OF assms(2) top(1)] and built = built_action [OF top(2)]
  have "mf_disabled f" if m: "matches_response r"
  proof -
    obtain d where d: "d \<in> set (opt_defaults opts)" "dr_MatchResponse d"
      using NewDNSRule_matches_response(1) [OF assms(1)] m by blast
    obtain fd where "dnsRuleModeRequirementsInDefaultRule router ov d = Inr fd" "mode_le fd f"
      using mode_of_defaults [OF assms(2) d(1)] by blast
    then show ?thesis using d(2)
      by (auto simp: dnsRuleModeRequirementsInDefaultRule_def Let_def map_sum_Inr_iff mode_le_def
          defaultRuleDisablesLegacyDNSMode_def split: if_splits)
  qed
  then show "\<not> mf_disabled f \<Longrightarrow> \<not> evaluates r \<and> dns_Action r \<noteq> Some RuleActionRespond \<and> \<not> matches_response r"
    using act(1) built(2,3) by (auto simp: evaluates_def)
  show "\<not> (mf_neededFromStrategy f \<and> mf_needed f) \<Longrightarrow> action_strategy (dns_Action r) = DomainStrategyAsIS"
    using act(2) built(4) by blast
qed

lemma built_checked:
  assumes "NewDNSRule E opts True legacy = Inr r" "validateLegacyDNSModeDisabledRuleTree router ov opts = Inr b"
    "matches_response r \<or> dns_Action r = Some RuleActionRespond"
  shows b
  using assms(3)
proof
  note top = NewDNSRule_top [OF assms(1)]
  show "dns_Action r = Some RuleActionRespond \<Longrightarrow> b"
    using validate_of_action [OF assms(2) top(1)] built_action(3) [OF top(2)] by simp
  assume "matches_response r"
  then obtain d where d: "d \<in> set (opt_defaults opts)" "dr_MatchResponse d"
    using NewDNSRule_matches_response(1) [OF assms(1)] by blast
  then show b using validate_of_defaults [OF assms(2) d(1)]
    by (auto simp: validateLegacyDNSModeDisabledDefaultRule_def bind_res_Inr split: if_splits)
qed

lemma parse_rules_fits:
  assumes "parse_rules V router r = Inr (rules, legacy, flags)"
  shows "fits_mode (rtr_transport r) legacy rules"
  unfolding fits_mode_def
proof (intro allI impI conjI)
  let ?raw = "rtr_rawRules r"
  from assms have res: "resolveLegacyDNSMode router Map.empty ?raw = Inr (legacy, flags)"
    and val: "\<not> legacy \<Longrightarrow> validate_rules router Map.empty 0 False ?raw = Inr ()"
    and ev: "validate_evaluate (rtr_transport r) 0 ?raw = Inr ()"
    and new: "list_all2 (\<lambda>opts rule. NewDNSRule (re_env V) opts True legacy = Inr rule) ?raw rules"
    by (auto simp: parse_rules_def bind_res_Inr map_res_idx_Inr validateLegacyDNSModeDisabledRules_def
        validateEvaluateFakeIPRules_def split: if_splits)
  note mode = resolveLegacyDNSMode_cases [OF res]
  have built: "NewDNSRule (re_env V) (?raw ! i) True legacy = Inr (rules ! i) \<and> i < length ?raw \<and> ?raw ! i \<in> set ?raw"
    if "i < length rules" for i
    using new that by (auto simp: list_all2_conv_all_nth)
  fix i
  assume i: "i < length rules"
  note b = built [OF i, THEN conjunct1]
  obtain f where f: "dnsRuleModeRequirementsInRule router Map.empty (?raw ! i) = Inr f" "mode_le f flags"
    using mode_of_rules [OF mode(1)] built [OF i] by blast
  show "if legacy then \<not> evaluates (rules ! i) \<and> dns_Action (rules ! i) \<noteq> Some RuleActionRespond \<and> \<not> matches_response (rules ! i)
      else action_strategy (dns_Action (rules ! i)) = DomainStrategyAsIS \<and>
        (matches_response (rules ! i) \<or> dns_Action (rules ! i) = Some RuleActionRespond \<longrightarrow> (\<exists>j < i. evaluates (rules ! j)))"
  proof (cases legacy)
    case True
    then show ?thesis using built_legacy(1) [OF b f(1)] f(2) mode(2) by (auto simp: mode_le_def)
  next
    case False
    obtain need where need: "validateLegacyDNSModeDisabledRuleTree router Map.empty (?raw ! i) = Inr need"
      "need \<Longrightarrow> \<exists>j < i. dnsRuleActionType (?raw ! j) = RuleActionTypeEvaluate"
      using validate_rules_nth [OF val [OF False], of i] built [OF i] by auto
    have "\<exists>j < i. evaluates (rules ! j)" if need
      using need(2) [OF that] built_evaluates(1) built i by (meson less_trans)
    then show ?thesis
      using built_legacy(2) [OF b f(1)] built_checked [OF b need(1)] f(2) mode(2,3) False by (auto simp: mode_le_def)
  qed
  fix server opts m t
  assume "dns_Action (rules ! i) = Some (RuleActionEvaluate server opts) \<and> rtr_transport r = Some m \<and>
      TransportManager_Get server m = Some t"
  then show "c_Type t \<noteq> DNSTypeFakeIP"
    using validate_evaluate_nth [OF ev, of "?raw ! i" m t] built [OF i] built_evaluates [OF b] by (auto simp: evaluates_def)
qed

text \<open>Starting keeps the action of a rule and what it matches.\<close>

abbreviation same_kind :: "dns_rule \<Rightarrow> dns_rule \<Rightarrow> bool" where
  "same_kind r r' \<equiv> dns_Action r' = dns_Action r \<and> matches_response r' = matches_response r"

lemma fits_mode_same:
  "list_all2 same_kind rules rules' \<Longrightarrow> fits_mode transport legacy rules' = fits_mode transport legacy rules"
proof -
  assume a: "list_all2 same_kind rules rules'"
  have len: "length rules' = length rules" using a by (simp add: list_all2_lengthD)
  have same: "evaluates (rules' ! i) = evaluates (rules ! i)" "dns_Action (rules' ! i) = dns_Action (rules ! i)"
    "matches_response (rules' ! i) = matches_response (rules ! i)" if "i < length rules" for i
    using a that by (auto simp: list_all2_conv_all_nth evaluates_def)
  have before: "(\<exists>j < i. evaluates (rules' ! j)) \<longleftrightarrow> (\<exists>j < i. evaluates (rules ! j))" if "i < length rules" for i
    using same(1) that by (metis less_trans)
  show ?thesis unfolding fits_mode_def len by (rule all_cong) (simp only: same before)
qed

lemma dns_Start_same_kind:
  "dns_Start E outbound transport sets r = Inr (err, r', sets') \<Longrightarrow> same_kind r r'"
  "dns_Start_all E outbound transport sets rs = Inr (err, rs', sets') \<Longrightarrow> list_all2 same_kind rs rs'"
proof (induction E outbound transport sets r and E outbound transport sets rs arbitrary: err r' sets' and err rs' sets'
    rule: dns_Start_dns_Start_all.induct)
  case (1 E outbound transport sets d)
  then show ?case
    by (auto simp: bind_res_Inr default_Start_def Let_def matches_response_def split: sum.splits option.splits)
next
  case (2 E outbound transport sets rules mode neg act)
  obtain rules' where "dns_Start_all E outbound transport sets rules = Inr (err, rules', sets')" "r' = LogicalRule rules' mode neg act"
    using "2.prems" by (auto simp: bind_res_Inr)
  moreover from this have "list_all2 same_kind rules rules'" using "2.IH" by blast
  then have "list_all (\<lambda>r. \<not> matches_response r) rules' \<longleftrightarrow> list_all (\<lambda>r. \<not> matches_response r) rules"
    by (induction rule: list_all2_induct) auto
  ultimately show ?case by (simp add: matches_response_def)
next
  case (4 E outbound transport sets r rs)
  then show ?case by (auto simp: bind_res_Inr list_all2_refl split: if_splits)
qed auto

lemma start_rules_same_kind: "start_rules V sets i rs = Inr (err, rs', sets') \<Longrightarrow> list_all2 same_kind rs rs'"
proof (induction rs arbitrary: sets i err rs')
  case (Cons r rs)
  then show ?case
    by (auto simp: bind_res_Inr list_all2_refl dest: dns_Start_same_kind(1) split: option.splits)
qed simp

lemma buildRules_fits:
  assumes "buildRules V startRules r sets = Inr (Inr (newRules, legacy, flags), sets')"
  shows "fits_mode (rtr_transport r) legacy newRules"
proof -
  obtain parsed where p: "parse_rules V (Some sets) r = Inr (parsed, legacy, flags)" "list_all2 same_kind parsed newRules"
  proof (cases startRules)
    case True
    then obtain parsed where "parse_rules V (Some sets) r = Inr (parsed, legacy, flags)"
      "start_rules V sets 0 parsed = Inr (None, newRules, sets')"
      using assms by (auto simp: buildRules_def bind_res_Inr split: sum.splits option.splits)
    then show ?thesis using that start_rules_same_kind by blast
  next
    case False
    then have "parse_rules V (Some sets) r = Inr (newRules, legacy, flags)"
      using assms by (auto simp: buildRules_def split: sum.splits)
    then show ?thesis using that by (simp add: list_all2_refl)
  qed
  show ?thesis using fits_mode_same [OF p(2)] parse_rules_fits [OF p(1)] by simp
qed

text \<open>
  C24. The rules of a running DNS router fit its mode.  In the legacy mode no rule evaluates, responds or matches
  a response, at any depth; in the other mode no rule sets a strategy (so ignoring the strategy of an action is
  right there), and every rule that responds or matches a response comes after one that evaluates.  An
  evaluate action never names the FakeIP server.
\<close>

theorem dns_rules_fit_mode:
  assumes "router_run V R base r sets"
  shows "fits_mode (rtr_transport r) (rtr_legacyDNSMode r) (rtr_rules r)"
  using assms
proof (induction rule: router_run.induct)
  case (initialize r sets rules err r' sets')
  obtain built sets1 where "buildRules V False (r\<lparr>rtr_rawRules := rules\<rparr>) sets = Inr (built, sets1)"
    using initialize.hyps(3) by (auto simp: DnsRouter_Initialize_def Let_def bind_res_Inr)
  then have "r' = r\<lparr>rtr_rawRules := rules\<rparr>"
    using initialize.hyps(3) by (cases built) (auto simp: DnsRouter_Initialize_def Let_def bind_res_Inr)
  then show ?case using initialize.IH by simp
next
  case (start r sets stage err r' sets')
  show ?case
  proof (cases "stage = StartStateStart")
    case True
    then obtain built sets1 where b: "buildRules V True r sets = Inr (built, sets1)"
      using start.hyps(3) by (auto simp: DnsRouter_Start_def bind_res_Inr)
    then show ?thesis
      using start.hyps(3) start.IH True buildRules_fits [of V True r sets]
      by (cases built) (auto simp: DnsRouter_Start_def bind_res_Inr split: if_splits)
  qed (use start in \<open>simp add: DnsRouter_Start_def\<close>)
next
  case (close r sets r' sets')
  then show ?case by (auto simp: DnsRouter_Close_def bind_res_Inr fits_mode_def split: if_splits)
qed (simp_all add: NewDnsRouter_def fits_mode_def)


subsection \<open>A running router\<close>

definition geo_dns_options :: DefaultDNSRuleOptions where
  "geo_dns_options = DefaultDNSRuleOptions_zero\<lparr>dr_RuleSet := Some [''geo''],
     dr_DNSRuleAction := DNSRuleActionOptions_zero\<lparr>da_Action := RuleActionTypeRoute,
       da_RouteOptions := DNSRouteOptionsActionOptions.extend DNSRouteOptionsActionOptions_zero \<lparr>do_Server = ''local''\<rparr>\<rparr>\<rparr>"

definition geo_dns_rule :: "string list \<Rightarrow> dns_rule" where
  "geo_dns_rule tags = DefaultRule \<lparr>entries = [], ruleSetItem = Some (geo_item\<lparr>setList := tags\<rparr>), invert = False,
     action = Some (RuleActionDNSRoute ''local'' (dns_route_options DNSRouteOptionsActionOptions_zero)), matchResponse = False\<rparr>"

abbreviation geo_rule_options :: dns_rule_options where
  "geo_rule_options \<equiv> OptionRule RuleTypeDefault geo_dns_options [] [] False DNSRuleActionOptions_zero"

definition plain_router_env :: router_env where
  "plain_router_env = \<lparr>re_env = plain_env, re_outbound = \<lambda>_. None, re_transport = \<lambda>_. None\<rparr>"

definition geo_router :: DnsRouter where
  "geo_router = (NewDnsRouter None 0)\<lparr>rtr_rawRules := [geo_rule_options], rtr_rules := [geo_dns_rule [''geo'']],
     rtr_legacyDNSMode := True, rtr_started := True\<rparr>"

lemmas zero_dns_options = DefaultDNSRuleOptions_zero_def RawDefaultDNSRule_zero_def DNSRuleActionOptions_zero_def
  DNSRouteOptionsActionOptions_zero_def RawDefaultDNSRule.defs DNSRouteOptionsActionOptions.defs

lemma geo_rule_built: "NewDNSRule plain_env geo_rule_options True True = Inr (geo_dns_rule [])"
proof -
  have valid: "DefaultDNSRule_IsValid geo_dns_options"
    by (simp add: DefaultDNSRule_IsValid_def geo_dns_options_def zero_dns_options)
  have "collect (dns_blocks plain_env True geo_dns_options) = Inr []"
    by (simp add: geo_dns_options_def zero_dns_options dns_blocks_def dns_basic_blocks_def dns_address_blocks_def
        dns_response_port_blocks_def dns_process_blocks_def dns_network_blocks_def collect_def elems_def
        on_flag_def on_flag_res_def fail_on_def ip_version_block_def)
  then show ?thesis
    by (subst NewDNSRule.simps)
      (simp add: valid NewDefaultDNSRule_def, simp add: geo_dns_options_def zero_dns_options dns_action_checks_def
        validateDNSRuleAction_def NewDNSRuleAction_def rule_set_block_def elems_def NewRuleSetItem_def geo_dns_rule_def
        geo_item_def dns_route_options_def action_types guard_res_def)
qed

lemma geo_metadata:
  "rm_metadata geo_set = \<lparr>ContainsProcessRule = False, ContainsWIFIRule = False, ContainsIPCIDRRule = True,
     ContainsDNSQueryTypeRule = False, ContainsNonIPCIDRRule = True\<rparr>"
  by (simp add: geo_set_def buildRuleSetMetadata_def HasHeadlessRule_def port_set_options_def isProcessHeadlessRule_def
      isWIFIHeadlessRule_def isIPCIDRHeadlessRule_def isDNSQueryTypeHeadlessRule_def isNonIPCIDRHeadlessRule_def
      DefaultHeadlessRuleOptions_zero_def elems_def)

lemma geo_parse:
  assumes "rtr_rawRules r = [geo_rule_options]" "rtr_transport r = None"
  shows "\<exists>flags. parse_rules plain_router_env (Some (geo_sets (RemoteSet geo_set))) r = Inr ([geo_dns_rule []], True, flags)"
proof -
  have l: "lookupDNSRuleSetMetadata (Some (geo_sets (RemoteSet geo_set))) Map.empty ''geo'' = Inr (set_Metadata (RemoteSet geo_set))"
    by (simp add: lookupDNSRuleSetMetadata_def geo_sets_def)
  have o: "elems (dr_RuleSet geo_dns_options) = [''geo'']" "\<not> dr_RuleSetIPCIDRMatchSource geo_dns_options" "\<not> dnsRuleActionHasStrategy (dr_DNSRuleAction geo_dns_options)"
    "\<not> defaultRuleDisablesLegacyDNSMode geo_dns_options" "\<not> defaultRuleNeedsLegacyDNSModeFromAddressFilter geo_dns_options"
    "\<not> dnsRuleActionDisablesLegacyDNSMode (dr_DNSRuleAction geo_dns_options)"
    by (simp_all add: geo_dns_options_def zero_dns_options elems_def hasResponseMatchFields_def dnsRuleActionHasStrategy_def
        defaultRuleDisablesLegacyDNSMode_def defaultRuleNeedsLegacyDNSModeFromAddressFilter_def
        dnsRuleActionDisablesLegacyDNSMode_def action_types DomainStrategyAsIS_def)
  have "\<exists>flags. resolveLegacyDNSMode (Some (geo_sets (RemoteSet geo_set))) Map.empty [geo_rule_options] = Inr (True, flags)"
    by (simp add: resolveLegacyDNSMode_def dnsRuleModeRequirements_def dnsRuleModeRequirementsInRule.simps
        dnsRuleModeRequirementsInDefaultRule_def o l geo_metadata mode_of_set_def mode_merge_def noModeFlags_def)
  then show ?thesis
    using assms geo_rule_built
    by (auto simp: parse_rules_def validateNoNestedDNSRuleActions.simps validateEvaluateFakeIPRules_def Let_def
        plain_router_env_def)
qed

lemma geo_router_run:
  "router_run plain_router_env plain_rs_env (\<lambda>_. 0) geo_router (geo_sets (RemoteSet (Remote_IncRef geo_set)))"
proof -
  let ?sets = "geo_sets (RemoteSet geo_set)" and ?new = "NewDnsRouter None 0"
  let ?init = "?new\<lparr>rtr_rawRules := [geo_rule_options]\<rparr>"
  obtain flags where p: "parse_rules plain_router_env (Some ?sets) ?init = Inr ([geo_dns_rule []], True, flags)"
    using geo_parse [of ?init] by (auto simp: NewDnsRouter_def)
  have refs: "set_refs (RemoteSet geo_set) = 0" "set_tag (RemoteSet geo_set) = ''geo''"
    by (simp_all add: geo_set_def NewRemoteRuleSet_def remote_options_def)
  have new: "router_run plain_router_env plain_rs_env (\<lambda>_. 0) ?new ?sets"
    by (rule router_run.new) (use refs in \<open>auto simp: geo_sets_def split: if_splits\<close>)
  have close: "closeRules ?sets [geo_dns_rule []] = Inr ([geo_dns_rule []], ?sets)"
    by (simp add: geo_dns_rule_def default_Close_def RuleSetItem_Close_def)
  have init: "router_run plain_router_env plain_rs_env (\<lambda>_. 0) ?init ?sets"
    by (rule router_run.initialize [OF new, of "[geo_rule_options]" None])
      (use p close in \<open>simp_all add: DnsRouter_Initialize_def buildRules_def NewDnsRouter_def\<close>)
  have "start_rules plain_router_env ?sets 0 [geo_dns_rule []] =
      Inr (None, [geo_dns_rule [''geo'']], geo_sets (RemoteSet (Remote_IncRef geo_set)))"
    by (simp add: geo_dns_rule_def default_Start_def entries_Start_def RuleSetItem_Start_def RuleSetItem_Close_def
        geo_item_def geo_sets_def)
  then have "DnsRouter_Start plain_router_env StartStateStart ?init ?sets =
      Inr (None, geo_router, geo_sets (RemoteSet (Remote_IncRef geo_set)))"
    using p by (simp add: DnsRouter_Start_def buildRules_def geo_router_def NewDnsRouter_def)
  then show ?thesis by (rule router_run.start [OF init, rotated]) (simp add: NewDnsRouter_def)
qed


theorem dns_rules_fit_mode_witness: "fits_mode None True [geo_dns_rule [''geo'']]"
  using dns_rules_fit_mode [OF geo_router_run] by (simp add: geo_router_def NewDnsRouter_def)


end
