(* ===== verification/Fakeip.thy ===== *)
theory Fakeip
  imports Dns_Message
begin

text \<open>
  The fake address transport: the store that hands out addresses of a range and remembers the domain
  of each (\<^verbatim>\<open>dns/transport/fakeip/store.go\<close>), the storage in memory (\<^verbatim>\<open>memory.go\<close>), the DNS transport on top
  (\<^verbatim>\<open>fakeip.go\<close>), and the metadata a storage keeps over a restart (\<^verbatim>\<open>adapter/fakeip_metadata.go\<close>).

  The interface \<^verbatim>\<open>adapter.FakeIPStorage\<close> is the record \<open>FakeIPStorage\<close> of its methods over a state; the
  store works on the sum of the storage in memory and the storage of the cache file, whose methods
  are a parameter here and are given in \<^verbatim>\<open>Cache_File\<close>.  \<^verbatim>\<open>Create\<close> is split where the source takes the
  lock: the check before it reads only, the part under it is one step.
\<close>

subsection \<open>The metadata of a storage\<close>

record FakeIPMetadata =
  fm_Inet4Range :: prefix
  fm_Inet6Range :: prefix
  fm_Inet4Current :: addr
  fm_Inet6Current :: addr

definition write_element :: "bytes \<Rightarrow> bytes" where
  "write_element data = word_bytes 2 (of_nat (length data) :: 16 word) @ data"

definition FakeIPMetadata_MarshalBinary :: "FakeIPMetadata \<Rightarrow> bytes" where
  "FakeIPMetadata_MarshalBinary m =
     write_element (prefix_MarshalBinary (fm_Inet4Range m)) @
     write_element (prefix_MarshalBinary (fm_Inet6Range m)) @
     write_element (addr_MarshalBinary (fm_Inet4Current m)) @
     write_element (addr_MarshalBinary (fm_Inet6Current m))"

text \<open>\<^verbatim>\<open>common.Must\<close> around the read of a length panics at the end of the data.\<close>

definition read_element :: "bytes \<Rightarrow> (bytes \<times> bytes) res" where
  "read_element reader =
     (if length reader < 2 then Inl (Panic ''unexpected EOF'')
      else let n = unat (bytes_word (take 2 reader) :: 16 word); rest = drop 2 reader
           in if length rest < n then Inl (Sentinel (if rest = [] then ''EOF'' else ''unexpected EOF''))
              else Inr (take n rest, drop n rest))"

definition FakeIPMetadata_UnmarshalBinary :: "bytes \<Rightarrow> FakeIPMetadata res" where
  "FakeIPMetadata_UnmarshalBinary data =
     bind_res (read_element data) (\<lambda>(e1, r1).
     bind_res (prefix_UnmarshalBinary e1) (\<lambda>inet4Range.
     bind_res (read_element r1) (\<lambda>(e2, r2).
     bind_res (prefix_UnmarshalBinary e2) (\<lambda>inet6Range.
     bind_res (read_element r2) (\<lambda>(e3, r3).
     bind_res (addr_UnmarshalBinary e3) (\<lambda>inet4Current.
     bind_res (read_element r3) (\<lambda>(e4, r4).
     bind_res (addr_UnmarshalBinary e4) (\<lambda>inet6Current.
       Inr \<lparr>fm_Inet4Range = inet4Range, fm_Inet6Range = inet6Range,
            fm_Inet4Current = inet4Current, fm_Inet6Current = inet6Current\<rparr>))))))))"

subsection \<open>Storage\<close>

record 's FakeIPStorage =
  fs_Metadata :: "'s \<Rightarrow> FakeIPMetadata option \<times> 's"
  fs_SaveMetadata :: "FakeIPMetadata \<Rightarrow> 's \<Rightarrow> error option \<times> 's"
  fs_SaveMetadataAsync :: "FakeIPMetadata \<Rightarrow> 's \<Rightarrow> 's"
  fs_Store :: "addr \<Rightarrow> string \<Rightarrow> 's \<Rightarrow> error option \<times> 's"
  fs_StoreAsync :: "addr \<Rightarrow> string \<Rightarrow> 's \<Rightarrow> 's"
  fs_Load :: "addr \<Rightarrow> 's \<Rightarrow> string option"
  fs_LoadDomain :: "string \<Rightarrow> bool \<Rightarrow> 's \<Rightarrow> addr option"
  fs_Reset :: "'s \<Rightarrow> error option \<times> 's"

record MemoryStorage =
  addressCache :: "addr \<rightharpoonup> string"
  domainCache4 :: "string \<rightharpoonup> addr"
  domainCache6 :: "string \<rightharpoonup> addr"

definition NewMemoryStorage :: MemoryStorage where
  "NewMemoryStorage = \<lparr>addressCache = Map.empty, domainCache4 = Map.empty, domainCache6 = Map.empty\<rparr>"

definition MemoryStorage_FakeIPStore :: "addr \<Rightarrow> string \<Rightarrow> MemoryStorage \<Rightarrow> error option \<times> MemoryStorage" where
  "MemoryStorage_FakeIPStore address domain s =
     (let s1 = (case addressCache s address of
                  None \<Rightarrow> s
                | Some oldDomain \<Rightarrow>
                    if addr_Is4 address then s\<lparr>domainCache4 := (domainCache4 s)(oldDomain := None)\<rparr>
                    else s\<lparr>domainCache6 := (domainCache6 s)(oldDomain := None)\<rparr>);
          s2 = s1\<lparr>addressCache := (addressCache s1)(address \<mapsto> domain)\<rparr>
      in (None,
          if addr_Is4 address then s2\<lparr>domainCache4 := (domainCache4 s2)(domain \<mapsto> address)\<rparr>
          else s2\<lparr>domainCache6 := (domainCache6 s2)(domain \<mapsto> address)\<rparr>))"

definition MemoryStorage_FakeIPLoadDomain :: "string \<Rightarrow> bool \<Rightarrow> MemoryStorage \<Rightarrow> addr option" where
  "MemoryStorage_FakeIPLoadDomain domain isIPv6 s =
     (if \<not> isIPv6 then domainCache4 s domain else domainCache6 s domain)"

definition MemoryStorage_FakeIPReset :: "MemoryStorage \<Rightarrow> error option \<times> MemoryStorage" where
  "MemoryStorage_FakeIPReset s =
     (None, s\<lparr>addressCache := Map.empty, domainCache4 := Map.empty, domainCache6 := Map.empty\<rparr>)"

definition memory_ops :: "MemoryStorage FakeIPStorage" where
  "memory_ops =
     \<lparr>fs_Metadata = (\<lambda>s. (None, s)), fs_SaveMetadata = (\<lambda>_ s. (None, s)), fs_SaveMetadataAsync = (\<lambda>_ s. s),
      fs_Store = MemoryStorage_FakeIPStore,
      fs_StoreAsync = (\<lambda>address domain s. snd (MemoryStorage_FakeIPStore address domain s)),
      fs_Load = (\<lambda>address s. addressCache s address),
      fs_LoadDomain = MemoryStorage_FakeIPLoadDomain,
      fs_Reset = MemoryStorage_FakeIPReset\<rparr>"

text \<open>The dynamic dispatch of the interface: the storage in memory or the cache file.\<close>

definition either_ops :: "'c FakeIPStorage \<Rightarrow> (MemoryStorage + 'c) FakeIPStorage" where
  "either_ops c =
     \<lparr>fs_Metadata = case_sum (\<lambda>s. apsnd Inl (fs_Metadata memory_ops s)) (\<lambda>s. apsnd Inr (fs_Metadata c s)),
      fs_SaveMetadata = (\<lambda>m. case_sum (\<lambda>s. apsnd Inl (fs_SaveMetadata memory_ops m s))
                                     (\<lambda>s. apsnd Inr (fs_SaveMetadata c m s))),
      fs_SaveMetadataAsync = (\<lambda>m. case_sum (\<lambda>s. Inl (fs_SaveMetadataAsync memory_ops m s))
                                          (\<lambda>s. Inr (fs_SaveMetadataAsync c m s))),
      fs_Store = (\<lambda>a d. case_sum (\<lambda>s. apsnd Inl (fs_Store memory_ops a d s)) (\<lambda>s. apsnd Inr (fs_Store c a d s))),
      fs_StoreAsync = (\<lambda>a d. case_sum (\<lambda>s. Inl (fs_StoreAsync memory_ops a d s))
                                     (\<lambda>s. Inr (fs_StoreAsync c a d s))),
      fs_Load = (\<lambda>a. case_sum (fs_Load memory_ops a) (fs_Load c a)),
      fs_LoadDomain = (\<lambda>d v6. case_sum (fs_LoadDomain memory_ops d v6) (fs_LoadDomain c d v6)),
      fs_Reset = case_sum (\<lambda>s. apsnd Inl (fs_Reset memory_ops s)) (\<lambda>s. apsnd Inr (fs_Reset c s))\<rparr>"

subsection \<open>The store\<close>

record 's Store =
  st_inet4Range :: prefix
  st_inet6Range :: prefix
  st_inet4Last :: addr
  st_inet6Last :: addr
  st_storage :: "'s option"
  st_inet4Current :: addr
  st_inet6Current :: addr

definition set_bit_at :: "bytes \<Rightarrow> nat \<Rightarrow> bytes" where
  "set_bit_at raw i = raw[i div 8 := raw ! (i div 8) OR push_bit (7 - i mod 8) 1]"

definition broadcastAddress :: "prefix \<Rightarrow> addr" where
  "broadcastAddress p =
     (let address = p_Addr p;
          bits = nat (p_Bits p) + (if addr_Is4 address then 96 else 0);
          raw = foldl set_bit_at (addr_As16 address) [bits..<128]
      in if addr_Is4 address then AddrFrom4 (drop 12 raw) else AddrFrom16 raw)"

definition NewStore :: "prefix \<Rightarrow> prefix \<Rightarrow> 's Store" where
  "NewStore inet4Range inet6Range =
     \<lparr>st_inet4Range = inet4Range, st_inet6Range = inet6Range,
      st_inet4Last = (if prefix_IsValid inet4Range then broadcastAddress inet4Range else AddrZero),
      st_inet6Last = (if prefix_IsValid inet6Range then broadcastAddress inet6Range else AddrZero),
      st_storage = None, st_inet4Current = AddrZero, st_inet6Current = AddrZero\<rparr>"

text \<open>\<open>cacheFile\<close> is the service of the context with its answer to \<^verbatim>\<open>StoreFakeIP\<close>, if there is one.\<close>

definition choose_storage :: "('c \<times> bool) option \<Rightarrow> MemoryStorage + 'c" where
  "choose_storage cacheFile =
     (case cacheFile of
        Some (c, storeFakeIP) \<Rightarrow> if storeFakeIP then Inr c else Inl NewMemoryStorage
      | None \<Rightarrow> Inl NewMemoryStorage)"

definition start_fresh :: "'s FakeIPStorage \<Rightarrow> 's \<Rightarrow> 's Store \<Rightarrow> 's Store" where
  "start_fresh ops storage s =
     (let s1 = (if prefix_IsValid (st_inet4Range s)
                then s\<lparr>st_inet4Current := addr_Next (p_Addr (st_inet4Range s))\<rparr> else s);
          s2 = (if prefix_IsValid (st_inet6Range s1)
                then s1\<lparr>st_inet6Current := addr_Next (p_Addr (st_inet6Range s1))\<rparr> else s1)
      in s2\<lparr>st_storage := Some (snd (fs_Reset ops storage))\<rparr>)"

definition start_on :: "'s FakeIPStorage \<Rightarrow> 's \<Rightarrow> 's Store \<Rightarrow> 's Store" where
  "start_on ops storage s =
     (let (metadata, storage1) = fs_Metadata ops storage
      in case metadata of
           Some m \<Rightarrow>
             if fm_Inet4Range m = st_inet4Range s \<and> fm_Inet6Range m = st_inet6Range s
             then s\<lparr>st_inet4Current := fm_Inet4Current m, st_inet6Current := fm_Inet6Current m,
                    st_storage := Some storage1\<rparr>
             else start_fresh ops storage1 s
         | None \<Rightarrow> start_fresh ops storage1 s)"

definition Store_Start ::
  "'c FakeIPStorage \<Rightarrow> ('c \<times> bool) option \<Rightarrow> (MemoryStorage + 'c) Store \<Rightarrow> (MemoryStorage + 'c) Store" where
  "Store_Start cache_ops cacheFile s = start_on (either_ops cache_ops) (choose_storage cacheFile) s"

definition Store_Contains :: "'s Store \<Rightarrow> addr \<Rightarrow> bool" where
  "Store_Contains s address \<longleftrightarrow>
     prefix_Contains (st_inet4Range s) address \<or> prefix_Contains (st_inet6Range s) address"

definition Store_metadata :: "'s Store \<Rightarrow> FakeIPMetadata" where
  "Store_metadata s =
     \<lparr>fm_Inet4Range = st_inet4Range s, fm_Inet6Range = st_inet6Range s,
      fm_Inet4Current = st_inet4Current s, fm_Inet6Current = st_inet6Current s\<rparr>"

definition Store_Close :: "'s FakeIPStorage \<Rightarrow> 's Store \<Rightarrow> error option \<times> 's Store" where
  "Store_Close ops s =
     (case st_storage s of
        None \<Rightarrow> (None, s)
      | Some storage \<Rightarrow>
          let (err, storage1) = fs_SaveMetadata ops (Store_metadata s) storage
          in (err, s\<lparr>st_storage := Some storage1\<rparr>))"

text \<open>The address after \<open>current\<close>, or the third one of the range when the range is used up.\<close>

definition next_address :: "prefix \<Rightarrow> addr \<Rightarrow> addr \<Rightarrow> addr" where
  "next_address inetRange inetLast current =
     (let nextAddress = addr_Next current
      in if nextAddress = inetLast \<or> \<not> prefix_Contains inetRange nextAddress
         then addr_Next (addr_Next (p_Addr inetRange)) else nextAddress)"

definition allocate :: "bool \<Rightarrow> 's Store \<Rightarrow> (addr \<times> 's Store) res" where
  "allocate isIPv6 s =
     (if \<not> isIPv6 then
        if \<not> addr_IsValid (st_inet4Current s) then Inl (New ''missing IPv4 fakeip address range'')
        else let nextAddress = next_address (st_inet4Range s) (st_inet4Last s) (st_inet4Current s)
             in Inr (nextAddress, s\<lparr>st_inet4Current := nextAddress\<rparr>)
      else
        if \<not> addr_IsValid (st_inet6Current s) then Inl (New ''missing IPv6 fakeip address range'')
        else let nextAddress = next_address (st_inet6Range s) (st_inet6Last s) (st_inet6Current s)
             in Inr (nextAddress, s\<lparr>st_inet6Current := nextAddress\<rparr>))"

text \<open>
  The part of \<^verbatim>\<open>Create\<close> under the lock.  An error of \<^verbatim>\<open>FakeIPStore\<close> is logged and the address is returned
  all the same.  A store that was not started has no storage, and calling a method of it panics.
\<close>

definition nil_storage :: error where "nil_storage = Panic ''invalid memory address or nil pointer dereference''"

definition create_locked ::
  "'s FakeIPStorage \<Rightarrow> string \<Rightarrow> bool \<Rightarrow> 's \<Rightarrow> 's Store \<Rightarrow> addr res \<times> 's Store" where
  "create_locked ops domain isIPv6 storage s =
     (case fs_LoadDomain ops domain isIPv6 storage of
        Some address \<Rightarrow> (Inr address, s)
      | None \<Rightarrow>
          (case allocate isIPv6 s of
             Inl err \<Rightarrow> (Inl err, s)
           | Inr (address, s1) \<Rightarrow>
               let storage1 = snd (fs_Store ops address domain storage);
                   storage2 = fs_SaveMetadataAsync ops (Store_metadata s1) storage1
               in (Inr address, s1\<lparr>st_storage := Some storage2\<rparr>)))"

definition Store_Create ::
  "'s FakeIPStorage \<Rightarrow> string \<Rightarrow> bool \<Rightarrow> 's Store \<Rightarrow> addr res \<times> 's Store" where
  "Store_Create ops domain isIPv6 s =
     (case st_storage s of
        None \<Rightarrow> (Inl nil_storage, s)
      | Some storage \<Rightarrow>
          (case fs_LoadDomain ops domain isIPv6 storage of
             Some address \<Rightarrow> (Inr address, s)
           | None \<Rightarrow> create_locked ops domain isIPv6 storage s))"

definition Store_Lookup :: "'s FakeIPStorage \<Rightarrow> addr \<Rightarrow> 's Store \<Rightarrow> string option res" where
  "Store_Lookup ops address s =
     (case st_storage s of None \<Rightarrow> Inl nil_storage | Some storage \<Rightarrow> Inr (fs_Load ops address storage))"

definition Store_Reset :: "'s FakeIPStorage \<Rightarrow> 's Store \<Rightarrow> error option \<times> 's Store" where
  "Store_Reset ops s =
     (case st_storage s of
        None \<Rightarrow> (Some nil_storage, s)
      | Some storage \<Rightarrow>
          let (err, storage1) = fs_Reset ops storage in (err, s\<lparr>st_storage := Some storage1\<rparr>))"

subsection \<open>The transport\<close>

record 's Transport =
  tr_store :: "'s Store"
  tr_inet4Enabled :: bool
  tr_inet6Enabled :: bool

definition NewTransport :: "prefix \<Rightarrow> prefix \<Rightarrow> 's Transport res" where
  "NewTransport inet4Range inet6Range =
     (if \<not> prefix_IsValid inet4Range \<and> \<not> prefix_IsValid inet6Range
      then Inl (New ''at least one of inet4_range or inet6_range must be set'')
      else Inr \<lparr>tr_store = NewStore inet4Range inet6Range,
                tr_inet4Enabled = prefix_IsValid inet4Range, tr_inet6Enabled = prefix_IsValid inet6Range\<rparr>)"

definition Transport_Start ::
  "'c FakeIPStorage \<Rightarrow> ('c \<times> bool) option \<Rightarrow> bool \<Rightarrow> (MemoryStorage + 'c) Transport
    \<Rightarrow> (MemoryStorage + 'c) Transport" where
  "Transport_Start cache_ops cacheFile stateStart t =
     (if \<not> stateStart then t else t\<lparr>tr_store := Store_Start cache_ops cacheFile (tr_store t)\<rparr>)"

definition Transport_Close :: "'s FakeIPStorage \<Rightarrow> 's Transport \<Rightarrow> error option \<times> 's Transport" where
  "Transport_Close ops t = (let (err, s) = Store_Close ops (tr_store t) in (err, t\<lparr>tr_store := s\<rparr>))"

definition Transport_Exchange ::
  "'s FakeIPStorage \<Rightarrow> (string \<Rightarrow> bool) \<Rightarrow> dns_msg \<Rightarrow> 's Transport \<Rightarrow> dns_msg res \<times> 's Transport" where
  "Transport_Exchange ops IsFqdn message t =
     (case d_Question message of
        [] \<Rightarrow> (Inl (Panic ''index out of range''), t)
      | question # _ \<Rightarrow>
          if q_Qtype question \<noteq> TypeA \<and> q_Qtype question \<noteq> TypeAAAA
          then (Inl (New ''only IP queries are supported by fakeip''), t)
          else if q_Qtype question = TypeA \<and> \<not> tr_inet4Enabled t \<or>
                  q_Qtype question = TypeAAAA \<and> \<not> tr_inet6Enabled t
          then (Inr (FixedResponseStatus message RcodeSuccess), t)
          else let (r, s) = Store_Create ops (FqdnToDomain IsFqdn (q_Name question))
                              (q_Qtype question = TypeAAAA) (tr_store t)
               in (case r of
                     Inl err \<Rightarrow> Inl err
                   | Inr address \<Rightarrow> Inr (FixedResponse (d_Id message) question [address] DefaultDNSTTL),
                   t\<lparr>tr_store := s\<rparr>))"

subsection \<open>The last address of a range\<close>

lemma length_set_bits [simp]: "length (foldl set_bit_at raw ks) = length raw"
  by (induction ks arbitrary: raw) (simp_all add: set_bit_at_def)

lemma bit_set_bits:
  assumes "\<forall>k \<in> set ks. k < 8 * length raw" "i < length raw" "j < 8"
  shows "bit (foldl set_bit_at raw ks ! i) j \<longleftrightarrow> bit (raw ! i) j \<or> 8 * i + 7 - j \<in> set ks"
  using assms
proof (induction ks arbitrary: raw)
  case (Cons k ks)
  have k: "k = 8 * (k div 8) + k mod 8" "k mod 8 < 8" by simp_all
  have one: "bit (set_bit_at raw k ! i) j \<longleftrightarrow> bit (raw ! i) j \<or> k = 8 * i + 7 - j"
  proof (cases "k div 8 = i")
    case True
    have "7 - k mod 8 = j \<longleftrightarrow> k = 8 * i + 7 - j" using True Cons.prems(3) k by linarith
    then show ?thesis
      using True Cons.prems(2,3) by (auto simp: set_bit_at_def bit_or_iff bit_exp_iff)
  next
    case False
    then have "k \<noteq> 8 * i + 7 - j" using Cons.prems(3) k by linarith
    then show ?thesis using False by (simp add: set_bit_at_def)
  qed
  have "\<forall>k' \<in> set ks. k' < 8 * length (set_bit_at raw k)" "i < length (set_bit_at raw k)"
    using Cons.prems by (simp_all add: set_bit_at_def)
  from Cons.IH [OF this Cons.prems(3)] show ?case unfolding foldl_Cons one by auto
qed simp

lemma byte_position: "k < 128 \<Longrightarrow> 8 * (15 - k div 8) + 7 - k mod 8 = 127 - (k :: nat)"
proof -
  assume "k < 128"
  moreover from this have "k div 8 \<le> 15" by auto
  moreover have "k = 8 * (k div 8) + k mod 8" by simp
  ultimately show ?thesis by linarith
qed

text \<open>One bit of sixteen bytes with the bits from \<open>b\<close> on set.\<close>

lemma bit_raw:
  assumes "length raw = 16" "k < 128"
  shows "bit (foldl set_bit_at raw [b..<128] ! (15 - k div 8)) (k mod 8) \<longleftrightarrow>
    bit (raw ! (15 - k div 8)) (k mod 8) \<or> b + k < 128"
proof -
  have "bit (foldl set_bit_at raw [b..<128] ! (15 - k div 8)) (k mod 8) \<longleftrightarrow>
      bit (raw ! (15 - k div 8)) (k mod 8) \<or> 8 * (15 - k div 8) + 7 - k mod 8 \<in> set [b..<128]"
    by (rule bit_set_bits) (simp_all add: assms)
  also have "8 * (15 - k div 8) + 7 - k mod 8 \<in> set [b..<128] \<longleftrightarrow> b + k < 128"
    unfolding byte_position [OF assms(2)] using assms(2) by auto
  finally show ?thesis .
qed

lemma broadcast4:
  assumes "p_Addr p = Addr4 w" "0 \<le> p_Bits p" "p_Bits p \<le> 32"
  shows "broadcastAddress p = Addr4 (w OR mask (32 - nat (p_Bits p)))"
proof -
  let ?raw = "foldl set_bit_at (addr_As16 (Addr4 w)) [nat (p_Bits p) + 96..<128]"
  have len: "length (addr_As16 (Addr4 w)) = 16" by simp
  have "(bytes_word (drop 12 ?raw) :: 32 word) = w OR mask (32 - nat (p_Bits p))"
  proof (rule bit_word_eqI)
    fix k assume "k < LENGTH(32)"
    then have k: "k < 32" "k div 8 < 4" by auto
    then have i: "12 + (3 - k div 8) = 15 - k div 8" by simp
    have "bit (bytes_word (drop 12 ?raw) :: 32 word) k \<longleftrightarrow> bit (drop 12 ?raw ! (3 - k div 8)) (k mod 8)"
      using k(1) by (simp add: bit_bytes_word len del: addr_As16.simps nth_drop)
    also have "drop 12 ?raw ! (3 - k div 8) = ?raw ! (15 - k div 8)"
      unfolding i [symmetric] by (rule nth_drop) (simp add: len del: addr_As16.simps)
    also have "bit (?raw ! (15 - k div 8)) (k mod 8) \<longleftrightarrow>
        bit (addr_As16 (Addr4 w) ! (12 + (3 - k div 8))) (k mod 8) \<or> nat (p_Bits p) + 96 + k < 128"
      unfolding i using k(1) by (intro bit_raw len) simp
    also have "addr_As16 (Addr4 w) ! (12 + (3 - k div 8)) = word_bytes 4 w ! (3 - k div 8)"
      by (simp add: nth_append)
    also have "bit (word_bytes 4 w ! (3 - k div 8)) (k mod 8) \<longleftrightarrow> bit w k"
      using k by (simp add: bit_nth_word_bytes)
    finally show "bit (bytes_word (drop 12 ?raw) :: 32 word) k = bit (w OR mask (32 - nat (p_Bits p))) k"
      using k(1) by (simp add: bit_or_iff bit_mask_iff less_diff_conv add.commute)
  qed
  then show ?thesis
    by (simp add: broadcastAddress_def assms(1) AddrFrom4_def Let_def del: addr_As16.simps)
qed

lemma broadcast6:
  assumes "p_Addr p = Addr6 w z" "0 \<le> p_Bits p" "p_Bits p \<le> 128"
  shows "broadcastAddress p = Addr6 (w OR mask (128 - nat (p_Bits p))) []"
proof -
  let ?raw = "foldl set_bit_at (word_bytes 16 w) [nat (p_Bits p)..<128]"
  have "(bytes_word ?raw :: 128 word) = w OR mask (128 - nat (p_Bits p))"
  proof (rule bit_word_eqI)
    fix k assume "k < LENGTH(128)"
    then have k: "k < 128" "k div 8 < 16" by auto
    have "bit (bytes_word ?raw :: 128 word) k \<longleftrightarrow> bit (?raw ! (15 - k div 8)) (k mod 8)"
      using k(1) by (simp add: bit_bytes_word)
    also have "\<dots> \<longleftrightarrow> bit (word_bytes 16 w ! (15 - k div 8)) (k mod 8) \<or> nat (p_Bits p) + k < 128"
      using k(1) by (intro bit_raw) simp_all
    also have "bit (word_bytes 16 w ! (15 - k div 8)) (k mod 8) \<longleftrightarrow> bit w k"
      using k by (simp add: bit_nth_word_bytes)
    finally show "bit (bytes_word ?raw :: 128 word) k = bit (w OR mask (128 - nat (p_Bits p))) k"
      using k(1) by (simp add: bit_or_iff bit_mask_iff less_diff_conv add.commute)
  qed
  then show ?thesis by (simp add: broadcastAddress_def assms(1) AddrFrom16_def Let_def)
qed

subsection \<open>Addresses as numbers\<close>

fun addr_nat :: "addr \<Rightarrow> nat" where
  "addr_nat AddrZero = 0"
| "addr_nat (Addr4 w) = unat w"
| "addr_nat (Addr6 w z) = unat w"

text \<open>The number of addresses of a range, and its first and last address as numbers.\<close>

definition range_size :: "prefix \<Rightarrow> nat" where
  "range_size p = 2 ^ (addr_BitLen (p_Addr p) - nat (p_Bits p))"

definition range_first :: "prefix \<Rightarrow> nat" where
  "range_first p = addr_nat (p_Addr p) div range_size p * range_size p"

definition range_last :: "prefix \<Rightarrow> nat" where
  "range_last p = range_first p + range_size p - 1"

lemma unat_or_mask:
  "k \<le> LENGTH('w) \<Longrightarrow> unat ((w :: 'w::len word) OR mask k) = unat w div 2 ^ k * 2 ^ k + 2 ^ k - 1"
proof -
  assume k: "k \<le> LENGTH('w)"
  have "unat (w OR mask k) = unat w OR mask k"
    using k by (auto simp: unsigned_or_eq bit_or_iff bit_mask_iff bit_unsigned_iff intro!: bit_eqI dest: bit_imp_le_length)
  also have "\<dots> = push_bit k (drop_bit k (unat w)) OR mask k"
    by (rule bit_eqI) (auto simp: bit_or_iff bit_mask_iff bit_push_bit_iff bit_drop_bit_eq)
  also have "\<dots> = push_bit k (drop_bit k (unat w)) + mask k"
    by (rule disjunctive_add_eq_or [symmetric], rule bit_eqI)
      (auto simp: bit_and_iff bit_mask_iff bit_push_bit_iff)
  finally show ?thesis by (simp add: push_bit_eq_mult drop_bit_eq_div mask_eq_exp_minus_1)
qed

lemma masked_eq_iff:
  fixes w v :: "'w::len word"
  shows "push_bit k (drop_bit k w) = push_bit k (drop_bit k v) \<longleftrightarrow> unat w div 2 ^ k = unat v div 2 ^ k"
proof -
  have "drop_bit k (push_bit k (drop_bit k u)) = drop_bit k u" for u :: "'w word"
    by (rule bit_word_eqI) (auto simp: bit_push_bit_iff bit_drop_bit_eq dest: bit_imp_le_length)
  then have "push_bit k (drop_bit k w) = push_bit k (drop_bit k v) \<longleftrightarrow> drop_bit k w = drop_bit k v"
    by metis
  also have "\<dots> \<longleftrightarrow> unat (drop_bit k w) = unat (drop_bit k v)" by (simp add: word_unat_eq_iff)
  also have "\<dots> \<longleftrightarrow> unat w div 2 ^ k = unat v div 2 ^ k"
    unfolding unat_drop_bit_eq by (simp only: drop_bit_eq_div)
  finally show ?thesis .
qed

lemma div_eq_between:
  "0 < n \<Longrightarrow> a div n = b div n \<longleftrightarrow> a div n * n \<le> b \<and> b \<le> a div n * n + n - (1 :: nat)"
  by (metis Suc_pred' add_gr_0 div_nat_eqI div_times_less_eq_dividend dividend_less_times_div
      less_Suc_eq_le mult.commute mult_Suc_right add.commute)

lemma Contains_between:
  assumes "prefix_IsValid p" "addr_Zone (p_Addr p) = []"
  shows "prefix_Contains p a \<longleftrightarrow> addr_Zone a = [] \<and> addr_IsValid a \<and>
    addr_BitLen (p_Addr p) = addr_BitLen a \<and> range_first p \<le> addr_nat a \<and> addr_nat a \<le> range_last p"
proof -
  have s: "0 < range_size p" by (simp add: range_size_def)
  show ?thesis
    using assms unfolding range_last_def range_first_def conj_assoc div_eq_between [OF s, symmetric]
    by (cases "p_Addr p"; cases a)
      (auto simp: prefix_Contains_def masked_eq_iff range_size_def)
qed

lemma broadcast_last:
  assumes "prefix_IsValid p" "addr_Zone (p_Addr p) = []"
  shows "addr_nat (broadcastAddress p) = range_last p \<and>
    addr_BitLen (broadcastAddress p) = addr_BitLen (p_Addr p) \<and> addr_Zone (broadcastAddress p) = []"
  using assms
  by (cases "p_Addr p")
    (simp_all add: prefix_IsValid_def broadcast4 broadcast6 unat_or_mask range_last_def range_first_def range_size_def)

lemma addr_eq_iff:
  "addr_Zone a = addr_Zone b \<Longrightarrow> addr_BitLen a = addr_BitLen b \<Longrightarrow> a = b \<longleftrightarrow> addr_nat a = addr_nat b"
  by (cases a; cases b) (simp_all add: word_unat_eq_iff)

lemma word_succ_nat:
  "unat w + 1 < 2 ^ LENGTH('w) \<Longrightarrow> w \<noteq> - 1 \<and> unat (w + 1) = unat (w :: 'w::len word) + 1"
  by (auto simp: unat_word_ariths unsigned_minus_1_eq_mask mask_eq_exp_minus_1)

lemma addr_Next_nat:
  assumes "addr_IsValid a" "addr_nat a + 1 < 2 ^ addr_BitLen a"
  shows "addr_nat (addr_Next a) = addr_nat a + 1 \<and> addr_BitLen (addr_Next a) = addr_BitLen a \<and>
    addr_Zone (addr_Next a) = addr_Zone a \<and> addr_IsValid (addr_Next a)"
proof (cases a)
  case (Addr4 w)
  then show ?thesis using assms word_succ_nat [of w] by simp
next
  case (Addr6 w z)
  then show ?thesis using assms word_succ_nat [of w] by simp
qed (use assms in simp)

lemma word_next_zero:
  "\<not> unat w + 2 < 2 ^ LENGTH('w) \<Longrightarrow> w \<noteq> - 1 \<Longrightarrow> w + 1 = (- 1 :: 'w::len word)"
proof -
  assume "\<not> unat w + 2 < 2 ^ LENGTH('w)" "w \<noteq> - 1"
  moreover have "unat w \<noteq> 2 ^ LENGTH('w) - 1"
    using \<open>w \<noteq> - 1\<close> by (metis mask_eq_exp_minus_1 unsigned_minus_1_eq_mask unsigned_word_eqI)
  moreover have "unat w < 2 ^ LENGTH('w)" by (rule unsigned_less)
  ultimately have "unat w + 1 = 2 ^ LENGTH('w) - 1" by linarith
  then have "unat (w + 1) = unat (- 1 :: 'w word)"
    using word_succ_nat [of w] by (simp add: unsigned_minus_1_eq_mask mask_eq_exp_minus_1)
  then show ?thesis by (simp only: word_unat_eq_iff)
qed

lemma next_next_zero:
  "\<not> addr_nat a + 2 < 2 ^ addr_BitLen a \<Longrightarrow> addr_Next (addr_Next a) = AddrZero"
proof (cases a)
  case (Addr4 w)
  assume "\<not> addr_nat a + 2 < 2 ^ addr_BitLen a"
  then show ?thesis using Addr4 word_next_zero [of w] by auto
next
  case (Addr6 w z)
  assume "\<not> addr_nat a + 2 < 2 ^ addr_BitLen a"
  then show ?thesis using Addr6 word_next_zero [of w] by auto
qed simp

subsection \<open>The pool of a range\<close>

text \<open>
  A range the store can serve: of the right family, without a zone, and with at least two addresses
  between the base address and the last one.  Addresses are taken from behind the base address and the
  next one up to the address before the last one.
\<close>

definition wide :: "bool \<Rightarrow> prefix \<Rightarrow> bool" where
  "wide isIPv6 p \<longleftrightarrow> prefix_IsValid p \<and> addr_Zone (p_Addr p) = [] \<and> addr_Is4 (p_Addr p) = (\<not> isIPv6) \<and>
     addr_nat (p_Addr p) + 3 \<le> range_last p"

definition of_range :: "prefix \<Rightarrow> addr \<Rightarrow> bool" where
  "of_range p a \<longleftrightarrow> addr_IsValid a \<and> addr_Zone a = [] \<and> addr_BitLen a = addr_BitLen (p_Addr p) \<and>
     addr_nat a < range_last p"

definition pool :: "prefix \<Rightarrow> addr \<Rightarrow> bool" where
  "pool p a \<longleftrightarrow> of_range p a \<and> addr_nat (p_Addr p) + 2 \<le> addr_nat a"

definition current_ok :: "prefix \<Rightarrow> addr \<Rightarrow> bool" where
  "current_ok p a \<longleftrightarrow> of_range p a \<and> addr_nat (p_Addr p) + 1 \<le> addr_nat a"

definition pool_size :: "prefix \<Rightarrow> nat" where
  "pool_size p = range_last p - addr_nat (p_Addr p) - 2"

lemma range_last_less:
  assumes "wide v6 p"
  shows "range_last p < 2 ^ addr_BitLen (p_Addr p)"
proof -
  have "addr_nat a < 2 ^ addr_BitLen a" for a
  proof (cases a)
    case (Addr4 w)
    then show ?thesis using unsigned_less [of w, where 'a = nat] by simp
  next
    case (Addr6 w z)
    then show ?thesis using unsigned_less [of w, where 'a = nat] by simp
  qed simp
  then show ?thesis using broadcast_last [of p] assms by (metis wide_def)
qed

lemma range_first_le: "range_first p \<le> addr_nat (p_Addr p)"
  by (simp add: range_first_def)

lemma pool_in_range:
  assumes "wide v6 p" "pool p a"
  shows "prefix_Contains p a \<and> a \<noteq> broadcastAddress p \<and> a \<noteq> p_Addr p \<and> a \<noteq> addr_Next (p_Addr p) \<and>
    addr_Is4 a = (\<not> v6)"
proof -
  have w: "prefix_IsValid p" "addr_Zone (p_Addr p) = []" "addr_IsValid (p_Addr p)"
    "addr_nat (p_Addr p) + 3 \<le> range_last p" "addr_Is4 (p_Addr p) = (\<not> v6)"
    using assms(1) by (auto simp: wide_def prefix_IsValid_def)
  have a: "addr_IsValid a" "addr_Zone a = []" "addr_BitLen a = addr_BitLen (p_Addr p)"
    "addr_nat a < range_last p" "addr_nat (p_Addr p) + 2 \<le> addr_nat a"
    using assms(2) by (auto simp: pool_def of_range_def)
  have "addr_nat (addr_Next (p_Addr p)) = addr_nat (p_Addr p) + 1"
    using addr_Next_nat [OF w(3)] range_last_less [OF assms(1)] w(4) by simp
  moreover have "addr_Is4 a = addr_Is4 (p_Addr p)" using a(3) by (cases a; cases "p_Addr p") simp_all
  ultimately show ?thesis
    using a w range_first_le [of p] broadcast_last [OF w(1,2)] Contains_between [OF w(1,2), of a] by auto
qed

lemma next_address_pool:
  assumes w: "wide v6 p" and c: "current_ok p c"
  shows "pool p (next_address p (broadcastAddress p) c) \<and>
    addr_nat (next_address p (broadcastAddress p) c) =
      (if addr_nat c + 1 < range_last p then addr_nat c + 1 else addr_nat (p_Addr p) + 2)"
proof -
  have p: "prefix_IsValid p" "addr_Zone (p_Addr p) = []" "addr_IsValid (p_Addr p)"
    "addr_nat (p_Addr p) + 3 \<le> range_last p"
    using w by (auto simp: wide_def prefix_IsValid_def)
  have cs: "addr_IsValid c" "addr_Zone c = []" "addr_BitLen c = addr_BitLen (p_Addr p)"
    "addr_nat c < range_last p" "addr_nat (p_Addr p) + 1 \<le> addr_nat c"
    using c by (auto simp: current_ok_def of_range_def)
  note l = range_last_less [OF w] and b = broadcast_last [OF p(1,2)]
  have n: "addr_nat (addr_Next c) = addr_nat c + 1" "addr_BitLen (addr_Next c) = addr_BitLen (p_Addr p)"
      "addr_Zone (addr_Next c) = []" "addr_IsValid (addr_Next c)"
    using addr_Next_nat [OF cs(1)] cs l by auto
  define d where "d = addr_Next (addr_Next (p_Addr p))"
  have d: "addr_nat d = addr_nat (p_Addr p) + 2" "addr_BitLen d = addr_BitLen (p_Addr p)"
      "addr_Zone d = []" "addr_IsValid d"
    using addr_Next_nat [OF p(3)] addr_Next_nat [of "addr_Next (p_Addr p)"] p l by (auto simp: d_def)
  have "addr_Next c = broadcastAddress p \<or> \<not> prefix_Contains p (addr_Next c) \<longleftrightarrow> addr_nat c + 1 = range_last p"
    using n b cs(4,5) range_first_le [of p] Contains_between [OF p(1,2), of "addr_Next c"]
      addr_eq_iff [of "addr_Next c" "broadcastAddress p"] by auto
  then show ?thesis
    using n d p(4) cs(4,5)
    by (auto simp: next_address_def Let_def pool_def of_range_def simp flip: d_def)
qed

text \<open>The number of allocations until the address \<open>a\<close> is the next one.\<close>

definition gap :: "prefix \<Rightarrow> addr \<Rightarrow> addr \<Rightarrow> nat" where
  "gap p a c = (if addr_nat c < addr_nat a then addr_nat a - addr_nat c
                else pool_size p - (addr_nat c - addr_nat a))"

lemma gap_step:
  assumes "wide v6 p" "current_ok p c" "pool p a" "1 < gap p a c"
  defines "n \<equiv> next_address p (broadcastAddress p) c"
  shows "n \<noteq> a \<and> gap p a n + 1 = gap p a c"
proof -
  have "addr_nat n \<noteq> addr_nat a \<and> gap p a n + 1 = gap p a c"
    using next_address_pool [OF assms(1,2)] assms(2-4)
    by (auto simp: n_def gap_def pool_size_def pool_def of_range_def current_ok_def split: if_splits)
  then show ?thesis by auto
qed

lemma gap_self: "gap p a a = pool_size p"
  by (simp add: gap_def)

subsection \<open>The contract of a storage\<close>

text \<open>
  What the store relies on: saving a pair either fails and changes nothing or makes both lookups find
  it, forgetting the domain the address had; saving metadata changes no pair; a reset either fails and
  changes nothing or forgets every pair.  \<open>ok\<close> is the storage's own invariant and \<open>key\<close> the addresses it can
  hold.
\<close>

definition same_data :: "'s FakeIPStorage \<Rightarrow> (addr \<Rightarrow> bool) \<Rightarrow> 's \<Rightarrow> 's \<Rightarrow> bool" where
  "same_data ops key s s' \<longleftrightarrow>
     (\<forall>a. key a \<longrightarrow> fs_Load ops a s' = fs_Load ops a s) \<and>
     (\<forall>d v6. fs_LoadDomain ops d v6 s' = fs_LoadDomain ops d v6 s)"

definition stored :: "'s FakeIPStorage \<Rightarrow> (addr \<Rightarrow> bool) \<Rightarrow> addr \<Rightarrow> string \<Rightarrow> 's \<Rightarrow> 's \<Rightarrow> bool" where
  "stored ops key a d s s' \<longleftrightarrow>
     (\<forall>b. key b \<longrightarrow> fs_Load ops b s' = (if b = a then Some d else fs_Load ops b s)) \<and>
     (\<forall>e v6. fs_LoadDomain ops e v6 s' =
        (if v6 = addr_Is4 a then fs_LoadDomain ops e v6 s
         else if e = d then Some a
         else if fs_Load ops a s = Some e then None
         else fs_LoadDomain ops e v6 s))"

definition cleared :: "'s FakeIPStorage \<Rightarrow> (addr \<Rightarrow> bool) \<Rightarrow> 's \<Rightarrow> bool" where
  "cleared ops key s \<longleftrightarrow>
     (\<forall>a. key a \<longrightarrow> fs_Load ops a s = None) \<and> (\<forall>d v6. fs_LoadDomain ops d v6 s = None)"

text \<open>The fields of a store by address family.\<close>

definition rng :: "bool \<Rightarrow> 's Store \<Rightarrow> prefix" where
  "rng isIPv6 s = (if isIPv6 then st_inet6Range s else st_inet4Range s)"

definition lst :: "bool \<Rightarrow> 's Store \<Rightarrow> addr" where
  "lst isIPv6 s = (if isIPv6 then st_inet6Last s else st_inet4Last s)"

definition cur :: "bool \<Rightarrow> 's Store \<Rightarrow> addr" where
  "cur isIPv6 s = (if isIPv6 then st_inet6Current s else st_inet4Current s)"

definition family_ok :: "bool \<Rightarrow> 's Store \<Rightarrow> bool" where
  "family_ok isIPv6 s \<longleftrightarrow>
     (if prefix_IsValid (rng isIPv6 s)
      then wide isIPv6 (rng isIPv6 s) \<and> lst isIPv6 s = broadcastAddress (rng isIPv6 s) \<and>
           current_ok (rng isIPv6 s) (cur isIPv6 s)
      else cur isIPv6 s = AddrZero)"

definition pairs_ok :: "'s FakeIPStorage \<Rightarrow> 's \<Rightarrow> 's Store \<Rightarrow> bool" where
  "pairs_ok ops st s \<longleftrightarrow>
     (\<forall>v6 d a. fs_LoadDomain ops d v6 st = Some a \<longleftrightarrow>
        prefix_IsValid (rng v6 s) \<and> pool (rng v6 s) a \<and> fs_Load ops a st = Some d)"

definition store_inv :: "'s FakeIPStorage \<Rightarrow> ('s \<Rightarrow> bool) \<Rightarrow> (addr \<Rightarrow> bool) \<Rightarrow> 's Store \<Rightarrow> bool" where
  "store_inv ops ok key s \<longleftrightarrow>
     (\<forall>v6. family_ok v6 s) \<and>
     (\<forall>v6 a. prefix_IsValid (rng v6 s) \<longrightarrow> pool (rng v6 s) a \<longrightarrow> key a) \<and>
     (case st_storage s of None \<Rightarrow> False | Some st \<Rightarrow> ok st \<and> pairs_ok ops st s)"

lemmas family_simps = rng_def lst_def cur_def

lemma family_ok_storage [simp]: "family_ok v6 (s\<lparr>st_storage := x\<rparr>) = family_ok v6 s"
  by (simp add: family_ok_def family_simps)

lemma rng_storage [simp]:
  "rng v6 (s\<lparr>st_storage := x\<rparr>) = rng v6 s" "cur v6 (s\<lparr>st_storage := x\<rparr>) = cur v6 s"
  by (simp_all add: family_simps)

lemma pairs_ok_rng: "(\<And>v6. rng v6 s' = rng v6 s) \<Longrightarrow> pairs_ok ops st s' = pairs_ok ops st s"
  by (simp add: pairs_ok_def)

lemma allocate_cases:
  assumes "family_ok v6 s" "family_ok (\<not> v6) s"
  obtains
    (missing) err where "\<not> prefix_IsValid (rng v6 s)" "allocate v6 s = Inl err"
  | (fresh) a s1 where "wide v6 (rng v6 s)" "allocate v6 s = Inr (a, s1)" "pool (rng v6 s) a"
      "a = next_address (rng v6 s) (broadcastAddress (rng v6 s)) (cur v6 s)"
      "cur v6 s1 = a" "cur (\<not> v6) s1 = cur (\<not> v6) s" "\<And>f. rng f s1 = rng f s" "\<And>f. lst f s1 = lst f s"
      "st_storage s1 = st_storage s" "\<And>f. family_ok f s1"
proof (cases "prefix_IsValid (rng v6 s)")
  case False
  then have "allocate v6 s = Inl (New (if v6 then ''missing IPv6 fakeip address range'' else ''missing IPv4 fakeip address range''))"
    using assms by (simp add: family_ok_def family_simps allocate_def split: if_splits)
  then show ?thesis using False missing by blast
next
  case True
  define a where "a = next_address (rng v6 s) (broadcastAddress (rng v6 s)) (cur v6 s)"
  define s1 where "s1 = (if v6 then s\<lparr>st_inet6Current := a\<rparr> else s\<lparr>st_inet4Current := a\<rparr>)"
  have w: "wide v6 (rng v6 s)" "lst v6 s = broadcastAddress (rng v6 s)" "current_ok (rng v6 s) (cur v6 s)"
    using assms(1) True by (simp_all add: family_ok_def)
  then have "addr_IsValid (cur v6 s)" by (simp add: current_ok_def of_range_def)
  then have alloc: "allocate v6 s = Inr (a, s1)"
    using w(2) by (simp add: allocate_def a_def s1_def family_simps Let_def split: if_splits)
  have p: "pool (rng v6 s) a" using next_address_pool [OF w(1,3)] by (simp add: a_def)
  have fields: "cur v6 s1 = a" "cur (\<not> v6) s1 = cur (\<not> v6) s" "\<And>f. rng f s1 = rng f s" "\<And>f. lst f s1 = lst f s"
      "st_storage s1 = st_storage s"
    by (simp_all add: s1_def family_simps)
  have "current_ok (rng v6 s) a" using p by (simp add: pool_def current_ok_def)
  then have "family_ok v6 s1" "family_ok (\<not> v6) s1"
    using assms True w by (simp_all add: family_ok_def fields)
  then have "family_ok f s1" for f by (cases "f = v6") simp_all
  then show ?thesis using fresh [OF w(1) alloc p a_def fields] by blast
qed

lemma pairs_ok_stored:
  assumes pairs: "pairs_ok ops st s" and new: "fs_LoadDomain ops d v6 st = None" and st: "stored ops key a d st st'"
    and w: "wide v6 (rng v6 s)" and p: "pool (rng v6 s) a"
    and fam: "\<And>f. prefix_IsValid (rng f s) \<Longrightarrow> wide f (rng f s)"
    and key: "\<And>f b. prefix_IsValid (rng f s) \<Longrightarrow> pool (rng f s) b \<Longrightarrow> key b"
  shows "pairs_ok ops st' s"
proof -
  have a: "addr_Is4 a = (\<not> v6)" "prefix_IsValid (rng v6 s)" using pool_in_range [OF w p] w by (auto simp: wide_def)
  have is4: "addr_Is4 b = (\<not> f)" if "prefix_IsValid (rng f s)" "pool (rng f s) b" for f b
    using pool_in_range [OF fam [OF that(1)] that(2)] by simp
  have load: "fs_Load ops b st' = (if b = a then Some d else fs_Load ops b st)"
    if "prefix_IsValid (rng f s)" "pool (rng f s) b" for f b
    using st key [OF that] by (simp add: stored_def)
  have dom: "fs_LoadDomain ops e f st' =
      (if f \<noteq> v6 then fs_LoadDomain ops e f st else if e = d then Some a
       else if fs_Load ops a st = Some e then None else fs_LoadDomain ops e f st)" for e f
    using st a by (auto simp: stored_def)
  have old: "fs_LoadDomain ops e f st = Some b \<longleftrightarrow>
      prefix_IsValid (rng f s) \<and> pool (rng f s) b \<and> fs_Load ops b st = Some e" for e f b
    using pairs by (simp add: pairs_ok_def)
  show ?thesis unfolding pairs_ok_def
  proof (intro allI)
    fix f e b
    show "fs_LoadDomain ops e f st' = Some b \<longleftrightarrow>
        prefix_IsValid (rng f s) \<and> pool (rng f s) b \<and> fs_Load ops b st' = Some e"
    proof (cases "f = v6")
      case True
      then show ?thesis using load [of v6 b] dom [of e v6] old [of e v6 b] old [of e v6 a] new old [of d v6 b] p a(2) by auto
    next
      case False
      then have "prefix_IsValid (rng f s) \<Longrightarrow> pool (rng f s) b \<Longrightarrow> b \<noteq> a" using is4 [of f b] a by auto
      then show ?thesis using False load [of f b] dom [of e f] old [of e f b] by auto
    qed
  qed
qed

lemma pairs_ok_same:
  assumes "same_data ops key st st'" "pairs_ok ops st s"
    and "\<And>f b. prefix_IsValid (rng f s) \<Longrightarrow> pool (rng f s) b \<Longrightarrow> key b"
  shows "pairs_ok ops st' s"
  using assms unfolding pairs_ok_def same_data_def by metis

text \<open>Creating pairs, one after the other.\<close>

definition create_all :: "'s FakeIPStorage \<Rightarrow> (string \<times> bool) list \<Rightarrow> 's Store \<Rightarrow> 's Store" where
  "create_all ops xs s = foldl (\<lambda>s (d, v6). snd (Store_Create ops d v6 s)) s xs"

locale fakeip_storage =
  fixes ops :: "'s FakeIPStorage" and ok :: "'s \<Rightarrow> bool" and key :: "addr \<Rightarrow> bool"
  assumes store_ok: "ok st \<Longrightarrow> key a \<Longrightarrow> ok (snd (fs_Store ops a d st))"
    and store_law: "ok st \<Longrightarrow> key a \<Longrightarrow>
      (if fst (fs_Store ops a d st) = None then stored ops key a d st (snd (fs_Store ops a d st))
       else same_data ops key st (snd (fs_Store ops a d st)))"
    and async_law: "ok st \<Longrightarrow> ok (fs_SaveMetadataAsync ops m st) \<and> same_data ops key st (fs_SaveMetadataAsync ops m st)"
    and save_law: "ok st \<Longrightarrow> ok (snd (fs_SaveMetadata ops m st)) \<and> same_data ops key st (snd (fs_SaveMetadata ops m st))"
    and reset_law: "ok st \<Longrightarrow> ok (snd (fs_Reset ops st)) \<and>
      (if fst (fs_Reset ops st) = None then cleared ops key (snd (fs_Reset ops st))
       else same_data ops key st (snd (fs_Reset ops st)))"
begin

abbreviation inv_store :: "'s Store \<Rightarrow> bool" where "inv_store \<equiv> store_inv ops ok key"

lemma create_locked_cases:
  assumes inv: "inv_store s" and st: "st_storage s = Some st"
  obtains
    (loaded) a where "fs_LoadDomain ops d v6 st = Some a" "create_locked ops d v6 st s = (Inr a, s)"
  | (missing) err where "\<not> prefix_IsValid (rng v6 s)" "create_locked ops d v6 st s = (Inl err, s)"
      "fs_LoadDomain ops d v6 st = None"
  | (fresh) a s' st' where "fs_LoadDomain ops d v6 st = None" "create_locked ops d v6 st s = (Inr a, s')"
      "wide v6 (rng v6 s)" "pool (rng v6 s) a" "inv_store s'" "st_storage s' = Some st'"
      "if fst (fs_Store ops a d st) = None then stored ops key a d st st' else same_data ops key st st'"
      "a = next_address (rng v6 s) (broadcastAddress (rng v6 s)) (cur v6 s)"
      "cur v6 s' = a" "cur (\<not> v6) s' = cur (\<not> v6) s" "\<And>f. rng f s' = rng f s"
proof (cases "fs_LoadDomain ops d v6 st")
  case (Some a)
  then show ?thesis using loaded by (simp add: create_locked_def)
next
  case None
  have fam: "family_ok v6 s" "family_ok (\<not> v6) s" "\<And>f. family_ok f s"
    and key: "\<And>f b. prefix_IsValid (rng f s) \<Longrightarrow> pool (rng f s) b \<Longrightarrow> key b"
    and okst: "ok st" and pairs: "pairs_ok ops st s"
    using inv st by (auto simp: store_inv_def)
  from fam(1,2) show ?thesis
  proof (cases rule: allocate_cases)
    case m: (missing err)
    then show ?thesis using missing None by (simp add: create_locked_def)
  next
    case f: (fresh a s1)
    have valid: "prefix_IsValid (rng v6 s)" using f(1) by (simp add: wide_def)
    define st1 where "st1 = snd (fs_Store ops a d st)"
    define st2 where "st2 = fs_SaveMetadataAsync ops (Store_metadata s1) st1"
    have k: "key a" using key [OF valid f(3)] .
    have ok1: "ok st1" using store_ok [OF okst k] by (simp add: st1_def)
    then have ok2: "ok st2" and same: "same_data ops key st1 st2"
      using async_law by (simp_all add: st2_def)
    have eff: "if fst (fs_Store ops a d st) = None then stored ops key a d st st2 else same_data ops key st st2"
      using store_law [OF okst k, of d] same k unfolding st1_def [symmetric]
      by (auto simp: stored_def same_data_def)
    have wf: "prefix_IsValid (rng g s) \<Longrightarrow> wide g (rng g s)" for g
      using fam(3) [of g] by (simp add: family_ok_def)
    have "pairs_ok ops st2 s"
      using eff pairs_ok_stored [OF pairs None _ f(1,3) wf key] pairs_ok_same [OF _ pairs key]
      by (auto split: if_splits)
    then have "inv_store (s1\<lparr>st_storage := Some st2\<rparr>)"
      using f(7,10) ok2 key by (auto simp: store_inv_def pairs_ok_def)
    moreover have "create_locked ops d v6 st s = (Inr a, s1\<lparr>st_storage := Some st2\<rparr>)"
      using None f(2) by (simp add: create_locked_def st1_def st2_def)
    ultimately show ?thesis
      using fresh [OF None _ f(1,3)] eff f(4-7) by simp
  qed
qed

lemma inv_started: "inv_store s \<Longrightarrow> \<exists>st. st_storage s = Some st"
  by (cases "st_storage s") (simp_all add: store_inv_def)

lemma create_eq:
  "st_storage s = Some st \<Longrightarrow> Store_Create ops d v6 s = create_locked ops d v6 st s"
  by (simp add: Store_Create_def create_locked_def split: option.splits)

lemma create_inv:
  assumes "inv_store s"
  shows "inv_store (snd (Store_Create ops d v6 s))"
proof -
  obtain st where st: "st_storage s = Some st" using inv_started [OF assms] by auto
  from assms st show ?thesis unfolding create_eq [OF st]
    by (cases rule: create_locked_cases [where d = d and ?v6.0 = v6]) (simp_all add: assms)
qed

lemma create_spec:
  assumes inv: "inv_store s" and r: "Store_Create ops d v6 s = (Inr a, s')"
  shows "prefix_IsValid (rng v6 s) \<and> pool (rng v6 s) a"
proof -
  obtain st where st: "st_storage s = Some st" using inv_started [OF inv] by auto
  have p: "pairs_ok ops st s" using inv st by (simp add: store_inv_def)
  from inv st show ?thesis using r p unfolding create_eq [OF st]
    by (cases rule: create_locked_cases [where d = d and ?v6.0 = v6]) (auto simp: pairs_ok_def wide_def)
qed

lemma create_answers:
  assumes "inv_store s" "prefix_IsValid (rng v6 s)"
  shows "\<exists>a s'. Store_Create ops d v6 s = (Inr a, s') \<and> (\<forall>f. rng f s' = rng f s)"
proof -
  obtain st where st: "st_storage s = Some st" using inv_started [OF assms(1)] by auto
  from assms(1) st show ?thesis unfolding create_eq [OF st]
    by (cases rule: create_locked_cases [where d = d and ?v6.0 = v6]) (use assms in auto)
qed

lemma create_rng: "inv_store s \<Longrightarrow> rng f (snd (Store_Create ops d v6 s)) = rng f s"
proof -
  assume inv: "inv_store s"
  then obtain st where st: "st_storage s = Some st" using inv_started by auto
  from inv st show ?thesis unfolding create_eq [OF st]
    by (cases rule: create_locked_cases [where d = d and ?v6.0 = v6]) auto
qed

lemma same_inv:
  assumes "inv_store s" "st_storage s = Some st" "ok st'" "same_data ops key st st'"
  shows "inv_store (s\<lparr>st_storage := Some st'\<rparr>)"
  using assms pairs_ok_same [OF assms(4), of s] by (auto simp: store_inv_def pairs_ok_def)

lemma reset_inv:
  assumes "inv_store s"
  shows "inv_store (snd (Store_Reset ops s)) \<and> rng f (snd (Store_Reset ops s)) = rng f s"
proof -
  obtain st where st: "st_storage s = Some st" using inv_started [OF assms] by auto
  then have o: "ok st" using assms by (simp add: store_inv_def)
  show ?thesis
  proof (cases "fst (fs_Reset ops st)")
    case None
    then show ?thesis using st reset_law [OF o] assms
      by (auto simp: Store_Reset_def store_inv_def pairs_ok_def cleared_def split: prod.splits)
  next
    case (Some err)
    then have "same_data ops key st (snd (fs_Reset ops st))" "ok (snd (fs_Reset ops st))"
      using reset_law [OF o] by simp_all
    from same_inv [OF assms st this(2,1)] show ?thesis
      using st by (simp add: Store_Reset_def split_beta)
  qed
qed

lemma close_inv:
  assumes "inv_store s"
  shows "inv_store (snd (Store_Close ops s)) \<and> rng f (snd (Store_Close ops s)) = rng f s"
proof -
  obtain st where st: "st_storage s = Some st" using inv_started [OF assms] by auto
  then have o: "ok st" using assms by (simp add: store_inv_def)
  show ?thesis
    using same_inv [OF assms st] save_law [OF o, of "Store_metadata s"] st by (simp add: Store_Close_def split_beta)
qed

lemma exchange_store:
  "snd (Transport_Exchange ops IsFqdn m t) = t \<or>
   (\<exists>d v6. snd (Transport_Exchange ops IsFqdn m t) = t\<lparr>tr_store := snd (Store_Create ops d v6 (tr_store t))\<rparr>)"
  by (auto simp: Transport_Exchange_def split_beta split: list.splits)

text \<open>A pair that was saved is found in both directions, and asking again gives the same address.\<close>

lemma create_found:
  assumes inv: "inv_store s" and r: "Store_Create ops d v6 s = (Inr a, s')"
    and saved: "\<And>st a. ok st \<Longrightarrow> fst (fs_Store ops a d st) = None"
  shows "Store_Lookup ops a s' = Inr (Some d) \<and> Store_Create ops d v6 s' = (Inr a, s')"
proof -
  obtain st where st: "st_storage s = Some st" using inv_started [OF inv] by auto
  have p: "pairs_ok ops st s" "ok st" using inv st by (auto simp: store_inv_def)
  from inv st show ?thesis
  proof (cases rule: create_locked_cases [where d = d and ?v6.0 = v6])
    case (loaded b)
    moreover have "fs_Load ops b st = Some d" using loaded(1) p(1) by (simp add: pairs_ok_def)
    ultimately show ?thesis using r st unfolding create_eq [OF st]
      by (auto simp: Store_Lookup_def Store_Create_def)
  next
    case (missing err)
    then show ?thesis using r unfolding create_eq [OF st] by simp
  next
    case (fresh b t st')
    have k: "key b" using inv fresh(3,4) by (auto simp: store_inv_def wide_def)
    have "stored ops key b d st st'" using fresh(7) saved [OF p(2)] by simp
    moreover have "addr_Is4 b = (\<not> v6)" using pool_in_range [OF fresh(3,4)] by simp
    ultimately have "fs_Load ops b st' = Some d" "fs_LoadDomain ops d v6 st' = Some b"
      using k by (auto simp: stored_def)
    then show ?thesis using r fresh(2,6) unfolding create_eq [OF st]
      by (auto simp: Store_Lookup_def Store_Create_def)
  qed
qed

lemma pair_kept:
  assumes "inv_store s" "st_storage s = Some st" "fs_LoadDomain ops d v6 st = Some a"
    "length (filter (\<lambda>(e, f). f = v6) xs) < gap (rng v6 s) a (cur v6 s)"
  shows "\<exists>st'. inv_store (create_all ops xs s) \<and> st_storage (create_all ops xs s) = Some st' \<and>
    fs_LoadDomain ops d v6 st' = Some a"
  using assms
proof (induction xs arbitrary: s st)
  case Nil
  then show ?case by (simp add: create_all_def)
next
  case (Cons x xs)
  obtain e f where x: "x = (e, f)" by (cases x)
  have eq: "create_all ops ((e, f) # xs) s = create_all ops xs (snd (create_locked ops e f st s))"
    using Cons.prems(2) by (simp add: create_all_def x create_eq)
  have valid: "prefix_IsValid (rng v6 s)" and pa: "pool (rng v6 s) a" and load: "fs_Load ops a st = Some d"
    using Cons.prems(1-3) by (auto simp: store_inv_def pairs_ok_def)
  have ka: "key a" using Cons.prems(1) valid pa by (auto simp: store_inv_def)
  from Cons.prems(1,2) show ?case
  proof (cases rule: create_locked_cases [where d = e and ?v6.0 = f])
    case (loaded b)
    then show ?thesis using Cons.IH [OF Cons.prems(1-3)] Cons.prems(4) by (simp add: eq x split: if_splits)
  next
    case (missing err)
    then show ?thesis using Cons.IH [OF Cons.prems(1-3)] Cons.prems(4) by (simp add: eq x split: if_splits)
  next
    case (fresh b s' st')
    have "wide v6 (rng v6 s)" "current_ok (rng v6 s) (cur v6 s)"
      using Cons.prems(1) valid by (auto simp: store_inv_def family_ok_def)
    note step = gap_step [OF this pa]
    have ne: "b \<noteq> a \<and> length (filter (\<lambda>(e, f). f = v6) xs) < gap (rng v6 s') a (cur v6 s')"
    proof (cases "f = v6")
      case True
      then show ?thesis using step Cons.prems(4) fresh(8,9,11) by (auto simp: x)
    next
      case False
      then have "f = (\<not> v6)" by auto
      moreover have "addr_Is4 b = (\<not> f)" using pool_in_range [OF fresh(3,4)] by simp
      moreover have "addr_Is4 a = (\<not> v6)"
        using pool_in_range [OF \<open>wide v6 (rng v6 s)\<close> pa] by simp
      ultimately show ?thesis using Cons.prems(4) fresh(10,11) by (auto simp: x)
    qed
    have kept: "fs_LoadDomain ops d v6 st' = Some a"
    proof -
      have "pairs_ok ops st' s'" "fs_Load ops a st' = Some d"
        using fresh(5,6,7) ka load ne by (auto simp: store_inv_def stored_def same_data_def split: if_splits)
      then show ?thesis using valid pa fresh(11) by (simp add: pairs_ok_def)
    qed
    show ?thesis using Cons.IH [OF fresh(5,6) kept] ne fresh(2) by (simp add: eq x)
  qed
qed

end

subsection \<open>The storage in memory\<close>

lemmas memory_simps = either_ops_def memory_ops_def MemoryStorage_FakeIPLoadDomain_def
  MemoryStorage_FakeIPReset_def

lemma memory_store:
  "fs_Store (either_ops c) a d (Inl m) = (None, Inl (snd (MemoryStorage_FakeIPStore a d m)))"
  "stored (either_ops c) key a d (Inl m) (Inl (snd (MemoryStorage_FakeIPStore a d m)))"
  by (auto simp: stored_def memory_simps MemoryStorage_FakeIPStore_def Let_def split: option.splits)

lemma memory_saves: "isl st \<Longrightarrow> fst (fs_Store (either_ops c) a d st) = None"
  by (cases st) (simp_all add: memory_store)

interpretation mem: fakeip_storage "either_ops c" isl "\<lambda>_. True" for c
proof (unfold_locales, goal_cases)
  case (1 st a d)
  then show ?case by (cases st) (simp_all add: memory_store)
next
  case (2 st a d)
  then show ?case by (cases st) (simp_all add: memory_store)
next
  case (3 st m)
  then show ?case by (cases st) (simp_all add: memory_simps same_data_def)
next
  case (4 st m)
  then show ?case by (cases st) (simp_all add: memory_simps same_data_def)
next
  case (5 st)
  then show ?case by (cases st) (simp_all add: memory_simps cleared_def)
qed

text \<open>The context has no cache file, or one that is not to hold fake addresses.\<close>

fun uses_memory :: "('c \<times> bool) option \<Rightarrow> bool" where
  "uses_memory (Some (_, storeFakeIP)) \<longleftrightarrow> \<not> storeFakeIP"
| "uses_memory None \<longleftrightarrow> True"

text \<open>What a transport on the storage in memory can become.\<close>

inductive fakeip_reach ::
  "'c FakeIPStorage \<Rightarrow> (string \<Rightarrow> bool) \<Rightarrow> prefix \<Rightarrow> prefix \<Rightarrow> (MemoryStorage + 'c) Transport \<Rightarrow> bool"
  for c IsFqdn r4 r6 where
  start: "NewTransport r4 r6 = Inr t \<Longrightarrow> uses_memory cacheFile \<Longrightarrow>
    fakeip_reach c IsFqdn r4 r6 (Transport_Start c cacheFile True t)"
| exchange: "fakeip_reach c IsFqdn r4 r6 t \<Longrightarrow>
    fakeip_reach c IsFqdn r4 r6 (snd (Transport_Exchange (either_ops c) IsFqdn m t))"
| reset: "fakeip_reach c IsFqdn r4 r6 t \<Longrightarrow>
    fakeip_reach c IsFqdn r4 r6 (t\<lparr>tr_store := snd (Store_Reset (either_ops c) (tr_store t))\<rparr>)"
| close: "fakeip_reach c IsFqdn r4 r6 t \<Longrightarrow> fakeip_reach c IsFqdn r4 r6 (snd (Transport_Close (either_ops c) t))"

definition range_ok :: "bool \<Rightarrow> prefix \<Rightarrow> bool" where
  "range_ok isIPv6 p \<longleftrightarrow> (if prefix_IsValid p then wide isIPv6 p else True)"

lemma start_inv:
  assumes "range_ok False r4" "range_ok True r6" "uses_memory cacheFile"
  shows "store_inv (either_ops c) isl (\<lambda>_. True) (Store_Start c cacheFile (NewStore r4 r6)) \<and>
    (\<forall>f. rng f (Store_Start c cacheFile (NewStore r4 r6)) = (if f then r6 else r4))"
proof -
  have cur: "current_ok p (addr_Next (p_Addr p))" if w: "wide v6 p" for v6 p
    using w addr_Next_nat [of "p_Addr p"] range_last_less [OF w]
    by (auto simp: current_ok_def of_range_def wide_def prefix_IsValid_def)
  have m: "choose_storage cacheFile = Inl NewMemoryStorage"
    using assms(3) by (cases cacheFile rule: uses_memory.cases) (simp_all add: choose_storage_def)
  define s where "s = Store_Start c cacheFile (NewStore r4 r6)"
  have st: "st_storage s = Some (Inl NewMemoryStorage)"
    by (simp add: s_def Store_Start_def m start_on_def start_fresh_def memory_simps Let_def NewMemoryStorage_def)
  have r: "rng f s = (if f then r6 else r4)" for f
    by (simp add: s_def Store_Start_def m start_on_def start_fresh_def memory_simps Let_def NewStore_def family_simps)
  have "family_ok f s" for f
    using assms(1,2) cur
    by (auto simp: s_def Store_Start_def m start_on_def start_fresh_def memory_simps Let_def NewStore_def
        family_ok_def family_simps range_ok_def)
  then show ?thesis
    using st r unfolding s_def [symmetric]
    by (simp add: store_inv_def pairs_ok_def memory_simps NewMemoryStorage_def)
qed

lemma reach_inv:
  assumes "fakeip_reach c IsFqdn r4 r6 t" "range_ok False r4" "range_ok True r6"
  shows "store_inv (either_ops c) isl (\<lambda>_. True) (tr_store t) \<and>
    (\<forall>f. rng f (tr_store t) = (if f then r6 else r4)) \<and>
    tr_inet4Enabled t = prefix_IsValid r4 \<and> tr_inet6Enabled t = prefix_IsValid r6"
  using assms
proof (induction rule: fakeip_reach.induct)
  case (start t cacheFile)
  have "t = \<lparr>tr_store = NewStore r4 r6, tr_inet4Enabled = prefix_IsValid r4, tr_inet6Enabled = prefix_IsValid r6\<rparr>"
    using start(1) unfolding NewTransport_def by (simp split: if_splits)
  then show ?case
    using start_inv [OF start(3,4,2), of c] by (simp add: Transport_Start_def)
next
  case (exchange t m)
  note IH = exchange.IH [OF exchange.prems]
  from mem.exchange_store [of c IsFqdn m t] show ?case
  proof (elim disjE exE)
    fix d v6 assume t': "snd (Transport_Exchange (either_ops c) IsFqdn m t) =
      t\<lparr>tr_store := snd (Store_Create (either_ops c) d v6 (tr_store t))\<rparr>"
    show ?thesis
      using IH mem.create_inv [of c "tr_store t" d v6] mem.create_rng [of c "tr_store t" _ d v6]
      unfolding t' by simp
  qed (use IH in simp)
next
  case (reset t)
  then show ?case using mem.reset_inv [of c "tr_store t"] by simp
next
  case (close t)
  then show ?case using mem.close_inv [of c "tr_store t"] by (simp add: Transport_Close_def split_beta)
qed

subsection \<open>Properties\<close>


definition ex_range :: prefix where "ex_range = \<lparr>p_Addr = Addr4 0xC6120000, p_Bits = 29\<rparr>"

definition ex_transport :: "(MemoryStorage + MemoryStorage) Transport" where
  "ex_transport = Transport_Start memory_ops None True
     \<lparr>tr_store = NewStore ex_range PrefixZero, tr_inet4Enabled = True, tr_inet6Enabled = False\<rparr>"

definition ex_query :: dns_msg where
  "ex_query = \<lparr>d_Id = 7, d_Response = False, d_Authoritative = False, d_RecursionDesired = True,
     d_RecursionAvailable = False, d_Rcode = 0,
     d_Question = [\<lparr>q_Name = ''a.'', q_Qtype = TypeA, q_Qclass = ClassINET\<rparr>],
     d_Answer = [], d_Ns = [], d_Extra = []\<rparr>"

lemma ex_range_facts:
  "prefix_IsValid ex_range" "range_ok False ex_range" "range_ok True PrefixZero" "pool_size ex_range = 5"
  by (simp_all add: ex_range_def PrefixZero_def range_ok_def wide_def prefix_IsValid_def range_last_def
      range_first_def range_size_def pool_size_def)

lemma ex_transport_reach: "fakeip_reach memory_ops IsFqdn ex_range PrefixZero ex_transport"
  unfolding ex_transport_def
  by (rule fakeip_reach.start) (simp_all add: NewTransport_def ex_range_facts(1) PrefixZero_def prefix_IsValid_def [of "\<lparr>p_Addr = AddrZero, p_Bits = _\<rparr>"])






end
