(* ===== verification/Cache_File.thy ===== *)
theory Cache_File
  imports Fakeip
begin

text \<open>
  The cache file (\<^verbatim>\<open>experimental/cachefile/cache.go\<close>, \<^verbatim>\<open>fakeip.go\<close>, \<^verbatim>\<open>rdrc.go\<close>): the Clash mode, the selected
  outbound and the expanded groups, the rejected DNS responses, and the storage of fake addresses, which
  is the second implementation of \<^verbatim>\<open>adapter.FakeIPStorage\<close>.

  The database is the library bbolt: the record \<open>bbolt\<close> has what the code calls of it, over buckets named
  by their path, and \<open>bbolt_documented\<close> is what its documentation says of these calls.  A transaction
  works on the database and is rolled back when it returns an error or when the commit fails; when it
  panics, the file is removed and opened again (\<^verbatim>\<open>resetDB\<close>).
\<close>

subsection \<open>The database\<close>

type_synonym bucket_path = "bytes list"

record 'db bbolt =
  b_Bucket :: "'db \<Rightarrow> bucket_path \<Rightarrow> bool"
  b_Get :: "'db \<Rightarrow> bucket_path \<Rightarrow> bytes \<Rightarrow> bytes option"
  b_CreateBucketIfNotExists :: "'db \<Rightarrow> bucket_path \<Rightarrow> 'db res"
  b_Put :: "'db \<Rightarrow> bucket_path \<Rightarrow> bytes \<Rightarrow> bytes \<Rightarrow> 'db res"
  b_Delete :: "'db \<Rightarrow> bucket_path \<Rightarrow> bytes \<Rightarrow> 'db res"
  b_DeleteBucket :: "'db \<Rightarrow> bucket_path \<Rightarrow> 'db res"
  b_Keys :: "'db \<Rightarrow> bucket_path \<Rightarrow> bytes list"
  b_Buckets :: "'db \<Rightarrow> bucket_path \<Rightarrow> bytes list"
  b_Commit :: "'db \<Rightarrow> 'db \<Rightarrow> error option"
  b_Reset :: "'db \<Rightarrow> 'db"

record saveCacheKey =
  k_TransportName :: string
  k_QuestionName :: string
  k_QType :: "16 word"

record saveDNSCacheEntry =
  e_rawMessage :: bytes
  e_expireAt :: int
  e_sequence :: "64 word"
  e_saving :: bool

text \<open>The timer of \<^verbatim>\<open>FakeIPSaveMetadataAsync\<close>: the metadata its function holds, and whether it is running.\<close>

record 'db CacheFile =
  cf_cacheID :: "bytes option"
  cf_storeFakeIP :: bool
  cf_storeRDRC :: bool
  cf_storeDNS :: bool
  cf_disableExpire :: bool
  cf_rdrcTimeout :: duration
  cf_optimisticTimeout :: duration
  cf_DB :: 'db
  cf_saveMetadataTimer :: "(FakeIPMetadata \<times> bool) option"
  cf_saveDomain :: "addr \<rightharpoonup> string"
  cf_saveAddress4 :: "string \<rightharpoonup> addr"
  cf_saveAddress6 :: "string \<rightharpoonup> addr"
  cf_saveRDRC :: "saveCacheKey \<rightharpoonup> bool"
  cf_saveDNSCache :: "saveCacheKey \<rightharpoonup> saveDNSCacheEntry"

definition bucketSelected :: bytes where "bucketSelected = str_bytes ''selected''"
definition bucketExpand :: bytes where "bucketExpand = str_bytes ''group_expand''"
definition bucketMode :: bytes where "bucketMode = str_bytes ''clash_mode''"
definition bucketRuleSet :: bytes where "bucketRuleSet = str_bytes ''rule_set''"
definition bucketRDRC :: bytes where "bucketRDRC = str_bytes ''rdrc2''"
definition cacheIDDefault :: bytes where "cacheIDDefault = str_bytes ''default''"

definition fakeipBucketPrefix :: string where "fakeipBucketPrefix = ''fakeip_''"
definition bucketFakeIP :: bytes where "bucketFakeIP = str_bytes (fakeipBucketPrefix @ ''address'')"
definition bucketFakeIPDomain4 :: bytes where "bucketFakeIPDomain4 = str_bytes (fakeipBucketPrefix @ ''domain4'')"
definition bucketFakeIPDomain6 :: bytes where "bucketFakeIPDomain6 = str_bytes (fakeipBucketPrefix @ ''domain6'')"
definition keyMetadata :: bytes where "keyMetadata = str_bytes (fakeipBucketPrefix @ ''metadata'')"

record CacheFileOptions =
  co_CacheID :: string
  co_StoreFakeIP :: bool
  co_StoreRDRC :: bool
  co_StoreDNS :: bool
  co_RDRCTimeout :: duration

definition NewCacheFile :: "'db \<Rightarrow> CacheFileOptions \<Rightarrow> 'db CacheFile" where
  "NewCacheFile db options =
     \<lparr>cf_cacheID = (if co_CacheID options \<noteq> [] then Some (0 # str_bytes (co_CacheID options)) else None),
      cf_storeFakeIP = co_StoreFakeIP options, cf_storeRDRC = co_StoreRDRC options,
      cf_storeDNS = co_StoreDNS options, cf_disableExpire = False,
      cf_rdrcTimeout = (if co_StoreRDRC options
                        then if co_RDRCTimeout options > 0 then co_RDRCTimeout options else 7 * 24 * 3600 * 10 ^ 9
                        else 0),
      cf_optimisticTimeout = 0, cf_DB = db, cf_saveMetadataTimer = None,
      cf_saveDomain = Map.empty, cf_saveAddress4 = Map.empty, cf_saveAddress6 = Map.empty,
      cf_saveRDRC = Map.empty, cf_saveDNSCache = Map.empty\<rparr>"

definition SetOptimisticTimeout :: "duration \<Rightarrow> 'db CacheFile \<Rightarrow> 'db CacheFile" where
  "SetOptimisticTimeout timeout c = c\<lparr>cf_optimisticTimeout := timeout\<rparr>"

definition SetDisableExpire :: "bool \<Rightarrow> 'db CacheFile \<Rightarrow> 'db CacheFile" where
  "SetDisableExpire disableExpire c = c\<lparr>cf_disableExpire := disableExpire\<rparr>"

text \<open>
  \<^verbatim>\<open>batch\<close> and \<^verbatim>\<open>update\<close>, which differ only in how the library groups the transactions, and \<^verbatim>\<open>view\<close>.  The value
  a transaction assigns to a variable of its caller is the second part of its result; a caller ignores
  it when there is an error.
\<close>

definition resetDB :: "'db bbolt \<Rightarrow> 'db CacheFile \<Rightarrow> 'db CacheFile" where
  "resetDB B c = c\<lparr>cf_DB := b_Reset B (cf_DB c)\<rparr>"

definition batch ::
  "'db bbolt \<Rightarrow> ('db \<Rightarrow> ('db \<times> 'r) res) \<Rightarrow> 'db CacheFile \<Rightarrow> 'r res \<times> 'db CacheFile" where
  "batch B fn c =
     (case fn (cf_DB c) of
        Inl (Panic r) \<Rightarrow> (Inl (New (''database corrupted: '' @ r)), resetDB B c)
      | Inl e \<Rightarrow> (Inl e, c)
      | Inr (db, r) \<Rightarrow>
          (case b_Commit B (cf_DB c) db of
             Some e \<Rightarrow> (Inl e, c)
           | None \<Rightarrow> (Inr r, c\<lparr>cf_DB := db\<rparr>)))"

definition view ::
  "'db bbolt \<Rightarrow> ('db \<Rightarrow> 'r res) \<Rightarrow> 'db CacheFile \<Rightarrow> 'r res \<times> 'db CacheFile" where
  "view B fn c =
     (case fn (cf_DB c) of
        Inl (Panic r) \<Rightarrow> (Inl (New (''database corrupted: '' @ r)), resetDB B c)
      | Inl e \<Rightarrow> (Inl e, c)
      | Inr r \<Rightarrow> (Inr r, c))"

definition err_of :: "'r res \<Rightarrow> error option" where
  "err_of r = (case r of Inl e \<Rightarrow> Some e | Inr _ \<Rightarrow> None)"

subsection \<open>Buckets below the cache ID\<close>

definition bucket :: "'db bbolt \<Rightarrow> 'db CacheFile \<Rightarrow> 'db \<Rightarrow> bytes \<Rightarrow> bucket_path option" where
  "bucket B c db key =
     (case cf_cacheID c of
        None \<Rightarrow> if b_Bucket B db [key] then Some [key] else None
      | Some cacheID \<Rightarrow>
          if \<not> b_Bucket B db [cacheID] then None
          else if b_Bucket B db [cacheID, key] then Some [cacheID, key] else None)"

definition createBucket :: "'db bbolt \<Rightarrow> 'db CacheFile \<Rightarrow> 'db \<Rightarrow> bytes \<Rightarrow> ('db \<times> bucket_path) res" where
  "createBucket B c db key =
     (case cf_cacheID c of
        None \<Rightarrow> bind_res (b_CreateBucketIfNotExists B db [key]) (\<lambda>db1. Inr (db1, [key]))
      | Some cacheID \<Rightarrow>
          bind_res (b_CreateBucketIfNotExists B db [cacheID]) (\<lambda>db1.
          bind_res (b_CreateBucketIfNotExists B db1 [cacheID, key]) (\<lambda>db2. Inr (db2, [cacheID, key]))))"

definition put_in :: "'db bbolt \<Rightarrow> bucket_path \<Rightarrow> bytes \<Rightarrow> bytes \<Rightarrow> 'db \<Rightarrow> ('db \<times> unit) res" where
  "put_in B p k v db = bind_res (b_Put B db p k v) (\<lambda>db1. Inr (db1, ()))"

definition delete_in :: "'db bbolt \<Rightarrow> bucket_path \<Rightarrow> bytes \<Rightarrow> 'db \<Rightarrow> ('db \<times> unit) res" where
  "delete_in B p k db = bind_res (b_Delete B db p k) (\<lambda>db1. Inr (db1, ()))"

subsection \<open>Mode, selected outbound, expanded groups\<close>

definition mode_key :: "'db CacheFile \<Rightarrow> bytes" where
  "mode_key c = (case cf_cacheID c of Some i \<Rightarrow> if i \<noteq> [] then i else cacheIDDefault | None \<Rightarrow> cacheIDDefault)"

definition LoadMode :: "'db bbolt \<Rightarrow> 'db CacheFile \<Rightarrow> string" where
  "LoadMode B c =
     (if \<not> b_Bucket B (cf_DB c) [bucketMode] then ''''
      else case b_Get B (cf_DB c) [bucketMode] (mode_key c) of None \<Rightarrow> '''' | Some modeBytes \<Rightarrow> bytes_str modeBytes)"

definition StoreMode :: "'db bbolt \<Rightarrow> string \<Rightarrow> 'db CacheFile \<Rightarrow> unit res \<times> 'db CacheFile" where
  "StoreMode B mode c =
     batch B (\<lambda>db. bind_res (b_CreateBucketIfNotExists B db [bucketMode])
       (put_in B [bucketMode] (mode_key c) (str_bytes mode))) c"

definition LoadSelected :: "'db bbolt \<Rightarrow> string \<Rightarrow> 'db CacheFile \<Rightarrow> string" where
  "LoadSelected B tag c =
     (case bucket B c (cf_DB c) bucketSelected of
        None \<Rightarrow> ''''
      | Some p \<Rightarrow>
          (case b_Get B (cf_DB c) p (str_bytes tag) of
             None \<Rightarrow> ''''
           | Some selectedBytes \<Rightarrow> if selectedBytes \<noteq> [] then bytes_str selectedBytes else ''''))"

definition StoreSelected :: "'db bbolt \<Rightarrow> string \<Rightarrow> string \<Rightarrow> 'db CacheFile \<Rightarrow> unit res \<times> 'db CacheFile" where
  "StoreSelected B tag selected c =
     batch B (\<lambda>db. bind_res (createBucket B c db bucketSelected)
       (\<lambda>(db1, p). put_in B p (str_bytes tag) (str_bytes selected) db1)) c"

definition LoadGroupExpand :: "'db bbolt \<Rightarrow> string \<Rightarrow> 'db CacheFile \<Rightarrow> bool option" where
  "LoadGroupExpand B tag c =
     (case bucket B c (cf_DB c) bucketExpand of
        None \<Rightarrow> None
      | Some p \<Rightarrow>
          (case b_Get B (cf_DB c) p (str_bytes tag) of
             None \<Rightarrow> None
           | Some expandBytes \<Rightarrow> if length expandBytes = 1 then Some (expandBytes ! 0 = 1) else None))"

definition StoreGroupExpand :: "'db bbolt \<Rightarrow> string \<Rightarrow> bool \<Rightarrow> 'db CacheFile \<Rightarrow> unit res \<times> 'db CacheFile" where
  "StoreGroupExpand B tag isExpand c =
     batch B (\<lambda>db. bind_res (createBucket B c db bucketExpand)
       (\<lambda>(db1, p). put_in B p (str_bytes tag) (if isExpand then [1] else [0]) db1)) c"

subsection \<open>Fake addresses\<close>

definition FakeIPMetadata_load :: "'db bbolt \<Rightarrow> 'db CacheFile \<Rightarrow> FakeIPMetadata option \<times> 'db CacheFile" where
  "FakeIPMetadata_load B c =
     (let (r, c1) = batch B (\<lambda>db.
            if \<not> b_Bucket B db [bucketFakeIP] then Inl (Sentinel ''file does not exist'')
            else case b_Get B db [bucketFakeIP] keyMetadata of
                   None \<Rightarrow> Inl (Sentinel ''invalid argument'')
                 | Some metadataBinary \<Rightarrow>
                     if metadataBinary = [] then Inl (Sentinel ''invalid argument'')
                     else bind_res (b_Delete B db [bucketFakeIP] keyMetadata) (\<lambda>db1.
                          bind_res (FakeIPMetadata_UnmarshalBinary metadataBinary) (\<lambda>metadata. Inr (db1, metadata)))) c
      in (case r of Inl _ \<Rightarrow> None | Inr metadata \<Rightarrow> Some metadata, c1))"

definition FakeIPSaveMetadata :: "'db bbolt \<Rightarrow> FakeIPMetadata \<Rightarrow> 'db CacheFile \<Rightarrow> error option \<times> 'db CacheFile" where
  "FakeIPSaveMetadata B metadata c =
     apfst err_of (batch B (\<lambda>db. bind_res (b_CreateBucketIfNotExists B db [bucketFakeIP])
       (put_in B [bucketFakeIP] keyMetadata (FakeIPMetadata_MarshalBinary metadata))) c)"

definition FakeIPSaveMetadataAsync :: "FakeIPMetadata \<Rightarrow> 'db CacheFile \<Rightarrow> 'db CacheFile" where
  "FakeIPSaveMetadataAsync metadata c =
     (case cf_saveMetadataTimer c of
        None \<Rightarrow> c\<lparr>cf_saveMetadataTimer := Some (metadata, True)\<rparr>
      | Some (held, _) \<Rightarrow> c\<lparr>cf_saveMetadataTimer := Some (held, True)\<rparr>)"

text \<open>The timer goes off: its function runs once, and the timer stays for the next \<^verbatim>\<open>Reset\<close>.\<close>

definition saveMetadataTimer_fires :: "'db bbolt \<Rightarrow> 'db CacheFile \<Rightarrow> 'db CacheFile" where
  "saveMetadataTimer_fires B c =
     (case cf_saveMetadataTimer c of
        Some (held, True) \<Rightarrow> snd (FakeIPSaveMetadata B held (c\<lparr>cf_saveMetadataTimer := Some (held, False)\<rparr>))
      | _ \<Rightarrow> c)"

definition domain_bucket :: "bool \<Rightarrow> bucket_path" where
  "domain_bucket isIPv6 = [if isIPv6 then bucketFakeIPDomain6 else bucketFakeIPDomain4]"

definition store_pair :: "'db bbolt \<Rightarrow> addr \<Rightarrow> string \<Rightarrow> 'db \<Rightarrow> ('db \<times> unit) res" where
  "store_pair B address domain db =
     bind_res (b_CreateBucketIfNotExists B db [bucketFakeIP]) (\<lambda>db1.
       let oldDomain = b_Get B db1 [bucketFakeIP] (addr_AsSlice address)
       in bind_res (b_Put B db1 [bucketFakeIP] (addr_AsSlice address) (str_bytes domain)) (\<lambda>db2.
            let p = domain_bucket (\<not> addr_Is4 address)
            in bind_res (b_CreateBucketIfNotExists B db2 p) (\<lambda>db3.
               bind_res (case oldDomain of None \<Rightarrow> Inr db3 | Some old \<Rightarrow> b_Delete B db3 p old)
                 (put_in B p (str_bytes domain) (addr_AsSlice address)))))"

definition FakeIPStore :: "'db bbolt \<Rightarrow> addr \<Rightarrow> string \<Rightarrow> 'db CacheFile \<Rightarrow> error option \<times> 'db CacheFile" where
  "FakeIPStore B address domain c = apfst err_of (batch B (store_pair B address domain) c)"

text \<open>\<^verbatim>\<open>FakeIPStoreAsync\<close>: the part before the goroutine, and the goroutine.\<close>

definition FakeIPStoreAsync_begin :: "addr \<Rightarrow> string \<Rightarrow> 'db CacheFile \<Rightarrow> 'db CacheFile" where
  "FakeIPStoreAsync_begin address domain c =
     (let c1 = (case cf_saveDomain c address of
                  None \<Rightarrow> c
                | Some oldDomain \<Rightarrow>
                    if addr_Is4 address then c\<lparr>cf_saveAddress4 := (cf_saveAddress4 c)(oldDomain := None)\<rparr>
                    else c\<lparr>cf_saveAddress6 := (cf_saveAddress6 c)(oldDomain := None)\<rparr>);
          c2 = c1\<lparr>cf_saveDomain := (cf_saveDomain c1)(address \<mapsto> domain)\<rparr>
      in if addr_Is4 address then c2\<lparr>cf_saveAddress4 := (cf_saveAddress4 c2)(domain \<mapsto> address)\<rparr>
         else c2\<lparr>cf_saveAddress6 := (cf_saveAddress6 c2)(domain \<mapsto> address)\<rparr>)"

definition FakeIPStoreAsync_run :: "'db bbolt \<Rightarrow> addr \<Rightarrow> string \<Rightarrow> 'db CacheFile \<Rightarrow> 'db CacheFile" where
  "FakeIPStoreAsync_run B address domain c =
     (let c1 = snd (FakeIPStore B address domain c);
          c2 = c1\<lparr>cf_saveDomain := (cf_saveDomain c1)(address := None)\<rparr>
      in if addr_Is4 address then c2\<lparr>cf_saveAddress4 := (cf_saveAddress4 c2)(domain := None)\<rparr>
         else c2\<lparr>cf_saveAddress6 := (cf_saveAddress6 c2)(domain := None)\<rparr>)"

definition FakeIPLoad :: "'db bbolt \<Rightarrow> addr \<Rightarrow> 'db CacheFile \<Rightarrow> string option" where
  "FakeIPLoad B address c =
     (case cf_saveDomain c address of
        Some cachedDomain \<Rightarrow> Some cachedDomain
      | None \<Rightarrow>
          let domain = (if \<not> b_Bucket B (cf_DB c) [bucketFakeIP] then []
                        else case b_Get B (cf_DB c) [bucketFakeIP] (addr_AsSlice address) of
                               None \<Rightarrow> [] | Some bs \<Rightarrow> bytes_str bs)
          in if domain \<noteq> [] then Some domain else None)"

definition FakeIPLoadDomain ::
  "'db bbolt \<Rightarrow> (bytes \<Rightarrow> addr) \<Rightarrow> string \<Rightarrow> bool \<Rightarrow> 'db CacheFile \<Rightarrow> addr option" where
  "FakeIPLoadDomain B addrFromIP domain isIPv6 c =
     (case (if \<not> isIPv6 then cf_saveAddress4 c domain else cf_saveAddress6 c domain) of
        Some cachedAddress \<Rightarrow> Some cachedAddress
      | None \<Rightarrow>
          let address = (if \<not> b_Bucket B (cf_DB c) (domain_bucket isIPv6) then AddrZero
                         else addrFromIP (case b_Get B (cf_DB c) (domain_bucket isIPv6) (str_bytes domain) of
                                            None \<Rightarrow> [] | Some bs \<Rightarrow> bs))
          in if addr_IsValid address then Some address else None)"

definition FakeIPReset :: "'db bbolt \<Rightarrow> 'db CacheFile \<Rightarrow> error option \<times> 'db CacheFile" where
  "FakeIPReset B c =
     apfst err_of (batch B (\<lambda>db.
       bind_res (b_DeleteBucket B db [bucketFakeIP]) (\<lambda>db1.
       bind_res (b_DeleteBucket B db1 [bucketFakeIPDomain4]) (\<lambda>db2.
       bind_res (b_DeleteBucket B db2 [bucketFakeIPDomain6]) (\<lambda>db3. Inr (db3, ()))))) c)"

definition cache_ops :: "'db bbolt \<Rightarrow> (bytes \<Rightarrow> addr) \<Rightarrow> 'db CacheFile FakeIPStorage" where
  "cache_ops B addrFromIP =
     \<lparr>fs_Metadata = FakeIPMetadata_load B, fs_SaveMetadata = FakeIPSaveMetadata B,
      fs_SaveMetadataAsync = FakeIPSaveMetadataAsync, fs_Store = FakeIPStore B,
      fs_StoreAsync = FakeIPStoreAsync_begin, fs_Load = FakeIPLoad B,
      fs_LoadDomain = FakeIPLoadDomain B addrFromIP, fs_Reset = FakeIPReset B\<rparr>"

subsection \<open>Rejected responses\<close>

text \<open>
  Times are nanoseconds since the epoch.  An entry holds the second of its expiry as a big-endian
  \<^verbatim>\<open>uint64\<close>; reading fewer than eight bytes panics.
\<close>

definition unix_bytes :: "int \<Rightarrow> bytes" where
  "unix_bytes t = word_bytes 8 (word_of_int (t div 10 ^ 9) :: 64 word)"

definition bytes_unix :: "bytes \<Rightarrow> int" where
  "bytes_unix bs = sint (bytes_word (take 8 bs) :: 64 word) * 10 ^ 9"

definition question_key :: "string \<Rightarrow> 16 word \<Rightarrow> bytes" where
  "question_key qName qType = word_bytes 2 qType @ str_bytes qName"

definition transport_bucket :: "'db bbolt \<Rightarrow> 'db CacheFile \<Rightarrow> bytes \<Rightarrow> string \<Rightarrow> 'db \<Rightarrow> bucket_path option" where
  "transport_bucket B c name transportName db =
     (case bucket B c db name of
        None \<Rightarrow> None
      | Some p \<Rightarrow> if b_Bucket B db (p @ [str_bytes transportName]) then Some (p @ [str_bytes transportName]) else None)"

definition LoadRDRC ::
  "'db bbolt \<Rightarrow> int \<Rightarrow> string \<Rightarrow> string \<Rightarrow> 16 word \<Rightarrow> 'db CacheFile \<Rightarrow> bool \<times> 'db CacheFile" where
  "LoadRDRC B now transportName qName qType c =
     (case cf_saveRDRC c \<lparr>k_TransportName = transportName, k_QuestionName = qName, k_QType = qType\<rparr> of
        Some rejected \<Rightarrow> (rejected, c)
      | None \<Rightarrow>
          let key = question_key qName qType;
              (r, c1) = view B (\<lambda>db.
                case transport_bucket B c bucketRDRC transportName db of
                  None \<Rightarrow> Inr (False, False)
                | Some p \<Rightarrow>
                    (case b_Get B db p key of
                       None \<Rightarrow> Inr (False, False)
                     | Some content \<Rightarrow>
                         if length content < 8 then Inl (Panic ''index out of range'')
                         else if now > bytes_unix content then Inr (False, True) else Inr (True, False))) c
          in case r of
               Inl err \<Rightarrow> (False, c1)
             | Inr (rejected, deleteCache) \<Rightarrow>
                 (rejected,
                  if deleteCache then
                    snd (batch B (\<lambda>db.
                      case transport_bucket B c1 bucketRDRC transportName db of
                        None \<Rightarrow> Inr (db, ())
                      | Some p \<Rightarrow> delete_in B p key db) c1)
                  else c1))"

definition SaveRDRC ::
  "'db bbolt \<Rightarrow> int \<Rightarrow> string \<Rightarrow> string \<Rightarrow> 16 word \<Rightarrow> 'db CacheFile \<Rightarrow> error option \<times> 'db CacheFile" where
  "SaveRDRC B now transportName qName qType c =
     apfst err_of (batch B (\<lambda>db.
       bind_res (createBucket B c db bucketRDRC) (\<lambda>(db1, p).
       bind_res (b_CreateBucketIfNotExists B db1 (p @ [str_bytes transportName]))
         (put_in B (p @ [str_bytes transportName]) (question_key qName qType)
           (unix_bytes (now + cf_rdrcTimeout c))))) c)"

definition SaveRDRCAsync_begin :: "string \<Rightarrow> string \<Rightarrow> 16 word \<Rightarrow> 'db CacheFile \<Rightarrow> 'db CacheFile" where
  "SaveRDRCAsync_begin transportName qName qType c =
     c\<lparr>cf_saveRDRC := (cf_saveRDRC c)
        (\<lparr>k_TransportName = transportName, k_QuestionName = qName, k_QType = qType\<rparr> \<mapsto> True)\<rparr>"

definition SaveRDRCAsync_run ::
  "'db bbolt \<Rightarrow> int \<Rightarrow> string \<Rightarrow> string \<Rightarrow> 16 word \<Rightarrow> 'db CacheFile \<Rightarrow> 'db CacheFile" where
  "SaveRDRCAsync_run B now transportName qName qType c =
     (let c1 = snd (SaveRDRC B now transportName qName qType c)
      in c1\<lparr>cf_saveRDRC := (cf_saveRDRC c1)
        (\<lparr>k_TransportName = transportName, k_QuestionName = qName, k_QType = qType\<rparr> := None)\<rparr>)"

definition clear_bucket :: "'db bbolt \<Rightarrow> bytes \<Rightarrow> 'db CacheFile \<Rightarrow> 'db \<Rightarrow> ('db \<times> unit) res" where
  "clear_bucket B name c db =
     (case bucket B c db name of
        None \<Rightarrow> Inr (db, ())
      | Some p \<Rightarrow> bind_res (b_DeleteBucket B db p) (\<lambda>db1. Inr (db1, ())))"

definition clearRDRC :: "'db bbolt \<Rightarrow> 'db CacheFile \<Rightarrow> 'db CacheFile" where
  "clearRDRC B c =
     (let c1 = c\<lparr>cf_saveRDRC := Map.empty\<rparr> in snd (batch B (clear_bucket B bucketRDRC c1) c1))"

text \<open>
  The clean-up shared in shape by \<^verbatim>\<open>cleanupRDRC\<close> and \<^verbatim>\<open>cleanupDNSCache\<close>: in every transport bucket the
  expired keys are collected and then deleted, and the buckets left empty are deleted at the end.
  \<open>b_Keys\<close> are the keys \<^verbatim>\<open>ForEach\<close> visits, the first of them the one a cursor finds; a nested bucket has no
  value.
\<close>

fun delete_all :: "'db bbolt \<Rightarrow> bucket_path \<Rightarrow> bytes list \<Rightarrow> 'db \<Rightarrow> 'db res" where
  "delete_all B p [] db = Inr db"
| "delete_all B p (k # ks) db = bind_res (b_Delete B db p k) (delete_all B p ks)"

fun delete_buckets :: "'db bbolt \<Rightarrow> bucket_path \<Rightarrow> bytes list \<Rightarrow> 'db \<Rightarrow> 'db res" where
  "delete_buckets B p [] db = Inr db"
| "delete_buckets B p (k # ks) db = bind_res (b_DeleteBucket B db (p @ [k])) (delete_buckets B p ks)"

definition expired_keys :: "'db bbolt \<Rightarrow> (bytes \<Rightarrow> bool) \<Rightarrow> bucket_path \<Rightarrow> 'db \<Rightarrow> bytes list" where
  "expired_keys B expired p db =
     filter (\<lambda>k. case b_Get B db p k of None \<Rightarrow> True | Some v \<Rightarrow> length v < 8 \<or> expired v) (b_Keys B db p)"

fun cleanup_transports ::
  "'db bbolt \<Rightarrow> (bytes \<Rightarrow> bool) \<Rightarrow> bucket_path \<Rightarrow> bytes list \<Rightarrow> bytes list \<Rightarrow> 'db \<Rightarrow> ('db \<times> bytes list) res" where
  "cleanup_transports B expired p [] emptyTransports db = Inr (db, emptyTransports)"
| "cleanup_transports B expired p (t # ts) emptyTransports db =
     bind_res (delete_all B (p @ [t]) (expired_keys B expired (p @ [t]) db) db) (\<lambda>db1.
       cleanup_transports B expired p ts
         (if b_Keys B db1 (p @ [t]) = [] then emptyTransports @ [t] else emptyTransports) db1)"

definition cleanup_bucket ::
  "'db bbolt \<Rightarrow> bytes \<Rightarrow> (bytes \<Rightarrow> bool) \<Rightarrow> 'db CacheFile \<Rightarrow> 'db \<Rightarrow> ('db \<times> unit) res" where
  "cleanup_bucket B name expired c db =
     (case bucket B c db name of
        None \<Rightarrow> Inr (db, ())
      | Some p \<Rightarrow>
          bind_res (cleanup_transports B expired p (b_Buckets B db p) [] db) (\<lambda>(db1, emptyTransports).
          bind_res (delete_buckets B p emptyTransports db1) (\<lambda>db2. Inr (db2, ()))))"

definition cleanupRDRC :: "'db bbolt \<Rightarrow> int \<Rightarrow> 'db CacheFile \<Rightarrow> 'db CacheFile" where
  "cleanupRDRC B now c = snd (batch B (cleanup_bucket B bucketRDRC (\<lambda>v. now > bytes_unix v) c) c)"

subsection \<open>What the library documents\<close>

definition get_bucket_law :: "'db bbolt \<Rightarrow> bool" where
  "get_bucket_law B \<longleftrightarrow> (\<forall>db p k. b_Get B db p k \<noteq> None \<longrightarrow> b_Bucket B db p \<and> k \<noteq> [])"

definition create_law :: "'db bbolt \<Rightarrow> bool" where
  "create_law B \<longleftrightarrow> (\<forall>db p. case b_CreateBucketIfNotExists B db p of
     Inl e \<Rightarrow> \<not> is_panic e
   | Inr db' \<Rightarrow> (\<forall>q. b_Bucket B db' q = (q = p \<or> b_Bucket B db q)) \<and> (\<forall>q k. b_Get B db' q k = b_Get B db q k))"

definition put_law :: "'db bbolt \<Rightarrow> bool" where
  "put_law B \<longleftrightarrow> (\<forall>db p k v. case b_Put B db p k v of
     Inl e \<Rightarrow> \<not> is_panic e
   | Inr db' \<Rightarrow> k \<noteq> [] \<and> (\<forall>q. b_Bucket B db' q = b_Bucket B db q) \<and>
       (\<forall>q j. b_Get B db' q j = (if q = p \<and> j = k then Some v else b_Get B db q j)))"

definition delete_law :: "'db bbolt \<Rightarrow> bool" where
  "delete_law B \<longleftrightarrow> (\<forall>db p k. case b_Delete B db p k of
     Inl e \<Rightarrow> \<not> is_panic e \<and> \<not> (b_Bucket B db p \<and> b_Get B db p k \<noteq> None)
   | Inr db' \<Rightarrow> (\<forall>q. b_Bucket B db' q = b_Bucket B db q) \<and>
       (\<forall>q j. b_Get B db' q j = (if q = p \<and> j = k then None else b_Get B db q j)))"

definition delete_bucket_law :: "'db bbolt \<Rightarrow> bool" where
  "delete_bucket_law B \<longleftrightarrow> (\<forall>db p. case b_DeleteBucket B db p of
     Inl e \<Rightarrow> \<not> is_panic e
   | Inr db' \<Rightarrow> b_Bucket B db p \<and>
       (\<forall>q. b_Bucket B db' q = (b_Bucket B db q \<and> take (length p) q \<noteq> p)) \<and>
       (\<forall>q j. b_Get B db' q j = (if take (length p) q = p then None else b_Get B db q j)))"

definition bbolt_documented :: "'db bbolt \<Rightarrow> bool" where
  "bbolt_documented B \<longleftrightarrow>
     get_bucket_law B \<and> create_law B \<and> put_law B \<and> delete_law B \<and> delete_bucket_law B"

lemma create_lawD:
  "create_law B \<Longrightarrow> (case b_CreateBucketIfNotExists B db p of
     Inl e \<Rightarrow> \<not> is_panic e
   | Inr db' \<Rightarrow> (\<forall>q. b_Bucket B db' q = (q = p \<or> b_Bucket B db q)) \<and> (\<forall>q k. b_Get B db' q k = b_Get B db q k))"
  unfolding create_law_def by blast

lemma put_lawD:
  "put_law B \<Longrightarrow> (case b_Put B db p k v of
     Inl e \<Rightarrow> \<not> is_panic e
   | Inr db' \<Rightarrow> k \<noteq> [] \<and> (\<forall>q. b_Bucket B db' q = b_Bucket B db q) \<and>
       (\<forall>q j. b_Get B db' q j = (if q = p \<and> j = k then Some v else b_Get B db q j)))"
  unfolding put_law_def by blast

lemma delete_lawD:
  "delete_law B \<Longrightarrow> (case b_Delete B db p k of
     Inl e \<Rightarrow> \<not> is_panic e \<and> \<not> (b_Bucket B db p \<and> b_Get B db p k \<noteq> None)
   | Inr db' \<Rightarrow> (\<forall>q. b_Bucket B db' q = b_Bucket B db q) \<and>
       (\<forall>q j. b_Get B db' q j = (if q = p \<and> j = k then None else b_Get B db q j)))"
  unfolding delete_law_def by blast

lemma delete_bucket_lawD:
  "delete_bucket_law B \<Longrightarrow> (case b_DeleteBucket B db p of
     Inl e \<Rightarrow> \<not> is_panic e
   | Inr db' \<Rightarrow> b_Bucket B db p \<and>
       (\<forall>q. b_Bucket B db' q = (b_Bucket B db q \<and> take (length p) q \<noteq> p)) \<and>
       (\<forall>q j. b_Get B db' q j = (if take (length p) q = p then None else b_Get B db q j)))"
  unfolding delete_bucket_law_def by blast

lemma documented_get: "bbolt_documented B \<Longrightarrow> b_Get B db p k = Some v \<Longrightarrow> b_Bucket B db p \<and> k \<noteq> []"
  by (metis bbolt_documented_def get_bucket_law_def option.distinct(1))

lemma documented_create:
  "bbolt_documented B \<Longrightarrow> b_CreateBucketIfNotExists B db p = Inr db' \<Longrightarrow>
     (\<forall>q. b_Bucket B db' q = (q = p \<or> b_Bucket B db q)) \<and> (\<forall>q k. b_Get B db' q k = b_Get B db q k)"
  "bbolt_documented B \<Longrightarrow> b_CreateBucketIfNotExists B db p = Inl e \<Longrightarrow> \<not> is_panic e"
  using create_lawD [where B = B and db = db and p = p] by (simp_all add: bbolt_documented_def)

lemma documented_put:
  "bbolt_documented B \<Longrightarrow> b_Put B db p k v = Inr db' \<Longrightarrow> k \<noteq> [] \<and> (\<forall>q. b_Bucket B db' q = b_Bucket B db q) \<and>
     (\<forall>q j. b_Get B db' q j = (if q = p \<and> j = k then Some v else b_Get B db q j))"
  "bbolt_documented B \<Longrightarrow> b_Put B db p k v = Inl e \<Longrightarrow> \<not> is_panic e"
  using put_lawD [where B = B and db = db and p = p and k = k and v = v] by (simp_all add: bbolt_documented_def)

lemma documented_delete:
  "bbolt_documented B \<Longrightarrow> b_Delete B db p k = Inr db' \<Longrightarrow> (\<forall>q. b_Bucket B db' q = b_Bucket B db q) \<and>
     (\<forall>q j. b_Get B db' q j = (if q = p \<and> j = k then None else b_Get B db q j))"
  "bbolt_documented B \<Longrightarrow> b_Delete B db p k = Inl e \<Longrightarrow> \<not> is_panic e \<and> \<not> (b_Bucket B db p \<and> b_Get B db p k \<noteq> None)"
  using delete_lawD [where B = B and db = db and p = p and k = k] by (simp_all add: bbolt_documented_def)

lemma documented_delete_bucket:
  "bbolt_documented B \<Longrightarrow> b_DeleteBucket B db p = Inr db' \<Longrightarrow> b_Bucket B db p \<and>
     (\<forall>q. b_Bucket B db' q = (b_Bucket B db q \<and> take (length p) q \<noteq> p)) \<and>
     (\<forall>q j. b_Get B db' q j = (if take (length p) q = p then None else b_Get B db q j))"
  "bbolt_documented B \<Longrightarrow> b_DeleteBucket B db p = Inl e \<Longrightarrow> \<not> is_panic e"
  using delete_bucket_lawD [where B = B and db = db and p = p] by (simp_all add: bbolt_documented_def)

text \<open>A batch that does not panic either keeps the cache file or commits what the transaction made.\<close>

lemma batch_cases:
  assumes "\<And>r. fn (cf_DB c) \<noteq> Inl (Panic r)"
  obtains
    (rolled_back) e where "batch B fn c = (Inl e, c)"
  | (committed) db r where "fn (cf_DB c) = Inr (db, r)" "b_Commit B (cf_DB c) db = None"
      "batch B fn c = (Inr r, c\<lparr>cf_DB := db\<rparr>)"
proof (cases "fn (cf_DB c)")
  case (Inl e)
  then have "batch B fn c = (Inl e, c)" using assms by (cases e) (auto simp: batch_def)
  then show ?thesis by (rule rolled_back)
next
  case (Inr x)
  obtain db r where x: "x = (db, r)" by (cases x)
  show ?thesis
  proof (cases "b_Commit B (cf_DB c) db")
    case None
    then show ?thesis using committed [of db r] Inr by (simp add: x batch_def)
  next
    case (Some e)
    then show ?thesis using rolled_back [of e] Inr by (simp add: x batch_def)
  qed
qed

subsection \<open>The cache file as a storage\<close>

definition no_panic :: "'r res \<Rightarrow> bool" where
  "no_panic r \<longleftrightarrow> (case r of Inl e \<Rightarrow> \<not> is_panic e | Inr _ \<Rightarrow> True)"

lemma no_panic_bind:
  "no_panic r \<Longrightarrow> (\<And>x. r = Inr x \<Longrightarrow> no_panic (f x)) \<Longrightarrow> no_panic (bind_res r f)"
  by (cases r) (simp_all add: no_panic_def)

lemma no_panic_Inr [simp]: "no_panic (Inr x)"
  by (simp add: no_panic_def)

lemma no_panic_ops:
  assumes "bbolt_documented B"
  shows "no_panic (b_CreateBucketIfNotExists B db p)" "no_panic (b_Put B db p k v)" "no_panic (b_Delete B db p k)"
    "no_panic (b_DeleteBucket B db p)" "no_panic (put_in B p k v db)"
proof -
  show c: "no_panic (b_CreateBucketIfNotExists B db p)" "no_panic (b_Put B db p k v)" "no_panic (b_Delete B db p k)"
    "no_panic (b_DeleteBucket B db p)" for db p k v
    using documented_create(2) [OF assms] documented_put(2) [OF assms] documented_delete(2) [OF assms]
      documented_delete_bucket(2) [OF assms]
    by (auto simp: no_panic_def split: sum.splits)
  show "no_panic (put_in B p k v db)"
    unfolding put_in_def by (rule no_panic_bind [OF c(2)]) (simp add: no_panic_def)
qed

lemma no_panic_neq: "no_panic r \<Longrightarrow> r \<noteq> Inl (Panic x)"
  by (auto simp: no_panic_def)

lemma str_bytes_eq_iff [simp]: "str_bytes s = str_bytes t \<longleftrightarrow> s = t"
  by (metis bytes_str_of_str_bytes)

lemma str_bytes_of_bytes_str [simp]: "str_bytes (bytes_str bs) = bs"
proof -
  have "(of_char (char_of (unat b)) :: 8 word) = b" for b :: "8 word"
  proof -
    have "(of_char (char_of (unat b)) :: 8 word) = of_nat (of_char (char_of (unat b)))"
      by (simp only: of_nat_of_char)
    also have "\<dots> = b" using unsigned_less [of b, where 'a = nat] by simp
    finally show ?thesis .
  qed
  then show ?thesis by (induction bs) (simp_all add: str_bytes_def bytes_str_def)
qed

lemma str_bytes_Nil [simp]: "str_bytes s = [] \<longleftrightarrow> s = []" "[] = str_bytes s \<longleftrightarrow> s = []"
  by (auto simp: str_bytes_def)

lemmas bucket_names = bucketFakeIP_def bucketFakeIPDomain4_def bucketFakeIPDomain6_def keyMetadata_def
  domain_bucket_def

lemma domain_bucket_neq [simp]:
  "domain_bucket v6 \<noteq> [bucketFakeIP]" "[bucketFakeIP] \<noteq> domain_bucket v6"
  "domain_bucket v6 = domain_bucket v6' \<longleftrightarrow> v6 = v6'"
  by (simp_all add: bucket_names)

lemma AsSlice_neq_keyMetadata [simp]: "addr_AsSlice a \<noteq> keyMetadata" "keyMetadata \<noteq> addr_AsSlice a"
proof -
  have "length (addr_AsSlice a) \<noteq> 15" by (cases a) simp_all
  moreover have "length keyMetadata = 15" by (simp add: bucket_names fakeipBucketPrefix_def str_bytes_def)
  ultimately show "addr_AsSlice a \<noteq> keyMetadata" by auto
  then show "keyMetadata \<noteq> addr_AsSlice a" by metis
qed

lemma store_pair_no_panic: "bbolt_documented B \<Longrightarrow> no_panic (store_pair B a d db)"
  unfolding store_pair_def Let_def
  by (intro no_panic_bind no_panic_ops; simp add: no_panic_ops split: option.splits)

lemma store_pair_Inr:
  assumes B: "bbolt_documented B" and r: "store_pair B a d db = Inr (db', u)"
  defines "dp \<equiv> domain_bucket (\<not> addr_Is4 a)"
  shows "d \<noteq> [] \<and> (\<forall>q. b_Bucket B db' q = (q = dp \<or> q = [bucketFakeIP] \<or> b_Bucket B db q)) \<and>
    (\<forall>q j. b_Get B db' q j =
      (if q = [bucketFakeIP] \<and> j = addr_AsSlice a then Some (str_bytes d)
       else if q = dp \<and> j = str_bytes d then Some (addr_AsSlice a)
       else if q = dp \<and> b_Get B db [bucketFakeIP] (addr_AsSlice a) = Some j then None
       else b_Get B db q j))"
proof -
  obtain db1 db2 db3 db4 where
    c1: "b_CreateBucketIfNotExists B db [bucketFakeIP] = Inr db1" and
    c2: "b_Put B db1 [bucketFakeIP] (addr_AsSlice a) (str_bytes d) = Inr db2" and
    c3: "b_CreateBucketIfNotExists B db2 dp = Inr db3" and
    c4: "(case b_Get B db1 [bucketFakeIP] (addr_AsSlice a) of None \<Rightarrow> Inr db3 | Some old \<Rightarrow> b_Delete B db3 dp old) = Inr db4" and
    c5: "b_Put B db4 dp (str_bytes d) (addr_AsSlice a) = Inr db'"
    using r unfolding store_pair_def Let_def put_in_def dp_def by (auto simp: bind_res_Inr)
  note d1 = documented_create(1) [OF B c1] and d2 = documented_put(1) [OF B c2]
    and d3 = documented_create(1) [OF B c3] and d5 = documented_put(1) [OF B c5]
  have d4: "(\<forall>q. b_Bucket B db4 q = b_Bucket B db3 q) \<and>
      (\<forall>q j. b_Get B db4 q j =
        (if q = dp \<and> b_Get B db [bucketFakeIP] (addr_AsSlice a) = Some j then None else b_Get B db3 q j))"
    using c4 d1 documented_delete(1) [OF B] by (auto split: option.splits)
  have "dp \<noteq> [bucketFakeIP]" by (simp add: dp_def)
  then show ?thesis using d1 d2 d3 d4 d5 by (simp only: if_split_eq2) auto
qed

text \<open>
  The cache file holds pairs in the database only: nothing in the code calls \<^verbatim>\<open>FakeIPStoreAsync\<close>.  It can hold
  the addresses \<^verbatim>\<open>M.AddrFromIP\<close> gives back for their bytes.
\<close>

definition cache_ok :: "'db CacheFile \<Rightarrow> bool" where
  "cache_ok c \<longleftrightarrow> cf_saveDomain c = Map.empty \<and> cf_saveAddress4 c = Map.empty \<and> cf_saveAddress6 c = Map.empty"

definition cache_key :: "(bytes \<Rightarrow> addr) \<Rightarrow> addr \<Rightarrow> bool" where
  "cache_key A a \<longleftrightarrow> addr_IsValid a \<and> A (addr_AsSlice a) = a"

text \<open>\<^verbatim>\<open>AddrFromIP\<close> of no bytes is the zero address.\<close>

definition nil_invalid :: "(bytes \<Rightarrow> addr) \<Rightarrow> bool" where
  "nil_invalid A \<longleftrightarrow> \<not> addr_IsValid (A [])"

text \<open>The two lookups on the database alone.\<close>

definition db_load :: "'db bbolt \<Rightarrow> 'db \<Rightarrow> addr \<Rightarrow> string option" where
  "db_load B db a =
     (case b_Get B db [bucketFakeIP] (addr_AsSlice a) of
        None \<Rightarrow> None | Some bs \<Rightarrow> if bs = [] then None else Some (bytes_str bs))"

definition db_domain :: "'db bbolt \<Rightarrow> (bytes \<Rightarrow> addr) \<Rightarrow> 'db \<Rightarrow> string \<Rightarrow> bool \<Rightarrow> addr option" where
  "db_domain B A db d v6 =
     (case b_Get B db (domain_bucket v6) (str_bytes d) of
        None \<Rightarrow> None | Some bs \<Rightarrow> if addr_IsValid (A bs) then Some (A bs) else None)"

lemma cache_loads:
  assumes "bbolt_documented B" "nil_invalid A" "cache_ok c"
  shows "fs_Load (cache_ops B A) a c = db_load B (cf_DB c) a"
    "fs_LoadDomain (cache_ops B A) d v6 c = db_domain B A (cf_DB c) d v6"
proof -
  have g: "b_Get B (cf_DB c) p k = None" if "\<not> b_Bucket B (cf_DB c) p" for p k
    using documented_get [OF assms(1)] that by (metis option.exhaust)
  show "fs_Load (cache_ops B A) a c = db_load B (cf_DB c) a"
    using assms(3) g [of "[bucketFakeIP]"]
    by (auto simp: cache_ops_def FakeIPLoad_def db_load_def cache_ok_def bytes_str_def Let_def split: option.splits)
  show "fs_LoadDomain (cache_ops B A) d v6 c = db_domain B A (cf_DB c) d v6"
    using assms(2,3) g [of "domain_bucket v6"]
    by (cases v6) (auto simp: nil_invalid_def cache_ops_def FakeIPLoadDomain_def db_domain_def cache_ok_def Let_def split: option.splits)
qed

lemma cache_ok_DB [simp]: "cache_ok (c\<lparr>cf_DB := db\<rparr>) = cache_ok c"
  by (simp add: cache_ok_def)

lemma same_dataI:
  assumes "bbolt_documented B" "nil_invalid A" "cache_ok c" "cache_ok c'"
    and "\<And>k. k \<noteq> keyMetadata \<Longrightarrow> b_Get B (cf_DB c') [bucketFakeIP] k = b_Get B (cf_DB c) [bucketFakeIP] k"
    and "\<And>v6 k. b_Get B (cf_DB c') (domain_bucket v6) k = b_Get B (cf_DB c) (domain_bucket v6) k"
  shows "same_data (cache_ops B A) key c c'"
  using assms(5,6) by (simp add: same_data_def cache_loads [OF assms(1,2,3)] cache_loads [OF assms(1,2,4)]
      db_load_def db_domain_def)

lemma stored_pair:
  assumes B: "bbolt_documented B" and A: "nil_invalid A" and c: "cache_ok c" and k: "cache_key A a"
    and s: "store_pair B a d (cf_DB c) = Inr (db, u)"
  shows "stored (cache_ops B A) (cache_key A) a d c (c\<lparr>cf_DB := db\<rparr>)"
proof -
  have c': "cache_ok (c\<lparr>cf_DB := db\<rparr>)" using c by simp
  note l = cache_loads [OF B A c] cache_loads [OF B A c']
  note g = store_pair_Inr [OF B s]
  have old: "b_Get B (cf_DB c) [bucketFakeIP] (addr_AsSlice a) = Some (str_bytes e) \<longleftrightarrow> db_load B (cf_DB c) a = Some e"
    if "e \<noteq> []" for e
    using that str_bytes_of_bytes_str [of "the (b_Get B (cf_DB c) [bucketFakeIP] (addr_AsSlice a))"]
    by (auto simp: db_load_def split: option.splits)
  have none: "b_Get B db' p [] = None" for db' p using documented_get [OF B] by (metis option.exhaust)
  have load: "db_load B db b = (if b = a then Some d else db_load B (cf_DB c) b)" if "cache_key A b" for b
  proof -
    have "addr_AsSlice b = addr_AsSlice a \<longleftrightarrow> b = a" using that k by (metis cache_key_def)
    then show ?thesis using g by (auto simp: db_load_def)
  qed
  have dom: "db_domain B A db e v6 =
      (if v6 = addr_Is4 a then db_domain B A (cf_DB c) e v6 else if e = d then Some a
       else if db_load B (cf_DB c) a = Some e then None else db_domain B A (cf_DB c) e v6)" for e v6
  proof (cases "e = []")
    case True
    have "db_domain B A db' [] f = None" for db' f using none by (simp add: db_domain_def str_bytes_def)
    then show ?thesis using True conjunct1 [OF g] by auto
  next
    case False
    then show ?thesis
      using g k old [OF False] by (auto simp: db_domain_def cache_key_def)
  qed
  show ?thesis unfolding stored_def l using load dom by simp
qed

lemma FakeIPSaveMetadata_cases:
  assumes "bbolt_documented B"
  obtains
    (rolled_back) e where "FakeIPSaveMetadata B m c = (Some e, c)"
  | (committed) db where "FakeIPSaveMetadata B m c = (None, c\<lparr>cf_DB := db\<rparr>)"
      "\<And>q. b_Bucket B db q = (q = [bucketFakeIP] \<or> b_Bucket B (cf_DB c) q)"
      "\<And>q k. b_Get B db q k = (if q = [bucketFakeIP] \<and> k = keyMetadata
         then Some (FakeIPMetadata_MarshalBinary m) else b_Get B (cf_DB c) q k)"
proof -
  define fn where "fn = (\<lambda>db. bind_res (b_CreateBucketIfNotExists B db [bucketFakeIP])
    (put_in B [bucketFakeIP] keyMetadata (FakeIPMetadata_MarshalBinary m)))"
  have f: "FakeIPSaveMetadata B m c = apfst err_of (batch B fn c)" by (simp add: FakeIPSaveMetadata_def fn_def)
  have "fn (cf_DB c) \<noteq> Inl (Panic r)" for r
    unfolding fn_def by (intro no_panic_neq no_panic_bind no_panic_ops no_panic_Inr assms)
  then show ?thesis
  proof (cases rule: batch_cases [where B = B])
    case (rolled_back e)
    then show ?thesis using that(1) by (simp add: f err_of_def)
  next
    case (committed db u)
    then obtain db1 where c1: "b_CreateBucketIfNotExists B (cf_DB c) [bucketFakeIP] = Inr db1"
      and c2: "b_Put B db1 [bucketFakeIP] keyMetadata (FakeIPMetadata_MarshalBinary m) = Inr db"
      by (auto simp: fn_def put_in_def bind_res_Inr)
    show ?thesis
      using that(2) [of db] committed(3) documented_create(1) [OF assms c1] documented_put(1) [OF assms c2]
      by (simp add: f err_of_def)
  qed
qed

lemma FakeIPReset_cases:
  assumes "bbolt_documented B"
  obtains
    (rolled_back) e where "FakeIPReset B c = (Some e, c)"
  | (committed) db where "FakeIPReset B c = (None, c\<lparr>cf_DB := db\<rparr>)"
      "b_Bucket B (cf_DB c) [bucketFakeIP]" "\<And>v6. b_Bucket B (cf_DB c) (domain_bucket v6)"
      "\<And>k. b_Get B db [bucketFakeIP] k = None" "\<And>v6 k. b_Get B db (domain_bucket v6) k = None"
proof -
  define fn where "fn = (\<lambda>db. bind_res (b_DeleteBucket B db [bucketFakeIP]) (\<lambda>db1.
       bind_res (b_DeleteBucket B db1 [bucketFakeIPDomain4]) (\<lambda>db2.
       bind_res (b_DeleteBucket B db2 [bucketFakeIPDomain6]) (\<lambda>db3. Inr (db3, ())))))"
  have f: "FakeIPReset B c = apfst err_of (batch B fn c)" by (simp add: FakeIPReset_def fn_def)
  have "fn (cf_DB c) \<noteq> Inl (Panic r)" for r
    unfolding fn_def by (intro no_panic_neq no_panic_bind no_panic_ops no_panic_Inr assms)
  then show ?thesis
  proof (cases rule: batch_cases [where B = B])
    case (rolled_back e)
    then show ?thesis using that(1) by (simp add: f err_of_def)
  next
    case (committed db u)
    then obtain db1 db2 where d1: "b_DeleteBucket B (cf_DB c) [bucketFakeIP] = Inr db1"
      and d2: "b_DeleteBucket B db1 [bucketFakeIPDomain4] = Inr db2"
      and d3: "b_DeleteBucket B db2 [bucketFakeIPDomain6] = Inr db"
      by (auto simp: fn_def bind_res_Inr)
    note D = documented_delete_bucket(1) [OF assms d1] documented_delete_bucket(1) [OF assms d2]
      documented_delete_bucket(1) [OF assms d3]
    have b: "b_Bucket B (cf_DB c) (domain_bucket v6)" for v6
      using D by (cases v6) (auto simp: domain_bucket_def)
    have g: "b_Get B db (domain_bucket v6) k = None" for v6 k
      using D by (cases v6) (auto simp: domain_bucket_def)
    show ?thesis using that(2) [of db] committed(3) D b g by (simp add: f err_of_def)
  qed
qed

lemma cache_storage:
  assumes B: "bbolt_documented B" and A: "nil_invalid A"
  shows "fakeip_storage (cache_ops B A) cache_ok (cache_key A)"
proof (unfold_locales, goal_cases)
  case (1 st a d)
  have "store_pair B a d (cf_DB st) \<noteq> Inl (Panic r)" for r
    by (rule no_panic_neq [OF store_pair_no_panic [OF B]])
  then show ?case
    by (cases rule: batch_cases [where B = B]) (simp_all add: cache_ops_def FakeIPStore_def 1)
next
  case (2 st a d)
  have "store_pair B a d (cf_DB st) \<noteq> Inl (Panic r)" for r
    by (rule no_panic_neq [OF store_pair_no_panic [OF B]])
  then show ?case
  proof (cases rule: batch_cases [where B = B])
    case (rolled_back e)
    then show ?thesis by (simp add: cache_ops_def FakeIPStore_def err_of_def same_data_def)
  next
    case (committed db u)
    then show ?thesis using stored_pair [OF B A 2 committed(1)]
      by (simp add: cache_ops_def FakeIPStore_def err_of_def)
  qed
next
  case (3 st m)
  have "cache_ok (FakeIPSaveMetadataAsync m st)" "cf_DB (FakeIPSaveMetadataAsync m st) = cf_DB st"
    using 3 by (auto simp: FakeIPSaveMetadataAsync_def cache_ok_def split: option.splits)
  then show ?case using same_dataI [OF B A 3] by (simp add: cache_ops_def)
next
  case (4 st m)
  from B show ?case
  proof (cases rule: FakeIPSaveMetadata_cases [where m = m and c = st])
    case (rolled_back e)
    then show ?thesis using 4 by (simp add: cache_ops_def same_data_def)
  next
    case (committed db)
    have "cache_ok (st\<lparr>cf_DB := db\<rparr>)" using 4 by simp
    then show ?thesis
      using same_dataI [OF B A 4, of "st\<lparr>cf_DB := db\<rparr>"] committed by (simp add: cache_ops_def)
  qed
next
  case (5 st)
  from B show ?case
  proof (cases rule: FakeIPReset_cases [where c = st])
    case (rolled_back e)
    then show ?thesis using 5 by (simp add: cache_ops_def same_data_def)
  next
    case (committed db)
    have ok: "cache_ok (st\<lparr>cf_DB := db\<rparr>)" using 5 by simp
    have "cleared (cache_ops B A) (cache_key A) (st\<lparr>cf_DB := db\<rparr>)"
      unfolding cleared_def cache_loads [OF B A ok] using committed(4,5) by (simp add: db_load_def db_domain_def)
    then show ?thesis using committed(1) ok by (simp add: cache_ops_def)
  qed
qed

subsection \<open>A database in memory\<close>

text \<open>A database for which the documented behaviour holds: buckets and pairs as lists.\<close>

record list_db =
  ld_buckets :: "bucket_path list"
  ld_data :: "((bucket_path \<times> bytes) \<times> bytes) list"

definition list_bbolt :: "list_db bbolt" where
  "list_bbolt =
     \<lparr>b_Bucket = (\<lambda>db p. p \<in> set (ld_buckets db)),
      b_Get = (\<lambda>db p k. if p \<in> set (ld_buckets db) \<and> k \<noteq> [] then map_of (ld_data db) (p, k) else None),
      b_CreateBucketIfNotExists = (\<lambda>db p.
        if p \<in> set (ld_buckets db) then Inr db
        else Inr \<lparr>ld_buckets = p # ld_buckets db, ld_data = filter (\<lambda>x. fst (fst x) \<noteq> p) (ld_data db)\<rparr>),
      b_Put = (\<lambda>db p k v.
        if p \<notin> set (ld_buckets db) \<or> k = [] then Inl (Sentinel ''key required'')
        else Inr (db\<lparr>ld_data := ((p, k), v) # ld_data db\<rparr>)),
      b_Delete = (\<lambda>db p k. Inr (db\<lparr>ld_data := filter (\<lambda>x. fst x \<noteq> (p, k)) (ld_data db)\<rparr>)),
      b_DeleteBucket = (\<lambda>db p.
        if p \<notin> set (ld_buckets db) then Inl (Sentinel ''bucket not found'')
        else Inr \<lparr>ld_buckets = filter (\<lambda>q. take (length p) q \<noteq> p) (ld_buckets db),
                  ld_data = filter (\<lambda>x. take (length p) (fst (fst x)) \<noteq> p) (ld_data db)\<rparr>),
      b_Keys = (\<lambda>db p. map (snd \<circ> fst) (filter (\<lambda>x. fst (fst x) = p) (ld_data db))),
      b_Buckets = (\<lambda>db p. map last (filter (\<lambda>q. q \<noteq> [] \<and> butlast q = p) (ld_buckets db))),
      b_Commit = (\<lambda>_ _. None),
      b_Reset = (\<lambda>_. \<lparr>ld_buckets = [], ld_data = []\<rparr>)\<rparr>"

lemma list_bbolt_documented: "bbolt_documented list_bbolt"
proof -
  have g: "map_of (filter (\<lambda>x. fst (fst x) \<noteq> p) xs) (q, k) = (if q \<noteq> p then map_of xs (q, k) else None)"
    "map_of (filter (\<lambda>x. fst x \<noteq> (p, j)) xs) (q, k) = (if (q, k) \<noteq> (p, j) then map_of xs (q, k) else None)"
    "map_of (filter (\<lambda>x. take n (fst (fst x)) \<noteq> p) xs) (q, k) = (if take n q \<noteq> p then map_of xs (q, k) else None)"
    for p q :: bucket_path and j k :: bytes and n and xs :: "((bucket_path \<times> bytes) \<times> bytes) list"
    by (induction xs) auto
  show ?thesis
    unfolding bbolt_documented_def get_bucket_law_def create_law_def put_law_def delete_law_def delete_bucket_law_def
    by (intro conjI allI) (simp_all add: list_bbolt_def g split: if_splits, auto)
qed

subsection \<open>The metadata over a restart\<close>

lemma read_write_element:
  "length data < 65536 \<Longrightarrow> read_element (write_element data @ rest) = Inr (data, rest)"
proof -
  assume n: "length data < 65536"
  have "unat (bytes_word (word_bytes 2 (of_nat (length data) :: 16 word)) :: 16 word) = length data"
    using n by (simp add: bytes_word_of_word_bytes unat_of_nat)
  then show ?thesis by (simp add: read_element_def write_element_def Let_def)
qed

lemma metadata_round_trip:
  assumes "prefix_built (fm_Inet4Range m)" "prefix_built (fm_Inet6Range m)"
    "addr_Zone (fm_Inet4Current m) = []" "addr_Zone (fm_Inet6Current m) = []"
  shows "FakeIPMetadata_UnmarshalBinary (FakeIPMetadata_MarshalBinary m) = Inr m"
proof -
  have a: "length (addr_MarshalBinary a) < 65536" if "addr_Zone a = []" for a
    using that by (cases a) (simp_all add: str_bytes_def)
  have p: "length (prefix_MarshalBinary p) < 65536" for p
    by (cases "p_Addr p") (simp_all add: prefix_MarshalBinary_def)
  show ?thesis
    using read_write_element [OF a [OF assms(4)], of "[]"] assms
    by (simp add: FakeIPMetadata_UnmarshalBinary_def FakeIPMetadata_MarshalBinary_def read_write_element p a
        prefix_unmarshal_marshal addr_unmarshal_marshal)
qed

text \<open>Loading the metadata takes its key out of the database and leaves everything else.\<close>

lemma FakeIPMetadata_load_saved:
  assumes B: "bbolt_documented B" and g: "b_Get B (cf_DB c) [bucketFakeIP] keyMetadata = Some bs"
    and bs: "FakeIPMetadata_UnmarshalBinary bs = Inr m"
    and commit: "\<And>db. b_Commit B (cf_DB c) db = None"
  shows "\<exists>db. FakeIPMetadata_load B c = (Some m, c\<lparr>cf_DB := db\<rparr>) \<and>
    (\<forall>q. b_Bucket B db q = b_Bucket B (cf_DB c) q) \<and>
    (\<forall>q k. b_Get B db q k = (if q = [bucketFakeIP] \<and> k = keyMetadata then None else b_Get B (cf_DB c) q k))"
proof -
  have bk: "b_Bucket B (cf_DB c) [bucketFakeIP]" using documented_get [OF B g] by simp
  have ne: "bs \<noteq> []" using bs by (auto simp: FakeIPMetadata_UnmarshalBinary_def read_element_def)
  obtain db where del: "b_Delete B (cf_DB c) [bucketFakeIP] keyMetadata = Inr db"
    using documented_delete(2) [OF B, of "cf_DB c" "[bucketFakeIP]" keyMetadata] g bk
    by (cases "b_Delete B (cf_DB c) [bucketFakeIP] keyMetadata") auto
  have "FakeIPMetadata_load B c = (Some m, c\<lparr>cf_DB := db\<rparr>)"
    using commit by (simp add: FakeIPMetadata_load_def batch_def g bk ne del bs)
  then show ?thesis using documented_delete(1) [OF B del] by (intro exI [of _ db]) simp
qed

lemma either_cache [simp]:
  "fs_Metadata (either_ops c) (Inr x) = apsnd Inr (fs_Metadata c x)"
  "fs_SaveMetadata (either_ops c) m (Inr x) = apsnd Inr (fs_SaveMetadata c m x)"
  "fs_SaveMetadataAsync (either_ops c) m (Inr x) = Inr (fs_SaveMetadataAsync c m x)"
  "fs_Store (either_ops c) a d (Inr x) = apsnd Inr (fs_Store c a d x)"
  "fs_Load (either_ops c) a (Inr x) = fs_Load c a x"
  "fs_LoadDomain (either_ops c) d v6 (Inr x) = fs_LoadDomain c d v6 x"
  "fs_Reset (either_ops c) (Inr x) = apsnd Inr (fs_Reset c x)"
  by (simp_all add: either_ops_def)

text \<open>The address a store gives depends on what its storage knows of the domain and on where it stands.\<close>

lemma create_result:
  assumes "st_storage s = Some st" "st_storage s' = Some st'"
    "fs_LoadDomain ops d v6 st' = fs_LoadDomain ops d v6 st" "s' = s\<lparr>st_storage := Some st'\<rparr>"
  shows "fst (Store_Create ops d v6 s') = fst (Store_Create ops d v6 s)"
  using assms by (simp add: Store_Create_def create_locked_def allocate_def Let_def split: option.splits)

definition running_store :: "prefix \<Rightarrow> prefix \<Rightarrow> 'c \<Rightarrow> addr \<Rightarrow> addr \<Rightarrow> (MemoryStorage + 'c) Store" where
  "running_store r4 r6 c current4 current6 =
     (NewStore r4 r6)\<lparr>st_storage := Some (Inr c), st_inet4Current := current4, st_inet6Current := current6\<rparr>"

text \<open>The function of the timer saves the metadata of the call that created the timer, whatever came later.\<close>

theorem fakeip_async_metadata:
  assumes "cf_saveMetadataTimer c = None"
  shows "saveMetadataTimer_fires B (fold FakeIPSaveMetadataAsync later (FakeIPSaveMetadataAsync first c)) =
    snd (FakeIPSaveMetadata B first (c\<lparr>cf_saveMetadataTimer := Some (first, False)\<rparr>))"
proof -
  have "fold FakeIPSaveMetadataAsync later (c\<lparr>cf_saveMetadataTimer := Some (first, True)\<rparr>) =
      c\<lparr>cf_saveMetadataTimer := Some (first, True)\<rparr>"
    by (induction later) (simp_all add: FakeIPSaveMetadataAsync_def)
  then show ?thesis using assms by (simp add: FakeIPSaveMetadataAsync_def saveMetadataTimer_fires_def)
qed

subsection \<open>Properties\<close>

text \<open>
  C10. A store on the cache file that was closed and started again with the same ranges goes on where it
  stood: it gives every domain the address it would have given before, knows the domain of every
  address, and takes the next address from the same place.
\<close>

theorem fakeip_restart:
  assumes B: "bbolt_documented B" and A: "nil_invalid A" and c: "cache_ok c"
    and built: "prefix_built r4" "prefix_built r6"
    and zones: "addr_Zone current4 = []" "addr_Zone current6 = []"
    and close: "Store_Close (either_ops (cache_ops B A)) (running_store r4 r6 c current4 current6) = (None, s1)"
    and c1: "st_storage s1 = Some (Inr c1)" and commit: "\<And>db. b_Commit B (cf_DB c1) db = None"
  defines "s \<equiv> running_store r4 r6 c current4 current6"
    and "s2 \<equiv> Store_Start (cache_ops B A) (Some (c1, True)) (NewStore r4 r6)"
  shows "fst (Store_Create (either_ops (cache_ops B A)) d v6 s2) =
      fst (Store_Create (either_ops (cache_ops B A)) d v6 s) \<and>
    Store_Lookup (either_ops (cache_ops B A)) a s2 = Store_Lookup (either_ops (cache_ops B A)) a s \<and>
    Store_metadata s2 = Store_metadata s"
proof -
  have st: "st_storage s = Some (Inr c)" by (simp add: s_def running_store_def)
  let ?m = "Store_metadata s"
  obtain db where db: "c1 = c\<lparr>cf_DB := db\<rparr>"
    "\<And>q k. b_Get B db q k = (if q = [bucketFakeIP] \<and> k = keyMetadata
       then Some (FakeIPMetadata_MarshalBinary ?m) else b_Get B (cf_DB c) q k)"
  proof -
    have cl: "Store_Close (either_ops (cache_ops B A)) s = (None, s1)" using close by (simp add: s_def)
    from B show thesis
    proof (cases rule: FakeIPSaveMetadata_cases [where m = ?m and c = c])
      case (rolled_back e)
      then show ?thesis using cl st by (simp add: Store_Close_def cache_ops_def)
    next
      case (committed db)
      then have "c1 = c\<lparr>cf_DB := db\<rparr>" using cl st c1 by (auto simp: Store_Close_def cache_ops_def)
      then show ?thesis using that committed(3) by blast
    qed
  qed
  have m: "FakeIPMetadata_UnmarshalBinary (FakeIPMetadata_MarshalBinary ?m) = Inr ?m"
    by (rule metadata_round_trip)
      (simp_all add: s_def running_store_def NewStore_def Store_metadata_def built zones)
  have saved: "b_Get B (cf_DB c1) [bucketFakeIP] keyMetadata = Some (FakeIPMetadata_MarshalBinary ?m)"
    by (simp add: db)
  obtain db2 where load: "FakeIPMetadata_load B c1 = (Some ?m, c1\<lparr>cf_DB := db2\<rparr>)"
    and get2: "\<forall>q k. b_Get B db2 q k = (if q = [bucketFakeIP] \<and> k = keyMetadata then None
      else b_Get B (cf_DB c1) q k)"
    using FakeIPMetadata_load_saved [OF B saved m commit] by (elim exE conjE)
  define c2 where "c2 = c1\<lparr>cf_DB := db2\<rparr>"
  have s2: "s2 = s\<lparr>st_storage := Some (Inr c2)\<rparr>"
    using load by (simp add: s2_def Store_Start_def choose_storage_def start_on_def cache_ops_def c2_def
        s_def running_store_def NewStore_def Store_metadata_def)
  have ok2: "cache_ok c2" using c by (simp add: c2_def db)
  have same: "same_data (cache_ops B A) (\<lambda>_. True) c c2"
    by (rule same_dataI [OF B A c ok2]) (simp_all add: c2_def get2 db)
  show ?thesis
    using same st create_result [of s "Inr c" s2 "Inr c2" "either_ops (cache_ops B A)" d v6]
    by (simp add: s2 same_data_def Store_Lookup_def Store_metadata_def)
qed

text \<open>
  Clearing the fake addresses of the cache file is rolled back as a whole when the bucket of one address
  family is missing, which it is as long as no address of that family was given out.  The store
  ignores the error when it starts with other ranges: every domain keeps its address of the old range.
\<close>

theorem fakeip_reset_rolls_back:
  assumes B: "bbolt_documented B" and A: "nil_invalid A" and c: "cache_ok c"
    and missing: "\<not> b_Bucket B (cf_DB c) (domain_bucket v6)"
    and old: "b_Get B (cf_DB c) [bucketFakeIP] keyMetadata = Some bs" "FakeIPMetadata_UnmarshalBinary bs = Inr m"
    and commit: "\<And>db. b_Commit B (cf_DB c) db = None"
    and other: "(fm_Inet4Range m, fm_Inet6Range m) \<noteq> (r4, r6)"
    and known: "FakeIPLoadDomain B A d f c = Some a"
  shows "(\<exists>e. FakeIPReset B c = (Some e, c)) \<and>
    fst (Store_Create (either_ops (cache_ops B A)) d f
      (Store_Start (cache_ops B A) (Some (c, True)) (NewStore r4 r6))) = Inr a"
proof
  from B show "\<exists>e. FakeIPReset B c = (Some e, c)"
    by (cases rule: FakeIPReset_cases [where c = c]) (use missing in auto)
  obtain db where load: "FakeIPMetadata_load B c = (Some m, c\<lparr>cf_DB := db\<rparr>)"
    and bk: "\<forall>q. b_Bucket B db q = b_Bucket B (cf_DB c) q"
    and get: "\<forall>q k. b_Get B db q k = (if q = [bucketFakeIP] \<and> k = keyMetadata then None else b_Get B (cf_DB c) q k)"
    using FakeIPMetadata_load_saved [OF B old commit] by (elim exE conjE)
  let ?c = "c\<lparr>cf_DB := db\<rparr>"
  have ok: "cache_ok ?c" using c by simp
  have reset: "snd (FakeIPReset B ?c) = ?c"
    using B by (cases rule: FakeIPReset_cases [where c = ?c]) (use missing bk in auto)
  have "same_data (cache_ops B A) (\<lambda>_. True) c ?c"
    by (rule same_dataI [OF B A c ok]) (simp_all add: get)
  then have "FakeIPLoadDomain B A d f ?c = Some a"
    using known by (simp add: same_data_def cache_ops_def)
  moreover have "st_storage (Store_Start (cache_ops B A) (Some (c, True)) (NewStore r4 r6)) = Some (Inr ?c)"
    using load other reset
    by (auto simp: Store_Start_def choose_storage_def start_on_def start_fresh_def NewStore_def cache_ops_def Let_def)
  ultimately show "fst (Store_Create (either_ops (cache_ops B A)) d f
      (Store_Start (cache_ops B A) (Some (c, True)) (NewStore r4 r6))) = Inr a"
    by (simp add: Store_Create_def) (simp add: cache_ops_def)
qed

subsection \<open>An example\<close>

definition ex_AddrFromIP :: "bytes \<Rightarrow> addr" where
  "ex_AddrFromIP bs = (case AddrFromSlice bs of None \<Rightarrow> AddrZero | Some a \<Rightarrow> a)"

definition ex_address :: addr where "ex_address = Addr4 0xC6120002"

definition ex_metadata :: FakeIPMetadata where
  "ex_metadata = \<lparr>fm_Inet4Range = ex_range, fm_Inet6Range = PrefixZero,
     fm_Inet4Current = ex_address, fm_Inet6Current = AddrZero\<rparr>"

definition ex_cache :: "list_db CacheFile" where
  "ex_cache = NewCacheFile
     \<lparr>ld_buckets = [[bucketFakeIP], [bucketFakeIPDomain4]],
      ld_data = [(([bucketFakeIP], addr_AsSlice ex_address), str_bytes ''a''),
                 (([bucketFakeIPDomain4], str_bytes ''a''), addr_AsSlice ex_address),
                 (([bucketFakeIP], keyMetadata), FakeIPMetadata_MarshalBinary ex_metadata)]\<rparr>
     \<lparr>co_CacheID = [], co_StoreFakeIP = True, co_StoreRDRC = False, co_StoreDNS = False, co_RDRCTimeout = 0\<rparr>"

definition ex_other_range :: prefix where "ex_other_range = \<lparr>p_Addr = Addr4 0x0A000000, p_Bits = 29\<rparr>"

lemma ex_built: "prefix_built ex_range" "prefix_built PrefixZero"
proof -
  have "ex_range = PrefixFrom (Addr4 0xC6120000) 29" "PrefixZero = PrefixFrom AddrZero 0"
    by (simp_all add: ex_range_def PrefixZero_def PrefixFrom_def)
  then show "prefix_built ex_range" "prefix_built PrefixZero" unfolding prefix_built_def by blast+
qed

lemma ex_AddrFromIP_simps [simp]: "nil_invalid ex_AddrFromIP" "ex_AddrFromIP (addr_AsSlice ex_address) = ex_address"
  by (simp_all add: nil_invalid_def ex_AddrFromIP_def AddrFromSlice_def AddrFrom4_def ex_address_def
      bytes_word_of_word_bytes)

lemma ex_cache_facts:
  "cache_ok ex_cache" "\<not> b_Bucket list_bbolt (cf_DB ex_cache) (domain_bucket True)"
  "b_Get list_bbolt (cf_DB ex_cache) [bucketFakeIP] keyMetadata = Some (FakeIPMetadata_MarshalBinary ex_metadata)"
  "FakeIPLoadDomain list_bbolt ex_AddrFromIP ''a'' False ex_cache = Some ex_address"
  "b_Commit list_bbolt db db' = None"
  by (simp_all add: ex_cache_def NewCacheFile_def cache_ok_def list_bbolt_def FakeIPLoadDomain_def bucket_names
      ex_address_def [THEN arg_cong [where f = addr_IsValid]] AsSlice_neq_keyMetadata [unfolded keyMetadata_def])

lemma fakeip_restart_witness:
  "\<exists>s1 c1. Store_Close (either_ops (cache_ops list_bbolt ex_AddrFromIP))
       (running_store ex_range PrefixZero ex_cache ex_address AddrZero) = (None, s1) \<and>
     st_storage s1 = Some (Inr c1) \<and>
     fst (Store_Create (either_ops (cache_ops list_bbolt ex_AddrFromIP)) ''b'' False
       (Store_Start (cache_ops list_bbolt ex_AddrFromIP) (Some (c1, True)) (NewStore ex_range PrefixZero))) =
     fst (Store_Create (either_ops (cache_ops list_bbolt ex_AddrFromIP)) ''b'' False
       (running_store ex_range PrefixZero ex_cache ex_address AddrZero))"
proof -
  let ?s = "running_store ex_range PrefixZero ex_cache ex_address AddrZero"
  have st: "st_storage ?s = Some (Inr ex_cache)" by (simp add: running_store_def)
  obtain s1 c1 where close: "Store_Close (either_ops (cache_ops list_bbolt ex_AddrFromIP)) ?s = (None, s1)"
      "st_storage s1 = Some (Inr c1)"
    using st by (simp add: Store_Close_def cache_ops_def FakeIPSaveMetadata_def batch_def put_in_def err_of_def
        list_bbolt_def ex_cache_def NewCacheFile_def bucket_names)
  show ?thesis
    using fakeip_restart [OF list_bbolt_documented ex_AddrFromIP_simps(1) ex_cache_facts(1) ex_built _ _ close
        ex_cache_facts(5), of "''b''" False] close by (auto simp: ex_address_def)
qed

lemma fakeip_reset_rolls_back_witness:
  "fst (Store_Create (either_ops (cache_ops list_bbolt ex_AddrFromIP)) ''a'' False
     (Store_Start (cache_ops list_bbolt ex_AddrFromIP) (Some (ex_cache, True)) (NewStore ex_other_range PrefixZero))) =
     Inr ex_address \<and> \<not> prefix_Contains ex_other_range ex_address"
proof -
  have m: "FakeIPMetadata_UnmarshalBinary (FakeIPMetadata_MarshalBinary ex_metadata) = Inr ex_metadata"
    by (rule metadata_round_trip) (simp_all add: ex_metadata_def ex_built ex_address_def)
  have ne: "(fm_Inet4Range ex_metadata, fm_Inet6Range ex_metadata) \<noteq> (ex_other_range, PrefixZero)"
    by (simp add: ex_metadata_def ex_range_def ex_other_range_def)
  have "\<not> prefix_Contains ex_other_range ex_address"
    by (simp add: prefix_Contains_def ex_other_range_def ex_address_def)
  then show ?thesis
    using fakeip_reset_rolls_back [OF list_bbolt_documented ex_AddrFromIP_simps(1) ex_cache_facts(1,2,3) m
        ex_cache_facts(5) ne ex_cache_facts(4)] by simp
qed

end
