(* ===== verification/Dns_Cache_File.thy ===== *)
theory Dns_Cache_File
  imports Cache_File
begin

text \<open>
  The DNS responses in the cache file (\<^verbatim>\<open>experimental/cachefile/dns_cache.go\<close>): loading, saving, the queue of
  pending saves with the goroutine that writes them, clearing and the clean-up of expired entries.

  The goroutine \<^verbatim>\<open>flushPendingDNSCache\<close> runs beside everything else: \<open>flush_step\<close> has one rule per stretch of it
  between two of its locks.
\<close>

subsection \<open>Loading and saving\<close>

definition bucketDNSCache :: bytes where "bucketDNSCache = str_bytes ''dns_cache''"

definition LoadDNSCache :: "'db bbolt \<Rightarrow> saveCacheKey \<Rightarrow> 'db CacheFile \<Rightarrow> (bytes \<times> int) option" where
  "LoadDNSCache B key c =
     (case cf_saveDNSCache c key of
        Some entry \<Rightarrow> Some (e_rawMessage entry, e_expireAt entry)
      | None \<Rightarrow>
          (case transport_bucket B c bucketDNSCache (k_TransportName key) (cf_DB c) of
             None \<Rightarrow> None
           | Some p \<Rightarrow>
               (case b_Get B (cf_DB c) p (question_key (k_QuestionName key) (k_QType key)) of
                  None \<Rightarrow> None
                | Some content \<Rightarrow>
                    if length content < 8 then None else Some (drop 8 content, bytes_unix (take 8 content)))))"

definition SaveDNSCache ::
  "'db bbolt \<Rightarrow> saveCacheKey \<Rightarrow> bytes \<Rightarrow> int \<Rightarrow> 'db CacheFile \<Rightarrow> error option \<times> 'db CacheFile" where
  "SaveDNSCache B key rawMessage expireAt c =
     apfst err_of (batch B (\<lambda>db.
       bind_res (createBucket B c db bucketDNSCache) (\<lambda>(db1, p).
       bind_res (b_CreateBucketIfNotExists B db1 (p @ [str_bytes (k_TransportName key)]))
         (put_in B (p @ [str_bytes (k_TransportName key)]) (question_key (k_QuestionName key) (k_QType key))
           (unix_bytes expireAt @ rawMessage)))) c)"

subsection \<open>Pending saves\<close>

definition queueDNSCacheSave ::
  "saveCacheKey \<Rightarrow> bytes \<Rightarrow> int \<Rightarrow> 'db CacheFile \<Rightarrow> bool \<times> 'db CacheFile" where
  "queueDNSCacheSave saveKey rawMessage expireAt c =
     (let entry = (case cf_saveDNSCache c saveKey of
                     Some e \<Rightarrow> e
                   | None \<Rightarrow> \<lparr>e_rawMessage = [], e_expireAt = 0, e_sequence = 0, e_saving = False\<rparr>);
          startFlush = (\<not> e_saving entry)
      in (startFlush,
          c\<lparr>cf_saveDNSCache := (cf_saveDNSCache c)(saveKey \<mapsto>
            entry\<lparr>e_rawMessage := rawMessage, e_expireAt := expireAt,
                  e_sequence := e_sequence entry + 1, e_saving := True\<rparr>)\<rparr>))"

text \<open>A goroutine in \<^verbatim>\<open>flushPendingDNSCacheWith\<close>: at the top of the loop, in \<^verbatim>\<open>save\<close>, behind it, or returned.\<close>

datatype flusher = AtTop | Saving saveDNSCacheEntry | Saved saveDNSCacheEntry | Returned

type_synonym 'db flush_state = "'db CacheFile \<times> (saveCacheKey \<times> flusher) list"

definition read_pending :: "saveCacheKey \<Rightarrow> 'db CacheFile \<Rightarrow> flusher" where
  "read_pending saveKey c = (case cf_saveDNSCache c saveKey of None \<Rightarrow> Returned | Some entry \<Rightarrow> Saving entry)"

definition finish_pending :: "saveCacheKey \<Rightarrow> saveDNSCacheEntry \<Rightarrow> 'db CacheFile \<Rightarrow> flusher \<times> 'db CacheFile" where
  "finish_pending saveKey entry c =
     (case cf_saveDNSCache c saveKey of
        None \<Rightarrow> (Returned, c)
      | Some currentEntry \<Rightarrow>
          if e_sequence currentEntry \<noteq> e_sequence entry then (AtTop, c)
          else (Returned, c\<lparr>cf_saveDNSCache := (cf_saveDNSCache c)(saveKey := None)\<rparr>))"

definition SaveDNSCacheAsync :: "saveCacheKey \<Rightarrow> bytes \<Rightarrow> int \<Rightarrow> 'db flush_state \<Rightarrow> 'db flush_state" where
  "SaveDNSCacheAsync saveKey rawMessage expireAt = (\<lambda>(c, fs).
     let (startFlush, c1) = queueDNSCacheSave saveKey rawMessage expireAt c
     in (c1, if startFlush then fs @ [(saveKey, AtTop)] else fs))"

inductive flush_step :: "'db bbolt \<Rightarrow> 'db flush_state \<Rightarrow> 'db flush_state \<Rightarrow> bool" for B where
  read: "i < length fs \<Longrightarrow> fs ! i = (key, AtTop) \<Longrightarrow>
    flush_step B (c, fs) (c, fs[i := (key, read_pending key c)])"
| save: "i < length fs \<Longrightarrow> fs ! i = (key, Saving entry) \<Longrightarrow>
    SaveDNSCache B key (e_rawMessage entry) (e_expireAt entry) c = (err, c') \<Longrightarrow>
    flush_step B (c, fs) (c', fs[i := (key, Saved entry)])"
| finish: "i < length fs \<Longrightarrow> fs ! i = (key, Saved entry) \<Longrightarrow> finish_pending key entry c = (f, c') \<Longrightarrow>
    flush_step B (c, fs) (c', fs[i := (key, f)])"

subsection \<open>Clearing and clean-up\<close>

text \<open>\<^verbatim>\<open>ClearDNSCache\<close> takes the lock for the pending entries, then runs its batch.\<close>

definition clear_pending :: "'db CacheFile \<Rightarrow> 'db CacheFile" where
  "clear_pending c = c\<lparr>cf_saveDNSCache := Map.empty\<rparr>"

definition clear_saved :: "'db bbolt \<Rightarrow> 'db CacheFile \<Rightarrow> error option \<times> 'db CacheFile" where
  "clear_saved B c = apfst err_of (batch B (clear_bucket B bucketDNSCache c) c)"

definition ClearDNSCache :: "'db bbolt \<Rightarrow> 'db CacheFile \<Rightarrow> error option \<times> 'db CacheFile" where
  "ClearDNSCache B c = clear_saved B (clear_pending c)"

definition dns_expired :: "'db CacheFile \<Rightarrow> int \<Rightarrow> bytes \<Rightarrow> bool" where
  "dns_expired c now value \<longleftrightarrow>
     \<not> cf_disableExpire c \<and> now > bytes_unix (take 8 value) + cf_optimisticTimeout c"

definition cleanupDNSCache :: "'db bbolt \<Rightarrow> int \<Rightarrow> 'db CacheFile \<Rightarrow> 'db CacheFile" where
  "cleanupDNSCache B now c = snd (batch B (cleanup_bucket B bucketDNSCache (dns_expired c now) c) c)"

text \<open>\<^verbatim>\<open>startCacheCleanup\<close>: the clean-up at the start and the interval of the loop that repeats it.\<close>

definition startCacheCleanup :: "'db bbolt \<Rightarrow> int \<Rightarrow> 'db CacheFile \<Rightarrow> duration option \<times> 'db CacheFile" where
  "startCacheCleanup B now c =
     (if cf_storeDNS c then
        (Some (if cf_optimisticTimeout c div 2 \<le> 0 then 3600 * 10 ^ 9 else cf_optimisticTimeout c div 2),
         cleanupDNSCache B now (clearRDRC B c))
      else if cf_storeRDRC c then
        (Some (if cf_rdrcTimeout c div 2 \<le> 0 then 3600 * 10 ^ 9 else cf_rdrcTimeout c div 2),
         cleanupRDRC B now c)
      else (None, c))"

subsection \<open>What a save leaves in the database\<close>

definition saved_content :: "'db bbolt \<Rightarrow> saveCacheKey \<Rightarrow> 'db CacheFile \<Rightarrow> bytes option" where
  "saved_content B key c =
     (case transport_bucket B c bucketDNSCache (k_TransportName key) (cf_DB c) of
        None \<Rightarrow> None
      | Some p \<Rightarrow> b_Get B (cf_DB c) p (question_key (k_QuestionName key) (k_QType key)))"

definition base_path :: "'db CacheFile \<Rightarrow> bytes \<Rightarrow> bucket_path" where
  "base_path c name = (case cf_cacheID c of None \<Rightarrow> [name] | Some cacheID \<Rightarrow> [cacheID, name])"

lemma bucket_Some: "bucket B c db name = Some p \<Longrightarrow> p = base_path c name"
  by (auto simp: bucket_def base_path_def split: option.splits if_splits)

lemma transport_bucket_Some:
  "transport_bucket B c name t db = Some p \<Longrightarrow> p = base_path c name @ [str_bytes t] \<and> b_Bucket B db p"
  by (auto simp: transport_bucket_def dest: bucket_Some split: option.splits if_splits)

lemma transport_bucket_DB [simp]:
  "transport_bucket B (c\<lparr>cf_DB := db'\<rparr>) name t db = transport_bucket B c name t db"
  "transport_bucket B (c\<lparr>cf_saveDNSCache := m\<rparr>) name t db = transport_bucket B c name t db"
  by (simp_all add: transport_bucket_def bucket_def)

lemma transport_bucket_mono:
  assumes "transport_bucket B c name t db = Some p" "\<And>q. b_Bucket B db q \<Longrightarrow> b_Bucket B db' q"
  shows "transport_bucket B c name t db' = Some p"
  using assms by (auto simp: transport_bucket_def bucket_def split: option.splits if_splits)

lemma word_bytes_inject: "8 * n = LENGTH('w) \<Longrightarrow> word_bytes n w = word_bytes n v \<longleftrightarrow> w = (v :: 'w::len word)"
  by (metis bytes_word_of_word_bytes)

lemma question_key_inject [simp]: "question_key a x = question_key b y \<longleftrightarrow> a = b \<and> x = y"
  by (auto simp: question_key_def word_bytes_inject)

lemma createBucket_Inr:
  assumes "bbolt_documented B" "createBucket B c db name = Inr (db1, p)"
  shows "p = base_path c name \<and> bucket B c db1 name = Some p \<and>
    (\<forall>q. b_Bucket B db q \<longrightarrow> b_Bucket B db1 q) \<and> (\<forall>q k. b_Get B db1 q k = b_Get B db q k)"
proof (cases "cf_cacheID c")
  case None
  then have "b_CreateBucketIfNotExists B db [name] = Inr db1" "p = [name]"
    using assms(2) by (auto simp: createBucket_def bind_res_Inr)
  then show ?thesis
    using documented_create(1) [OF assms(1), of db "[name]" db1] None by (simp add: base_path_def bucket_def)
next
  case (Some i)
  then obtain db0 where "b_CreateBucketIfNotExists B db [i] = Inr db0"
    "b_CreateBucketIfNotExists B db0 [i, name] = Inr db1" "p = [i, name]"
    using assms(2) by (auto simp: createBucket_def bind_res_Inr)
  then show ?thesis
    using documented_create(1) [OF assms(1), of db "[i]" db0] documented_create(1) [OF assms(1), of db0 "[i, name]" db1]
      Some by (simp add: base_path_def bucket_def)
qed

lemma SaveDNSCache_saved:
  assumes B: "bbolt_documented B" and s: "SaveDNSCache B key raw expireAt c = (None, c')"
  shows "\<exists>db. c' = c\<lparr>cf_DB := db\<rparr> \<and> saved_content B key c' = Some (unix_bytes expireAt @ raw) \<and>
    (\<forall>k v. k \<noteq> key \<longrightarrow> saved_content B k c = Some v \<longrightarrow> saved_content B k c' = Some v)"
proof -
  define fn where "fn = (\<lambda>db.
       bind_res (createBucket B c db bucketDNSCache) (\<lambda>(db1, p).
       bind_res (b_CreateBucketIfNotExists B db1 (p @ [str_bytes (k_TransportName key)]))
         (put_in B (p @ [str_bytes (k_TransportName key)]) (question_key (k_QuestionName key) (k_QType key))
           (unix_bytes expireAt @ raw))))"
  have "apfst err_of (batch B fn c) = (None, c')" using s by (simp add: SaveDNSCache_def fn_def)
  then obtain db u where fn: "fn (cf_DB c) = Inr (db, u)" and c': "c' = c\<lparr>cf_DB := db\<rparr>"
    by (auto simp: batch_def err_of_def split: sum.splits option.splits error.splits)
  obtain db1 p db2 where c1: "createBucket B c (cf_DB c) bucketDNSCache = Inr (db1, p)"
    and c2: "b_CreateBucketIfNotExists B db1 (p @ [str_bytes (k_TransportName key)]) = Inr db2"
    and c3: "b_Put B db2 (p @ [str_bytes (k_TransportName key)])
      (question_key (k_QuestionName key) (k_QType key)) (unix_bytes expireAt @ raw) = Inr db"
    using fn by (auto simp: fn_def put_in_def bind_res_Inr split: prod.splits)
  note d1 = createBucket_Inr [OF B c1] and d2 = documented_create(1) [OF B c2] and d3 = documented_put(1) [OF B c3]
  have mono: "b_Bucket B (cf_DB c) q \<Longrightarrow> b_Bucket B db q" for q using d1 d2 d3 by auto
  have "b_Bucket B db1 q \<Longrightarrow> b_Bucket B db q" for q using d2 d3 by auto
  then have "bucket B c db bucketDNSCache = Some p"
    using d1 by (auto simp: bucket_def split: option.splits if_splits)
  then have t: "transport_bucket B c bucketDNSCache (k_TransportName key) db = Some (p @ [str_bytes (k_TransportName key)])"
    using d2 d3 by (simp add: transport_bucket_def)
  have other: "saved_content B k c' = Some v" if k: "k \<noteq> key" and v: "saved_content B k c = Some v" for k v
  proof -
    obtain q where q: "transport_bucket B c bucketDNSCache (k_TransportName k) (cf_DB c) = Some q"
      "b_Get B (cf_DB c) q (question_key (k_QuestionName k) (k_QType k)) = Some v"
      using v by (auto simp: saved_content_def split: option.splits)
    have "q = p @ [str_bytes (k_TransportName k)]" using transport_bucket_Some [OF q(1)] d1 by simp
    then have "b_Get B db q (question_key (k_QuestionName k) (k_QType k)) = Some v"
      using k q(2) d1 d2 d3 by (cases k; cases key) auto
    then show ?thesis
      using transport_bucket_mono [OF q(1) mono] by (simp add: saved_content_def c')
  qed
  show ?thesis
    using t d3 other by (intro exI [of _ db]) (simp add: c' saved_content_def)
qed

subsection \<open>The goroutines and the queue\<close>

text \<open>
  Runs of queue operations and goroutine steps, with the value last queued for each key.  The counter of an
  entry does not wrap around: an entry is queued less than \<open>2 ^ 64\<close> times while it is pending.
\<close>

definition no_wrap :: "saveCacheKey \<Rightarrow> 'db CacheFile \<Rightarrow> bool" where
  "no_wrap key c \<longleftrightarrow> (case cf_saveDNSCache c key of None \<Rightarrow> True | Some e \<Rightarrow> e_sequence e \<noteq> - 1)"

inductive flush_reach :: "'db bbolt \<Rightarrow> 'db flush_state \<Rightarrow> (saveCacheKey \<rightharpoonup> bytes \<times> int) \<Rightarrow> bool" for B where
  init: "cf_saveDNSCache c = Map.empty \<Longrightarrow> flush_reach B (c, []) Map.empty"
| queue: "flush_reach B (c, fs) queued \<Longrightarrow> no_wrap key c \<Longrightarrow>
    flush_reach B (SaveDNSCacheAsync key raw expireAt (c, fs)) (queued(key \<mapsto> (raw, expireAt)))"
| step: "flush_reach B s queued \<Longrightarrow> flush_step B s s' \<Longrightarrow> flush_reach B s' queued"

definition saves_succeed :: "'db bbolt \<Rightarrow> bool" where
  "saves_succeed B \<longleftrightarrow> (\<forall>key raw expireAt c. fst (SaveDNSCache B key raw expireAt c) = None)"

definition entry_content :: "bytes \<times> int \<Rightarrow> bytes" where
  "entry_content v = unix_bytes (snd v) @ fst v"

fun held :: "flusher \<Rightarrow> saveDNSCacheEntry option" where
  "held (Saving e) = Some e"
| "held (Saved e) = Some e"
| "held _ = None"

definition one_flusher :: "(saveCacheKey \<times> flusher) list \<Rightarrow> bool" where
  "one_flusher fs \<longleftrightarrow> (\<forall>i < length fs. \<forall>j < length fs.
     snd (fs ! i) \<noteq> Returned \<longrightarrow> snd (fs ! j) \<noteq> Returned \<longrightarrow> fst (fs ! i) = fst (fs ! j) \<longrightarrow> i = j)"

text \<open>What a goroutine for \<open>key\<close> relies on, given what is pending and saved for the key.\<close>

definition flusher_ok :: "saveDNSCacheEntry option \<Rightarrow> bytes option \<Rightarrow> flusher \<Rightarrow> bool" where
  "flusher_ok pending saved f \<longleftrightarrow> f = Returned \<or>
     (\<exists>p. pending = Some p \<and>
       (\<forall>e. held f = Some e \<longrightarrow> e_sequence e \<le> e_sequence p \<and> (e_sequence e = e_sequence p \<longrightarrow> e = p)) \<and>
       (\<forall>e. f = Saved e \<longrightarrow> saved = Some (entry_content (e_rawMessage e, e_expireAt e))))"

definition key_ok :: "saveDNSCacheEntry option \<Rightarrow> bytes option \<Rightarrow> (bytes \<times> int) option \<Rightarrow> bool" where
  "key_ok pending saved queued \<longleftrightarrow>
     (case pending of
        Some p \<Rightarrow> e_saving p \<and> queued = Some (e_rawMessage p, e_expireAt p)
      | None \<Rightarrow> (case queued of None \<Rightarrow> True | Some v \<Rightarrow> saved = Some (entry_content v)))"

text \<open>Every pending entry has a goroutine.\<close>

definition served :: "(saveCacheKey \<rightharpoonup> saveDNSCacheEntry) \<Rightarrow> (saveCacheKey \<times> flusher) list \<Rightarrow> bool" where
  "served m fs \<longleftrightarrow> (\<forall>key. m key \<noteq> None \<longrightarrow> (\<exists>f. (key, f) \<in> set fs \<and> f \<noteq> Returned))"

definition flush_inv :: "'db bbolt \<Rightarrow> 'db flush_state \<Rightarrow> (saveCacheKey \<rightharpoonup> bytes \<times> int) \<Rightarrow> bool" where
  "flush_inv B s queued \<longleftrightarrow>
     one_flusher (snd s) \<and> served (cf_saveDNSCache (fst s)) (snd s) \<and>
     (\<forall>i < length (snd s). flusher_ok (cf_saveDNSCache (fst s) (fst (snd s ! i)))
        (saved_content B (fst (snd s ! i)) (fst s)) (snd (snd s ! i))) \<and>
     (\<forall>key. key_ok (cf_saveDNSCache (fst s) key) (saved_content B key (fst s)) (queued key))"

lemma one_flusher_update:
  assumes "one_flusher fs" "i < length fs" "snd (fs ! i) \<noteq> Returned"
  shows "one_flusher (fs[i := (fst (fs ! i), f)])"
  using assms unfolding one_flusher_def by (auto simp: nth_list_update)

lemma in_set_update: "x \<in> set xs \<Longrightarrow> i < length xs \<Longrightarrow> x \<noteq> xs ! i \<Longrightarrow> x \<in> set (xs[i := y])"
  by (metis in_set_conv_nth length_list_update nth_list_update_neq)

lemma served_update:
  assumes "served m fs" "i < length fs" "fs ! i = (key, g)" "m' key \<noteq> None \<Longrightarrow> g' \<noteq> Returned"
    "\<And>k. k \<noteq> key \<Longrightarrow> m' k = m k"
  shows "served m' (fs[i := (key, g')])"
  unfolding served_def
proof (intro allI impI)
  fix k
  assume "m' k \<noteq> None"
  show "\<exists>f. (k, f) \<in> set (fs[i := (key, g')]) \<and> f \<noteq> Returned"
  proof (cases "k = key")
    case True
    then show ?thesis using \<open>m' k \<noteq> None\<close> assms(2,4) set_update_memI by metis
  next
    case False
    then obtain f where "(k, f) \<in> set fs" "f \<noteq> Returned"
      using assms(1,5) \<open>m' k \<noteq> None\<close> by (auto simp: served_def)
    then show ?thesis using in_set_update [of "(k, f)" fs i] assms(2,3) False by auto
  qed
qed

text \<open>A step of one goroutine keeps the invariant when it keeps it for its own key and leaves the others alone.\<close>

lemma flush_inv_step:
  assumes I: "flush_inv B (c, fs) queued" and i: "i < length fs" and f: "fs ! i = (key, g)" "g \<noteq> Returned"
    and own: "flusher_ok (cf_saveDNSCache c' key) (saved_content B key c') g'"
      "cf_saveDNSCache c' key \<noteq> None \<Longrightarrow> g' \<noteq> Returned"
      "key_ok (cf_saveDNSCache c' key) (saved_content B key c') (queued key)"
    and others: "\<And>k. k \<noteq> key \<Longrightarrow> cf_saveDNSCache c' k = cf_saveDNSCache c k"
      "\<And>k v. k \<noteq> key \<Longrightarrow> saved_content B k c = Some v \<Longrightarrow> saved_content B k c' = Some v"
  shows "flush_inv B (c', fs[i := (key, g')]) queued"
proof -
  have one: "one_flusher fs" using I by (simp add: flush_inv_def)
  then have one': "one_flusher (fs[i := (key, g')])" using one_flusher_update [OF one i, of g'] f by simp
  have "flusher_ok (cf_saveDNSCache c' (fst (fs[i := (key, g')] ! j))) (saved_content B (fst (fs[i := (key, g')] ! j)) c')
      (snd (fs[i := (key, g')] ! j))" if j: "j < length fs" for j
  proof (cases "j = i")
    case True
    then show ?thesis using own(1) i by simp
  next
    case False
    have ok: "flusher_ok (cf_saveDNSCache c (fst (fs ! j))) (saved_content B (fst (fs ! j)) c) (snd (fs ! j))"
      using I j by (simp add: flush_inv_def)
    show ?thesis
    proof (cases "snd (fs ! j) = Returned")
      case True
      then show ?thesis using False by (simp add: flusher_ok_def)
    next
      case act: False
      have "fst (fs ! j) \<noteq> key" using one i j f act False unfolding one_flusher_def by (metis fst_conv snd_conv)
      then show ?thesis using ok False others by (auto simp: flusher_ok_def)
    qed
  qed
  moreover have "key_ok (cf_saveDNSCache c' k) (saved_content B k c') (queued k)" for k
  proof (cases "k = key")
    case False
    have "key_ok (cf_saveDNSCache c k) (saved_content B k c) (queued k)" using I by (simp add: flush_inv_def)
    then show ?thesis using others(1) [OF False] others(2) [OF False]
      by (auto simp: key_ok_def split: option.splits)
  qed (use own(3) in simp)
  moreover have "served (cf_saveDNSCache c') (fs[i := (key, g')])"
    using served_update [OF _ i f(1) own(2) others(1)] I by (simp add: flush_inv_def)
  ultimately show ?thesis using one' by (simp add: flush_inv_def)
qed

lemma saved_content_pending [simp]: "saved_content B key (c\<lparr>cf_saveDNSCache := m\<rparr>) = saved_content B key c"
  by (simp add: saved_content_def split: option.split)

lemma flush_inv_flush_step:
  assumes B: "bbolt_documented B" and S: "saves_succeed B" and I: "flush_inv B s queued" and st: "flush_step B s s'"
  shows "flush_inv B s' queued"
  using st I
proof (induction rule: flush_step.induct)
  case (read i fs key c)
  have ok: "flusher_ok (cf_saveDNSCache c key) (saved_content B key c) AtTop"
    "key_ok (cf_saveDNSCache c key) (saved_content B key c) (queued key)"
    using read unfolding flush_inv_def by (metis fst_conv snd_conv)+
  show ?case
    by (rule flush_inv_step [OF read(3,1,2)])
      (use ok in \<open>auto simp: flusher_ok_def read_pending_def split: option.splits\<close>)
next
  case (save i fs key e c err c')
  have ok: "flusher_ok (cf_saveDNSCache c key) (saved_content B key c) (Saving e)"
    "key_ok (cf_saveDNSCache c key) (saved_content B key c) (queued key)"
    using save unfolding flush_inv_def by (metis fst_conv snd_conv)+
  have "err = None" using S save(3) by (metis fst_conv saves_succeed_def)
  then obtain db where c': "c' = c\<lparr>cf_DB := db\<rparr>"
    "saved_content B key c' = Some (unix_bytes (e_expireAt e) @ e_rawMessage e)"
    "\<And>k v. k \<noteq> key \<Longrightarrow> saved_content B k c = Some v \<Longrightarrow> saved_content B k c' = Some v"
    using SaveDNSCache_saved [OF B] save(3) by blast
  show ?case
    by (rule flush_inv_step [OF save(4,1,2)])
      (use ok c' in \<open>auto simp: flusher_ok_def key_ok_def entry_content_def split: option.splits\<close>)
next
  case (finish i fs key e c f c')
  have ok: "flusher_ok (cf_saveDNSCache c key) (saved_content B key c) (Saved e)"
    "key_ok (cf_saveDNSCache c key) (saved_content B key c) (queued key)"
    using finish unfolding flush_inv_def by (metis fst_conv snd_conv)+
  show ?case
    by (rule flush_inv_step [OF finish(4,1,2)])
      (use ok finish(3) in \<open>auto simp: finish_pending_def flusher_ok_def key_ok_def split: option.splits if_splits\<close>)
qed

lemma less_succ: "w \<noteq> - 1 \<Longrightarrow> w < w + (1 :: 'w::len word)"
proof -
  assume "w \<noteq> - 1"
  then have "1 + w \<noteq> 0" by (metis add.commute add_eq_0_iff)
  from unatSuc [OF this] show ?thesis by (simp add: word_less_nat_alt add.commute)
qed

lemma flush_inv_queue:
  assumes I: "flush_inv B (c, fs) queued" and w: "no_wrap key c"
  shows "flush_inv B (SaveDNSCacheAsync key raw expireAt (c, fs)) (queued(key \<mapsto> (raw, expireAt)))"
proof -
  have one: "one_flusher fs" and sv: "served (cf_saveDNSCache c) fs"
    and fl: "\<And>i. i < length fs \<Longrightarrow> flusher_ok (cf_saveDNSCache c (fst (fs ! i))) (saved_content B (fst (fs ! i)) c) (snd (fs ! i))"
    and ky: "\<And>k. key_ok (cf_saveDNSCache c k) (saved_content B k c) (queued k)"
    using I by (simp_all add: flush_inv_def)
  show ?thesis
  proof (cases "cf_saveDNSCache c key")
    case None
    define p where "p = \<lparr>e_rawMessage = raw, e_expireAt = expireAt, e_sequence = 1, e_saving = True\<rparr>"
    have s: "SaveDNSCacheAsync key raw expireAt (c, fs) =
        (c\<lparr>cf_saveDNSCache := (cf_saveDNSCache c)(key \<mapsto> p)\<rparr>, fs @ [(key, AtTop)])"
      using None by (simp add: SaveDNSCacheAsync_def queueDNSCacheSave_def p_def Let_def)
    have idle: "snd (fs ! i) = Returned" if "i < length fs" "fst (fs ! i) = key" for i
      using fl [OF that(1)] that(2) None by (simp add: flusher_ok_def)
    let ?m = "(cf_saveDNSCache c)(key \<mapsto> p)" and ?fs = "fs @ [(key, AtTop)]"
    have "one_flusher ?fs"
      using one idle unfolding one_flusher_def by (simp add: nth_append less_Suc_eq) blast
    moreover have "flusher_ok (?m (fst (?fs ! i))) (saved_content B (fst (?fs ! i)) c) (snd (?fs ! i))"
      if i: "i < length ?fs" for i
    proof (cases "i < length fs")
      case True
      then show ?thesis
        using fl [OF True] idle [OF True] by (cases "fst (fs ! i) = key") (simp_all add: nth_append flusher_ok_def)
    next
      case False
      then have "?fs ! i = (key, AtTop)" using i by (simp add: nth_append less_Suc_eq)
      then show ?thesis by (simp add: flusher_ok_def)
    qed
    moreover have "key_ok (?m k) (saved_content B k c) ((queued(key \<mapsto> (raw, expireAt))) k)" for k
      using ky [of k] by (cases "k = key") (simp_all add: key_ok_def p_def)
    moreover have "served ?m ?fs" using sv by (auto simp: served_def)
    ultimately show ?thesis unfolding s by (simp add: flush_inv_def)
  next
    case (Some p)
    define p' where "p' = p\<lparr>e_rawMessage := raw, e_expireAt := expireAt, e_sequence := e_sequence p + 1, e_saving := True\<rparr>"
    have sp: "e_saving p" using ky [of key] Some by (simp add: key_ok_def)
    have s: "SaveDNSCacheAsync key raw expireAt (c, fs) = (c\<lparr>cf_saveDNSCache := (cf_saveDNSCache c)(key \<mapsto> p')\<rparr>, fs)"
      using Some sp by (simp add: SaveDNSCacheAsync_def queueDNSCacheSave_def p'_def Let_def)
    have lt: "e_sequence p < e_sequence p'" using w Some less_succ by (simp add: p'_def no_wrap_def)
    have "flusher_ok (Some p') x f" if "flusher_ok (Some p) x f" for x f
      using that lt by (auto simp: flusher_ok_def)
    then have "flusher_ok (((cf_saveDNSCache c)(key \<mapsto> p')) (fst (fs ! i))) (saved_content B (fst (fs ! i)) c) (snd (fs ! i))"
      if "i < length fs" for i
      using fl [OF that] Some by (cases "fst (fs ! i) = key") simp_all
    moreover have "served ((cf_saveDNSCache c)(key \<mapsto> p')) fs" using sv Some by (auto simp: served_def)
    ultimately show ?thesis using one ky unfolding s by (auto simp: flush_inv_def key_ok_def p'_def)
  qed
qed

lemma flush_reach_inv:
  assumes "bbolt_documented B" "saves_succeed B" "flush_reach B s queued"
  shows "flush_inv B s queued"
  using assms(3)
proof (induction rule: flush_reach.induct)
  case (init c)
  then show ?case by (simp add: flush_inv_def one_flusher_def key_ok_def served_def)
next
  case (queue c fs queued key raw expireAt)
  then show ?case using flush_inv_queue by blast
next
  case (step s queued s')
  then show ?case using flush_inv_flush_step [OF assms(1,2)] by blast
qed

text \<open>The steps a goroutine has left as long as nothing more is queued.\<close>

definition steps_left :: "saveDNSCacheEntry option \<Rightarrow> flusher \<Rightarrow> nat" where
  "steps_left pending f =
     (case f of
        Returned \<Rightarrow> 0
      | AtTop \<Rightarrow> 3
      | Saving e \<Rightarrow> if pending = Some e then 2 else 5
      | Saved e \<Rightarrow> if pending = Some e then 1 else 4)"

definition all_left :: "'db flush_state \<Rightarrow> nat" where
  "all_left s = (\<Sum>i < length (snd s). steps_left (cf_saveDNSCache (fst s) (fst (snd s ! i))) (snd (snd s ! i)))"

lemma all_left_update:
  assumes one: "one_flusher fs" and i: "i < length fs" and f: "fs ! i = (key, g)" "g \<noteq> Returned"
    and others: "\<And>k. k \<noteq> key \<Longrightarrow> cf_saveDNSCache c' k = cf_saveDNSCache c k"
    and dec: "steps_left (cf_saveDNSCache c' key) g' < steps_left (cf_saveDNSCache c key) g"
  shows "all_left (c', fs[i := (key, g')]) < all_left (c, fs)"
proof -
  define a where "a j = steps_left (cf_saveDNSCache c' (fst (fs[i := (key, g')] ! j))) (snd (fs[i := (key, g')] ! j))" for j
  define b where "b j = steps_left (cf_saveDNSCache c (fst (fs ! j))) (snd (fs ! j))" for j
  have "a j \<le> b j" if j: "j < length fs" for j
  proof (cases "j = i")
    case True
    then show ?thesis using dec i f by (simp add: a_def b_def)
  next
    case False
    show ?thesis
    proof (cases "snd (fs ! j) = Returned")
      case True
      then show ?thesis using False by (simp add: a_def b_def steps_left_def)
    next
      case act: False
      have "fst (fs ! j) \<noteq> key" using one i j f act False unfolding one_flusher_def by (metis fst_conv snd_conv)
      then show ?thesis using False others by (simp add: a_def b_def)
    qed
  qed
  moreover have "a i < b i" using dec i f by (simp add: a_def b_def)
  ultimately have "(\<Sum>j < length fs. a j) < (\<Sum>j < length fs. b j)"
    using i by (intro sum_strict_mono_ex1) auto
  then show ?thesis by (simp add: all_left_def a_def b_def)
qed

lemma flush_step_decreases:
  assumes I: "flush_inv B s queued" and st: "flush_step B s s'"
  shows "all_left s' < all_left s"
  using st I
proof (induction rule: flush_step.induct)
  case (read i fs key c)
  have one: "one_flusher fs" using read by (simp add: flush_inv_def)
  show ?case
    by (rule all_left_update [OF one read(1,2)]) (auto simp: steps_left_def read_pending_def split: option.splits)
next
  case (save i fs key e c err c')
  have one: "one_flusher fs" using save by (simp add: flush_inv_def)
  have c': "cf_saveDNSCache c' = cf_saveDNSCache c"
    using save(3) by (auto simp: SaveDNSCache_def batch_def resetDB_def split: sum.splits option.splits error.splits)
  show ?case by (rule all_left_update [OF one save(1,2)]) (auto simp: steps_left_def c')
next
  case (finish i fs key e c f c')
  have one: "one_flusher fs" using finish by (simp add: flush_inv_def)
  have ok: "flusher_ok (cf_saveDNSCache c key) (saved_content B key c) (Saved e)"
    using finish unfolding flush_inv_def by (metis fst_conv snd_conv)
  show ?case
    by (rule all_left_update [OF one finish(1,2)])
      (use finish(3) ok in \<open>auto simp: steps_left_def finish_pending_def flusher_ok_def split: option.splits if_splits\<close>)
qed

lemma flush_step_enabled:
  assumes "i < length fs" "snd (fs ! i) \<noteq> Returned"
  shows "\<exists>s'. flush_step B (c, fs) s'"
proof (cases "fs ! i")
  case (Pair key f)
  show ?thesis
  proof (cases f)
    case AtTop
    then show ?thesis using flush_step.read [OF assms(1), of key] Pair by blast
  next
    case (Saving e)
    then show ?thesis
      using flush_step.save [OF assms(1), of key e B c] Pair
      by (cases "SaveDNSCache B key (e_rawMessage e) (e_expireAt e) c") blast
  next
    case (Saved e)
    then show ?thesis
      using flush_step.finish [OF assms(1), of key e c] Pair by (cases "finish_pending key e c") blast
  qed (use assms Pair in simp)
qed

subsection \<open>Properties\<close>

lemma LoadDNSCache_saved:
  assumes "cf_saveDNSCache c key = None" "saved_content B key c = Some (entry_content (raw, expireAt))"
  shows "LoadDNSCache B key c = Some (raw, bytes_unix (unix_bytes expireAt))"
proof -
  have [simp]: "length (unix_bytes expireAt) = 8" by (simp add: unix_bytes_def)
  show ?thesis
    using assms by (auto simp: LoadDNSCache_def saved_content_def entry_content_def split: option.splits)
qed

lemma unix_round_trip:
  "- (2 ^ 63) \<le> t div 10 ^ 9 \<Longrightarrow> t div 10 ^ 9 < 2 ^ 63 \<Longrightarrow> bytes_unix (unix_bytes t) = t div 10 ^ 9 * 10 ^ 9"
  using sint_sbintrunc' [of "t div 10 ^ 9", where 'a = 64] signed_take_bit_int_eq_self [of 63 "t div 10 ^ 9"]
  by (simp add: bytes_unix_def unix_bytes_def bytes_word_of_word_bytes)


subsection \<open>An example\<close>

lemma list_bbolt_saves: "saves_succeed list_bbolt"
  unfolding saves_succeed_def
proof (intro allI)
  fix key :: saveCacheKey and raw expireAt and c :: "list_db CacheFile"
  have put: "\<exists>db'. b_Put list_bbolt db p (question_key q t) v = Inr db'" if "p \<in> set (ld_buckets db)" for db p q t v
    using that by (simp add: list_bbolt_def question_key_def flip: length_greater_0_conv)
  have create: "\<exists>db'. b_CreateBucketIfNotExists list_bbolt db p = Inr db' \<and> p \<in> set (ld_buckets db')" for db p
    by (simp add: list_bbolt_def)
  obtain db1 p where c1: "createBucket list_bbolt c (cf_DB c) bucketDNSCache = Inr (db1, p)"
  proof (cases "cf_cacheID c")
    case None
    then show ?thesis using that create [of "cf_DB c" "[bucketDNSCache]"] by (auto simp: createBucket_def)
  next
    case (Some i)
    obtain d1 where "b_CreateBucketIfNotExists list_bbolt (cf_DB c) [i] = Inr d1" using create by blast
    then show ?thesis using that Some create [of d1 "[i, bucketDNSCache]"] by (auto simp: createBucket_def)
  qed
  obtain db2 where c2: "b_CreateBucketIfNotExists list_bbolt db1 (p @ [str_bytes (k_TransportName key)]) = Inr db2"
      "p @ [str_bytes (k_TransportName key)] \<in> set (ld_buckets db2)"
    using create by blast
  obtain db3 where c3: "b_Put list_bbolt db2 (p @ [str_bytes (k_TransportName key)])
      (question_key (k_QuestionName key) (k_QType key)) (unix_bytes expireAt @ raw) = Inr db3"
    using put [OF c2(2)] by blast
  show "fst (SaveDNSCache list_bbolt key raw expireAt c) = None"
    by (simp add: SaveDNSCache_def batch_def c1 c2(1) put_in_def c3 err_of_def ex_cache_facts(5))
qed

definition ex_key :: saveCacheKey where
  "ex_key = \<lparr>k_TransportName = ''local'', k_QuestionName = ''a.'', k_QType = 1\<rparr>"

lemma ex_flush_reach:
  "flush_reach list_bbolt (SaveDNSCacheAsync ex_key [1, 2, 3] (5 * 10 ^ 9) (ex_cache, [])) [ex_key \<mapsto> ([1, 2, 3], 5 * 10 ^ 9)]"
proof -
  have "cf_saveDNSCache ex_cache = Map.empty" by (simp add: ex_cache_def NewCacheFile_def)
  then show ?thesis
    using flush_reach.queue [OF flush_reach.init, of ex_cache ex_key list_bbolt "[1, 2, 3]" "5 * 10 ^ 9"]
    by (simp add: no_wrap_def)
qed




text \<open>
  Clearing the cache while a goroutine is saving restarts the counter of the entry at one.  The goroutine
  of the old entry may then write the old response behind the new one, and the counters agree: the
  response from before the clearing stays in the database and hides the one queued after it.
\<close>

theorem dns_cache_clear_race:
  assumes B: "bbolt_documented B" and S: "saves_succeed B" and c: "cf_saveDNSCache c = Map.empty"
  shows "\<exists>s1 s2 t. flush_step B (SaveDNSCacheAsync key old oldTime (c, [])) s1 \<and>
    (flush_step B)\<^sup>*\<^sup>* (SaveDNSCacheAsync key new newTime (snd (ClearDNSCache B (fst s1)), snd s1)) s2 \<and>
    (\<forall>f \<in> set (snd s2). snd f = Returned) \<and> LoadDNSCache B key (fst s2) = Some (old, t)"
proof -
  define e1 where "e1 = \<lparr>e_rawMessage = old, e_expireAt = oldTime, e_sequence = 1, e_saving = True\<rparr>"
  define e2 where "e2 = \<lparr>e_rawMessage = new, e_expireAt = newTime, e_sequence = 1, e_saving = True\<rparr>"
  define c1 where "c1 = c\<lparr>cf_saveDNSCache := [key \<mapsto> e1]\<rparr>"
  have q1: "SaveDNSCacheAsync key old oldTime (c, []) = (c1, [(key, AtTop)])"
    using c by (simp add: SaveDNSCacheAsync_def queueDNSCacheSave_def c1_def e1_def Let_def)
  have r1: "flush_step B (c1, [(key, AtTop)]) (c1, [(key, Saving e1)])"
    using flush_step.read [of 0 "[(key, AtTop)]" key B c1] by (simp add: read_pending_def c1_def)
  define c2 where "c2 = snd (ClearDNSCache B c1)"
  have p2: "cf_saveDNSCache c2 = Map.empty"
    by (auto simp: c2_def ClearDNSCache_def clear_saved_def clear_pending_def batch_def resetDB_def
        split: sum.splits option.splits error.splits)
  define c3 where "c3 = c2\<lparr>cf_saveDNSCache := [key \<mapsto> e2]\<rparr>"
  have q2: "SaveDNSCacheAsync key new newTime (c2, [(key, Saving e1)]) = (c3, [(key, Saving e1), (key, AtTop)])"
    using p2 by (simp add: SaveDNSCacheAsync_def queueDNSCacheSave_def c3_def e2_def Let_def)
  have save: "\<exists>c'. SaveDNSCache B key raw t x = (None, c') \<and> cf_saveDNSCache c' = cf_saveDNSCache x \<and>
      saved_content B key c' = Some (entry_content (raw, t))" for raw t x
  proof -
    have s: "SaveDNSCache B key raw t x = (None, snd (SaveDNSCache B key raw t x))"
      using S by (metis prod.collapse saves_succeed_def)
    then show ?thesis using SaveDNSCache_saved [OF B s] by (auto simp: entry_content_def)
  qed
  obtain c4 where c4: "SaveDNSCache B key new newTime c3 = (None, c4)" "cf_saveDNSCache c4 = [key \<mapsto> e2]"
    using save [of new newTime c3] by (auto simp: c3_def)
  obtain c5 where c5: "SaveDNSCache B key old oldTime c4 = (None, c5)" "cf_saveDNSCache c5 = [key \<mapsto> e2]"
      "saved_content B key c5 = Some (entry_content (old, oldTime))"
    using save [of old oldTime c4] c4(2) by auto
  define c6 where "c6 = c5\<lparr>cf_saveDNSCache := Map.empty\<rparr>"
  have r2: "flush_step B (c3, [(key, Saving e1), (key, AtTop)]) (c3, [(key, Saving e1), (key, Saving e2)])"
    using flush_step.read [of 1 "[(key, Saving e1), (key, AtTop)]" key B c3] by (simp add: read_pending_def c3_def)
  have r3: "flush_step B (c3, [(key, Saving e1), (key, Saving e2)]) (c4, [(key, Saving e1), (key, Saved e2)])"
    using flush_step.save [of 1 "[(key, Saving e1), (key, Saving e2)]" key e2 B c3] c4(1) by (simp add: e2_def)
  have r4: "flush_step B (c4, [(key, Saving e1), (key, Saved e2)]) (c5, [(key, Saved e1), (key, Saved e2)])"
    using flush_step.save [of 0 "[(key, Saving e1), (key, Saved e2)]" key e1 B c4] c5(1) by (simp add: e1_def)
  have r5: "flush_step B (c5, [(key, Saved e1), (key, Saved e2)]) (c6, [(key, Saved e1), (key, Returned)])"
    using flush_step.finish [of 1 "[(key, Saved e1), (key, Saved e2)]" key e2 c5] c5(2)
    by (simp add: finish_pending_def c6_def)
  have r6: "flush_step B (c6, [(key, Saved e1), (key, Returned)]) (c6, [(key, Returned), (key, Returned)])"
    using flush_step.finish [of 0 "[(key, Saved e1), (key, Returned)]" key e1 c6] by (simp add: finish_pending_def c6_def)
  have "(flush_step B)\<^sup>*\<^sup>* (c3, [(key, Saving e1), (key, AtTop)]) (c6, [(key, Returned), (key, Returned)])"
    using r2 r3 r4 r5 r6 by (meson converse_rtranclp_into_rtranclp rtranclp.rtrancl_refl)
  moreover have "LoadDNSCache B key c6 = Some (old, bytes_unix (unix_bytes oldTime))"
    using LoadDNSCache_saved [of c6 key B old oldTime] c5(3) by (simp add: c6_def)
  ultimately show ?thesis
    using r1 q1 q2 by (intro exI [of _ "(c1, [(key, Saving e1)])"] exI [of _ "(c6, [(key, Returned), (key, Returned)])"])
      (simp add: c2_def)
qed

end
