(* ===== verification/Dns_Client.thy ===== *)
theory Dns_Client
  imports Dns_Message Dns_Cache_File
begin

text \<open>
  The DNS client (\<^verbatim>\<open>dns/client.go\<close>): exchanging a message with a transport through the response cache, in
  memory or in the cache file, the cache of rejected responses, the refresh of stale responses in the
  background, and address lookups.

  The LRU cache (\<^verbatim>\<open>freelru\<close>) and the DNS library are parameters; \<^verbatim>\<open>RDRCStore\<close> and \<^verbatim>\<open>DNSCacheStore\<close>, two
  interfaces of the same cache file, are one table of operations.  What the transport answers is an
  argument of the operation that asks it, the time of each \<^verbatim>\<open>time.Now()\<close> as well.  An exchange is one step;
  a goroutine started for a refresh is a task of the state that runs as a step of its own.
\<close>

subsection \<open>What the client relies on\<close>

datatype dns_error = RcodeError int | OtherError error | CauseError dns_error string

definition ErrNotCached :: dns_error where "ErrNotCached = OtherError (New ''not cached'')"
definition ErrResponseRejected :: dns_error where "ErrResponseRejected = OtherError (New ''response rejected'')"
definition ErrResponseRejectedCached :: dns_error where
  "ErrResponseRejectedCached = OtherError (Extend (New ''response rejected'') ''cached'')"

record dns_library =
  lib_IsFqdn :: "string \<Rightarrow> bool"
  lib_Fqdn :: "string \<Rightarrow> string"
  lib_Pack :: "dns_msg \<Rightarrow> bytes option"
  lib_Unpack :: "bytes \<Rightarrow> dns_msg option"
  lib_IsEdns0 :: "dns_msg \<Rightarrow> rr option"
  lib_Version :: "rr \<Rightarrow> 8 word"
  lib_UDPSize :: "rr \<Rightarrow> 16 word"
  lib_Do :: "rr \<Rightarrow> bool"
  lib_SetEdns0 :: "16 word \<Rightarrow> bool \<Rightarrow> dns_msg \<Rightarrow> dns_msg"

type_synonym dnsCacheKey = "question \<times> string"

record 'c freelru =
  lru_Add :: "dnsCacheKey \<Rightarrow> dns_msg \<Rightarrow> 'c \<Rightarrow> 'c"
  lru_AddWithLifetime :: "int \<Rightarrow> dnsCacheKey \<Rightarrow> dns_msg \<Rightarrow> duration \<Rightarrow> 'c \<Rightarrow> 'c"
  lru_Get :: "int \<Rightarrow> dnsCacheKey \<Rightarrow> 'c \<Rightarrow> dns_msg option \<times> 'c"
  lru_GetWithLifetimeNoExpire :: "dnsCacheKey \<Rightarrow> 'c \<Rightarrow> (dns_msg \<times> int) option \<times> 'c"
  lru_Remove :: "dnsCacheKey \<Rightarrow> 'c \<Rightarrow> 'c"
  lru_Purge :: "'c \<Rightarrow> 'c"

record 'd dns_store =
  ds_LoadDNSCache :: "string \<Rightarrow> string \<Rightarrow> 16 word \<Rightarrow> 'd \<Rightarrow> (bytes \<times> int) option"
  ds_SaveDNSCacheAsync :: "string \<Rightarrow> string \<Rightarrow> 16 word \<Rightarrow> bytes \<Rightarrow> int \<Rightarrow> 'd \<Rightarrow> 'd"
  ds_ClearDNSCache :: "'d \<Rightarrow> 'd"
  ds_LoadRDRC :: "int \<Rightarrow> string \<Rightarrow> string \<Rightarrow> 16 word \<Rightarrow> 'd \<Rightarrow> bool \<times> 'd"
  ds_SaveRDRCAsync :: "string \<Rightarrow> string \<Rightarrow> 16 word \<Rightarrow> 'd \<Rightarrow> 'd"

text \<open>The libraries an operation of the client calls.\<close>

record ('c, 'd) client_deps =
  cd_dns :: dns_library
  cd_lru :: "'c freelru"
  cd_new :: "32 word \<Rightarrow> 'c"
  cd_store :: "'d dns_store"
  cd_addresses :: "dns_msg \<Rightarrow> addr list"

subsection \<open>The client\<close>

record ('c, 'd) Client =
  cl_timeout :: duration
  cl_disableCache :: bool
  cl_disableExpire :: bool
  cl_optimisticTimeout :: duration
  cl_cacheCapacity :: "32 word"
  cl_clientSubnet :: prefix
  cl_initRDRC :: "bool option"
  cl_initDNSCache :: "bool option"
  cl_rdrc :: bool
  cl_dnsCache :: bool
  cl_store :: 'd
  cl_cache :: "'c option"
  cl_backgroundRefresh :: "dnsCacheKey list"

definition DNSTimeout :: duration where "DNSTimeout = 10 * 10 ^ 9"

definition initializeMemoryCache :: "('c, 'd) client_deps \<Rightarrow> ('c, 'd) Client \<Rightarrow> ('c, 'd) Client" where
  "initializeMemoryCache D c =
     (if cl_disableCache c \<or> cl_cache c \<noteq> None then c
      else c\<lparr>cl_cache := Some (cd_new D (cl_cacheCapacity c))\<rparr>)"

text \<open>
  \<open>initRDRC\<close> and \<open>initDNSCache\<close> are the two functions of the options, when set, and whether they return a
  store; the store is the cache file.
\<close>

record ClientOptions =
  co_Timeout :: duration
  co_DisableCache :: bool
  co_DisableExpire :: bool
  co_OptimisticTimeout :: duration
  co_CacheCapacity :: "32 word"
  co_ClientSubnet :: prefix
  co_RDRC :: "bool option"
  co_DNSCache :: "bool option"

definition NewClient :: "('c, 'd) client_deps \<Rightarrow> ClientOptions \<Rightarrow> 'd \<Rightarrow> ('c, 'd) Client" where
  "NewClient D options store =
     (let client = \<lparr>cl_timeout = (if co_Timeout options = 0 then DNSTimeout else co_Timeout options),
                    cl_disableCache = co_DisableCache options, cl_disableExpire = co_DisableExpire options,
                    cl_optimisticTimeout = co_OptimisticTimeout options,
                    cl_cacheCapacity = max (co_CacheCapacity options) 1024,
                    cl_clientSubnet = co_ClientSubnet options, cl_initRDRC = co_RDRC options,
                    cl_initDNSCache = co_DNSCache options, cl_rdrc = False, cl_dnsCache = False,
                    cl_store = store, cl_cache = None, cl_backgroundRefresh = []\<rparr>
      in if \<not> cl_disableCache client \<and> cl_initDNSCache client = None then initializeMemoryCache D client else client)"

definition Client_Start :: "('c, 'd) client_deps \<Rightarrow> ('c, 'd) Client \<Rightarrow> ('c, 'd) Client" where
  "Client_Start D c =
     (let c1 = (case cl_initRDRC c of None \<Rightarrow> c | Some r \<Rightarrow> c\<lparr>cl_rdrc := r\<rparr>);
          c2 = (case cl_initDNSCache c1 of None \<Rightarrow> c1 | Some r \<Rightarrow> c1\<lparr>cl_dnsCache := r\<rparr>)
      in if cl_dnsCache c2 then c2 else initializeMemoryCache D c2)"

definition Client_ClearCache :: "('c, 'd) client_deps \<Rightarrow> ('c, 'd) Client \<Rightarrow> ('c, 'd) Client" where
  "Client_ClearCache D c =
     (let c1 = c\<lparr>cl_cache := map_option (lru_Purge (cd_lru D)) (cl_cache c)\<rparr>
      in if cl_dnsCache c1 then c1\<lparr>cl_store := ds_ClearDNSCache (cd_store D) (cl_store c1)\<rparr> else c1)"

subsection \<open>The cache\<close>

text \<open>The remaining lifetime of a response: fresh with the seconds left, stale, or gone.\<close>

definition aged_response :: "duration \<Rightarrow> int \<Rightarrow> dns_msg \<Rightarrow> int \<Rightarrow> (dns_msg \<times> int \<times> bool) option" where
  "aged_response optimisticTimeout now response expireAt =
     (if now > expireAt then
        if optimisticTimeout > 0 \<and> now < expireAt + optimisticTimeout
        then Some (normalizeTTL response 1, 0, True) else None
      else let nowTTL = max ((expireAt - now) div 10 ^ 9) 0
           in Some (normalizeTTL response (word_of_int nowTTL), nowTTL, False))"

definition loadPersistentResponse ::
  "('c, 'd) client_deps \<Rightarrow> int \<Rightarrow> question \<Rightarrow> string \<Rightarrow> ('c, 'd) Client \<Rightarrow> (dns_msg \<times> int \<times> bool) option" where
  "loadPersistentResponse D now q tag c =
     (case ds_LoadDNSCache (cd_store D) tag (q_Name q) (q_Qtype q) (cl_store c) of
        None \<Rightarrow> None
      | Some (rawMessage, expireAt) \<Rightarrow>
          (case lib_Unpack (cd_dns D) rawMessage of
             None \<Rightarrow> None
           | Some response \<Rightarrow>
               if cl_disableExpire c then Some (response, 0, False)
               else aged_response (cl_optimisticTimeout c) now response expireAt))"

definition loadResponse ::
  "('c, 'd) client_deps \<Rightarrow> int \<Rightarrow> question \<Rightarrow> string \<Rightarrow> ('c, 'd) Client \<Rightarrow>
     (dns_msg \<times> int \<times> bool) option \<times> ('c, 'd) Client" where
  "loadResponse D now q tag c =
     (if cl_dnsCache c then (loadPersistentResponse D now q tag c, c)
      else case cl_cache c of
        None \<Rightarrow> (None, c)
      | Some cache \<Rightarrow>
          if cl_disableExpire c then
            (case lru_Get (cd_lru D) now (q, tag) cache of
               (response, cache1) \<Rightarrow> (map_option (\<lambda>r. (r, 0, False)) response, c\<lparr>cl_cache := Some cache1\<rparr>))
          else
            (case lru_GetWithLifetimeNoExpire (cd_lru D) (q, tag) cache of
               (None, cache1) \<Rightarrow> (None, c\<lparr>cl_cache := Some cache1\<rparr>)
             | (Some (response, expireAt), cache1) \<Rightarrow>
                 (case aged_response (cl_optimisticTimeout c) now response expireAt of
                    None \<Rightarrow> (None, c\<lparr>cl_cache := Some (lru_Remove (cd_lru D) (q, tag) cache1)\<rparr>)
                  | Some r \<Rightarrow> (Some r, c\<lparr>cl_cache := Some cache1\<rparr>))))"

definition storeCache ::
  "('c, 'd) client_deps \<Rightarrow> int \<Rightarrow> question \<Rightarrow> string \<Rightarrow> dns_msg \<Rightarrow> 32 word \<Rightarrow> ('c, 'd) Client \<Rightarrow> ('c, 'd) Client" where
  "storeCache D now q tag message timeToLive c =
     (if timeToLive = 0 then c
      else if cl_dnsCache c then
        (case lib_Pack (cd_dns D) message of
           None \<Rightarrow> c
         | Some packed \<Rightarrow>
             c\<lparr>cl_store := ds_SaveDNSCacheAsync (cd_store D) tag (q_Name q) (q_Qtype q) packed
                 (now + 10 ^ 9 * uint timeToLive) (cl_store c)\<rparr>)
      else case cl_cache c of
        None \<Rightarrow> c
      | Some cache \<Rightarrow>
          c\<lparr>cl_cache := Some (if cl_disableExpire c then lru_Add (cd_lru D) (q, tag) message cache
              else lru_AddWithLifetime (cd_lru D) now (q, tag) message (10 ^ 9 * uint timeToLive) cache)\<rparr>)"

subsection \<open>Exchange\<close>

definition prepareExchangeMessage :: "('c, 'd) Client \<Rightarrow> dns_msg \<Rightarrow> 'x DNSQueryOptions_scheme \<Rightarrow> dns_msg" where
  "prepareExchangeMessage c message options =
     (let clientSubnet = (if \<not> prefix_IsValid (qo_ClientSubnet options) then cl_clientSubnet c else qo_ClientSubnet options)
      in if prefix_IsValid clientSubnet then SetClientSubnet message clientSubnet else message)"

text \<open>\<open>None\<close> is the panic of the type assertion on a record that only says it is an \<^verbatim>\<open>OPT\<close> record.\<close>

definition isSimpleRequest :: "dns_msg \<Rightarrow> 'x DNSQueryOptions_scheme \<Rightarrow> bool option" where
  "isSimpleRequest message options =
     (if length (d_Question message) \<noteq> 1 \<or> d_Ns message \<noteq> [] then Some False
      else case d_Extra message of
        [] \<Rightarrow> Some (\<not> prefix_IsValid (qo_ClientSubnet options))
      | [r] \<Rightarrow>
          if h_Rrtype (rr_hdr r) = TypeOPT \<and> h_Class (rr_hdr r) > 0 \<and> h_Ttl (rr_hdr r) = 0 then
            (case r of
               RR_OPT _ opts \<Rightarrow> Some (opts = [] \<and> \<not> prefix_IsValid (qo_ClientSubnet options))
             | _ \<Rightarrow> None)
          else Some False
      | _ \<Rightarrow> Some False)"

type_synonym checker = "dns_msg \<Rightarrow> bool"
type_synonym exchange = "dns_msg \<Rightarrow> dns_error + dns_msg"

definition exchangeToTransport :: "exchange \<Rightarrow> dns_msg \<Rightarrow> dns_error + dns_msg" where
  "exchangeToTransport transport message =
     (case transport message of
        Inr response \<Rightarrow> Inr (stripDNSPadding response)
      | Inl (RcodeError rcode) \<Rightarrow> Inr (FixedResponseStatus message rcode)
      | Inl e \<Rightarrow> Inl e)"

definition cacheable_rcode :: "dns_msg \<Rightarrow> bool" where
  "cacheable_rcode response \<longleftrightarrow> d_Rcode response = RcodeSuccess \<or> d_Rcode response = RcodeNameError"

definition rejected_by :: "checker option \<Rightarrow> dns_msg \<Rightarrow> bool" where
  "rejected_by responseChecker response \<longleftrightarrow>
     (case responseChecker of None \<Rightarrow> False | Some check \<Rightarrow> \<not> cacheable_rcode response \<or> \<not> check response)"

text \<open>A response goes back without an \<^verbatim>\<open>OPT\<close> record the request did not ask for.\<close>

definition match_edns :: "dns_library \<Rightarrow> dns_msg \<Rightarrow> dns_msg \<Rightarrow> dns_msg" where
  "match_edns L message response =
     (case lib_IsEdns0 L response of
        None \<Rightarrow> response
      | Some responseOpt \<Rightarrow>
          (case lib_IsEdns0 L message of
             None \<Rightarrow> response\<lparr>d_Extra := filter (\<lambda>it. h_Rrtype (rr_hdr it) \<noteq> TypeOPT) (d_Extra response)\<rparr>
           | Some requestOpt \<Rightarrow>
               if lib_Version L requestOpt < lib_Version L responseOpt then
                 lib_SetEdns0 L (lib_UDPSize L responseOpt) (lib_Do L responseOpt)
                   (response\<lparr>d_Extra := filter (\<lambda>it. h_Rrtype (rr_hdr it) \<noteq> TypeOPT) (d_Extra response)\<rparr>)
               else response))"

text \<open>The cache of rejected responses.\<close>

definition load_rejected ::
  "('c, 'd) client_deps \<Rightarrow> int \<Rightarrow> string \<Rightarrow> question \<Rightarrow> ('c, 'd) Client \<Rightarrow> bool \<times> ('c, 'd) Client" where
  "load_rejected D now tag q c =
     (if cl_rdrc c
      then apsnd (\<lambda>s. c\<lparr>cl_store := s\<rparr>) (ds_LoadRDRC (cd_store D) now tag (q_Name q) (q_Qtype q) (cl_store c))
      else (False, c))"

definition save_rejected :: "('c, 'd) client_deps \<Rightarrow> string \<Rightarrow> question \<Rightarrow> ('c, 'd) Client \<Rightarrow> ('c, 'd) Client" where
  "save_rejected D tag q c =
     (if cl_rdrc c then c\<lparr>cl_store := ds_SaveRDRCAsync (cd_store D) tag (q_Name q) (q_Qtype q) (cl_store c)\<rparr> else c)"

text \<open>A refresh in the background: transport, question, prepared message, options, checker.\<close>

record 'x refresh_task =
  rt_tag :: string
  rt_question :: question
  rt_message :: dns_msg
  rt_options :: "'x DNSQueryOptions_scheme"
  rt_checker :: "checker option"

definition backgroundRefreshDNS ::
  "string \<Rightarrow> question \<Rightarrow> dns_msg \<Rightarrow> 'x DNSQueryOptions_scheme \<Rightarrow> checker option \<Rightarrow> ('c, 'd) Client \<Rightarrow>
     'x refresh_task option \<times> ('c, 'd) Client" where
  "backgroundRefreshDNS tag q message options responseChecker c =
     (if (q, tag) \<in> set (cl_backgroundRefresh c) then (None, c)
      else (Some \<lparr>rt_tag = tag, rt_question = q, rt_message = message, rt_options = options, rt_checker = responseChecker\<rparr>,
            c\<lparr>cl_backgroundRefresh := (q, tag) # cl_backgroundRefresh c\<rparr>))"

definition refresh_result ::
  "('c, 'd) client_deps \<Rightarrow> int \<Rightarrow> exchange \<Rightarrow> 'x refresh_task \<Rightarrow> ('c, 'd) Client \<Rightarrow> ('c, 'd) Client" where
  "refresh_result D now transport t c =
     (case exchangeToTransport transport (rt_message t) of
        Inl e \<Rightarrow> c
      | Inr response \<Rightarrow>
          if rejected_by (rt_checker t) response then save_rejected D (rt_tag t) (rt_question t) c
          else if \<not> cacheable_rcode response then c
          else let (timeToLive, response1) = applyResponseOptions (rt_question t) response (rt_options t)
               in storeCache D now (rt_question t) (rt_tag t) response1 timeToLive c)"

definition run_refresh ::
  "('c, 'd) client_deps \<Rightarrow> int \<Rightarrow> exchange \<Rightarrow> 'x refresh_task \<Rightarrow> ('c, 'd) Client \<Rightarrow> ('c, 'd) Client" where
  "run_refresh D now transport t c =
     (let c1 = refresh_result D now transport t c
      in c1\<lparr>cl_backgroundRefresh := removeAll (rt_question t, rt_tag t) (cl_backgroundRefresh c1)\<rparr>)"


text \<open>The part of \<^verbatim>\<open>Exchange\<close> behind the cache; \<open>context\<close> is the transport tag of the context.\<close>

definition exchange_uncached ::
  "('c, 'd) client_deps \<Rightarrow> int \<Rightarrow> string option \<Rightarrow> string \<Rightarrow> exchange \<Rightarrow> question \<Rightarrow> dns_msg \<Rightarrow>
     'x DNSQueryOptions_scheme \<Rightarrow> checker option \<Rightarrow> bool \<Rightarrow> ('c, 'd) Client \<Rightarrow>
     (dns_msg option \<times> dns_error option) \<times> ('c, 'd) Client" where
  "exchange_uncached D now ctxTag tag transport q message options responseChecker disableCache c =
     (if ctxTag = Some tag
      then ((None, Some (OtherError (New (''DNS query loopback in transport['' @ tag @ '']'')))), c)
      else case (if \<not> disableCache \<and> responseChecker \<noteq> None then load_rejected D now tag q c else (False, c)) of
        (True, c1) \<Rightarrow> ((None, Some ErrResponseRejectedCached), c1)
      | (False, c1) \<Rightarrow>
          (case exchangeToTransport transport message of
             Inl e \<Rightarrow> ((None, Some e), c1)
           | Inr response \<Rightarrow>
               let disableCache1 = (disableCache \<or> \<not> cacheable_rcode response)
               in if rejected_by responseChecker response
                  then ((Some response, Some ErrResponseRejected), if \<not> disableCache1 then save_rejected D tag q c1 else c1)
                  else
                    let (timeToLive, response1) = applyResponseOptions q response options;
                        c2 = (if \<not> disableCache1 then storeCache D now q tag response1 timeToLive c1 else c1)
                    in ((Some (match_edns (cd_dns D) message (response1\<lparr>d_Id := d_Id message\<rparr>)), None), c2)))"

text \<open>The cache in front of it.\<close>

definition exchange_with_cache ::
  "('c, 'd) client_deps \<Rightarrow> int \<Rightarrow> int \<Rightarrow> string option \<Rightarrow> string \<Rightarrow> exchange \<Rightarrow> question \<Rightarrow> dns_msg \<Rightarrow>
     'x DNSQueryOptions_scheme \<Rightarrow> checker option \<Rightarrow> bool \<Rightarrow> ('c, 'd) Client \<Rightarrow>
     (dns_msg option \<times> dns_error option) \<times> 'x refresh_task option \<times> ('c, 'd) Client" where
  "exchange_with_cache D now1 now2 ctxTag tag transport q message options responseChecker disableCache c =
     (let miss = (\<lambda>c. apsnd (Pair None)
            (exchange_uncached D now2 ctxTag tag transport q message options responseChecker disableCache c))
      in if disableCache then miss c
         else case loadResponse D now1 q tag c of
           (None, c1) \<Rightarrow> miss c1
         | (Some (response, ttl, isStale), c1) \<Rightarrow>
             if \<not> isStale then ((Some (response\<lparr>d_Id := d_Id message\<rparr>), None), None, c1)
             else if \<not> qo_DisableOptimisticCache options then
               (case backgroundRefreshDNS tag q message options responseChecker c1 of
                  (task, c2) \<Rightarrow> ((Some (response\<lparr>d_Id := d_Id message\<rparr>), None), task, c2))
             else miss c1)"

definition Client_Exchange ::
  "('c, 'd) client_deps \<Rightarrow> int \<Rightarrow> int \<Rightarrow> string option \<Rightarrow> string \<Rightarrow> exchange \<Rightarrow> dns_msg \<Rightarrow>
     'x DNSQueryOptions_scheme \<Rightarrow> checker option \<Rightarrow> ('c, 'd) Client \<Rightarrow>
     (dns_msg option \<times> dns_error option) \<times> 'x refresh_task option \<times> ('c, 'd) Client" where
  "Client_Exchange D now1 now2 ctxTag tag transport request options responseChecker c =
     (case d_Question request of
        [] \<Rightarrow> ((Some (FixedResponseStatus request RcodeFormatError), None), None, c)
      | q # _ \<Rightarrow>
          if q_Qtype q = TypeA \<and> qo_Strategy options = DomainStrategyIPv6Only \<or>
             q_Qtype q = TypeAAAA \<and> qo_Strategy options = DomainStrategyIPv4Only
          then ((Some (FixedResponseStatus request RcodeSuccess), None), None, c)
          else
            let message = prepareExchangeMessage c request options
            in case isSimpleRequest message options of
                 None \<Rightarrow> ((None, Some (OtherError (Panic ''interface conversion''))), None, c)
               | Some simple \<Rightarrow>
                   exchange_with_cache D now1 now2 ctxTag tag transport q message options responseChecker
                     (\<not> simple \<or> cl_disableCache c \<or> qo_DisableCache options) c)"

subsection \<open>Lookup\<close>

definition response_addresses :: "('c, 'd) client_deps \<Rightarrow> dns_msg \<Rightarrow> addr list \<times> dns_error option" where
  "response_addresses D response =
     (if d_Rcode response \<noteq> RcodeSuccess then ([], Some (RcodeError (d_Rcode response)))
      else (cd_addresses D response, None))"

definition exchange_addresses ::
  "('c, 'd) client_deps \<Rightarrow> dns_msg option \<times> dns_error option \<Rightarrow> addr list \<times> dns_error option" where
  "exchange_addresses D = (\<lambda>(response, err).
     case err of
       Some e \<Rightarrow> ([], Some e)
     | None \<Rightarrow> (case response of None \<Rightarrow> ([], None) | Some r \<Rightarrow> response_addresses D r))"

definition questionCache ::
  "('c, 'd) client_deps \<Rightarrow> int \<Rightarrow> string \<Rightarrow> dns_msg \<Rightarrow> question \<Rightarrow> 'x DNSQueryOptions_scheme \<Rightarrow> checker option \<Rightarrow>
     ('c, 'd) Client \<Rightarrow> (addr list \<times> dns_error option) \<times> 'x refresh_task option \<times> ('c, 'd) Client" where
  "questionCache D now tag message q options responseChecker c =
     (case loadResponse D now q tag c of
        (None, c1) \<Rightarrow> (([], Some ErrNotCached), None, c1)
      | (Some (response, ttl, isStale), c1) \<Rightarrow>
          if isStale then
            if qo_DisableOptimisticCache options then (([], Some ErrNotCached), None, c1)
            else (case backgroundRefreshDNS tag q (prepareExchangeMessage c1 message options) options responseChecker c1 of
                    (task, c2) \<Rightarrow> (response_addresses D response, task, c2))
          else (response_addresses D response, None, c1))"

definition lookup_question :: "string \<Rightarrow> 16 word \<Rightarrow> question" where
  "lookup_question name qType = \<lparr>q_Name = name, q_Qtype = qType, q_Qclass = ClassINET\<rparr>"

definition lookup_message :: "string \<Rightarrow> 16 word \<Rightarrow> dns_msg" where
  "lookup_message name qType =
     \<lparr>d_Id = 0, d_Response = False, d_Authoritative = False, d_RecursionDesired = True, d_RecursionAvailable = False,
      d_Rcode = 0, d_Question = [lookup_question name qType], d_Answer = [], d_Ns = [], d_Extra = []\<rparr>"

definition lookupToExchange ::
  "('c, 'd) client_deps \<Rightarrow> int \<Rightarrow> int \<Rightarrow> string option \<Rightarrow> string \<Rightarrow> exchange \<Rightarrow> string \<Rightarrow> 16 word \<Rightarrow>
     'x DNSQueryOptions_scheme \<Rightarrow> checker option \<Rightarrow> ('c, 'd) Client \<Rightarrow>
     (addr list \<times> dns_error option) \<times> 'x refresh_task list \<times> ('c, 'd) Client" where
  "lookupToExchange D now1 now2 ctxTag tag transport name qType options responseChecker c =
     (let message = lookup_message name qType;
          miss = (\<lambda>c.
            case Client_Exchange D now1 now2 ctxTag tag transport message options responseChecker c of
              (er, task, c1) \<Rightarrow> (exchange_addresses D er, case task of None \<Rightarrow> [] | Some t \<Rightarrow> [t], c1))
      in if cl_disableCache c \<or> qo_DisableCache options then miss c
         else case questionCache D now1 tag message (lookup_question name qType) options responseChecker c of
           ((addresses, err), task, c1) \<Rightarrow>
             if err \<noteq> Some ErrNotCached
             then ((addresses, err), case task of None \<Rightarrow> [] | Some t \<Rightarrow> [t], c1)
             else miss c1)"

text \<open>
  The two lookups of a domain run as two goroutines of a \<^verbatim>\<open>task.Group\<close>; \<open>joined\<close> is the error of the group.
\<close>

definition Client_Lookup ::
  "('c, 'd) client_deps \<Rightarrow> (dns_error option \<Rightarrow> dns_error option \<Rightarrow> dns_error option) \<Rightarrow> int \<Rightarrow> int \<Rightarrow> string option \<Rightarrow>
     string \<Rightarrow> exchange \<Rightarrow> string \<Rightarrow> 'x DNSQueryOptions_scheme \<Rightarrow> checker option \<Rightarrow> ('c, 'd) Client \<Rightarrow>
     (addr list \<times> dns_error option) \<times> 'x refresh_task list \<times> ('c, 'd) Client" where
  "Client_Lookup D joined now1 now2 ctxTag tag transport domain options responseChecker c =
     (let dnsName = lib_Fqdn (cd_dns D) (FqdnToDomain (lib_IsFqdn (cd_dns D)) domain);
          strategy = (if qo_LookupStrategy options \<noteq> DomainStrategyAsIS then qo_LookupStrategy options
                      else qo_Strategy options);
          lookupOptions = options\<lparr>qo_Strategy := strategy\<rparr>;
          lookup = (\<lambda>qType. lookupToExchange D now1 now2 ctxTag tag transport dnsName qType lookupOptions responseChecker)
      in if strategy = DomainStrategyIPv4Only then lookup TypeA c
         else if strategy = DomainStrategyIPv6Only then lookup TypeAAAA c
         else case lookup TypeA c of
           ((addresses4, err4), tasks4, c1) \<Rightarrow>
             (case lookup TypeAAAA c1 of
                ((addresses6, err6), tasks6, c2) \<Rightarrow>
                  let response4 = (if err4 = None then addresses4 else []);
                      response6 = (if err6 = None then addresses6 else [])
                  in (if response4 = [] \<and> response6 = [] then ([], joined err4 err6)
                      else (sortAddresses response4 response6 strategy, None),
                      tasks4 @ tasks6, c2)))"


subsection \<open>The branches of an exchange\<close>

lemma d_Id_prepare [simp]: "d_Id (prepareExchangeMessage c m options) = d_Id m"
  by (auto simp: prepareExchangeMessage_def SetClientSubnet_def Let_def split: prod.split option.split)

lemma backgroundRefreshDNS_client:
  "backgroundRefreshDNS tag q m options check c = (task, c') \<Longrightarrow> \<exists>ks. c' = c\<lparr>cl_backgroundRefresh := ks\<rparr>"
  by (auto simp: backgroundRefreshDNS_def split: if_splits intro: exI [of _ "cl_backgroundRefresh c"])

lemma exchange_with_cache_cases:
  assumes "exchange_with_cache D now1 now2 ctxTag tag transport q message options check disableCache c = (r, task, c')"
  obtains (cached) response ttl isStale c1 where
      "loadResponse D now1 q tag c = (Some (response, ttl, isStale), c1)"
      "r = (Some (response\<lparr>d_Id := d_Id message\<rparr>), None)" "\<exists>ks. c' = c1\<lparr>cl_backgroundRefresh := ks\<rparr>"
      "\<not> disableCache" "isStale \<longrightarrow> \<not> qo_DisableOptimisticCache options"
  | (sent) c1 where "task = None" "c1 = c \<or> (\<exists>x. loadResponse D now1 q tag c = (x, c1))"
      "exchange_uncached D now2 ctxTag tag transport q message options check disableCache c1 = (r, c')"
proof -
  let ?miss = "exchange_uncached D now2 ctxTag tag transport q message options check disableCache"
  have missed: thesis if "apsnd (Pair None) (?miss c1) = (r, task, c')"
    "c1 = c \<or> (\<exists>x. loadResponse D now1 q tag c = (x, c1))" for c1
    using that by (intro sent [of c1]) (auto simp: apsnd_def map_prod_def split: prod.splits)
  show thesis
  proof (cases "disableCache \<or> fst (loadResponse D now1 q tag c) = None")
    case True
    then show ?thesis
      using assms missed [of c] missed [of "snd (loadResponse D now1 q tag c)"]
      by (auto simp: exchange_with_cache_def split: if_splits prod.splits option.splits)
  next
    case False
    then obtain response ttl isStale c1 where l: "loadResponse D now1 q tag c = (Some (response, ttl, isStale), c1)"
      by (metis option.exhaust prod.exhaust_sel)
    show ?thesis
    proof (cases "isStale \<and> qo_DisableOptimisticCache options")
      case True
      then show ?thesis using assms missed [of c1] False l by (auto simp: exchange_with_cache_def)
    next
      case served: False
      then show ?thesis
        using assms False l backgroundRefreshDNS_client [of tag q message options check c1 task c']
        by (intro cached [of response ttl isStale c1])
          (auto simp: exchange_with_cache_def split: if_splits prod.splits intro: exI [of _ "cl_backgroundRefresh c1"])
    qed
  qed
qed

definition strategy_rejects :: "'x DNSQueryOptions_scheme \<Rightarrow> question \<Rightarrow> bool" where
  "strategy_rejects options q \<longleftrightarrow>
     q_Qtype q = TypeA \<and> qo_Strategy options = DomainStrategyIPv6Only \<or>
     q_Qtype q = TypeAAAA \<and> qo_Strategy options = DomainStrategyIPv4Only"

lemma Client_Exchange_cases:
  assumes "Client_Exchange D now1 now2 ctxTag tag transport request options check c = (r, task, c')"
  obtains (malformed) "d_Question request = []" "r = (Some (FixedResponseStatus request RcodeFormatError), None)" "task = None" "c' = c"
  | (strategy) q qs where "d_Question request = q # qs" "strategy_rejects options q"
      "r = (Some (FixedResponseStatus request RcodeSuccess), None)" "task = None" "c' = c"
  | (panic) e where "r = (None, Some e)" "task = None" "c' = c"
  | (exchange) q qs disableCache where "d_Question request = q # qs" "\<not> strategy_rejects options q"
      "exchange_with_cache D now1 now2 ctxTag tag transport q (prepareExchangeMessage c request options) options check disableCache c
        = (r, task, c')"
proof (cases "d_Question request")
  case Nil
  then show ?thesis using assms by (intro malformed) (auto simp: Client_Exchange_def)
next
  case (Cons q qs)
  show ?thesis
  proof (cases "strategy_rejects options q")
    case True
    then show ?thesis using assms Cons by (intro strategy) (auto simp: Client_Exchange_def strategy_rejects_def)
  next
    case ask: False
    show ?thesis
    proof (cases "isSimpleRequest (prepareExchangeMessage c request options) options")
      case None
      then show ?thesis
        using assms Cons ask by (intro panic) (auto simp: Client_Exchange_def strategy_rejects_def)
    next
      case (Some simple)
      then show ?thesis
        using assms Cons ask by (intro exchange) (auto simp: Client_Exchange_def strategy_rejects_def)
    qed
  qed
qed

end
