(* ===== verification/Dns_Client_Cache.thy ===== *)
theory Dns_Client_Cache
  imports Dns_Client
begin

text \<open>
  What the DNS client takes from its caches: the laws of the two caches, the runs of a client with its
  background refreshes, and that every cached answer was given by the transport it is served for.
\<close>

subsection \<open>The laws of the caches\<close>

text \<open>
  The LRU cache, seen through what it holds: an operation may evict entries; an entry has the value it was
  added with and expires no later than it was told to.
\<close>

definition lru_documented :: "(32 word \<Rightarrow> 'c) \<Rightarrow> ('c \<Rightarrow> dnsCacheKey \<rightharpoonup> dns_msg \<times> int option) \<Rightarrow> 'c freelru \<Rightarrow> bool" where
  "lru_documented new shown L \<longleftrightarrow>
     (\<forall>n. shown (new n) = Map.empty) \<and>
     (\<forall>k m c. shown (lru_Add L k m c) \<subseteq>\<^sub>m (shown c)(k \<mapsto> (m, None))) \<and>
     (\<forall>now k m d c. \<exists>t \<le> now + d. shown (lru_AddWithLifetime L now k m d c) \<subseteq>\<^sub>m (shown c)(k \<mapsto> (m, Some t))) \<and>
     (\<forall>now k c r c'. lru_Get L now k c = (r, c') \<longrightarrow>
        shown c' \<subseteq>\<^sub>m shown c \<and> (\<forall>m. r = Some m \<longrightarrow> (\<exists>t. shown c k = Some (m, t)))) \<and>
     (\<forall>k c r c'. lru_GetWithLifetimeNoExpire L k c = (r, c') \<longrightarrow>
        shown c' \<subseteq>\<^sub>m shown c \<and>
        (\<forall>m t. r = Some (m, t) \<longrightarrow> (\<exists>lt. shown c k = Some (m, lt) \<and> (\<forall>t'. lt = Some t' \<longrightarrow> t = t')))) \<and>
     (\<forall>k c. shown (lru_Remove L k c) \<subseteq>\<^sub>m shown c) \<and>
     (\<forall>c. shown (lru_Purge L c) = Map.empty)"

text \<open>
  The persistent store, seen through the responses it may still return for a key, each with every time up to its
  expiry; \<open>step\<close> is what happens in the store in the background.
\<close>

text \<open>Times a Unix time of 64 bits holds; the clock stays well below, so that an expiry is one as well.\<close>

definition unix_range :: "int \<Rightarrow> bool" where "unix_range t \<longleftrightarrow> 0 \<le> t \<and> t < 2 ^ 63 * 10 ^ 9"

definition clock_range :: "int \<Rightarrow> bool" where "clock_range t \<longleftrightarrow> 0 \<le> t \<and> t < 2 ^ 62 * 10 ^ 9"

lemma unix_range_expiry: "clock_range now \<Longrightarrow> unix_range (now + 10 ^ 9 * uint (ttl :: 32 word))"
  using unsigned_less [of ttl, where ?'a = int] unsigned_greater_eq [of ttl, where ?'a = int] by (simp add: clock_range_def unix_range_def)

type_synonym store_key = "string \<times> string \<times> 16 word"

locale dns_cache_store =
  fixes S :: "'d dns_store"
    and contents :: "'d \<Rightarrow> store_key \<Rightarrow> (bytes \<times> int) set"
    and step :: "'d \<Rightarrow> 'd \<Rightarrow> bool"
  assumes load: "ds_LoadDNSCache S tag name qType s = Some v \<Longrightarrow> v \<in> contents s (tag, name, qType)"
    and save: "unix_range expireAt \<Longrightarrow> v \<in> contents (ds_SaveDNSCacheAsync S tag name qType raw expireAt s) k \<Longrightarrow>
      v \<in> contents s k \<or> k = (tag, name, qType) \<and> fst v = raw \<and> snd v \<le> expireAt"
    and clear: "contents (ds_ClearDNSCache S s) k \<subseteq> contents s k"
    and reject: "contents (ds_SaveRDRCAsync S tag name qType s) k \<subseteq> contents s k"
    and rejected: "ds_LoadRDRC S now tag name qType s = (r, s') \<Longrightarrow> contents s' k \<subseteq> contents s k"
    and background: "step s s' \<Longrightarrow> contents s' k \<subseteq> contents s k"

subsection \<open>Every cached answer was given by the transport\<close>

text \<open>
  An answer: the key, the response a transport gave to a query as the options of the query rewrite it, and
  the time it expires.
\<close>

type_synonym answer = "dnsCacheKey \<times> dns_msg \<times> int"

definition answers :: "int \<Rightarrow> string \<Rightarrow> exchange \<Rightarrow> question \<Rightarrow> dns_msg \<Rightarrow> 'x DNSQueryOptions_scheme \<Rightarrow> answer set" where
  "answers now tag transport q message options =
     (case exchangeToTransport transport message of
        Inl e \<Rightarrow> {}
      | Inr response \<Rightarrow>
          if cacheable_rcode response
          then let (timeToLive, response1) = applyResponseOptions q response options
               in {((q, tag), response1, now + 10 ^ 9 * uint timeToLive)}
          else {})"

definition request_answers ::
  "('c, 'd) Client \<Rightarrow> int \<Rightarrow> string \<Rightarrow> exchange \<Rightarrow> dns_msg \<Rightarrow> 'x DNSQueryOptions_scheme \<Rightarrow> answer set" where
  "request_answers c now tag transport request options =
     (case d_Question request of
        [] \<Rightarrow> {}
      | q # _ \<Rightarrow> answers now tag transport q (prepareExchangeMessage c request options) options)"

definition same_question :: "question \<Rightarrow> question \<Rightarrow> bool" where
  "same_question q q' \<longleftrightarrow> q_Name q = q_Name q' \<and> q_Qtype q = q_Qtype q'"

definition stored_answers :: "dns_library \<Rightarrow> (store_key \<Rightarrow> (bytes \<times> int) set) \<Rightarrow> answer set \<Rightarrow> bool" where
  "stored_answers L holds H \<longleftrightarrow>
     (\<forall>tag name qType raw t. (raw, t) \<in> holds (tag, name, qType) \<longrightarrow>
        (\<exists>q m e. ((q, tag), m, e) \<in> H \<and> q_Name q = name \<and> q_Qtype q = qType \<and> lib_Unpack L raw = Some m \<and> t \<le> e))"

definition memory_answers :: "bool \<Rightarrow> (dnsCacheKey \<rightharpoonup> dns_msg \<times> int option) \<Rightarrow> answer set \<Rightarrow> bool" where
  "memory_answers disableExpire holds H \<longleftrightarrow>
     (\<forall>k m lt. holds k = Some (m, lt) \<longrightarrow> (\<exists>e. (k, m, e) \<in> H \<and> (disableExpire \<or> (\<exists>t \<le> e. lt = Some t))))"

definition pack_documented :: "dns_library \<Rightarrow> bool" where
  "pack_documented L \<longleftrightarrow> (\<forall>m raw. lib_Pack L m = Some raw \<longrightarrow> lib_Unpack L raw = Some m)"

lemma stored_answers_mono: "stored_answers L holds H \<Longrightarrow> H \<subseteq> H' \<Longrightarrow> stored_answers L holds H'"
  unfolding stored_answers_def by (meson subsetD)

lemma memory_answers_mono: "memory_answers e holds H \<Longrightarrow> H \<subseteq> H' \<Longrightarrow> memory_answers e holds H'"
  unfolding memory_answers_def by (meson subsetD)

lemma memory_answers_sub: "memory_answers e holds H \<Longrightarrow> holds' \<subseteq>\<^sub>m holds \<Longrightarrow> memory_answers e holds' H"
  unfolding memory_answers_def map_le_def by (metis domI)

lemma memory_answers_update:
  assumes "memory_answers noExpire holds H" "(k, m, e) \<in> H" "noExpire \<or> (\<exists>t \<le> e. lt = Some t)"
  shows "memory_answers noExpire (holds(k \<mapsto> (m, lt))) H"
  unfolding memory_answers_def
proof (intro allI impI)
  fix k' m' lt' assume s: "(holds(k \<mapsto> (m, lt))) k' = Some (m', lt')"
  show "\<exists>e. (k', m', e) \<in> H \<and> (noExpire \<or> (\<exists>t \<le> e. lt' = Some t))"
  proof (cases "k' = k")
    case True
    then show ?thesis using s assms(2,3) by auto
  next
    case False
    then have "holds k' = Some (m', lt')" using s by simp
    then show ?thesis using assms(1) unfolding memory_answers_def by blast
  qed
qed

lemma stored_answers_sub: "stored_answers L holds H \<Longrightarrow> (\<And>k. holds' k \<subseteq> holds k) \<Longrightarrow> stored_answers L holds' H"
  unfolding stored_answers_def by (meson subsetD)


definition client_ok ::
  "('c, 'd) client_deps \<Rightarrow> ('d \<Rightarrow> store_key \<Rightarrow> (bytes \<times> int) set) \<Rightarrow> ('c \<Rightarrow> dnsCacheKey \<rightharpoonup> dns_msg \<times> int option) \<Rightarrow>
     ('c, 'd) Client \<Rightarrow> answer set \<Rightarrow> bool" where
  "client_ok D contents shown c H \<longleftrightarrow>
     stored_answers (cd_dns D) (contents (cl_store c)) H \<and>
     (\<forall>cache. cl_cache c = Some cache \<longrightarrow> memory_answers (cl_disableExpire c) (shown cache) H)"

text \<open>What a response from the cache is worth: an answer of this transport, with its age taken off.\<close>

definition aged_answer :: "('c, 'd) Client \<Rightarrow> int \<Rightarrow> question \<Rightarrow> string \<Rightarrow> answer set \<Rightarrow> dns_msg \<times> int \<times> bool \<Rightarrow> bool" where
  "aged_answer c now q tag H = (\<lambda>(response, ttl, isStale).
     \<exists>q' m e. ((q', tag), m, e) \<in> H \<and> same_question q q' \<and> (cl_dnsCache c \<or> q' = q) \<and>
       (if cl_disableExpire c then response = m \<and> \<not> isStale
        else if isStale then response = normalizeTTL m 1 \<and> now < e + cl_optimisticTimeout c
        else response = normalizeTTL m (word_of_int ttl) \<and> 0 \<le> ttl \<and> now + ttl * 10 ^ 9 \<le> e))"

lemma aged_answerI:
  assumes h: "((q', tag), m, e) \<in> H" "same_question q q'" "cl_dnsCache c \<or> q' = q" "cl_disableExpire c \<or> t \<le> e"
    and r: "(if cl_disableExpire c then Some (m, 0, False) else aged_response (cl_optimisticTimeout c) now m t) = Some r"
  shows "aged_answer c now q tag H r"
proof -
  obtain response ttl isStale where r': "r = (response, ttl, isStale)" by (cases r)
  have "if cl_disableExpire c then response = m \<and> \<not> isStale
        else if isStale then response = normalizeTTL m 1 \<and> now < e + cl_optimisticTimeout c
        else response = normalizeTTL m (word_of_int ttl) \<and> 0 \<le> ttl \<and> now + ttl * 10 ^ 9 \<le> e"
    using h(4) r unfolding r' by (auto simp: aged_response_def Let_def split: if_splits)
  then show ?thesis unfolding aged_answer_def r' using h(1-3) by blast
qed

lemma lru_documentedD:
  assumes "lru_documented new shown L"
  shows "shown (new n) = Map.empty"
    "shown (lru_Add L k m c) \<subseteq>\<^sub>m (shown c)(k \<mapsto> (m, None))"
    "\<exists>t \<le> now + d. shown (lru_AddWithLifetime L now k m d c) \<subseteq>\<^sub>m (shown c)(k \<mapsto> (m, Some t))"
    "lru_Get L now k c = (r, c') \<Longrightarrow> shown c' \<subseteq>\<^sub>m shown c"
    "lru_Get L now k c = (Some m, c') \<Longrightarrow> \<exists>t. shown c k = Some (m, t)"
    "lru_GetWithLifetimeNoExpire L k c = (v, c') \<Longrightarrow> shown c' \<subseteq>\<^sub>m shown c"
    "lru_GetWithLifetimeNoExpire L k c = (Some (m, t), c') \<Longrightarrow>
       \<exists>lt. shown c k = Some (m, lt) \<and> (\<forall>t'. lt = Some t' \<longrightarrow> t = t')"
    "shown (lru_Remove L k c) \<subseteq>\<^sub>m shown c"
    "shown (lru_Purge L c) = Map.empty"
  using assms unfolding lru_documented_def by (elim conjE; simp; fail | metis)+

lemma client_ok_cache:
  "client_ok D contents shown c H \<Longrightarrow> cl_cache c = Some cache \<Longrightarrow> shown cache' \<subseteq>\<^sub>m shown cache \<Longrightarrow>
     client_ok D contents shown (c\<lparr>cl_cache := Some cache'\<rparr>) H"
  by (auto simp: client_ok_def intro: memory_answers_sub)

text \<open>The cache in memory.\<close>

lemma memory_load_aged:
  assumes L: "lru_documented new shown (cd_lru D)" and ok: "client_ok D contents shown c H"
    and c: "\<not> cl_dnsCache c" "cl_cache c = Some cache" and l: "loadResponse D now q tag c = (r, c')"
  shows "\<exists>cache'. c' = c\<lparr>cl_cache := Some cache'\<rparr> \<and> shown cache' \<subseteq>\<^sub>m shown cache \<and>
    (\<forall>x. r = Some x \<longrightarrow> aged_answer c now q tag H x)"
proof -
  have mem: "\<exists>e. (k, m, e) \<in> H \<and> (cl_disableExpire c \<or> (\<exists>t \<le> e. lt = Some t))" if "shown cache k = Some (m, lt)" for k m lt
    using ok c(2) that unfolding client_ok_def memory_answers_def by blast
  show ?thesis
  proof (cases "cl_disableExpire c")
    case True
    obtain m cache1 where g: "lru_Get (cd_lru D) now (q, tag) cache = (m, cache1)" by (cases "lru_Get (cd_lru D) now (q, tag) cache")
    have "aged_answer c now q tag H (x, 0, False)" if x: "m = Some x" for x
    proof -
      obtain lt where "shown cache (q, tag) = Some (x, lt)" using lru_documentedD(5) [OF L] g x by blast
      from mem [OF this] obtain e where "((q, tag), x, e) \<in> H" by blast
      then show ?thesis by (rule aged_answerI) (use True in \<open>auto simp: same_question_def\<close>)
    qed
    then show ?thesis
      using l c True g lru_documentedD(4) [OF L g] by (auto simp: loadResponse_def)
  next
    case False
    obtain v cache1 where g: "lru_GetWithLifetimeNoExpire (cd_lru D) (q, tag) cache = (v, cache1)"
      by (cases "lru_GetWithLifetimeNoExpire (cd_lru D) (q, tag) cache")
    note sub = lru_documentedD(6) [OF L g]
    show ?thesis
    proof (cases v)
      case None
      then show ?thesis using l c False g sub by (auto simp: loadResponse_def)
    next
      case (Some mt)
      obtain m t where mt: "mt = (m, t)" by (cases mt)
      obtain lt where lt: "shown cache (q, tag) = Some (m, lt)" "\<And>t'. lt = Some t' \<Longrightarrow> t = t'"
        using lru_documentedD(7) [OF L] g Some mt by blast
      from mem [OF lt(1)] lt(2) False obtain e where e: "((q, tag), m, e) \<in> H" "t \<le> e" by blast
      show ?thesis
      proof (cases "aged_response (cl_optimisticTimeout c) now m t")
        case None
        then show ?thesis
          using l c False g Some mt map_le_trans [OF lru_documentedD(8) [OF L] sub] by (auto simp: loadResponse_def)
      next
        case r: (Some x)
        have "aged_answer c now q tag H x"
          using e(1) by (rule aged_answerI) (use False e(2) r in \<open>auto simp: same_question_def\<close>)
        then show ?thesis using l c False g Some mt r sub by (auto simp: loadResponse_def)
      qed
    qed
  qed
qed

context dns_cache_store
begin

lemma loadPersistentResponse_aged:
  assumes "cd_store D = S" "client_ok D contents shown c H" "cl_dnsCache c"
    "loadPersistentResponse D now q tag c = Some r"
  shows "aged_answer c now q tag H r"
proof -
  obtain raw t m where l: "ds_LoadDNSCache S tag (q_Name q) (q_Qtype q) (cl_store c) = Some (raw, t)"
    "lib_Unpack (cd_dns D) raw = Some m"
    "(if cl_disableExpire c then Some (m, 0, False) else aged_response (cl_optimisticTimeout c) now m t) = Some r"
    using assms by (auto simp: loadPersistentResponse_def split: option.splits)
  obtain q' e where h: "((q', tag), m, e) \<in> H" "same_question q q'" "t \<le> e"
    using load [OF l(1)] assms(2) l(2) unfolding client_ok_def stored_answers_def same_question_def by fastforce
  from h(1,2) show ?thesis by (rule aged_answerI) (use h(3) l(3) assms(3) in auto)
qed

lemma loadResponse_aged:
  assumes "cd_store D = S" "lru_documented new shown (cd_lru D)" "client_ok D contents shown c H"
    "loadResponse D now q tag c = (r, c')"
  shows "client_ok D contents shown c' H" "\<exists>cache. c' = c\<lparr>cl_cache := cache\<rparr>"
    "r = Some x \<Longrightarrow> aged_answer c now q tag H x"
proof -
  have "client_ok D contents shown c' H \<and> (\<exists>cache. c' = c\<lparr>cl_cache := cache\<rparr>) \<and>
    (\<forall>x. r = Some x \<longrightarrow> aged_answer c now q tag H x)"
  proof (cases "cl_dnsCache c")
    case True
    then have e: "loadPersistentResponse D now q tag c = r" "c' = c" using assms(4) by (auto simp: loadResponse_def)
    have "c = c\<lparr>cl_cache := cl_cache c\<rparr>" by simp
    then show ?thesis using loadPersistentResponse_aged [OF assms(1,3) True] assms(3) e by blast
  next
    case False
    show ?thesis
    proof (cases "cl_cache c")
      case None
      then have "r = None" "c' = c\<lparr>cl_cache := None\<rparr>" using assms(4) False by (auto simp: loadResponse_def)
      then show ?thesis using assms(3) None by (auto simp: client_ok_def)
    next
      case (Some cache)
      from memory_load_aged [OF assms(2,3) False Some assms(4)] client_ok_cache [OF assms(3) Some]
      show ?thesis by blast
    qed
  qed
  then show "client_ok D contents shown c' H" "\<exists>cache. c' = c\<lparr>cl_cache := cache\<rparr>"
    "r = Some x \<Longrightarrow> aged_answer c now q tag H x" by blast+
qed

lemma storeCache_ok:
  assumes "cd_store D = S" "lru_documented new shown (cd_lru D)" "pack_documented (cd_dns D)"
    "client_ok D contents shown c H" "clock_range now" "((q, tag), m, now + 10 ^ 9 * uint ttl) \<in> H"
  shows "client_ok D contents shown (storeCache D now q tag m ttl c) H"
proof (cases "ttl \<noteq> 0 \<and> cl_dnsCache c")
  case True
  show ?thesis
  proof (cases "lib_Pack (cd_dns D) m")
    case None
    then show ?thesis using True assms(4) by (simp add: storeCache_def)
  next
    case (Some packed)
    then have "lib_Unpack (cd_dns D) packed = Some m" using assms(3) by (simp add: pack_documented_def)
    then show ?thesis
      using True Some assms(1,4,6) save [OF unix_range_expiry [OF assms(5), of ttl]]
      unfolding client_ok_def stored_answers_def storeCache_def by fastforce
  qed
next
  case memory: False
  show ?thesis
  proof (cases "ttl = 0 \<or> cl_cache c = None")
    case True
    then show ?thesis using memory assms(4) by (auto simp: storeCache_def)
  next
    case False
    then obtain cache where cache: "cl_cache c = Some cache" by blast
    obtain cache' lt where c': "storeCache D now q tag m ttl c = c\<lparr>cl_cache := Some cache'\<rparr>"
      "shown cache' \<subseteq>\<^sub>m (shown cache)((q, tag) \<mapsto> (m, lt))"
      "cl_disableExpire c \<or> (\<exists>t \<le> now + 10 ^ 9 * uint ttl. lt = Some t)"
      using memory False cache lru_documentedD(2) [OF assms(2), of "(q, tag)" m cache]
        lru_documentedD(3) [OF assms(2), of now "10 ^ 9 * uint ttl" "(q, tag)" m cache]
      by (cases "cl_disableExpire c") (auto simp: storeCache_def)
    have "memory_answers (cl_disableExpire c) ((shown cache)((q, tag) \<mapsto> (m, lt))) H"
      using memory_answers_update [OF _ assms(6) c'(3)] assms(4) cache by (auto simp: client_ok_def)
    then show ?thesis using assms(4) c' memory_answers_sub by (auto simp: client_ok_def)
  qed
qed

end


context dns_cache_store
begin

lemma client_ok_store:
  "client_ok D contents shown c H \<Longrightarrow> (\<And>k. contents s' k \<subseteq> contents (cl_store c) k) \<Longrightarrow>
     client_ok D contents shown (c\<lparr>cl_store := s'\<rparr>) H"
  unfolding client_ok_def using stored_answers_sub [of "cd_dns D" "contents (cl_store c)" H "contents s'"] by simp

lemma rejected_ok:
  assumes "cd_store D = S" "client_ok D contents shown c H"
  shows "client_ok D contents shown (snd (load_rejected D now tag q c)) H"
    "client_ok D contents shown (save_rejected D tag q c) H"
proof -
  show "client_ok D contents shown (snd (load_rejected D now tag q c)) H"
    using assms client_ok_store [OF assms(2) rejected [OF prod.collapse [symmetric]]] by (simp add: load_rejected_def)
  show "client_ok D contents shown (save_rejected D tag q c) H"
    using assms client_ok_store [OF assms(2) reject] by (simp add: save_rejected_def)
qed

lemma exchange_uncached_ok:
  assumes D: "cd_store D = S" "lru_documented new shown (cd_lru D)" "pack_documented (cd_dns D)"
    and ok: "client_ok D contents shown c H" "clock_range now" "answers now tag transport q message options \<subseteq> H"
    and ex: "exchange_uncached D now ctxTag tag transport q message options check disableCache c = (r, c')"
  shows "client_ok D contents shown c' H"
proof -
  define c1 where "c1 = (if \<not> disableCache \<and> check \<noteq> None then snd (load_rejected D now tag q c) else c)"
  have c1: "client_ok D contents shown c1 H" using ok(1) rejected_ok(1) [OF D(1) ok(1)] by (simp add: c1_def)
  show ?thesis
  proof (cases "exchangeToTransport transport message")
    case (Inl e)
    then have "c' = c \<or> c' = c1" using ex by (auto simp: exchange_uncached_def c1_def split: prod.splits bool.splits if_splits)
    then show ?thesis using ok(1) c1 by blast
  next
    case (Inr response)
    obtain ttl response1 where ap: "applyResponseOptions q response options = (ttl, response1)"
      by (cases "applyResponseOptions q response options")
    have "cacheable_rcode response \<Longrightarrow> ((q, tag), response1, now + 10 ^ 9 * uint ttl) \<in> H"
      using ok(3) Inr ap by (simp add: answers_def)
    then have "cacheable_rcode response \<Longrightarrow> client_ok D contents shown (storeCache D now q tag response1 ttl c1) H"
      using storeCache_ok [OF D c1 ok(2)] by blast
    moreover have "c' \<in> {c, c1, save_rejected D tag q c1} \<or>
        cacheable_rcode response \<and> c' = storeCache D now q tag response1 ttl c1"
      using ex Inr ap
      by (auto simp: exchange_uncached_def c1_def Let_def split: prod.splits bool.splits if_splits)
    ultimately show ?thesis using ok(1) c1 rejected_ok(2) [OF D(1) c1] by auto
  qed
qed

lemma client_ok_refresh [simp]:
  "client_ok D contents shown (c\<lparr>cl_backgroundRefresh := ks\<rparr>) H = client_ok D contents shown c H"
  by (simp add: client_ok_def)

lemma Client_Exchange_ok:
  assumes D: "cd_store D = S" "lru_documented new shown (cd_lru D)" "pack_documented (cd_dns D)"
    and ok: "client_ok D contents shown c H" "clock_range now2" "request_answers c now2 tag transport request options \<subseteq> H"
    and ex: "Client_Exchange D now1 now2 ctxTag tag transport request options check c = (r, task, c')"
  shows "client_ok D contents shown c' H"
  using ex
proof (cases rule: Client_Exchange_cases)
  case (exchange q qs disableCache)
  have a: "answers now2 tag transport q (prepareExchangeMessage c request options) options \<subseteq> H"
    using ok(3) exchange(1) by (simp add: request_answers_def)
  from exchange(3) show ?thesis
  proof (cases rule: exchange_with_cache_cases)
    case (cached response ttl isStale c1)
    then show ?thesis using loadResponse_aged(1) [OF D(1,2) ok(1) cached(1)] by auto
  next
    case (sent c1)
    have "client_ok D contents shown c1 H" using sent(2) ok(1) loadResponse_aged(1) [OF D(1,2) ok(1)] by blast
    then show ?thesis using exchange_uncached_ok [OF D _ ok(2) a sent(3)] by blast
  qed
qed (use ok(1) in simp_all)

end


lemma prepare_cache [simp]:
  "prepareExchangeMessage (c\<lparr>cl_cache := cache\<rparr>) m options = prepareExchangeMessage c m options"
  by (simp add: prepareExchangeMessage_def)

lemma request_answers_cache [simp]:
  "request_answers (c\<lparr>cl_cache := cache\<rparr>) now tag transport request options = request_answers c now tag transport request options"
  by (simp add: request_answers_def split: list.split)

lemma questionCache_hit:
  assumes "loadResponse D now q tag c = (Some (response, ttl, isStale), c1)" "isStale \<longrightarrow> \<not> qo_DisableOptimisticCache options"
  obtains task ks where "questionCache D now tag m q options check c = (response_addresses D response, task, c1\<lparr>cl_backgroundRefresh := ks\<rparr>)"
proof (cases isStale)
  case True
  obtain task c2 where b: "backgroundRefreshDNS tag q (prepareExchangeMessage c1 m options) options check c1 = (task, c2)"
    by (cases "backgroundRefreshDNS tag q (prepareExchangeMessage c1 m options) options check c1")
  from backgroundRefreshDNS_client [OF this] obtain ks where "c2 = c1\<lparr>cl_backgroundRefresh := ks\<rparr>" by blast
  then show ?thesis using True assms b by (intro that [of task ks]) (simp add: questionCache_def)
next
  case False
  then show ?thesis using assms by (intro that [of None "cl_backgroundRefresh c1"]) (simp add: questionCache_def)
qed

lemma questionCache_miss:
  assumes "loadResponse D now q tag c = (x, c1)"
    "\<nexists>response ttl isStale. x = Some (response, ttl, isStale) \<and> (isStale \<longrightarrow> \<not> qo_DisableOptimisticCache options)"
  shows "questionCache D now tag m q options check c = (([], Some ErrNotCached), None, c1)"
  using assms by (cases x) (auto simp: questionCache_def)

lemma lookupToExchange_cases:
  assumes "lookupToExchange D now1 now2 ctxTag tag transport name qType options check c = (r, tasks, c')"
  obtains (exchange) c1 er task where "c1 = c \<or> (\<exists>x. loadResponse D now1 (lookup_question name qType) tag c = (x, c1))"
      "Client_Exchange D now1 now2 ctxTag tag transport (lookup_message name qType) options check c1 = (er, task, c')"
      "r = exchange_addresses D er"
  | (cached) response ttl isStale c1 where "loadResponse D now1 (lookup_question name qType) tag c = (Some (response, ttl, isStale), c1)"
      "r = response_addresses D response" "\<exists>ks. c' = c1\<lparr>cl_backgroundRefresh := ks\<rparr>"
      "isStale \<longrightarrow> \<not> qo_DisableOptimisticCache options"
proof -
  let ?q = "lookup_question name qType" and ?m = "lookup_message name qType"
  define miss where "miss = (\<lambda>c. case Client_Exchange D now1 now2 ctxTag tag transport ?m options check c of
              (er, task, c1) \<Rightarrow> (exchange_addresses D er, case task of None \<Rightarrow> [] | Some t \<Rightarrow> [t], c1))"
  have missed: thesis if "miss c1 = (r, tasks, c')" "c1 = c \<or> (\<exists>x. loadResponse D now1 ?q tag c = (x, c1))" for c1
    using that by (cases "Client_Exchange D now1 now2 ctxTag tag transport ?m options check c1") (auto simp: miss_def intro: exchange)
  have l: "lookupToExchange D now1 now2 ctxTag tag transport name qType options check c =
     (if cl_disableCache c \<or> qo_DisableCache options then miss c
      else case questionCache D now1 tag ?m ?q options check c of
           ((addresses, err), task, c1) \<Rightarrow>
             if err \<noteq> Some ErrNotCached then ((addresses, err), case task of None \<Rightarrow> [] | Some t \<Rightarrow> [t], c1) else miss c1)"
    unfolding lookupToExchange_def miss_def Let_def ..
  have never: "snd (response_addresses D m) \<noteq> Some ErrNotCached" for m
    by (simp add: response_addresses_def ErrNotCached_def)
  show thesis
  proof (cases "cl_disableCache c \<or> qo_DisableCache options")
    case True
    then show ?thesis using missed [of c] assms l by simp
  next
    case False
    obtain x c1 where x: "loadResponse D now1 ?q tag c = (x, c1)" by (cases "loadResponse D now1 ?q tag c")
    show ?thesis
    proof (cases "\<exists>response ttl isStale. x = Some (response, ttl, isStale) \<and> (isStale \<longrightarrow> \<not> qo_DisableOptimisticCache options)")
      case True
      then obtain response ttl isStale where y: "x = Some (response, ttl, isStale)" "isStale \<longrightarrow> \<not> qo_DisableOptimisticCache options" by blast
      obtain task ks where "questionCache D now1 tag ?m ?q options check c = (response_addresses D response, task, c1\<lparr>cl_backgroundRefresh := ks\<rparr>)"
        using questionCache_hit x y by metis
      then have "r = response_addresses D response" "c' = c1\<lparr>cl_backgroundRefresh := ks\<rparr>"
        using assms l False never [of response] by (auto simp: split_beta)
      then show ?thesis using cached [of response ttl isStale c1] x y by blast
    next
      case no: False
      have "miss c1 = (r, tasks, c')"
        using assms l False questionCache_miss [OF x no] by simp
      then show ?thesis using missed x by blast
    qed
  qed
qed

context dns_cache_store
begin

lemma lookupToExchange_ok:
  assumes D: "cd_store D = S" "lru_documented new shown (cd_lru D)" "pack_documented (cd_dns D)"
    and ok: "client_ok D contents shown c H" "clock_range now2"
      "request_answers c now2 tag transport (lookup_message name qType) options \<subseteq> H"
    and ex: "lookupToExchange D now1 now2 ctxTag tag transport name qType options check c = (r, tasks, c')"
  shows "client_ok D contents shown c' H"
  using ex
proof (cases rule: lookupToExchange_cases)
  case (exchange c1 er task)
  have c1: "client_ok D contents shown c1 H" using exchange(1) ok(1) loadResponse_aged(1) [OF D(1,2) ok(1)] by blast
  have "request_answers c1 now2 tag transport (lookup_message name qType) options \<subseteq> H"
    using exchange(1) ok(3) loadResponse_aged(2) [OF D(1,2) ok(1)] request_answers_cache by metis
  then show ?thesis using Client_Exchange_ok [OF D c1 ok(2) _ exchange(2)] by blast
next
  case (cached response ttl isStale c1)
  then show ?thesis using loadResponse_aged(1) [OF D(1,2) ok(1) cached(1)] by auto
qed

lemma run_refresh_ok:
  assumes D: "cd_store D = S" "lru_documented new shown (cd_lru D)" "pack_documented (cd_dns D)"
    and ok: "client_ok D contents shown c H" "clock_range now"
      "answers now (rt_tag t) transport (rt_question t) (rt_message t) (rt_options t) \<subseteq> H"
  shows "client_ok D contents shown (run_refresh D now transport t c) H"
proof -
  have "client_ok D contents shown (refresh_result D now transport t c) H"
  proof (cases "exchangeToTransport transport (rt_message t)")
    case (Inl e)
    then show ?thesis using ok(1) by (simp add: refresh_result_def)
  next
    case (Inr response)
    obtain ttl response1 where ap: "applyResponseOptions (rt_question t) response (rt_options t) = (ttl, response1)"
      by (cases "applyResponseOptions (rt_question t) response (rt_options t)")
    have "client_ok D contents shown (storeCache D now (rt_question t) (rt_tag t) response1 ttl c) H" if "cacheable_rcode response"
      using storeCache_ok [OF D ok(1,2)] ok(3) Inr ap that by (simp add: answers_def)
    then show ?thesis using ok(1) rejected_ok(2) [OF D(1) ok(1)] Inr ap by (simp add: refresh_result_def)
  qed
  then show ?thesis by (simp add: run_refresh_def Let_def)
qed

lemma Client_ClearCache_ok:
  assumes D: "cd_store D = S" "lru_documented new shown (cd_lru D)" and ok: "client_ok D contents shown c H"
  shows "client_ok D contents shown (Client_ClearCache D c) H"
proof -
  have "client_ok D contents shown (c\<lparr>cl_cache := map_option (lru_Purge (cd_lru D)) (cl_cache c)\<rparr>) H"
    using ok lru_documentedD(9) [OF D(2)] by (auto simp: client_ok_def memory_answers_def)
  from this client_ok_store [OF this, of "ds_ClearDNSCache S (cl_store c)"] clear show ?thesis
    using D(1) by (simp add: Client_ClearCache_def Let_def)
qed

lemma client_start_ok:
  assumes "lru_documented (cd_new D) shown (cd_lru D)" "stored_answers (cd_dns D) (contents store) H"
  shows "client_ok D contents shown (Client_Start D (NewClient D options store)) H"
proof -
  have new: "cl_store (NewClient D options store) = store"
    "cl_cache (NewClient D options store) = None \<or> (\<exists>n. cl_cache (NewClient D options store) = Some (cd_new D n))"
    by (auto simp: NewClient_def initializeMemoryCache_def Let_def)
  have start: "cl_store (Client_Start D c) = cl_store c"
    "cl_cache (Client_Start D c) = cl_cache c \<or> (\<exists>n. cl_cache (Client_Start D c) = Some (cd_new D n))" for c
    by (cases "cl_initRDRC c"; cases "cl_initDNSCache c"; auto simp: Client_Start_def initializeMemoryCache_def Let_def)+
  have "memory_answers e (shown (cd_new D n)) H" for e n using lru_documentedD(1) [OF assms(1)] by (simp add: memory_answers_def)
  then show ?thesis using assms(2) new start [of "NewClient D options store"] by (auto simp: client_ok_def)
qed

end


subsection \<open>The runs of a client\<close>

text \<open>
  Exchanges, address queries, refreshes in the background, clearing, and what happens in the store by
  itself, in any order.  The store may hold answers of earlier runs.  The answers grow by what a transport
  says to the query of a step.
\<close>

inductive client_run ::
  "('c, 'd) client_deps \<Rightarrow> ('d \<Rightarrow> store_key \<Rightarrow> (bytes \<times> int) set) \<Rightarrow> ('d \<Rightarrow> 'd \<Rightarrow> bool) \<Rightarrow>
     ('c, 'd) Client \<Rightarrow> 'x refresh_task list \<Rightarrow> answer set \<Rightarrow> bool" for D contents step where
  start: "stored_answers (cd_dns D) (contents store) H \<Longrightarrow>
    client_run D contents step (Client_Start D (NewClient D options store)) [] H"
| exchange: "client_run D contents step c tasks H \<Longrightarrow> clock_range now2 \<Longrightarrow>
    Client_Exchange D now1 now2 ctxTag tag transport request options check c = (r, task, c') \<Longrightarrow>
    client_run D contents step c' (tasks @ (case task of None \<Rightarrow> [] | Some t \<Rightarrow> [t]))
      (H \<union> request_answers c now2 tag transport request options)"
| lookup: "client_run D contents step c tasks H \<Longrightarrow> clock_range now2 \<Longrightarrow>
    lookupToExchange D now1 now2 ctxTag tag transport name qType options check c = (r, tasks', c') \<Longrightarrow>
    client_run D contents step c' (tasks @ tasks')
      (H \<union> request_answers c now2 tag transport (lookup_message name qType) options)"
| refresh: "client_run D contents step c tasks H \<Longrightarrow> t \<in> set tasks \<Longrightarrow> clock_range now \<Longrightarrow>
    client_run D contents step (run_refresh D now transport t c) (remove1 t tasks)
      (H \<union> answers now (rt_tag t) transport (rt_question t) (rt_message t) (rt_options t))"
| clear: "client_run D contents step c tasks H \<Longrightarrow> client_run D contents step (Client_ClearCache D c) tasks H"
| background: "client_run D contents step c tasks H \<Longrightarrow> step (cl_store c) s' \<Longrightarrow>
    client_run D contents step (c\<lparr>cl_store := s'\<rparr>) tasks H"

lemma client_ok_mono: "client_ok D contents shown c H \<Longrightarrow> H \<subseteq> H' \<Longrightarrow> client_ok D contents shown c H'"
  unfolding client_ok_def using stored_answers_mono memory_answers_mono by blast

context dns_cache_store
begin

lemma client_run_ok:
  assumes "cd_store D = S" "lru_documented (cd_new D) shown (cd_lru D)" "pack_documented (cd_dns D)"
    "client_run D contents step c tasks H"
  shows "client_ok D contents shown c H"
  using assms(4)
proof (induction rule: client_run.induct)
  case (start store H options)
  then show ?case by (rule client_start_ok [OF assms(2)])
next
  case (exchange c tasks H now2 now1 ctxTag tag transport request options check r task c')
  show ?case using Client_Exchange_ok [OF assms(1-3) client_ok_mono [OF exchange.IH] exchange.hyps(2) _ exchange.hyps(3)] by blast
next
  case (lookup c tasks H now2 now1 ctxTag tag transport name qType options check r tasks' c')
  show ?case using lookupToExchange_ok [OF assms(1-3) client_ok_mono [OF lookup.IH] lookup.hyps(2) _ lookup.hyps(3)] by blast
next
  case (refresh c tasks H t now transport)
  show ?case using run_refresh_ok [OF assms(1-3) client_ok_mono [OF refresh.IH] refresh.hyps(3)] by blast
next
  case (clear c tasks H)
  show ?case using Client_ClearCache_ok [OF assms(1,2) clear.IH] .
next
  case (background c tasks H s')
  show ?case using client_ok_store [OF background.IH] dns_cache_store.background [OF dns_cache_store_axioms background.hyps(2)] by blast
qed

end

lemma exchange_uncached_response:
  assumes "exchange_uncached D now ctxTag tag transport q message options check disableCache c = ((Some response, err), c')"
  obtains answer where "exchangeToTransport transport message = Inr answer"
    "if rejected_by check answer then response = answer \<and> err = Some ErrResponseRejected
     else err = None \<and> response = match_edns (cd_dns D) message ((snd (applyResponseOptions q answer options))\<lparr>d_Id := d_Id message\<rparr>)"
proof (cases "exchangeToTransport transport message")
  case (Inl e)
  then show ?thesis using assms by (auto simp: exchange_uncached_def split: prod.splits bool.splits if_splits)
next
  case (Inr answer)
  then show ?thesis
    using assms by (intro that [of answer]) (auto simp: exchange_uncached_def Let_def split: prod.splits bool.splits if_splits)
qed

end
