(* ===== verification/Dns_Client_Store.thy ===== *)
theory Dns_Client_Store
  imports Dns_Client_Cache
begin

text \<open>
  The cache file as the persistent store of the DNS client: the operations of \<^verbatim>\<open>Dns_Cache_File\<close> and \<^verbatim>\<open>Cache_File\<close>
  satisfy the laws the client relies on, also while its goroutines write and clean up.
\<close>

subsection \<open>The cache file behind the interface\<close>

definition dns_key :: "string \<Rightarrow> string \<Rightarrow> 16 word \<Rightarrow> saveCacheKey" where
  "dns_key tag name qType = \<lparr>k_TransportName = tag, k_QuestionName = name, k_QType = qType\<rparr>"

definition file_store :: "'db bbolt \<Rightarrow> 'db flush_state dns_store" where
  "file_store B =
     \<lparr>ds_LoadDNSCache = (\<lambda>tag name qType s. LoadDNSCache B (dns_key tag name qType) (fst s)),
      ds_SaveDNSCacheAsync = (\<lambda>tag name qType. SaveDNSCacheAsync (dns_key tag name qType)),
      ds_ClearDNSCache = (\<lambda>s. apfst (\<lambda>c. snd (ClearDNSCache B c)) s),
      ds_LoadRDRC = (\<lambda>now tag name qType s. apsnd (\<lambda>c. (c, snd s)) (LoadRDRC B now tag name qType (fst s))),
      ds_SaveRDRCAsync = (\<lambda>tag name qType s. apfst (SaveRDRCAsync_begin tag name qType) s)\<rparr>"

text \<open>What goes on in the file by itself: the goroutines of the queue and of rejected responses, and the clean-ups.\<close>

inductive file_step :: "'db bbolt \<Rightarrow> 'db flush_state \<Rightarrow> 'db flush_state \<Rightarrow> bool" for B where
  flush: "flush_step B s s' \<Longrightarrow> file_step B s s'"
| reject: "file_step B (c, fs) (SaveRDRCAsync_run B now tag name qType c, fs)"
| cleanup: "file_step B (c, fs) (cleanupDNSCache B now c, fs)"
| cleanup_rejected: "file_step B (c, fs) (cleanupRDRC B now c, fs)"

definition dns_path :: "'db CacheFile \<Rightarrow> saveCacheKey \<Rightarrow> bucket_path" where
  "dns_path c key = base_path c bucketDNSCache @ [str_bytes (k_TransportName key)]"

text \<open>The entries that are pending, held by a goroutine, or written.\<close>

definition file_entries :: "'db bbolt \<Rightarrow> 'db flush_state \<Rightarrow> saveCacheKey \<Rightarrow> (bytes \<times> int) set" where
  "file_entries B s key =
     {(e_rawMessage e, e_expireAt e) | e. cf_saveDNSCache (fst s) key = Some e} \<union>
     {(e_rawMessage e, e_expireAt e) | e f. (key, f) \<in> set (snd s) \<and> held f = Some e} \<union>
     {(drop 8 v, bytes_unix (take 8 v)) | v.
        b_Get B (cf_DB (fst s)) (dns_path (fst s) key) (question_key (k_QuestionName key) (k_QType key)) = Some v}"

definition file_contents :: "'db bbolt \<Rightarrow> 'db flush_state \<Rightarrow> store_key \<Rightarrow> (bytes \<times> int) set" where
  "file_contents B s = (\<lambda>(tag, name, qType).
     {v. \<exists>e. (unix_range e \<longrightarrow> snd v \<le> e) \<and> (fst v, e) \<in> file_entries B s (dns_key tag name qType)})"

text \<open>A new file is empty.\<close>

definition reset_law :: "'db bbolt \<Rightarrow> bool" where
  "reset_law B \<longleftrightarrow> (\<forall>db p k. b_Get B (b_Reset B db) p k = None)"

subsection \<open>What a transaction can add\<close>

definition adds_only :: "'db bbolt \<Rightarrow> (bucket_path \<Rightarrow> bytes \<Rightarrow> bytes \<Rightarrow> bool) \<Rightarrow> 'db \<Rightarrow> 'db \<Rightarrow> bool" where
  "adds_only B P db db' \<longleftrightarrow> (\<forall>p k v. b_Get B db' p k = Some v \<longrightarrow> b_Get B db p k = Some v \<or> P p k v)"

lemma adds_only_refl [simp]: "adds_only B P db db"
  by (simp add: adds_only_def)

lemma adds_only_trans: "adds_only B P a b \<Longrightarrow> adds_only B P b c \<Longrightarrow> adds_only B P a c"
  unfolding adds_only_def by blast

lemma batch_adds_only:
  assumes "reset_law B" "\<And>db' r. fn (cf_DB c) = Inr (db', r) \<Longrightarrow> adds_only B P (cf_DB c) db'"
  shows "\<exists>db'. snd (batch B fn c) = c\<lparr>cf_DB := db'\<rparr> \<and> adds_only B P (cf_DB c) db'"
proof -
  have same: "c = c\<lparr>cf_DB := cf_DB c\<rparr>" by simp
  show ?thesis
  proof (cases "fn (cf_DB c)")
    case (Inl e)
    then have "snd (batch B fn c) = c \<or> snd (batch B fn c) = c\<lparr>cf_DB := b_Reset B (cf_DB c)\<rparr>"
      by (cases e) (simp_all add: batch_def resetDB_def)
    then show ?thesis
      using assms(1) same adds_only_refl by (metis adds_only_def option.distinct(1) reset_law_def)
  next
    case (Inr x)
    obtain db' r where x: "x = (db', r)" by (cases x)
    then have "snd (batch B fn c) = c \<or> snd (batch B fn c) = c\<lparr>cf_DB := db'\<rparr>"
      using Inr by (cases "b_Commit B (cf_DB c) db'") (simp_all add: batch_def)
    then show ?thesis using assms(2) Inr x same adds_only_refl by metis
  qed
qed

lemma adds_only_ops:
  assumes "bbolt_documented B"
  shows "b_CreateBucketIfNotExists B db p = Inr db' \<Longrightarrow> adds_only B P db db'"
    "b_Put B db p k v = Inr db' \<Longrightarrow> P p k v \<Longrightarrow> adds_only B P db db'"
    "b_Delete B db p k = Inr db' \<Longrightarrow> adds_only B P db db'"
    "b_DeleteBucket B db p = Inr db' \<Longrightarrow> adds_only B P db db'"
  using documented_create(1) [OF assms] documented_put(1) [OF assms] documented_delete(1) [OF assms]
    documented_delete_bucket(1) [OF assms]
  by (auto simp: adds_only_def split: if_splits)

lemma createBucket_adds_only:
  "bbolt_documented B \<Longrightarrow> createBucket B c db name = Inr (db1, p) \<Longrightarrow> adds_only B P db db1 \<and> p = base_path c name"
  using createBucket_Inr by (fastforce simp: adds_only_def)

lemma save_adds_only:
  assumes "bbolt_documented B"
    "bind_res (createBucket B c db name) (\<lambda>(db1, p).
       bind_res (b_CreateBucketIfNotExists B db1 (p @ [t])) (put_in B (p @ [t]) k v)) = Inr (db', r)"
    "P (base_path c name @ [t]) k v"
  shows "adds_only B P db db'"
proof -
  obtain db1 p db2 where s: "createBucket B c db name = Inr (db1, p)"
    "b_CreateBucketIfNotExists B db1 (p @ [t]) = Inr db2" "b_Put B db2 (p @ [t]) k v = Inr db'"
    using assms(2) by (auto simp: put_in_def bind_res_Inr split: prod.splits)
  show ?thesis
    using createBucket_adds_only [OF assms(1) s(1)] adds_only_ops(1) [OF assms(1) s(2)] adds_only_ops(2) [OF assms(1) s(3)]
      assms(3) adds_only_trans by metis
qed

lemma delete_all_adds_only:
  "bbolt_documented B \<Longrightarrow> delete_all B p ks db = Inr db' \<Longrightarrow> adds_only B P db db'"
  by (induction ks arbitrary: db) (auto simp: bind_res_Inr intro: adds_only_trans adds_only_ops(3))

lemma delete_buckets_adds_only:
  "bbolt_documented B \<Longrightarrow> delete_buckets B p ks db = Inr db' \<Longrightarrow> adds_only B P db db'"
  by (induction ks arbitrary: db) (auto simp: bind_res_Inr intro: adds_only_trans adds_only_ops(4))

lemma cleanup_transports_adds_only:
  "bbolt_documented B \<Longrightarrow> cleanup_transports B ex p ts es db = Inr (db', es') \<Longrightarrow> adds_only B P db db'"
  by (induction ts arbitrary: db es) (auto simp: bind_res_Inr intro: adds_only_trans delete_all_adds_only)

lemma cleanup_adds_only:
  "bbolt_documented B \<Longrightarrow> cleanup_bucket B name ex c db = Inr (db', r) \<Longrightarrow> adds_only B P db db'"
  "bbolt_documented B \<Longrightarrow> clear_bucket B name c db = Inr (db', r) \<Longrightarrow> adds_only B P db db'"
  by (auto simp: cleanup_bucket_def clear_bucket_def bind_res_Inr split: option.splits prod.splits
      intro: adds_only_trans cleanup_transports_adds_only delete_buckets_adds_only adds_only_ops(4))


subsection \<open>The laws\<close>

text \<open>The entries after a change are older ones, a new one, or one written with its expiry rounded down.\<close>

definition entries_from :: "(bytes \<times> int) set \<Rightarrow> (bytes \<times> int) set \<Rightarrow> bool" where
  "entries_from E' E \<longleftrightarrow> (\<forall>raw t. (raw, t) \<in> E' \<longrightarrow> (\<exists>e. (raw, e) \<in> E \<and> (unix_range e \<longrightarrow> unix_range t \<and> t \<le> e)))"

lemma entries_from_sub: "E' \<subseteq> E \<Longrightarrow> entries_from E' E"
  unfolding entries_from_def by blast

lemma entries_from_contents:
  assumes "\<And>key. entries_from (file_entries B s' key) (file_entries B s key)"
  shows "file_contents B s' k \<subseteq> file_contents B s k"
proof
  fix v assume v: "v \<in> file_contents B s' k"
  obtain tag name qType where k: "k = (tag, name, qType)" by (cases k)
  obtain t where t: "unix_range t \<longrightarrow> snd v \<le> t" "(fst v, t) \<in> file_entries B s' (dns_key tag name qType)"
    using v by (auto simp: file_contents_def k)
  then obtain e where "(fst v, e) \<in> file_entries B s (dns_key tag name qType)" "unix_range e \<longrightarrow> unix_range t \<and> t \<le> e"
    using assms unfolding entries_from_def by blast
  then show "v \<in> file_contents B s k" using t(1) by (auto simp: file_contents_def k intro: exI [of _ e])
qed

lemma unix_rounds: "unix_range e \<Longrightarrow> unix_range (bytes_unix (unix_bytes e)) \<and> bytes_unix (unix_bytes e) \<le> e"
proof -
  assume e: "unix_range e"
  have "bytes_unix (unix_bytes e) = e div 10 ^ 9 * 10 ^ 9"
    using e by (intro unix_round_trip) (auto simp: unix_range_def)
  then show ?thesis using e by (simp add: unix_range_def) linarith
qed

lemma file_entries_DB:
  assumes "adds_only B P (cf_DB c) db'"
  shows "file_entries B (c\<lparr>cf_DB := db'\<rparr>, fs) key \<subseteq> file_entries B (c, fs) key \<union>
    {(drop 8 v, bytes_unix (take 8 v)) | v. P (dns_path c key) (question_key (k_QuestionName key) (k_QType key)) v}"
proof -
  let ?k = "question_key (k_QuestionName key) (k_QType key)" and ?p = "dns_path c key"
  have path: "dns_path (c\<lparr>cf_DB := db'\<rparr>) key = ?p" by (simp add: dns_path_def base_path_def)
  have "b_Get B db' ?p ?k = Some v \<Longrightarrow> b_Get B (cf_DB c) ?p ?k = Some v \<or> P ?p ?k v" for v
    using assms by (simp add: adds_only_def)
  then have "{(drop 8 v, bytes_unix (take 8 v)) | v. b_Get B db' ?p ?k = Some v} \<subseteq>
    {(drop 8 v, bytes_unix (take 8 v)) | v. b_Get B (cf_DB c) ?p ?k = Some v} \<union>
    {(drop 8 v, bytes_unix (take 8 v)) | v. P ?p ?k v}" by blast
  then show ?thesis unfolding file_entries_def fst_conv snd_conv path by auto
qed

lemma file_entries_batch:
  assumes "reset_law B" "\<And>db' r. fn (cf_DB c) = Inr (db', r) \<Longrightarrow> adds_only B (\<lambda>_ _ _. False) (cf_DB c) db'"
  shows "file_entries B (snd (batch B fn c), fs) key \<subseteq> file_entries B (c, fs) key"
  using batch_adds_only [of B fn c, OF assms] file_entries_DB [of B "\<lambda>_ _ _. False" c _ fs key] by fastforce

lemma LoadRDRC_entries:
  assumes "bbolt_documented B" "reset_law B"
  shows "file_entries B (snd (LoadRDRC B now tag name qType c), fs) key \<subseteq> file_entries B (c, fs) key"
proof -
  have del: "file_entries B (snd (batch B (\<lambda>db. case transport_bucket B c1 bucketRDRC tag db of None \<Rightarrow> Inr (db, ())
      | Some p \<Rightarrow> delete_in B p k db) c1), fs) key \<subseteq> file_entries B (c1, fs) key" for c1 k
    by (rule file_entries_batch [OF assms(2)])
      (auto simp: delete_in_def bind_res_Inr split: option.splits intro: adds_only_ops(3) [OF assms(1)])
  have view: "file_entries B (c1, fs) key \<subseteq> file_entries B (c, fs) key" if "view B fn c = (r, c1)"
    for fn :: "'a \<Rightarrow> (bool \<times> bool) res" and r c1
    using that file_entries_DB [of B "\<lambda>_ _ _. False" c "b_Reset B (cf_DB c)" fs key] assms(2)
    by (auto simp: view_def resetDB_def adds_only_def reset_law_def split: sum.splits error.splits)
  show ?thesis
    unfolding LoadRDRC_def Let_def
    by (auto split: option.split prod.split sum.split dest!: subsetD [OF del] dest: view [THEN subsetD])
qed


lemma dns_path_inject:
  "dns_path c key = dns_path c key0 \<Longrightarrow> question_key (k_QuestionName key) (k_QType key) = question_key (k_QuestionName key0) (k_QType key0) \<Longrightarrow>
     key = (key0 :: saveCacheKey)"
  by (cases key; cases key0) (simp add: dns_path_def)

lemma SaveDNSCache_entries:
  assumes "bbolt_documented B" "reset_law B"
  shows "file_entries B (snd (SaveDNSCache B key0 raw e c), fs) key \<subseteq> file_entries B (c, fs) key \<union>
    (if key = key0 then {(raw, bytes_unix (unix_bytes e))} else {})"
proof -
  let ?P = "\<lambda>p k v. p = dns_path c key0 \<and> k = question_key (k_QuestionName key0) (k_QType key0) \<and> v = unix_bytes e @ raw"
  define fn where "fn = (\<lambda>db.
       bind_res (createBucket B c db bucketDNSCache) (\<lambda>(db1, p).
       bind_res (b_CreateBucketIfNotExists B db1 (p @ [str_bytes (k_TransportName key0)]))
         (put_in B (p @ [str_bytes (k_TransportName key0)]) (question_key (k_QuestionName key0) (k_QType key0))
           (unix_bytes e @ raw))))"
  have adds: "adds_only B ?P (cf_DB c) db'" if "fn (cf_DB c) = Inr (db', r)" for db' r
    using save_adds_only [OF assms(1), where P = ?P] that by (auto simp: fn_def dns_path_def)
  have "\<exists>db'. snd (batch B fn c) = c\<lparr>cf_DB := db'\<rparr> \<and> adds_only B ?P (cf_DB c) db'"
    by (rule batch_adds_only [OF assms(2) adds])
  then obtain db' where b: "snd (batch B fn c) = c\<lparr>cf_DB := db'\<rparr>" "adds_only B ?P (cf_DB c) db'" by blast
  have l: "length (unix_bytes e) = 8" by (simp add: unix_bytes_def)
  have "snd (SaveDNSCache B key0 raw e c) = c\<lparr>cf_DB := db'\<rparr>" using b(1) by (simp add: SaveDNSCache_def fn_def)
  then show ?thesis
    using file_entries_DB [OF b(2), of fs key] dns_path_inject [of c key key0] l by auto
qed

lemma SaveRDRC_entries:
  assumes "bbolt_documented B" "reset_law B"
  shows "file_entries B (snd (SaveRDRC B now tag name qType c), fs) key \<subseteq> file_entries B (c, fs) key"
proof -
  let ?P = "\<lambda>p k v. p = base_path c bucketRDRC @ [str_bytes tag]"
  define fn where "fn = (\<lambda>db.
       bind_res (createBucket B c db bucketRDRC) (\<lambda>(db1, p).
       bind_res (b_CreateBucketIfNotExists B db1 (p @ [str_bytes tag]))
         (put_in B (p @ [str_bytes tag]) (question_key name qType) (unix_bytes (now + cf_rdrcTimeout c)))))"
  have adds: "adds_only B ?P (cf_DB c) db'" if "fn (cf_DB c) = Inr (db', r)" for db' r
    using save_adds_only [OF assms(1), where P = ?P] that by (auto simp: fn_def)
  have "\<exists>db'. snd (batch B fn c) = c\<lparr>cf_DB := db'\<rparr> \<and> adds_only B ?P (cf_DB c) db'"
    by (rule batch_adds_only [OF assms(2) adds])
  then obtain db' where b: "snd (batch B fn c) = c\<lparr>cf_DB := db'\<rparr>" "adds_only B ?P (cf_DB c) db'" by blast
  have "\<not> ?P (dns_path c key) k v" for k v
    by (auto simp: dns_path_def base_path_def bucketRDRC_def bucketDNSCache_def split: option.splits)
  moreover have "snd (SaveRDRC B now tag name qType c) = c\<lparr>cf_DB := db'\<rparr>" using b(1) by (simp add: SaveRDRC_def fn_def)
  ultimately show ?thesis using file_entries_DB [OF b(2), of fs key] by auto
qed

lemma file_entries_saveRDRC [simp]:
  "file_entries B (c\<lparr>cf_saveRDRC := m\<rparr>, fs) key = file_entries B (c, fs) key"
  by (simp add: file_entries_def dns_path_def base_path_def)

text \<open>A goroutine replaced by one that holds nothing new.\<close>

lemma file_entries_flusher:
  assumes "i < length fs" "fs ! i = (key0, g)" "\<And>e. held g' = Some e \<Longrightarrow> held g = Some e \<or> cf_saveDNSCache c key0 = Some e"
  shows "file_entries B (c, fs[i := (key0, g')]) key \<subseteq> file_entries B (c, fs) key"
proof -
  have "(key0, g) \<in> set fs" using assms(1,2) nth_mem by metis
  then show ?thesis
    using assms(3) set_update_subset_insert [of fs i "(key0, g')"] unfolding file_entries_def by auto
qed

lemma flush_step_entries:
  assumes "bbolt_documented B" "reset_law B" "flush_step B s s'"
  shows "entries_from (file_entries B s' key) (file_entries B s key)"
  using assms(3)
proof cases
  case (read i fs key0 c)
  have "held (read_pending key0 c) = Some e \<Longrightarrow> cf_saveDNSCache c key0 = Some e" for e
    by (auto simp: read_pending_def split: option.splits)
  then show ?thesis
    using read file_entries_flusher [of i fs key0 AtTop "read_pending key0 c" c B key] by (auto intro: entries_from_sub)
next
  case (save i fs key0 e c err c')
  have e: "(e_rawMessage e, e_expireAt e) \<in> file_entries B (c, fs) key0"
    using save(3,4) nth_mem [of i fs] unfolding file_entries_def by auto (metis held.simps(1))
  have "file_entries B (c', fs[i := (key0, Saved e)]) key \<subseteq> file_entries B (c', fs) key"
    by (rule file_entries_flusher [OF save(3,4)]) simp
  also have "\<dots> \<subseteq> file_entries B (c, fs) key \<union> (if key = key0 then {(e_rawMessage e, bytes_unix (unix_bytes (e_expireAt e)))} else {})"
    using SaveDNSCache_entries [OF assms(1,2), of key0 "e_rawMessage e" "e_expireAt e" c fs key] save(5) by simp
  finally show ?thesis
    using e unix_rounds [of "e_expireAt e"] save(1,2) unfolding entries_from_def by (auto split: if_splits)
next
  case (finish i fs key0 e c f c')
  have f: "held f = None" "file_entries B (c', fs) key \<subseteq> file_entries B (c, fs) key"
    using finish(5) by (auto simp: finish_pending_def file_entries_def dns_path_def base_path_def split: option.splits if_splits)
  have "file_entries B (c', fs[i := (key0, f)]) key \<subseteq> file_entries B (c', fs) key"
    by (rule file_entries_flusher [OF finish(3,4)]) (simp add: f)
  then show ?thesis using f(2) finish(1,2) by (auto intro: entries_from_sub)
qed


lemma file_step_contents:
  assumes B: "bbolt_documented B" "reset_law B" and s: "file_step B s s'"
  shows "file_contents B s' k \<subseteq> file_contents B s k"
  using s
proof cases
  case flush
  then show ?thesis using flush_step_entries [OF B] by (intro entries_from_contents) blast
next
  case (reject c fs now tag name qType)
  then show ?thesis
    using SaveRDRC_entries [OF B] by (intro entries_from_contents entries_from_sub) (simp add: SaveRDRCAsync_run_def Let_def)
next
  case (cleanup c fs now)
  have "file_entries B (cleanupDNSCache B now c, fs) key \<subseteq> file_entries B (c, fs) key" for key
    unfolding cleanupDNSCache_def by (rule file_entries_batch [OF B(2)]) (rule cleanup_adds_only(1) [OF B(1)])
  then show ?thesis using cleanup by (intro entries_from_contents entries_from_sub) simp
next
  case (cleanup_rejected c fs now)
  have "file_entries B (cleanupRDRC B now c, fs) key \<subseteq> file_entries B (c, fs) key" for key
    unfolding cleanupRDRC_def by (rule file_entries_batch [OF B(2)]) (rule cleanup_adds_only(1) [OF B(1)])
  then show ?thesis using cleanup_rejected by (intro entries_from_contents entries_from_sub) simp
qed

lemma ClearDNSCache_entries:
  assumes B: "bbolt_documented B" "reset_law B"
  shows "file_entries B (snd (ClearDNSCache B c), fs) key \<subseteq> file_entries B (c, fs) key"
proof -
  have "file_entries B (snd (batch B (clear_bucket B bucketDNSCache (clear_pending c)) (clear_pending c)), fs) key
      \<subseteq> file_entries B (clear_pending c, fs) key"
    using cleanup_adds_only(2) [OF B(1)] by (intro file_entries_batch [OF B(2)])
  also have "\<dots> \<subseteq> file_entries B (c, fs) key"
    by (auto simp: file_entries_def clear_pending_def dns_path_def base_path_def)
  finally show ?thesis by (simp add: ClearDNSCache_def clear_saved_def)
qed

lemma SaveDNSCacheAsync_entries:
  "file_entries B (SaveDNSCacheAsync key0 raw e (c, fs)) key \<subseteq>
     file_entries B (c, fs) key \<union> (if key = key0 then {(raw, e)} else {})"
  by (auto simp: file_entries_def SaveDNSCacheAsync_def queueDNSCacheSave_def Let_def dns_path_def base_path_def
      split: if_splits)

lemma LoadDNSCache_entries:
  assumes "LoadDNSCache B key c = Some v"
  shows "v \<in> file_entries B (c, fs) key"
proof (cases "cf_saveDNSCache c key")
  case (Some e)
  then show ?thesis using assms by (auto simp: LoadDNSCache_def file_entries_def)
next
  case None
  then obtain p content where p: "transport_bucket B c bucketDNSCache (k_TransportName key) (cf_DB c) = Some p"
    "b_Get B (cf_DB c) p (question_key (k_QuestionName key) (k_QType key)) = Some content"
    "v = (drop 8 content, bytes_unix (take 8 content))"
    using assms by (auto simp: LoadDNSCache_def split: option.splits if_splits)
  have "p = dns_path c key" using transport_bucket_Some [OF p(1)] by (simp add: dns_path_def)
  then show ?thesis using p by (auto simp: file_entries_def)
qed

lemma file_store_laws:
  assumes B: "bbolt_documented B" "reset_law B"
  shows "dns_cache_store (file_store B) (file_contents B) (file_step B)"
proof
  fix tag name qType and s :: "'a flush_state" and v
  assume "ds_LoadDNSCache (file_store B) tag name qType s = Some v"
  then have "v \<in> file_entries B s (dns_key tag name qType)"
    using LoadDNSCache_entries [of B _ "fst s" v "snd s"] by (simp add: file_store_def)
  then show "v \<in> file_contents B s (tag, name, qType)"
    by (cases v) (auto simp: file_contents_def)
next
  fix e v tag name qType raw k and s :: "'a flush_state"
  assume e: "unix_range e" and v: "v \<in> file_contents B (ds_SaveDNSCacheAsync (file_store B) tag name qType raw e s) k"
  obtain tag' name' qType' where k: "k = (tag', name', qType')" by (cases k)
  obtain t where t: "unix_range t \<longrightarrow> snd v \<le> t"
    "(fst v, t) \<in> file_entries B (SaveDNSCacheAsync (dns_key tag name qType) raw e s) (dns_key tag' name' qType')"
    using v by (auto simp: file_contents_def k file_store_def)
  have "(fst v, t) \<in> file_entries B s (dns_key tag' name' qType') \<or>
      dns_key tag' name' qType' = dns_key tag name qType \<and> fst v = raw \<and> t = e"
    using t(2) SaveDNSCacheAsync_entries [of B "dns_key tag name qType" raw e "fst s" "snd s" "dns_key tag' name' qType'"]
    by (auto split: if_splits)
  then show "v \<in> file_contents B s k \<or> k = (tag, name, qType) \<and> fst v = raw \<and> snd v \<le> e"
    using t(1) e by (auto simp: file_contents_def k dns_key_def)
next
  fix s :: "'a flush_state" and k
  show "file_contents B (ds_ClearDNSCache (file_store B) s) k \<subseteq> file_contents B s k"
    using ClearDNSCache_entries [OF B] by (intro entries_from_contents entries_from_sub) (cases s, simp add: file_store_def)
next
  fix tag name qType and s :: "'a flush_state" and k
  show "file_contents B (ds_SaveRDRCAsync (file_store B) tag name qType s) k \<subseteq> file_contents B s k"
    by (intro entries_from_contents entries_from_sub) (cases s, simp add: file_store_def SaveRDRCAsync_begin_def)
next
  fix now tag name qType r k and s s' :: "'a flush_state"
  assume l: "ds_LoadRDRC (file_store B) now tag name qType s = (r, s')"
  then have "s' = (snd (LoadRDRC B now tag name qType (fst s)), snd s)"
    by (cases "LoadRDRC B now tag name qType (fst s)") (auto simp: file_store_def)
  then show "file_contents B s' k \<subseteq> file_contents B s k"
    using LoadRDRC_entries [OF B, of now tag name qType "fst s" "snd s"] by (intro entries_from_contents entries_from_sub) simp
next
  fix k and s s' :: "'a flush_state"
  assume "file_step B s s'"
  then show "file_contents B s' k \<subseteq> file_contents B s k" by (rule file_step_contents [OF B])
qed

lemma list_bbolt_reset: "reset_law list_bbolt"
  by (simp add: reset_law_def list_bbolt_def)

interpretation cache_file: dns_cache_store "file_store list_bbolt" "file_contents list_bbolt" "file_step list_bbolt"
  by (rule file_store_laws [OF list_bbolt_documented list_bbolt_reset])


subsection \<open>The responses of the client\<close>


text \<open>A cache that evicts nothing, as an association list, and a library that packs one message.\<close>

type_synonym list_lru = "(dnsCacheKey \<times> dns_msg \<times> int option) list"

definition list_freelru :: "list_lru freelru" where
  "list_freelru =
     \<lparr>lru_Add = (\<lambda>k m c. (k, m, None) # c),
      lru_AddWithLifetime = (\<lambda>now k m d c. (k, m, Some (now + d)) # c),
      lru_Get = (\<lambda>now k c. (map_option fst (map_of c k), c)),
      lru_GetWithLifetimeNoExpire = (\<lambda>k c. (map_option (\<lambda>(m, t). (m, case t of None \<Rightarrow> 0 | Some t \<Rightarrow> t)) (map_of c k), c)),
      lru_Remove = (\<lambda>k c. filter (\<lambda>x. fst x \<noteq> k) c),
      lru_Purge = (\<lambda>c. [])\<rparr>"

lemma map_of_filter_key: "map_of (filter (\<lambda>x. fst x \<noteq> k) c) \<subseteq>\<^sub>m map_of c"
proof -
  have "map_of (filter (\<lambda>x. fst x \<noteq> k) c) = (map_of c)(k := None)" by (induction c) (auto simp: fun_eq_iff)
  then show ?thesis by (simp add: map_le_def)
qed

lemma list_freelru_documented: "lru_documented (\<lambda>_. []) map_of list_freelru"
  unfolding lru_documented_def list_freelru_def using map_of_filter_key by (auto split: option.splits)

definition ex_question :: question where "ex_question = \<lparr>q_Name = ''example.org.'', q_Qtype = TypeA, q_Qclass = ClassINET\<rparr>"

definition ex_query :: "16 word \<Rightarrow> dns_msg" where
  "ex_query i = (lookup_message ''example.org.'' TypeA)\<lparr>d_Id := i\<rparr>"

definition ex_answer :: "32 word \<Rightarrow> dns_msg" where
  "ex_answer ttl = FixedResponse 7 ex_question [Addr4 1] ttl"

definition ex_library :: dns_library where
  "ex_library =
     \<lparr>lib_IsFqdn = (\<lambda>s. s \<noteq> [] \<and> last s = CHR ''.''), lib_Fqdn = (\<lambda>s. s @ ''.''),
      lib_Pack = (\<lambda>m. if m = ex_answer 60 then Some [1] else None),
      lib_Unpack = (\<lambda>raw. if raw = [1] then Some (ex_answer 60) else None),
      lib_IsEdns0 = (\<lambda>_. None), lib_Version = (\<lambda>_. 0), lib_UDPSize = (\<lambda>_. 0), lib_Do = (\<lambda>_. False),
      lib_SetEdns0 = (\<lambda>_ _ m. m)\<rparr>"

definition ex_deps :: "(list_lru, list_db flush_state) client_deps" where
  "ex_deps = \<lparr>cd_dns = ex_library, cd_lru = list_freelru, cd_new = (\<lambda>_. []), cd_store = file_store list_bbolt,
     cd_addresses = (\<lambda>m. [])\<rparr>"

definition ex_client_options :: ClientOptions where
  "ex_client_options = \<lparr>co_Timeout = 0, co_DisableCache = False, co_DisableExpire = False, co_OptimisticTimeout = 0,
     co_CacheCapacity = 0, co_ClientSubnet = PrefixZero, co_RDRC = None, co_DNSCache = None\<rparr>"

definition ex_options :: DNSQueryOptions where
  "ex_options = \<lparr>qo_Strategy = 0, qo_LookupStrategy = 0, qo_Timeout = 0, qo_DisableCache = False,
     qo_DisableOptimisticCache = False, qo_RewriteTTL = None, qo_ClientSubnet = PrefixZero\<rparr>"

definition ex_start :: "(list_lru, list_db flush_state) Client" where
  "ex_start = Client_Start ex_deps (NewClient ex_deps ex_client_options (ex_cache, []))"

lemmas ex_client_simps = ex_start_def ex_deps_def ex_library_def ex_client_options_def ex_options_def ex_query_def ex_answer_def
  ex_question_def list_freelru_def Client_Start_def NewClient_def initializeMemoryCache_def PrefixZero_def


lemma ex_cache_no_answers: "file_contents list_bbolt (ex_cache, []) k = {}"
  by (auto simp: file_contents_def file_entries_def ex_cache_def NewCacheFile_def list_bbolt_def dns_path_def base_path_def
      bucketDNSCache_def bucket_names)

definition ex_cached :: "(list_lru, list_db flush_state) Client" where
  "ex_cached = ex_start\<lparr>cl_cache := Some [((ex_question, ''dns''), ex_answer 60, Some (60 * 10 ^ 9))]\<rparr>"

lemmas exchange_simps = Client_Exchange_def exchange_with_cache_def exchange_uncached_def isSimpleRequest_def
  prepareExchangeMessage_def prefix_IsValid_def lookup_message_def lookup_question_def loadResponse_def exchangeToTransport_def stripDNSPadding_def
  rejected_by_def cacheable_rcode_def applyResponseOptions_def computeTimeToLive_def msg_records_def ttl_step_def
  normalizeTTL_def set_ttl_def storeCache_def match_edns_def FixedResponse_def fixed_message_def fixed_record_def fixed_header_def
  dns_types DomainStrategyIPv4Only_def DomainStrategyIPv6Only_def RcodeSuccess_def aged_response_def

lemma ex_first_exchange:
  "Client_Exchange ex_deps 0 0 None ''dns'' (\<lambda>_. Inr (ex_answer 60)) (ex_query 1) ex_options None ex_start =
     ((Some ((ex_answer 60)\<lparr>d_Id := 1\<rparr>), None), None, ex_cached)"
  by (simp add: ex_cached_def ex_client_simps exchange_simps)


lemma ex_second_exchange:
  "Client_Exchange ex_deps (10 * 10 ^ 9) 0 None ''dns'' (\<lambda>_. Inl ErrNotCached) (ex_query 2) ex_options None ex_cached =
     ((Some ((ex_answer 50)\<lparr>d_Id := 2\<rparr>), None), None, ex_cached)"
  by (simp add: ex_cached_def ex_client_simps exchange_simps)

lemma ex_run:
  "client_run ex_deps (file_contents list_bbolt) (file_step list_bbolt) ex_cached ([] :: unit refresh_task list)
     (request_answers ex_start 0 ''dns'' (\<lambda>_. Inr (ex_answer 60)) (ex_query 1) ex_options)"
proof -
  have "client_run ex_deps (file_contents list_bbolt) (file_step list_bbolt) ex_start ([] :: unit refresh_task list) {}"
    unfolding ex_start_def by (rule client_run.start) (simp add: stored_answers_def ex_cache_no_answers)
  from client_run.exchange [OF this _ ex_first_exchange] show ?thesis by (simp add: clock_range_def)
qed



text \<open>
  The client subnet of a query and the cache: an exchange whose options carry a client subnet goes to the
  transport with that subnet and neither reads nor writes the cache.  An address lookup with the same options looks into the
  cache first, and returns the addresses of a cached answer that was asked without the subnet.\<close>

theorem subnet_lookup_reads_cache:
  assumes "prefix_IsValid (qo_ClientSubnet options)" "\<not> cl_disableCache c" "\<not> qo_DisableCache options"
    "loadResponse D now1 (lookup_question name qType) tag c = (Some (response, ttl, False), c1)"
    "\<not> strategy_rejects options (lookup_question name qType)"
  shows "fst (lookupToExchange D now1 now2 ctxTag tag transport name qType options check c) = response_addresses D response \<and>
    Client_Exchange D now1 now2 ctxTag tag transport (lookup_message name qType) options check c =
      (fst (exchange_uncached D now2 ctxTag tag transport (lookup_question name qType)
         (SetClientSubnet (lookup_message name qType) (qo_ClientSubnet options)) options check True c), None, c)"
proof
  have never: "snd (response_addresses D response) \<noteq> Some ErrNotCached"
    by (simp add: response_addresses_def ErrNotCached_def)
  show "fst (lookupToExchange D now1 now2 ctxTag tag transport name qType options check c) = response_addresses D response"
    using assms(2-4) never by (simp add: lookupToExchange_def questionCache_def split_beta)
  have unchanged: "snd (exchange_uncached D now2 ctxTag tag transport q m options check True c) = c" for q m
    by (simp add: exchange_uncached_def Let_def split_beta split: sum.split)
  have m: "prepareExchangeMessage c (lookup_message name qType) options = SetClientSubnet (lookup_message name qType) (qo_ClientSubnet options)"
    using assms(1) by (simp add: prepareExchangeMessage_def)
  have q: "d_Question (lookup_message name qType) = [lookup_question name qType]" by (simp add: lookup_message_def)
  have "isSimpleRequest (SetClientSubnet (lookup_message name qType) (qo_ClientSubnet options)) options = Some False"
    by (simp add: SetClientSubnet_def lookup_message_def set_subnet_def isSimpleRequest_def)
  then show "Client_Exchange D now1 now2 ctxTag tag transport (lookup_message name qType) options check c =
      (fst (exchange_uncached D now2 ctxTag tag transport (lookup_question name qType)
         (SetClientSubnet (lookup_message name qType) (qo_ClientSubnet options)) options check True c), None, c)"
    using assms(5) [unfolded strategy_rejects_def] unchanged m q
    by (auto simp: Client_Exchange_def exchange_with_cache_def apsnd_def map_prod_def split_beta)
qed

theorem subnet_lookup_reads_cache_witness:
  "fst (lookupToExchange ex_deps (10 * 10 ^ 9) 0 None ''dns'' (\<lambda>_. Inl ErrNotCached) ''example.org.'' TypeA
     (ex_options\<lparr>qo_ClientSubnet := \<lparr>p_Addr = Addr4 0x0A000000, p_Bits = 24\<rparr>\<rparr>) None ex_cached) = response_addresses ex_deps (ex_answer 50)"
proof -
  let ?options = "ex_options\<lparr>qo_ClientSubnet := \<lparr>p_Addr = Addr4 0x0A000000, p_Bits = 24\<rparr>\<rparr>"
  have l: "loadResponse ex_deps (10 * 10 ^ 9) (lookup_question ''example.org.'' TypeA) ''dns'' ex_cached =
      (Some (ex_answer 50, 50, False), ex_cached)"
    by (simp add: ex_cached_def ex_client_simps exchange_simps)
  have o: "prefix_IsValid (qo_ClientSubnet ?options)" "\<not> cl_disableCache ex_cached" "\<not> qo_DisableCache ?options"
    "\<not> strategy_rejects ?options (lookup_question ''example.org.'' TypeA)"
    by (simp_all add: ex_cached_def ex_client_simps exchange_simps strategy_rejects_def)
  show ?thesis using subnet_lookup_reads_cache [OF o(1-3) l o(4)] by blast
qed

end
