(* ===== verification/Dns_Router.thy ===== *)
theory Dns_Router
  imports Dns_Router_Rules Dns_Client_Store
begin

text \<open>
  Exchanging and looking up through the DNS router (\<^verbatim>\<open>dns/router.go\<close>): the rules choose the server, the options of
  the query or an answer of their own.  The client is the interface \<^verbatim>\<open>adapter.DNSClient\<close>, a table of operations on
  its state; \<open>Dns_Client\<close> provides it.  The cache of the reverse mapping is a table of operations as well.  The
  clients and servers are called in the order of the code; the two lookups of one domain are one after the
  other.  Metadata is the copy that \<^verbatim>\<open>ExtendContext\<close> makes.
\<close>

subsection \<open>What the router calls\<close>

record 'k dns_client =
  dc_Exchange :: "component option \<Rightarrow> dns_msg \<Rightarrow> DNSQueryOptions \<Rightarrow> checker option \<Rightarrow> 'k \<Rightarrow>
    (dns_msg option \<times> dns_error option) \<times> 'k"
  dc_Lookup :: "component option \<Rightarrow> string \<Rightarrow> DNSQueryOptions \<Rightarrow> checker option \<Rightarrow> 'k \<Rightarrow>
    (addr list \<times> dns_error option) \<times> 'k"
  dc_ClearCache :: "'k \<Rightarrow> 'k"

record 'm addr_lru =
  al_AddWithLifetime :: "addr \<Rightarrow> string \<Rightarrow> duration \<Rightarrow> 'm \<Rightarrow> 'm"
  al_Get :: "addr \<Rightarrow> 'm \<Rightarrow> string option \<times> 'm"
  al_Purge :: "'m \<Rightarrow> 'm"

record ('k, 'm) router_deps =
  rd_env :: env
  rd_sets :: rule_sets
  rd_dns :: dns_library
  rd_client :: "'k dns_client"
  rd_mapping :: "'m addr_lru"
  rd_joined :: "dns_error option \<Rightarrow> dns_error option \<Rightarrow> dns_error option"

definition rtr_Transport :: "DnsRouter \<Rightarrow> string \<Rightarrow> component option" where
  "rtr_Transport r server = (case rtr_transport r of None \<Rightarrow> None | Some m \<Rightarrow> TransportManager_Get server m)"

definition rtr_Default :: "DnsRouter \<Rightarrow> component option" where
  "rtr_Default r = (case rtr_transport r of None \<Rightarrow> None | Some m \<Rightarrow> tm_defaultTransport m)"

definition is_fakeip :: "component option \<Rightarrow> bool" where
  "is_fakeip t = (case t of None \<Rightarrow> False | Some c \<Rightarrow> c_Type c = DNSTypeFakeIP)"

definition default_strategy :: "DnsRouter \<Rightarrow> DNSQueryOptions \<Rightarrow> DNSQueryOptions" where
  "default_strategy r options =
     (if qo_Strategy options = DomainStrategyAsIS then options\<lparr>qo_Strategy := rtr_defaultDomainStrategy r\<rparr> else options)"

subsection \<open>The legacy mode\<close>

definition legacyRouteOptions :: "RuleActionDNSRouteOptions \<Rightarrow> bool \<Rightarrow> DNSQueryOptions \<Rightarrow> DNSQueryOptions" where
  "legacyRouteOptions act isFakeIP options =
     (let o1 = (if a_Strategy act \<noteq> DomainStrategyAsIS then options\<lparr>qo_Strategy := a_Strategy act\<rparr> else options);
          o2 = (if isFakeIP \<or> a_DisableCache act then o1\<lparr>qo_DisableCache := True\<rparr> else o1);
          o3 = (if a_RewriteTTL act \<noteq> None then o2\<lparr>qo_RewriteTTL := a_RewriteTTL act\<rparr> else o2);
          o4 = (if a_Timeout act > 0 then o3\<lparr>qo_Timeout := a_Timeout act\<rparr> else o3)
      in if prefix_IsValid (a_ClientSubnet act) then o4\<lparr>qo_ClientSubnet := a_ClientSubnet act\<rparr> else o4)"

definition reset_match :: "inbound_context \<Rightarrow> inbound_context" where
  "reset_match m = (ResetRuleCache m)\<lparr>m_DestinationAddressMatchFromResponse := False\<rparr>"

text \<open>
  One rule in the loop of \<^verbatim>\<open>matchDNS\<close>: \<open>Inl\<close> returns from the loop with this rule, \<open>Inr\<close> goes on to the next one.  A
  \<^verbatim>\<open>route\<close> action goes on when its server is missing, or is the FakeIP server and that is not allowed.
\<close>

definition matchDNS_rule ::
  "('k, 'm) router_deps \<Rightarrow> DnsRouter \<Rightarrow> bool \<Rightarrow> bool \<Rightarrow> dns_rule \<Rightarrow> DNSQueryOptions \<Rightarrow> inbound_context \<Rightarrow>
     component option \<times> DNSQueryOptions \<times> inbound_context + DNSQueryOptions \<times> inbound_context" where
  "matchDNS_rule D r allowFakeIP isAddressQuery currentRule options m =
     (if dns_WithAddressLimit (rd_sets D) currentRule \<and> \<not> isAddressQuery then Inr (options, m)
      else
        let (matched, m1) = dns_LegacyPreMatch (rd_env D) (sets_eval (rd_env D) (rd_sets D)) currentRule (reset_match m)
        in if \<not> matched then Inr (options, m1)
           else case dns_Action currentRule of
             Some (RuleActionDNSRoute server act) \<Rightarrow>
               (case rtr_Transport r server of
                  None \<Rightarrow> Inr (options, m1)
                | Some transport \<Rightarrow>
                    let isFakeIP = is_fakeip (Some transport)
                    in if isFakeIP \<and> \<not> allowFakeIP then Inr (options, m1)
                       else Inl (Some transport, legacyRouteOptions act isFakeIP options, m1))
           | Some (RuleActionDNSRouteOptions act) \<Rightarrow> Inr (legacyRouteOptions act False options, m1)
           | Some (RuleActionReject reject) \<Rightarrow> Inl (None, options, m1)
           | Some (RuleActionPredefined predefined) \<Rightarrow> Inl (None, options, m1)
           | _ \<Rightarrow> Inr (options, m1))"

text \<open>The loop from rule \<open>i\<close> on; the rule found comes with its index.\<close>

fun matchDNS ::
  "('k, 'm) router_deps \<Rightarrow> DnsRouter \<Rightarrow> bool \<Rightarrow> bool \<Rightarrow> nat \<Rightarrow> dns_rule list \<Rightarrow> DNSQueryOptions \<Rightarrow> inbound_context \<Rightarrow>
     component option \<times> (dns_rule \<times> nat) option \<times> DNSQueryOptions \<times> inbound_context" where
  "matchDNS D r allowFakeIP isAddressQuery i [] options m = (rtr_Default r, None, options, m)"
| "matchDNS D r allowFakeIP isAddressQuery i (currentRule # rules) options m =
     (case matchDNS_rule D r allowFakeIP isAddressQuery currentRule options m of
        Inl (transport, options', m') \<Rightarrow> (transport, Some (currentRule, i), options', m')
      | Inr (options', m') \<Rightarrow> matchDNS D r allowFakeIP isAddressQuery (Suc i) rules options' m')"

lemma matchDNS_index:
  "matchDNS D r allow aq i rules options m = (transport, Some (rule, j), options', m') \<Longrightarrow>
     i \<le> j \<and> j < i + length rules \<and> rules ! (j - i) = rule"
proof (induction rules arbitrary: i options m)
  case (Cons rule1 rules)
  have step: "i \<le> j \<and> j < i + length (rule1 # rules) \<and> (rule1 # rules) ! (j - i) = rule"
    if "matchDNS D r allow aq (Suc i) rules o1 m1 = (transport, Some (rule, j), options', m')" for o1 m1
    using Cons.IH [OF that] by (auto simp: nth_Cons')
  show ?case
    using Cons.prems step by (auto split: sum.splits)
qed simp

definition addressLimitResponseCheck ::
  "('k, 'm) router_deps \<Rightarrow> dns_rule option \<Rightarrow> inbound_context \<Rightarrow> checker option" where
  "addressLimitResponseCheck D rule m =
     (case rule of
        None \<Rightarrow> None
      | Some r \<Rightarrow>
          if \<not> dns_WithAddressLimit (rd_sets D) r then None
          else Some (\<lambda>response.
            dns_MatchAddressLimit (rd_env D) (sets_eval (rd_env D) (rd_sets D)) r m (Some response)))"

fun is_rejected :: "dns_error option \<Rightarrow> bool" where
  "is_rejected None = False"
| "is_rejected (Some (RcodeError c)) = False"
| "is_rejected (Some (OtherError e)) =
     (error_Is e (Extend (New ''response rejected'') ''cached'') \<or> error_Is e (New ''response rejected''))"
| "is_rejected (Some (CauseError e s)) = is_rejected (Some e)"

definition isAddressQuery :: "dns_msg \<Rightarrow> bool" where
  "isAddressQuery message =
     list_ex (\<lambda>q. q_Qtype q = TypeA \<or> q_Qtype q = TypeAAAA \<or> q_Qtype q = TypeHTTPS) (d_Question message)"

definition RcodeRefused :: int where "RcodeRefused = 5"

definition status_response :: "dns_msg \<Rightarrow> int \<Rightarrow> question list \<Rightarrow> dns_msg" where
  "status_response message rcode questions =
     \<lparr>d_Id = d_Id message, d_Response = True, d_Authoritative = False, d_RecursionDesired = False,
      d_RecursionAvailable = False, d_Rcode = rcode, d_Question = questions, d_Answer = [], d_Ns = [], d_Extra = []\<rparr>"

definition refused_response :: "dns_msg \<Rightarrow> dns_msg" where
  "refused_response message = status_response message RcodeRefused (take 1 (d_Question message))"

text \<open>
  What the action of the rule found answers by itself: a refusal, an error, or a predefined response.  A panic is
  an error value.
\<close>

definition own_answer :: "dns_msg \<Rightarrow> rule_action option \<Rightarrow> (dns_msg option \<times> dns_error option) option" where
  "own_answer message act =
     (case act of
        Some (RuleActionReject reject) \<Rightarrow>
          if a_Method reject = RuleActionRejectMethodDefault then Some (Some (refused_response message), None)
          else if a_Method reject = RuleActionRejectMethodDrop then Some (None, Some (OtherError ErrDrop))
          else None
      | Some (RuleActionPredefined predefined) \<Rightarrow>
          (case Predefined_Response predefined message of
             Inl e \<Rightarrow> Some (None, Some (OtherError e))
           | Inr response \<Rightarrow> Some (Some response, None))
      | _ \<Rightarrow> None)"

text \<open>The loop of the legacy mode in \<^verbatim>\<open>Exchange\<close>, from rule \<open>start\<close> on.\<close>

function legacy_Exchange ::
  "('k, 'm) router_deps \<Rightarrow> DnsRouter \<Rightarrow> dns_msg \<Rightarrow> DNSQueryOptions \<Rightarrow> nat \<Rightarrow> inbound_context \<Rightarrow> 'k \<Rightarrow>
     (dns_msg option \<times> dns_error option) \<times> component option \<times> 'k" where
  "legacy_Exchange D r message options start m k =
     (case matchDNS D r True (isAddressQuery message) start (drop start (rtr_rules r)) options m of
        (transport, hit, dnsOptions, m1) \<Rightarrow>
          (case own_answer message (Option.bind hit (dns_Action \<circ> fst)) of
             Some answer \<Rightarrow> (answer, transport, k)
           | None \<Rightarrow>
               let responseCheck = addressLimitResponseCheck D (map_option fst hit) m1;
                   (answer, k1) = dc_Exchange (rd_client D) transport message (default_strategy r dnsOptions) responseCheck k
               in if responseCheck \<noteq> None \<and> is_rejected (snd answer)
                  then case hit of
                         None \<Rightarrow> (answer, transport, k1)
                       | Some (_, i) \<Rightarrow> legacy_Exchange D r message options (Suc i) m1 k1
                  else (answer, transport, k1)))"
  by pat_completeness auto
termination
  by (relation "measure (\<lambda>(D, r, message, options, start, m, k). length (rtr_rules r) - start)")
    (auto dest!: matchDNS_index [OF sym])

declare legacy_Exchange.simps [simp del]

subsection \<open>The mode with evaluated responses\<close>

definition applyDNSRouteOptions :: "RuleActionDNSRouteOptions \<Rightarrow> DNSQueryOptions \<Rightarrow> DNSQueryOptions" where
  "applyDNSRouteOptions act options =
     (let o1 = (if a_DisableCache act then options\<lparr>qo_DisableCache := True\<rparr> else options);
          o2 = (if a_DisableOptimisticCache act then o1\<lparr>qo_DisableOptimisticCache := True\<rparr> else o1);
          o3 = (if a_RewriteTTL act \<noteq> None then o2\<lparr>qo_RewriteTTL := a_RewriteTTL act\<rparr> else o2);
          o4 = (if a_Timeout act > 0 then o3\<lparr>qo_Timeout := a_Timeout act\<rparr> else o3)
      in if prefix_IsValid (a_ClientSubnet act) then o4\<lparr>qo_ClientSubnet := a_ClientSubnet act\<rparr> else o4)"

datatype dnsRouteStatus =
  dnsRouteStatusMissing | dnsRouteStatusSkipped | dnsRouteStatusResolved component DNSQueryOptions

definition resolveDNSRoute ::
  "DnsRouter \<Rightarrow> string \<Rightarrow> RuleActionDNSRouteOptions \<Rightarrow> bool \<Rightarrow> DNSQueryOptions \<Rightarrow> dnsRouteStatus" where
  "resolveDNSRoute r server routeOptions allowFakeIP options =
     (case rtr_Transport r server of
        None \<Rightarrow> dnsRouteStatusMissing
      | Some transport \<Rightarrow>
          let isFakeIP = is_fakeip (Some transport)
          in if isFakeIP \<and> \<not> allowFakeIP then dnsRouteStatusSkipped
             else let o1 = applyDNSRouteOptions routeOptions options
                  in dnsRouteStatusResolved transport (if isFakeIP then o1\<lparr>qo_DisableCache := True\<rparr> else o1))"

text \<open>A reject action in the result comes with the index of its rule.\<close>

record exchangeWithRulesResult =
  er_response :: "dns_msg option"
  er_transport :: "component option"
  er_rejectAction :: "(nat \<times> RuleActionReject) option"
  er_err :: "dns_error option"

definition dnsRespondMissingResponseMessage :: string where
  "dnsRespondMissingResponseMessage = ''respond action requires an evaluated response from a preceding evaluate action''"

definition exchanged :: "(dns_msg option \<times> dns_error option) \<Rightarrow> component option \<Rightarrow> exchangeWithRulesResult" where
  "exchanged answer transport =
     \<lparr>er_response = fst answer, er_transport = transport, er_rejectAction = None, er_err = snd answer\<rparr>"

text \<open>
  One rule in the loop of \<^verbatim>\<open>exchangeWithRules\<close>: \<open>Inl\<close> is the result, \<open>Inr\<close> the state with which the loop goes on, which
  is the options so far and the evaluated response with its server.
\<close>

type_synonym evaluation = "DNSQueryOptions \<times> dns_msg option \<times> component option"

definition exchange_rule ::
  "('k, 'm) router_deps \<Rightarrow> DnsRouter \<Rightarrow> dns_msg \<Rightarrow> bool \<Rightarrow> nat \<Rightarrow> rule_action option \<Rightarrow> evaluation \<Rightarrow> 'k \<Rightarrow>
     (exchangeWithRulesResult + evaluation) \<times> 'k" where
  "exchange_rule D r message allowFakeIP i act = (\<lambda>(effectiveOptions, evaluatedResponse, evaluatedTransport) k.
     case act of
       Some (RuleActionDNSRouteOptions o') \<Rightarrow>
         (Inr (applyDNSRouteOptions o' effectiveOptions, evaluatedResponse, evaluatedTransport), k)
     | Some (RuleActionEvaluate server o') \<Rightarrow>
         (case rtr_Transport r server of
            None \<Rightarrow> (Inr (effectiveOptions, None, None), k)
          | Some transport \<Rightarrow>
              let ((response, err), k1) = dc_Exchange (rd_client D) (Some transport) message
                    (default_strategy r (applyDNSRouteOptions o' effectiveOptions)) None k
              in if err \<noteq> None then (Inr (effectiveOptions, None, None), k1)
                 else (Inr (effectiveOptions, response, Some transport), k1))
     | Some RuleActionRespond \<Rightarrow>
         (Inl (if evaluatedResponse = None
               then exchanged (None, Some (OtherError (New dnsRespondMissingResponseMessage))) None
               else exchanged (evaluatedResponse, None) evaluatedTransport), k)
     | Some (RuleActionDNSRoute server o') \<Rightarrow>
         (case resolveDNSRoute r server o' allowFakeIP effectiveOptions of
            dnsRouteStatusResolved transport queryOptions \<Rightarrow>
              let (answer, k1) = dc_Exchange (rd_client D) (Some transport) message (default_strategy r queryOptions) None k
              in (Inl (exchanged answer (Some transport)), k1)
          | _ \<Rightarrow> (Inr (effectiveOptions, evaluatedResponse, evaluatedTransport), k))
     | Some (RuleActionReject reject) \<Rightarrow>
         (case own_answer message act of
            Some answer \<Rightarrow> (Inl ((exchanged answer None)\<lparr>er_rejectAction := Some (i, reject)\<rparr>), k)
          | None \<Rightarrow> (Inr (effectiveOptions, evaluatedResponse, evaluatedTransport), k))
     | Some (RuleActionPredefined predefined) \<Rightarrow>
         (case own_answer message act of
            Some answer \<Rightarrow> (Inl (exchanged answer None), k)
          | None \<Rightarrow> (Inr (effectiveOptions, evaluatedResponse, evaluatedTransport), k))
     | _ \<Rightarrow> (Inr (effectiveOptions, evaluatedResponse, evaluatedTransport), k))"

fun exchange_rules ::
  "('k, 'm) router_deps \<Rightarrow> DnsRouter \<Rightarrow> dns_msg \<Rightarrow> bool \<Rightarrow> nat \<Rightarrow> dns_rule list \<Rightarrow> evaluation \<Rightarrow> inbound_context \<Rightarrow> 'k \<Rightarrow>
     exchangeWithRulesResult \<times> 'k" where
  "exchange_rules D r message allowFakeIP i [] ev m k =
     (let (answer, k1) = dc_Exchange (rd_client D) (rtr_Default r) message (default_strategy r (fst ev)) None k
      in (exchanged answer (rtr_Default r), k1))"
| "exchange_rules D r message allowFakeIP i (currentRule # rules) ev m k =
     (let (matched, m1) = dns_Match (rd_env D) (sets_eval (rd_env D) (rd_sets D)) currentRule
            ((reset_match m)\<lparr>m_DNSResponse := fst (snd ev)\<rparr>)
      in if \<not> matched then exchange_rules D r message allowFakeIP (Suc i) rules ev m1 k
         else case exchange_rule D r message allowFakeIP i (dns_Action currentRule) ev k of
           (Inl result, k1) \<Rightarrow> (result, k1)
         | (Inr ev1, k1) \<Rightarrow> exchange_rules D r message allowFakeIP (Suc i) rules ev1 m1 k1)"

definition exchangeWithRules ::
  "('k, 'm) router_deps \<Rightarrow> DnsRouter \<Rightarrow> dns_msg \<Rightarrow> DNSQueryOptions \<Rightarrow> bool \<Rightarrow> inbound_context \<Rightarrow> 'k \<Rightarrow>
     exchangeWithRulesResult \<times> 'k" where
  "exchangeWithRules D r message options allowFakeIP m k =
     exchange_rules D r message allowFakeIP 0 (rtr_rules r) (options, None, None) m k"

subsection \<open>Exchange\<close>

record ('k, 'm) router_state =
  st_router :: DnsRouter
  st_client :: 'k
  st_dnsReverseMapping :: "'m option"

definition query_metadata :: "('k, 'm) router_deps \<Rightarrow> question \<Rightarrow> inbound_context \<Rightarrow> inbound_context" where
  "query_metadata D q m =
     (let m1 = m\<lparr>m_Destination := SocksaddrZero, m_QueryType := q_Qtype q, m_DNSResponse := None,
                 m_DestinationAddressMatchFromResponse := False\<rparr>;
          m2 = (if q_Qtype q = TypeA then m1\<lparr>m_IPVersion := 4\<rparr>
                else if q_Qtype q = TypeAAAA then m1\<lparr>m_IPVersion := 6\<rparr> else m1)
      in m2\<lparr>m_Domain := FqdnToDomain (lib_IsFqdn (rd_dns D)) (q_Name q)\<rparr>)"

text \<open>The records of a response that the reverse mapping takes.\<close>

fun map_record :: "('k, 'm) router_deps \<Rightarrow> rr \<Rightarrow> 'm \<Rightarrow> 'm" where
  "map_record D (RR_A h ip) = al_AddWithLifetime (rd_mapping D) (AddrFromIP (rd_env D) ip)
     (FqdnToDomain (lib_IsFqdn (rd_dns D)) (h_Name h)) (uint (h_Ttl h) * 10 ^ 9)"
| "map_record D (RR_AAAA h ip) = al_AddWithLifetime (rd_mapping D) (AddrFromIP (rd_env D) ip)
     (FqdnToDomain (lib_IsFqdn (rd_dns D)) (h_Name h)) (uint (h_Ttl h) * 10 ^ 9)"
| "map_record D _ = id"

definition DnsRouter_Exchange ::
  "('k, 'm) router_deps \<Rightarrow> inbound_context \<Rightarrow> dns_msg \<Rightarrow> component option \<Rightarrow> DNSQueryOptions \<Rightarrow> ('k, 'm) router_state \<Rightarrow>
     (dns_msg option \<times> dns_error option) \<times> ('k, 'm) router_state" where
  "DnsRouter_Exchange D m0 message optTransport options st =
     (case d_Question message of
        [q] \<Rightarrow>
          let r = st_router st; m = query_metadata D q m0
          in if rtr_closing r then ((None, Some (OtherError (New ''dns router closed''))), st)
             else
               let ((response, err), transport, k) =
                     (if optTransport \<noteq> None then
                        let (answer, k) = dc_Exchange (rd_client D) optTransport message (default_strategy r options) None
                              (st_client st)
                        in (answer, optTransport, k)
                      else if \<not> rtr_legacyDNSMode r then
                        let (res, k) = exchangeWithRules D r message options True m (st_client st)
                        in ((er_response res, er_err res), er_transport res, k)
                      else legacy_Exchange D r message options 0 m (st_client st));
                   st1 = st\<lparr>st_client := k\<rparr>
               in if err \<noteq> None then ((None, err), st1)
                  else ((response, None),
                        st1\<lparr>st_dnsReverseMapping :=
                          (case response of
                             None \<Rightarrow> st_dnsReverseMapping st1
                           | Some answer \<Rightarrow>
                               if is_fakeip transport then st_dnsReverseMapping st1
                               else map_option (fold (map_record D) (d_Answer answer)) (st_dnsReverseMapping st1))\<rparr>)
      | _ \<Rightarrow> ((Some (status_response message RcodeFormatError (d_Question message)), None), st))"

subsection \<open>Lookup\<close>

text \<open>
  \<^verbatim>\<open>Error\<close> of a reject action counts the rejection in the action of the rule; the rules are updated at its index.
\<close>

fun with_action :: "dns_rule \<Rightarrow> rule_action \<Rightarrow> dns_rule" where
  "with_action (DefaultRule d) act = DefaultRule (d\<lparr>action := Some act\<rparr>)"
| "with_action (LogicalRule rules mode neg _) act = LogicalRule rules mode neg (Some act)"

definition count_reject :: "int \<Rightarrow> nat \<Rightarrow> RuleActionReject \<Rightarrow> DnsRouter \<Rightarrow> dns_error option \<times> DnsRouter" where
  "count_reject now i reject r =
     (let (err, reject') = Reject_Error now reject
      in (case err of Inl e \<Rightarrow> Some (OtherError e) | Inr e \<Rightarrow> map_option OtherError e,
          r\<lparr>rtr_rules := (rtr_rules r)[i := with_action (rtr_rules r ! i) (RuleActionReject reject')]\<rparr>))"

definition resolveLookupStrategy :: "DnsRouter \<Rightarrow> DNSQueryOptions \<Rightarrow> domain_strategy" where
  "resolveLookupStrategy r options =
     (if qo_LookupStrategy options \<noteq> DomainStrategyAsIS then qo_LookupStrategy options
      else if qo_Strategy options \<noteq> DomainStrategyAsIS then qo_Strategy options
      else rtr_defaultDomainStrategy r)"

definition withLookupQueryMetadata :: "16 word \<Rightarrow> inbound_context \<Rightarrow> inbound_context" where
  "withLookupQueryMetadata qType m =
     m\<lparr>m_QueryType := qType, m_IPVersion := (if qType = TypeA then 4 else if qType = TypeAAAA then 6 else 0)\<rparr>"

definition filterAddressesByQueryType :: "16 word \<Rightarrow> addr list \<Rightarrow> addr list" where
  "filterAddressesByQueryType qType addresses =
     (if qType = TypeA then filter addr_Is4 addresses
      else if qType = TypeAAAA then filter addr_Is6 addresses else addresses)"

type_synonym addresses = "addr list \<times> dns_error option"

definition lookupWithRulesType ::
  "('k, 'm) router_deps \<Rightarrow> int \<Rightarrow> string \<Rightarrow> 16 word \<Rightarrow> DNSQueryOptions \<Rightarrow> inbound_context \<Rightarrow> DnsRouter \<times> 'k \<Rightarrow>
     addresses \<times> DnsRouter \<times> 'k" where
  "lookupWithRulesType D now domain qType options m = (\<lambda>(r, k).
     let (res, k1) = exchangeWithRules D r (lookup_message (lib_Fqdn (rd_dns D) domain) qType) options False
           (withLookupQueryMetadata qType m) k
     in case er_rejectAction res of
          Some (i, reject) \<Rightarrow> let (err, r1) = count_reject now i reject r in (([], err), r1, k1)
        | None \<Rightarrow>
            (case (er_err res, er_response res) of
               (Some e, _) \<Rightarrow> (([], Some e), r, k1)
             | (None, None) \<Rightarrow> (([], Some (OtherError (Panic ''nil pointer dereference''))), r, k1)
             | (None, Some response) \<Rightarrow>
                 if d_Rcode response \<noteq> RcodeSuccess then (([], Some (RcodeError (d_Rcode response))), r, k1)
                 else ((filterAddressesByQueryType qType (DNSResponseAddresses (rd_env D) (Some response)), None), r, k1)))"

definition lookupWithRules ::
  "('k, 'm) router_deps \<Rightarrow> int \<Rightarrow> string \<Rightarrow> DNSQueryOptions \<Rightarrow> inbound_context \<Rightarrow> DnsRouter \<times> 'k \<Rightarrow>
     addresses \<times> DnsRouter \<times> 'k" where
  "lookupWithRules D now domain options m s =
     (let strategy = resolveLookupStrategy (fst s) options;
          lookupOptions = (if strategy \<noteq> DomainStrategyAsIS then options\<lparr>qo_Strategy := strategy\<rparr> else options);
          lookup = (\<lambda>qType. lookupWithRulesType D now domain qType lookupOptions m)
      in if strategy = DomainStrategyIPv4Only then lookup TypeA s
         else if strategy = DomainStrategyIPv6Only then lookup TypeAAAA s
         else
           let ((response4, err4), s1) = lookup TypeA s;
               ((response6, err6), s2) = lookup TypeAAAA s1
           in (if response4 = [] \<and> response6 = [] then ([], rd_joined D err4 err6)
               else (sortAddresses response4 response6 strategy, None), s2))"

fun predefined_addresses :: "env \<Rightarrow> rr list \<Rightarrow> addr list" where
  "predefined_addresses E [] = []"
| "predefined_addresses E (RR_A _ ip # rs) = AddrFromIP E ip # predefined_addresses E rs"
| "predefined_addresses E (RR_AAAA _ ip # rs) = AddrFromIP E ip # predefined_addresses E rs"
| "predefined_addresses E (_ # rs) = predefined_addresses E rs"

definition final_action :: "rule_action option \<Rightarrow> (RuleActionReject + RuleActionPredefined) option" where
  "final_action act =
     (case act of
        Some (RuleActionReject reject) \<Rightarrow> Some (Inl reject)
      | Some (RuleActionPredefined predefined) \<Rightarrow> Some (Inr predefined)
      | _ \<Rightarrow> None)"

text \<open>
  The loop of the legacy mode in \<^verbatim>\<open>Lookup\<close>.  \<open>Inl\<close> returns at once, with the error of a reject action; the names of
  the wrapped errors are put on after the loop.
\<close>

function legacy_Lookup ::
  "('k, 'm) router_deps \<Rightarrow> int \<Rightarrow> string \<Rightarrow> DNSQueryOptions \<Rightarrow> nat \<Rightarrow> inbound_context \<Rightarrow> DnsRouter \<Rightarrow> 'k \<Rightarrow>
     (dns_error + addresses) \<times> DnsRouter \<times> 'k" where
  "legacy_Lookup D now domain options start m r k =
     (case matchDNS D r False True start (drop start (rtr_rules r)) options m of
        (transport, hit, dnsOptions, m1) \<Rightarrow>
          (case final_action (Option.bind hit (dns_Action \<circ> fst)) of
             Some (Inl reject) \<Rightarrow>
               let (err, r1) = count_reject now (snd (the hit)) reject r
               in (Inl (OtherError (RejectedError (case err of Some (OtherError e) \<Rightarrow> e | _ \<Rightarrow> Sentinel ''nil''))), r1, k)
           | Some (Inr predefined) \<Rightarrow>
               (Inr (if a_Rcode predefined \<noteq> RcodeSuccess then ([], Some (RcodeError (a_Rcode predefined)))
                     else (predefined_addresses (rd_env D) (a_Answer predefined), None)), r, k)
           | None \<Rightarrow>
               let responseCheck = addressLimitResponseCheck D (map_option fst hit) m1;
                   (answer, k1) = dc_Lookup (rd_client D) transport domain (default_strategy r dnsOptions) responseCheck k
               in if responseCheck = None \<or> snd answer = None then (Inr answer, r, k1)
                  else case hit of
                         None \<Rightarrow> (Inr answer, r, k1)
                       | Some (_, i) \<Rightarrow> legacy_Lookup D now domain options (Suc i) m1 r k1))"
  by pat_completeness auto
termination
  by (relation "measure (\<lambda>(D, now, domain, options, start, m, r, k). length (rtr_rules r) - start)")
    (auto dest!: matchDNS_index [OF sym])

declare legacy_Lookup.simps [simp del]

definition lookup_metadata :: "('k, 'm) router_deps \<Rightarrow> string \<Rightarrow> inbound_context \<Rightarrow> inbound_context" where
  "lookup_metadata D domain m =
     m\<lparr>m_Destination := SocksaddrZero, m_Domain := FqdnToDomain (lib_IsFqdn (rd_dns D)) domain, m_DNSResponse := None,
       m_DestinationAddressMatchFromResponse := False\<rparr>"

text \<open>\<^verbatim>\<open>printResult\<close>.\<close>

definition printResult :: "string \<Rightarrow> addresses \<Rightarrow> addresses" where
  "printResult domain = (\<lambda>(responseAddrs, err).
     let err1 = (if err = None \<and> responseAddrs = [] then Some (OtherError (New ''empty result'')) else err)
     in (responseAddrs, map_option (\<lambda>e. CauseError e (''lookup '' @ domain)) err1))"

definition DnsRouter_Lookup ::
  "('k, 'm) router_deps \<Rightarrow> int \<Rightarrow> inbound_context \<Rightarrow> string \<Rightarrow> component option \<Rightarrow> DNSQueryOptions \<Rightarrow>
     ('k, 'm) router_state \<Rightarrow> addresses \<times> ('k, 'm) router_state" where
  "DnsRouter_Lookup D now m0 domain optTransport options st =
     (let r = st_router st; m = lookup_metadata D domain m0
      in if rtr_closing r then (([], Some (OtherError (New ''dns router closed''))), st)
         else if optTransport \<noteq> None then
           let (answer, k) = dc_Lookup (rd_client D) optTransport domain (default_strategy r options) None (st_client st)
           in (printResult domain answer, st\<lparr>st_client := k\<rparr>)
         else if \<not> rtr_legacyDNSMode r then
           let (answer, r1, k) = lookupWithRules D now domain options m (r, st_client st)
           in (printResult domain answer, st\<lparr>st_router := r1, st_client := k\<rparr>)
         else
           let (answer, r1, k) = legacy_Lookup D now domain options 0 m r (st_client st);
               st1 = st\<lparr>st_router := r1, st_client := k\<rparr>
           in case answer of
                Inl e \<Rightarrow> (([], Some e), st1)
              | Inr a \<Rightarrow> (printResult domain a, st1))"

definition DnsRouter_ClearCache :: "('k, 'm) router_deps \<Rightarrow> ('k, 'm) router_state \<Rightarrow> ('k, 'm) router_state" where
  "DnsRouter_ClearCache D st =
     st\<lparr>st_client := dc_ClearCache (rd_client D) (st_client st),
        st_dnsReverseMapping := map_option (al_Purge (rd_mapping D)) (st_dnsReverseMapping st)\<rparr>"

definition LookupReverseMapping ::
  "('k, 'm) router_deps \<Rightarrow> addr \<Rightarrow> ('k, 'm) router_state \<Rightarrow> string option \<times> ('k, 'm) router_state" where
  "LookupReverseMapping D ip st =
     (case st_dnsReverseMapping st of
        None \<Rightarrow> (None, st)
      | Some mapping \<Rightarrow>
          let (domain, mapping') = al_Get (rd_mapping D) ip mapping
          in (domain, st\<lparr>st_dnsReverseMapping := Some mapping'\<rparr>))"

subsection \<open>The legacy mode in one pass\<close>

text \<open>
  The reference: one pass over the rules, each looked at once.  A rule whose server gave a response that its
  addresses reject is passed over, and the options are then those of the query again.
\<close>

fun single_pass ::
  "('k, 'm) router_deps \<Rightarrow> DnsRouter \<Rightarrow> dns_msg \<Rightarrow> DNSQueryOptions \<Rightarrow> dns_rule list \<Rightarrow> DNSQueryOptions \<Rightarrow> inbound_context \<Rightarrow> 'k \<Rightarrow>
     (dns_msg option \<times> dns_error option) \<times> component option \<times> 'k" where
  "single_pass D r message options [] dnsOptions m k =
     (let (answer, k1) = dc_Exchange (rd_client D) (rtr_Default r) message (default_strategy r dnsOptions) None k
      in (answer, rtr_Default r, k1))"
| "single_pass D r message options (rule # rules) dnsOptions m k =
     (case matchDNS_rule D r True (isAddressQuery message) rule dnsOptions m of
        Inr (dnsOptions', m') \<Rightarrow> single_pass D r message options rules dnsOptions' m' k
      | Inl (transport, dnsOptions', m') \<Rightarrow>
          (case own_answer message (dns_Action rule) of
             Some answer \<Rightarrow> (answer, transport, k)
           | None \<Rightarrow>
               let check = addressLimitResponseCheck D (Some rule) m';
                   (answer, k1) = dc_Exchange (rd_client D) transport message (default_strategy r dnsOptions') check k
               in if check \<noteq> None \<and> is_rejected (snd answer) then single_pass D r message options rules options m' k1
                  else (answer, transport, k1)))"

lemma single_pass_matchDNS:
  "single_pass D r message options rules dnsOptions m k =
     (case matchDNS D r True (isAddressQuery message) i rules dnsOptions m of
        (transport, hit, dnsOptions', m1) \<Rightarrow>
          (case own_answer message (Option.bind hit (dns_Action \<circ> fst)) of
             Some answer \<Rightarrow> (answer, transport, k)
           | None \<Rightarrow>
               let check = addressLimitResponseCheck D (map_option fst hit) m1;
                   (answer, k1) = dc_Exchange (rd_client D) transport message (default_strategy r dnsOptions') check k
               in if check \<noteq> None \<and> is_rejected (snd answer)
                  then case hit of
                         None \<Rightarrow> (answer, transport, k1)
                       | Some (_, j) \<Rightarrow> single_pass D r message options (drop (Suc j - i) rules) options m1 k1
                  else (answer, transport, k1)))"
proof (induction rules arbitrary: i dnsOptions m)
  case Nil
  show ?case by (simp add: own_answer_def addressLimitResponseCheck_def split: prod.split)
next
  case (Cons rule rules)
  show ?case
  proof (cases "matchDNS_rule D r True (isAddressQuery message) rule dnsOptions m")
    case (Inl p)
    then show ?thesis by (auto simp: Let_def split: prod.split option.split)
  next
    case (Inr p)
    obtain o1 m1 where p: "p = (o1, m1)" by (cases p)
    have "drop (Suc j - i) (rule # rules) = drop (Suc j - Suc i) rules"
      if "matchDNS D r True (isAddressQuery message) (Suc i) rules o1 m1 = (t, Some (rule', j), o2, m2)" for t rule' j o2 m2
      using matchDNS_index [OF that] by (simp add: drop_Cons' Suc_diff_le)
    then show ?thesis
      unfolding single_pass.simps matchDNS.simps Inr p sum.case prod.case
      by (subst Cons.IH [of _ _ "Suc i"]) (auto simp: Let_def split: prod.split option.split)
  qed
qed

text \<open>
  C22. The legacy mode in one pass.  The loop that restarts the matching after a rejected response returns, and
  gives what one pass over the rules gives: every rule is matched at most once, in order, and after a rejected
  response the options that earlier \<^verbatim>\<open>route-options\<close> rules had set are dropped.
\<close>

theorem legacy_exchange_single_pass:
  "legacy_Exchange D r message options 0 m k = single_pass D r message options (rtr_rules r) options m k"
proof -
  have "legacy_Exchange D r message options start m k = single_pass D r message options (drop start (rtr_rules r)) options m k" for start
  proof (induction D r message options start m k rule: legacy_Exchange.induct)
    case (1 D r message options start m k)
    have rest: "drop (Suc j - start) (drop start (rtr_rules r)) = drop (Suc j) (rtr_rules r)"
      if "matchDNS D r True (isAddressQuery message) start (drop start (rtr_rules r)) options m = (t, Some (rule, j), o1, m1)"
      for t rule j o1 m1
      using matchDNS_index [OF that] by simp
    show ?case
      unfolding legacy_Exchange.simps [of D r message options start]
        single_pass_matchDNS [of D r message options "drop start (rtr_rules r)" options m k start]
      using "1.IH" rest by (auto simp: Let_def split: prod.split option.split)
  qed
  then show ?thesis using drop_0 by metis
qed

subsection \<open>Lookups and the FakeIP server\<close>

text \<open>Two clients that differ only in what they do with the FakeIP server.\<close>

definition same_but_fakeip :: "'k dns_client \<Rightarrow> 'k dns_client \<Rightarrow> bool" where
  "same_but_fakeip C C' \<longleftrightarrow>
     (\<forall>t. \<not> is_fakeip t \<longrightarrow> dc_Exchange C t = dc_Exchange C' t \<and> dc_Lookup C t = dc_Lookup C' t)"

definition evaluates_no_fakeip :: "DnsRouter \<Rightarrow> bool" where
  "evaluates_no_fakeip r \<longleftrightarrow> (\<forall>rule \<in> set (rtr_rules r). \<forall>server opts.
     dns_Action rule = Some (RuleActionEvaluate server opts) \<longrightarrow> \<not> is_fakeip (rtr_Transport r server))"

lemma fits_mode_evaluates: "fits_mode (rtr_transport r) legacy (rtr_rules r) \<Longrightarrow> evaluates_no_fakeip r"
  by (auto simp: fits_mode_def evaluates_no_fakeip_def rtr_Transport_def is_fakeip_def in_set_conv_nth split: option.splits)

lemma dns_Action_with_action [simp]: "dns_Action (with_action rule act) = Some act"
  by (cases rule) simp_all

lemma count_reject_evaluates:
  assumes "evaluates_no_fakeip r" "count_reject now i reject r = (e, r')"
  shows "evaluates_no_fakeip r'" "rtr_transport r' = rtr_transport r"
proof -
  obtain reject' where r': "r' = r\<lparr>rtr_rules := (rtr_rules r)[i := with_action (rtr_rules r ! i) (RuleActionReject reject')]\<rparr>"
    using assms(2) by (auto simp: count_reject_def split: prod.splits)
  then show "rtr_transport r' = rtr_transport r" by simp
  have "rule \<in> set (rtr_rules r) \<or> dns_Action rule = Some (RuleActionReject reject')" if "rule \<in> set (rtr_rules r')" for rule
    using that r' set_update_subset_insert [of "rtr_rules r" i "with_action (rtr_rules r ! i) (RuleActionReject reject')"] by auto
  moreover have "rtr_Transport r' = rtr_Transport r" using r' by (simp add: rtr_Transport_def fun_eq_iff)
  ultimately show "evaluates_no_fakeip r'"
    using assms(1) unfolding evaluates_no_fakeip_def by fastforce
qed

lemma matchDNS_rd_client:
  "matchDNS_rule (D\<lparr>rd_client := C\<rparr>) r allow aq rule options m = matchDNS_rule D r allow aq rule options m"
  "matchDNS (D\<lparr>rd_client := C\<rparr>) r allow aq i rules options m = matchDNS D r allow aq i rules options m"
proof -
  show rule: "matchDNS_rule (D\<lparr>rd_client := C\<rparr>) r allow aq rule options m = matchDNS_rule D r allow aq rule options m"
    for rule options m by (simp add: matchDNS_rule_def)
  show "matchDNS (D\<lparr>rd_client := C\<rparr>) r allow aq i rules options m = matchDNS D r allow aq i rules options m"
    by (induction rules arbitrary: i options m) (simp_all add: rule split: sum.split)
qed

lemma matchDNS_no_fakeip:
  assumes "\<not> is_fakeip (rtr_Default r)" "matchDNS D r False aq i rules options m = (transport, hit, options', m')"
  shows "\<not> is_fakeip transport"
  using assms(2)
proof (induction rules arbitrary: i options m)
  case Nil
  then show ?case using assms(1) by simp
next
  case (Cons rule rules)
  have "\<not> is_fakeip t" if "matchDNS_rule D r False aq rule options m = Inl (t, o1, m1)" for t o1 m1
    using that by (auto simp: matchDNS_rule_def Let_def is_fakeip_def split: if_splits prod.splits option.splits rule_action.splits)
  then show ?case using Cons by (auto split: sum.splits)
qed

lemma legacy_Lookup_no_fakeip:
  assumes "same_but_fakeip C C'" "\<not> is_fakeip (rtr_Default r)"
  shows "legacy_Lookup (D\<lparr>rd_client := C\<rparr>) now domain options start m r k =
    legacy_Lookup (D\<lparr>rd_client := C'\<rparr>) now domain options start m r k"
  using assms(2)
proof (induction "D\<lparr>rd_client := C\<rparr>" now domain options start m r k rule: legacy_Lookup.induct)
  case (1 now domain options start m r k)
  obtain transport hit dnsOptions m1 where
    match: "matchDNS D r False True start (drop start (rtr_rules r)) options m = (transport, hit, dnsOptions, m1)"
    by (metis prod_cases4)
  have "dc_Lookup C transport = dc_Lookup C' transport"
    using assms(1) matchDNS_no_fakeip [OF "1.prems" match] by (simp add: same_but_fakeip_def)
  moreover have "addressLimitResponseCheck (D\<lparr>rd_client := C\<rparr>) = addressLimitResponseCheck (D\<lparr>rd_client := C'\<rparr>)"
    by (simp add: addressLimitResponseCheck_def fun_eq_iff split: option.split)
  moreover note IH = "1.hyps" [unfolded matchDNS_rd_client match]
  ultimately show ?case
    unfolding legacy_Lookup.simps [of _ _ _ _ start] matchDNS_rd_client match prod.case
    using "1.prems" IH
    by (auto simp: Let_def split: prod.split option.split sum.split)
qed

lemma exchange_rule_no_fakeip:
  assumes "same_but_fakeip C C'" "\<And>server opts. act = Some (RuleActionEvaluate server opts) \<Longrightarrow> \<not> is_fakeip (rtr_Transport r server)"
  shows "exchange_rule (D\<lparr>rd_client := C\<rparr>) r message False i act ev k = exchange_rule (D\<lparr>rd_client := C'\<rparr>) r message False i act ev k"
proof -
  obtain o1 resp t1 where ev: "ev = (o1, resp, t1)" by (metis prod_cases3)
  have same: "dc_Exchange C t = dc_Exchange C' t" if "\<not> is_fakeip t" for t
    using assms(1) that by (simp add: same_but_fakeip_def)
  have route: "\<not> is_fakeip (Some t)" if "resolveDNSRoute r server opts False o1 = dnsRouteStatusResolved t o2" for server opts t o2
    using that by (auto simp: resolveDNSRoute_def Let_def split: option.splits if_splits)
  show ?thesis
  proof (cases "\<exists>server opts. act = Some (RuleActionEvaluate server opts) \<or> act = Some (RuleActionDNSRoute server opts)")
    case True
    then obtain server opts where "act = Some (RuleActionEvaluate server opts) \<or> act = Some (RuleActionDNSRoute server opts)" by blast
    then show ?thesis
    proof
      assume act: "act = Some (RuleActionEvaluate server opts)"
      show ?thesis
        using assms(2) [OF act] same act by (cases "rtr_Transport r server") (simp_all add: exchange_rule_def ev)
    next
      assume act: "act = Some (RuleActionDNSRoute server opts)"
      show ?thesis
        using route [of server opts] same act
        by (cases "resolveDNSRoute r server opts False o1") (simp_all add: exchange_rule_def ev)
    qed
  next
    case False
    then show ?thesis by (simp add: exchange_rule_def ev split: option.split rule_action.split)
  qed
qed

lemma exchangeWithRules_no_fakeip:
  assumes "same_but_fakeip C C'" "\<not> is_fakeip (rtr_Default r)" "evaluates_no_fakeip r"
  shows "exchangeWithRules (D\<lparr>rd_client := C\<rparr>) r message options False m k =
    exchangeWithRules (D\<lparr>rd_client := C'\<rparr>) r message options False m k"
proof -
  have "exchange_rules (D\<lparr>rd_client := C\<rparr>) r message False i rules ev m k =
      exchange_rules (D\<lparr>rd_client := C'\<rparr>) r message False i rules ev m k" if "set rules \<subseteq> set (rtr_rules r)" for i rules ev
    using that
  proof (induction rules arbitrary: i ev m k)
    case Nil
    then show ?case using assms(1,2) by (simp add: same_but_fakeip_def)
  next
    case (Cons rule rules)
    have "exchange_rule (D\<lparr>rd_client := C\<rparr>) r message False i (dns_Action rule) ev k =
        exchange_rule (D\<lparr>rd_client := C'\<rparr>) r message False i (dns_Action rule) ev k" for ev k
      by (rule exchange_rule_no_fakeip [OF assms(1)]) (use assms(3) Cons.prems in \<open>auto simp: evaluates_no_fakeip_def\<close>)
    then show ?case using Cons by (simp add: Let_def split: prod.split sum.split)
  qed
  then show ?thesis by (simp add: exchangeWithRules_def)
qed

lemma lookupWithRulesType_no_fakeip:
  assumes "same_but_fakeip C C'" "\<not> is_fakeip (rtr_Default r)" "evaluates_no_fakeip r"
  shows "lookupWithRulesType (D\<lparr>rd_client := C\<rparr>) now domain qType options m (r, k) =
    lookupWithRulesType (D\<lparr>rd_client := C'\<rparr>) now domain qType options m (r, k)"
    "lookupWithRulesType D now domain qType options m (r, k) = (answer, r', k') \<Longrightarrow>
      evaluates_no_fakeip r' \<and> rtr_transport r' = rtr_transport r"
proof -
  show "lookupWithRulesType (D\<lparr>rd_client := C\<rparr>) now domain qType options m (r, k) =
    lookupWithRulesType (D\<lparr>rd_client := C'\<rparr>) now domain qType options m (r, k)"
  proof -
    have "rd_env (D\<lparr>rd_client := X\<rparr>) = rd_env D" "rd_dns (D\<lparr>rd_client := X\<rparr>) = rd_dns D" for X by simp_all
    then show ?thesis unfolding lookupWithRulesType_def prod.case by (simp only: exchangeWithRules_no_fakeip [OF assms])
  qed
  show "lookupWithRulesType D now domain qType options m (r, k) = (answer, r', k') \<Longrightarrow>
      evaluates_no_fakeip r' \<and> rtr_transport r' = rtr_transport r"
    using assms(3) count_reject_evaluates [OF assms(3)]
    by (auto simp: lookupWithRulesType_def Let_def split: prod.splits option.splits if_splits)
qed

lemma lookupWithRules_no_fakeip:
  assumes "same_but_fakeip C C'" "\<not> is_fakeip (rtr_Default r)" "evaluates_no_fakeip r"
  shows "lookupWithRules (D\<lparr>rd_client := C\<rparr>) now domain options m (r, k) = lookupWithRules (D\<lparr>rd_client := C'\<rparr>) now domain options m (r, k)"
proof -
  have second: "lookupWithRulesType (D\<lparr>rd_client := C\<rparr>) now domain qType' opts m s1 =
      lookupWithRulesType (D\<lparr>rd_client := C'\<rparr>) now domain qType' opts m s1"
    if "lookupWithRulesType (D\<lparr>rd_client := C'\<rparr>) now domain qType opts m (r, k) = (answer, s1)" for qType qType' opts answer s1
  proof -
    obtain r1 k1 where s1: "s1 = (r1, k1)" by (cases s1)
    have "evaluates_no_fakeip r1 \<and> rtr_transport r1 = rtr_transport r"
      using lookupWithRulesType_no_fakeip(2) [OF assms that [unfolded s1]] .
    then show ?thesis
      unfolding s1 using assms(1,2) by (intro lookupWithRulesType_no_fakeip(1)) (auto simp: rtr_Default_def)
  qed
  let ?strategy = "resolveLookupStrategy r options"
  let ?opts = "if ?strategy \<noteq> DomainStrategyAsIS then options\<lparr>qo_Strategy := ?strategy\<rparr> else options"
  let ?first = "lookupWithRulesType (D\<lparr>rd_client := C'\<rparr>) now domain TypeA ?opts m (r, k)"
  obtain answer s1 where a: "?first = (answer, s1)" by (cases ?first)
  obtain response4 err4 where "answer = (response4, err4)" by (cases answer)
  with a have l4: "?first = ((response4, err4), s1)" by simp
  have joined: "rd_joined (D\<lparr>rd_client := X\<rparr>) = rd_joined D" for X by simp
  show ?thesis
    unfolding lookupWithRules_def fst_conv Let_def lookupWithRulesType_no_fakeip(1) [OF assms] l4 prod.case second [OF l4] joined ..
qed

text \<open>
  C21. A lookup never asks the FakeIP server.  When neither the server given with the query nor the default server
  is the FakeIP server, and the rules fit the mode, the result and the new state do not depend on what the client does
  with the FakeIP server, although rules that route to it may match.
\<close>

theorem lookup_avoids_fakeip:
  assumes "fits_mode (rtr_transport (st_router st)) (rtr_legacyDNSMode (st_router st)) (rtr_rules (st_router st))"
    "\<not> is_fakeip (rtr_Default (st_router st))" "\<not> is_fakeip optTransport" "same_but_fakeip C C'"
  shows "DnsRouter_Lookup (D\<lparr>rd_client := C\<rparr>) now m domain optTransport options st =
    DnsRouter_Lookup (D\<lparr>rd_client := C'\<rparr>) now m domain optTransport options st"
proof -
  note ev = fits_mode_evaluates [OF assms(1)]
  have "dc_Lookup C optTransport = dc_Lookup C' optTransport" using assms(3,4) by (simp add: same_but_fakeip_def)
  then show ?thesis
    by (simp add: DnsRouter_Lookup_def Let_def lookupWithRules_no_fakeip [OF assms(4,2) ev]
        legacy_Lookup_no_fakeip [OF assms(4,2)] lookup_metadata_def)
qed

text \<open>The client of \<open>Dns_Client\<close> behind the interface; \<open>serve\<close> is what each server answers, and the tasks of refreshes collect.\<close>

definition client_table ::
  "('c, 'd) client_deps \<Rightarrow> (dns_error option \<Rightarrow> dns_error option \<Rightarrow> dns_error option) \<Rightarrow> int \<Rightarrow> int \<Rightarrow> string option \<Rightarrow>
     (component \<Rightarrow> exchange) \<Rightarrow> (('c, 'd) Client \<times> unit refresh_task list) dns_client" where
  "client_table CD joined now1 now2 ctxTag serve =
     \<lparr>dc_Exchange = (\<lambda>transport message options check (c, tasks).
        case transport of
          None \<Rightarrow> ((None, Some (OtherError (Panic ''nil pointer dereference''))), c, tasks)
        | Some t \<Rightarrow>
            (case Client_Exchange CD now1 now2 ctxTag (c_Tag t) (serve t) message options check c of
               (answer, task, c1) \<Rightarrow> (answer, c1, tasks @ (case task of None \<Rightarrow> [] | Some x \<Rightarrow> [x])))),
      dc_Lookup = (\<lambda>transport domain options check (c, tasks).
        case transport of
          None \<Rightarrow> (([], Some (OtherError (Panic ''nil pointer dereference''))), c, tasks)
        | Some t \<Rightarrow>
            (case Client_Lookup CD joined now1 now2 ctxTag (c_Tag t) (serve t) domain options check c of
               (answer, refreshes, c1) \<Rightarrow> (answer, c1, tasks @ refreshes))),
      dc_ClearCache = (\<lambda>(c, tasks). (Client_ClearCache CD c, tasks))\<rparr>"

lemma client_table_same:
  assumes "\<And>t. c_Type t \<noteq> DNSTypeFakeIP \<Longrightarrow> serve t = serve' t"
  shows "same_but_fakeip (client_table CD joined now1 now2 ctxTag serve) (client_table CD joined now1 now2 ctxTag serve')"
  using assms by (auto simp: same_but_fakeip_def client_table_def is_fakeip_def intro!: ext split: option.splits)

definition fake_server :: component where
  "fake_server = (ex_outbound 7 ''fake'' [])\<lparr>c_Type := DNSTypeFakeIP\<rparr>"

definition local_server :: component where
  "local_server = ex_outbound 8 ''local'' []"

definition fake_router :: DnsRouter where
  "fake_router = (NewDnsRouter (Some ((NewTransportManager [])\<lparr>tm_transports := [local_server, fake_server],
       tm_transportByTag := [(''local'', local_server), (''fake'', fake_server)], tm_defaultTransport := Some local_server,
       tm_fakeIPTransport := Some fake_server\<rparr>)) 0)
     \<lparr>rtr_rules := [DefaultRule \<lparr>entries = [], ruleSetItem = None, invert = False,
        action = Some (RuleActionDNSRoute ''fake'' (dns_route_options DNSRouteOptionsActionOptions_zero)), matchResponse = False\<rparr>],
      rtr_started := True\<rparr>"

text \<open>A client that knows one address for each server.\<close>

definition one_address :: "(component \<Rightarrow> addr) \<Rightarrow> nat dns_client" where
  "one_address addr_of =
     \<lparr>dc_Exchange = (\<lambda>t message options check k. ((Some (status_response message RcodeSuccess (d_Question message)), None), Suc k)),
      dc_Lookup = (\<lambda>t domain options check k. ((case t of None \<Rightarrow> [] | Some c \<Rightarrow> [addr_of c], None), Suc k)),
      dc_ClearCache = (\<lambda>_. 0)\<rparr>"

definition fake_deps :: "nat dns_client \<Rightarrow> (nat, unit) router_deps" where
  "fake_deps C = \<lparr>rd_env = plain_env, rd_sets = Map.empty, rd_dns = ex_library, rd_client = C,
     rd_mapping = \<lparr>al_AddWithLifetime = \<lambda>_ _ _. id, al_Get = \<lambda>_ m. (None, m), al_Purge = id\<rparr>, rd_joined = \<lambda>e4 e6. e4\<rparr>"

definition fake_state :: "(nat, unit) router_state" where
  "fake_state = \<lparr>st_router = fake_router\<lparr>rtr_legacyDNSMode := True\<rparr>, st_client = 0, st_dnsReverseMapping = None\<rparr>"

definition plain_query :: DNSQueryOptions where
  "plain_query = \<lparr>qo_Strategy = 0, qo_LookupStrategy = 0, qo_Timeout = 0, qo_DisableCache = False,
     qo_DisableOptimisticCache = False, qo_RewriteTTL = None, qo_ClientSubnet = PrefixZero\<rparr>"

lemmas fake_defs = fake_state_def fake_deps_def fake_router_def NewDnsRouter_def NewTransportManager_def fake_server_def
  local_server_def ex_outbound_def DNSTypeFakeIP_def rtr_Default_def rtr_Transport_def TransportManager_Get_def is_fakeip_def

lemma fake_state_lookup:
  "fst (DnsRouter_Lookup (fake_deps (one_address (\<lambda>_. ex_address))) 0 InboundContextZero ''a.example'' None plain_query fake_state) =
     ([ex_address], None)"
proof -
  let ?D = "fake_deps (one_address (\<lambda>_. ex_address))" and ?r = "st_router fake_state"
  obtain rule where rules: "rtr_rules ?r = [rule]"
    and rule: "dns_Action rule = Some (RuleActionDNSRoute ''fake'' (dns_route_options DNSRouteOptionsActionOptions_zero))"
    by (simp add: fake_state_def fake_router_def)
  have fake: "is_fakeip (rtr_Transport ?r ''fake'')" "rtr_Transport ?r ''fake'' = Some fake_server" "rtr_Default ?r = Some local_server"
    by (simp_all add: fake_defs)
  have "\<exists>m1. matchDNS_rule ?D ?r False True rule plain_query m = Inr (plain_query, m1)" for m
    using fake by (auto simp: matchDNS_rule_def rule Let_def split: prod.split)
  then have match: "\<exists>m1. matchDNS ?D ?r False True 0 [rule] plain_query m = (Some local_server, None, plain_query, m1)" for m
    unfolding matchDNS.simps fake(3) by (auto dest: meta_spec [of _ m])
  have "dc_Lookup (rd_client ?D) (Some local_server) domain opts check k = (([ex_address], None), Suc k)" for domain opts check k
    by (simp add: fake_deps_def one_address_def)
  then have "fst (legacy_Lookup ?D 0 domain plain_query 0 m ?r k) = Inr ([ex_address], None)" for domain m k
    using match [of m] by (subst legacy_Lookup.simps) (auto simp: rules final_action_def addressLimitResponseCheck_def)
  moreover have "\<not> rtr_closing ?r" "rtr_legacyDNSMode ?r" by (simp_all add: fake_defs)
  ultimately show ?thesis
    by (simp add: DnsRouter_Lookup_def Let_def split_beta printResult_def)
qed

theorem lookup_avoids_fakeip_witness:
  "fst (DnsRouter_Lookup (fake_deps (one_address (\<lambda>c. if c_Type c = DNSTypeFakeIP then AddrZero else ex_address)))
     0 InboundContextZero ''a.example'' None plain_query fake_state) = ([ex_address], None)"
proof -
  let ?C = "one_address (\<lambda>c. if c_Type c = DNSTypeFakeIP then AddrZero else ex_address)"
    and ?C' = "one_address (\<lambda>_. ex_address)"
  have same: "same_but_fakeip ?C ?C'" by (auto simp: same_but_fakeip_def one_address_def is_fakeip_def intro!: ext split: option.splits)
  have fits: "fits_mode (rtr_transport (st_router fake_state)) (rtr_legacyDNSMode (st_router fake_state)) (rtr_rules (st_router fake_state))"
    by (simp add: fits_mode_def fake_state_def fake_router_def evaluates_def matches_response_def)
  have def: "\<not> is_fakeip (rtr_Default (st_router fake_state))" "\<not> is_fakeip None"
    by (simp_all add: fake_defs)
  have deps: "(fake_deps C)\<lparr>rd_client := C'\<rparr> = fake_deps C'" for C C' by (simp add: fake_deps_def)
  show ?thesis
    using lookup_avoids_fakeip [OF fits def same, of "fake_deps ?C" 0 InboundContextZero "''a.example''" plain_query] fake_state_lookup
    unfolding deps by simp
qed

end
