(* ===== verification/Route_Match.thy ===== *)
theory Route_Match
  imports Sniff Dns_Router Outbound_Manager
begin

text \<open>
  The rule loop of the connection router (\<^verbatim>\<open>matchRule\<close>, \<^verbatim>\<open>actionSniff\<close> and \<^verbatim>\<open>actionResolve\<close> of \<^verbatim>\<open>route/route.go\<close>, and
  \<^verbatim>\<open>route/process_cache.go\<close>): what the router adds to the metadata of a connection before the rules, the rules in
  order with the effects of their actions, and the rule that decides.

  A packet connection is, like a stream, the sequence of what its reads bring.  The neighbor resolver, the process
  searcher and the cache of its answers are tables of operations.  \<open>now\<close> is the time of the call.
\<close>

subsection \<open>What the router calls\<close>

type_synonym addr_port = "addr \<times> 16 word"
type_synonym process_key = "string \<times> addr_port \<times> addr_port"
type_synonym process_entry = "connection_owner res"

record 'p process_lru =
  pl_Get :: "process_key \<Rightarrow> 'p \<Rightarrow> process_entry option \<times> 'p"
  pl_Add :: "process_key \<Rightarrow> process_entry \<Rightarrow> 'p \<Rightarrow> 'p"

record neighbor_resolver =
  nr_LookupMAC :: "addr \<Rightarrow> bytes option"
  nr_LookupHostname :: "addr \<Rightarrow> string option"

record ('k, 'm, 's, 'p) route_deps =
  rp_env :: env
  rp_sets :: rule_sets
  rp_dns :: "('k, 'm) router_deps"
  rp_sniff :: sniff_library
  rp_storage :: "'s FakeIPStorage"
  rp_processSearcher :: "(string \<Rightarrow> addr_port \<Rightarrow> addr_port \<Rightarrow> connection_owner res) option"
  rp_LookupId :: "int \<Rightarrow> string option"
  rp_processCache :: "'p process_lru"
  rp_MyInterfaceAddress :: "addr list option"
  rp_neighborResolver :: "neighbor_resolver option"
  rp_IsTimeout :: "error \<Rightarrow> bool"

text \<open>What a read of a packet connection brings; \<open>ContextDone\<close> is the end of the context while it waits.\<close>

datatype packet_read = ReadPacket bytes socksaddr | PacketError error | ContextDone error

type_synonym packet_buffer = "bytes \<times> socksaddr"

text \<open>The state of a call of \<^verbatim>\<open>matchRule\<close>; a connection that is nil is \<open>None\<close>.\<close>

record ('k, 'm, 'p) matching =
  mt_metadata :: inbound_context
  mt_dns :: "('k, 'm) router_state"
  mt_processCache :: 'p
  mt_conn :: "stream_read list option"
  mt_packetConn :: "packet_read list option"
  mt_buffers :: "bytes list"
  mt_packetBuffers :: "packet_buffer list"

subsection \<open>Process information\<close>

definition addr_IsLoopback :: "addr \<Rightarrow> bool" where
  "addr_IsLoopback a =
     (case addr_Unmap a of
        AddrZero \<Rightarrow> False
      | Addr4 w \<Rightarrow> drop_bit 24 w = 127
      | Addr6 w _ \<Rightarrow> w = 1)"

definition isLocalSource :: "('k, 'm, 's, 'p) route_deps \<Rightarrow> addr \<Rightarrow> bool" where
  "isLocalSource P source \<longleftrightarrow>
     addr_IsLoopback source \<or>
     (case rp_MyInterfaceAddress P of None \<Rightarrow> False | Some addresses \<Rightarrow> source \<in> set addresses) \<or>
     list_ex (\<lambda>ni. list_ex (\<lambda>p. p_Addr p = source) (ni_Addresses ni)) (FinderInterfaces (rp_env P))"

definition FindProcessInfo ::
  "(int \<Rightarrow> string option) \<Rightarrow> (string \<Rightarrow> addr_port \<Rightarrow> addr_port \<Rightarrow> connection_owner res) \<Rightarrow>
     string \<Rightarrow> addr_port \<Rightarrow> addr_port \<Rightarrow> connection_owner res" where
  "FindProcessInfo LookupId search network source destination =
     bind_res (search network source destination) (\<lambda>info.
       Inr (if c_UserId info \<noteq> - 1 \<and> c_UserName info = []
            then (case LookupId (c_UserId info) of None \<Rightarrow> info | Some name \<Rightarrow> info\<lparr>c_UserName := name\<rparr>)
            else info))"

definition findProcessInfoCached ::
  "('k, 'm, 's, 'p) route_deps \<Rightarrow> (string \<Rightarrow> addr_port \<Rightarrow> addr_port \<Rightarrow> connection_owner res) \<Rightarrow>
     string \<Rightarrow> addr_port \<Rightarrow> addr_port \<Rightarrow> 'p \<Rightarrow> connection_owner res \<times> 'p" where
  "findProcessInfoCached P search network source destination cache =
     (let key = (network, source, destination); (entry, cache1) = pl_Get (rp_processCache P) key cache
      in case entry of
           Some result \<Rightarrow> (result, cache1)
         | None \<Rightarrow>
             let result = FindProcessInfo (rp_LookupId P) search network source destination
             in (result, pl_Add (rp_processCache P) key result cache1))"

definition sa_AddrPort :: "socksaddr \<Rightarrow> addr_port" where
  "sa_AddrPort a = (s_Addr a, s_Port a)"

definition searchProcessInfo ::
  "('k, 'm, 's, 'p) route_deps \<Rightarrow> ('k, 'm, 'p) matching \<Rightarrow> ('k, 'm, 'p) matching" where
  "searchProcessInfo P t =
     (let m = mt_metadata t in
      case rp_processSearcher P of
        None \<Rightarrow> t
      | Some search \<Rightarrow>
          if m_ProcessInfo m \<noteq> None \<or> \<not> isLocalSource P (s_Addr (m_Source m)) then t
          else
            let originDestination =
                  (if sa_IsValid (rp_env P) (m_OriginDestination m) then sa_AddrPort (m_OriginDestination m)
                   else if sa_IsIP (rp_env P) (m_Destination m) then sa_AddrPort (m_Destination m)
                   else (AddrZero, 0));
                (result, cache) = findProcessInfoCached P search (m_Network m) (sa_AddrPort (m_Source m)) originDestination
                  (mt_processCache t);
                t1 = t\<lparr>mt_processCache := cache\<rparr>
            in case result of
                 Inl _ \<Rightarrow> t1
               | Inr processInfo \<Rightarrow> t1\<lparr>mt_metadata := m\<lparr>m_ProcessInfo := Some processInfo\<rparr>\<rparr>)"

subsection \<open>Before the rules\<close>

definition findNeighbor :: "('k, 'm, 's, 'p) route_deps \<Rightarrow> inbound_context \<Rightarrow> inbound_context" where
  "findNeighbor P m =
     (case rp_neighborResolver P of
        None \<Rightarrow> m
      | Some resolver \<Rightarrow>
          if m_SourceMACAddress m \<noteq> None \<or> \<not> addr_IsValid (s_Addr (m_Source m)) then m
          else
            let m1 = (case nr_LookupMAC resolver (s_Addr (m_Source m)) of
                        None \<Rightarrow> m | Some mac \<Rightarrow> m\<lparr>m_SourceMACAddress := Some mac\<rparr>)
            in case nr_LookupHostname resolver (s_Addr (m_Source m)) of
                 None \<Rightarrow> m1 | Some hostname \<Rightarrow> m1\<lparr>m_SourceHostname := hostname\<rparr>)"

definition missing_fakeip :: error where
  "missing_fakeip = New ''missing fakeip record, try enable `experimental.cache_file`''"

text \<open>The domain behind the destination: of a FakeIP address, or from the reverse mapping.\<close>

definition findDomain ::
  "('k, 'm, 's, 'p) route_deps \<Rightarrow> 's Transport option \<Rightarrow> ('k, 'm, 'p) matching \<Rightarrow> dns_error option \<times> ('k, 'm, 'p) matching" where
  "findDomain P fakeip t =
     (let m = mt_metadata t; address = s_Addr (m_Destination m);
          reverse = (\<lambda>t. if m_Domain m = [] then
                           let (domain, dns) = LookupReverseMapping (rp_dns P) address (mt_dns t); t1 = t\<lparr>mt_dns := dns\<rparr>
                           in (None, case domain of None \<Rightarrow> t1 | Some d \<Rightarrow> t1\<lparr>mt_metadata := m\<lparr>m_Domain := d\<rparr>\<rparr>)
                         else (None, t))
      in case fakeip of
           None \<Rightarrow> reverse t
         | Some transport \<Rightarrow>
             if addr_IsValid address \<and> Store_Contains (tr_store transport) address then
               (case Store_Lookup (rp_storage P) address (tr_store transport) of
                  Inl e \<Rightarrow> (Some (OtherError e), t)
                | Inr None \<Rightarrow> (Some (OtherError missing_fakeip), t)
                | Inr (Some domain) \<Rightarrow>
                    if domain = [] then (None, t)
                    else (None, t\<lparr>mt_metadata := m\<lparr>m_OriginDestination := m_Destination m,
                            m_Destination := \<lparr>s_Addr = AddrZero, s_Port = s_Port (m_Destination m), s_Fqdn = domain\<rparr>,
                            m_FakeIP := True\<rparr>\<rparr>))
             else reverse t)"

definition setIPVersion :: "env \<Rightarrow> inbound_context \<Rightarrow> inbound_context" where
  "setIPVersion E m =
     (if sa_IsIPv4 E (m_Destination m) then m\<lparr>m_IPVersion := 4\<rparr>
      else if sa_IsIPv6 E (m_Destination m) then m\<lparr>m_IPVersion := 6\<rparr> else m)"

definition prepare ::
  "('k, 'm, 's, 'p) route_deps \<Rightarrow> 's Transport option \<Rightarrow> ('k, 'm, 'p) matching \<Rightarrow> dns_error option \<times> ('k, 'm, 'p) matching" where
  "prepare P fakeip t0 =
     (let t1 = searchProcessInfo P t0; t2 = t1\<lparr>mt_metadata := findNeighbor P (mt_metadata t1)\<rparr>;
          (err, t3) = findDomain P fakeip t2
      in case err of
           Some e \<Rightarrow> (Some e, t3)
         | None \<Rightarrow> (None, t3\<lparr>mt_metadata := setIPVersion (rp_env P) (mt_metadata t3)\<rparr>))"

subsection \<open>Route options\<close>

definition overrideDestination :: "env \<Rightarrow> RuleActionRouteOptions \<Rightarrow> inbound_context \<Rightarrow> inbound_context" where
  "overrideDestination E opts m =
     (let m1 = (if (sa_IsValid E (a_OverrideAddress opts) \<or> a_OverridePort opts > 0) \<and>
                   \<not> sa_IsValid E (m_RouteOriginalDestination m)
                then m\<lparr>m_RouteOriginalDestination := m_Destination m\<rparr> else m);
          m2 = (if sa_IsValid E (a_OverrideAddress opts)
                then m1\<lparr>m_Destination := \<lparr>s_Addr = s_Addr (a_OverrideAddress opts), s_Port = s_Port (m_Destination m1),
                                          s_Fqdn = s_Fqdn (a_OverrideAddress opts)\<rparr>,
                        m_DestinationAddresses := []\<rparr> else m1)
      in if a_OverridePort opts > 0
         then m2\<lparr>m_Destination := (m_Destination m2)\<lparr>s_Port := a_OverridePort opts\<rparr>\<rparr> else m2)"

definition applyRouteOptions :: "env \<Rightarrow> RuleActionRouteOptions \<Rightarrow> inbound_context \<Rightarrow> inbound_context" where
  "applyRouteOptions E opts m0 =
     (let m = overrideDestination E opts m0;
          m = (if a_NetworkStrategy opts \<noteq> None then m\<lparr>m_NetworkStrategy := a_NetworkStrategy opts\<rparr> else m);
          m = (if a_NetworkType opts \<noteq> [] then m\<lparr>m_NetworkType := a_NetworkType opts\<rparr> else m);
          m = (if a_FallbackNetworkType opts \<noteq> [] then m\<lparr>m_FallbackNetworkType := a_FallbackNetworkType opts\<rparr> else m);
          m = (if a_FallbackDelay opts \<noteq> 0 then m\<lparr>m_FallbackDelay := a_FallbackDelay opts\<rparr> else m);
          m = (if a_UDPDisableDomainUnmapping opts then m\<lparr>m_UDPDisableDomainUnmapping := True\<rparr> else m);
          m = (if a_UDPConnect opts then m\<lparr>m_UDPConnect := True\<rparr> else m);
          m = (if a_UDPTimeout opts > 0 then m\<lparr>m_UDPTimeout := a_UDPTimeout opts\<rparr> else m);
          m = (if a_TLSFragment opts
               then m\<lparr>m_TLSFragment := True, m_TLSFragmentFallbackDelay := a_TLSFragmentFallbackDelay opts\<rparr> else m);
          m = (if a_TLSRecordFragment opts then m\<lparr>m_TLSRecordFragment := True\<rparr> else m)
      in if a_TLSSpoof opts \<noteq> []
         then m\<lparr>m_TLSSpoof := a_TLSSpoof opts, m_TLSSpoofMethod := a_TLSSpoofMethod opts\<rparr> else m)"

fun action_route_options :: "rule_action \<Rightarrow> RuleActionRouteOptions option" where
  "action_route_options (RuleActionRoute _ opts) = Some opts"
| "action_route_options (RuleActionRouteOptions opts) = Some opts"
| "action_route_options (RuleActionBypass outbound opts) = (if outbound \<noteq> [] then Some opts else None)"
| "action_route_options _ = None"

subsection \<open>Sniffing\<close>

definition default_stream_sniffers :: "stream_sniffer list" where
  "default_stream_sniffers = [TLSClientHello, HTTPHost, StreamDomainNameQuery, BitTorrent, SSH, RDP]"

definition default_packet_sniffers :: "packet_sniffer list" where
  "default_packet_sniffers = [DomainNameQuery, QUICClientHello, STUNMessage, UTP, UDPTracker, DTLSRecord, NTP]"

definition sniffed_before :: "RuleActionSniff \<Rightarrow> inbound_context \<Rightarrow> bool" where
  "sniffed_before act m \<longleftrightarrow>
     m_SnifferNames m = a_SnifferNames act \<and> (case m_SniffError m of None \<Rightarrow> False | Some e \<Rightarrow> \<not> needs_more e)"

definition sniff_done :: "env \<Rightarrow> RuleActionSniff \<Rightarrow> error option \<Rightarrow> inbound_context \<Rightarrow> inbound_context" where
  "sniff_done E act err m =
     (if err = None \<and> a_OverrideDestination act \<and> IsDomainName E (m_Domain m)
      then m\<lparr>m_Destination := \<lparr>s_Addr = AddrZero, s_Port = s_Port (m_Destination m), s_Fqdn = m_Domain m\<rparr>\<rparr> else m)"

definition sniff_stream ::
  "env \<Rightarrow> sniff_library \<Rightarrow> RuleActionSniff \<Rightarrow> bytes list \<Rightarrow> inbound_context \<Rightarrow> stream_read list \<Rightarrow>
     bytes option \<times> inbound_context \<times> stream_read list" where
  "sniff_stream E L act buffers m conn =
     (if a_StreamSniffers act = [] \<and> a_PacketSniffers act \<noteq> [] \<or> sniffed_before act m then (None, m, conn)
      else
        let sniffers = (if a_StreamSniffers act \<noteq> [] then a_StreamSniffers act else default_stream_sniffers);
            (err, buffer, m1, conn') = PeekStream L m conn buffers sniffers;
            m2 = m1\<lparr>m_SnifferNames := a_SnifferNames act, m_SniffError := err\<rparr>
        in (if buffer \<noteq> [] then Some buffer else None, sniff_done E act err m2, conn'))"

definition peek_one ::
  "sniff_library \<Rightarrow> RuleActionSniff \<Rightarrow> packet_sniffer list \<Rightarrow> inbound_context \<Rightarrow> bytes \<Rightarrow> verdict" where
  "peek_one L act sniffers m packet =
     (let quicMoreData = (m_SnifferNames m = a_SnifferNames act \<and>
            (case m_SniffError m of None \<Rightarrow> False | Some e \<Rightarrow> needs_more e));
          (err, m1) = PeekPacket L m packet (if quicMoreData then [QUICClientHello] else sniffers)
      in (err, m1\<lparr>m_SnifferNames := a_SnifferNames act, m_SniffError := err\<rparr>))"

definition wants_more :: "error option \<Rightarrow> bool" where
  "wants_more err = (case err of None \<Rightarrow> False | Some e \<Rightarrow> needs_more e)"

text \<open>The packets read by an earlier action: \<open>Inl\<close> jumps to the end, \<open>Inr\<close> goes on to the connection.\<close>

fun peek_cached ::
  "sniff_library \<Rightarrow> RuleActionSniff \<Rightarrow> packet_sniffer list \<Rightarrow> packet_buffer list \<Rightarrow> inbound_context \<Rightarrow> verdict + inbound_context" where
  "peek_cached L act sniffers [] m = Inr m"
| "peek_cached L act sniffers (packet # packets) m =
     (let (err, m1) = peek_one L act sniffers m (fst packet)
      in if wants_more err then peek_cached L act sniffers packets m1 else Inl (err, m1))"

text \<open>
  The loop that reads: the packets collected, the fatal error, the error of the last round and the metadata.  After
  the last event the read times out.
\<close>

fun peek_reads ::
  "(error \<Rightarrow> bool) \<Rightarrow> sniff_library \<Rightarrow> RuleActionSniff \<Rightarrow> packet_sniffer list \<Rightarrow> packet_buffer list \<Rightarrow> inbound_context \<Rightarrow>
     packet_read list \<Rightarrow> packet_buffer list \<times> error option \<times> error option \<times> inbound_context \<times> packet_read list" where
  "peek_reads isTimeout L act sniffers packets m [] = (packets, None, Some os_ErrDeadlineExceeded, m, [])"
| "peek_reads isTimeout L act sniffers packets m (ContextDone e # conn) = (packets, Some e, None, m, conn)"
| "peek_reads isTimeout L act sniffers packets m (PacketError e # conn) =
     (if isTimeout e then (packets, None, Some e, m, conn) else (packets, Some e, Some e, m, conn))"
| "peek_reads isTimeout L act sniffers packets m (ReadPacket packet destination # conn) =
     (let (err, m1) = peek_one L act sniffers m packet; packets1 = packets @ [(packet, destination)]
      in if wants_more err then peek_reads isTimeout L act sniffers packets1 m1 conn
         else (packets1, None, err, m1, conn))"

definition sniff_packets ::
  "('k, 'm, 's, 'p) route_deps \<Rightarrow> RuleActionSniff \<Rightarrow> packet_buffer list \<Rightarrow> inbound_context \<Rightarrow> packet_read list \<Rightarrow>
     packet_buffer list \<times> error option \<times> inbound_context \<times> packet_read list" where
  "sniff_packets P act inputPacketBuffers m conn =
     (if a_PacketSniffers act = [] \<and> a_StreamSniffers act \<noteq> [] \<or> sniffed_before act m then ([], None, m, conn)
      else
        let sniffers = (if a_PacketSniffers act \<noteq> [] then a_PacketSniffers act else default_packet_sniffers)
        in case peek_cached (rp_sniff P) act sniffers inputPacketBuffers m of
             Inl (err, m1) \<Rightarrow> ([], None, sniff_done (rp_env P) act err m1, conn)
           | Inr m1 \<Rightarrow>
               (case peek_reads (rp_IsTimeout P) (rp_sniff P) act sniffers inputPacketBuffers m1 conn of
                  (packets, Some fatal, _, m2, conn') \<Rightarrow> (packets, Some fatal, m2, conn')
                | (packets, None, err, m2, conn') \<Rightarrow> (packets, None, sniff_done (rp_env P) act err m2, conn')))"

text \<open>\<^verbatim>\<open>actionSniff\<close>, with the appending of the buffers that \<^verbatim>\<open>matchRule\<close> does.\<close>

definition actionSniff ::
  "('k, 'm, 's, 'p) route_deps \<Rightarrow> RuleActionSniff \<Rightarrow> ('k, 'm, 'p) matching \<Rightarrow> dns_error option \<times> ('k, 'm, 'p) matching" where
  "actionSniff P act t =
     (let m = mt_metadata t in
      if Skip m \<or> m_Protocol m \<noteq> [] then (None, t)
      else case mt_conn t of
        Some conn \<Rightarrow>
          let (buffer, m1, conn') = sniff_stream (rp_env P) (rp_sniff P) act (mt_buffers t) m conn
          in (None, t\<lparr>mt_metadata := m1, mt_conn := Some conn',
                mt_buffers := mt_buffers t @ (case buffer of None \<Rightarrow> [] | Some b \<Rightarrow> [b])\<rparr>)
      | None \<Rightarrow>
          (case mt_packetConn t of
             None \<Rightarrow> (None, t)
           | Some conn \<Rightarrow>
               let (packets, fatal, m1, conn') = sniff_packets P act (mt_packetBuffers t) m conn
               in (map_option OtherError fatal, t\<lparr>mt_metadata := m1, mt_packetConn := Some conn',
                     mt_packetBuffers := mt_packetBuffers t @ packets\<rparr>)))"

subsection \<open>Resolving\<close>

definition resolve_options :: "RuleActionResolve \<Rightarrow> DNSQueryOptions" where
  "resolve_options act =
     \<lparr>qo_Strategy = a_ResolveStrategy act, qo_LookupStrategy = DomainStrategyAsIS, qo_Timeout = a_ResolveTimeout act,
      qo_DisableCache = a_ResolveDisableCache act, qo_DisableOptimisticCache = a_ResolveDisableOptimisticCache act,
      qo_RewriteTTL = a_ResolveRewriteTTL act, qo_ClientSubnet = a_ResolveClientSubnet act\<rparr>"

definition actionResolve ::
  "('k, 'm, 's, 'p) route_deps \<Rightarrow> int \<Rightarrow> RuleActionResolve \<Rightarrow> ('k, 'm, 'p) matching \<Rightarrow> dns_error option \<times> ('k, 'm, 'p) matching" where
  "actionResolve P now act t =
     (let m = mt_metadata t; server = a_ResolveServer act; transport = rtr_Transport (st_router (mt_dns t)) server in
      if \<not> sa_IsDomain (rp_env P) (m_Destination m) then (None, t)
      else if server \<noteq> [] \<and> transport = None then (Some (OtherError (New (''DNS server not found: '' @ server))), t)
      else
        let ((addresses, err), dns) = DnsRouter_Lookup (rp_dns P) now m (s_Fqdn (m_Destination m))
              (if server \<noteq> [] then transport else None) (resolve_options act) (mt_dns t);
            t1 = t\<lparr>mt_dns := dns\<rparr>
        in case err of
             Some e \<Rightarrow> (Some e, t1)
           | None \<Rightarrow> (None, t1\<lparr>mt_metadata := m\<lparr>m_DestinationAddresses := addresses\<rparr>\<rparr>))"

subsection \<open>The rules\<close>

definition NetworkTCP :: string where "NetworkTCP = ''tcp''"
definition NetworkUDP :: string where "NetworkUDP = ''udp''"
definition NetworkICMP :: string where "NetworkICMP = ''icmp''"

datatype step = Fatal dns_error | Selected | Passed

text \<open>
  What the loop does with the action of a rule that matched.  A sniff action that is met before a connection is
  accepted selects its rule; a bypass without an outbound is passed over unless the caller can bypass.
\<close>

definition rule_step ::
  "('k, 'm, 's, 'p) route_deps \<Rightarrow> int \<Rightarrow> bool \<Rightarrow> bool \<Rightarrow> rule_action \<Rightarrow> ('k, 'm, 'p) matching \<Rightarrow> step \<times> ('k, 'm, 'p) matching" where
  "rule_step P now preMatch supportBypass act t0 =
     (let t = (case action_route_options act of
                 None \<Rightarrow> t0
               | Some opts \<Rightarrow> t0\<lparr>mt_metadata := applyRouteOptions (rp_env P) opts (mt_metadata t0)\<rparr>)
      in case act of
           RuleActionSniff sniff \<Rightarrow>
             if \<not> preMatch then
               (case actionSniff P sniff t of (Some e, t1) \<Rightarrow> (Fatal e, t1) | (None, t1) \<Rightarrow> (Passed, t1))
             else if m_Network (mt_metadata t) \<noteq> NetworkICMP then (Selected, t)
             else (Passed, t)
         | RuleActionResolve resolve \<Rightarrow>
             (case actionResolve P now resolve t of (Some e, t1) \<Rightarrow> (Fatal e, t1) | (None, t1) \<Rightarrow> (Passed, t1))
         | RuleActionBypass outbound _ \<Rightarrow>
             if \<not> supportBypass \<and> outbound = [] then (Passed, t) else (Selected, t)
         | _ \<Rightarrow>
             if action_Type act \<in> {RuleActionTypeRoute, RuleActionTypeReject, RuleActionTypeHijackDNS} then (Selected, t)
             else (Passed, t))"

fun match_rules ::
  "('k, 'm, 's, 'p) route_deps \<Rightarrow> int \<Rightarrow> bool \<Rightarrow> bool \<Rightarrow> nat \<Rightarrow> route_rule list \<Rightarrow> ('k, 'm, 'p) matching \<Rightarrow>
     dns_error option \<times> (route_rule \<times> nat) option \<times> ('k, 'm, 'p) matching" where
  "match_rules P now preMatch supportBypass i [] t = (None, None, t)"
| "match_rules P now preMatch supportBypass i (currentRule # rules) t =
     (let (matched, m1) = rule_Match (rp_env P) (sets_eval (rp_env P) (rp_sets P)) currentRule (ResetRuleCache (mt_metadata t));
          t1 = t\<lparr>mt_metadata := m1\<rparr>
      in if \<not> matched then match_rules P now preMatch supportBypass (Suc i) rules t1
         else case rule_Action currentRule of
           None \<Rightarrow> (Some (OtherError (Panic ''invalid memory address or nil pointer dereference'')), None, t1)
         | Some act \<Rightarrow>
             (case rule_step P now preMatch supportBypass act t1 of
                (Fatal e, t2) \<Rightarrow> (Some e, None, t2)
              | (Selected, t2) \<Rightarrow> (None, Some (currentRule, i), t2)
              | (Passed, t2) \<Rightarrow> match_rules P now preMatch supportBypass (Suc i) rules t2))"

definition matchRule ::
  "('k, 'm, 's, 'p) route_deps \<Rightarrow> int \<Rightarrow> 's Transport option \<Rightarrow> bool \<Rightarrow> bool \<Rightarrow> route_rule list \<Rightarrow> ('k, 'm, 'p) matching \<Rightarrow>
     dns_error option \<times> (route_rule \<times> nat) option \<times> ('k, 'm, 'p) matching" where
  "matchRule P now fakeip preMatch supportBypass rules t =
     (case prepare P fakeip t of
        (Some e, t1) \<Rightarrow> (Some e, None, t1)
      | (None, t1) \<Rightarrow> match_rules P now preMatch supportBypass 0 rules t1)"


subsection \<open>The rule that decides\<close>

definition decides :: "bool \<Rightarrow> bool \<Rightarrow> rule_action \<Rightarrow> bool" where
  "decides preMatch supportBypass act \<longleftrightarrow>
     action_Type act \<in> {RuleActionTypeRoute, RuleActionTypeReject, RuleActionTypeHijackDNS} \<or>
     (\<exists>outbound opts. act = RuleActionBypass outbound opts \<and> (supportBypass \<or> outbound \<noteq> [])) \<or>
     (preMatch \<and> (\<exists>sniff. act = RuleActionSniff sniff))"

lemma action_Types_differ [simp]:
  "RuleActionTypeSniff \<notin> {RuleActionTypeRoute, RuleActionTypeReject, RuleActionTypeHijackDNS}"
  "RuleActionTypeResolve \<notin> {RuleActionTypeRoute, RuleActionTypeReject, RuleActionTypeHijackDNS}"
  "RuleActionTypeBypass \<notin> {RuleActionTypeRoute, RuleActionTypeReject, RuleActionTypeHijackDNS}"
  by (simp_all add: RuleActionTypeSniff_def RuleActionTypeResolve_def RuleActionTypeBypass_def RuleActionTypeRoute_def
      RuleActionTypeReject_def RuleActionTypeHijackDNS_def)

lemma rule_step_selects: "fst (rule_step P now pre sb act t) = Selected \<Longrightarrow> decides pre sb act"
  by (cases act) (auto simp: rule_step_def decides_def Let_def split: if_splits option.splits prod.splits)

lemma match_rules_Cons:
  assumes "match_rules P now pre sb i (r # rules) t = res"
  obtains (unmatched) m1 where "match_rules P now pre sb (Suc i) rules (t\<lparr>mt_metadata := m1\<rparr>) = res"
  | (nil_action) m1 e where "res = (Some e, None, t\<lparr>mt_metadata := m1\<rparr>)"
  | (fatal) act m1 e t2 where "rule_Action r = Some act" "rule_step P now pre sb act (t\<lparr>mt_metadata := m1\<rparr>) = (Fatal e, t2)"
      "res = (Some e, None, t2)"
  | (selected) act m1 t2 where "rule_Action r = Some act" "rule_step P now pre sb act (t\<lparr>mt_metadata := m1\<rparr>) = (Selected, t2)"
      "res = (None, Some (r, i), t2)"
  | (passed) act m1 t2 where "rule_Action r = Some act" "rule_step P now pre sb act (t\<lparr>mt_metadata := m1\<rparr>) = (Passed, t2)"
      "match_rules P now pre sb (Suc i) rules t2 = res"
proof -
  obtain matched m1 where m: "rule_Match (rp_env P) (sets_eval (rp_env P) (rp_sets P)) r (ResetRuleCache (mt_metadata t)) = (matched, m1)"
    by (cases "rule_Match (rp_env P) (sets_eval (rp_env P) (rp_sets P)) r (ResetRuleCache (mt_metadata t))")
  show thesis
  proof (cases "matched \<and> rule_Action r \<noteq> None")
    case False
    then show thesis using assms unmatched nil_action by (auto simp: m Let_def split: if_splits option.splits)
  next
    case True
    then obtain act where act: "rule_Action r = Some act" by auto
    obtain s t2 where s: "rule_step P now pre sb act (t\<lparr>mt_metadata := m1\<rparr>) = (s, t2)"
      by (cases "rule_step P now pre sb act (t\<lparr>mt_metadata := m1\<rparr>)")
    have res: "res = (case s of Fatal e \<Rightarrow> (Some e, None, t2) | Selected \<Rightarrow> (None, Some (r, i), t2)
        | Passed \<Rightarrow> match_rules P now pre sb (Suc i) rules t2)"
      using assms True by (simp add: m act s Let_def split: step.split)
    show thesis
    proof (cases s)
      case (Fatal e)
      show thesis by (rule fatal [OF act s [unfolded Fatal]]) (simp add: res Fatal)
    next
      case Selected
      show thesis by (rule selected [OF act s [unfolded Selected]]) (simp add: res Selected)
    next
      case Passed
      show thesis by (rule passed [OF act s [unfolded Passed]]) (simp add: res Passed)
    qed
  qed
qed

lemma match_rules_selected:
  assumes "match_rules P now pre sb i rules t = (None, Some (rule, j), t')"
  shows "i \<le> j \<and> j < i + length rules \<and> rules ! (j - i) = rule \<and> (\<exists>act. rule_Action rule = Some act \<and> decides pre sb act)"
  using assms
proof (induction rules arbitrary: i t)
  case (Cons r rules)
  have later: "i \<le> j \<and> j < i + length (r # rules) \<and> (r # rules) ! (j - i) = rule \<and>
      (\<exists>act. rule_Action rule = Some act \<and> decides pre sb act)"
    if "match_rules P now pre sb (Suc i) rules t1 = (None, Some (rule, j), t')" for t1
    using Cons.IH [OF that] by (auto simp: nth_Cons')
  from Cons.prems show ?case
  proof (cases rule: match_rules_Cons)
    case (selected act m1 t2)
    then have "decides pre sb act" using rule_step_selects [of P now pre sb act "t\<lparr>mt_metadata := m1\<rparr>"] by simp
    then show ?thesis using selected by auto
  qed (use later in auto)
qed simp

subsection \<open>Sniffing loses no bytes\<close>

definition is_sniff_rule :: "route_rule \<Rightarrow> bool" where
  "is_sniff_rule rule = (case rule_Action rule of Some (RuleActionSniff _) \<Rightarrow> True | _ \<Rightarrow> False)"

text \<open>Everything of a stream that is known or still to come, in the order it was sent.\<close>

definition stream_total :: "('k, 'm, 'p) matching \<Rightarrow> bytes option" where
  "stream_total t = map_option (\<lambda>conn. concat (mt_buffers t) @ stream_bytes conn) (mt_conn t)"

fun packets_of :: "packet_read list \<Rightarrow> packet_buffer list" where
  "packets_of [] = []"
| "packets_of (ReadPacket packet destination # conn) = (packet, destination) # packets_of conn"
| "packets_of (_ # conn) = packets_of conn"

lemma sniff_stream_bytes:
  assumes "sniff_stream E L act buffers m conn = (buffer, m', conn')"
  shows "(case buffer of None \<Rightarrow> [] | Some b \<Rightarrow> b) @ stream_bytes conn' = stream_bytes conn"
proof (cases "a_StreamSniffers act = [] \<and> a_PacketSniffers act \<noteq> [] \<or> sniffed_before act m")
  case True
  then show ?thesis using assms by (auto simp: sniff_stream_def)
next
  case False
  obtain err b m1 c where p: "PeekStream L m conn buffers
      (if a_StreamSniffers act \<noteq> [] then a_StreamSniffers act else default_stream_sniffers) = (err, b, m1, c)"
    by (metis prod_cases4)
  have "b @ stream_bytes c = [] @ stream_bytes conn" by (rule peek_loop_bytes [OF p [unfolded PeekStream_def]])
  then show ?thesis using assms False by (auto simp: sniff_stream_def Let_def p split: if_splits)
qed

lemma actionSniff_stream:
  assumes "mt_conn t \<noteq> None" "actionSniff P act t = (err, t')"
  shows "stream_total t' = stream_total t \<and> length (mt_buffers t') \<le> Suc (length (mt_buffers t))"
proof -
  obtain conn where conn: "mt_conn t = Some conn" using assms(1) by blast
  obtain buffer m1 conn' where s: "sniff_stream (rp_env P) (rp_sniff P) act (mt_buffers t) (mt_metadata t) conn = (buffer, m1, conn')"
    by (metis prod_cases3)
  show ?thesis
    using assms(2) conn sniff_stream_bytes [OF s]
    by (cases "Skip (mt_metadata t) \<or> m_Protocol (mt_metadata t) \<noteq> []")
      (auto simp: actionSniff_def Let_def s stream_total_def split: option.splits)
qed

lemma actionResolve_frame:
  assumes "actionResolve P now act t = (err, t')"
  shows "mt_conn t' = mt_conn t \<and> mt_buffers t' = mt_buffers t \<and> mt_packetConn t' = mt_packetConn t \<and>
    mt_packetBuffers t' = mt_packetBuffers t"
  using assms by (auto simp: actionResolve_def Let_def split: if_splits prod.splits option.splits)

text \<open>An action other than sniffing leaves the connections and the buffers alone.\<close>

lemma rule_step_frame:
  assumes "rule_step P now pre sb act t = (s, t')" "\<And>sniff. act \<noteq> RuleActionSniff sniff"
  shows "mt_conn t' = mt_conn t \<and> mt_buffers t' = mt_buffers t \<and> mt_packetConn t' = mt_packetConn t \<and>
    mt_packetBuffers t' = mt_packetBuffers t"
proof -
  let ?t = "case action_route_options act of None \<Rightarrow> t
      | Some opts \<Rightarrow> t\<lparr>mt_metadata := applyRouteOptions (rp_env P) opts (mt_metadata t)\<rparr>"
  have t: "mt_conn ?t = mt_conn t" "mt_buffers ?t = mt_buffers t" "mt_packetConn ?t = mt_packetConn t"
    "mt_packetBuffers ?t = mt_packetBuffers t"
    by (simp_all split: option.split)
  show ?thesis
  proof (cases act)
    case (RuleActionResolve resolve)
    obtain err t1 where r: "actionResolve P now resolve t = (err, t1)" by (cases "actionResolve P now resolve t")
    show ?thesis
      using assms(1) actionResolve_frame [OF r]
      by (auto simp: rule_step_def RuleActionResolve r split: option.splits)
  qed (use assms t in \<open>auto simp: rule_step_def Let_def split: if_splits\<close>)
qed

lemma rule_step_stream:
  assumes "mt_conn t \<noteq> None" "rule_step P now pre sb act t = (s, t')"
  shows "mt_conn t' \<noteq> None \<and> stream_total t' = stream_total t \<and>
    length (mt_buffers t') \<le> length (mt_buffers t) + (if \<exists>sniff. act = RuleActionSniff sniff then 1 else 0)"
proof (cases "\<exists>sniff. act = RuleActionSniff sniff")
  case True
  then obtain sniff where act: "act = RuleActionSniff sniff" by blast
  obtain err t1 where r: "actionSniff P sniff t = (err, t1)" by (cases "actionSniff P sniff t")
  show ?thesis
    using assms actionSniff_stream [OF assms(1) r]
    by (auto simp: rule_step_def act r stream_total_def split: if_splits option.splits)
next
  case False
  then show ?thesis using rule_step_frame [OF assms(2)] assms(1) by (auto simp: stream_total_def)
qed

lemma is_sniff_rule_iff: "rule_Action r = Some act \<Longrightarrow> is_sniff_rule r \<longleftrightarrow> (\<exists>sniff. act = RuleActionSniff sniff)"
  by (cases act) (simp_all add: is_sniff_rule_def)

lemma match_rules_stream:
  assumes "mt_conn t \<noteq> None" "match_rules P now pre sb i rules t = (err, hit, t')"
  shows "stream_total t' = stream_total t \<and> mt_conn t' \<noteq> None \<and>
    length (mt_buffers t') \<le> length (mt_buffers t) + length (filter is_sniff_rule rules)"
  using assms
proof (induction rules arbitrary: i t)
  case (Cons r rules)
  have t: "mt_conn (t\<lparr>mt_metadata := m1\<rparr>) \<noteq> None" "stream_total (t\<lparr>mt_metadata := m1\<rparr>) = stream_total t"
    "mt_buffers (t\<lparr>mt_metadata := m1\<rparr>) = mt_buffers t" for m1
    using Cons.prems(1) by (simp_all add: stream_total_def)
  from Cons.prems(2) show ?case
  proof (cases rule: match_rules_Cons)
    case (unmatched m1)
    then show ?thesis using Cons.IH [OF t(1) unmatched] t by auto
  next
    case (nil_action m1 e)
    then show ?thesis using t by auto
  next
    case (fatal act m1 e t2)
    then show ?thesis using rule_step_stream [OF t(1) fatal(2)] t is_sniff_rule_iff [OF fatal(1)] by auto
  next
    case (selected act m1 t2)
    then show ?thesis using rule_step_stream [OF t(1) selected(2)] t is_sniff_rule_iff [OF selected(1)] by auto
  next
    case (passed act m1 t2)
    note st = rule_step_stream [OF t(1) passed(2)]
    show ?thesis using Cons.IH [OF _ passed(3)] st t is_sniff_rule_iff [OF passed(1)] by auto
  qed
qed (simp add: stream_total_def)

lemma findDomain_frame:
  assumes "findDomain P fakeip t = (err, t')"
  shows "mt_conn t' = mt_conn t \<and> mt_buffers t' = mt_buffers t \<and> mt_packetConn t' = mt_packetConn t \<and>
    mt_packetBuffers t' = mt_packetBuffers t"
  using assms by (auto simp: findDomain_def Let_def split: if_splits option.splits sum.splits prod.splits)

lemma searchProcessInfo_frame:
  "mt_conn (searchProcessInfo P t) = mt_conn t \<and> mt_buffers (searchProcessInfo P t) = mt_buffers t \<and>
   mt_packetConn (searchProcessInfo P t) = mt_packetConn t \<and> mt_packetBuffers (searchProcessInfo P t) = mt_packetBuffers t"
  by (auto simp: searchProcessInfo_def Let_def split: option.splits prod.splits sum.splits)

lemma prepare_frame:
  assumes "prepare P fakeip t = (err, t')"
  shows "mt_conn t' = mt_conn t \<and> mt_buffers t' = mt_buffers t \<and> mt_packetConn t' = mt_packetConn t \<and>
    mt_packetBuffers t' = mt_packetBuffers t"
proof -
  let ?t = "(searchProcessInfo P t)\<lparr>mt_metadata := findNeighbor P (mt_metadata (searchProcessInfo P t))\<rparr>"
  obtain e t1 where f: "findDomain P fakeip ?t = (e, t1)" by (cases "findDomain P fakeip ?t")
  show ?thesis
    using assms findDomain_frame [OF f] searchProcessInfo_frame [of P t]
    by (auto simp: prepare_def Let_def f split: option.splits)
qed


definition packet_total :: "('k, 'm, 'p) matching \<Rightarrow> packet_buffer list option" where
  "packet_total t = map_option (\<lambda>conn. mt_packetBuffers t @ packets_of conn) (mt_packetConn t)"

lemma peek_reads_packets:
  assumes "peek_reads isTimeout L act sniffers packets m conn = (packets', fatal, err, m', conn')"
  shows "packets' @ packets_of conn' = packets @ packets_of conn"
  using assms
proof (induction isTimeout L act sniffers packets m conn rule: peek_reads.induct)
  case (4 isTimeout L act sniffers packets m packet destination conn)
  obtain e m1 where p: "peek_one L act sniffers m packet = (e, m1)" by (cases "peek_one L act sniffers m packet")
  then show ?case using 4 by (auto simp: Let_def split: if_splits)
qed (auto split: if_splits)

lemma sniff_packets_fresh:
  assumes "sniff_packets P act [] m conn = (packets, fatal, m', conn')"
  shows "packets @ packets_of conn' = packets_of conn"
proof -
  let ?s = "if a_PacketSniffers act \<noteq> [] then a_PacketSniffers act else default_packet_sniffers"
  obtain ps f e m1 c where r: "peek_reads (rp_IsTimeout P) (rp_sniff P) act ?s [] m conn = (ps, f, e, m1, c)"
    by (metis prod_cases5)
  show ?thesis
    using assms peek_reads_packets [OF r]
    by (cases "a_PacketSniffers act = [] \<and> a_StreamSniffers act \<noteq> [] \<or> sniffed_before act m"; cases f)
      (auto simp: sniff_packets_def Let_def r)
qed

lemma actionSniff_packets:
  assumes "mt_conn t = None" "mt_packetConn t \<noteq> None" "mt_packetBuffers t = []" "actionSniff P act t = (err, t')"
  shows "packet_total t' = packet_total t \<and> mt_conn t' = None \<and> mt_packetConn t' \<noteq> None"
proof -
  obtain conn where conn: "mt_packetConn t = Some conn" using assms(2) by blast
  obtain packets fatal m1 conn' where s: "sniff_packets P act [] (mt_metadata t) conn = (packets, fatal, m1, conn')"
    by (metis prod_cases4)
  show ?thesis
    using assms conn sniff_packets_fresh [OF s]
    by (cases "Skip (mt_metadata t) \<or> m_Protocol (mt_metadata t) \<noteq> []")
      (auto simp: actionSniff_def Let_def s packet_total_def)
qed

lemma rule_step_packets:
  assumes "mt_conn t = None" "mt_packetConn t \<noteq> None" "rule_step P now pre sb act t = (s, t')"
    and "(\<exists>sniff. act = RuleActionSniff sniff) \<Longrightarrow> mt_packetBuffers t = []"
  shows "packet_total t' = packet_total t \<and> mt_conn t' = None \<and> mt_packetConn t' \<noteq> None"
proof (cases "\<exists>sniff. act = RuleActionSniff sniff")
  case True
  then obtain sniff where act: "act = RuleActionSniff sniff" by blast
  obtain err t1 where r: "actionSniff P sniff t = (err, t1)" by (cases "actionSniff P sniff t")
  show ?thesis
    using assms actionSniff_packets [OF assms(1,2) assms(4) [OF True] r]
    by (auto simp: rule_step_def act r split: if_splits option.splits)
next
  case False
  then show ?thesis using rule_step_frame [OF assms(3)] assms(1,2) by (auto simp: packet_total_def)
qed

lemma match_rules_packets:
  assumes "mt_conn t = None" "mt_packetConn t \<noteq> None" "match_rules P now pre sb i rules t = (err, hit, t')"
    and "filter is_sniff_rule rules = [] \<or> mt_packetBuffers t = [] \<and> length (filter is_sniff_rule rules) \<le> 1"
  shows "packet_total t' = packet_total t \<and> mt_packetConn t' \<noteq> None"
  using assms
proof (induction rules arbitrary: i t)
  case (Cons r rules)
  have t: "mt_conn (t\<lparr>mt_metadata := m1\<rparr>) = None" "mt_packetConn (t\<lparr>mt_metadata := m1\<rparr>) \<noteq> None"
    "packet_total (t\<lparr>mt_metadata := m1\<rparr>) = packet_total t" "mt_packetBuffers (t\<lparr>mt_metadata := m1\<rparr>) = mt_packetBuffers t" for m1
    using Cons.prems(1,2) by (simp_all add: packet_total_def)
  have fresh: "mt_packetBuffers (t\<lparr>mt_metadata := m1\<rparr>) = []"
    if "rule_Action r = Some act" "\<exists>sniff. act = RuleActionSniff sniff" for act m1
    using Cons.prems(4) that is_sniff_rule_iff [OF that(1)] by auto
  from Cons.prems(3) show ?case
  proof (cases rule: match_rules_Cons)
    case (unmatched m1)
    then show ?thesis using Cons.IH [OF t(1,2) unmatched] t Cons.prems(4) by (auto split: if_splits)
  next
    case (nil_action m1 e)
    then show ?thesis using t by auto
  next
    case (fatal act m1 e t2)
    then show ?thesis using rule_step_packets [OF t(1,2) fatal(2) fresh [OF fatal(1)]] t by auto
  next
    case (selected act m1 t2)
    then show ?thesis using rule_step_packets [OF t(1,2) selected(2) fresh [OF selected(1)]] t by auto
  next
    case (passed act m1 t2)
    note st = rule_step_packets [OF t(1,2) passed(2) fresh [OF passed(1)]]
    have "filter is_sniff_rule rules = [] \<or> mt_packetBuffers t2 = [] \<and> length (filter is_sniff_rule rules) \<le> 1"
    proof (cases "is_sniff_rule r")
      case True
      then show ?thesis using Cons.prems(4) by simp
    next
      case False
      then have "mt_packetBuffers t2 = mt_packetBuffers t"
        using rule_step_frame [OF passed(2)] is_sniff_rule_iff [OF passed(1)] t by auto
      then show ?thesis using Cons.prems(4) False by simp
    qed
    then show ?thesis using Cons.IH [OF _ _ passed(3)] st t by auto
  qed
qed (simp add: packet_total_def)

end
