(* ===== verification/Route.thy ===== *)
theory Route
  imports Route_Match
begin

text \<open>
  Routing a connection (\<^verbatim>\<open>routeConnection\<close>, \<^verbatim>\<open>routePacketConnection\<close> and \<^verbatim>\<open>PreMatch\<close> of \<^verbatim>\<open>route/route.go\<close>, and the DNS
  hijacking of \<^verbatim>\<open>route/dns.go\<close>): the rule that \<open>Route_Match\<close> selects becomes an outbound, a refusal or a hijacked DNS
  connection.  What an outbound and an inbound implement beyond their names is a table of operations; the connections
  that wrap the one routed are a term that says in which order the wrappers were put on.
\<close>

subsection \<open>What the router routes to\<close>

record component_table =
  ob_Network :: "component \<Rightarrow> string list"
  ob_IsConnectionHandler :: "component \<Rightarrow> bool"
  ob_IsPacketConnectionHandler :: "component \<Rightarrow> bool"
  ob_NewDirectRouteConnection :: "component \<Rightarrow> (inbound_context \<Rightarrow> nat res) option"
  ib_IsTCPInjectable :: "component \<Rightarrow> bool"
  ib_IsUDPInjectable :: "component \<Rightarrow> bool"
  mux_Destination :: string
  vmess_MuxDestination :: string
  uot_MagicAddress :: string
  uot_LegacyMagicAddress :: string

record ('k, 'm, 's, 'p) Router =
  rt_inbound :: manager
  rt_endpoint :: manager
  rt_outbound :: OutboundManager
  rt_dns :: "('k, 'm) router_state"
  rt_fakeip :: "'s Transport option"
  rt_rules :: "route_rule list"
  rt_processCache :: 'p
  rt_trackers :: "nat list"

datatype conn = InputConn | CachedConn conn bytes | TrackedConn nat conn

datatype packet_conn =
  InputPacketConn | CachedPacketConn packet_conn packet_buffer | TrackedPacketConn nat packet_conn
| NATPacketConn packet_conn socksaddr socksaddr

text \<open>Where a connection goes.  \<open>Managed None\<close> is the connection manager called with a nil outbound.\<close>

datatype 'c outcome =
    Failed dns_error
  | Injected component inbound_context
  | Hijacked 'c "packet_buffer list" inbound_context
  | Handled component 'c inbound_context
  | Managed "component option" 'c inbound_context

subsection \<open>From the rule to the outbound\<close>

definition supported_outbound ::
  "component_table \<Rightarrow> ('k, 'm, 's, 'p) Router \<Rightarrow> string \<Rightarrow> string \<Rightarrow> string \<Rightarrow> component res" where
  "supported_outbound B r network label tag =
     (case Outbound_Get (rt_endpoint r) tag (rt_outbound r) of
        None \<Rightarrow> Inl (New (''outbound not found: '' @ tag))
      | Some outbound \<Rightarrow>
          if network \<notin> set (ob_Network B outbound) then Inl (New (label @ '' is not supported by outbound: '' @ c_Tag outbound))
          else Inr outbound)"

definition default_outbound ::
  "component_table \<Rightarrow> ('k, 'm, 's, 'p) Router \<Rightarrow> string \<Rightarrow> string \<Rightarrow> component res" where
  "default_outbound B r network message =
     (case om_defaultOutbound (rt_outbound r) of
        None \<Rightarrow> Inl (Panic ''invalid memory address or nil pointer dereference'')
      | Some outbound \<Rightarrow>
          if network \<notin> set (ob_Network B outbound) then Inl (New (message @ c_Tag outbound)) else Inr outbound)"

text \<open>\<^verbatim>\<open>Error\<close> of a reject action counts the rejection in the action of the rule.\<close>

fun route_with_action :: "route_rule \<Rightarrow> rule_action \<Rightarrow> route_rule" where
  "route_with_action (DefaultRule d) act = DefaultRule (d\<lparr>action := Some act\<rparr>)"
| "route_with_action (LogicalRule rules mode neg _) act = LogicalRule rules mode neg (Some act)"

definition reject_error ::
  "int \<Rightarrow> nat \<Rightarrow> RuleActionReject \<Rightarrow> ('k, 'm, 's, 'p) Router \<Rightarrow> error option \<times> ('k, 'm, 's, 'p) Router" where
  "reject_error now i reject r =
     (let (err, reject') = Reject_Error now reject
      in (case err of Inl e \<Rightarrow> Some e | Inr e \<Rightarrow> e,
          r\<lparr>rt_rules := (rt_rules r)[i := route_with_action (rt_rules r ! i) (RuleActionReject reject')]\<rparr>))"

datatype selection =
  SelectError error | SelectOutbound "component option" | SelectDefault | SelectHijack | SelectReject nat RuleActionReject

definition rule_selection ::
  "component_table \<Rightarrow> ('k, 'm, 's, 'p) Router \<Rightarrow> string \<Rightarrow> string \<Rightarrow> (route_rule \<times> nat) option \<Rightarrow> selection" where
  "rule_selection B r network label hit =
     (case hit of
        None \<Rightarrow> SelectDefault
      | Some (rule, i) \<Rightarrow>
          (case rule_Action rule of
             Some (RuleActionRoute outbound _) \<Rightarrow>
               (case supported_outbound B r network label outbound of Inl e \<Rightarrow> SelectError e | Inr c \<Rightarrow> SelectOutbound (Some c))
           | Some (RuleActionBypass outbound _) \<Rightarrow>
               if outbound = [] then SelectOutbound None
               else (case supported_outbound B r network label outbound of Inl e \<Rightarrow> SelectError e | Inr c \<Rightarrow> SelectOutbound (Some c))
           | Some (RuleActionReject reject) \<Rightarrow>
               if a_Method reject = RuleActionRejectMethodReply
               then SelectError (New (''reject method `reply` is not supported for '' @ label @ '' connections''))
               else SelectReject i reject
           | Some RuleActionHijackDNS \<Rightarrow> SelectHijack
           | _ \<Rightarrow> SelectOutbound None))"

definition start_matching ::
  "('k, 'm, 's, 'p) Router \<Rightarrow> inbound_context \<Rightarrow> stream_read list option \<Rightarrow> packet_read list option \<Rightarrow> ('k, 'm, 'p) matching" where
  "start_matching r m conn packetConn =
     \<lparr>mt_metadata = m, mt_dns = rt_dns r, mt_processCache = rt_processCache r, mt_conn = conn, mt_packetConn = packetConn,
      mt_buffers = [], mt_packetBuffers = []\<rparr>"

definition router_after :: "('k, 'm, 'p) matching \<Rightarrow> ('k, 'm, 's, 'p) Router \<Rightarrow> ('k, 'm, 's, 'p) Router" where
  "router_after t r = r\<lparr>rt_dns := mt_dns t, rt_processCache := mt_processCache t\<rparr>"

subsection \<open>Inbound detours\<close>

definition inject_detour ::
  "(component \<Rightarrow> bool) \<Rightarrow> string \<Rightarrow> ('k, 'm, 's, 'p) Router \<Rightarrow> inbound_context \<Rightarrow> 'c outcome" where
  "inject_detour injectable label r m =
     (if m_LastInbound m = m_InboundDetour m then Failed (OtherError (New (''routing loop on detour: '' @ m_InboundDetour m)))
      else case inbound_Get (rt_endpoint r) (m_InboundDetour m) (rt_inbound r) of
        None \<Rightarrow> Failed (OtherError (New (''inbound detour not found: '' @ m_InboundDetour m)))
      | Some detour \<Rightarrow>
          if \<not> injectable detour
          then Failed (OtherError (New (''inbound detour is not '' @ label @ '' injectable: '' @ m_InboundDetour m)))
          else Injected detour (m\<lparr>m_LastInbound := m_Inbound m, m_Inbound := m_InboundDetour m, m_InboundDetour := []\<rparr>))"

subsection \<open>Streams\<close>

definition TypeTun :: string where "TypeTun = ''tun''"

definition hijack_metadata :: "inbound_context \<Rightarrow> inbound_context" where
  "hijack_metadata m = m\<lparr>m_Destination := SocksaddrZero\<rparr>"

definition deprecated_destination :: "component_table \<Rightarrow> string \<Rightarrow> error option" where
  "deprecated_destination B fqdn =
     (if fqdn = mux_Destination B
      then Some (New ''global multiplex is deprecated since sing-box v1.7.0, enable multiplex in Inbound fields instead.'')
      else if fqdn = vmess_MuxDestination B
      then Some (New ''global multiplex (v2ray legacy) not supported since sing-box v1.7.0.'')
      else if fqdn = uot_MagicAddress B then Some (New ''global UoT not supported since sing-box v1.7.0.'')
      else if fqdn = uot_LegacyMagicAddress B then Some (New ''global UoT (legacy) not supported since sing-box v1.7.0.'')
      else None)"

text \<open>The connection handed over: the buffers are put on in the order they were read, then the trackers.\<close>

definition wrap_conn :: "bytes list \<Rightarrow> nat list \<Rightarrow> conn" where
  "wrap_conn buffers trackers = foldl (\<lambda>c t. TrackedConn t c) (foldl CachedConn InputConn buffers) trackers"

definition hand_over ::
  "(component \<Rightarrow> bool) \<Rightarrow> component option \<Rightarrow> 'c \<Rightarrow> inbound_context \<Rightarrow> 'c outcome" where
  "hand_over isHandler selected c m =
     (case selected of
        Some outbound \<Rightarrow> if isHandler outbound then Handled outbound c m else Managed (Some outbound) c m
      | None \<Rightarrow> Managed None c m)"

definition routeConnection ::
  "('k, 'm, 's, 'p) route_deps \<Rightarrow> component_table \<Rightarrow> int \<Rightarrow> inbound_context \<Rightarrow> stream_read list \<Rightarrow> ('k, 'm, 's, 'p) Router \<Rightarrow>
     conn outcome \<times> stream_read list \<times> ('k, 'm, 's, 'p) Router" where
  "routeConnection P B now m0 input r =
     (if m_InboundDetour m0 \<noteq> [] then (inject_detour (ib_IsTCPInjectable B) ''TCP'' r m0, input, r)
      else
        let m = m0\<lparr>m_Network := NetworkTCP\<rparr> in
        case deprecated_destination B (s_Fqdn (m_Destination m)) of
          Some e \<Rightarrow> (Failed (OtherError e), input, r)
        | None \<Rightarrow>
            if m_InboundType m = TypeTun \<and> m_Protocol m = ''dns'' then (Hijacked InputConn [] (hijack_metadata m), input, r)
            else
              let (err, hit, t) = matchRule P now (rt_fakeip r) False False (rt_rules r) (start_matching r m (Some input) None);
                  r1 = router_after t r; rest = the (mt_conn t); m1 = mt_metadata t;
                  deliver = (\<lambda>selected. hand_over (ob_IsConnectionHandler B) selected
                    (wrap_conn (mt_buffers t) (rt_trackers r)) m1)
              in case err of
                   Some e \<Rightarrow> (Failed e, rest, r1)
                 | None \<Rightarrow>
                     (case rule_selection B r NetworkTCP ''TCP'' hit of
                        SelectError e \<Rightarrow> (Failed (OtherError e), rest, r1)
                      | SelectReject i reject \<Rightarrow>
                          (case reject_error now i reject r1 of
                             (Some e, r2) \<Rightarrow> (Failed (OtherError e), rest, r2)
                           | (None, r2) \<Rightarrow> (Failed (OtherError (Sentinel ''nil'')), rest, r2))
                      | SelectHijack \<Rightarrow> (Hijacked (foldl CachedConn InputConn (mt_buffers t)) [] (hijack_metadata m1), rest, r1)
                      | SelectDefault \<Rightarrow>
                          (case default_outbound B r NetworkTCP ''TCP is not supported by default outbound: '' of
                             Inl e \<Rightarrow> (Failed (OtherError e), rest, r1)
                           | Inr outbound \<Rightarrow> (deliver (Some outbound), rest, r1))
                      | SelectOutbound selected \<Rightarrow> (deliver selected, rest, r1)))"

subsection \<open>Packets\<close>

definition wrap_packet_conn :: "packet_buffer list \<Rightarrow> nat list \<Rightarrow> inbound_context \<Rightarrow> packet_conn" where
  "wrap_packet_conn packets trackers m =
     (let c = foldl (\<lambda>c t. TrackedPacketConn t c) (foldl CachedPacketConn InputPacketConn packets) trackers
      in if m_FakeIP m then NATPacketConn c (m_OriginDestination m) (m_Destination m) else c)"

definition routePacketConnection ::
  "('k, 'm, 's, 'p) route_deps \<Rightarrow> component_table \<Rightarrow> int \<Rightarrow> inbound_context \<Rightarrow> packet_read list \<Rightarrow> ('k, 'm, 's, 'p) Router \<Rightarrow>
     packet_conn outcome \<times> packet_read list \<times> ('k, 'm, 's, 'p) Router" where
  "routePacketConnection P B now m0 input r =
     (if m_InboundDetour m0 \<noteq> [] then (inject_detour (ib_IsUDPInjectable B) ''UDP'' r m0, input, r)
      else
        let m = m0\<lparr>m_Network := NetworkUDP\<rparr> in
        if m_InboundType m = TypeTun \<and> m_Protocol m = ''dns'' then (Hijacked InputPacketConn [] (hijack_metadata m), input, r)
        else
          let (err, hit, t) = matchRule P now (rt_fakeip r) False False (rt_rules r) (start_matching r m None (Some input));
              r1 = router_after t r; rest = the (mt_packetConn t); m1 = mt_metadata t;
              deliver = (\<lambda>selected. hand_over (ob_IsPacketConnectionHandler B) selected
                (wrap_packet_conn (mt_packetBuffers t) (rt_trackers r) m1) m1)
          in case err of
               Some e \<Rightarrow> (Failed e, rest, r1)
             | None \<Rightarrow>
                 (case rule_selection B r NetworkUDP ''UDP'' hit of
                    SelectError e \<Rightarrow> (Failed (OtherError e), rest, r1)
                  | SelectReject i reject \<Rightarrow>
                      (case reject_error now i reject r1 of
                         (Some e, r2) \<Rightarrow> (Failed (OtherError e), rest, r2)
                       | (None, r2) \<Rightarrow> (Failed (OtherError (Sentinel ''nil'')), rest, r2))
                  | SelectHijack \<Rightarrow> (Hijacked InputPacketConn (mt_packetBuffers t) (hijack_metadata m1), rest, r1)
                  | SelectDefault \<Rightarrow>
                      (case default_outbound B r NetworkUDP ''UDP is not supported by outbound: '' of
                         Inl e \<Rightarrow> (Failed (OtherError e), rest, r1)
                       | Inr outbound \<Rightarrow> (deliver (Some outbound), rest, r1))
                  | SelectOutbound selected \<Rightarrow> (deliver selected, rest, r1)))"

subsection \<open>Before a connection is accepted\<close>

definition direct_route :: "component_table \<Rightarrow> component \<Rightarrow> (inbound_context \<Rightarrow> nat res) res" where
  "direct_route B outbound =
     (case ob_NewDirectRouteConnection B outbound of
        None \<Rightarrow> Inl (Panic ''interface conversion: missing method NewDirectRouteConnection'')
      | Some connect \<Rightarrow> Inr connect)"

text \<open>The outbound of the rule: \<open>Inr None\<close> leaves the connection to be routed later.\<close>

definition pre_match_outbound ::
  "component_table \<Rightarrow> int \<Rightarrow> bool \<Rightarrow> bool \<Rightarrow> string \<Rightarrow> (route_rule \<times> nat) option \<Rightarrow> ('k, 'm, 's, 'p) Router \<Rightarrow>
     (inbound_context \<Rightarrow> nat res) option res \<times> ('k, 'm, 's, 'p) Router" where
  "pre_match_outbound B now hasContext supportBypass network hit r =
     (let outbound = (\<lambda>tag.
            if \<not> hasContext then Inr None
            else case Outbound_Get (rt_endpoint r) tag (rt_outbound r) of
              None \<Rightarrow> Inl (New (''outbound not found: '' @ tag))
            | Some c \<Rightarrow>
                if network \<notin> set (ob_Network B c) then Inl (New (network @ '' is not supported by outbound: '' @ tag))
                else map_sum id Some (direct_route B c))
      in case hit of
           None \<Rightarrow>
             if network \<noteq> NetworkICMP then (Inr None, r)
             else (case default_outbound B r network (network @ '' is not supported by default outbound: '') of
                     Inl e \<Rightarrow> Inl e
                   | Inr c \<Rightarrow> map_sum id Some (direct_route B c), r)
         | Some (rule, i) \<Rightarrow>
             (case rule_Action rule of
                Some (RuleActionReject reject) \<Rightarrow>
                  if a_Method reject = RuleActionRejectMethodReply \<and> network = NetworkTCP
                  then (Inl (New ''reject method `reply` is not supported for TCP connections''), r)
                  else if a_Method reject = RuleActionRejectMethodReply \<and> network = NetworkUDP
                  then (Inl (New ''reject method `reply` is not supported for UDP connections''), r)
                  else (case reject_error now i reject r of (Some e, r1) \<Rightarrow> (Inl e, r1) | (None, r1) \<Rightarrow> (Inr None, r1))
              | Some (RuleActionBypass tag _) \<Rightarrow>
                  if supportBypass then (Inl (BypassedError (Sentinel ''bypass'')), r) else (outbound tag, r)
              | Some (RuleActionRoute tag _) \<Rightarrow> (outbound tag, r)
              | _ \<Rightarrow> (Inr None, r)))"

text \<open>The address of a domain that a direct route needs, of the family of the source.\<close>

definition direct_address ::
  "('k, 'm, 's, 'p) route_deps \<Rightarrow> int \<Rightarrow> ('k, 'm, 'p) matching \<Rightarrow> (addr res, dns_error) sum \<times> ('k, 'm, 'p) matching" where
  "direct_address P now t =
     (let m = mt_metadata t; v4 = sa_IsIPv4 (rp_env P) (m_Source m);
          (err, t1) = (if m_DestinationAddresses m \<noteq> [] then (None, t)
             else actionResolve P now \<lparr>a_ResolveServer = [], a_ResolveTimeout = 0,
               a_ResolveStrategy = (if v4 then DomainStrategyIPv4Only else DomainStrategyIPv6Only),
               a_ResolveDisableCache = False, a_ResolveDisableOptimisticCache = False, a_ResolveRewriteTTL = None,
               a_ResolveClientSubnet = \<lparr>p_Addr = AddrZero, p_Bits = 0\<rparr>\<rparr> t)
      in case err of
           Some e \<Rightarrow> (Inr e, t1)
         | None \<Rightarrow>
             (Inl (case List.find (if v4 then addr_Is4 else addr_Is6) (m_DestinationAddresses (mt_metadata t1)) of
                Some a \<Rightarrow> Inr a
              | None \<Rightarrow> Inl (New ((if v4 then ''no IPv4 address found for domain: '' else ''no IPv6 address found for domain: '')
                             @ s_Fqdn (m_Destination m)))), t1))"

definition PreMatch ::
  "('k, 'm, 's, 'p) route_deps \<Rightarrow> component_table \<Rightarrow> int \<Rightarrow> inbound_context \<Rightarrow> bool \<Rightarrow> bool \<Rightarrow> ('k, 'm, 's, 'p) Router \<Rightarrow>
     (nat option \<times> dns_error option) \<times> ('k, 'm, 's, 'p) Router" where
  "PreMatch P B now m hasContext supportBypass r =
     (let (err, hit, t) = matchRule P now (rt_fakeip r) True supportBypass (rt_rules r) (start_matching r m None None);
          m1 = mt_metadata t
      in case err of
           Some e \<Rightarrow> ((None, Some e), router_after t r)
         | None \<Rightarrow>
             (case pre_match_outbound B now hasContext supportBypass (m_Network m1) hit (router_after t r) of
                (Inl e, r1) \<Rightarrow> ((None, Some (OtherError e)), r1)
              | (Inr None, r1) \<Rightarrow> ((None, None), r1)
              | (Inr (Some connect), r1) \<Rightarrow>
                  if \<not> sa_IsDomain (rp_env P) (m_Destination m1) then
                    (case connect m1 of Inl e \<Rightarrow> ((None, Some (OtherError e)), r1) | Inr d \<Rightarrow> ((Some d, None), r1))
                  else
                    (case direct_address P now t of
                       (Inr e, t1) \<Rightarrow> ((None, Some e), router_after t1 r1)
                     | (Inl (Inl e), t1) \<Rightarrow> ((None, Some (OtherError e)), router_after t1 r1)
                     | (Inl (Inr address), t1) \<Rightarrow>
                         (case connect ((mt_metadata t1)\<lparr>m_Destination := \<lparr>s_Addr = address, s_Port = 0, s_Fqdn = []\<rparr>\<rparr>) of
                            Inl e \<Rightarrow> ((None, Some (OtherError e)), router_after t1 r1)
                          | Inr d \<Rightarrow> ((Some d, None), router_after t1 r1)))))"

subsection \<open>A hijacked DNS packet\<close>

record dns_packet_library =
  dp_Unpack :: "bytes \<Rightarrow> dns_msg res"
  dp_Len :: "dns_msg \<Rightarrow> nat"
  dp_Truncate :: "nat \<Rightarrow> dns_msg \<Rightarrow> dns_msg"
  dp_UDPSize :: "dns_msg \<Rightarrow> nat option"

definition no_options :: DNSQueryOptions where
  "no_options = \<lparr>qo_Strategy = DomainStrategyAsIS, qo_LookupStrategy = DomainStrategyAsIS, qo_Timeout = 0, qo_DisableCache = False,
     qo_DisableOptimisticCache = False, qo_RewriteTTL = None, qo_ClientSubnet = \<lparr>p_Addr = AddrZero, p_Bits = 0\<rparr>\<rparr>"

definition exchangeDNSPacket ::
  "('k, 'm, 's, 'p) route_deps \<Rightarrow> dns_packet_library \<Rightarrow> inbound_context \<Rightarrow> bytes \<Rightarrow> ('k, 'm) router_state \<Rightarrow>
     (dns_error + dns_msg) \<times> ('k, 'm) router_state" where
  "exchangeDNSPacket P L m buffer dns =
     (case dp_Unpack L buffer of
        Inl e \<Rightarrow> (Inl (OtherError (Cause e ''unpack request'')), dns)
      | Inr message \<Rightarrow>
          (case DnsRouter_Exchange (rp_dns P) m message None no_options dns of
             ((_, Some e), dns1) \<Rightarrow> (Inl e, dns1)
           | ((None, None), dns1) \<Rightarrow> (Inl (OtherError (Panic ''invalid memory address or nil pointer dereference'')), dns1)
           | ((Some response, None), dns1) \<Rightarrow>
               (Inr (TruncateDNSMessage (dp_Len L) (dp_Truncate L) (dp_UDPSize L message) response), dns1)))"


subsection \<open>No connection goes to a nil outbound\<close>

fun is_route_action :: "rule_action \<Rightarrow> bool" where
  "is_route_action (RuleActionRoute _ _) = True"
| "is_route_action (RuleActionRouteOptions _) = True"
| "is_route_action (RuleActionBypass _ _) = True"
| "is_route_action (RuleActionDirect _) = True"
| "is_route_action (RuleActionReject _) = True"
| "is_route_action RuleActionHijackDNS = True"
| "is_route_action (RuleActionSniff _) = True"
| "is_route_action (RuleActionResolve _) = True"
| "is_route_action _ = False"

text \<open>A rule of the route, not of the DNS rules; a nil action is an error when the rule matches.\<close>

definition routable :: "route_rule \<Rightarrow> bool" where
  "routable rule = (case rule_Action rule of None \<Rightarrow> True | Some act \<Rightarrow> is_route_action act)"

lemma NewRuleAction_route: "NewRuleAction A opts = Inr act \<Longrightarrow> (case act of None \<Rightarrow> True | Some a \<Rightarrow> is_route_action a)"
  by (auto simp: NewRuleAction_def Let_def split: if_splits sum.splits option.splits)

lemma NewRule_routable: "NewRule A E opts checkOutbound = Inr rule \<Longrightarrow> routable rule"
  by (subst (asm) NewRule.simps)
    (auto simp: routable_def NewDefaultRule_def NewLogicalRule.simps bind_res_Inr split: if_splits sum.splits
      dest: NewRuleAction_route)

lemma routable_with_action: "is_route_action act \<Longrightarrow> routable (route_with_action rule act)"
  by (cases rule) (simp_all add: routable_def)

lemma reject_error_routable:
  "reject_error now i reject r = (err, r') \<Longrightarrow> list_all routable (rt_rules r) \<Longrightarrow> list_all routable (rt_rules r')"
  by (cases "i < length (rt_rules r)")
    (auto simp: reject_error_def case_prod_unfold Let_def routable_with_action list_all_length nth_list_update)

definition usable :: "component_table \<Rightarrow> ('k, 'm, 's, 'p) Router \<Rightarrow> string \<Rightarrow> component \<Rightarrow> bool" where
  "usable B r network outbound \<longleftrightarrow>
     network \<in> set (ob_Network B outbound) \<and>
     (om_defaultOutbound (rt_outbound r) = Some outbound \<or>
      (\<exists>tag. Outbound_Get (rt_endpoint r) tag (rt_outbound r) = Some outbound))"

lemma supported_usable: "supported_outbound B r network label tag = Inr c \<Longrightarrow> usable B r network c"
  by (auto simp: supported_outbound_def usable_def split: option.splits if_splits)

lemma default_usable: "default_outbound B r network message = Inr c \<Longrightarrow> usable B r network c"
  by (auto simp: default_outbound_def usable_def split: option.splits if_splits)

lemma decided_selection:
  assumes "routable rule" "rule_Action rule = Some act" "decides False False act"
    and "rule_selection B r network label (Some (rule, i)) = SelectOutbound selected"
  shows "\<exists>c. selected = Some c \<and> usable B r network c"
  using assms
  by (cases act) (auto simp: rule_selection_def routable_def decides_def RuleActionTypeRoute_def RuleActionTypeReject_def
      RuleActionTypeHijackDNS_def RuleActionTypeRouteOptions_def RuleActionTypeDirect_def RuleActionTypeSniff_def
      RuleActionTypeResolve_def RuleActionTypeBypass_def split: sum.splits if_splits dest!: supported_usable)

text \<open>What a call that matched rules selects.\<close>

lemma matched_selection:
  assumes "list_all routable rules" "matchRule P now fakeip False False rules t = (None, hit, t')"
    and "rule_selection B r network label hit = SelectOutbound selected"
  shows "\<exists>c. selected = Some c \<and> usable B r network c"
proof (cases hit)
  case None
  then show ?thesis using assms(3) by (simp add: rule_selection_def)
next
  case (Some p)
  obtain rule i where hit: "hit = Some (rule, i)" using Some by (cases p) simp
  obtain t1 where "match_rules P now False False 0 rules t1 = (None, Some (rule, i), t')"
    using assms(2) by (auto simp: matchRule_def hit split: prod.splits option.splits)
  from match_rules_selected [OF this] obtain act where
    act: "i < length rules" "rules ! i = rule" "rule_Action rule = Some act" "decides False False act" by auto
  then have "routable rule" using assms(1) by (metis list_all_length)
  then show ?thesis using decided_selection [OF _ act(3,4)] assms(3) hit by blast
qed

definition goes_to :: "(component \<Rightarrow> bool) \<Rightarrow> 'c outcome \<Rightarrow> bool" where
  "goes_to ok out =
     (case out of
        Handled outbound _ _ \<Rightarrow> ok outbound
      | Managed selected _ _ \<Rightarrow> (case selected of None \<Rightarrow> False | Some outbound \<Rightarrow> ok outbound)
      | _ \<Rightarrow> True)"

lemma goes_to_simps [simp]:
  "goes_to ok (Failed e)" "goes_to ok (Injected d m)" "goes_to ok (Hijacked c ps m)"
  "goes_to ok (hand_over isHandler selected c m) \<longleftrightarrow> (\<exists>outbound. selected = Some outbound \<and> ok outbound)"
  "goes_to ok (inject_detour injectable label r m)"
  by (auto simp: goes_to_def hand_over_def inject_detour_def split: option.split)

lemma routeConnection_usable:
  assumes "list_all routable (rt_rules r)" "routeConnection P B now m input r = (out, rest, r')"
  shows "goes_to (usable B r NetworkTCP) out \<and> list_all routable (rt_rules r')"
proof -
  obtain err hit t where run: "matchRule P now (rt_fakeip r) False False (rt_rules r)
      (start_matching r (m\<lparr>m_Network := NetworkTCP\<rparr>) (Some input) None) = (err, hit, t)"
    by (metis prod_cases3)
  have sel: "\<exists>c. selected = Some c \<and> usable B r NetworkTCP c"
    if "err = None" "rule_selection B r NetworkTCP ''TCP'' hit = SelectOutbound selected" for selected
    using matched_selection [OF assms(1)] run that by blast
  have rules: "list_all routable (rt_rules (router_after t r))" using assms(1) by (simp add: router_after_def)
  show ?thesis
    using assms rules sel
    by (auto simp: routeConnection_def Let_def run split: if_splits option.splits selection.splits sum.splits prod.splits
        dest!: default_usable reject_error_routable)
qed

lemma routePacketConnection_usable:
  assumes "list_all routable (rt_rules r)" "routePacketConnection P B now m input r = (out, rest, r')"
  shows "goes_to (usable B r NetworkUDP) out \<and> list_all routable (rt_rules r')"
proof -
  obtain err hit t where run: "matchRule P now (rt_fakeip r) False False (rt_rules r)
      (start_matching r (m\<lparr>m_Network := NetworkUDP\<rparr>) None (Some input)) = (err, hit, t)"
    by (metis prod_cases3)
  have sel: "\<exists>c. selected = Some c \<and> usable B r NetworkUDP c"
    if "err = None" "rule_selection B r NetworkUDP ''UDP'' hit = SelectOutbound selected" for selected
    using matched_selection [OF assms(1)] run that by blast
  have rules: "list_all routable (rt_rules (router_after t r))" using assms(1) by (simp add: router_after_def)
  show ?thesis
    using assms rules sel
    by (auto simp: routePacketConnection_def Let_def run split: if_splits option.splits selection.splits sum.splits prod.splits
        dest!: default_usable reject_error_routable)
qed

lemma PreMatch_routable:
  assumes "list_all routable (rt_rules r)" "PreMatch P B now m hasContext supportBypass r = (res, r')"
  shows "list_all routable (rt_rules r')"
proof -
  obtain err hit t where run: "matchRule P now (rt_fakeip r) True supportBypass (rt_rules r) (start_matching r m None None) = (err, hit, t)"
    by (metis prod_cases3)
  have after: "rt_rules (router_after t r) = rt_rules r" for t :: "('a, 'b, 'd) matching" and r :: "('a, 'b, 'c, 'd) Router"
    by (simp add: router_after_def)
  obtain o1 r1 where pre: "pre_match_outbound B now hasContext supportBypass (m_Network (mt_metadata t)) hit (router_after t r) = (o1, r1)"
    by (metis surj_pair)
  have r1: "list_all routable (rt_rules r1)"
    using pre assms(1) after [of t r]
    by (auto simp: pre_match_outbound_def Let_def split: option.splits if_splits prod.splits rule_action.splits
        dest!: reject_error_routable)
  obtain d t1 where d: "direct_address P now t = (d, t1)" by (metis surj_pair)
  show ?thesis
    using assms r1 by (auto simp: PreMatch_def run Let_def pre d after split: option.splits sum.splits if_splits)
qed


subsection \<open>The bytes of a stream\<close>

text \<open>
  What reading a connection to its end gives.  A \<^verbatim>\<open>bufio.CachedConn\<close> gives its buffer first and then what the connection in it
  gives, a tracker passes the bytes on.
\<close>

definition conn_documented :: "(conn \<Rightarrow> bytes) \<Rightarrow> stream_read list \<Rightarrow> bool" where
  "conn_documented read_all rest \<longleftrightarrow>
     read_all InputConn = stream_bytes rest \<and>
     (\<forall>c buffer. read_all (CachedConn c buffer) = buffer @ read_all c) \<and>
     (\<forall>t c. read_all (TrackedConn t c) = read_all c)"

lemma read_wrapped:
  assumes "conn_documented read_all rest"
  shows "read_all (wrap_conn buffers trackers) = concat (rev buffers) @ stream_bytes rest"
proof -
  have cached: "read_all (foldl CachedConn c buffers) = concat (rev buffers) @ read_all c" for c
    using assms by (induction buffers arbitrary: c) (auto simp: conn_documented_def)
  have "read_all (foldl (\<lambda>c t. TrackedConn t c) c trackers) = read_all c" for c
    using assms by (induction trackers arbitrary: c) (auto simp: conn_documented_def)
  then show ?thesis using assms by (simp add: wrap_conn_def cached conn_documented_def)
qed

text \<open>The connection an outcome hands on, with the buffers that were put on it.\<close>

definition handed :: "conn outcome \<Rightarrow> conn option" where
  "handed out =
     (case out of Hijacked c _ _ \<Rightarrow> Some c | Handled _ c _ \<Rightarrow> Some c | Managed _ c _ \<Rightarrow> Some c | _ \<Rightarrow> None)"

lemma handed_simps [simp]:
  "handed (Failed e) = None" "handed (Injected d m) = None" "handed (Hijacked c ps m) = Some c"
  "handed (hand_over isHandler selected c m) = Some c" "handed (inject_detour injectable label r m) = None"
  by (auto simp: handed_def hand_over_def inject_detour_def split: option.split)

lemma matchRule_stream:
  assumes "matchRule P now fakeip pre sb rules t = (err, hit, t')" "mt_conn t = Some input" "mt_buffers t = []"
  shows "\<exists>rest. mt_conn t' = Some rest \<and> stream_bytes input = concat (mt_buffers t') @ stream_bytes rest \<and>
    length (mt_buffers t') \<le> length (filter is_sniff_rule rules)"
proof -
  obtain e t1 where p: "prepare P fakeip t = (e, t1)" by (cases "prepare P fakeip t")
  note frame = prepare_frame [OF p]
  show ?thesis
  proof (cases e)
    case None
    then have m: "match_rules P now pre sb 0 rules t1 = (err, hit, t')" using assms(1) by (simp add: matchRule_def p)
    have "mt_conn t1 \<noteq> None" using frame assms(2) by simp
    from match_rules_stream [OF this m] show ?thesis using frame assms(2,3) by (auto simp: stream_total_def)
  next
    case (Some e1)
    then show ?thesis using assms frame by (auto simp: matchRule_def p)
  qed
qed

text \<open>
  C11. Reading the connection that is handed to the outbound (or to the DNS hijacker) to its end gives every byte the client
  sent: the sniffed buffers and then the rest.  With at most one sniff action among the rules the bytes come in
  the order they were sent; with more the buffers come in the reverse of the order they were read in.
\<close>

theorem routed_stream_bytes:
  assumes "routeConnection P B now m input r = (out, rest, r')" "handed out = Some c" "conn_documented read_all rest"
  shows "\<exists>buffers. read_all c = concat (rev buffers) @ stream_bytes rest \<and>
      stream_bytes input = concat buffers @ stream_bytes rest \<and>
      length buffers \<le> length (filter is_sniff_rule (rt_rules r)) \<and>
      (length (filter is_sniff_rule (rt_rules r)) \<le> 1 \<longrightarrow> read_all c = stream_bytes input)"
proof -
  obtain err hit t where run: "matchRule P now (rt_fakeip r) False False (rt_rules r)
      (start_matching r (m\<lparr>m_Network := NetworkTCP\<rparr>) (Some input) None) = (err, hit, t)"
    by (metis prod_cases3)
  obtain rest' where t: "mt_conn t = Some rest'" "stream_bytes input = concat (mt_buffers t) @ stream_bytes rest'"
    "length (mt_buffers t) \<le> length (filter is_sniff_rule (rt_rules r))"
    using matchRule_stream [OF run] by (auto simp: start_matching_def)
  have one: "concat (rev bs) = concat bs" if "length bs \<le> 1" for bs :: "bytes list"
    using that by (cases bs) auto
  have plain: "\<exists>trackers. foldl CachedConn InputConn (mt_buffers t) = wrap_conn (mt_buffers t) trackers"
    by (rule exI [of _ "[]"]) (simp add: wrap_conn_def)
  consider (direct) "c = InputConn" "rest = input" | (wrapped) trackers where "c = wrap_conn (mt_buffers t) trackers" "rest = rest'"
  proof -
    have "c = InputConn \<and> rest = input \<or> (\<exists>trackers. c = wrap_conn (mt_buffers t) trackers \<and> rest = rest')"
      using assms(1,2) t(1) plain
      by (auto simp: routeConnection_def Let_def run split: if_splits option.splits selection.splits sum.splits prod.splits)
    then show thesis using direct wrapped by blast
  qed
  then show ?thesis
  proof cases
    case direct
    then show ?thesis using assms(3) by (intro exI [of _ "[]"]) (simp add: conn_documented_def)
  next
    case wrapped
    then show ?thesis
      using read_wrapped [OF assms(3)] t one [of "mt_buffers t"] by (intro exI [of _ "mt_buffers t"]) auto
  qed
qed


subsection \<open>An example\<close>

definition ex_direct :: component where "ex_direct = ex_outbound 1 ''direct'' []"

definition ex_table :: component_table where
  "ex_table =
     \<lparr>ob_Network = (\<lambda>_. [NetworkTCP, NetworkUDP]), ob_IsConnectionHandler = (\<lambda>_. False),
      ob_IsPacketConnectionHandler = (\<lambda>_. False), ob_NewDirectRouteConnection = (\<lambda>_. None), ib_IsTCPInjectable = (\<lambda>_. True),
      ib_IsUDPInjectable = (\<lambda>_. True), mux_Destination = ''mux'', vmess_MuxDestination = ''vmess'', uot_MagicAddress = ''uot'',
      uot_LegacyMagicAddress = ''legacy''\<rparr>"

definition ex_route_deps :: "(nat, unit, MemoryStorage + MemoryStorage, unit) route_deps" where
  "ex_route_deps =
     \<lparr>rp_env = plain_env, rp_sets = Map.empty, rp_dns = fake_deps (one_address (\<lambda>_. AddrZero)), rp_sniff = plain_sniff_library,
      rp_storage = either_ops memory_ops, rp_processSearcher = None, rp_LookupId = (\<lambda>_. None),
      rp_processCache = \<lparr>pl_Get = (\<lambda>_ p. (None, p)), pl_Add = (\<lambda>_ _ p. p)\<rparr>, rp_MyInterfaceAddress = None,
      rp_neighborResolver = None, rp_IsTimeout = (\<lambda>_. True)\<rparr>"

definition ex_router :: "route_rule list \<Rightarrow> (nat, unit, MemoryStorage + MemoryStorage, unit) Router" where
  "ex_router rules =
     \<lparr>rt_inbound = NewManager, rt_endpoint = NewManager,
      rt_outbound = (NewOutboundManager ''direct'')\<lparr>om_defaultOutbound := Some ex_direct\<rparr>, rt_dns = fake_state, rt_fakeip = None,
      rt_rules = rules, rt_processCache = (), rt_trackers = []\<rparr>"

definition sniff_rule :: "string \<Rightarrow> stream_sniffer list \<Rightarrow> packet_sniffer list \<Rightarrow> route_rule" where
  "sniff_rule name streams packets = DefaultRule \<lparr>entries = [], ruleSetItem = None, invert = False,
     action = Some (RuleActionSniff \<lparr>a_SnifferNames = [name], a_StreamSniffers = streams, a_PacketSniffers = packets,
       a_SniffTimeout = 0, a_OverrideDestination = False\<rparr>)\<rparr>"

lemma matches_everything: "\<not> isEmpty (withBase emptyRuleMatchState 0)"
  by code_simp

lemma sniff_rule_simps [simp]:
  "rule_Match E rs (sniff_rule name streams packets) m = (True, m)"
  "rule_Action (sniff_rule name streams packets) = Some (RuleActionSniff \<lparr>a_SnifferNames = [name], a_StreamSniffers = streams,
     a_PacketSniffers = packets, a_SniffTimeout = 0, a_OverrideDestination = False\<rparr>)"
  by (simp_all add: sniff_rule_def default_Match_def default_matchStates_def default_matchStatesWithBase_def no_items_def
      matches_everything)

definition two_sniffs :: "route_rule list" where
  "two_sniffs = [sniff_rule ''rdp'' [RDP] [], sniff_rule ''ssh'' [SSH] []]"

definition two_reads :: "stream_read list" where "two_reads = [ReadOnce [1] None, ReadOnce [2] None]"

lemma two_sniffs_peek:
  "PeekStream plain_sniff_library m two_reads [] [RDP] = (Some ErrInvalid, [1], m, [ReadOnce [2] None])"
  "PeekStream plain_sniff_library m [ReadOnce [2] None] [[1]] [SSH] = (Some ErrInvalid, [2], m, [])"
  by (simp_all add: PeekStream_def two_reads_def sniff_RDP_def rdp_header_def expect_single bind_res_def sniffed_def
      sniff_SSH_def Let_def str_bytes_def E_Errors_def)

lemmas ex_route_simps = routeConnection_def routePacketConnection_def InboundContextZero_def deprecated_destination_def ex_table_def
  SocksaddrZero_def TypeTun_def matchRule_def start_matching_def prepare_def searchProcessInfo_def ex_route_deps_def findNeighbor_def
  findDomain_def ex_router_def LookupReverseMapping_def fake_state_def setIPVersion_def plain_env_def Let_def rule_step_def
  actionSniff_def Skip_def sniff_stream_def sniffed_before_def ResetRuleCache_def ResetRuleMatchCache_def rule_selection_def
  default_outbound_def hand_over_def wants_more_def sniff_done_def

lemma two_sniffs_routed:
  "\<exists>m r'. routeConnection ex_route_deps ex_table 0 InboundContextZero two_reads (ex_router two_sniffs) =
     (Managed (Some ex_direct) (wrap_conn [[1], [2]] []) m, [], r')"
  by (simp add: ex_route_simps two_sniffs_def two_sniffs_peek)

fun read_conn :: "stream_read list \<Rightarrow> conn \<Rightarrow> bytes" where
  "read_conn rest InputConn = stream_bytes rest"
| "read_conn rest (CachedConn c buffer) = buffer @ read_conn rest c"
| "read_conn rest (TrackedConn t c) = read_conn rest c"

theorem routed_stream_bytes_witness:
  "\<exists>out rest r' c buffers. routeConnection ex_route_deps ex_table 0 InboundContextZero two_reads (ex_router two_sniffs) = (out, rest, r') \<and>
     handed out = Some c \<and> read_conn rest c = concat (rev buffers) @ stream_bytes rest \<and>
     stream_bytes two_reads = concat buffers @ stream_bytes rest \<and> read_conn rest c = [2, 1] \<and> stream_bytes two_reads = [1, 2]"
proof -
  let ?c = "wrap_conn [[1], [2]] []"
  obtain m r' where run: "routeConnection ex_route_deps ex_table 0 InboundContextZero two_reads (ex_router two_sniffs) =
      (Managed (Some ex_direct) ?c m, [], r')"
    using two_sniffs_routed by blast
  have c: "handed (Managed (Some ex_direct) ?c m) = Some ?c" by (simp add: handed_def)
  have doc: "conn_documented (read_conn []) []" by (simp add: conn_documented_def)
  obtain buffers where b: "read_conn [] ?c = concat (rev buffers) @ stream_bytes []"
    "stream_bytes two_reads = concat buffers @ stream_bytes []"
    using routed_stream_bytes [OF run c doc] by blast
  have "read_conn [] ?c = [2, 1]" "stream_bytes two_reads = [1, 2]" by (simp_all add: wrap_conn_def two_reads_def)
  then show ?thesis using run c b by blast
qed

subsection \<open>The packets of a packet connection\<close>

fun cached_packets :: "packet_conn \<Rightarrow> packet_buffer list" where
  "cached_packets InputPacketConn = []"
| "cached_packets (CachedPacketConn c packet) = packet # cached_packets c"
| "cached_packets (TrackedPacketConn t c) = cached_packets c"
| "cached_packets (NATPacketConn c origin destination) = cached_packets c"

definition handed_packets :: "packet_conn outcome \<Rightarrow> packet_buffer list option" where
  "handed_packets out =
     (case out of
        Hijacked c packets _ \<Rightarrow> Some (packets @ cached_packets c)
      | Handled _ c _ \<Rightarrow> Some (cached_packets c)
      | Managed _ c _ \<Rightarrow> Some (cached_packets c)
      | _ \<Rightarrow> None)"

lemma handed_packets_simps [simp]:
  "handed_packets (Failed e) = None" "handed_packets (Injected d m) = None"
  "handed_packets (Hijacked c ps m) = Some (ps @ cached_packets c)"
  "handed_packets (hand_over isHandler selected c m) = Some (cached_packets c)"
  "handed_packets (inject_detour injectable label r m) = None"
  by (auto simp: handed_packets_def hand_over_def inject_detour_def split: option.split)

lemma cached_wrapped: "cached_packets (wrap_packet_conn packets trackers m) = rev packets"
proof -
  have "cached_packets (foldl CachedPacketConn c packets) = rev packets @ cached_packets c" for c
    by (induction packets arbitrary: c) auto
  moreover have "cached_packets (foldl (\<lambda>c t. TrackedPacketConn t c) c trackers) = cached_packets c" for c
    by (induction trackers arbitrary: c) auto
  ultimately show ?thesis by (simp add: wrap_packet_conn_def Let_def)
qed

lemma matchRule_packets:
  assumes "matchRule P now fakeip pre sb rules t = (err, hit, t')" "mt_conn t = None" "mt_packetConn t = Some input"
    "mt_packetBuffers t = []" "length (filter is_sniff_rule rules) \<le> 1"
  shows "\<exists>rest. mt_packetConn t' = Some rest \<and> packets_of input = mt_packetBuffers t' @ packets_of rest"
proof -
  obtain e t1 where p: "prepare P fakeip t = (e, t1)" by (cases "prepare P fakeip t")
  note frame = prepare_frame [OF p]
  show ?thesis
  proof (cases e)
    case None
    then have m: "match_rules P now pre sb 0 rules t1 = (err, hit, t')" using assms(1) by (simp add: matchRule_def p)
    have "mt_conn t1 = None" "mt_packetConn t1 \<noteq> None" using frame assms(2,3) by simp_all
    from match_rules_packets [OF this m] show ?thesis using frame assms(3-5) by (auto simp: packet_total_def)
  next
    case (Some e1)
    then show ?thesis using assms frame by (auto simp: matchRule_def p)
  qed
qed

text \<open>
  C34. With at most one sniff action among the rules, the packets put on the connection that is handed on are those read
  from it while sniffing, each once.
\<close>

theorem routed_packets_once:
  assumes "routePacketConnection P B now m input r = (out, rest, r')" "handed_packets out = Some packets"
    and "length (filter is_sniff_rule (rt_rules r)) \<le> 1"
  shows "mset packets + mset (packets_of rest) = mset (packets_of input)"
proof -
  obtain err hit t where run: "matchRule P now (rt_fakeip r) False False (rt_rules r)
      (start_matching r (m\<lparr>m_Network := NetworkUDP\<rparr>) None (Some input)) = (err, hit, t)"
    by (metis prod_cases3)
  obtain rest' where t: "mt_packetConn t = Some rest'" "packets_of input = mt_packetBuffers t @ packets_of rest'"
    using matchRule_packets [OF run] assms(3) by (auto simp: start_matching_def)
  have "packets = [] \<and> rest = input \<or> mset packets = mset (mt_packetBuffers t) \<and> rest = rest'"
    using assms(1,2) t(1)
    by (auto simp: routePacketConnection_def Let_def run cached_wrapped split: if_splits option.splits selection.splits
        sum.splits prod.splits)
  then show ?thesis using t(2) by auto
qed

definition need_quic :: sniff_library where
  "need_quic = plain_sniff_library\<lparr>sl_QUICClientHello := \<lambda>m _. (Some ErrNeedMoreData, m)\<rparr>"

definition quic_packet :: packet_buffer where "quic_packet = ([7], SocksaddrZero)"

definition quic_sniff :: route_rule where "quic_sniff = sniff_rule ''quic'' [] [QUICClientHello]"

lemmas quic_simps = ex_route_simps quic_sniff_def quic_packet_def sniff_packets_def peek_one_def PeekPacket_def need_quic_def
  E_Errors_def wrap_packet_conn_def

theorem routed_packets_once_witness:
  "\<exists>out rest r'. routePacketConnection (ex_route_deps\<lparr>rp_sniff := need_quic\<rparr>) ex_table 0 InboundContextZero
       [ReadPacket (fst quic_packet) (snd quic_packet)] (ex_router [quic_sniff]) = (out, rest, r') \<and>
     handed_packets out = Some [quic_packet] \<and> packets_of rest = []"
proof -
  have "\<exists>m r'. routePacketConnection (ex_route_deps\<lparr>rp_sniff := need_quic\<rparr>) ex_table 0 InboundContextZero
       [ReadPacket (fst quic_packet) (snd quic_packet)] (ex_router [quic_sniff]) =
     (Managed (Some ex_direct) (CachedPacketConn InputPacketConn quic_packet) m, [], r')"
    by (simp add: quic_simps)
  then obtain m r' where run: "routePacketConnection (ex_route_deps\<lparr>rp_sniff := need_quic\<rparr>) ex_table 0 InboundContextZero
       [ReadPacket (fst quic_packet) (snd quic_packet)] (ex_router [quic_sniff]) =
     (Managed (Some ex_direct) (CachedPacketConn InputPacketConn quic_packet) m, [], r')"
    by blast
  have "handed_packets (Managed (Some ex_direct) (CachedPacketConn InputPacketConn quic_packet) m) = Some [quic_packet]"
    by (simp add: handed_packets_def)
  from routed_packets_once [OF run this] run this show ?thesis by (simp add: ex_router_def)
qed

text \<open>
  Two sniff actions repeat packets: when the first one waited for the rest of a fragmented QUIC hello until it timed out, the
  second one hands back the packets of the first together with its own, and they are put on the connection twice.
\<close>

theorem two_sniffs_repeat_packets:
  "\<exists>out r'. routePacketConnection (ex_route_deps\<lparr>rp_sniff := need_quic\<rparr>) ex_table 0 InboundContextZero
       [ReadPacket (fst quic_packet) (snd quic_packet)] (ex_router [quic_sniff, quic_sniff]) = (out, [], r') \<and>
     handed_packets out = Some [quic_packet, quic_packet]"
  by (simp add: quic_simps handed_packets_def)

subsection \<open>From a fake address back to its domain\<close>

lemma searchProcessInfo_destination: "m_Destination (mt_metadata (searchProcessInfo P t)) = m_Destination (mt_metadata t)"
  by (auto simp: searchProcessInfo_def Let_def split: option.splits prod.splits sum.splits)

lemma findNeighbor_destination: "m_Destination (findNeighbor P m) = m_Destination m"
  by (auto simp: findNeighbor_def Let_def split: option.splits)

lemma setIPVersion_frame:
  "m_Destination (setIPVersion E m) = m_Destination m" "m_OriginDestination (setIPVersion E m) = m_OriginDestination m"
  "m_FakeIP (setIPVersion E m) = m_FakeIP m"
  by (simp_all add: setIPVersion_def)

lemma prepare_fakeip:
  assumes "addr_IsValid (s_Addr (m_Destination (mt_metadata t)))"
    and "Store_Contains (tr_store transport) (s_Addr (m_Destination (mt_metadata t)))"
    and "Store_Lookup (rp_storage P) (s_Addr (m_Destination (mt_metadata t))) (tr_store transport) = Inr (Some domain)" "domain \<noteq> []"
  shows "\<exists>t1. prepare P (Some transport) t = (None, t1) \<and>
    m_Destination (mt_metadata t1) = \<lparr>s_Addr = AddrZero, s_Port = s_Port (m_Destination (mt_metadata t)), s_Fqdn = domain\<rparr> \<and>
    m_OriginDestination (mt_metadata t1) = m_Destination (mt_metadata t) \<and> m_FakeIP (mt_metadata t1)"
  using assms
  by (simp add: prepare_def findDomain_def Let_def searchProcessInfo_destination findNeighbor_destination setIPVersion_frame)

lemma created_found:
  assumes reach: "fakeip_reach c IsFqdn r4 r6 t" and r4: "range_ok False r4" and r6: "range_ok True r6"
    and created: "Store_Create (either_ops c) d v6 (tr_store t) = (Inr a, s)"
  shows "addr_IsValid a \<and> Store_Contains s a \<and> Store_Lookup (either_ops c) a s = Inr (Some d)"
proof -
  note I = reach_inv [OF reach r4 r6]
  have inv: "mem.inv_store c (tr_store t)" using I by simp
  have rng: "rng f s = (if f then r6 else r4)" for f
    using mem.create_rng [OF inv, of f d v6] I by (simp add: created)
  have p: "prefix_IsValid (rng v6 s)" "pool (rng v6 s) a"
    using mem.create_spec [OF inv created] I rng by simp_all
  then have "wide v6 (rng v6 s)" using r4 r6 rng by (auto simp: range_ok_def split: if_splits)
  then have "prefix_Contains (rng v6 s) a" using pool_in_range p(2) by blast
  moreover have "addr_IsValid a" using p(2) by (simp add: pool_def of_range_def)
  ultimately show ?thesis
    using mem.create_found [OF inv created memory_saves] by (auto simp: Store_Contains_def rng_def split: if_splits)
qed



end
