(* ===== verification/Route_Lifecycle.thy ===== *)
theory Route_Lifecycle
  imports Route
begin

text \<open>
  The router from its configuration on (\<^verbatim>\<open>route/router.go\<close>, \<^verbatim>\<open>route/rule_conds.go\<close>): \<^verbatim>\<open>Initialize\<close>, which builds the rules and
  the rule sets, and the conditions under which the router looks for processes and neighbors.  \<open>route_reach\<close> holds of every
  router that was initialized and has routed connections since, under any change of the managers behind it.
\<close>

subsection \<open>What the rules need\<close>

fun hasRule :: "(DefaultRuleOptions \<Rightarrow> bool) \<Rightarrow> rule_options \<Rightarrow> bool" where
  "hasRule c (OptionRule type opts mode rules neg act) =
     (if type = RuleTypeDefault then c opts else if type = RuleTypeLogical then list_ex (hasRule c) rules else False)"

fun hasDNSRule :: "(DefaultDNSRuleOptions \<Rightarrow> bool) \<Rightarrow> dns_rule_options \<Rightarrow> bool" where
  "hasDNSRule c (OptionRule type opts mode rules neg act) =
     (if type = RuleTypeDefault then c opts else if type = RuleTypeLogical then list_ex (hasDNSRule c) rules else False)"

definition isProcessRule :: "DefaultRuleOptions \<Rightarrow> bool" where
  "isProcessRule rule \<longleftrightarrow>
     elems (r_ProcessName rule) \<noteq> [] \<or> elems (r_ProcessPath rule) \<noteq> [] \<or> elems (r_ProcessPathRegex rule) \<noteq> [] \<or>
     elems (r_PackageName rule) \<noteq> [] \<or> elems (r_PackageNameRegex rule) \<noteq> [] \<or> elems (r_User rule) \<noteq> [] \<or> elems (r_UserID rule) \<noteq> []"

definition isProcessDNSRule :: "DefaultDNSRuleOptions \<Rightarrow> bool" where
  "isProcessDNSRule rule \<longleftrightarrow>
     elems (dr_ProcessName rule) \<noteq> [] \<or> elems (dr_ProcessPath rule) \<noteq> [] \<or> elems (dr_ProcessPathRegex rule) \<noteq> [] \<or>
     elems (dr_PackageName rule) \<noteq> [] \<or> elems (dr_PackageNameRegex rule) \<noteq> [] \<or> elems (dr_User rule) \<noteq> [] \<or>
     elems (dr_UserID rule) \<noteq> []"

definition isNeighborRule :: "DefaultRuleOptions \<Rightarrow> bool" where
  "isNeighborRule rule \<longleftrightarrow> elems (r_SourceMACAddress rule) \<noteq> [] \<or> elems (r_SourceHostname rule) \<noteq> []"

definition isNeighborDNSRule :: "DefaultDNSRuleOptions \<Rightarrow> bool" where
  "isNeighborDNSRule rule \<longleftrightarrow> elems (dr_SourceMACAddress rule) \<noteq> [] \<or> elems (dr_SourceHostname rule) \<noteq> []"

definition isWIFIRule :: "DefaultRuleOptions \<Rightarrow> bool" where
  "isWIFIRule rule \<longleftrightarrow> elems (r_WIFISSID rule) \<noteq> [] \<or> elems (r_WIFIBSSID rule) \<noteq> []"

definition isWIFIDNSRule :: "DefaultDNSRuleOptions \<Rightarrow> bool" where
  "isWIFIDNSRule rule \<longleftrightarrow> elems (dr_WIFISSID rule) \<noteq> [] \<or> elems (dr_WIFIBSSID rule) \<noteq> []"

text \<open>The field of \<^verbatim>\<open>NewRouter\<close> and its final value in \<^verbatim>\<open>Start\<close>, which also looks at the rule sets as they are then.\<close>

definition new_needFindProcess :: "rule_options list \<Rightarrow> dns_rule_options list \<Rightarrow> bool \<Rightarrow> bool" where
  "new_needFindProcess rules dnsRules findProcess \<longleftrightarrow>
     list_ex (hasRule isProcessRule) rules \<or> list_ex (hasDNSRule isProcessDNSRule) dnsRules \<or> findProcess"

definition start_needFindProcess :: "bool \<Rightarrow> RuleSetMetadata list \<Rightarrow> bool \<Rightarrow> bool" where
  "start_needFindProcess needFindProcess sets androidPlatform \<longleftrightarrow>
     needFindProcess \<or> list_ex ContainsProcessRule sets \<or> androidPlatform"

subsection \<open>Initialize\<close>

text \<open>What was appended before an error stays in the router.\<close>

fun init_rules ::
  "action_env \<Rightarrow> env \<Rightarrow> nat \<Rightarrow> rule_options list \<Rightarrow> route_rule list \<Rightarrow> error option \<times> route_rule list" where
  "init_rules A E i [] rules = (None, rules)"
| "init_rules A E i (options # rest) rules =
     (case bind_res (validateNoNestedRuleActions options False) (\<lambda>_. NewRule A E options False) of
        Inl e \<Rightarrow> (Some (Cause e (''parse rule['' @ itoa i @ '']'')), rules)
      | Inr rule \<Rightarrow> init_rules A E (Suc i) rest (rules @ [rule]))"

fun init_sets ::
  "rs_env \<Rightarrow> nat \<Rightarrow> rule_set_options list \<Rightarrow> rule_set list \<times> (string \<rightharpoonup> rule_set) \<Rightarrow>
     error option \<times> rule_set list \<times> (string \<rightharpoonup> rule_set)" where
  "init_sets R i [] (sets, table) = (None, sets, table)"
| "init_sets R i (options # rest) (sets, table) =
     (if table (so_Tag options) \<noteq> None then (Some (New (''duplicate rule-set tag: '' @ so_Tag options)), sets, table)
      else case NewRuleSet R options of
             Inl e \<Rightarrow> (Some (Cause e (''parse rule-set['' @ itoa i @ '']'')), sets, table)
           | Inr s \<Rightarrow> init_sets R (Suc i) rest (sets @ [s], table(so_Tag options \<mapsto> s)))"

definition Router_Initialize ::
  "action_env \<Rightarrow> env \<Rightarrow> rs_env \<Rightarrow> rule_options list \<Rightarrow> rule_set_options list \<Rightarrow>
     error option \<times> route_rule list \<times> rule_set list \<times> (string \<rightharpoonup> rule_set)" where
  "Router_Initialize A E R rules sets =
     (case init_rules A E 0 rules [] of
        (Some e, built) \<Rightarrow> (Some e, built, [], Map.empty)
      | (None, built) \<Rightarrow> (case init_sets R 0 sets ([], Map.empty) of (err, built_sets, table) \<Rightarrow> (err, built, built_sets, table)))"

lemma init_rules_routable: "list_all routable rules \<Longrightarrow> init_rules A E i opts rules = (err, built) \<Longrightarrow> list_all routable built"
  by (induction A E i opts rules rule: init_rules.induct)
    (auto simp: bind_res_Inr split: sum.splits dest: NewRule_routable)

lemma Router_Initialize_routable:
  assumes "Router_Initialize A E R rules sets = (err, built, built_sets, table)"
  shows "list_all routable built"
proof -
  obtain e b where i: "init_rules A E 0 rules [] = (e, b)" by (cases "init_rules A E 0 rules []")
  have "built = b" using assms by (auto simp: Router_Initialize_def i split: option.splits prod.splits)
  then show ?thesis using init_rules_routable [OF _ i] by simp
qed

subsection \<open>Routers that run\<close>

inductive route_reach :: "('k, 'm, 's, 'p) Router \<Rightarrow> bool" where
  reach_init: "Router_Initialize A E R rules sets = (None, rt_rules r, built_sets, table) \<Longrightarrow> route_reach r"
| reach_stream: "route_reach r \<Longrightarrow> routeConnection P B now m input r = (out, rest, r') \<Longrightarrow> route_reach r'"
| reach_packets: "route_reach r \<Longrightarrow> routePacketConnection P B now m packets r = (out, rest, r') \<Longrightarrow> route_reach r'"
| reach_pre_match: "route_reach r \<Longrightarrow> PreMatch P B now m hasContext supportBypass r = (res, r') \<Longrightarrow> route_reach r'"
| reach_managers: "route_reach r \<Longrightarrow> rt_rules r' = rt_rules r \<Longrightarrow> route_reach r'"

lemma route_reach_routable: "route_reach r \<Longrightarrow> list_all routable (rt_rules r)"
proof (induction rule: route_reach.induct)
  case (reach_init A E R rules sets r built_sets table)
  then show ?case by (rule Router_Initialize_routable)
next
  case (reach_stream r P B now m input out rest r')
  then show ?case using routeConnection_usable by blast
next
  case (reach_packets r P B now m packets out rest r')
  then show ?case using routePacketConnection_usable by blast
next
  case (reach_pre_match r P B now m hasContext supportBypass res r')
  then show ?case using PreMatch_routable by blast
qed simp

text \<open>
  C8. A running router hands every connection it routes to an outbound that exists and that supports the network of the
  connection: the outbound or endpoint of some tag, or the default outbound, and never nil.  Otherwise the connection fails,
  goes to the inbound of a detour or is answered as DNS.  The rules are those that \<^verbatim>\<open>Initialize\<close> built from the configuration,
  whatever connections were routed and however the managers changed since.\<close>

theorem connections_reach_usable_outbounds:
  assumes "route_reach r"
  shows "goes_to (usable B r NetworkTCP) (fst (routeConnection P B now m input r)) \<and>
    goes_to (usable B r NetworkUDP) (fst (routePacketConnection P B now m packets r))"
proof
  note rules = route_reach_routable [OF assms]
  obtain out rest r' where c: "routeConnection P B now m input r = (out, rest, r')" by (metis prod_cases3)
  show "goes_to (usable B r NetworkTCP) (fst (routeConnection P B now m input r))"
    using routeConnection_usable [OF rules c] by (simp add: c)
  obtain pout prest pr where p: "routePacketConnection P B now m packets r = (pout, prest, pr)" by (metis prod_cases3)
  show "goes_to (usable B r NetworkUDP) (fst (routePacketConnection P B now m packets r))"
    using routePacketConnection_usable [OF rules p] by (simp add: p)
qed


definition web_rule_options :: rule_options where
  "web_rule_options = OptionRule RuleTypeDefault web_options [] [] False RuleActionOptions_zero"

lemma web_initialized:
  "\<exists>rule. Router_Initialize plain_action_env plain_env R [web_rule_options] [] = (None, [rule], [], Map.empty)"
proof -
  have "DefaultRule_IsValid web_options"
    by (simp add: DefaultRule_IsValid_def web_options_def DefaultRuleOptions_zero_def RawDefaultRule_zero_def RawDefaultRule.defs)
  then have "\<exists>rule. NewRule plain_action_env plain_env web_rule_options False = Inr rule"
    by (simp add: web_rule_options_def NewRule.simps web_rule missing_outbound_def)
  moreover have "validateNoNestedRuleActions web_rule_options False = Inr ()"
    by (simp add: web_rule_options_def validateNoNestedRuleActions.simps RuleTypeLogical_def RuleTypeDefault_def)
  ultimately show ?thesis by (auto simp: Router_Initialize_def)
qed

lemma connections_reach_usable_outbounds_witness:
  "\<exists>rule. Router_Initialize plain_action_env plain_env plain_rs_env [web_rule_options] [] = (None, [rule], [], Map.empty) \<and>
     goes_to (usable ex_table (ex_router [rule]) NetworkTCP)
       (fst (routeConnection ex_route_deps ex_table 0 InboundContextZero two_reads (ex_router [rule])))"
proof -
  obtain rule where i: "Router_Initialize plain_action_env plain_env plain_rs_env [web_rule_options] [] = (None, [rule], [], Map.empty)"
    using web_initialized by blast
  have "route_reach (ex_router [rule])" using i by (intro reach_init) (simp add: ex_router_def)
  then show ?thesis using i connections_reach_usable_outbounds by blast
qed

end
