(* ===== verification/Group.thy ===== *)
theory Group
  imports Route
begin

text \<open>
  The outbound groups (\<^verbatim>\<open>protocol/group\<close>), with the history of URL tests (\<^verbatim>\<open>common/urltest\<close>) and the connections a
  group can interrupt (\<^verbatim>\<open>common/interrupt\<close>): \<^verbatim>\<open>Selector\<close>, whose member is chosen by hand and kept in the cache file, and
  \<^verbatim>\<open>URLTest\<close>, which chooses by measured delay.

  A member is a component with the table of what it implements; \<open>now_of\<close> is the \<^verbatim>\<open>Now\<close> of a member that is a group itself.
  A delay is kept as the 16-bit word that it is in the code.
\<close>

subsection \<open>Interrupting connections\<close>

text \<open>The connections of a group: an identity, and whether the connection came from outside.\<close>

type_synonym group_conns = "(nat \<times> bool) list"

definition NewConn :: "nat \<Rightarrow> bool \<Rightarrow> group_conns \<Rightarrow> group_conns" where
  "NewConn conn isExternal conns = conns @ [(conn, isExternal)]"

definition Conn_Close :: "nat \<Rightarrow> group_conns \<Rightarrow> group_conns" where
  "Conn_Close conn conns = filter (\<lambda>(c, _). c \<noteq> conn) conns"

text \<open>The connections that are closed, and those that stay.\<close>

definition Interrupt :: "bool \<Rightarrow> group_conns \<Rightarrow> nat list \<times> group_conns" where
  "Interrupt interruptExternalConnections conns =
     (map fst (filter (\<lambda>(_, isExternal). \<not> isExternal \<or> interruptExternalConnections) conns),
      filter (\<lambda>(_, isExternal). \<not> (\<not> isExternal \<or> interruptExternalConnections)) conns)"

subsection \<open>The selector\<close>

record selector_options =
  go_Outbounds :: "string list"
  go_Default :: string
  go_InterruptExistConnections :: bool

record Selector =
  se_Tag :: string
  se_tags :: "string list"
  se_defaultTag :: string
  se_outbounds :: "string \<rightharpoonup> component"
  se_selected :: "component option"
  se_conns :: group_conns
  se_interruptExternalConnections :: bool

definition NewSelector :: "string \<Rightarrow> selector_options \<Rightarrow> Selector res" where
  "NewSelector tag options =
     (if go_Outbounds options = [] then Inl (New ''missing tags'')
      else Inr \<lparr>se_Tag = tag, se_tags = go_Outbounds options, se_defaultTag = go_Default options, se_outbounds = Map.empty,
                se_selected = None, se_conns = [], se_interruptExternalConnections = go_InterruptExistConnections options\<rparr>)"

definition Selector_Network :: "component_table \<Rightarrow> Selector \<Rightarrow> string list" where
  "Selector_Network B s =
     (case se_selected s of None \<Rightarrow> [NetworkTCP, NetworkUDP] | Some selected \<Rightarrow> ob_Network B selected)"

text \<open>\<open>get\<close> is \<^verbatim>\<open>Outbound\<close> of the outbound manager.\<close>

fun load_members ::
  "(string \<Rightarrow> component option) \<Rightarrow> nat \<Rightarrow> string list \<Rightarrow> (string \<rightharpoonup> component) \<Rightarrow> error option \<times> (string \<rightharpoonup> component)" where
  "load_members get i [] outbounds = (None, outbounds)"
| "load_members get i (tag # tags) outbounds =
     (case get tag of
        None \<Rightarrow> (Some (New (''outbound '' @ itoa i @ '' not found: '' @ tag)), outbounds)
      | Some detour \<Rightarrow> load_members get (Suc i) tags (outbounds(tag \<mapsto> detour)))"

definition cached_choice :: "'db bbolt \<Rightarrow> 'db CacheFile option \<Rightarrow> Selector \<Rightarrow> component option" where
  "cached_choice B cacheFile s =
     (case cacheFile of
        None \<Rightarrow> None
      | Some c \<Rightarrow>
          if se_Tag s = [] then None
          else let selected = LoadSelected B (se_Tag s) c in if selected = [] then None else se_outbounds s selected)"

definition Selector_Start ::
  "'db bbolt \<Rightarrow> 'db CacheFile option \<Rightarrow> (string \<Rightarrow> component option) \<Rightarrow> Selector \<Rightarrow> error option \<times> Selector" where
  "Selector_Start B cacheFile get s =
     (let (err, outbounds) = load_members get 0 (se_tags s) (se_outbounds s); s1 = s\<lparr>se_outbounds := outbounds\<rparr>
      in case err of
           Some e \<Rightarrow> (Some e, s1)
         | None \<Rightarrow>
             (case cached_choice B cacheFile s1 of
                Some detour \<Rightarrow> (None, s1\<lparr>se_selected := Some detour\<rparr>)
              | None \<Rightarrow>
                  if se_defaultTag s1 \<noteq> [] then
                    (case se_outbounds s1 (se_defaultTag s1) of
                       None \<Rightarrow> (Some (New (''default outbound not found: '' @ se_defaultTag s1)), s1)
                     | Some detour \<Rightarrow> (None, s1\<lparr>se_selected := Some detour\<rparr>))
                  else case se_tags s1 of
                         [] \<Rightarrow> (Some (Panic ''index out of range''), s1)
                       | tag # _ \<Rightarrow> (None, s1\<lparr>se_selected := se_outbounds s1 tag\<rparr>)))"

definition Selector_Now :: "Selector \<Rightarrow> string" where
  "Selector_Now s = (case se_selected s of None \<Rightarrow> hd (se_tags s) | Some selected \<Rightarrow> c_Tag selected)"

text \<open>The answer, the connections closed, the selector and the cache file.  An error of storing is logged.\<close>

definition SelectOutbound ::
  "'db bbolt \<Rightarrow> string \<Rightarrow> Selector \<Rightarrow> 'db CacheFile option \<Rightarrow> bool \<times> nat list \<times> Selector \<times> 'db CacheFile option" where
  "SelectOutbound B tag s cacheFile =
     (case se_outbounds s tag of
        None \<Rightarrow> (False, [], s, cacheFile)
      | Some detour \<Rightarrow>
          let s1 = s\<lparr>se_selected := Some detour\<rparr>
          in if se_selected s = Some detour then (True, [], s1, cacheFile)
             else
               let cacheFile1 = (if se_Tag s = [] then cacheFile
                                 else map_option (\<lambda>c. snd (StoreSelected B (se_Tag s) tag c)) cacheFile);
                   (closed, conns) = Interrupt (se_interruptExternalConnections s) (se_conns s)
               in (True, closed, s1\<lparr>se_conns := conns\<rparr>, cacheFile1))"

text \<open>\<open>dial\<close> is the method of the member, \<open>isExternal\<close> the mark of the context.\<close>

definition Selector_Dial ::
  "(component \<Rightarrow> nat res) \<Rightarrow> bool \<Rightarrow> Selector \<Rightarrow> nat res \<times> Selector" where
  "Selector_Dial dial isExternal s =
     (case se_selected s of
        None \<Rightarrow> (Inl (Panic ''invalid memory address or nil pointer dereference''), s)
      | Some selected \<Rightarrow>
          (case dial selected of
             Inl e \<Rightarrow> (Inl e, s)
           | Inr conn \<Rightarrow> (Inr conn, s\<lparr>se_conns := NewConn conn isExternal (se_conns s)\<rparr>)))"

definition Selector_ListenPacket :: "(component \<Rightarrow> nat res) \<Rightarrow> bool \<Rightarrow> Selector \<Rightarrow> nat res \<times> Selector" where
  "Selector_ListenPacket listen isExternal s =
     (case se_selected s of
        None \<Rightarrow> (Inl (Panic ''invalid memory address or nil pointer dereference''), s)
      | Some selected \<Rightarrow>
          (case listen selected of
             Inl e \<Rightarrow> (Inl e, s)
           | Inr conn \<Rightarrow> (Inr conn, s\<lparr>se_conns := NewConn conn isExternal (se_conns s)\<rparr>)))"

definition Selector_NewConnection :: "component_table \<Rightarrow> Selector \<Rightarrow> conn \<Rightarrow> inbound_context \<Rightarrow> conn outcome" where
  "Selector_NewConnection B s c m = hand_over (ob_IsConnectionHandler B) (se_selected s) c m"

definition Selector_NewPacketConnection ::
  "component_table \<Rightarrow> Selector \<Rightarrow> packet_conn \<Rightarrow> inbound_context \<Rightarrow> packet_conn outcome" where
  "Selector_NewPacketConnection B s c m = hand_over (ob_IsPacketConnectionHandler B) (se_selected s) c m"

definition Selector_NewDirectRouteConnection :: "component_table \<Rightarrow> inbound_context \<Rightarrow> Selector \<Rightarrow> nat res" where
  "Selector_NewDirectRouteConnection B m s =
     (case se_selected s of
        None \<Rightarrow> Inl (Panic ''invalid memory address or nil pointer dereference'')
      | Some selected \<Rightarrow>
          if m_Network m \<notin> set (ob_Network B selected)
          then Inl (New (m_Network m @ '' is not supported by outbound: '' @ c_Tag selected))
          else bind_res (direct_route B selected) (\<lambda>connect. connect m))"

definition RealTag :: "(component \<Rightarrow> string option) \<Rightarrow> component \<Rightarrow> string" where
  "RealTag now_of detour = (case now_of detour of Some tag \<Rightarrow> tag | None \<Rightarrow> c_Tag detour)"

subsection \<open>The history of URL tests\<close>

record URLTestHistory =
  hi_Time :: int
  hi_Delay :: "16 word"

type_synonym history = "string \<rightharpoonup> URLTestHistory"

definition LoadURLTestHistory :: "string \<Rightarrow> history \<Rightarrow> URLTestHistory option" where
  "LoadURLTestHistory tag h = h tag"

definition DeleteURLTestHistory :: "string \<Rightarrow> history \<Rightarrow> history" where
  "DeleteURLTestHistory tag h = h(tag := None)"

definition StoreURLTestHistory :: "string \<Rightarrow> URLTestHistory \<Rightarrow> history \<Rightarrow> history" where
  "StoreURLTestHistory tag entry h = h(tag \<mapsto> entry)"

text \<open>
  One test: \<open>parse\<close> gives the host, the port and the scheme of a link; \<open>dial\<close> says whether the connection shakes hands on its
  first write, and \<open>head\<close> makes the request.  Both tell how long they took.
\<close>

definition URLTest ::
  "(string \<Rightarrow> (string \<times> string \<times> string) res) \<Rightarrow> (string \<Rightarrow> string \<Rightarrow> (bool \<times> duration) res) \<Rightarrow> (string \<Rightarrow> duration res) \<Rightarrow>
     string \<Rightarrow> 16 word res" where
  "URLTest parse dial head link0 =
     (let link = (if link0 = [] then ''https://www.gstatic.com/generate_204'' else link0) in
      bind_res (parse link) (\<lambda>(hostname, port0, scheme).
        let port = (if port0 \<noteq> [] then port0 else if scheme = ''http'' then ''80''
                    else if scheme = ''https'' then ''443'' else []) in
        bind_res (dial hostname port) (\<lambda>(needHandshake, dialed).
        bind_res (head link) (\<lambda>took.
          Inr (word_of_int ((if needHandshake then took else dialed + took) div 10 ^ 6))))))"

subsection \<open>The URL test group\<close>

text \<open>The ticker runs or is nil; \<open>ug_closed\<close> is the channel that \<^verbatim>\<open>Close\<close> closes.\<close>

record URLTestGroup =
  ug_outbounds :: "component list"
  ug_link :: string
  ug_interval :: duration
  ug_tolerance :: "16 word"
  ug_idleTimeout :: duration
  ug_history :: history
  ug_checking :: bool
  ug_selectedOutboundTCP :: "component option"
  ug_selectedOutboundUDP :: "component option"
  ug_conns :: group_conns
  ug_interruptExternalConnections :: bool
  ug_ticker :: bool
  ug_closed :: bool
  ug_started :: bool
  ug_lastActive :: int

definition DefaultURLTestInterval :: duration where "DefaultURLTestInterval = 3 * 60 * 10 ^ 9"
definition DefaultURLTestIdleTimeout :: duration where "DefaultURLTestIdleTimeout = 30 * 60 * 10 ^ 9"

definition NewURLTestGroup ::
  "history \<Rightarrow> component list \<Rightarrow> string \<Rightarrow> duration \<Rightarrow> 16 word \<Rightarrow> duration \<Rightarrow> bool \<Rightarrow> URLTestGroup res" where
  "NewURLTestGroup h outbounds link interval0 tolerance0 idleTimeout0 interruptExternal =
     (let interval = (if interval0 = 0 then DefaultURLTestInterval else interval0);
          tolerance = (if tolerance0 = 0 then 50 else tolerance0);
          idleTimeout = (if idleTimeout0 = 0 then DefaultURLTestIdleTimeout else idleTimeout0)
      in if interval > idleTimeout then Inl (New ''interval must be less or equal than idle_timeout'')
         else Inr \<lparr>ug_outbounds = outbounds, ug_link = link, ug_interval = interval, ug_tolerance = tolerance,
                   ug_idleTimeout = idleTimeout, ug_history = h, ug_checking = False, ug_selectedOutboundTCP = None,
                   ug_selectedOutboundUDP = None, ug_conns = [], ug_interruptExternalConnections = interruptExternal,
                   ug_ticker = False, ug_closed = False, ug_started = False, ug_lastActive = 0\<rparr>)"

definition URLTestGroup_PostStart :: "int \<Rightarrow> URLTestGroup \<Rightarrow> URLTestGroup" where
  "URLTestGroup_PostStart now g = g\<lparr>ug_started := True, ug_lastActive := now\<rparr>"

text \<open>\<^verbatim>\<open>Touch\<close> says whether it started the loop.\<close>

definition Touch :: "int \<Rightarrow> URLTestGroup \<Rightarrow> bool \<times> URLTestGroup" where
  "Touch now g =
     (if \<not> ug_started g then (False, g)
      else if ug_ticker g then (False, g\<lparr>ug_lastActive := now\<rparr>)
      else (True, g\<lparr>ug_ticker := True\<rparr>))"

definition URLTestGroup_Close :: "URLTestGroup \<Rightarrow> URLTestGroup res" where
  "URLTestGroup_Close g =
     (if \<not> ug_ticker g then Inr g
      else if ug_closed g then Inl (Panic ''close of closed channel'')
      else Inr (g\<lparr>ug_ticker := False, ug_closed := True\<rparr>))"

definition selected_for :: "string \<Rightarrow> URLTestGroup \<Rightarrow> component option" where
  "selected_for network g =
     (if network = NetworkTCP then ug_selectedOutboundTCP g
      else if network = NetworkUDP then ug_selectedOutboundUDP g else None)"

text \<open>The loop over the members; \<open>minDelay = 0\<close> stands for none so far.\<close>

fun select_min ::
  "component_table \<Rightarrow> (component \<Rightarrow> string option) \<Rightarrow> string \<Rightarrow> history \<Rightarrow> 16 word \<Rightarrow> component list \<Rightarrow>
     16 word \<times> component option \<Rightarrow> 16 word \<times> component option" where
  "select_min B now_of network h tolerance [] acc = acc"
| "select_min B now_of network h tolerance (detour # outbounds) (minDelay, minOutbound) =
     select_min B now_of network h tolerance outbounds
       (if network \<notin> set (ob_Network B detour) then (minDelay, minOutbound)
        else case LoadURLTestHistory (RealTag now_of detour) h of
          None \<Rightarrow> (minDelay, minOutbound)
        | Some entry \<Rightarrow>
            if minDelay = 0 \<or> minDelay > hi_Delay entry + tolerance then (hi_Delay entry, Some detour)
            else (minDelay, minOutbound))"

text \<open>What the loop starts with: the current selection, if it has a history.\<close>

definition select_start :: "(component \<Rightarrow> string option) \<Rightarrow> history \<Rightarrow> component option \<Rightarrow> 16 word \<times> component option" where
  "select_start now_of h selected =
     (case selected of
        None \<Rightarrow> (0, None)
      | Some c \<Rightarrow> (case LoadURLTestHistory (RealTag now_of c) h of
                     None \<Rightarrow> (0, None) | Some entry \<Rightarrow> (hi_Delay entry, Some c)))"

definition Select ::
  "component_table \<Rightarrow> (component \<Rightarrow> string option) \<Rightarrow> string \<Rightarrow> URLTestGroup \<Rightarrow> component option \<times> bool" where
  "Select B now_of network g =
     (case snd (select_min B now_of network (ug_history g) (ug_tolerance g) (ug_outbounds g)
        (select_start now_of (ug_history g) (selected_for network g))) of
        Some c \<Rightarrow> (Some c, True)
      | None \<Rightarrow> (List.find (\<lambda>c. network \<in> set (ob_Network B c)) (ug_outbounds g), False))"

text \<open>One half of \<^verbatim>\<open>performUpdateCheck\<close>: the new selection of a network and whether an old one was replaced.\<close>

definition update_selected :: "component option \<times> bool \<Rightarrow> component option \<Rightarrow> component option \<times> bool" where
  "update_selected choice selected =
     (case choice of
        (None, _) \<Rightarrow> (selected, False)
      | (Some c, exists) \<Rightarrow>
          if selected = None \<or> exists \<and> selected \<noteq> Some c then (Some c, selected \<noteq> None) else (selected, False))"

definition performUpdateCheck ::
  "component_table \<Rightarrow> (component \<Rightarrow> string option) \<Rightarrow> URLTestGroup \<Rightarrow> nat list \<times> URLTestGroup" where
  "performUpdateCheck B now_of g =
     (let (tcp, updated1) = update_selected (Select B now_of NetworkTCP g) (ug_selectedOutboundTCP g);
          g1 = g\<lparr>ug_selectedOutboundTCP := tcp\<rparr>;
          (udp, updated2) = update_selected (Select B now_of NetworkUDP g1) (ug_selectedOutboundUDP g1);
          g2 = g1\<lparr>ug_selectedOutboundUDP := udp\<rparr>
      in if updated1 \<or> updated2 then
           let (closed, conns) = Interrupt (ug_interruptExternalConnections g2) (ug_conns g2) in (closed, g2\<lparr>ug_conns := conns\<rparr>)
         else ([], g2))"

text \<open>
  The members that are tested, each under its real tag: the loop of \<^verbatim>\<open>urlTest\<close>.  The tests run at the same time; each
  touches the entry of its own tag.
\<close>

fun tests_due ::
  "(component \<Rightarrow> string option) \<Rightarrow> (string \<Rightarrow> component option) \<Rightarrow> int \<Rightarrow> duration \<Rightarrow> bool \<Rightarrow> history \<Rightarrow> string set \<Rightarrow>
     component list \<Rightarrow> (string \<times> string \<times> component) list" where
  "tests_due now_of get now interval force h checked [] = []"
| "tests_due now_of get now interval force h checked (detour # outbounds) =
     (let realTag = RealTag now_of detour; rest = (\<lambda>ch. tests_due now_of get now interval force h ch outbounds)
      in if realTag \<in> checked then rest checked
         else if \<not> force \<and> (case LoadURLTestHistory realTag h of None \<Rightarrow> False | Some entry \<Rightarrow> now - hi_Time entry < interval)
         then rest checked
         else case get realTag of
           None \<Rightarrow> rest (insert realTag checked)
         | Some p \<Rightarrow> (c_Tag detour, realTag, p) # rest (insert realTag checked))"

definition record_test ::
  "(component \<Rightarrow> 16 word res) \<Rightarrow> int \<Rightarrow> string \<times> string \<times> component \<Rightarrow> history \<Rightarrow> history" where
  "record_test test now = (\<lambda>(tag, realTag, p) h.
     case test p of
       Inl _ \<Rightarrow> DeleteURLTestHistory realTag h
     | Inr t \<Rightarrow> StoreURLTestHistory realTag \<lparr>hi_Time = now, hi_Delay = t\<rparr> h)"

definition test_results :: "(component \<Rightarrow> 16 word res) \<Rightarrow> (string \<times> string \<times> component) list \<Rightarrow> (string \<times> 16 word) list" where
  "test_results test due = concat (map (\<lambda>(tag, _, p). case test p of Inl _ \<Rightarrow> [] | Inr t \<Rightarrow> [(tag, t)]) due)"

text \<open>\<^verbatim>\<open>urlTest\<close>, the tests in the order of the list; a call during another one does nothing.\<close>

definition urlTest ::
  "component_table \<Rightarrow> (component \<Rightarrow> string option) \<Rightarrow> (string \<Rightarrow> component option) \<Rightarrow> (component \<Rightarrow> 16 word res) \<Rightarrow> int \<Rightarrow> bool \<Rightarrow>
     URLTestGroup \<Rightarrow> (string \<times> 16 word) list \<times> nat list \<times> URLTestGroup" where
  "urlTest B now_of get test now force g =
     (if ug_checking g then ([], [], g)
      else
        let due = tests_due now_of get now (ug_interval g) force (ug_history g) {} (ug_outbounds g);
            g1 = g\<lparr>ug_history := fold (record_test test now) due (ug_history g)\<rparr>;
            (closed, g2) = performUpdateCheck B now_of g1
        in (test_results test due, closed, g2))"

text \<open>\<^verbatim>\<open>loopCheck\<close> before its loop: the group was idle for longer than an interval.\<close>

definition loopCheck_begin ::
  "component_table \<Rightarrow> (component \<Rightarrow> string option) \<Rightarrow> (string \<Rightarrow> component option) \<Rightarrow> (component \<Rightarrow> 16 word res) \<Rightarrow> int \<Rightarrow>
     URLTestGroup \<Rightarrow> nat list \<times> URLTestGroup" where
  "loopCheck_begin B now_of get test now g =
     (if now - ug_lastActive g > ug_interval g
      then snd (urlTest B now_of get test now False (g\<lparr>ug_lastActive := now\<rparr>)) else ([], g))"

text \<open>A tick of \<^verbatim>\<open>loopCheck\<close>: the loop ends when the group was idle, and otherwise tests.\<close>

definition loopCheck_tick ::
  "component_table \<Rightarrow> (component \<Rightarrow> string option) \<Rightarrow> (string \<Rightarrow> component option) \<Rightarrow> (component \<Rightarrow> 16 word res) \<Rightarrow> int \<Rightarrow>
     URLTestGroup \<Rightarrow> bool \<times> nat list \<times> URLTestGroup" where
  "loopCheck_tick B now_of get test now g =
     (if now - ug_lastActive g > ug_idleTimeout g then (False, [], g\<lparr>ug_ticker := False\<rparr>)
      else let (_, closed, g1) = urlTest B now_of get test now False g in (True, closed, g1))"

subsection \<open>The URL test outbound\<close>

record url_test_options =
  uo_Outbounds :: "string list"
  uo_URL :: string
  uo_Interval :: duration
  uo_Tolerance :: "16 word"
  uo_IdleTimeout :: duration
  uo_InterruptExistConnections :: bool

definition NewURLTest :: "url_test_options \<Rightarrow> url_test_options res" where
  "NewURLTest options = (if uo_Outbounds options = [] then Inl (New ''missing tags'') else Inr options)"

fun url_test_members :: "(string \<Rightarrow> component option) \<Rightarrow> nat \<Rightarrow> string list \<Rightarrow> component list res" where
  "url_test_members get i [] = Inr []"
| "url_test_members get i (tag # tags) =
     (case get tag of
        None \<Rightarrow> Inl (New (''outbound '' @ itoa i @ '' not found: '' @ tag))
      | Some detour \<Rightarrow> map_sum id (Cons detour) (url_test_members get (Suc i) tags))"

definition URLTest_Start :: "history \<Rightarrow> (string \<Rightarrow> component option) \<Rightarrow> url_test_options \<Rightarrow> URLTestGroup res" where
  "URLTest_Start h get t =
     bind_res (url_test_members get 0 (uo_Outbounds t)) (\<lambda>outbounds.
       NewURLTestGroup h outbounds (uo_URL t) (uo_Interval t) (uo_Tolerance t) (uo_IdleTimeout t)
         (uo_InterruptExistConnections t))"

text \<open>\<^verbatim>\<open>DialContext\<close>: \<open>name\<close> is \<^verbatim>\<open>N.NetworkName\<close> of the network.\<close>

definition URLTest_Dial ::
  "component_table \<Rightarrow> (component \<Rightarrow> string option) \<Rightarrow> (component \<Rightarrow> nat res) \<Rightarrow> bool \<Rightarrow> int \<Rightarrow> string \<Rightarrow> string \<Rightarrow> URLTestGroup \<Rightarrow>
     nat res \<times> URLTestGroup" where
  "URLTest_Dial B now_of dial isExternal now name network g0 =
     (let g = snd (Touch now g0) in
      if name \<noteq> NetworkTCP \<and> name \<noteq> NetworkUDP then (Inl (Extend (Sentinel ''unknown network'') network), g)
      else
        case (case selected_for name g of Some c \<Rightarrow> Some c | None \<Rightarrow> fst (Select B now_of network g)) of
          None \<Rightarrow> (Inl (New ''missing supported outbound''), g)
        | Some outbound \<Rightarrow>
            (case dial outbound of
               Inr conn \<Rightarrow> (Inr conn, g\<lparr>ug_conns := NewConn conn isExternal (ug_conns g)\<rparr>)
             | Inl e \<Rightarrow> (Inl e, g\<lparr>ug_history := DeleteURLTestHistory (c_Tag outbound) (ug_history g)\<rparr>)))"

definition URLTest_ListenPacket ::
  "component_table \<Rightarrow> (component \<Rightarrow> string option) \<Rightarrow> (component \<Rightarrow> nat res) \<Rightarrow> bool \<Rightarrow> int \<Rightarrow> URLTestGroup \<Rightarrow>
     nat res \<times> URLTestGroup" where
  "URLTest_ListenPacket B now_of listen isExternal now g0 =
     (let g = snd (Touch now g0) in
      case (case ug_selectedOutboundUDP g of Some c \<Rightarrow> Some c | None \<Rightarrow> fst (Select B now_of NetworkUDP g)) of
        None \<Rightarrow> (Inl (New ''missing supported outbound''), g)
      | Some outbound \<Rightarrow>
          (case listen outbound of
             Inr conn \<Rightarrow> (Inr conn, g\<lparr>ug_conns := NewConn conn isExternal (ug_conns g)\<rparr>)
           | Inl e \<Rightarrow> (Inl e, g\<lparr>ug_history := DeleteURLTestHistory (c_Tag outbound) (ug_history g)\<rparr>)))"

definition URLTest_NewDirectRouteConnection ::
  "component_table \<Rightarrow> (component \<Rightarrow> string option) \<Rightarrow> int \<Rightarrow> inbound_context \<Rightarrow> URLTestGroup \<Rightarrow> nat res \<times> URLTestGroup" where
  "URLTest_NewDirectRouteConnection B now_of now m g0 =
     (let g = snd (Touch now g0) in
      (case (case ug_selectedOutboundTCP g of Some c \<Rightarrow> Some c | None \<Rightarrow> fst (Select B now_of NetworkTCP g)) of
         None \<Rightarrow> Inl (New ''missing supported outbound'')
       | Some selected \<Rightarrow>
           if m_Network m \<notin> set (ob_Network B selected)
           then Inl (New (m_Network m @ '' is not supported by outbound: '' @ c_Tag selected))
           else bind_res (direct_route B selected) (\<lambda>connect. connect m), g))"

definition URLTest_Now :: "URLTestGroup \<Rightarrow> string" where
  "URLTest_Now g =
     (case ug_selectedOutboundTCP g of
        Some c \<Rightarrow> c_Tag c
      | None \<Rightarrow> (case ug_selectedOutboundUDP g of Some c \<Rightarrow> c_Tag c | None \<Rightarrow> []))"


subsection \<open>The cached selection\<close>

text \<open>What was stored is what is loaded, under any cache ID.\<close>

lemma StoreSelected_LoadSelected:
  assumes B: "bbolt_documented B" and store: "StoreSelected B tag selected c = (Inr (), c1)"
  shows "LoadSelected B tag c1 = selected"
proof -
  define fn where "fn = (\<lambda>db. bind_res (createBucket B c db bucketSelected)
    (\<lambda>(db1, p). put_in B p (str_bytes tag) (str_bytes selected) db1))"
  have b: "batch B fn c = (Inr (), c1)" using store by (simp add: StoreSelected_def fn_def)
  then obtain db where f: "fn (cf_DB c) = Inr (db, ())" and c1: "c1 = c\<lparr>cf_DB := db\<rparr>"
    by (auto simp: batch_def split: sum.splits option.splits prod.splits error.splits)
  then obtain db1 p where cr: "createBucket B c (cf_DB c) bucketSelected = Inr (db1, p)"
    and put: "b_Put B db1 p (str_bytes tag) (str_bytes selected) = Inr db"
    by (auto simp: fn_def put_in_def bind_res_Inr)
  note d = documented_put(1) [OF B put]
  have p: "p = (case cf_cacheID c of None \<Rightarrow> [bucketSelected] | Some i \<Rightarrow> [i, bucketSelected])"
    and buckets: "b_Bucket B db1 q \<longleftrightarrow> q = p \<or> (\<exists>i. cf_cacheID c = Some i \<and> q = [i]) \<or> b_Bucket B (cf_DB c) q" for q
    using cr documented_create(1) [OF B] unfolding createBucket_def
    by (auto simp: bind_res_Inr split: option.splits)
  have path: "bucket B c1 (cf_DB c1) bucketSelected = Some p"
    using d buckets by (auto simp: c1 bucket_def p split: option.splits)
  show "LoadSelected B tag c1 = selected"
    unfolding LoadSelected_def path using d by (simp add: c1)
qed


lemma load_members_result:
  assumes "load_members get i tags m = (None, outbounds)"
  shows "outbounds = (\<lambda>t. if t \<in> set tags then get t else m t) \<and> (\<forall>t \<in> set tags. get t \<noteq> None)"
  using assms
proof (induction get i tags m rule: load_members.induct)
  case (2 get i tag tags m)
  then obtain detour where d: "get tag = Some detour" by (auto split: option.splits)
  have "outbounds = (\<lambda>t. if t \<in> set tags then get t else (m(tag \<mapsto> detour)) t) \<and> (\<forall>t \<in> set tags. get t \<noteq> None)"
    using "2.IH" [OF d] "2.prems" by (simp only: load_members.simps d option.case) metis
  then show ?case using d by (auto simp: fun_eq_iff)
qed simp

text \<open>A started selector has a member selected, and its members are the configured ones.\<close>

lemma Selector_Start_selected:
  assumes "Selector_Start B cacheFile get s = (None, s1)"
  shows "se_Tag s1 = se_Tag s \<and> se_tags s1 = se_tags s \<and> (\<forall>t \<in> set (se_tags s). get t \<noteq> None) \<and>
    se_outbounds s1 = (\<lambda>t. if t \<in> set (se_tags s) then get t else se_outbounds s t)"
    and "\<exists>t d. se_selected s1 = Some d \<and> se_outbounds s1 t = Some d"
proof -
  obtain err outbounds where l: "load_members get 0 (se_tags s) (se_outbounds s) = (err, outbounds)"
    by (cases "load_members get 0 (se_tags s) (se_outbounds s)")
  have err: "err = None" using assms unfolding Selector_Start_def Let_def l by (cases err) simp_all
  note m = load_members_result [OF l [unfolded err]]
  show "se_Tag s1 = se_Tag s \<and> se_tags s1 = se_tags s \<and> (\<forall>t \<in> set (se_tags s). get t \<noteq> None) \<and>
    se_outbounds s1 = (\<lambda>t. if t \<in> set (se_tags s) then get t else se_outbounds s t)"
    using assms m unfolding Selector_Start_def Let_def l err
    by (auto split: option.splits if_splits list.splits)
  show "\<exists>t d. se_selected s1 = Some d \<and> se_outbounds s1 t = Some d"
    using assms m unfolding Selector_Start_def Let_def l err cached_choice_def
    by (auto split: option.splits if_splits list.splits)
qed


text \<open>
  C18. A choice made by hand survives a restart.  When a selector that was started from its options takes another member and
  the cache file records it, the selector that is started next from the same options and that file has the same member
  selected, whatever the default of the options is.\<close>

theorem selection_survives_restart:
  assumes "bbolt_documented B"
    and new: "NewSelector group_tag options = Inr s0" and named: "group_tag \<noteq> []" "tag \<noteq> []"
    and start: "Selector_Start B cacheFile get s0 = (None, s)"
    and other: "se_selected s \<noteq> se_outbounds s tag"
    and select: "SelectOutbound B tag s (Some c) = (True, closed, s1, Some c1)"
    and stored: "fst (StoreSelected B group_tag tag c) = Inr ()"
  shows "\<exists>s2. Selector_Start B (Some c1) get s0 = (None, s2) \<and> se_selected s2 = get tag \<and> se_selected s1 = get tag"
proof -
  have s0: "se_Tag s0 = group_tag" "se_outbounds s0 = Map.empty"
    using new by (auto simp: NewSelector_def split: if_splits)
  note st = Selector_Start_selected(1) [OF start, unfolded s0]
  obtain detour where d: "se_outbounds s tag = Some detour"
    using select by (auto simp: SelectOutbound_def split: option.splits)
  then have tag: "tag \<in> set (se_tags s0)" "get tag = Some detour" using st by (auto split: if_splits)
  have s1: "se_selected s1 = Some detour" "c1 = snd (StoreSelected B group_tag tag c)"
    using select d other st named by (auto simp: SelectOutbound_def Let_def split: prod.splits)
  have load: "LoadSelected B group_tag c1 = tag"
    using StoreSelected_LoadSelected [OF assms(1), of group_tag tag c c1] stored s1(2)
    by (cases "StoreSelected B group_tag tag c") simp
  obtain err outbounds where l: "load_members get 0 (se_tags s0) (se_outbounds s0) = (err, outbounds)"
    by (cases "load_members get 0 (se_tags s0) (se_outbounds s0)")
  have err: "err = None" using start unfolding Selector_Start_def Let_def l by (cases err) simp_all
  have "outbounds tag = Some detour" using load_members_result [OF l [unfolded err]] tag by simp
  then show ?thesis
    unfolding Selector_Start_def Let_def l err cached_choice_def using load named tag s1 by (simp add: s0)
qed


definition ex_member :: "string \<Rightarrow> component option" where
  "ex_member = [''a'' \<mapsto> ex_outbound 1 ''a'' [], ''b'' \<mapsto> ex_outbound 2 ''b'' []]"

definition ex_selector_options :: selector_options where
  "ex_selector_options = \<lparr>go_Outbounds = [''a'', ''b''], go_Default = ''a'', go_InterruptExistConnections = False\<rparr>"

definition empty_cache :: "list_db CacheFile" where
  "empty_cache = NewCacheFile \<lparr>ld_buckets = [], ld_data = []\<rparr>
     \<lparr>co_CacheID = ''home'', co_StoreFakeIP = False, co_StoreRDRC = False, co_StoreDNS = False, co_RDRCTimeout = 0\<rparr>"

lemmas ex_selector_simps = NewSelector_def ex_selector_options_def ex_member_def ex_outbound_def Selector_Start_def cached_choice_def
  SelectOutbound_def Interrupt_def StoreSelected_def LoadSelected_def batch_def createBucket_def bucket_def put_in_def
  list_bbolt_def empty_cache_def NewCacheFile_def bucketSelected_def

lemma selection_survives_restart_witness:
  "\<exists>s0 s s1 s2 c1. NewSelector ''select'' ex_selector_options = Inr s0 \<and>
     Selector_Start list_bbolt (Some empty_cache) ex_member s0 = (None, s) \<and> Selector_Now s = ''a'' \<and>
     SelectOutbound list_bbolt ''b'' s (Some empty_cache) = (True, [], s1, Some c1) \<and>
     Selector_Start list_bbolt (Some c1) ex_member s0 = (None, s2) \<and> Selector_Now s2 = ''b''"
proof -
  obtain s0 where new: "NewSelector ''select'' ex_selector_options = Inr s0" by (simp add: ex_selector_simps)
  obtain s where start: "Selector_Start list_bbolt (Some empty_cache) ex_member s0 = (None, s)"
    and now: "Selector_Now s = ''a''" and other: "se_selected s \<noteq> se_outbounds s ''b''"
    using new by (auto simp: ex_selector_simps Selector_Now_def)
  have stored: "fst (StoreSelected list_bbolt ''select'' ''b'' empty_cache) = Inr ()"
    by (simp add: ex_selector_simps)
  obtain s1 c1 where select: "SelectOutbound list_bbolt ''b'' s (Some empty_cache) = (True, [], s1, Some c1)"
    using new start by (auto simp: ex_selector_simps)
  obtain s2 where "Selector_Start list_bbolt (Some c1) ex_member s0 = (None, s2)" "se_selected s2 = ex_member ''b''"
    using selection_survives_restart [OF list_bbolt_documented new _ _ start other select stored] by auto
  moreover have "Selector_Now s2 = ''b''" using calculation(2) by (simp add: Selector_Now_def ex_member_def ex_outbound_def)
  ultimately show ?thesis using new start now select by blast
qed


subsection \<open>The member with the least delay\<close>

text \<open>No delay is the zero that stands for none so far, and none wraps when the tolerance is added.\<close>

definition delays_fit :: "16 word \<Rightarrow> history \<Rightarrow> bool" where
  "delays_fit tolerance h \<longleftrightarrow> (\<forall>e \<in> ran h. 0 < hi_Delay e \<and> unat (hi_Delay e) + unat tolerance < 2 ^ 16)"

definition candidate ::
  "component_table \<Rightarrow> (component \<Rightarrow> string option) \<Rightarrow> string \<Rightarrow> history \<Rightarrow> component \<Rightarrow> URLTestHistory \<Rightarrow> bool" where
  "candidate B now_of network h c e \<longleftrightarrow> network \<in> set (ob_Network B c) \<and> h (RealTag now_of c) = Some e"

definition measured_as :: "(component \<Rightarrow> string option) \<Rightarrow> history \<Rightarrow> 16 word \<times> component option \<Rightarrow> bool" where
  "measured_as now_of h acc \<longleftrightarrow>
     acc = (0, None) \<or> (\<exists>c e. acc = (hi_Delay e, Some c) \<and> h (RealTag now_of c) = Some e)"

lemma delay_exceeds:
  assumes "delays_fit tolerance h" "h t = Some e"
  shows "d > hi_Delay e + tolerance \<longleftrightarrow> unat d > unat (hi_Delay e) + unat tolerance" "hi_Delay e \<noteq> 0"
proof -
  have "0 < hi_Delay e" "unat (hi_Delay e) + unat tolerance < 2 ^ 16"
    using assms unfolding delays_fit_def by (metis ranI)+
  then show "d > hi_Delay e + tolerance \<longleftrightarrow> unat d > unat (hi_Delay e) + unat tolerance" "hi_Delay e \<noteq> 0"
    by (auto simp: word_less_nat_alt unat_plus_if')
qed

lemma select_min_spec:
  assumes "delays_fit tolerance h" "measured_as now_of h (d, c)"
    and "select_min B now_of network h tolerance outbounds (d, c) = (m, r)"
  shows "measured_as now_of h (m, r) \<and> (c \<noteq> None \<longrightarrow> r \<noteq> None \<and> m \<le> d \<and> (r = c \<or> unat m + unat tolerance < unat d)) \<and>
    (r = c \<or> (\<exists>x \<in> set outbounds. r = Some x \<and> network \<in> set (ob_Network B x))) \<and>
    (\<forall>x \<in> set outbounds. \<forall>e. candidate B now_of network h x e \<longrightarrow>
       r \<noteq> None \<and> unat m \<le> unat (hi_Delay e) + unat tolerance)"
  using assms(2,3)
proof (induction outbounds arbitrary: d c)
  case (Cons x outbounds)
  show ?case
  proof (cases "\<exists>e. candidate B now_of network h x e")
    case False
    then have "select_min B now_of network h tolerance outbounds (d, c) = (m, r)"
      using Cons.prems(2) by (auto simp: candidate_def LoadURLTestHistory_def split: option.splits if_splits)
    then show ?thesis using Cons.IH [OF Cons.prems(1)] False by auto
  next
    case True
    then obtain e where e: "candidate B now_of network h x e" by blast
    then have h: "h (RealTag now_of x) = Some e" "network \<in> set (ob_Network B x)" by (simp_all add: candidate_def)
    have only: "candidate B now_of network h x e' \<Longrightarrow> e' = e" for e' using h by (simp add: candidate_def)
    note ex = delay_exceeds [OF assms(1) h(1)]
    have none: "d = 0 \<longleftrightarrow> c = None"
      using Cons.prems(1) delay_exceeds(2) [OF assms(1)] by (auto simp: measured_as_def)
    show ?thesis
    proof (cases "c = None \<or> unat d > unat (hi_Delay e) + unat tolerance")
      case replaced: True
      then have run: "select_min B now_of network h tolerance outbounds (hi_Delay e, Some x) = (m, r)"
        using Cons.prems(2) h ex none by (simp add: LoadURLTestHistory_def split: if_splits)
      have "measured_as now_of h (hi_Delay e, Some x)" using h by (auto simp: measured_as_def)
      note ih = Cons.IH [OF this run]
      then have le: "r \<noteq> None" "m \<le> hi_Delay e" by simp_all
      then have "unat m \<le> unat (hi_Delay e)" by (simp add: word_le_nat_alt)
      then show ?thesis using ih replaced h(2) only by (auto simp: word_le_nat_alt)
    next
      case kept: False
      then have run: "select_min B now_of network h tolerance outbounds (d, c) = (m, r)"
        using Cons.prems(2) h ex none by (simp add: LoadURLTestHistory_def split: if_splits)
      note ih = Cons.IH [OF Cons.prems(1) run]
      then have "r \<noteq> None" "unat m \<le> unat d" using kept by (auto simp: word_le_nat_alt)
      then show ?thesis using ih kept only by auto
    qed
  qed
qed (auto simp: measured_as_def)


lemma Select_spec:
  assumes "delays_fit (ug_tolerance g) (ug_history g)"
    and "x \<in> set (ug_outbounds g)" "candidate B now_of network (ug_history g) x e"
    and ok: "\<And>c. selected_for network g = Some c \<Longrightarrow> c \<in> set (ug_outbounds g) \<and> network \<in> set (ob_Network B c)"
  shows "\<exists>c e'. Select B now_of network g = (Some c, True) \<and> c \<in> set (ug_outbounds g) \<and>
    candidate B now_of network (ug_history g) c e' \<and> unat (hi_Delay e') \<le> unat (hi_Delay e) + unat (ug_tolerance g) \<and>
    (\<forall>p e0. selected_for network g = Some p \<and> ug_history g (RealTag now_of p) = Some e0 \<longrightarrow>
       c = p \<or> unat (hi_Delay e') + unat (ug_tolerance g) < unat (hi_Delay e0))"
proof -
  obtain d0 c0 where st: "select_start now_of (ug_history g) (selected_for network g) = (d0, c0)"
    by (cases "select_start now_of (ug_history g) (selected_for network g)")
  have m0: "measured_as now_of (ug_history g) (d0, c0)" and c0: "c0 \<noteq> None \<Longrightarrow> c0 = selected_for network g"
    using st by (auto simp: measured_as_def select_start_def LoadURLTestHistory_def split: option.splits)
  obtain m r where run: "select_min B now_of network (ug_history g) (ug_tolerance g) (ug_outbounds g) (d0, c0) = (m, r)"
    by (cases "select_min B now_of network (ug_history g) (ug_tolerance g) (ug_outbounds g) (d0, c0)")
  note sp = select_min_spec [OF assms(1) m0 run]
  have r: "r \<noteq> None" "unat m \<le> unat (hi_Delay e) + unat (ug_tolerance g)" using sp assms(2,3) by blast+
  then obtain c e' where c: "r = Some c" "m = hi_Delay e'" "ug_history g (RealTag now_of c) = Some e'"
    using sp by (auto simp: measured_as_def)
  have member: "c \<in> set (ug_outbounds g) \<and> network \<in> set (ob_Network B c)"
    using sp c(1) c0 ok by auto
  have "Select B now_of network g = (Some c, True)" using run c(1) by (simp add: Select_def st)
  moreover have "c = p \<or> unat (hi_Delay e') + unat (ug_tolerance g) < unat (hi_Delay e0)"
    if "selected_for network g = Some p" "ug_history g (RealTag now_of p) = Some e0" for p e0
  proof -
    have "c0 = Some p" "d0 = hi_Delay e0" using that st by (auto simp: select_start_def LoadURLTestHistory_def)
    then show ?thesis using sp c by auto
  qed
  ultimately show ?thesis using member c r(2) by (auto simp: candidate_def)
qed

text \<open>The selection of a network is a member that supports it.\<close>

definition selection_ok :: "component_table \<Rightarrow> URLTestGroup \<Rightarrow> bool" where
  "selection_ok B g \<longleftrightarrow> (\<forall>network c. selected_for network g = Some c \<longrightarrow>
     c \<in> set (ug_outbounds g) \<and> network \<in> set (ob_Network B c))"

lemma Select_member:
  assumes "Select B now_of network g = (Some c, found1)" "selection_ok B g"
  shows "c \<in> set (ug_outbounds g) \<and> network \<in> set (ob_Network B c)"
proof -
  have min: "snd (select_min B now_of network h tolerance outbounds (d, c0)) = Some c \<Longrightarrow>
      c0 = Some c \<or> c \<in> set outbounds \<and> network \<in> set (ob_Network B c)" for h tolerance outbounds d c0
    by (induction outbounds arbitrary: d c0) (fastforce split: if_splits option.splits)+
  have first: "List.find (\<lambda>c. network \<in> set (ob_Network B c)) outbounds = Some c \<Longrightarrow>
      c \<in> set outbounds \<and> network \<in> set (ob_Network B c)" for outbounds
    by (induction outbounds) (auto split: if_splits)
  show ?thesis
  proof (cases "snd (select_min B now_of network (ug_history g) (ug_tolerance g) (ug_outbounds g)
      (select_start now_of (ug_history g) (selected_for network g)))")
    case None
    then show ?thesis using assms(1) first [of "ug_outbounds g"] by (auto simp: Select_def)
  next
    case (Some c1)
    obtain d0 c0 where st: "select_start now_of (ug_history g) (selected_for network g) = (d0, c0)"
      by (cases "select_start now_of (ug_history g) (selected_for network g)")
    have "c0 \<noteq> None \<Longrightarrow> c0 = selected_for network g"
      using st by (auto simp: select_start_def split: option.splits)
    moreover have "c0 = Some c \<or> c \<in> set (ug_outbounds g) \<and> network \<in> set (ob_Network B c)"
      using min [of "ug_history g" "ug_tolerance g" "ug_outbounds g" d0 c0] Some assms(1) by (simp add: Select_def st)
    ultimately show ?thesis using assms(2) by (auto simp: selection_ok_def)
  qed
qed

lemma performUpdateCheck_selected:
  assumes "performUpdateCheck B now_of g = (closed, g')" "network \<in> {NetworkTCP, NetworkUDP}"
  shows "selected_for network g' = fst (update_selected (Select B now_of network g) (selected_for network g))"
proof -
  have udp: "Select B now_of NetworkUDP (g\<lparr>ug_selectedOutboundTCP := tcp\<rparr>) = Select B now_of NetworkUDP g" for tcp
    by (simp add: Select_def selected_for_def NetworkTCP_def NetworkUDP_def split: option.split)
  show ?thesis
    using assms unfolding performUpdateCheck_def Let_def udp
    by (auto simp: selected_for_def NetworkTCP_def NetworkUDP_def split: prod.splits if_splits)
qed

lemma performUpdateCheck_frame:
  assumes "performUpdateCheck B now_of g = (closed, g')"
  shows "ug_outbounds g' = ug_outbounds g" "ug_history g' = ug_history g" "ug_tolerance g' = ug_tolerance g"
  using assms unfolding performUpdateCheck_def Let_def by (auto split: prod.splits if_splits)

lemma selected_for_network: "selected_for network g = Some c \<Longrightarrow> network \<in> {NetworkTCP, NetworkUDP}"
  by (auto simp: selected_for_def split: if_splits)

lemma performUpdateCheck_ok:
  assumes "performUpdateCheck B now_of g = (closed, g')" "selection_ok B g"
  shows "selection_ok B g'"
proof -
  have "c \<in> set (ug_outbounds g) \<and> network \<in> set (ob_Network B c)" if "selected_for network g' = Some c" for network c
  proof -
    have "fst (update_selected (Select B now_of network g) (selected_for network g)) = Some c"
      using performUpdateCheck_selected [OF assms(1) selected_for_network [OF that]] that by simp
    then have "(\<exists>f. Select B now_of network g = (Some c, f)) \<or> selected_for network g = Some c"
      by (auto simp: update_selected_def split: prod.splits option.splits if_splits)
    then show ?thesis using Select_member [OF _ assms(2)] assms(2) unfolding selection_ok_def by blast
  qed
  then show ?thesis by (simp add: selection_ok_def performUpdateCheck_frame [OF assms(1)])
qed


subsection \<open>The tests\<close>

lemma tests_due_distinct:
  "distinct (map (fst \<circ> snd) (tests_due now_of get now interval force h checked outbounds)) \<and>
   set (map (fst \<circ> snd) (tests_due now_of get now interval force h checked outbounds)) \<inter> checked = {}"
proof (induction outbounds arbitrary: checked)
  case (Cons c outbounds)
  define r where "r = RealTag now_of c"
  define T where "T = (\<lambda>ch. tests_due now_of get now interval force h ch outbounds)"
  have ih: "distinct (map (fst \<circ> snd) (T ch)) \<and> set (map (fst \<circ> snd) (T ch)) \<inter> ch = {}" for ch
    unfolding T_def by (rule Cons.IH)
  have "tests_due now_of get now interval force h checked (c # outbounds) \<in>
      {T checked, T (insert r checked)} \<union> (if r \<in> checked then {} else (\<lambda>p. (c_Tag c, r, p) # T (insert r checked)) ` UNIV)"
    unfolding tests_due.simps Let_def by (simp add: r_def [symmetric] T_def split: option.split)
  then consider "tests_due now_of get now interval force h checked (c # outbounds) = T checked"
    | "tests_due now_of get now interval force h checked (c # outbounds) = T (insert r checked)"
    | p where "tests_due now_of get now interval force h checked (c # outbounds) = (c_Tag c, r, p) # T (insert r checked)"
        "r \<notin> checked"
    by (auto simp del: tests_due.simps split: if_splits)
  then show ?case
    by cases (use ih [of checked] ih [of "insert r checked"] in \<open>simp_all del: tests_due.simps add: o_def\<close>)
qed simp

text \<open>The tests run at the same time: the history does not depend on the order in which they end.\<close>

lemma url_tests_commute:
  assumes "mset due = mset (tests_due now_of get now interval force h {} outbounds)"
  shows "fold (record_test test now) due h1 =
    fold (record_test test now) (tests_due now_of get now interval force h {} outbounds) h1"
proof -
  let ?due = "tests_due now_of get now interval force h {} outbounds"
  have inj: "inj_on (fst \<circ> snd) (set ?due)"
    using tests_due_distinct [of now_of get now interval force h "{}" outbounds] by (simp add: distinct_map)
  have "record_test test now x \<circ> record_test test now y = record_test test now y \<circ> record_test test now x"
    if "x \<in> set ?due" "y \<in> set ?due" for x y
  proof (cases "x = y")
    case False
    then have "fst (snd x) \<noteq> fst (snd y)" using inj that by (auto simp: inj_on_def)
    then show ?thesis
      by (auto simp: fun_eq_iff record_test_def DeleteURLTestHistory_def StoreURLTestHistory_def split: sum.splits prod.splits)
  qed simp
  then have "fold (record_test test now) ?due = fold (record_test test now) due"
    by (rule fold_multiset_equiv) (simp_all add: assms)
  then show ?thesis by simp
qed

text \<open>The groups that start from options, at any time and with any answers of the tests and of the dialers.\<close>

inductive ug_reach :: "component_table \<Rightarrow> URLTestGroup \<Rightarrow> bool" for B where
  ug_new: "URLTest_Start h get options = Inr g \<Longrightarrow> ug_reach B g"
| ug_post_start: "ug_reach B g \<Longrightarrow> ug_reach B (URLTestGroup_PostStart now g)"
| ug_touch: "ug_reach B g \<Longrightarrow> ug_reach B (snd (Touch now g))"
| ug_test: "ug_reach B g \<Longrightarrow> ug_reach B (snd (snd (urlTest B now_of get test now force g)))"
| ug_history: "ug_reach B g \<Longrightarrow> ug_reach B (g\<lparr>ug_history := h\<rparr>)"
| ug_begin: "ug_reach B g \<Longrightarrow> ug_reach B (snd (loopCheck_begin B now_of get test now g))"
| ug_tick: "ug_reach B g \<Longrightarrow> ug_reach B (snd (snd (loopCheck_tick B now_of get test now g)))"
| ug_dial: "ug_reach B g \<Longrightarrow> ug_reach B (snd (URLTest_Dial B now_of dial isExternal now name network g))"
| ug_listen: "ug_reach B g \<Longrightarrow> ug_reach B (snd (URLTest_ListenPacket B now_of listen isExternal now g))"
| ug_direct: "ug_reach B g \<Longrightarrow> ug_reach B (snd (URLTest_NewDirectRouteConnection B now_of now m g))"
| ug_conn_close: "ug_reach B g \<Longrightarrow> ug_reach B (g\<lparr>ug_conns := Conn_Close conn (ug_conns g)\<rparr>)"
| ug_close: "ug_reach B g \<Longrightarrow> URLTestGroup_Close g = Inr g1 \<Longrightarrow> ug_reach B g1"

lemma selection_ok_update [simp]:
  "selection_ok B (g\<lparr>ug_history := h\<rparr>) = selection_ok B g" "selection_ok B (g\<lparr>ug_lastActive := t\<rparr>) = selection_ok B g"
  "selection_ok B (g\<lparr>ug_ticker := f\<rparr>) = selection_ok B g" "selection_ok B (g\<lparr>ug_closed := f\<rparr>) = selection_ok B g"
  "selection_ok B (g\<lparr>ug_started := f\<rparr>) = selection_ok B g" "selection_ok B (g\<lparr>ug_conns := cs\<rparr>) = selection_ok B g"
  by (simp_all add: selection_ok_def selected_for_def)

lemma urlTest_ok:
  assumes "selection_ok B g"
  shows "selection_ok B (snd (snd (urlTest B now_of get test now force g)))"
proof -
  let ?g = "g\<lparr>ug_history := fold (record_test test now)
    (tests_due now_of get now (ug_interval g) force (ug_history g) {} (ug_outbounds g)) (ug_history g)\<rparr>"
  have "selection_ok B ?g" using assms by simp
  then show ?thesis
    using assms performUpdateCheck_ok [OF surjective_pairing, of B ?g now_of] by (simp add: urlTest_def Let_def split: prod.split)
qed

lemma ug_reach_ok: "ug_reach B g \<Longrightarrow> selection_ok B g"
proof (induction rule: ug_reach.induct)
  case (ug_new h get options g)
  then show ?case
    by (auto simp: URLTest_Start_def bind_res_Inr NewURLTestGroup_def Let_def selection_ok_def selected_for_def split: if_splits)
next
  case (ug_begin g now_of get test now)
  then show ?case by (simp add: loopCheck_begin_def urlTest_ok)
next
  case (ug_tick g now_of get test now)
  then show ?case using urlTest_ok [OF ug_tick.IH, of now_of get test now False]
    by (auto simp: loopCheck_tick_def split: prod.splits)
next
  case (ug_close g g1)
  then show ?case by (auto simp: URLTestGroup_Close_def split: if_splits)
next
  case (ug_dial g now_of dial isExternal now name network)
  then have "selection_ok B (snd (Touch now g))" by (simp add: Touch_def)
  then show ?case unfolding URLTest_Dial_def Let_def
    by (cases "case selected_for name (snd (Touch now g)) of Some c \<Rightarrow> Some c | None \<Rightarrow> fst (Select B now_of network (snd (Touch now g)))")
      (simp_all split: sum.split)
next
  case (ug_listen g now_of listen isExternal now)
  then have "selection_ok B (snd (Touch now g))" by (simp add: Touch_def)
  then show ?case unfolding URLTest_ListenPacket_def Let_def
    by (cases "case ug_selectedOutboundUDP (snd (Touch now g)) of Some c \<Rightarrow> Some c
        | None \<Rightarrow> fst (Select B now_of NetworkUDP (snd (Touch now g)))")
      (simp_all split: sum.split)
qed (simp_all add: urlTest_ok URLTestGroup_PostStart_def Touch_def URLTest_NewDirectRouteConnection_def Let_def)


lemma update_selected_exists: "fst (update_selected (Some c, True) selected) = Some c"
  by (simp add: update_selected_def)

lemma performUpdateCheck_closes:
  assumes "performUpdateCheck B now_of g = (closed, g')" "closed \<noteq> []"
  shows "\<exists>network p. selected_for network g = Some p \<and> selected_for network g' \<noteq> Some p"
proof -
  have upd: "snd (update_selected choice selected) \<Longrightarrow>
      \<exists>p. selected = Some p \<and> fst (update_selected choice selected) \<noteq> Some p" for choice selected
    by (auto simp: update_selected_def split: prod.splits option.splits if_splits)
  have "snd (update_selected (Select B now_of NetworkTCP g) (ug_selectedOutboundTCP g)) \<or>
      snd (update_selected (Select B now_of NetworkUDP g) (ug_selectedOutboundUDP g))"
  proof -
    have "Select B now_of NetworkUDP (g\<lparr>ug_selectedOutboundTCP := tcp\<rparr>) = Select B now_of NetworkUDP g" for tcp
      by (simp add: Select_def selected_for_def NetworkTCP_def NetworkUDP_def split: option.split)
    then show ?thesis
      using assms unfolding performUpdateCheck_def Let_def by (auto split: prod.splits if_splits)
  qed
  moreover have "selected_for NetworkTCP g = ug_selectedOutboundTCP g" "selected_for NetworkUDP g = ug_selectedOutboundUDP g"
    by (simp_all add: selected_for_def NetworkTCP_def NetworkUDP_def)
  ultimately show ?thesis
    using upd performUpdateCheck_selected [OF assms(1), of NetworkTCP] performUpdateCheck_selected [OF assms(1), of NetworkUDP]
    by (metis insertCI)
qed



subsection \<open>An example\<close>

definition ex_url_options :: "16 word \<Rightarrow> url_test_options" where
  "ex_url_options tolerance = \<lparr>uo_Outbounds = [''a'', ''b''], uo_URL = [], uo_Interval = 0, uo_Tolerance = tolerance, uo_IdleTimeout = 0,
     uo_InterruptExistConnections = False\<rparr>"

text \<open>The group of the two members, with their delays as the results of one test.\<close>

definition ex_delays :: "16 word \<Rightarrow> 16 word \<Rightarrow> component \<Rightarrow> 16 word res" where
  "ex_delays a b c = Inr (if c_Tag c = ''a'' then a else b)"

definition ex_tested :: "16 word \<Rightarrow> 16 word \<Rightarrow> 16 word \<Rightarrow> (string \<times> 16 word) list \<times> nat list \<times> URLTestGroup" where
  "ex_tested tolerance a b =
     (case URLTest_Start Map.empty ex_member (ex_url_options tolerance) of
        Inr g \<Rightarrow> urlTest ex_table (\<lambda>_. None) ex_member (ex_delays a b) 0 True g)"

lemmas ex_url_simps = ex_tested_def URLTest_Start_def ex_url_options_def ex_member_def ex_outbound_def NewURLTestGroup_def
  DefaultURLTestInterval_def DefaultURLTestIdleTimeout_def urlTest_def Let_def RealTag_def LoadURLTestHistory_def record_test_def
  ex_delays_def StoreURLTestHistory_def performUpdateCheck_def Select_def select_start_def selected_for_def update_selected_def
  test_results_def ex_table_def NetworkTCP_def NetworkUDP_def Interrupt_def


text \<open>The two limits of the comparison.  A member that answers in less than a millisecond has delay zero, which the loop reads as
  no delay so far, and a member of 100 ms is selected.  With a tolerance of 65000 the sum of 600 and the tolerance wraps to
  64, and the member of 600 ms takes the place of the one of 100 ms.\<close>

theorem url_test_limits:
  "map_option c_Tag (selected_for NetworkTCP (snd (snd (ex_tested 0 0 100)))) = Some ''b'' \<and>
   map_option c_Tag (selected_for NetworkTCP (snd (snd (ex_tested 65000 100 600)))) = Some ''b''"
  by (simp add: ex_url_simps)

end
