(* ===== verification/Srs.thy ===== *)
theory Srs
  imports Rule_Set_Lifecycle Byte_Order
begin

text \<open>
  The binary format of rule sets (\<^verbatim>\<open>common/srs\<close>): \<^verbatim>\<open>Write\<close>, which \<^verbatim>\<open>sing-box rule-set compile\<close> runs on a source
  rule set, and \<^verbatim>\<open>Read\<close>, which the rule sets run on a binary file.

  A reader is the bytes that are left and the error that follows them, \<^verbatim>\<open>io.EOF\<close> unless the compressed data is damaged.
  A writer appends to a list of bytes.  \<^verbatim>\<open>zlib\<close> and the succinct sets of \<^verbatim>\<open>sing/common/domain\<close> and \<^verbatim>\<open>netipx\<close> are
  arguments; a matcher tells how many bytes it read.  \<^verbatim>\<open>binary.ReadUvarint\<close> is written out, and its value is
  below 2 to the power of 64.  The run time refuses to make a slice beyond a limit, which is the panic of \<^verbatim>\<open>makeslice\<close>.
\<close>

unbundle bit_operations_syntax

subsection \<open>Readers\<close>

type_synonym srs_reader = "bytes \<times> error"
type_synonym 'a srs_parser = "srs_reader \<Rightarrow> ('a \<times> srs_reader) res"

record srs_library =
  sr_NewReader :: "bytes \<Rightarrow> srs_reader res"
  sr_Compress :: "bytes \<Rightarrow> bytes"
  sr_WriteUvarint :: "nat \<Rightarrow> bytes"
  sr_ReadMatcher :: "srs_reader \<Rightarrow> (domain_matcher \<times> nat) res"
  sr_NewMatcher :: "string list \<Rightarrow> string list \<Rightarrow> bool \<Rightarrow> domain_matcher"
  sr_WriteMatcher :: "domain_matcher \<Rightarrow> bytes"
  sr_DumpMatcher :: "domain_matcher \<Rightarrow> string listable \<times> string listable"
  sr_ReadAdGuardMatcher :: "srs_reader \<Rightarrow> (adguard_matcher \<times> nat) res"
  sr_WriteAdGuardMatcher :: "adguard_matcher \<Rightarrow> bytes"
  sr_DumpAdGuardMatcher :: "adguard_matcher \<Rightarrow> string listable"
  sr_Ranges :: "ip_elem list \<Rightarrow> (addr \<times> addr) list"
  sr_Prefixes :: "ipset \<Rightarrow> string list"
  sr_maxSlice :: nat

definition and_then :: "'a srs_parser \<Rightarrow> ('a \<Rightarrow> 'b srs_parser) \<Rightarrow> 'b srs_parser" where
  "and_then p f r = bind_res (p r) (\<lambda>(x, r1). f x r1)"

definition return_value :: "'a \<Rightarrow> 'a srs_parser" where
  "return_value x r = Inr (x, r)"

definition fail_with :: "error \<Rightarrow> 'a srs_parser" where
  "fail_with e r = Inl e"

definition srs_ReadByte :: "8 word srs_parser" where
  "srs_ReadByte = (\<lambda>(bs, e). case bs of [] \<Rightarrow> Inl e | b # rest \<Rightarrow> Inr (b, (rest, e)))"

definition srs_ReadFull :: "nat \<Rightarrow> bytes srs_parser" where
  "srs_ReadFull n = (\<lambda>(bs, e).
     if n \<le> length bs then Inr (take n bs, (drop n bs, e))
     else Inl (if bs \<noteq> [] \<and> e = io_EOF then io_ErrUnexpectedEOF else e))"

definition ErrVarintOverflow :: error where
  "ErrVarintOverflow = Sentinel ''binary: varint overflows a 64-bit integer''"

function (sequential) uvarint_loop :: "nat \<Rightarrow> nat \<Rightarrow> nat srs_parser" where
  "uvarint_loop i x (bs, e) =
     (if i \<ge> 10 then Inl ErrVarintOverflow
      else case bs of
        [] \<Rightarrow> Inl (if i > 0 \<and> e = io_EOF then io_ErrUnexpectedEOF else e)
      | b # rest \<Rightarrow>
          if b < 0x80 then
            (if i = 9 \<and> b > 1 then Inl ErrVarintOverflow else Inr (x + unat b * 2 ^ (7 * i), (rest, e)))
          else uvarint_loop (Suc i) (x + unat (b AND 0x7F) * 2 ^ (7 * i)) (rest, e))"
  by pat_completeness auto
termination by (relation "measure (\<lambda>(i, x, bs, e). length bs)") simp_all

declare uvarint_loop.simps [simp del]

definition srs_ReadUvarint :: "nat srs_parser" where
  "srs_ReadUvarint = uvarint_loop 0 0"

definition make_slice :: "srs_library \<Rightarrow> nat \<Rightarrow> unit srs_parser" where
  "make_slice L n =
     (if n \<le> sr_maxSlice L then return_value () else fail_with (Panic ''makeslice: len out of range''))"

fun read_times :: "nat \<Rightarrow> 'a srs_parser \<Rightarrow> 'a list srs_parser" where
  "read_times 0 p = return_value []"
| "read_times (Suc n) p = and_then p (\<lambda>x. and_then (read_times n p) (\<lambda>xs. return_value (x # xs)))"

definition read_sized :: "srs_library \<Rightarrow> bytes srs_parser" where
  "read_sized L = and_then srs_ReadUvarint (\<lambda>n. and_then (make_slice L n) (\<lambda>_. srs_ReadFull n))"

subsection \<open>Prefixes and IP sets\<close>

definition readPrefix :: "env \<Rightarrow> srs_library \<Rightarrow> prefix srs_parser" where
  "readPrefix E L = and_then (read_sized L) (\<lambda>addrSlice. and_then srs_ReadByte (\<lambda>prefixBits.
     return_value (PrefixFrom (AddrFromIP E addrSlice) (uint prefixBits))))"

definition writePrefix :: "srs_library \<Rightarrow> prefix \<Rightarrow> bytes" where
  "writePrefix L p =
     (let addrSlice = addr_AsSlice (p_Addr p)
      in sr_WriteUvarint L (length addrSlice) @ addrSlice @ [word_of_int (p_Bits p)])"

definition os_ErrInvalid :: error where "os_ErrInvalid = Sentinel ''invalid argument''"

definition readIPSet :: "env \<Rightarrow> srs_library \<Rightarrow> ipset srs_parser" where
  "readIPSet E L = and_then srs_ReadByte (\<lambda>version.
     if version \<noteq> 1 then fail_with os_ErrInvalid
     else and_then (srs_ReadFull 8) (\<lambda>lengthBytes.
       let n = unat (bytes_word lengthBytes :: 64 word) in
       and_then (make_slice L n) (\<lambda>_.
       and_then (read_times n
         (and_then (read_sized L) (\<lambda>fromBytes. and_then (read_sized L) (\<lambda>toBytes.
            return_value (AddrFromIP E fromBytes, AddrFromIP E toBytes)))))
         (\<lambda>rr. return_value (RawIPSet rr)))))"

definition write_addr :: "srs_library \<Rightarrow> addr \<Rightarrow> bytes" where
  "write_addr L a = sr_WriteUvarint L (length (addr_AsSlice a)) @ addr_AsSlice a"

definition writeIPSet :: "srs_library \<Rightarrow> (addr \<times> addr) list \<Rightarrow> bytes" where
  "writeIPSet L rr =
     [1] @ word_bytes 8 (of_nat (length rr) :: 64 word) @ concat (map (\<lambda>(from, to). write_addr L from @ write_addr L to) rr)"

subsection \<open>Lists of values\<close>

definition readRuleItemString :: "srs_library \<Rightarrow> string list srs_parser" where
  "readRuleItemString L = and_then srs_ReadUvarint (\<lambda>n. and_then (make_slice L n) (\<lambda>_.
     read_times n (and_then (read_sized L) (\<lambda>buf. return_value (bytes_str buf)))))"

definition writeRuleItemString :: "srs_library \<Rightarrow> 8 word \<Rightarrow> string list \<Rightarrow> bytes" where
  "writeRuleItemString L itemType value =
     itemType # sr_WriteUvarint L (length value) @
       concat (map (\<lambda>s. sr_WriteUvarint L (length s) @ str_bytes s) value)"

definition readRuleItemUint8 :: "srs_library \<Rightarrow> 8 word list srs_parser" where
  "readRuleItemUint8 L = and_then srs_ReadUvarint (\<lambda>n. and_then (make_slice L n) (\<lambda>_. srs_ReadFull n))"

definition writeRuleItemUint8 :: "srs_library \<Rightarrow> 8 word \<Rightarrow> 8 word list \<Rightarrow> bytes" where
  "writeRuleItemUint8 L itemType value = itemType # sr_WriteUvarint L (length value) @ value"

text \<open>\<^verbatim>\<open>binary.Read\<close> of a slice reads all its bytes before it decodes them.\<close>

fun decode_uint16s :: "bytes \<Rightarrow> 16 word list" where
  "decode_uint16s (a # b # bs) = bytes_word [a, b] # decode_uint16s bs"
| "decode_uint16s _ = []"

definition readRuleItemUint16 :: "srs_library \<Rightarrow> 16 word list srs_parser" where
  "readRuleItemUint16 L = and_then srs_ReadUvarint (\<lambda>n. and_then (make_slice L n) (\<lambda>_.
     and_then (srs_ReadFull (2 * n)) (\<lambda>bs. return_value (decode_uint16s bs))))"

definition writeRuleItemUint16 :: "srs_library \<Rightarrow> 8 word \<Rightarrow> 16 word list \<Rightarrow> bytes" where
  "writeRuleItemUint16 L itemType value =
     itemType # sr_WriteUvarint L (length value) @ concat (map (word_bytes 2) value)"

definition writeRuleItemCIDR :: "env \<Rightarrow> srs_library \<Rightarrow> 8 word \<Rightarrow> string list \<Rightarrow> bytes res" where
  "writeRuleItemCIDR E L itemType value =
     bind_res (ipcidr_elems E 0 value) (\<lambda>es.
       case IPSetBuilder_IPSet E es of
         Some err \<Rightarrow> Inl err
       | None \<Rightarrow> Inr (itemType # writeIPSet L (sr_Ranges L es)))"


subsection \<open>Default rules\<close>

definition ruleItemQueryType :: "8 word" where "ruleItemQueryType = 0"
definition ruleItemNetwork :: "8 word" where "ruleItemNetwork = 1"
definition ruleItemDomain :: "8 word" where "ruleItemDomain = 2"
definition ruleItemDomainKeyword :: "8 word" where "ruleItemDomainKeyword = 3"
definition ruleItemDomainRegex :: "8 word" where "ruleItemDomainRegex = 4"
definition ruleItemSourceIPCIDR :: "8 word" where "ruleItemSourceIPCIDR = 5"
definition ruleItemIPCIDR :: "8 word" where "ruleItemIPCIDR = 6"
definition ruleItemSourcePort :: "8 word" where "ruleItemSourcePort = 7"
definition ruleItemSourcePortRange :: "8 word" where "ruleItemSourcePortRange = 8"
definition ruleItemPort :: "8 word" where "ruleItemPort = 9"
definition ruleItemPortRange :: "8 word" where "ruleItemPortRange = 10"
definition ruleItemProcessName :: "8 word" where "ruleItemProcessName = 11"
definition ruleItemProcessPath :: "8 word" where "ruleItemProcessPath = 12"
definition ruleItemPackageName :: "8 word" where "ruleItemPackageName = 13"
definition ruleItemWIFISSID :: "8 word" where "ruleItemWIFISSID = 14"
definition ruleItemWIFIBSSID :: "8 word" where "ruleItemWIFIBSSID = 15"
definition ruleItemAdGuardDomain :: "8 word" where "ruleItemAdGuardDomain = 16"
definition ruleItemProcessPathRegex :: "8 word" where "ruleItemProcessPathRegex = 17"
definition ruleItemNetworkType :: "8 word" where "ruleItemNetworkType = 18"
definition ruleItemNetworkIsExpensive :: "8 word" where "ruleItemNetworkIsExpensive = 19"
definition ruleItemNetworkIsConstrained :: "8 word" where "ruleItemNetworkIsConstrained = 20"
definition ruleItemNetworkInterfaceAddress :: "8 word" where "ruleItemNetworkInterfaceAddress = 21"
definition ruleItemDefaultInterfaceAddress :: "8 word" where "ruleItemDefaultInterfaceAddress = 22"
definition ruleItemPackageNameRegex :: "8 word" where "ruleItemPackageNameRegex = 23"
definition ruleItemFinal :: "8 word" where "ruleItemFinal = 0xFF"

lemmas rule_item_types = ruleItemQueryType_def ruleItemNetwork_def ruleItemDomain_def ruleItemDomainKeyword_def
  ruleItemDomainRegex_def ruleItemSourceIPCIDR_def ruleItemIPCIDR_def ruleItemSourcePort_def
  ruleItemSourcePortRange_def ruleItemPort_def ruleItemPortRange_def ruleItemProcessName_def
  ruleItemProcessPath_def ruleItemPackageName_def ruleItemWIFISSID_def ruleItemWIFIBSSID_def
  ruleItemAdGuardDomain_def ruleItemProcessPathRegex_def ruleItemNetworkType_def
  ruleItemNetworkIsExpensive_def ruleItemNetworkIsConstrained_def ruleItemNetworkInterfaceAddress_def
  ruleItemDefaultInterfaceAddress_def ruleItemPackageNameRegex_def ruleItemFinal_def

text \<open>\<^verbatim>\<open>TypedMap.Put\<close> keeps the place of a key that is there.\<close>

fun typed_map_Put :: "'k \<Rightarrow> 'v \<Rightarrow> ('k \<times> 'v) list \<Rightarrow> ('k \<times> 'v) list" where
  "typed_map_Put k v [] = [(k, v)]"
| "typed_map_Put k v ((k1, v1) # kvs) = (if k1 = k then (k, v) # kvs else (k1, v1) # typed_map_Put k v kvs)"

definition read_prefixes :: "env \<Rightarrow> srs_library \<Rightarrow> prefix list srs_parser" where
  "read_prefixes E L = and_then srs_ReadUvarint (\<lambda>n. read_times n (readPrefix E L))"

definition read_interface_addresses :: "env \<Rightarrow> srs_library \<Rightarrow> (interface_type \<times> prefix list) list srs_parser" where
  "read_interface_addresses E L = and_then srs_ReadUvarint (\<lambda>n.
     and_then (read_times n (and_then srs_ReadByte (\<lambda>key. and_then (read_prefixes E L) (\<lambda>value. return_value (key, value)))))
       (\<lambda>kvs. return_value (fold (\<lambda>(k, v). typed_map_Put k v) kvs [])))"

text \<open>A slice of the code is nil when nothing was appended to it.\<close>

definition appended :: "'a list \<Rightarrow> 'a listable" where
  "appended xs = (if xs = [] then None else Some xs)"

definition read_matcher :: "(srs_reader \<Rightarrow> ('m \<times> nat) res) \<Rightarrow> 'm srs_parser" where
  "read_matcher p = (\<lambda>(bs, e). map_sum id (\<lambda>(m, n). (m, (drop n bs, e))) (p (bs, e)))"

text \<open>One item after its type; \<open>lastItemType\<close> is only reported.\<close>

definition read_item ::
  "env \<Rightarrow> srs_library \<Rightarrow> bool \<Rightarrow> 8 word \<Rightarrow> 8 word \<Rightarrow> DefaultHeadlessRuleOptions \<Rightarrow> DefaultHeadlessRuleOptions srs_parser" where
  "read_item E L recover lastItemType itemType rule =
     (if itemType = ruleItemQueryType then and_then (readRuleItemUint16 L) (\<lambda>v. return_value (rule\<lparr>hr_QueryType := Some v\<rparr>))
      else if itemType = ruleItemNetwork then and_then (readRuleItemString L) (\<lambda>v. return_value (rule\<lparr>hr_Network := Some v\<rparr>))
      else if itemType = ruleItemDomain then and_then (read_matcher (sr_ReadMatcher L)) (\<lambda>matcher.
         let rule1 = rule\<lparr>hr_DomainMatcher := Some matcher\<rparr>
         in return_value (if recover then (case sr_DumpMatcher L matcher of (domains, domainSuffix) \<Rightarrow>
                rule1\<lparr>hr_Domain := domains, hr_DomainSuffix := domainSuffix\<rparr>) else rule1))
      else if itemType = ruleItemDomainKeyword then and_then (readRuleItemString L) (\<lambda>v. return_value (rule\<lparr>hr_DomainKeyword := Some v\<rparr>))
      else if itemType = ruleItemDomainRegex then and_then (readRuleItemString L) (\<lambda>v. return_value (rule\<lparr>hr_DomainRegex := Some v\<rparr>))
      else if itemType = ruleItemSourceIPCIDR then and_then (readIPSet E L) (\<lambda>ipSet.
         let rule1 = rule\<lparr>hr_SourceIPSet := Some ipSet\<rparr>
         in return_value (if recover then rule1\<lparr>hr_SourceIPCIDR := Some (sr_Prefixes L ipSet)\<rparr> else rule1))
      else if itemType = ruleItemIPCIDR then and_then (readIPSet E L) (\<lambda>ipSet.
         let rule1 = rule\<lparr>hr_IPSet := Some ipSet\<rparr>
         in return_value (if recover then rule1\<lparr>hr_IPCIDR := Some (sr_Prefixes L ipSet)\<rparr> else rule1))
      else if itemType = ruleItemSourcePort then and_then (readRuleItemUint16 L) (\<lambda>v. return_value (rule\<lparr>hr_SourcePort := Some v\<rparr>))
      else if itemType = ruleItemSourcePortRange then and_then (readRuleItemString L) (\<lambda>v. return_value (rule\<lparr>hr_SourcePortRange := Some v\<rparr>))
      else if itemType = ruleItemPort then and_then (readRuleItemUint16 L) (\<lambda>v. return_value (rule\<lparr>hr_Port := Some v\<rparr>))
      else if itemType = ruleItemPortRange then and_then (readRuleItemString L) (\<lambda>v. return_value (rule\<lparr>hr_PortRange := Some v\<rparr>))
      else if itemType = ruleItemProcessName then and_then (readRuleItemString L) (\<lambda>v. return_value (rule\<lparr>hr_ProcessName := Some v\<rparr>))
      else if itemType = ruleItemProcessPath then and_then (readRuleItemString L) (\<lambda>v. return_value (rule\<lparr>hr_ProcessPath := Some v\<rparr>))
      else if itemType = ruleItemProcessPathRegex then and_then (readRuleItemString L) (\<lambda>v. return_value (rule\<lparr>hr_ProcessPathRegex := Some v\<rparr>))
      else if itemType = ruleItemPackageName then and_then (readRuleItemString L) (\<lambda>v. return_value (rule\<lparr>hr_PackageName := Some v\<rparr>))
      else if itemType = ruleItemPackageNameRegex then and_then (readRuleItemString L) (\<lambda>v. return_value (rule\<lparr>hr_PackageNameRegex := Some v\<rparr>))
      else if itemType = ruleItemWIFISSID then and_then (readRuleItemString L) (\<lambda>v. return_value (rule\<lparr>hr_WIFISSID := Some v\<rparr>))
      else if itemType = ruleItemWIFIBSSID then and_then (readRuleItemString L) (\<lambda>v. return_value (rule\<lparr>hr_WIFIBSSID := Some v\<rparr>))
      else if itemType = ruleItemAdGuardDomain then and_then (read_matcher (sr_ReadAdGuardMatcher L)) (\<lambda>matcher.
         let rule1 = rule\<lparr>hr_AdGuardDomainMatcher := Some matcher\<rparr>
         in return_value (if recover then rule1\<lparr>hr_AdGuardDomain := sr_DumpAdGuardMatcher L matcher\<rparr> else rule1))
      else if itemType = ruleItemNetworkType then and_then (readRuleItemUint8 L) (\<lambda>v. return_value (rule\<lparr>hr_NetworkType := Some v\<rparr>))
      else if itemType = ruleItemNetworkIsExpensive then return_value (rule\<lparr>hr_NetworkIsExpensive := True\<rparr>)
      else if itemType = ruleItemNetworkIsConstrained then return_value (rule\<lparr>hr_NetworkIsConstrained := True\<rparr>)
      else if itemType = ruleItemNetworkInterfaceAddress then and_then (read_interface_addresses E L) (\<lambda>v.
         return_value (rule\<lparr>hr_NetworkInterfaceAddress := Some v\<rparr>))
      else if itemType = ruleItemDefaultInterfaceAddress then and_then (read_prefixes E L) (\<lambda>v.
         return_value (rule\<lparr>hr_DefaultInterfaceAddress := appended v\<rparr>))
      else fail_with (New (''unknown rule item type: '' @ itoa (unat itemType) @ '', last type: '' @ itoa (unat lastItemType))))"


text \<open>No parser gives bytes back.\<close>

definition consumes :: "'a srs_parser \<Rightarrow> bool" where
  "consumes p \<longleftrightarrow> (\<forall>r x r1. p r = Inr (x, r1) \<longrightarrow> length (fst r1) \<le> length (fst r))"

lemma consumesD: "consumes p \<Longrightarrow> p r = Inr (x, r1) \<Longrightarrow> length (fst r1) \<le> length (fst r)"
  unfolding consumes_def by blast

lemma and_then_Inr: "and_then p f r = Inr y \<longleftrightarrow> (\<exists>x r1. p r = Inr (x, r1) \<and> f x r1 = Inr y)"
  by (auto simp: and_then_def bind_res_Inr)

named_theorems srs_consumes

lemma consumes_and_then [srs_consumes]: "consumes p \<Longrightarrow> (\<And>x. consumes (f x)) \<Longrightarrow> consumes (and_then p f)"
  unfolding consumes_def and_then_Inr by (blast intro: order_trans)

lemma consumes_if [srs_consumes]: "consumes p \<Longrightarrow> consumes q \<Longrightarrow> consumes (if b then p else q)"
  by simp

lemma consumes_basic [srs_consumes]:
  "consumes (return_value x)" "consumes (fail_with e)" "consumes srs_ReadByte" "consumes (srs_ReadFull n)"
  by (auto simp: consumes_def return_value_def fail_with_def srs_ReadByte_def srs_ReadFull_def split: list.splits if_splits)

lemma uvarint_loop_consumes: "uvarint_loop i x r = Inr (y, r1) \<Longrightarrow> length (fst r1) \<le> length (fst r)"
proof (induction i x r rule: uvarint_loop.induct)
  case (1 i x bs e)
  show ?case
  proof (cases "\<exists>b rest. bs = b # rest \<and> \<not> i \<ge> 10 \<and> \<not> b < 0x80")
    case True
    then obtain b rest where b: "bs = b # rest" "\<not> i \<ge> 10" "\<not> b < 0x80" by blast
    then show ?thesis using "1.IH" [OF b(2,1,3)] "1.prems" by (simp add: uvarint_loop.simps [of i])
  next
    case False
    then show ?thesis using "1.prems" by (auto simp: uvarint_loop.simps [of i] split: if_splits list.splits)
  qed
qed

lemma consumes_uvarint [srs_consumes]: "consumes srs_ReadUvarint"
  by (simp add: consumes_def srs_ReadUvarint_def uvarint_loop_consumes)

lemma consumes_make_slice [srs_consumes]: "consumes (make_slice L n)"
  by (simp add: make_slice_def srs_consumes)

lemma consumes_read_times [srs_consumes]: "consumes p \<Longrightarrow> consumes (read_times n p)"
  by (induction n) (simp_all add: srs_consumes)

lemma consumes_read_matcher [srs_consumes]: "consumes (read_matcher p)"
  by (auto simp: consumes_def read_matcher_def map_sum_def split: sum.splits)

lemma consumes_readers [srs_consumes]:
  "consumes (read_sized L)" "consumes (readPrefix E L)" "consumes (readRuleItemString L)" "consumes (readRuleItemUint8 L)"
  "consumes (readRuleItemUint16 L)"
  unfolding read_sized_def readPrefix_def readRuleItemString_def readRuleItemUint8_def readRuleItemUint16_def
  by (intro srs_consumes)+

lemma consumes_addresses [srs_consumes]:
  "consumes (readIPSet E L)" "consumes (read_prefixes E L)" "consumes (read_interface_addresses E L)"
proof -
  show ip: "consumes (readIPSet E L)"
    unfolding readIPSet_def Let_def by (intro srs_consumes)
  show "consumes (read_prefixes E L)" "consumes (read_interface_addresses E L)"
    unfolding read_interface_addresses_def read_prefixes_def by (intro srs_consumes)+
qed

lemma consumes_read_item [srs_consumes]: "consumes (read_item E L recover lastItemType itemType rule)"
  unfolding read_item_def Let_def by (intro srs_consumes)

text \<open>The loop of \<^verbatim>\<open>readDefaultRule\<close>.\<close>

function (sequential) readDefaultRule ::
  "env \<Rightarrow> srs_library \<Rightarrow> bool \<Rightarrow> 8 word \<Rightarrow> DefaultHeadlessRuleOptions \<Rightarrow> DefaultHeadlessRuleOptions srs_parser" where
  "readDefaultRule E L recover lastItemType rule r =
     (case srs_ReadByte r of
        Inl e \<Rightarrow> Inl e
      | Inr (itemType, r1) \<Rightarrow>
          if itemType = ruleItemFinal then and_then srs_ReadByte (\<lambda>b. return_value (rule\<lparr>hr_Invert := (b \<noteq> 0)\<rparr>)) r1
          else case read_item E L recover lastItemType itemType rule r1 of
                 Inl e \<Rightarrow> Inl e
               | Inr (rule1, r2) \<Rightarrow> readDefaultRule E L recover itemType rule1 r2)"
  by pat_completeness auto
termination
proof (relation "measure (\<lambda>(E, L, recover, last, rule, r). length (fst r))")
  fix E L recover last rule r v itemType r1 w rule1 r2
  assume "srs_ReadByte r = Inr v" "(itemType, r1) = v" "itemType \<noteq> ruleItemFinal"
    "read_item E L recover last itemType rule r1 = Inr w" "(rule1, r2) = w"
  moreover from this have "length (fst r1) < length (fst r)"
    by (auto simp: srs_ReadByte_def split: prod.splits list.splits)
  ultimately show "((E, L, recover, itemType, rule1, r2), E, L, recover, last, rule, r) \<in>
      measure (\<lambda>(E, L, recover, last, rule, r). length (fst r))"
    using consumesD [OF consumes_read_item] by fastforce
qed simp

declare readDefaultRule.simps [simp del]


definition RuleSetVersion1 :: "8 word" where "RuleSetVersion1 = 1"
definition RuleSetVersion2 :: "8 word" where "RuleSetVersion2 = 2"
definition RuleSetVersion3 :: "8 word" where "RuleSetVersion3 = 3"
definition RuleSetVersion4 :: "8 word" where "RuleSetVersion4 = 4"
definition RuleSetVersion5 :: "8 word" where "RuleSetVersion5 = 5"
definition RuleSetVersionCurrent :: "8 word" where "RuleSetVersionCurrent = RuleSetVersion5"

lemmas rule_set_versions = RuleSetVersion1_def RuleSetVersion2_def RuleSetVersion3_def RuleSetVersion4_def
  RuleSetVersion5_def RuleSetVersionCurrent_def

definition on_values :: "'a listable \<Rightarrow> ('a list \<Rightarrow> bytes) \<Rightarrow> bytes res" where
  "on_values l put = Inr (if elems l = [] then [] else put (elems l))"

text \<open>An item that versions before \<open>since\<close> do not have.\<close>

definition since_version :: "8 word \<Rightarrow> 8 word \<Rightarrow> string \<Rightarrow> bool \<Rightarrow> bytes \<Rightarrow> bytes res" where
  "since_version since generateVersion message used put =
     (if \<not> used then Inr [] else if generateVersion < since then Inl (New message) else Inr put)"

definition write_prefixes :: "srs_library \<Rightarrow> prefix list \<Rightarrow> bytes" where
  "write_prefixes L ps = sr_WriteUvarint L (length ps) @ concat (map (writePrefix L) ps)"

definition write_interface_addresses :: "srs_library \<Rightarrow> (interface_type \<times> prefix list) list \<Rightarrow> bytes" where
  "write_interface_addresses L kvs =
     sr_WriteUvarint L (length kvs) @ concat (map (\<lambda>(k, ps). k # write_prefixes L ps) kvs)"

text \<open>The items of \<^verbatim>\<open>writeDefaultRule\<close>, in its order: those of every version and those that came later.\<close>

definition write_first_items :: "env \<Rightarrow> srs_library \<Rightarrow> 8 word \<Rightarrow> DefaultHeadlessRuleOptions \<Rightarrow> bytes res list" where
  "write_first_items E L generateVersion rule = [
     on_values (hr_QueryType rule) (writeRuleItemUint16 L ruleItemQueryType),
     on_values (hr_Network rule) (writeRuleItemString L ruleItemNetwork),
     (let domains = elems (hr_Domain rule); domainSuffix = elems (hr_DomainSuffix rule)
      in Inr (if domains \<noteq> [] \<or> domainSuffix \<noteq> []
              then ruleItemDomain # sr_WriteMatcher L (sr_NewMatcher L domains domainSuffix (generateVersion = RuleSetVersion1))
              else [])),
     on_values (hr_DomainKeyword rule) (writeRuleItemString L ruleItemDomainKeyword),
     on_values (hr_DomainRegex rule) (writeRuleItemString L ruleItemDomainRegex),
     (if elems (hr_SourceIPCIDR rule) = [] then Inr []
      else cause_res ''source_ip_cidr'' (writeRuleItemCIDR E L ruleItemSourceIPCIDR (elems (hr_SourceIPCIDR rule)))),
     (if elems (hr_IPCIDR rule) = [] then Inr []
      else cause_res ''ipcidr'' (writeRuleItemCIDR E L ruleItemIPCIDR (elems (hr_IPCIDR rule)))),
     on_values (hr_SourcePort rule) (writeRuleItemUint16 L ruleItemSourcePort),
     on_values (hr_SourcePortRange rule) (writeRuleItemString L ruleItemSourcePortRange),
     on_values (hr_Port rule) (writeRuleItemUint16 L ruleItemPort),
     on_values (hr_PortRange rule) (writeRuleItemString L ruleItemPortRange),
     on_values (hr_ProcessName rule) (writeRuleItemString L ruleItemProcessName),
     on_values (hr_ProcessPath rule) (writeRuleItemString L ruleItemProcessPath),
     on_values (hr_ProcessPathRegex rule) (writeRuleItemString L ruleItemProcessPathRegex),
     on_values (hr_PackageName rule) (writeRuleItemString L ruleItemPackageName)]"

definition write_later_items :: "srs_library \<Rightarrow> 8 word \<Rightarrow> DefaultHeadlessRuleOptions \<Rightarrow> bytes res list" where
  "write_later_items L generateVersion rule = [
     since_version RuleSetVersion5 generateVersion ''`package_name_regex` rule item is only supported in version 5 or later''
       (elems (hr_PackageNameRegex rule) \<noteq> []) (writeRuleItemString L ruleItemPackageNameRegex (elems (hr_PackageNameRegex rule))),
     since_version RuleSetVersion3 generateVersion ''`network_type` rule item is only supported in version 3 or later''
       (elems (hr_NetworkType rule) \<noteq> []) (writeRuleItemUint8 L ruleItemNetworkType (elems (hr_NetworkType rule))),
     since_version RuleSetVersion3 generateVersion ''`network_is_expensive` rule item is only supported in version 3 or later''
       (hr_NetworkIsExpensive rule) ([ruleItemNetworkIsExpensive]),
     since_version RuleSetVersion3 generateVersion ''`network_is_constrained` rule item is only supported in version 3 or later''
       (hr_NetworkIsConstrained rule) ([ruleItemNetworkIsConstrained]),
     since_version RuleSetVersion4 generateVersion ''`network_interface_address` rule item is only supported in version 4 or later''
       (elems (hr_NetworkInterfaceAddress rule) \<noteq> []) (ruleItemNetworkInterfaceAddress # write_interface_addresses L (elems (hr_NetworkInterfaceAddress rule))),
     since_version RuleSetVersion4 generateVersion ''`default_interface_address` rule item is only supported in version 4 or later''
       (elems (hr_DefaultInterfaceAddress rule) \<noteq> []) (ruleItemDefaultInterfaceAddress # write_prefixes L (elems (hr_DefaultInterfaceAddress rule))),
     on_values (hr_WIFISSID rule) (writeRuleItemString L ruleItemWIFISSID),
     on_values (hr_WIFIBSSID rule) (writeRuleItemString L ruleItemWIFIBSSID),
     since_version RuleSetVersion2 generateVersion ''AdGuard rule items is only supported in version 2 or later''
       (elems (hr_AdGuardDomain rule) \<noteq> []) (ruleItemAdGuardDomain # sr_WriteAdGuardMatcher L (NewAdGuardMatcher (elems (hr_AdGuardDomain rule))))]"

definition write_items :: "env \<Rightarrow> srs_library \<Rightarrow> 8 word \<Rightarrow> DefaultHeadlessRuleOptions \<Rightarrow> bytes res list" where
  "write_items E L generateVersion rule = write_first_items E L generateVersion rule @ write_later_items L generateVersion rule"

lemmas write_items_defs = write_items_def write_first_items_def write_later_items_def

fun concat_res :: "bytes res list \<Rightarrow> bytes res" where
  "concat_res [] = Inr []"
| "concat_res (x # xs) = bind_res x (\<lambda>b. map_sum id ((@) b) (concat_res xs))"

definition writeDefaultRule :: "env \<Rightarrow> srs_library \<Rightarrow> 8 word \<Rightarrow> DefaultHeadlessRuleOptions \<Rightarrow> bytes res" where
  "writeDefaultRule E L generateVersion rule =
     map_sum id (\<lambda>b. 0 # b @ [ruleItemFinal, if hr_Invert rule then 1 else 0])
       (concat_res (write_items E L generateVersion rule))"

subsection \<open>Rules\<close>


text \<open>A loop that reads \<open>n\<close> values and reports the index of the one that fails.\<close>

fun read_indexed :: "string \<Rightarrow> nat \<Rightarrow> nat \<Rightarrow> 'a srs_parser \<Rightarrow> 'a list srs_parser" where
  "read_indexed what i 0 p r = Inr ([], r)"
| "read_indexed what i (Suc n) p r =
     bind_res (cause_res (what @ ''['' @ itoa i @ '']'') (p r)) (\<lambda>(x, r1).
       bind_res (read_indexed what (Suc i) n p r1) (\<lambda>(xs, r2). Inr (x # xs, r2)))"

definition readLogicalRule :: "srs_library \<Rightarrow> headless_options srs_parser \<Rightarrow> headless_options srs_parser" where
  "readLogicalRule L readSub = and_then srs_ReadByte (\<lambda>m.
     and_then (if m = 0 then return_value LogicalTypeAnd else if m = 1 then return_value LogicalTypeOr
               else fail_with (New (''unknown logical mode: '' @ itoa (unat m)))) (\<lambda>mode.
     and_then srs_ReadUvarint (\<lambda>n. and_then (make_slice L n) (\<lambda>_.
     and_then (read_indexed ''read logical rule '' 0 n readSub) (\<lambda>rules.
     and_then srs_ReadByte (\<lambda>invert.
       return_value (OptionRule RuleTypeLogical DefaultHeadlessRuleOptions_zero mode rules (invert \<noteq> 0) ())))))))"

text \<open>
  \<^verbatim>\<open>readRule\<close>, for rules that are nested less than \<open>fuel\<close> deep.  Each level reads a byte, so the number of bytes bounds
  the depth.
\<close>

primrec readRule :: "env \<Rightarrow> srs_library \<Rightarrow> bool \<Rightarrow> nat \<Rightarrow> headless_options srs_parser" where
  "readRule E L recover 0 = fail_with (Panic ''stack'')"
| "readRule E L recover (Suc fuel) = and_then srs_ReadByte (\<lambda>ruleType.
     if ruleType = 0 then
       and_then (readDefaultRule E L recover 0 DefaultHeadlessRuleOptions_zero)
         (\<lambda>rule. return_value (OptionRule RuleTypeDefault rule [] [] False ()))
     else if ruleType = 1 then readLogicalRule L (readRule E L recover fuel)
     else fail_with (New (''unknown rule type: '' @ itoa (unat ruleType))))"

definition writeLogicalRule ::
  "srs_library \<Rightarrow> (headless_options \<Rightarrow> bytes res) \<Rightarrow> string \<Rightarrow> headless_options list \<Rightarrow> bool \<Rightarrow> bytes res" where
  "writeLogicalRule L writeSub mode rules neg =
     bind_res (if mode = LogicalTypeAnd then Inr 0 else if mode = LogicalTypeOr then Inr 1
               else Inl (Panic (''unknown logical mode: '' @ mode))) (\<lambda>m.
     map_sum id (\<lambda>b. 1 # m # sr_WriteUvarint L (length rules) @ b @ [if neg then 1 else 0])
       (concat_res (map writeSub rules)))"

lemma writeLogicalRule_cong [fundef_cong]:
  "rules = rules1 \<Longrightarrow> (\<And>x. x \<in> set rules1 \<Longrightarrow> f x = g x) \<Longrightarrow> writeLogicalRule L f mode rules neg = writeLogicalRule L g mode rules1 neg"
  by (simp add: writeLogicalRule_def cong: map_cong)

fun writeRule :: "env \<Rightarrow> srs_library \<Rightarrow> 8 word \<Rightarrow> headless_options \<Rightarrow> bytes res" where
  "writeRule E L generateVersion (OptionRule type opts mode rules neg act) =
     (if type = RuleTypeDefault then writeDefaultRule E L generateVersion opts
      else if type = RuleTypeLogical then writeLogicalRule L (writeRule E L generateVersion) mode rules neg
      else Inl (Panic (''unknown rule type: '' @ type)))"

subsection \<open>Rule sets\<close>

definition MagicBytes :: bytes where "MagicBytes = [0x53, 0x52, 0x53]"

definition srs_file_Read :: "env \<Rightarrow> srs_library \<Rightarrow> bool \<Rightarrow> bytes \<Rightarrow> PlainRuleSetCompat res" where
  "srs_file_Read E L recover content =
     bind_res (srs_ReadFull 3 (content, io_EOF)) (\<lambda>(magicBytes, r1).
       if magicBytes \<noteq> MagicBytes then Inl (New ''invalid sing-box rule-set file'')
       else bind_res (srs_ReadByte r1) (\<lambda>(version, r2).
         if version > RuleSetVersionCurrent then Inl (New (''unsupported version: '' @ itoa (unat version)))
         else bind_res (sr_NewReader L (fst r2)) (\<lambda>bReader.
           bind_res (and_then srs_ReadUvarint (\<lambda>n. and_then (make_slice L n) (\<lambda>_.
               read_indexed ''read rule'' 0 n (readRule E L recover (length (fst bReader))))) bReader) (\<lambda>(rules, _).
             Inr \<lparr>pc_Version = version, pc_Rules = rules\<rparr>))))"

definition srs_file_Write :: "env \<Rightarrow> srs_library \<Rightarrow> headless_options list \<Rightarrow> 8 word \<Rightarrow> bytes res" where
  "srs_file_Write E L rules generateVersion =
     map_sum id (\<lambda>b. MagicBytes @ [generateVersion] @ sr_Compress L (sr_WriteUvarint L (length rules) @ b))
       (concat_res (map (writeRule E L generateVersion) rules))"


subsection \<open>Depth and types\<close>

lemma read_indexed_consumes [srs_consumes]: "consumes p \<Longrightarrow> consumes (read_indexed what i n p)"
proof (induction n arbitrary: i)
  case (Suc n)
  show ?case unfolding consumes_def
  proof (intro allI impI)
    fix r x r2 assume "read_indexed what i (Suc n) p r = Inr (x, r2)"
    then obtain y r1 ys where "p r = Inr (y, r1)" "read_indexed what (Suc i) n p r1 = Inr (ys, r2)"
      by (auto simp: bind_res_def cause_res_def split: sum.splits)
    then show "length (fst r2) \<le> length (fst r)"
      using consumesD [OF Suc.prems] consumesD [OF Suc.IH [OF Suc.prems]] by (meson order_trans)
  qed
qed (simp add: consumes_def)

lemma read_indexed_cong:
  assumes "consumes p" "\<And>r1. length (fst r1) \<le> length (fst r) \<Longrightarrow> p r1 = q r1"
  shows "read_indexed what i n p r = read_indexed what i n q r"
  using assms(2)
proof (induction n arbitrary: i r)
  case (Suc n)
  show ?case
  proof (cases "p r")
    case (Inr z)
    obtain y r1 where z: "z = (y, r1)" by (cases z)
    have "length (fst r1) \<le> length (fst r)" using consumesD [OF assms(1)] Inr z by blast
    then have "read_indexed what (Suc i) n p r1 = read_indexed what (Suc i) n q r1"
      using Suc.IH Suc.prems by (meson order_trans)
    moreover have "q r = Inr (y, r1)" using Suc.prems [of r] Inr z by simp
    ultimately show ?thesis using Inr by (simp add: z cause_res_def)
  qed (use Suc.prems [of r] in \<open>simp add: cause_res_def\<close>)
qed simp

lemma ReadByte_shorter: "srs_ReadByte r = Inr (b, r1) \<Longrightarrow> length (fst r1) < length (fst r)"
  by (auto simp: srs_ReadByte_def split: prod.splits list.splits)

lemma readDefaultRule_consumes [srs_consumes]: "consumes (readDefaultRule E L recover lst rule)"
proof -
  have "length (fst r1) \<le> length (fst r)" if "readDefaultRule E L recover lst rule r = Inr (x, r1)" for r x r1
    using that
  proof (induction E L recover lst rule r rule: readDefaultRule.induct)
    case (1 E L recover lst rule r)
    obtain t r2 where t: "srs_ReadByte r = Inr (t, r2)"
      using "1.prems" by (auto simp: readDefaultRule.simps [of _ _ _ _ _ r] split: sum.splits)
    show ?case
    proof (cases "t = ruleItemFinal")
      case True
      then have "and_then srs_ReadByte (\<lambda>b. return_value (rule\<lparr>hr_Invert := (b \<noteq> 0)\<rparr>)) r2 = Inr (x, r1)"
        using "1.prems" t by (simp add: readDefaultRule.simps [of _ _ _ _ _ r])
      then show ?thesis
        using consumesD [OF consumes_and_then [OF consumes_basic(3) consumes_basic(1)]] ReadByte_shorter [OF t] by fastforce
    next
      case False
      obtain rule1 r3 where i: "read_item E L recover lst t rule r2 = Inr (rule1, r3)"
        using "1.prems" t False by (auto simp: readDefaultRule.simps [of _ _ _ _ _ r] split: sum.splits)
      then have "readDefaultRule E L recover t rule1 r3 = Inr (x, r1)"
        using "1.prems" t False by (simp add: readDefaultRule.simps [of _ _ _ _ _ r])
      then show ?thesis
        using "1.IH" [OF t refl False i refl] consumesD [OF consumes_read_item i] ReadByte_shorter [OF t] by linarith
    qed
  qed
  then show ?thesis by (simp add: consumes_def)
qed

lemma readLogicalRule_consumes: "consumes p \<Longrightarrow> consumes (readLogicalRule L p)"
  unfolding readLogicalRule_def by (intro srs_consumes)

lemma readRule_consumes [srs_consumes]: "consumes (readRule E L recover fuel)"
  by (induction fuel) (auto intro!: srs_consumes readLogicalRule_consumes)


lemma and_then_cong_reader:
  "(\<And>x r1. p r = Inr (x, r1) \<Longrightarrow> f x r1 = g x r1) \<Longrightarrow> and_then p f r = and_then p g r"
  by (auto simp: and_then_def bind_res_def split: sum.splits)

text \<open>The fuel is enough: a rule is read in the same way with any depth above the number of bytes that are left.\<close>

lemma readRule_fuel:
  "length (fst r) < fuel \<Longrightarrow> length (fst r) < fuel1 \<Longrightarrow> readRule E L recover fuel r = readRule E L recover fuel1 r"
proof (induction fuel arbitrary: fuel1 r)
  case (Suc fuel)
  then obtain f1 where f1: "fuel1 = Suc f1" by (cases fuel1) auto
  have logical: "readLogicalRule L (readRule E L recover fuel) r1 = readLogicalRule L (readRule E L recover f1) r1"
    if r1: "length (fst r1) < length (fst r)" for r1
    unfolding readLogicalRule_def
  proof (intro and_then_cong_reader)
    fix m r2 mode r3 n r4 u r5
    assume a: "srs_ReadByte r1 = Inr (m, r2)" "(if m = 0 then return_value LogicalTypeAnd else if m = 1 then return_value LogicalTypeOr
        else fail_with (New (''unknown logical mode: '' @ itoa (unat m)))) r2 = Inr (mode, r3)"
      "srs_ReadUvarint r3 = Inr (n, r4)" "make_slice L n r4 = Inr (u, r5)"
    have "length (fst r3) \<le> length (fst r2)"
      using a(2) by (auto simp: return_value_def fail_with_def split: if_splits)
    then have "length (fst r5) < length (fst r)"
      using r1 ReadByte_shorter [OF a(1)] consumesD [OF consumes_uvarint a(3)] consumesD [OF consumes_make_slice a(4)]
      by linarith
    then have "read_indexed ''read logical rule '' 0 n (readRule E L recover fuel) r5 =
        read_indexed ''read logical rule '' 0 n (readRule E L recover f1) r5"
      using Suc.prems by (intro read_indexed_cong readRule_consumes Suc.IH) (auto simp: f1)
    then show "and_then (read_indexed ''read logical rule '' 0 n (readRule E L recover fuel)) c r5 =
        and_then (read_indexed ''read logical rule '' 0 n (readRule E L recover f1)) c r5" for c :: "headless_options list \<Rightarrow> headless_options srs_parser"
      by (simp add: and_then_def)
  qed
  show ?case unfolding f1 readRule.simps
    by (rule and_then_cong_reader) (use logical ReadByte_shorter in auto)
qed simp

lemma read_indexed_all:
  "read_indexed what i n p r = Inr (xs, r1) \<Longrightarrow> (\<And>r x r1. p r = Inr (x, r1) \<Longrightarrow> P x) \<Longrightarrow> list_all P xs"
  by (induction n arbitrary: i r xs) (fastforce simp: bind_res_def cause_res_def split: sum.splits)+

lemma readRule_decoded: "readRule E L recover fuel r = Inr (x, r1) \<Longrightarrow> decoded x"
proof (induction fuel arbitrary: r x r1)
  case (Suc fuel)
  have "decoded x" if read: "readLogicalRule L (readRule E L recover fuel) r2 = Inr (x, r1)" for r2
  proof -
    obtain what n r3 r4 rules mode neg where sub: "read_indexed what 0 n (readRule E L recover fuel) r3 = Inr (rules, r4)"
        and x: "x = OptionRule RuleTypeLogical DefaultHeadlessRuleOptions_zero mode rules neg ()"
      using read unfolding readLogicalRule_def by (auto simp: and_then_Inr return_value_def)
    have "list_all decoded rules" by (rule read_indexed_all [OF sub]) (rule Suc.IH)
    then show ?thesis by (simp add: x)
  qed
  then show ?case using Suc.prems by (auto simp: and_then_Inr return_value_def fail_with_def split: if_splits)
qed (simp add: fail_with_def)


subsection \<open>What the libraries do\<close>

text \<open>An address that survives its bytes: no zone, and not an IPv4 address written as an IPv6 one.\<close>

definition plain_addr :: "addr \<Rightarrow> bool" where
  "plain_addr a \<longleftrightarrow> (case a of AddrZero \<Rightarrow> False | Addr4 _ \<Rightarrow> True | Addr6 w z \<Rightarrow> z = [] \<and> drop_bit 32 w \<noteq> 0xFFFF)"

definition srs_documented :: "env \<Rightarrow> srs_library \<Rightarrow> bool" where
  "srs_documented E L \<longleftrightarrow>
     sr_maxSlice L < 2 ^ 63 \<and>
     (\<forall>n rest e. n < 2 ^ 64 \<longrightarrow> srs_ReadUvarint (sr_WriteUvarint L n @ rest, e) = Inr (n, (rest, e))) \<and>
     (\<forall>bs. sr_NewReader L (sr_Compress L bs) = Inr (bs, io_EOF)) \<and>
     (\<forall>ds ss legacy rest e. sr_ReadMatcher L (sr_WriteMatcher L (sr_NewMatcher L ds ss legacy) @ rest, e) =
        Inr (sr_NewMatcher L ds ss legacy, length (sr_WriteMatcher L (sr_NewMatcher L ds ss legacy)))) \<and>
     (\<forall>ds rest e. sr_ReadAdGuardMatcher L (sr_WriteAdGuardMatcher L (NewAdGuardMatcher ds) @ rest, e) =
        Inr (NewAdGuardMatcher ds, length (sr_WriteAdGuardMatcher L (NewAdGuardMatcher ds)))) \<and>
     (\<forall>a. plain_addr a \<longrightarrow> AddrFromIP E (addr_AsSlice a) = a)"

definition fits :: "srs_library \<Rightarrow> 'a list \<Rightarrow> bool" where
  "fits L xs \<longleftrightarrow> length xs \<le> sr_maxSlice L"

lemma documented_uvarint:
  "srs_documented E L \<Longrightarrow> n \<le> sr_maxSlice L \<Longrightarrow> srs_ReadUvarint (sr_WriteUvarint L n @ rest, e) = Inr (n, (rest, e))"
  by (simp add: srs_documented_def)

lemma and_then_step: "p r = Inr (x, r1) \<Longrightarrow> and_then p f r = f x r1"
  by (simp add: and_then_def)

lemma make_slice_ok: "n \<le> sr_maxSlice L \<Longrightarrow> make_slice L n r = Inr ((), r)"
  by (simp add: make_slice_def return_value_def)

lemma uvarint_step:
  assumes "srs_documented E L" "n \<le> sr_maxSlice L"
  shows "and_then srs_ReadUvarint f (sr_WriteUvarint L n @ rest, e) = f n (rest, e)"
    and "and_then srs_ReadUvarint (\<lambda>n. and_then (make_slice L n) (g n)) (sr_WriteUvarint L n @ rest, e) = g n () (rest, e)"
  using documented_uvarint [OF assms] make_slice_ok [OF assms(2)] by (simp_all add: and_then_def)

lemma ReadFull_append: "length xs = n \<Longrightarrow> srs_ReadFull n (xs @ rest, e) = Inr (xs, (rest, e))"
  by (auto simp: srs_ReadFull_def)

lemma ReadByte_Cons: "srs_ReadByte (b # rest, e) = Inr (b, (rest, e))"
  by (simp add: srs_ReadByte_def)

lemma read_sized_write:
  assumes "srs_documented E L" "fits L xs"
  shows "read_sized L (sr_WriteUvarint L (length xs) @ xs @ rest, e) = Inr (xs, (rest, e))"
  using assms unfolding read_sized_def fits_def by (simp add: uvarint_step(2) ReadFull_append)

lemma read_times_write:
  assumes "\<And>x rest e. x \<in> set xs \<Longrightarrow> p (w x @ rest, e) = Inr (x, (rest, e))"
  shows "read_times (length xs) p (concat (map w xs) @ rest, e) = Inr (xs, (rest, e))"
  using assms
proof (induction xs)
  case (Cons x xs)
  have "p (w x @ concat (map w xs) @ rest, e) = Inr (x, (concat (map w xs) @ rest, e))" by (rule Cons.prems) simp
  moreover have "read_times (length xs) p (concat (map w xs) @ rest, e) = Inr (xs, (rest, e))"
    by (rule Cons.IH) (simp add: Cons.prems)
  ultimately show ?case by (simp add: and_then_step return_value_def)
qed (simp add: return_value_def)

lemma read_strings:
  assumes L: "srs_documented E L" and "fits L xs" "list_all (fits L) xs"
  shows "readRuleItemString L (sr_WriteUvarint L (length xs) @
      concat (map (\<lambda>s. sr_WriteUvarint L (length s) @ str_bytes s) xs) @ rest, e) = Inr (xs, (rest, e))"
proof -
  have "and_then (read_sized L) (\<lambda>buf. return_value (bytes_str buf)) ((sr_WriteUvarint L (length s) @ str_bytes s) @ rest, e) =
      Inr (s, (rest, e))" if "s \<in> set xs" for s rest e
  proof -
    have "fits L (str_bytes s)" using assms(3) that by (auto simp: list_all_iff fits_def str_bytes_def)
    from read_sized_write [OF L this, of rest e] have
      "read_sized L (sr_WriteUvarint L (length s) @ str_bytes s @ rest, e) = Inr (str_bytes s, (rest, e))"
      by (simp add: str_bytes_def)
    then show ?thesis by (simp add: and_then_step return_value_def)
  qed
  from read_times_write [OF this] show ?thesis
    using assms unfolding readRuleItemString_def fits_def
    by (simp add: uvarint_step(2))
qed

lemma read_uint8s:
  assumes "srs_documented E L" "fits L xs"
  shows "readRuleItemUint8 L (sr_WriteUvarint L (length xs) @ xs @ rest, e) = Inr (xs, (rest, e))"
  using read_sized_write [OF assms] by (simp add: read_sized_def readRuleItemUint8_def)

lemma decode_uint16s_write: "decode_uint16s (concat (map (word_bytes 2) xs)) = xs"
proof (induction xs)
  case (Cons w ws)
  obtain a b where w: "word_bytes 2 w = [a, b]"
    using length_word_bytes [of 2 w] by (metis (no_types, lifting) One_nat_def Suc_1 length_0_conv length_Suc_conv)
  then have "bytes_word [a, b] = w" using bytes_word_of_word_bytes [of 2 w] by simp
  then show ?case using Cons.IH by (simp add: w)
qed simp

lemma read_uint16s:
  assumes L: "srs_documented E L" and "fits L xs"
  shows "readRuleItemUint16 L (sr_WriteUvarint L (length xs) @ concat (map (word_bytes 2) xs) @ rest, e) = Inr (xs, (rest, e))"
proof -
  have "length (concat (map (word_bytes 2) xs)) = 2 * length xs" by (simp add: length_concat o_def sum_list_const_mult sum_list_triv)
  then have "srs_ReadFull (2 * length xs) (concat (map (word_bytes 2) xs) @ rest, e) = Inr (concat (map (word_bytes 2) xs), (rest, e))"
    by (rule ReadFull_append)
  then show ?thesis
    using assms unfolding readRuleItemUint16_def fits_def
    by (simp add: uvarint_step(2) and_then_step decode_uint16s_write return_value_def)
qed


lemma addr_slice_fits: "16 \<le> sr_maxSlice L \<Longrightarrow> fits L (addr_AsSlice a)"
  by (cases a) (simp_all add: fits_def)

text \<open>What a list of prefixes needs to be read back.\<close>

definition prefix_plain :: "prefix \<Rightarrow> bool" where
  "prefix_plain p \<longleftrightarrow> plain_addr (p_Addr p) \<and> - 1 \<le> p_Bits p \<and> p_Bits p \<le> int (addr_BitLen (p_Addr p))"

lemma read_addr:
  assumes "srs_documented E L" "16 \<le> sr_maxSlice L" "plain_addr a"
  shows "read_sized L (write_addr L a @ rest, e) = Inr (addr_AsSlice a, (rest, e))" "AddrFromIP E (addr_AsSlice a) = a"
  using read_sized_write [OF assms(1) addr_slice_fits [OF assms(2)]] assms(1,3)
  by (simp_all add: write_addr_def srs_documented_def)

lemma read_prefix:
  assumes "srs_documented E L" "16 \<le> sr_maxSlice L" "prefix_plain p"
  shows "readPrefix E L (writePrefix L p @ rest, e) = Inr (p, (rest, e))"
proof -
  have plain: "plain_addr (p_Addr p)" using assms(3) by (simp add: prefix_plain_def)
  have bits: "PrefixFrom (p_Addr p) (uint (word_of_int (p_Bits p) :: 8 word)) = p"
  proof (cases "p_Bits p = - 1")
    case True
    then have "uint (word_of_int (p_Bits p) :: 8 word) = 255" by (simp add: unsigned_minus_1_eq_mask mask_eq_exp_minus_1)
    then show ?thesis
      using True plain by (cases "p_Addr p"; cases p) (auto simp: PrefixFrom_def plain_addr_def)
  next
    case False
    then have b: "0 \<le> p_Bits p" "p_Bits p \<le> int (addr_BitLen (p_Addr p))" using assms(3) by (auto simp: prefix_plain_def)
    then have "p_Bits p < 256" by (cases "p_Addr p") auto
    then have "uint (word_of_int (p_Bits p) :: 8 word) = p_Bits p" using b by (simp add: uint_word_of_int)
    then show ?thesis using b plain by (cases "p_Addr p"; cases p) (auto simp: PrefixFrom_def plain_addr_def)
  qed
  have "read_sized L (writePrefix L p @ rest, e) =
      Inr (addr_AsSlice (p_Addr p), (word_of_int (p_Bits p) # rest, e))"
    using read_addr(1) [OF assms(1,2) plain, of "word_of_int (p_Bits p) # rest" e] by (simp add: writePrefix_def write_addr_def Let_def)
  then show ?thesis
    unfolding readPrefix_def by (simp add: and_then_step ReadByte_Cons return_value_def read_addr(2) [OF assms(1,2) plain] bits)
qed

lemma read_prefixes_write:
  assumes "srs_documented E L" "16 \<le> sr_maxSlice L" "fits L ps" "list_all prefix_plain ps"
  shows "read_prefixes E L (write_prefixes L ps @ rest, e) = Inr (ps, (rest, e))"
proof -
  have "read_times (length ps) (readPrefix E L) (concat (map (writePrefix L) ps) @ rest, e) = Inr (ps, (rest, e))"
    by (rule read_times_write) (use read_prefix [OF assms(1,2)] assms(4) in \<open>auto simp: list_all_iff\<close>)
  then show ?thesis
    using assms(1,3) by (simp add: read_prefixes_def write_prefixes_def fits_def uvarint_step(1))
qed

lemma typed_map_Put_new: "k \<notin> fst ` set kvs \<Longrightarrow> typed_map_Put k v kvs = kvs @ [(k, v)]"
  by (induction kvs) auto

lemma typed_map_of_entries: "distinct (map fst (acc @ kvs)) \<Longrightarrow> fold (\<lambda>(k, v). typed_map_Put k v) kvs acc = acc @ kvs"
  by (induction kvs arbitrary: acc) (auto simp: typed_map_Put_new)

lemma read_interface_addresses_write:
  assumes "srs_documented E L" "16 \<le> sr_maxSlice L" "fits L kvs" "distinct (map fst kvs)"
    and "list_all (\<lambda>(k, ps). fits L ps \<and> list_all prefix_plain ps) kvs"
  shows "read_interface_addresses E L (write_interface_addresses L kvs @ rest, e) = Inr (kvs, (rest, e))"
proof -
  let ?p = "and_then srs_ReadByte (\<lambda>key. and_then (read_prefixes E L) (\<lambda>value. return_value (key, value)))"
  have "read_times (length kvs) ?p (concat (map (\<lambda>(k, ps). k # write_prefixes L ps) kvs) @ rest, e) = Inr (kvs, (rest, e))"
  proof (rule read_times_write)
    fix x rest e assume "x \<in> set kvs"
    then obtain k ps where x: "x = (k, ps)" "fits L ps" "list_all prefix_plain ps"
      using assms(5) by (cases x) (auto simp: list_all_iff)
    have "?p (k # write_prefixes L ps @ rest, e) = Inr ((k, ps), (rest, e))"
      using read_prefixes_write [OF assms(1,2) x(2,3), of rest e] by (simp add: and_then_def ReadByte_Cons return_value_def)
    then show "?p ((case x of (k, ps) \<Rightarrow> k # write_prefixes L ps) @ rest, e) = Inr (x, (rest, e))" by (simp add: x(1))
  qed
  then have "and_then (read_times (length kvs) ?p) f (concat (map (\<lambda>(k, ps). k # write_prefixes L ps) kvs) @ rest, e) = f kvs (rest, e)"
    for f :: "(interface_type \<times> prefix list) list \<Rightarrow> (interface_type \<times> prefix list) list srs_parser"
    by (rule and_then_step)
  then show ?thesis
    using assms(1,3,4) typed_map_of_entries [of "[]" kvs]
    by (simp add: read_interface_addresses_def write_interface_addresses_def fits_def uvarint_step(1) return_value_def)
qed

lemma read_ip_set:
  assumes "srs_documented E L" "16 \<le> sr_maxSlice L" "fits L rr" "list_all (\<lambda>(from, to). plain_addr from \<and> plain_addr to) rr"
  shows "readIPSet E L (writeIPSet L rr @ rest, e) = Inr (RawIPSet rr, (rest, e))"
proof -
  let ?p = "and_then (read_sized L) (\<lambda>fromBytes. and_then (read_sized L) (\<lambda>toBytes.
    return_value (AddrFromIP E fromBytes, AddrFromIP E toBytes)))"
  have items: "read_times (length rr) ?p (concat (map (\<lambda>(from, to). write_addr L from @ write_addr L to) rr) @ rest, e) =
      Inr (rr, (rest, e))"
  proof (rule read_times_write)
    fix x rest e assume "x \<in> set rr"
    then obtain a b where x: "x = (a, b)" "plain_addr a" "plain_addr b" using assms(4) by (cases x) (auto simp: list_all_iff)
    note ra = read_addr [OF assms(1,2) x(2)] and rb = read_addr [OF assms(1,2) x(3)]
    show "?p ((case x of (a, b) \<Rightarrow> write_addr L a @ write_addr L b) @ rest, e) = Inr (x, (rest, e))"
      using ra rb by (simp add: x(1) and_then_def return_value_def)
  qed
  have n: "unat (bytes_word (word_bytes 8 (of_nat (length rr) :: 64 word)) :: 64 word) = length rr"
  proof -
    have "length rr < 2 ^ 64" using assms(1,3) by (simp add: srs_documented_def fits_def)
    then show ?thesis by (simp add: bytes_word_of_word_bytes unat_of_nat)
  qed
  have "srs_ReadFull 8 (word_bytes 8 (of_nat (length rr) :: 64 word) @ r, e) = Inr (word_bytes 8 (of_nat (length rr) :: 64 word), (r, e))" for r
    by (rule ReadFull_append) simp
  then show ?thesis
    using items assms(3) make_slice_ok [of "length rr" L]
    by (simp add: readIPSet_def writeIPSet_def Let_def n fits_def and_then_def ReadByte_Cons return_value_def)
qed


subsection \<open>Reading a default rule back\<close>

text \<open>Reading \<open>w\<close> in the loop of \<^verbatim>\<open>readDefaultRule\<close> changes the rule by \<open>f\<close>.\<close>

definition reads_as :: "env \<Rightarrow> srs_library \<Rightarrow> bytes \<Rightarrow> (DefaultHeadlessRuleOptions \<Rightarrow> DefaultHeadlessRuleOptions) \<Rightarrow> bool" where
  "reads_as E L w f \<longleftrightarrow> (\<forall>lst rule rest e. \<exists>lst1.
     readDefaultRule E L False lst rule (w @ rest, e) = readDefaultRule E L False lst1 (f rule) (rest, e))"

lemma reads_as_Nil: "reads_as E L [] (\<lambda>rule. rule)"
  by (auto simp: reads_as_def)

lemma reads_as_append: "reads_as E L v f \<Longrightarrow> reads_as E L w g \<Longrightarrow> reads_as E L (v @ w) (\<lambda>rule. g (f rule))"
  unfolding reads_as_def append_assoc by metis

lemma reads_as_item:
  assumes "t \<noteq> ruleItemFinal" "\<And>lst rule rest e. read_item E L False lst t rule (w @ rest, e) = Inr (f rule, (rest, e))"
  shows "reads_as E L (t # w) f"
  unfolding reads_as_def
proof (intro allI exI)
  show "readDefaultRule E L False lst rule ((t # w) @ rest, e) = readDefaultRule E L False t (f rule) (rest, e)" for lst rule rest e
    using assms by (simp add: readDefaultRule.simps [of _ _ _ lst] ReadByte_Cons)
qed

lemma reads_as_all:
  assumes "concat_res xs = Inr b" "list_all2 (\<lambda>x f. \<forall>w. x = Inr w \<longrightarrow> reads_as E L w f) xs fs"
  shows "reads_as E L b (\<lambda>rule. fold (\<lambda>f r. f r) fs rule)"
  using assms(2,1)
proof (induction xs fs arbitrary: b rule: list_all2_induct)
  case (Cons x xs f fs)
  then obtain v w where "x = Inr v" "concat_res xs = Inr w" "b = v @ w"
    by (cases x; cases "concat_res xs") auto
  then show ?case using Cons reads_as_append [of E L v f w] by simp
qed (simp add: reads_as_Nil [unfolded id_def [symmetric]])

text \<open>An item for the values of a list; \<open>upd\<close> is the update of its field.\<close>

definition keep_or :: "'a listable \<Rightarrow> 'a listable \<Rightarrow> 'a listable" where
  "keep_or l old = (if elems l = [] then old else Some (elems l))"

lemma reads_on_values:
  assumes "on_values l put = Inr w" "upd (\<lambda>x. x) = (\<lambda>rule. rule)" "t \<noteq> ruleItemFinal"
    and "\<And>xs. put xs = t # body xs"
    and "\<And>lst rule. read_item E L False lst t rule = and_then p (\<lambda>v. return_value (upd (\<lambda>_. Some v) rule))"
    and "\<And>rest e. elems l \<noteq> [] \<Longrightarrow> p (body (elems l) @ rest, e) = Inr (elems l, (rest, e))"
  shows "reads_as E L w (upd (keep_or l))"
proof (cases "elems l = []")
  case True
  then have "keep_or l = (\<lambda>x. x)" "w = []" using assms(1) by (auto simp: keep_or_def on_values_def fun_eq_iff)
  then show ?thesis using assms(2) reads_as_Nil by simp
next
  case False
  then have "w = t # body (elems l)" "keep_or l = (\<lambda>_. Some (elems l))"
    using assms(1,4) by (auto simp: on_values_def keep_or_def fun_eq_iff)
  then show ?thesis
    using assms(3,6) False by (simp add: reads_as_item assms(5) and_then_def return_value_def)
qed

definition strings_fit :: "srs_library \<Rightarrow> string listable \<Rightarrow> bool" where
  "strings_fit L l \<longleftrightarrow> fits L (elems l) \<and> list_all (fits L) (elems l)"

lemma reads_strings:
  assumes "srs_documented E L" "strings_fit L l" "on_values l (writeRuleItemString L t) = Inr w"
    and "upd (\<lambda>x. x) = (\<lambda>rule. rule)" "t \<noteq> ruleItemFinal"
    and "\<And>lst rule. read_item E L False lst t rule = and_then (readRuleItemString L) (\<lambda>v. return_value (upd (\<lambda>_. Some v) rule))"
  shows "reads_as E L w (upd (keep_or l))"
  by (rule reads_on_values [where upd = upd and t = t and p = "readRuleItemString L" and
        body = "\<lambda>xs. sr_WriteUvarint L (length xs) @ concat (map (\<lambda>s. sr_WriteUvarint L (length s) @ str_bytes s) xs)",
        OF assms(3,4,5) writeRuleItemString_def assms(6)])
    (use assms(1,2) read_strings in \<open>auto simp: strings_fit_def\<close>)

lemma reads_uint16s:
  assumes "srs_documented E L" "fits L (elems l)" "on_values l (writeRuleItemUint16 L t) = Inr w"
    and "upd (\<lambda>x. x) = (\<lambda>rule. rule)" "t \<noteq> ruleItemFinal"
    and "\<And>lst rule. read_item E L False lst t rule = and_then (readRuleItemUint16 L) (\<lambda>v. return_value (upd (\<lambda>_. Some v) rule))"
  shows "reads_as E L w (upd (keep_or l))"
  by (rule reads_on_values [where upd = upd and t = t and p = "readRuleItemUint16 L" and
        body = "\<lambda>xs. sr_WriteUvarint L (length xs) @ concat (map (word_bytes 2) xs)",
        OF assms(3,4,5) writeRuleItemUint16_def assms(6)])
    (use assms(1,2) read_uint16s in auto)

lemma since_version_values:
  "since_version k v msg (elems l \<noteq> []) (put (elems l)) = Inr w \<Longrightarrow> on_values l put = Inr w"
  by (auto simp: since_version_def on_values_def split: if_splits)


text \<open>The limits of a rule: its lists and strings can be made again, and its addresses survive their bytes.\<close>

definition ranges_fit :: "env \<Rightarrow> srs_library \<Rightarrow> string listable \<Rightarrow> bool" where
  "ranges_fit E L l \<longleftrightarrow> (\<forall>es. ipcidr_elems E 0 (elems l) = Inr es \<longrightarrow>
     fits L (sr_Ranges L es) \<and> list_all (\<lambda>(from, to). plain_addr from \<and> plain_addr to) (sr_Ranges L es))"

definition prefixes_fit :: "srs_library \<Rightarrow> prefix list \<Rightarrow> bool" where
  "prefixes_fit L ps \<longleftrightarrow> fits L ps \<and> list_all prefix_plain ps"

definition options_fit :: "env \<Rightarrow> srs_library \<Rightarrow> DefaultHeadlessRuleOptions \<Rightarrow> bool" where
  "options_fit E L rule \<longleftrightarrow>
     list_all (strings_fit L) [hr_Network rule, hr_DomainKeyword rule, hr_DomainRegex rule, hr_SourcePortRange rule, hr_PortRange rule, hr_ProcessName rule, hr_ProcessPath rule, hr_ProcessPathRegex rule, hr_PackageName rule, hr_PackageNameRegex rule, hr_WIFISSID rule, hr_WIFIBSSID rule] \<and>
     fits L (elems (hr_QueryType rule)) \<and> fits L (elems (hr_SourcePort rule)) \<and> fits L (elems (hr_Port rule)) \<and>
     fits L (elems (hr_NetworkType rule)) \<and> ranges_fit E L (hr_SourceIPCIDR rule) \<and> ranges_fit E L (hr_IPCIDR rule) \<and>
     fits L (elems (hr_NetworkInterfaceAddress rule)) \<and> distinct (map fst (elems (hr_NetworkInterfaceAddress rule))) \<and>
     list_all (\<lambda>(k, ps). prefixes_fit L ps) (elems (hr_NetworkInterfaceAddress rule)) \<and>
     prefixes_fit L (elems (hr_DefaultInterfaceAddress rule))"

definition keep_matcher :: "srs_library \<Rightarrow> 8 word \<Rightarrow> DefaultHeadlessRuleOptions \<Rightarrow> domain_matcher option \<Rightarrow> domain_matcher option" where
  "keep_matcher L v rule old =
     (let domains = elems (hr_Domain rule); domainSuffix = elems (hr_DomainSuffix rule)
      in if domains = [] \<and> domainSuffix = [] then old
         else Some (sr_NewMatcher L domains domainSuffix (v = RuleSetVersion1)))"

definition keep_ranges :: "env \<Rightarrow> srs_library \<Rightarrow> string listable \<Rightarrow> ipset option \<Rightarrow> ipset option" where
  "keep_ranges E L l old = (if elems l = [] then old else Some (RawIPSet (sr_Ranges L (projr (ipcidr_elems E 0 (elems l))))))"

definition keep_adguard :: "string listable \<Rightarrow> adguard_matcher option \<Rightarrow> adguard_matcher option" where
  "keep_adguard l old = (if elems l = [] then old else Some (NewAdGuardMatcher (elems l)))"

text \<open>What each item of \<open>write_items\<close> makes of the rule that is read.\<close>

definition read_updates ::
  "env \<Rightarrow> srs_library \<Rightarrow> 8 word \<Rightarrow> DefaultHeadlessRuleOptions \<Rightarrow> (DefaultHeadlessRuleOptions \<Rightarrow> DefaultHeadlessRuleOptions) list" where
  "read_updates E L v rule = [
     hr_QueryType_update (keep_or (hr_QueryType rule)),
     hr_Network_update (keep_or (hr_Network rule)),
     hr_DomainMatcher_update (keep_matcher L v rule),
     hr_DomainKeyword_update (keep_or (hr_DomainKeyword rule)),
     hr_DomainRegex_update (keep_or (hr_DomainRegex rule)),
     hr_SourceIPSet_update (keep_ranges E L (hr_SourceIPCIDR rule)),
     hr_IPSet_update (keep_ranges E L (hr_IPCIDR rule)),
     hr_SourcePort_update (keep_or (hr_SourcePort rule)),
     hr_SourcePortRange_update (keep_or (hr_SourcePortRange rule)),
     hr_Port_update (keep_or (hr_Port rule)),
     hr_PortRange_update (keep_or (hr_PortRange rule)),
     hr_ProcessName_update (keep_or (hr_ProcessName rule)),
     hr_ProcessPath_update (keep_or (hr_ProcessPath rule)),
     hr_ProcessPathRegex_update (keep_or (hr_ProcessPathRegex rule)),
     hr_PackageName_update (keep_or (hr_PackageName rule)),
     hr_PackageNameRegex_update (keep_or (hr_PackageNameRegex rule)),
     hr_NetworkType_update (keep_or (hr_NetworkType rule)),
     hr_NetworkIsExpensive_update (\<lambda>old. old \<or> hr_NetworkIsExpensive rule),
     hr_NetworkIsConstrained_update (\<lambda>old. old \<or> hr_NetworkIsConstrained rule),
     hr_NetworkInterfaceAddress_update (keep_or (hr_NetworkInterfaceAddress rule)),
     hr_DefaultInterfaceAddress_update (keep_or (hr_DefaultInterfaceAddress rule)),
     hr_WIFISSID_update (keep_or (hr_WIFISSID rule)),
     hr_WIFIBSSID_update (keep_or (hr_WIFIBSSID rule)),
     hr_AdGuardDomainMatcher_update (keep_adguard (hr_AdGuardDomain rule))]"

lemma update_identity:
  "hr_QueryType_update (\<lambda>x. x) = (\<lambda>rule. rule)" "hr_Network_update (\<lambda>x. x) = (\<lambda>rule. rule)"
  "hr_DomainMatcher_update (\<lambda>x. x) = (\<lambda>rule. rule)" "hr_DomainKeyword_update (\<lambda>x. x) = (\<lambda>rule. rule)"
  "hr_DomainRegex_update (\<lambda>x. x) = (\<lambda>rule. rule)" "hr_SourceIPSet_update (\<lambda>x. x) = (\<lambda>rule. rule)"
  "hr_IPSet_update (\<lambda>x. x) = (\<lambda>rule. rule)" "hr_SourcePort_update (\<lambda>x. x) = (\<lambda>rule. rule)"
  "hr_SourcePortRange_update (\<lambda>x. x) = (\<lambda>rule. rule)" "hr_Port_update (\<lambda>x. x) = (\<lambda>rule. rule)"
  "hr_PortRange_update (\<lambda>x. x) = (\<lambda>rule. rule)" "hr_ProcessName_update (\<lambda>x. x) = (\<lambda>rule. rule)"
  "hr_ProcessPath_update (\<lambda>x. x) = (\<lambda>rule. rule)" "hr_ProcessPathRegex_update (\<lambda>x. x) = (\<lambda>rule. rule)"
  "hr_PackageName_update (\<lambda>x. x) = (\<lambda>rule. rule)" "hr_PackageNameRegex_update (\<lambda>x. x) = (\<lambda>rule. rule)"
  "hr_NetworkType_update (\<lambda>x. x) = (\<lambda>rule. rule)" "hr_NetworkIsExpensive_update (\<lambda>x. x) = (\<lambda>rule. rule)"
  "hr_NetworkIsConstrained_update (\<lambda>x. x) = (\<lambda>rule. rule)" "hr_NetworkInterfaceAddress_update (\<lambda>x. x) = (\<lambda>rule. rule)"
  "hr_DefaultInterfaceAddress_update (\<lambda>x. x) = (\<lambda>rule. rule)" "hr_WIFISSID_update (\<lambda>x. x) = (\<lambda>rule. rule)"
  "hr_WIFIBSSID_update (\<lambda>x. x) = (\<lambda>rule. rule)" "hr_AdGuardDomainMatcher_update (\<lambda>x. x) = (\<lambda>rule. rule)"
  by (rule ext, simp)+

lemma read_item_strings:
  "read_item E L False lst ruleItemNetwork rule = and_then (readRuleItemString L) (\<lambda>v. return_value (hr_Network_update (\<lambda>_. Some v) rule))"
  "read_item E L False lst ruleItemDomainKeyword rule = and_then (readRuleItemString L) (\<lambda>v. return_value (hr_DomainKeyword_update (\<lambda>_. Some v) rule))"
  "read_item E L False lst ruleItemDomainRegex rule = and_then (readRuleItemString L) (\<lambda>v. return_value (hr_DomainRegex_update (\<lambda>_. Some v) rule))"
  "read_item E L False lst ruleItemSourcePortRange rule = and_then (readRuleItemString L) (\<lambda>v. return_value (hr_SourcePortRange_update (\<lambda>_. Some v) rule))"
  "read_item E L False lst ruleItemPortRange rule = and_then (readRuleItemString L) (\<lambda>v. return_value (hr_PortRange_update (\<lambda>_. Some v) rule))"
  "read_item E L False lst ruleItemProcessName rule = and_then (readRuleItemString L) (\<lambda>v. return_value (hr_ProcessName_update (\<lambda>_. Some v) rule))"
  "read_item E L False lst ruleItemProcessPath rule = and_then (readRuleItemString L) (\<lambda>v. return_value (hr_ProcessPath_update (\<lambda>_. Some v) rule))"
  "read_item E L False lst ruleItemProcessPathRegex rule = and_then (readRuleItemString L) (\<lambda>v. return_value (hr_ProcessPathRegex_update (\<lambda>_. Some v) rule))"
  "read_item E L False lst ruleItemPackageName rule = and_then (readRuleItemString L) (\<lambda>v. return_value (hr_PackageName_update (\<lambda>_. Some v) rule))"
  "read_item E L False lst ruleItemPackageNameRegex rule = and_then (readRuleItemString L) (\<lambda>v. return_value (hr_PackageNameRegex_update (\<lambda>_. Some v) rule))"
  "read_item E L False lst ruleItemWIFISSID rule = and_then (readRuleItemString L) (\<lambda>v. return_value (hr_WIFISSID_update (\<lambda>_. Some v) rule))"
  "read_item E L False lst ruleItemWIFIBSSID rule = and_then (readRuleItemString L) (\<lambda>v. return_value (hr_WIFIBSSID_update (\<lambda>_. Some v) rule))"
  by (simp_all add: read_item_def rule_item_types)

lemma read_item_uint16s:
  "read_item E L False lst ruleItemQueryType rule = and_then (readRuleItemUint16 L) (\<lambda>v. return_value (hr_QueryType_update (\<lambda>_. Some v) rule))"
  "read_item E L False lst ruleItemSourcePort rule = and_then (readRuleItemUint16 L) (\<lambda>v. return_value (hr_SourcePort_update (\<lambda>_. Some v) rule))"
  "read_item E L False lst ruleItemPort rule = and_then (readRuleItemUint16 L) (\<lambda>v. return_value (hr_Port_update (\<lambda>_. Some v) rule))"
  by (simp_all add: read_item_def rule_item_types)

lemma not_final:
  "ruleItemQueryType \<noteq> ruleItemFinal" "ruleItemNetwork \<noteq> ruleItemFinal" "ruleItemDomain \<noteq> ruleItemFinal" "ruleItemDomainKeyword \<noteq> ruleItemFinal"
  "ruleItemDomainRegex \<noteq> ruleItemFinal" "ruleItemSourceIPCIDR \<noteq> ruleItemFinal" "ruleItemIPCIDR \<noteq> ruleItemFinal" "ruleItemSourcePort \<noteq> ruleItemFinal"
  "ruleItemSourcePortRange \<noteq> ruleItemFinal" "ruleItemPort \<noteq> ruleItemFinal" "ruleItemPortRange \<noteq> ruleItemFinal" "ruleItemProcessName \<noteq> ruleItemFinal"
  "ruleItemProcessPath \<noteq> ruleItemFinal" "ruleItemProcessPathRegex \<noteq> ruleItemFinal" "ruleItemPackageName \<noteq> ruleItemFinal" "ruleItemPackageNameRegex \<noteq> ruleItemFinal"
  "ruleItemNetworkType \<noteq> ruleItemFinal" "ruleItemNetworkIsExpensive \<noteq> ruleItemFinal" "ruleItemNetworkIsConstrained \<noteq> ruleItemFinal" "ruleItemNetworkInterfaceAddress \<noteq> ruleItemFinal"
  "ruleItemDefaultInterfaceAddress \<noteq> ruleItemFinal" "ruleItemWIFISSID \<noteq> ruleItemFinal" "ruleItemWIFIBSSID \<noteq> ruleItemFinal" "ruleItemAdGuardDomain \<noteq> ruleItemFinal"
  by (simp_all add: rule_item_types)


lemma reads_matcher:
  assumes "srs_documented E L"
    and "Inr (if elems (hr_Domain rule) \<noteq> [] \<or> elems (hr_DomainSuffix rule) \<noteq> [] then ruleItemDomain # sr_WriteMatcher L
          (sr_NewMatcher L (elems (hr_Domain rule)) (elems (hr_DomainSuffix rule)) (v = RuleSetVersion1)) else []) = (Inr w :: bytes res)"
  shows "reads_as E L w (hr_DomainMatcher_update (keep_matcher L v rule))"
proof (cases "elems (hr_Domain rule) = [] \<and> elems (hr_DomainSuffix rule) = []")
  case True
  then have "keep_matcher L v rule = (\<lambda>x. x)" "w = []" using assms(2) by (auto simp: keep_matcher_def)
  then show ?thesis by (simp add: update_identity reads_as_Nil)
next
  case False
  define m where "m = sr_NewMatcher L (elems (hr_Domain rule)) (elems (hr_DomainSuffix rule)) (v = RuleSetVersion1)"
  have w: "w = ruleItemDomain # sr_WriteMatcher L m" and k: "keep_matcher L v rule = (\<lambda>_. Some m)"
    using assms(2) False by (auto simp: m_def keep_matcher_def Let_def fun_eq_iff)
  have "sr_ReadMatcher L (sr_WriteMatcher L m @ rest, e) = Inr (m, length (sr_WriteMatcher L m))" for rest e
    using assms(1) by (simp add: srs_documented_def m_def)
  then show ?thesis unfolding w k
    by (intro reads_as_item not_final)
      (simp add: read_item_def rule_item_types and_then_def read_matcher_def return_value_def)
qed

lemma reads_adguard:
  assumes "srs_documented E L" "since_version k v msg (elems l \<noteq> []) (ruleItemAdGuardDomain # sr_WriteAdGuardMatcher L
      (NewAdGuardMatcher (elems l))) = Inr w"
  shows "reads_as E L w (hr_AdGuardDomainMatcher_update (keep_adguard l))"
proof (cases "elems l = []")
  case True
  then have "keep_adguard l = (\<lambda>x. x)" "w = []" using assms(2) by (auto simp: keep_adguard_def since_version_def)
  then show ?thesis by (simp add: update_identity reads_as_Nil)
next
  case False
  define m where "m = NewAdGuardMatcher (elems l)"
  have w: "w = ruleItemAdGuardDomain # sr_WriteAdGuardMatcher L m" and k: "keep_adguard l = (\<lambda>_. Some m)"
    using assms(2) False by (auto simp: m_def keep_adguard_def since_version_def fun_eq_iff split: if_splits)
  have "sr_ReadAdGuardMatcher L (sr_WriteAdGuardMatcher L m @ rest, e) = Inr (m, length (sr_WriteAdGuardMatcher L m))" for rest e
    using assms(1) by (simp add: srs_documented_def m_def)
  then show ?thesis unfolding w k
    by (intro reads_as_item not_final)
      (simp add: read_item_def rule_item_types and_then_def read_matcher_def return_value_def)
qed

lemma reads_cidr:
  assumes "srs_documented E L" "16 \<le> sr_maxSlice L" "ranges_fit E L l"
    and "(if elems l = [] then Inr [] else cause_res msg (writeRuleItemCIDR E L t (elems l))) = Inr w"
    and "upd (\<lambda>x. x) = (\<lambda>rule. rule)" "t \<noteq> ruleItemFinal"
    and "\<And>lst rule. read_item E L False lst t rule = and_then (readIPSet E L) (\<lambda>v. return_value (upd (\<lambda>_. Some v) rule))"
  shows "reads_as E L w (upd (keep_ranges E L l))"
proof (cases "elems l = []")
  case True
  then have "keep_ranges E L l = (\<lambda>x. x)" "w = []" using assms(4) by (auto simp: keep_ranges_def fun_eq_iff)
  then show ?thesis by (simp add: assms(5) reads_as_Nil)
next
  case False
  then have "writeRuleItemCIDR E L t (elems l) = Inr w" using assms(4) by (auto simp: cause_res_def split: sum.splits)
  then obtain es where es: "ipcidr_elems E 0 (elems l) = Inr es" "w = t # writeIPSet L (sr_Ranges L es)"
    by (auto simp: writeRuleItemCIDR_def bind_res_Inr split: option.splits)
  have k: "keep_ranges E L l = (\<lambda>_. Some (RawIPSet (sr_Ranges L es)))"
    using False es by (simp add: keep_ranges_def fun_eq_iff)
  have "fits L (sr_Ranges L es)" "list_all (\<lambda>(from, to). plain_addr from \<and> plain_addr to) (sr_Ranges L es)"
    using assms(3) es(1) by (simp_all add: ranges_fit_def)
  note r = read_ip_set [OF assms(1,2) this]
  show ?thesis unfolding es(2) k
    by (intro reads_as_item assms(6)) (simp add: assms(7) and_then_def r return_value_def)
qed

lemma reads_flag:
  assumes "since_version k v msg b [t] = Inr w" "t \<noteq> ruleItemFinal" "upd (\<lambda>x. x) = (\<lambda>rule. rule)"
    and "\<And>lst rule. read_item E L False lst t rule = return_value (upd (\<lambda>_. True) rule)"
  shows "reads_as E L w (upd (\<lambda>old. old \<or> b))"
proof (cases b)
  case True
  then have w: "w = [t]" using assms(1) by (auto simp: since_version_def split: if_splits)
  have "reads_as E L [t] (upd (\<lambda>_. True))"
    by (rule reads_as_item [OF assms(2)]) (simp add: assms(4) return_value_def)
  then show ?thesis using True by (simp add: w)
next
  case False
  then have "w = []" using assms(1) by (auto simp: since_version_def)
  then show ?thesis using False by (simp add: assms(3) reads_as_Nil)
qed

lemma reads_interfaces:
  assumes "srs_documented E L" "16 \<le> sr_maxSlice L"
  shows "on_values l (writeRuleItemUint8 L ruleItemNetworkType) = Inr w \<Longrightarrow> fits L (elems l) \<Longrightarrow>
      reads_as E L w (hr_NetworkType_update (keep_or l))"
    and "on_values ps (\<lambda>ps. ruleItemDefaultInterfaceAddress # write_prefixes L ps) = Inr w \<Longrightarrow> prefixes_fit L (elems ps) \<Longrightarrow>
      reads_as E L w (hr_DefaultInterfaceAddress_update (keep_or ps))"
    and "on_values kvs (\<lambda>kvs. ruleItemNetworkInterfaceAddress # write_interface_addresses L kvs) = Inr w \<Longrightarrow>
      fits L (elems kvs) \<Longrightarrow> distinct (map fst (elems kvs)) \<Longrightarrow> list_all (\<lambda>(k, ps). prefixes_fit L ps) (elems kvs) \<Longrightarrow>
      reads_as E L w (hr_NetworkInterfaceAddress_update (keep_or kvs))"
proof -
  show "reads_as E L w (hr_NetworkType_update (keep_or l))"
    if "on_values l (writeRuleItemUint8 L ruleItemNetworkType) = Inr w" "fits L (elems l)"
    by (rule reads_on_values [where upd = hr_NetworkType_update and p = "readRuleItemUint8 L" and body = "\<lambda>xs. sr_WriteUvarint L (length xs) @ xs",
          OF that(1) update_identity(17) not_final(17) writeRuleItemUint8_def])
      (use read_uint8s [OF assms(1) that(2)] in \<open>simp_all add: read_item_def rule_item_types\<close>)
  show "reads_as E L w (hr_NetworkInterfaceAddress_update (keep_or kvs))"
    if "on_values kvs (\<lambda>kvs. ruleItemNetworkInterfaceAddress # write_interface_addresses L kvs) = Inr w" "fits L (elems kvs)"
      "distinct (map fst (elems kvs))" "list_all (\<lambda>(k, ps). prefixes_fit L ps) (elems kvs)"
    by (rule reads_on_values [where upd = hr_NetworkInterfaceAddress_update and p = "read_interface_addresses E L" and
            body = "write_interface_addresses L",
          OF that(1) update_identity(20) not_final(20) refl])
      (use read_interface_addresses_write [OF assms that(2,3)] that(4) in \<open>simp_all add: read_item_def rule_item_types prefixes_fit_def\<close>)
  show "reads_as E L w (hr_DefaultInterfaceAddress_update (keep_or ps))"
    if "on_values ps (\<lambda>ps. ruleItemDefaultInterfaceAddress # write_prefixes L ps) = Inr w" "prefixes_fit L (elems ps)"
  proof (cases "elems ps = []")
    case True
    then have "keep_or ps = (\<lambda>x. x)" "w = []" using that(1) by (auto simp: keep_or_def on_values_def fun_eq_iff)
    then show ?thesis by (simp add: update_identity reads_as_Nil)
  next
    case False
    then have w: "w = ruleItemDefaultInterfaceAddress # write_prefixes L (elems ps)" "keep_or ps = (\<lambda>_. Some (elems ps))"
      using that(1) by (auto simp: on_values_def keep_or_def fun_eq_iff)
    have r: "read_prefixes E L (write_prefixes L (elems ps) @ rest, e) = Inr (elems ps, (rest, e))" for rest e
      using read_prefixes_write [OF assms, of "elems ps"] that(2) by (simp add: prefixes_fit_def)
    show ?thesis unfolding w
      by (intro reads_as_item not_final)
        (simp add: read_item_def rule_item_types and_then_def r return_value_def appended_def False)
  qed
qed

lemma read_item_sets:
  "read_item E L False lst ruleItemSourceIPCIDR rule = and_then (readIPSet E L) (\<lambda>v. return_value (hr_SourceIPSet_update (\<lambda>_. Some v) rule))"
  "read_item E L False lst ruleItemIPCIDR rule = and_then (readIPSet E L) (\<lambda>v. return_value (hr_IPSet_update (\<lambda>_. Some v) rule))"
  by (simp_all add: read_item_def rule_item_types Let_def)

lemma read_item_flags:
  "read_item E L False lst ruleItemNetworkIsExpensive rule = return_value (hr_NetworkIsExpensive_update (\<lambda>_. True) rule)"
  "read_item E L False lst ruleItemNetworkIsConstrained rule = return_value (hr_NetworkIsConstrained_update (\<lambda>_. True) rule)"
  by (simp_all add: read_item_def rule_item_types)

lemmas read_back =
  reads_strings [where upd = hr_Network_update, OF _ _ _ update_identity(2) not_final(2) read_item_strings(1)]
  reads_strings [where upd = hr_DomainKeyword_update, OF _ _ _ update_identity(4) not_final(4) read_item_strings(2)]
  reads_strings [where upd = hr_DomainRegex_update, OF _ _ _ update_identity(5) not_final(5) read_item_strings(3)]
  reads_strings [where upd = hr_SourcePortRange_update, OF _ _ _ update_identity(9) not_final(9) read_item_strings(4)]
  reads_strings [where upd = hr_PortRange_update, OF _ _ _ update_identity(11) not_final(11) read_item_strings(5)]
  reads_strings [where upd = hr_ProcessName_update, OF _ _ _ update_identity(12) not_final(12) read_item_strings(6)]
  reads_strings [where upd = hr_ProcessPath_update, OF _ _ _ update_identity(13) not_final(13) read_item_strings(7)]
  reads_strings [where upd = hr_ProcessPathRegex_update, OF _ _ _ update_identity(14) not_final(14) read_item_strings(8)]
  reads_strings [where upd = hr_PackageName_update, OF _ _ _ update_identity(15) not_final(15) read_item_strings(9)]
  reads_strings [where upd = hr_PackageNameRegex_update, OF _ _ since_version_values update_identity(16) not_final(16) read_item_strings(10)]
  reads_strings [where upd = hr_WIFISSID_update, OF _ _ _ update_identity(22) not_final(22) read_item_strings(11)]
  reads_strings [where upd = hr_WIFIBSSID_update, OF _ _ _ update_identity(23) not_final(23) read_item_strings(12)]
  reads_uint16s [where upd = hr_QueryType_update, OF _ _ _ update_identity(1) not_final(1) read_item_uint16s(1)]
  reads_uint16s [where upd = hr_SourcePort_update, OF _ _ _ update_identity(8) not_final(8) read_item_uint16s(2)]
  reads_uint16s [where upd = hr_Port_update, OF _ _ _ update_identity(10) not_final(10) read_item_uint16s(3)]
  reads_cidr [where upd = hr_SourceIPSet_update, OF _ _ _ _ update_identity(6) not_final(6) read_item_sets(1)]
  reads_cidr [where upd = hr_IPSet_update, OF _ _ _ _ update_identity(7) not_final(7) read_item_sets(2)]
  reads_flag [where upd = hr_NetworkIsExpensive_update, OF _ not_final(18) update_identity(18) read_item_flags(1)]
  reads_flag [where upd = hr_NetworkIsConstrained_update, OF _ not_final(19) update_identity(19) read_item_flags(2)]
  reads_matcher
  reads_adguard
  reads_interfaces(1) [OF _ _ since_version_values]
  reads_interfaces(2) [OF _ _ since_version_values]
  reads_interfaces(3) [OF _ _ since_version_values]

lemma write_items_read:
  assumes "srs_documented E L" "16 \<le> sr_maxSlice L" "options_fit E L rule"
  shows "list_all2 (\<lambda>x f. \<forall>w. x = Inr w \<longrightarrow> reads_as E L w f) (write_items E L v rule) (read_updates E L v rule)"
  using assms unfolding write_items_defs append.simps read_updates_def Let_def options_fit_def list.pred_inject list_all2_Cons list_all2_Nil
  by (elim conjE, intro conjI allI impI refl) (rule read_back; assumption)+


text \<open>What a rule is after it was written and read: lists of domains and prefixes have become a matcher and a set of ranges.\<close>

definition compiled_options :: "env \<Rightarrow> srs_library \<Rightarrow> 8 word \<Rightarrow> DefaultHeadlessRuleOptions \<Rightarrow> DefaultHeadlessRuleOptions" where
  "compiled_options E L v rule =
     (fold (\<lambda>f r. f r) (read_updates E L v rule) DefaultHeadlessRuleOptions_zero)\<lparr>hr_Invert := hr_Invert rule\<rparr>"

lemma readDefaultRule_write:
  assumes "srs_documented E L" "16 \<le> sr_maxSlice L" "options_fit E L rule" "writeDefaultRule E L v rule = Inr w"
  shows "\<exists>b. w = 0 # b \<and> (\<forall>rest e. readDefaultRule E L False 0 DefaultHeadlessRuleOptions_zero (b @ rest, e) =
    Inr (compiled_options E L v rule, (rest, e)))"
proof -
  obtain items where c: "concat_res (write_items E L v rule) = Inr items"
    and w: "w = 0 # items @ [ruleItemFinal, if hr_Invert rule then 1 else 0]"
    using assms(4) by (cases "concat_res (write_items E L v rule)") (auto simp: writeDefaultRule_def)
  have r: "reads_as E L items (\<lambda>r. fold (\<lambda>f r. f r) (read_updates E L v rule) r)"
    by (rule reads_as_all [OF c write_items_read [OF assms(1-3)]])
  have fin: "readDefaultRule E L False lst rl (ruleItemFinal # b # rest, e) = Inr (rl\<lparr>hr_Invert := (b \<noteq> 0)\<rparr>, (rest, e))" for lst rl b rest e
    by (simp add: readDefaultRule.simps ReadByte_Cons and_then_def return_value_def)
  have "readDefaultRule E L False 0 DefaultHeadlessRuleOptions_zero
      ((items @ [ruleItemFinal, if hr_Invert rule then 1 else 0]) @ rest, e) = Inr (compiled_options E L v rule, (rest, e))" for rest e
  proof -
    obtain lst where "readDefaultRule E L False 0 DefaultHeadlessRuleOptions_zero
        (items @ [ruleItemFinal, if hr_Invert rule then 1 else 0] @ rest, e) =
        readDefaultRule E L False lst (fold (\<lambda>f r. f r) (read_updates E L v rule) DefaultHeadlessRuleOptions_zero)
          ([ruleItemFinal, if hr_Invert rule then 1 else 0] @ rest, e)"
      using r unfolding reads_as_def by blast
    then show ?thesis by (simp add: fin compiled_options_def)
  qed
  then show ?thesis using w by blast
qed

text \<open>The same for a rule of either type.\<close>

fun compiled_rule :: "env \<Rightarrow> srs_library \<Rightarrow> 8 word \<Rightarrow> headless_options \<Rightarrow> headless_options" where
  "compiled_rule E L v (OptionRule type opts mode rules neg act) =
     (if type = RuleTypeDefault then OptionRule RuleTypeDefault (compiled_options E L v opts) [] [] False ()
      else OptionRule type DefaultHeadlessRuleOptions_zero mode (map (compiled_rule E L v) rules) neg ())"

fun rule_fits :: "env \<Rightarrow> srs_library \<Rightarrow> headless_options \<Rightarrow> bool" where
  "rule_fits E L (OptionRule type opts mode rules neg act) \<longleftrightarrow>
     (if type = RuleTypeDefault then options_fit E L opts else fits L rules \<and> list_all (rule_fits E L) rules)"

fun rule_depth :: "('d, 'a) option_rule \<Rightarrow> nat" where
  "rule_depth (OptionRule type opts mode rules neg act) = Suc (foldr max (map rule_depth rules) 0)"

lemma read_indexed_write:
  assumes "concat_res (map w xs) = Inr b"
    and "\<And>x wx rest e. x \<in> set xs \<Longrightarrow> w x = Inr wx \<Longrightarrow> p (wx @ rest, e) = Inr (f x, (rest, e))"
  shows "read_indexed what i (length xs) p (b @ rest, e) = Inr (map f xs, (rest, e))"
  using assms
proof (induction xs arbitrary: b i)
  case (Cons x xs)
  then obtain wx wxs where wx: "w x = Inr wx" "concat_res (map w xs) = Inr wxs" "b = wx @ wxs"
    by (cases "w x"; cases "concat_res (map w xs)") auto
  have "p (wx @ wxs @ rest, e) = Inr (f x, (wxs @ rest, e))" using Cons.prems(2) wx(1) by simp
  moreover have "read_indexed what (Suc i) (length xs) p (wxs @ rest, e) = Inr (map f xs, (rest, e))"
    using Cons.IH [OF wx(2)] Cons.prems(2) by simp
  ultimately show ?case by (simp add: wx(3) cause_res_def)
qed simp

lemma rule_depth_sub: "x \<in> set rules \<Longrightarrow> rule_depth x \<le> foldr max (map rule_depth rules) 0"
  by (induction rules) auto

lemma readRule_write:
  assumes "srs_documented E L" "16 \<le> sr_maxSlice L"
  shows "rule_fits E L rule \<Longrightarrow> writeRule E L v rule = Inr w \<Longrightarrow> rule_depth rule \<le> fuel \<Longrightarrow>
    readRule E L False fuel (w @ rest, e) = Inr (compiled_rule E L v rule, (rest, e))"
proof (induction rule arbitrary: w fuel rest e)
  case (OptionRule type opts mode rules neg act)
  obtain f1 where f1: "fuel = Suc f1" using OptionRule.prems(3) by (cases fuel) auto
  show ?case
  proof (cases "type = RuleTypeDefault")
    case True
    then obtain b where b: "w = 0 # b" "readDefaultRule E L False 0 DefaultHeadlessRuleOptions_zero (b @ rest, e) =
        Inr (compiled_options E L v opts, (rest, e))"
      using readDefaultRule_write [OF assms, of opts v w] OptionRule.prems by auto
    then show ?thesis using True by (simp add: f1 and_then_def ReadByte_Cons return_value_def)
  next
    case False
    then obtain m b where m: "mode = LogicalTypeAnd \<and> m = 0 \<or> mode = LogicalTypeOr \<and> m = 1" and type: "type = RuleTypeLogical"
      and b: "concat_res (map (writeRule E L v) rules) = Inr b"
      and w: "w = 1 # m # sr_WriteUvarint L (length rules) @ b @ [if neg then 1 else 0]"
      using OptionRule.prems(2)
      by (cases "concat_res (map (writeRule E L v) rules)") (auto simp: writeLogicalRule_def bind_res_Inr split: if_splits)
    have fit: "length rules \<le> sr_maxSlice L" "\<And>x. x \<in> set rules \<Longrightarrow> rule_fits E L x"
      using OptionRule.prems(1) False by (auto simp: fits_def list_all_iff)
    have "read_indexed ''read logical rule '' 0 (length rules) (readRule E L False f1) (b @ [if neg then 1 else 0] @ rest, e) =
        Inr (map (compiled_rule E L v) rules, ([if neg then 1 else 0] @ rest, e))"
    proof (rule read_indexed_write [OF b])
      fix x wx rest e assume x: "x \<in> set rules" "writeRule E L v x = Inr wx"
      have "rule_depth x \<le> f1" using rule_depth_sub [OF x(1)] OptionRule.prems(3) f1 by simp
      then show "readRule E L False f1 (wx @ rest, e) = Inr (compiled_rule E L v x, (rest, e))"
        using OptionRule.IH [OF x(1) fit(2) [OF x(1)] x(2)] by blast
    qed
    then show ?thesis
      using m type False documented_uvarint [OF assms(1) fit(1)] make_slice_ok [OF fit(1)]
      by (auto simp: f1 w readLogicalRule_def and_then_def ReadByte_Cons return_value_def)
  qed
qed


subsection \<open>Reading a rule set back\<close>

lemma documented_uvarint_nonempty: "srs_documented E L \<Longrightarrow> n \<le> sr_maxSlice L \<Longrightarrow> sr_WriteUvarint L n \<noteq> []"
  using documented_uvarint [of E L n "[]" "io_EOF"] by (auto simp: srs_ReadUvarint_def uvarint_loop.simps)

text \<open>
  C7. Compiling a rule set loses nothing.  What was written for a version that exists is read back as the same version and the
  same rules in the same order and nesting, every item of them with its values; the domains and the prefixes come back
  as the matcher and the ranges that were built from them.  The libraries behave as documented, and the rules have values
  of the sizes that a program can hold and addresses without zone.\<close>

theorem srs_round_trip:
  assumes "srs_documented E L" "16 \<le> sr_maxSlice L" "v \<le> RuleSetVersionCurrent"
    and "fits L rules" "list_all (rule_fits E L) rules"
    and written: "srs_file_Write E L rules v = Inr content"
  shows "srs_file_Read E L False content = Inr \<lparr>pc_Version = v, pc_Rules = map (compiled_rule E L v) rules\<rparr>"
proof -
  obtain b where b: "concat_res (map (writeRule E L v) rules) = Inr b"
    and content: "content = MagicBytes @ [v] @ sr_Compress L (sr_WriteUvarint L (length rules) @ b)"
    using written by (cases "concat_res (map (writeRule E L v) rules)") (auto simp: srs_file_Write_def)
  let ?data = "sr_WriteUvarint L (length rules) @ b"
  define big where "big = Suc (length ?data) + foldr max (map rule_depth rules) 0"
  have n: "length rules \<le> sr_maxSlice L" using assms(4) by (simp add: fits_def)
  have "read_indexed ''read rule'' 0 (length rules) (readRule E L False big) (b @ [], io_EOF) =
      Inr (map (compiled_rule E L v) rules, ([], io_EOF))"
  proof (rule read_indexed_write [OF b])
    fix x wx rest e assume x: "x \<in> set rules" "writeRule E L v x = Inr wx"
    then show "readRule E L False big (wx @ rest, e) = Inr (compiled_rule E L v x, (rest, e))"
      using rule_depth_sub [OF x(1)] assms(5)
      by (intro readRule_write [OF assms(1,2)]) (auto simp: list_all_iff big_def)
  qed
  moreover have "read_indexed ''read rule'' 0 (length rules) (readRule E L False (length ?data)) (b, io_EOF) =
      read_indexed ''read rule'' 0 (length rules) (readRule E L False big) (b, io_EOF)"
  proof -
    obtain c cs where "sr_WriteUvarint L (length rules) = c # cs"
      using documented_uvarint_nonempty [OF assms(1) n] by (cases "sr_WriteUvarint L (length rules)") auto
    then show ?thesis by (intro read_indexed_cong readRule_consumes readRule_fuel) (auto simp: big_def)
  qed
  moreover have "sr_NewReader L (sr_Compress L ?data) = Inr (?data, io_EOF)" using assms(1) by (simp add: srs_documented_def)
  moreover have "srs_ReadFull 3 (MagicBytes @ rest, e) = Inr (MagicBytes, (rest, e))" for rest e
    by (rule ReadFull_append) (simp add: MagicBytes_def)
  ultimately show ?thesis
    using assms(3) documented_uvarint [OF assms(1) n] make_slice_ok [OF n]
    by (simp add: srs_file_Read_def content ReadByte_Cons and_then_def not_less)
qed

text \<open>
  C36. Every rule that \<^verbatim>\<open>Read\<close> returns has one of the two types, at every depth, and its version is one the program knows or
  zero, which \<^verbatim>\<open>Upgrade\<close> refuses.  So building the rules of a binary file cannot panic on an unknown type.\<close>

theorem srs_read_types:
  assumes "srs_file_Read E L recover content = Inr p"
  shows "list_all decoded (pc_Rules p) \<and> (pc_Version p = 0 \<or> PlainRuleSetCompat_Upgrade p = Inr (pc_Rules p))"
proof -
  obtain n k r r1 rules version where sub: "read_indexed ''read rule'' 0 n (readRule E L recover k) r = Inr (rules, r1)"
    and p: "p = \<lparr>pc_Version = version, pc_Rules = rules\<rparr>" and v: "version \<le> 5"
    using assms unfolding srs_file_Read_def
    by (auto simp: bind_res_Inr and_then_Inr rule_set_versions not_less split: if_splits)
  have "list_all decoded rules" by (rule read_indexed_all [OF sub]) (rule readRule_decoded)
  moreover have "version = 0 \<or> version \<in> set RuleSetVersions"
  proof -
    have "unat version \<le> 5" using v by (simp add: word_le_nat_alt)
    then have "unat version \<in> {0, 1, 2, 3, 4, 5}" by auto
    then show ?thesis by (auto simp: RuleSetVersions_def word_unat_eq_iff)
  qed
  ultimately show ?thesis by (auto simp: p PlainRuleSetCompat_Upgrade_def)
qed


subsection \<open>An example\<close>

text \<open>A library: the usual variable-length integers, data that is not compressed, and matchers that are written as their strings.\<close>

fun put_uvarint :: "nat \<Rightarrow> bytes" where
  "put_uvarint n = (if n < 128 then [of_nat n] else of_nat (n mod 128 + 128) # put_uvarint (n div 128))"

declare put_uvarint.simps [simp del]

lemma uvarint_byte:
  fixes n :: nat
  shows "n < 128 \<Longrightarrow> (of_nat n :: 8 word) < 0x80 \<and> unat (of_nat n :: 8 word) = n"
    and "\<not> (of_nat (n mod 128 + 128) :: 8 word) < 0x80 \<and> unat ((of_nat (n mod 128 + 128) :: 8 word) AND 0x7F) = n mod 128"
proof -
  show "(of_nat n :: 8 word) < 0x80 \<and> unat (of_nat n :: 8 word) = n" if "n < 128"
    using that by (simp add: word_less_nat_alt unat_of_nat)
  have "n mod 128 + 128 < 256" by simp
  then have u: "unat (of_nat (n mod 128 + 128) :: 8 word) = n mod 128 + 128" by (simp only: unat_of_nat) simp
  have "w AND 0x7F = take_bit 7 w" for w :: "8 word" by (simp add: take_bit_eq_mask mask_numeral)
  then have "unat (w AND 0x7F) = unat w mod 128" for w :: "8 word"
    by (simp only: unsigned_take_bit_eq) (simp add: take_bit_eq_mod)
  then have "unat ((of_nat (n mod 128 + 128) :: 8 word) AND 0x7F) = n mod 128" using u by simp
  then show "\<not> (of_nat (n mod 128 + 128) :: 8 word) < 0x80 \<and> unat ((of_nat (n mod 128 + 128) :: 8 word) AND 0x7F) = n mod 128"
    using u by (simp add: word_less_nat_alt)
qed

lemma uvarint_loop_put:
  "n < 2 ^ (64 - 7 * i) \<Longrightarrow> i \<le> 9 \<Longrightarrow> uvarint_loop i x (put_uvarint n @ rest, e) = Inr (x + n * 2 ^ (7 * i), (rest, e))"
proof (induction n arbitrary: i x rule: put_uvarint.induct)
  case (1 n)
  show ?case
  proof (cases "n < 128")
    case True
    note b = uvarint_byte(1) [OF True]
    have "\<not> (i = 9 \<and> (of_nat n :: 8 word) > 1)" using b "1.prems"(1) by (auto simp: word_less_nat_alt)
    then show ?thesis using b True "1.prems"(2) by (simp add: put_uvarint.simps [of n] uvarint_loop.simps [of i])
  next
    case False
    then have i: "Suc i \<le> 9" using "1.prems" by (cases "i = 9") auto
    have pow: "(2 :: nat) ^ (64 - 7 * i) = 128 * 2 ^ (64 - 7 * Suc i)"
    proof -
      have "64 - 7 * i = 7 + (64 - 7 * Suc i)" using i by simp
      then have "(2 :: nat) ^ (64 - 7 * i) = 2 ^ 7 * 2 ^ (64 - 7 * Suc i)" by (simp only: power_add)
      then show ?thesis by simp
    qed
    then have "n div 128 < 2 ^ (64 - 7 * Suc i)" using "1.prems"(1) by (simp add: less_mult_imp_div_less mult.commute)
    note ih = "1.IH" [OF False this i, of "x + (n mod 128) * 2 ^ (7 * i)"]
    have "m = r + q * 128 \<Longrightarrow> x + r * p + q * (128 * p) = x + m * p" for m r q p :: nat by (simp add: algebra_simps)
    from this [of n "n mod 128" "n div 128" "2 ^ (7 * i)"]
    have val: "x + n mod 128 * 2 ^ (7 * i) + n div 128 * 2 ^ (7 * Suc i) = x + n * 2 ^ (7 * i)" by (simp add: power_add)
    show ?thesis
      using ih [unfolded val] uvarint_byte(2) [of n] False i by (simp add: put_uvarint.simps [of n] uvarint_loop.simps [of i])
  qed
qed

lemma read_put_uvarint: "n < 2 ^ 64 \<Longrightarrow> srs_ReadUvarint (put_uvarint n @ rest, e) = Inr (n, (rest, e))"
  using uvarint_loop_put [of n 0 0] by (simp add: srs_ReadUvarint_def)


fun dec_strings :: "string \<Rightarrow> bytes \<Rightarrow> (string list \<times> nat) option" where
  "dec_strings acc [] = None"
| "dec_strings acc (b # bs) =
     (if b = 0 then Some ([], 1)
      else if b = 2 then map_option (\<lambda>(xs, n). (acc # xs, Suc n)) (dec_strings [] bs)
      else case bs of [] \<Rightarrow> None | c # cs \<Rightarrow> map_option (\<lambda>(xs, n). (xs, n + 2)) (dec_strings (acc @ [char_of (unat c)]) cs))"

definition enc_string :: "string \<Rightarrow> bytes" where
  "enc_string s = concat (map (\<lambda>c. [1, of_char c]) s) @ [2]"

definition enc_strings :: "string list \<Rightarrow> bytes" where
  "enc_strings xs = concat (map enc_string xs) @ [0]"

lemma dec_string: "dec_strings acc (enc_string s @ rest) =
    map_option (\<lambda>(xs, n). ((acc @ s) # xs, n + length (enc_string s))) (dec_strings [] rest)"
proof (induction s arbitrary: acc)
  case (Cons c s)
  have "char_of (unat (of_char c :: 8 word)) = c" using bytes_str_of_str_bytes [of "[c]"] by (simp add: bytes_str_def str_bytes_def)
  then have "dec_strings acc (enc_string (c # s) @ rest) =
      map_option (\<lambda>(xs, n). (xs, n + 2)) (dec_strings (acc @ [c]) (enc_string s @ rest))"
    by (simp add: enc_string_def)
  moreover have "length (enc_string (c # s)) = length (enc_string s) + 2" by (simp add: enc_string_def)
  ultimately show ?case by (simp add: Cons.IH option.map_comp o_def split_def)
qed (simp add: enc_string_def split_def)

lemma dec_strings_enc: "dec_strings [] (enc_strings xs @ rest) = Some (xs, length (enc_strings xs))"
  by (induction xs) (simp_all add: enc_strings_def dec_string [of "[]", simplified])

definition ex_srs :: srs_library where
  "ex_srs = \<lparr>sr_NewReader = (\<lambda>bs. Inr (bs, io_EOF)), sr_Compress = (\<lambda>bs. bs), sr_WriteUvarint = put_uvarint,
     sr_ReadMatcher = (\<lambda>(bs, e). case dec_strings [] bs of None \<Rightarrow> Inl e | Some (ds, n) \<Rightarrow>
        (case dec_strings [] (drop n bs) of None \<Rightarrow> Inl e | Some (ss, k) \<Rightarrow> Inr (NewMatcher ds ss, n + k))),
     sr_NewMatcher = (\<lambda>ds ss _. NewMatcher ds ss),
     sr_WriteMatcher = (\<lambda>m. case m of NewMatcher ds ss \<Rightarrow> enc_strings ds @ enc_strings ss | RawMatcher _ \<Rightarrow> []),
     sr_DumpMatcher = (\<lambda>_. (None, None)),
     sr_ReadAdGuardMatcher = (\<lambda>(bs, e). case dec_strings [] bs of None \<Rightarrow> Inl e | Some (ds, n) \<Rightarrow> Inr (NewAdGuardMatcher ds, n)),
     sr_WriteAdGuardMatcher = (\<lambda>m. case m of NewAdGuardMatcher ds \<Rightarrow> enc_strings ds | RawAdGuard _ \<Rightarrow> []),
     sr_DumpAdGuardMatcher = (\<lambda>_. None),
     sr_Ranges = (\<lambda>es. concat (map (\<lambda>x. case x of IPAddr a \<Rightarrow> [(a, a)] | IPPrefix p \<Rightarrow> [(p_Addr p, p_Addr p)]) es)),
     sr_Prefixes = (\<lambda>_. []), sr_maxSlice = 2 ^ 40\<rparr>"

definition slice_addr :: "bytes \<Rightarrow> addr" where
  "slice_addr bs = (case AddrFromSlice bs of None \<Rightarrow> AddrZero | Some a \<Rightarrow> a)"

definition ex_srs_env :: env where
  "ex_srs_env = plain_env\<lparr>AddrFromIP := slice_addr, netip_ParseAddr := (\<lambda>_. Inr (Addr4 0x01020304))\<rparr>"

lemma ex_srs_documented: "srs_documented ex_srs_env ex_srs"
proof -
  have "slice_addr (addr_AsSlice a) = a" if "plain_addr a" for a
    using that by (cases a) (simp_all add: plain_addr_def slice_addr_def AddrFromSlice_def AddrFrom4_def AddrFrom16_def bytes_word_of_word_bytes)
  moreover have "dec_strings [] (enc_strings ds @ enc_strings ss @ rest) = Some (ds, length (enc_strings ds))" for ds ss rest
    by (rule dec_strings_enc)
  ultimately show ?thesis
    by (simp add: srs_documented_def ex_srs_def ex_srs_env_def read_put_uvarint dec_strings_enc)
qed

definition ex_source_rule :: headless_options where
  "ex_source_rule = OptionRule RuleTypeLogical DefaultHeadlessRuleOptions_zero LogicalTypeOr
     [OptionRule RuleTypeDefault (DefaultHeadlessRuleOptions_zero\<lparr>hr_Domain := Some [''a''], hr_IPCIDR := Some [''1.2.3.4'']\<rparr>) [] [] False (),
      OptionRule RuleTypeDefault (DefaultHeadlessRuleOptions_zero\<lparr>hr_Port := Some [443], hr_Invert := True\<rparr>) [] [] False ()]
     True ()"

definition ex_compiled_rule :: headless_options where
  "ex_compiled_rule = OptionRule RuleTypeLogical DefaultHeadlessRuleOptions_zero LogicalTypeOr
     [OptionRule RuleTypeDefault (DefaultHeadlessRuleOptions_zero\<lparr>hr_DomainMatcher := Some (NewMatcher [''a''] []),
        hr_IPSet := Some (RawIPSet [(Addr4 0x01020304, Addr4 0x01020304)])\<rparr>) [] [] False (),
      OptionRule RuleTypeDefault (DefaultHeadlessRuleOptions_zero\<lparr>hr_Port := Some [443], hr_Invert := True\<rparr>) [] [] False ()]
     True ()"

lemmas ex_srs_simps = ex_source_rule_def ex_srs_def ex_srs_env_def plain_env_def RuleTypeDefault_def RuleTypeLogical_def LogicalTypeOr_def
  LogicalTypeAnd_def DefaultHeadlessRuleOptions_zero_def

lemma ex_srs_written:
  "\<exists>content. srs_file_Write ex_srs_env ex_srs [ex_source_rule] RuleSetVersion5 = Inr content"
  by (simp add: srs_file_Write_def ex_srs_simps writeLogicalRule_def writeDefaultRule_def write_items_defs on_values_def since_version_def
      writeRuleItemCIDR_def cause_res_def)

lemma srs_round_trip_witness:
  "\<exists>content. srs_file_Write ex_srs_env ex_srs [ex_source_rule] RuleSetVersion5 = Inr content \<and>
     srs_file_Read ex_srs_env ex_srs False content = Inr \<lparr>pc_Version = 5, pc_Rules = [ex_compiled_rule]\<rparr>"
proof -
  obtain content where w: "srs_file_Write ex_srs_env ex_srs [ex_source_rule] RuleSetVersion5 = Inr content"
    using ex_srs_written by blast
  have fit: "list_all (rule_fits ex_srs_env ex_srs) [ex_source_rule]" "fits ex_srs [ex_source_rule]"
    by (simp_all add: ex_srs_simps options_fit_def fits_def strings_fit_def ranges_fit_def prefixes_fit_def plain_addr_def)
  have "map (compiled_rule ex_srs_env ex_srs RuleSetVersion5) [ex_source_rule] = [ex_compiled_rule]"
    by (simp add: ex_compiled_rule_def ex_srs_simps compiled_options_def read_updates_def keep_or_def keep_matcher_def keep_ranges_def
        keep_adguard_def)
  then show ?thesis
    using w srs_round_trip [OF ex_srs_documented _ _ fit(2,1) w] by (simp add: rule_set_versions ex_srs_def)
qed


text \<open>A file with one inverted rule that has no item.\<close>

lemma srs_read_types_witness:
  "\<exists>p. srs_file_Read ex_srs_env ex_srs False [0x53, 0x52, 0x53, 5, 1, 0, 0xFF, 1] = Inr p \<and>
     length (pc_Rules p) = 1 \<and> list_all decoded (pc_Rules p) \<and> PlainRuleSetCompat_Upgrade p = Inr (pc_Rules p)"
proof -
  obtain p where p: "srs_file_Read ex_srs_env ex_srs False [0x53, 0x52, 0x53, 5, 1, 0, 0xFF, 1] = Inr p"
      "length (pc_Rules p) = 1" "pc_Version p = 5"
    by (simp add: srs_file_Read_def srs_ReadFull_def MagicBytes_def srs_ReadByte_def rule_set_versions ex_srs_def and_then_def
        srs_ReadUvarint_def uvarint_loop.simps make_slice_def return_value_def readDefaultRule.simps ruleItemFinal_def cause_res_def)
  then show ?thesis using srs_read_types [OF p(1)] by auto
qed

end
