(* ===== verification/Awg.thy ===== *)
theory Awg
  imports Route
begin

text \<open>
  The AmneziaWG endpoint: its options (\<^verbatim>\<open>option/awg.go\<close>), the configuration it writes for the device, its dialing and the
  metadata of the connections that arrive through it (\<^verbatim>\<open>protocol/awg/endpoint.go\<close>), and the adapter between the device and the
  dialer (\<^verbatim>\<open>transport/awg/bind.go\<close>).

  The device itself is the library \<^verbatim>\<open>amneziawg-go\<close>, which reads its configuration line by line.  The decoding of keys, the
  text of addresses and the helpers of \<^verbatim>\<open>sing\<close> are arguments.
\<close>

subsection \<open>Options\<close>

record AwgPeerOptions =
  ap_Address :: string
  ap_Port :: "16 word"
  ap_PublicKey :: string
  ap_PresharedKey :: string
  ap_AllowedIPs :: "prefix list"
  ap_PersistentKeepaliveInterval :: "16 word"

record AwgEndpointOptions =
  ae_UseIntegratedTun :: bool
  ae_PrivateKey :: string
  ae_Address :: "prefix list"
  ae_MTU :: "32 word"
  ae_ListenPort :: "16 word"
  ae_Jc :: int
  ae_Jmin :: int
  ae_Jmax :: int
  ae_S1 :: int
  ae_S2 :: int
  ae_S3 :: int
  ae_S4 :: int
  ae_H1 :: string
  ae_H2 :: string
  ae_H3 :: string
  ae_H4 :: string
  ae_I1 :: string
  ae_I2 :: string
  ae_I3 :: string
  ae_I4 :: string
  ae_I5 :: string
  ae_Peers :: "AwgPeerOptions list"

record awg_library =
  aw_DecodeString :: "string \<Rightarrow> bytes res"
  aw_ParseAddr :: "string \<Rightarrow> addr"
  aw_AddrString :: "addr \<Rightarrow> string"
  aw_PrefixString :: "prefix \<Rightarrow> string"
  aw_IsFqdn :: "socksaddr \<Rightarrow> bool"
  aw_SocksaddrString :: "socksaddr \<Rightarrow> string"
  aw_IPSet :: "ip_elem list \<Rightarrow> prefix list res"

subsection \<open>The configuration of the device\<close>

definition hex_digit :: "nat \<Rightarrow> char" where
  "hex_digit n = ''0123456789abcdef'' ! n"

definition hex_EncodeToString :: "bytes \<Rightarrow> string" where
  "hex_EncodeToString bs = concat (map (\<lambda>b. [hex_digit (unat b div 16), hex_digit (unat b mod 16)]) bs)"

definition format_int :: "int \<Rightarrow> string" where
  "format_int i = (if i < 0 then ''-'' @ itoa (nat (- i)) else itoa (nat i))"

definition newline :: char where "newline = CHR 0x0A"

definition line :: "string \<Rightarrow> string \<Rightarrow> string" where
  "line key val = newline # key @ ''='' @ val"

definition line_if :: "bool \<Rightarrow> string \<Rightarrow> string \<Rightarrow> string" where
  "line_if b key val = (if b then line key val else [])"

text \<open>The address of a peer: a domain goes through the resolver, which is there if some peer has a domain.\<close>

definition peer_endpoint ::
  "awg_library \<Rightarrow> (string \<Rightarrow> addr res) option \<Rightarrow> AwgPeerOptions \<Rightarrow> string res" where
  "peer_endpoint L resolvePeer peer =
     (if addr_IsValid (aw_ParseAddr L (ap_Address peer)) then Inr (ap_Address peer)
      else case resolvePeer of
        None \<Rightarrow> Inl (New (''peer address is a domain but no resolver provided: '' @ ap_Address peer))
      | Some resolve \<Rightarrow>
          (case resolve (ap_Address peer) of
             Inl e \<Rightarrow> Inl (Cause e (''resolve peer endpoint '' @ ap_Address peer))
           | Inr a \<Rightarrow> Inr (aw_AddrString L a)))"

definition peer_config :: "awg_library \<Rightarrow> (string \<Rightarrow> addr res) option \<Rightarrow> AwgPeerOptions \<Rightarrow> string res" where
  "peer_config L resolvePeer peer =
     bind_res (aw_DecodeString L (ap_PublicKey peer)) (\<lambda>publicKey.
     bind_res (if ap_PresharedKey peer = [] then Inr []
               else map_sum id (\<lambda>k. line ''preshared_key'' (hex_EncodeToString k)) (aw_DecodeString L (ap_PresharedKey peer)))
       (\<lambda>preshared.
     bind_res (if ap_Address peer = [] \<or> ap_Port peer = 0 then Inr []
               else map_sum id (\<lambda>a. line ''endpoint'' (a @ '':'' @ itoa (unat (ap_Port peer)))) (peer_endpoint L resolvePeer peer))
       (\<lambda>endpoint.
     Inr (line ''public_key'' (hex_EncodeToString publicKey) @ preshared @ endpoint @
       line_if (ap_PersistentKeepaliveInterval peer \<noteq> 0) ''persistent_keepalive_interval''
         (itoa (unat (ap_PersistentKeepaliveInterval peer))) @
       concat (map (\<lambda>p. line ''allowed_ip'' (aw_PrefixString L p)) (ap_AllowedIPs peer))))))"

fun peers_config :: "awg_library \<Rightarrow> (string \<Rightarrow> addr res) option \<Rightarrow> AwgPeerOptions list \<Rightarrow> string res" where
  "peers_config L resolvePeer [] = Inr []"
| "peers_config L resolvePeer (peer # peers) =
     bind_res (peer_config L resolvePeer peer) (\<lambda>s. map_sum id ((@) s) (peers_config L resolvePeer peers))"

definition genIpcConfig :: "awg_library \<Rightarrow> AwgEndpointOptions \<Rightarrow> (string \<Rightarrow> addr res) option \<Rightarrow> string res" where
  "genIpcConfig L opts resolvePeer =
     bind_res (aw_DecodeString L (ae_PrivateKey opts)) (\<lambda>privateKey.
     map_sum id ((@) (''private_key='' @ hex_EncodeToString privateKey @
       line_if (ae_ListenPort opts \<noteq> 0) ''listen_port'' (itoa (unat (ae_ListenPort opts))) @
       line_if (ae_Jc opts \<noteq> 0) ''jc'' (format_int (ae_Jc opts)) @
       line_if (ae_Jmin opts \<noteq> 0) ''jmin'' (format_int (ae_Jmin opts)) @
       line_if (ae_Jmax opts \<noteq> 0) ''jmax'' (format_int (ae_Jmax opts)) @
       line_if (ae_S1 opts \<noteq> 0) ''s1'' (format_int (ae_S1 opts)) @
       line_if (ae_S2 opts \<noteq> 0) ''s2'' (format_int (ae_S2 opts)) @
       line_if (ae_S3 opts \<noteq> 0) ''s3'' (format_int (ae_S3 opts)) @
       line_if (ae_S4 opts \<noteq> 0) ''s4'' (format_int (ae_S4 opts)) @
       line_if (ae_H1 opts \<noteq> []) ''h1'' (ae_H1 opts) @
       line_if (ae_H2 opts \<noteq> []) ''h2'' (ae_H2 opts) @
       line_if (ae_H3 opts \<noteq> []) ''h3'' (ae_H3 opts) @
       line_if (ae_H4 opts \<noteq> []) ''h4'' (ae_H4 opts) @
       line_if (ae_I1 opts \<noteq> []) ''i1'' (ae_I1 opts) @
       line_if (ae_I2 opts \<noteq> []) ''i2'' (ae_I2 opts) @
       line_if (ae_I3 opts \<noteq> []) ''i3'' (ae_I3 opts) @
       line_if (ae_I4 opts \<noteq> []) ''i4'' (ae_I4 opts) @
       line_if (ae_I5 opts \<noteq> []) ''i5'' (ae_I5 opts)))
       (peers_config L resolvePeer (ae_Peers opts)))"

text \<open>
  \<^verbatim>\<open>NewEndpoint\<close>: \<open>newDialer\<close> is \<^verbatim>\<open>dialer.NewWithOptions\<close> on the dialer options of the endpoint, as a function of \<^verbatim>\<open>RemoteIsDomain\<close>, \<open>newDevice\<close> is \<^verbatim>\<open>awg.NewDevice\<close>, and
  \<open>LookupNetIP\<close> is the resolver of the system, of whose answer the first address is taken.
\<close>

definition remoteIsDomain :: "awg_library \<Rightarrow> AwgEndpointOptions \<Rightarrow> bool" where
  "remoteIsDomain L opts = list_ex (\<lambda>peer. \<not> addr_IsValid (aw_ParseAddr L (ap_Address peer))) (ae_Peers opts)"

definition resolve_first :: "(string \<Rightarrow> addr list res) \<Rightarrow> string \<Rightarrow> addr res" where
  "resolve_first LookupNetIP domain =
     bind_res (LookupNetIP domain) (\<lambda>addrs. case addrs of [] \<Rightarrow> Inl (Panic ''index out of range'') | a # _ \<Rightarrow> Inr a)"

record DeviceOpts =
  do_UseIntegratedTun :: bool
  do_Address :: "prefix list"
  do_AllowedIps :: "prefix list"
  do_ExcludedIps :: "prefix list"
  do_MTU :: "32 word"

record 'd AwgEndpoint =
  aep_Device :: 'd
  aep_tag :: string
  aep_type :: string
  aep_address :: "prefix list"

definition NewAwgEndpoint ::
  "awg_library \<Rightarrow> (bool \<Rightarrow> 'dial res) \<Rightarrow> (string \<Rightarrow> addr list res) \<Rightarrow> ('dial \<Rightarrow> string \<Rightarrow> DeviceOpts \<Rightarrow> 'd res) \<Rightarrow>
     string \<Rightarrow> AwgEndpointOptions \<Rightarrow> 'd AwgEndpoint res" where
  "NewAwgEndpoint L newDialer LookupNetIP newDevice tag options0 =
     (let options = (if ae_MTU options0 = 0 then options0\<lparr>ae_MTU := 1408\<rparr> else options0);
          isDomain = remoteIsDomain L options
      in bind_res (newDialer isDomain) (\<lambda>dial.
         bind_res (aw_IPSet L (map IPPrefix (concat (map ap_AllowedIPs (ae_Peers options))))) (\<lambda>allowedIps.
         bind_res (aw_IPSet L (map IPAddr (filter addr_IsValid (map (\<lambda>peer. aw_ParseAddr L (ap_Address peer)) (ae_Peers options)))))
           (\<lambda>excludedIps.
         bind_res (genIpcConfig L options (if isDomain then Some (resolve_first LookupNetIP) else None)) (\<lambda>ipc.
         map_sum id (\<lambda>dev. \<lparr>aep_Device = dev, aep_tag = tag, aep_type = ''awg'', aep_address = ae_Address options\<rparr>)
           (newDevice dial ipc
              \<lparr>do_UseIntegratedTun = ae_UseIntegratedTun options, do_Address = ae_Address options,
               do_AllowedIps = allowedIps, do_ExcludedIps = excludedIps, do_MTU = ae_MTU options\<rparr>))))))"

subsection \<open>Connections that arrive through the endpoint\<close>

text \<open>A connection to an address of the endpoint itself goes to the loopback address of the host.\<close>

definition loopback_of :: "addr \<Rightarrow> addr" where
  "loopback_of a = (if addr_Is4 a then Addr4 0x7F000001 else Addr6 1 [])"

fun connection_loop :: "prefix list \<Rightarrow> socksaddr \<Rightarrow> inbound_context \<Rightarrow> inbound_context \<times> socksaddr" where
  "connection_loop [] destination m = (m, destination)"
| "connection_loop (p # ps) destination m =
     (if prefix_Contains p (s_Addr destination)
      then (m\<lparr>m_OriginDestination := destination\<rparr>, destination\<lparr>s_Addr := loopback_of (s_Addr destination)\<rparr>)
      else connection_loop ps destination m)"

definition Endpoint_NewConnectionEx :: "'d AwgEndpoint \<Rightarrow> socksaddr \<Rightarrow> socksaddr \<Rightarrow> inbound_context" where
  "Endpoint_NewConnectionEx e source destination0 =
     (let m0 = InboundContextZero\<lparr>m_Inbound := aep_tag e, m_InboundType := aep_type e, m_Source := source\<rparr>;
          (m, destination) = connection_loop (aep_address e) destination0 m0
      in m\<lparr>m_Destination := destination\<rparr>)"

text \<open>
  Packets: the address translations the connection is wrapped in, the innermost first, each from one destination to another.
  This loop does not stop at the first address.
\<close>

fun packet_loop ::
  "prefix list \<Rightarrow> socksaddr \<Rightarrow> (socksaddr \<times> socksaddr) list \<Rightarrow> inbound_context \<Rightarrow> inbound_context \<times> (socksaddr \<times> socksaddr) list" where
  "packet_loop [] destination nat_conns m = (m, nat_conns)"
| "packet_loop (p # ps) destination nat_conns m =
     (if prefix_Contains p (s_Addr destination) then
        let m' = m\<lparr>m_OriginDestination := destination,
                   m_Destination := (m_Destination m)\<lparr>s_Addr := loopback_of (s_Addr destination)\<rparr>\<rparr>
        in packet_loop ps destination (nat_conns @ [(m_OriginDestination m', m_Destination m')]) m'
      else packet_loop ps destination nat_conns m)"

definition Endpoint_NewPacketConnectionEx ::
  "'d AwgEndpoint \<Rightarrow> socksaddr \<Rightarrow> socksaddr \<Rightarrow> inbound_context \<times> (socksaddr \<times> socksaddr) list" where
  "Endpoint_NewPacketConnectionEx e source destination =
     packet_loop (aep_address e) destination []
       (InboundContextZero\<lparr>m_Inbound := aep_tag e, m_InboundType := aep_type e, m_Source := source, m_Destination := destination\<rparr>)"

subsection \<open>Connections out of the endpoint\<close>

text \<open>
  \<^verbatim>\<open>DialContext\<close> and \<^verbatim>\<open>ListenPacket\<close>: \<open>serial\<close> is \<^verbatim>\<open>N.DialSerial\<close> and \<^verbatim>\<open>N.ListenSerial\<close> on the device, \<open>device\<close> the device.
  The first result is the list of the destinations the device is asked for.
\<close>

definition Endpoint_DialContext ::
  "awg_library \<Rightarrow> (string \<Rightarrow> addr list res) \<Rightarrow> (socksaddr \<Rightarrow> addr list \<Rightarrow> socksaddr list \<times> 'c res) \<Rightarrow> (socksaddr \<Rightarrow> 'c res) \<Rightarrow>
     socksaddr \<Rightarrow> socksaddr list \<times> 'c res" where
  "Endpoint_DialContext L lookup serial device destination =
     (if aw_IsFqdn L destination then
        (case lookup (s_Fqdn destination) of
           Inl e \<Rightarrow> ([], Inl e)
         | Inr destinationAddresses \<Rightarrow> serial destination destinationAddresses)
      else if \<not> addr_IsValid (s_Addr destination)
      then ([], Inl (New (''invalid destination: '' @ aw_SocksaddrString L destination)))
      else ([destination], device destination))"

definition Endpoint_ListenPacket ::
  "awg_library \<Rightarrow> (string \<Rightarrow> addr list res) \<Rightarrow> (socksaddr \<Rightarrow> addr list \<Rightarrow> socksaddr list \<times> 'c res) \<Rightarrow> (socksaddr \<Rightarrow> 'c res) \<Rightarrow>
     socksaddr \<Rightarrow> socksaddr list \<times> 'c res" where
  "Endpoint_ListenPacket L lookup serial device destination =
     (if aw_IsFqdn L destination then
        (case lookup (s_Fqdn destination) of
           Inl e \<Rightarrow> ([], Inl e)
         | Inr destinationAddresses \<Rightarrow> serial destination destinationAddresses)
      else ([destination], device destination))"

subsection \<open>The sockets of the device\<close>

text \<open>A socket is a number.\<close>

record bind_adapter =
  bd_conn4 :: "nat option"
  bd_conn6 :: "nat option"

definition newBind :: bind_adapter where
  "newBind = \<lparr>bd_conn4 = None, bd_conn6 = None\<rparr>"

definition ErrBindAlreadyOpen :: error where "ErrBindAlreadyOpen = Sentinel ''conn.ErrBindAlreadyOpen''"
definition EAFNOSUPPORT :: error where "EAFNOSUPPORT = Sentinel ''syscall.EAFNOSUPPORT''"
definition ErrUnsupported :: error where "ErrUnsupported = Sentinel ''errors.ErrUnsupported''"

definition sockets :: "nat option \<Rightarrow> nat list" where
  "sockets c = (case c of None \<Rightarrow> [] | Some n \<Rightarrow> [n])"

text \<open>
  \<open>connect4\<close> and \<open>connect6\<close> are what the dialer gives for the two unspecified addresses; a dialer that fails gives no socket.  The
  results are the sockets with a receive function, the adapter, and the sockets the dialer made.
\<close>

definition connected :: "string \<Rightarrow> nat res \<Rightarrow> nat option res" where
  "connected what r =
     (case r of Inr c \<Rightarrow> Inr (Some c) | Inl e \<Rightarrow> if error_Is e EAFNOSUPPORT then Inr None else Inl (Cause e what))"

definition Bind_Open :: "nat res \<Rightarrow> nat res \<Rightarrow> bind_adapter \<Rightarrow> nat list res \<times> bind_adapter \<times> nat list" where
  "Bind_Open connect4 connect6 b =
     (if bd_conn4 b \<noteq> None \<or> bd_conn6 b \<noteq> None then (Inl ErrBindAlreadyOpen, b, [])
      else case connected ''create ipv4 connection'' connect4 of
        Inl e \<Rightarrow> (Inl e, b, [])
      | Inr conn4 \<Rightarrow>
          (case connected ''create ipv6 connection'' connect6 of
             Inl e \<Rightarrow> (Inl e, b, sockets conn4)
           | Inr conn6 \<Rightarrow>
               (Inr (sockets conn4 @ sockets conn6), b\<lparr>bd_conn4 := conn4, bd_conn6 := conn6\<rparr>, sockets conn4 @ sockets conn6)))"

text \<open>\<open>close\<close> is the error a socket gives when it is closed.  The results are the error, the adapter and the sockets that were closed.\<close>

definition errors_Join :: "error option \<Rightarrow> error option \<Rightarrow> error option" where
  "errors_Join e f = (case e of None \<Rightarrow> f | Some a \<Rightarrow> (case f of None \<Rightarrow> Some a | Some b \<Rightarrow> Some (Joined a b)))"

definition Bind_Close :: "(nat \<Rightarrow> error option) \<Rightarrow> bind_adapter \<Rightarrow> error option \<times> bind_adapter \<times> nat list" where
  "Bind_Close close b =
     (errors_Join (Option.bind (bd_conn4 b) close) (Option.bind (bd_conn6 b) close),
      b\<lparr>bd_conn4 := None, bd_conn6 := None\<rparr>, sockets (bd_conn4 b) @ sockets (bd_conn6 b))"

text \<open>\<^verbatim>\<open>Send\<close>: \<open>transmit\<close> writes a packet to a socket.  The second result are the packets that were written, up to the first error.\<close>

datatype conn_endpoint = bind_endpoint addr_port | other_endpoint addr

fun DstIP :: "conn_endpoint \<Rightarrow> addr" where
  "DstIP (bind_endpoint ap) = fst ap"
| "DstIP (other_endpoint a) = a"

fun send_loop :: "(bytes \<Rightarrow> error option) \<Rightarrow> bytes list \<Rightarrow> error option \<times> bytes list" where
  "send_loop transmit [] = (None, [])"
| "send_loop transmit (buf # bufs) =
     (case transmit buf of
        Some e \<Rightarrow> (Some e, [])
      | None \<Rightarrow> map_prod id ((#) buf) (send_loop transmit bufs))"

definition Bind_Send ::
  "(nat \<Rightarrow> addr_port \<Rightarrow> bytes \<Rightarrow> error option) \<Rightarrow> bytes list \<Rightarrow> conn_endpoint \<Rightarrow> bind_adapter \<Rightarrow> error option \<times> bytes list" where
  "Bind_Send transmit bufs ep b =
     (case (if addr_Is6 (DstIP ep) then bd_conn6 b else bd_conn4 b) of
        None \<Rightarrow> (Some ErrUnsupported, [])
      | Some c \<Rightarrow> (case ep of other_endpoint _ \<Rightarrow> (Some ErrUnsupported, []) | bind_endpoint ap \<Rightarrow> send_loop (transmit c ap) bufs))"

text \<open>\<^verbatim>\<open>ParseEndpoint\<close> and \<^verbatim>\<open>receive\<close>, with \<^verbatim>\<open>netip.ParseAddrPort\<close> and the socket as arguments: the bytes read and the sender.\<close>

definition ParseEndpoint :: "(string \<Rightarrow> addr_port res) \<Rightarrow> string \<Rightarrow> conn_endpoint res" where
  "ParseEndpoint parseAddrPort s =
     (case parseAddrPort s of Inl e \<Rightarrow> Inl (Cause e ''parse addrport'') | Inr ap \<Rightarrow> Inr (bind_endpoint ap))"

definition Bind_receive :: "(string \<Rightarrow> addr_port res) \<Rightarrow> (bytes \<times> string) res \<Rightarrow> (bytes \<times> conn_endpoint) res" where
  "Bind_receive parseAddrPort readFrom =
     (case readFrom of
        Inl e \<Rightarrow> Inl (Cause e ''read data'')
      | Inr (data, from) \<Rightarrow>
          (case ParseEndpoint parseAddrPort from of
             Inl e \<Rightarrow> Inl (Cause e ''parse endpoint'') | Inr ep \<Rightarrow> Inr (data, ep)))"

subsection \<open>The device\<close>

text \<open>\<^verbatim>\<open>Device.Start\<close>: the errors of the three calls are arguments.  The second result says whether the library's device exists.\<close>

definition Device_Start :: "StartStage \<Rightarrow> error option \<Rightarrow> error option \<Rightarrow> error option \<Rightarrow> bool \<Rightarrow> error option \<times> bool" where
  "Device_Start stage ipcSet tunStart up created =
     (if stage \<noteq> StartStateStart then (None, created)
      else case ipcSet of
        Some e \<Rightarrow> (Some (Cause e ''set ipc config''), True)
      | None \<Rightarrow> (case tunStart of Some e \<Rightarrow> (Some (Cause e ''tun start''), True) | None \<Rightarrow> (up, True)))"

text \<open>The tunnel of \<^verbatim>\<open>newSystemTun\<close>: the addresses and the routes by address family.\<close>

record tun_options =
  to_Inet4Address :: "prefix list"
  to_Inet6Address :: "prefix list"
  to_Inet4RouteAddress :: "prefix list"
  to_Inet6RouteAddress :: "prefix list"
  to_Inet4RouteExcludeAddress :: "prefix list"
  to_Inet6RouteExcludeAddress :: "prefix list"
  to_MTU :: "32 word"

definition system_tun_options :: "DeviceOpts \<Rightarrow> tun_options" where
  "system_tun_options opts =
     \<lparr>to_Inet4Address = filter (\<lambda>p. addr_Is4 (p_Addr p)) (do_Address opts),
      to_Inet6Address = filter (\<lambda>p. addr_Is6 (p_Addr p)) (do_Address opts),
      to_Inet4RouteAddress = filter (\<lambda>p. addr_Is4 (p_Addr p)) (do_AllowedIps opts),
      to_Inet6RouteAddress = filter (\<lambda>p. addr_Is6 (p_Addr p)) (do_AllowedIps opts),
      to_Inet4RouteExcludeAddress = filter (\<lambda>p. addr_Is4 (p_Addr p)) (do_ExcludedIps opts),
      to_Inet6RouteExcludeAddress = filter (\<lambda>p. addr_Is6 (p_Addr p)) (do_ExcludedIps opts),
      to_MTU = do_MTU opts\<rparr>"

definition network_tun_addresses :: "DeviceOpts \<Rightarrow> addr list" where
  "network_tun_addresses opts = map p_Addr (do_Address opts)"


subsection \<open>What the device reads\<close>

text \<open>The device reads a configuration line by line, and each line up to its first equals sign.\<close>

fun split_at :: "char \<Rightarrow> string \<Rightarrow> string list" where
  "split_at c [] = [[]]"
| "split_at c (x # xs) =
     (if x = c then [] # split_at c xs else case split_at c xs of [] \<Rightarrow> [[x]] | w # ws \<Rightarrow> (x # w) # ws)"

definition split_key :: "string \<Rightarrow> string \<times> string" where
  "split_key s = (takeWhile (\<lambda>c. c \<noteq> CHR ''='') s, drop 1 (dropWhile (\<lambda>c. c \<noteq> CHR ''='') s))"

definition read_settings :: "string \<Rightarrow> (string \<times> string) list" where
  "read_settings s = map split_key (split_at newline s)"

text \<open>The settings that the options stand for, in order.\<close>

definition set_if :: "bool \<Rightarrow> string \<Rightarrow> string \<Rightarrow> (string \<times> string) list" where
  "set_if b key val = (if b then [(key, val)] else [])"

definition key_text :: "awg_library \<Rightarrow> string \<Rightarrow> string" where
  "key_text L k = (case aw_DecodeString L k of Inl _ \<Rightarrow> [] | Inr bs \<Rightarrow> hex_EncodeToString bs)"

definition endpoint_text :: "awg_library \<Rightarrow> (string \<Rightarrow> addr res) option \<Rightarrow> AwgPeerOptions \<Rightarrow> string" where
  "endpoint_text L R peer = (case peer_endpoint L R peer of Inl _ \<Rightarrow> [] | Inr a \<Rightarrow> a)"

definition peer_settings :: "awg_library \<Rightarrow> (string \<Rightarrow> addr res) option \<Rightarrow> AwgPeerOptions \<Rightarrow> (string \<times> string) list" where
  "peer_settings L R peer =
     [(''public_key'', key_text L (ap_PublicKey peer))] @
     set_if (ap_PresharedKey peer \<noteq> []) ''preshared_key'' (key_text L (ap_PresharedKey peer)) @
     set_if (ap_Address peer \<noteq> [] \<and> ap_Port peer \<noteq> 0) ''endpoint'' (endpoint_text L R peer @ '':'' @ itoa (unat (ap_Port peer))) @
     set_if (ap_PersistentKeepaliveInterval peer \<noteq> 0) ''persistent_keepalive_interval''
       (itoa (unat (ap_PersistentKeepaliveInterval peer))) @
     map (\<lambda>p. (''allowed_ip'', aw_PrefixString L p)) (ap_AllowedIPs peer)"

definition int_settings :: "AwgEndpointOptions \<Rightarrow> (string \<times> string) list" where
  "int_settings opts =
     concat (map (\<lambda>(key, i). set_if (i \<noteq> 0) key (format_int i))
       [(''jc'', ae_Jc opts), (''jmin'', ae_Jmin opts), (''jmax'', ae_Jmax opts), (''s1'', ae_S1 opts), (''s2'', ae_S2 opts),
        (''s3'', ae_S3 opts), (''s4'', ae_S4 opts)])"

definition texts :: "AwgEndpointOptions \<Rightarrow> (string \<times> string) list" where
  "texts opts =
     [(''h1'', ae_H1 opts), (''h2'', ae_H2 opts), (''h3'', ae_H3 opts), (''h4'', ae_H4 opts), (''i1'', ae_I1 opts),
      (''i2'', ae_I2 opts), (''i3'', ae_I3 opts), (''i4'', ae_I4 opts), (''i5'', ae_I5 opts)]"

definition device_settings :: "AwgEndpointOptions \<Rightarrow> (string \<times> string) list" where
  "device_settings opts =
     set_if (ae_ListenPort opts \<noteq> 0) ''listen_port'' (itoa (unat (ae_ListenPort opts))) @ int_settings opts @
     concat (map (\<lambda>(key, t). set_if (t \<noteq> []) key t) (texts opts))"

definition awg_settings :: "awg_library \<Rightarrow> (string \<Rightarrow> addr res) option \<Rightarrow> AwgEndpointOptions \<Rightarrow> (string \<times> string) list" where
  "awg_settings L R opts =
     (''private_key'', key_text L (ae_PrivateKey opts)) # device_settings opts @ concat (map (peer_settings L R) (ae_Peers opts))"

text \<open>The keys decode and the addresses resolve.\<close>

definition peer_ok :: "awg_library \<Rightarrow> (string \<Rightarrow> addr res) option \<Rightarrow> AwgPeerOptions \<Rightarrow> bool" where
  "peer_ok L R peer \<longleftrightarrow>
     \<not> isl (aw_DecodeString L (ap_PublicKey peer)) \<and>
     (ap_PresharedKey peer \<noteq> [] \<longrightarrow> \<not> isl (aw_DecodeString L (ap_PresharedKey peer))) \<and>
     (ap_Address peer \<noteq> [] \<and> ap_Port peer \<noteq> 0 \<longrightarrow> \<not> isl (peer_endpoint L R peer))"

definition awg_ok :: "awg_library \<Rightarrow> (string \<Rightarrow> addr res) option \<Rightarrow> AwgEndpointOptions \<Rightarrow> bool" where
  "awg_ok L R opts \<longleftrightarrow> \<not> isl (aw_DecodeString L (ae_PrivateKey opts)) \<and> list_all (peer_ok L R) (ae_Peers opts)"

text \<open>The texts of addresses have no line break, nor have the texts of the options.\<close>

definition one_line :: "string \<Rightarrow> bool" where
  "one_line s \<longleftrightarrow> newline \<notin> set s"

definition one_line_options :: "AwgEndpointOptions \<Rightarrow> bool" where
  "one_line_options opts \<longleftrightarrow>
     list_all (\<lambda>(key, t). one_line t) (texts opts) \<and> list_all (\<lambda>peer. one_line (ap_Address peer)) (ae_Peers opts)"

definition settings_text :: "(string \<times> string) list \<Rightarrow> string" where
  "settings_text kvs = concat (map (\<lambda>(key, val). line key val) kvs)"

lemma settings_text_simps [simp]:
  "settings_text [] = []"
  "settings_text ((key, val) # kvs) = line key val @ settings_text kvs"
  "settings_text (kvs @ kws) = settings_text kvs @ settings_text kws"
  by (simp_all add: settings_text_def)

lemma settings_text_set_if [simp]: "settings_text (set_if b key val) = line_if b key val"
  by (simp add: set_if_def line_if_def)

lemma settings_text_prefixes:
  "settings_text (map (\<lambda>p. (key, f p)) ps) = concat (map (\<lambda>p. line key (f p)) ps)"
  by (simp add: settings_text_def comp_def)

lemma peer_config_eq:
  "peer_config L R peer = Inr s \<longleftrightarrow> peer_ok L R peer \<and> s = settings_text (peer_settings L R peer)"
  by (cases "aw_DecodeString L (ap_PublicKey peer)"; cases "aw_DecodeString L (ap_PresharedKey peer)"; cases "peer_endpoint L R peer")
    (auto simp: peer_config_def peer_ok_def peer_settings_def key_text_def endpoint_text_def settings_text_prefixes line_if_def
      set_if_def)

lemma peers_config_eq:
  "peers_config L R peers = Inr s \<longleftrightarrow>
     list_all (peer_ok L R) peers \<and> s = settings_text (concat (map (peer_settings L R) peers))"
  by (induction peers arbitrary: s) (auto simp: bind_res_Inr map_sum_Inr_iff peer_config_eq)

lemma genIpcConfig_eq:
  "genIpcConfig L opts R = Inr s \<longleftrightarrow> awg_ok L R opts \<and> s = tl (settings_text (awg_settings L R opts))"
  by (cases "aw_DecodeString L (ae_PrivateKey opts)")
    (auto simp: genIpcConfig_def map_sum_Inr_iff peers_config_eq awg_ok_def awg_settings_def device_settings_def
      int_settings_def texts_def key_text_def line_def)

lemma split_at_plain: "c \<notin> set w \<Longrightarrow> split_at c w = [w]"
  by (induction w) auto

lemma split_at_append: "c \<notin> set w \<Longrightarrow> split_at c (w @ c # xs) = w # split_at c xs"
  by (induction w) auto

lemma split_key_line: "CHR ''='' \<notin> set key \<Longrightarrow> split_key (key @ CHR ''='' # val) = (key, val)"
  by (induction key) (auto simp: split_key_def)

text \<open>A list of settings is read back from its text.\<close>

definition readable :: "string \<times> string \<Rightarrow> bool" where
  "readable kv \<longleftrightarrow> one_line (fst kv) \<and> CHR ''='' \<notin> set (fst kv) \<and> one_line (snd kv)"

lemma read_settings_text:
  "list_all readable (kv # kvs) \<Longrightarrow> read_settings (tl (settings_text (kv # kvs))) = kv # kvs"
proof (induction kvs arbitrary: kv)
  case Nil
  then show ?case
    by (cases kv) (simp add: read_settings_def line_def readable_def one_line_def split_at_plain split_key_line newline_def)
next
  case (Cons kv' kvs)
  obtain key val where kv: "kv = (key, val)" by (cases kv)
  have t: "settings_text (kv' # kvs) = newline # tl (settings_text (kv' # kvs))"
    by (cases kv') (simp add: line_def)
  have "newline \<notin> set (key @ CHR ''='' # val)" "CHR ''='' \<notin> set key"
    using Cons.prems by (simp_all add: kv readable_def one_line_def newline_def)
  moreover have "tl (settings_text (kv # kv' # kvs)) = (key @ CHR ''='' # val) @ newline # tl (settings_text (kv' # kvs))"
    using t by (simp add: kv line_def)
  ultimately have "read_settings (tl (settings_text (kv # kv' # kvs))) = kv # read_settings (tl (settings_text (kv' # kvs)))"
    unfolding read_settings_def by (simp add: split_at_append split_key_line kv del: append_assoc append_Cons)
  then show ?case using Cons by simp
qed

lemma one_line_simps [simp]:
  "one_line []" "one_line (s @ t) \<longleftrightarrow> one_line s \<and> one_line t" "one_line (c # s) \<longleftrightarrow> c \<noteq> newline \<and> one_line s"
  by (auto simp: one_line_def)

lemma one_line_itoa [simp]: "one_line (itoa n)"
proof (induction n rule: itoa.induct)
  case (1 n)
  have digit: "char_of (48 + k) \<noteq> newline" if "k < 10" for k :: nat
    using that by (auto simp: newline_def char_of_eq_iff take_bit_eq_mod)
  show ?case
    by (subst itoa.simps) (use 1 digit [of n] digit [of "n mod 10"] in auto)
qed

lemma one_line_format_int [simp]: "one_line (format_int i)"
  by (simp add: format_int_def newline_def)

lemma hex_digit_plain: "n < 16 \<Longrightarrow> hex_digit n \<noteq> newline"
  using nth_mem [of n "''0123456789abcdef''"] by (auto simp: hex_digit_def newline_def simp del: nth_mem)

lemma one_line_hex [simp]: "one_line (hex_EncodeToString bs)"
proof (induction bs)
  case (Cons b bs)
  have "unat b < 256" using unsigned_less [of b] by simp
  then have "unat b div 16 < 16" "unat b mod 16 < 16" by auto
  then show ?case using Cons by (simp add: hex_EncodeToString_def hex_digit_plain)
qed (simp add: hex_EncodeToString_def)

lemma one_line_key_text [simp]: "one_line (key_text L k)"
  by (simp add: key_text_def split: sum.splits)

lemma readable_set_if: "list_all readable (set_if b key val) \<longleftrightarrow> (b \<longrightarrow> readable (key, val))"
  by (simp add: set_if_def)

lemma readable_peer:
  assumes "one_line (ap_Address peer)" "\<And>a. one_line (aw_AddrString L a)" "\<And>p. one_line (aw_PrefixString L p)"
  shows "list_all readable (peer_settings L R peer)"
proof -
  have "one_line (endpoint_text L R peer)"
    using assms by (auto simp: endpoint_text_def peer_endpoint_def split: sum.splits option.splits if_splits)
  then show ?thesis
    using assms by (simp add: peer_settings_def readable_set_if readable_def newline_def list.pred_map list.pred_True comp_def)
qed

lemma readable_settings:
  assumes "one_line_options opts" "\<And>a. one_line (aw_AddrString L a)" "\<And>p. one_line (aw_PrefixString L p)"
  shows "list_all readable (awg_settings L R opts)"
proof -
  have "list_all readable (concat (map (peer_settings L R) (ae_Peers opts)))"
    using assms readable_peer [of _ L R] by (fastforce simp: one_line_options_def list_all_iff)
  then show ?thesis
    using assms(1)
    by (simp add: awg_settings_def device_settings_def int_settings_def texts_def readable_set_if readable_def newline_def
        one_line_options_def)
qed



definition ex_awg_library :: awg_library where
  "ex_awg_library =
     \<lparr>aw_DecodeString = (\<lambda>s. if s = [] then Inl (New ''illegal base64 data'') else Inr (map (\<lambda>c. of_nat (of_char c)) s)),
      aw_ParseAddr = (\<lambda>s. if s = ''192.0.2.1'' then Addr4 0xC0000201 else AddrZero),
      aw_AddrString = (\<lambda>a. ''198.51.100.7''), aw_PrefixString = (\<lambda>p. ''10.0.0.0/8''),
      aw_IsFqdn = (\<lambda>d. s_Fqdn d \<noteq> []), aw_SocksaddrString = (\<lambda>d. s_Fqdn d), aw_IPSet = (\<lambda>_. Inr [])\<rparr>"

definition ex_awg_options :: AwgEndpointOptions where
  "ex_awg_options =
     \<lparr>ae_UseIntegratedTun = False, ae_PrivateKey = ''k'', ae_Address = [], ae_MTU = 0, ae_ListenPort = 0, ae_Jc = 4, ae_Jmin = 0,
      ae_Jmax = 0, ae_S1 = 0, ae_S2 = 0, ae_S3 = 0, ae_S4 = 0, ae_H1 = ''5'', ae_H2 = [], ae_H3 = [], ae_H4 = [], ae_I1 = [],
      ae_I2 = [], ae_I3 = [], ae_I4 = [], ae_I5 = [],
      ae_Peers =
        [\<lparr>ap_Address = ''vpn.example'', ap_Port = 7, ap_PublicKey = ''p'', ap_PresharedKey = [],
          ap_AllowedIPs = [\<lparr>p_Addr = Addr4 0x0A000000, p_Bits = 8\<rparr>], ap_PersistentKeepaliveInterval = 0\<rparr>]\<rparr>"


subsection \<open>Destinations the device is asked for\<close>


definition ex_serial :: "socksaddr \<Rightarrow> addr list \<Rightarrow> socksaddr list \<times> nat res" where
  "ex_serial d addrs =
     (case addrs of
        [] \<Rightarrow> ([], Inl (New ''no address''))
      | a # _ \<Rightarrow> ([\<lparr>s_Addr = a, s_Port = s_Port d, s_Fqdn = []\<rparr>], Inr 1))"


subsection \<open>Metadata of arriving connections\<close>

lemma packet_loop_eq:
  "packet_loop ps d ns m =
     (if list_ex (\<lambda>p. prefix_Contains p (s_Addr d)) ps
      then (m\<lparr>m_OriginDestination := d, m_Destination := (m_Destination m)\<lparr>s_Addr := loopback_of (s_Addr d)\<rparr>\<rparr>,
            ns @ replicate (length (filter (\<lambda>p. prefix_Contains p (s_Addr d)) ps))
              (d, (m_Destination m)\<lparr>s_Addr := loopback_of (s_Addr d)\<rparr>))
      else (m, ns))"
  by (induction ps arbitrary: ns m) (auto simp: Let_def filter_empty_conv list_ex_iff)

lemma connection_loop_eq:
  "connection_loop ps d m =
     (if list_ex (\<lambda>p. prefix_Contains p (s_Addr d)) ps
      then (m\<lparr>m_OriginDestination := d\<rparr>, d\<lparr>s_Addr := loopback_of (s_Addr d)\<rparr>) else (m, d))"
  by (induction ps) auto

text \<open>The two loops give the same metadata; a packet connection is translated once for each matching address of the endpoint.\<close>

lemma inbound_metadata_agree:
  "Endpoint_NewPacketConnectionEx e src d =
     (Endpoint_NewConnectionEx e src d,
      replicate (length (filter (\<lambda>p. prefix_Contains p (s_Addr d)) (aep_address e)))
        (d, m_Destination (Endpoint_NewConnectionEx e src d)))"
  by (auto simp: Endpoint_NewPacketConnectionEx_def Endpoint_NewConnectionEx_def packet_loop_eq connection_loop_eq list_ex_iff
      filter_empty_conv)

subsection \<open>The sockets of the device, over all its calls\<close>

text \<open>The device opens and closes its sockets again and again; the sockets that are open are kept beside the adapter.\<close>

datatype bind_call = Call_Open "nat res" "nat res" | Call_Close "nat \<Rightarrow> error option"

fun bind_step :: "bind_call \<Rightarrow> bind_adapter \<times> nat list \<Rightarrow> bind_adapter \<times> nat list" where
  "bind_step (Call_Open c4 c6) (b, live) = (let (_, b', made) = Bind_Open c4 c6 b in (b', live @ made))"
| "bind_step (Call_Close close) (b, live) = (let (_, b', closed) = Bind_Close close b in (b', filter (\<lambda>s. s \<notin> set closed) live))"

definition bind_run :: "bind_call list \<Rightarrow> bind_adapter \<times> nat list" where
  "bind_run calls = fold bind_step calls (newBind, [])"

text \<open>An opening that does not fail for the second address family after it succeeded for the first.\<close>

fun whole :: "bind_call \<Rightarrow> bool" where
  "whole (Call_Open (Inr c) (Inl e)) = error_Is e EAFNOSUPPORT"
| "whole _ = True"

lemma bind_step_keeps:
  assumes "whole call" "live = sockets (bd_conn4 b) @ sockets (bd_conn6 b)"
  shows "snd (bind_step call (b, live)) =
    sockets (bd_conn4 (fst (bind_step call (b, live)))) @ sockets (bd_conn6 (fst (bind_step call (b, live))))"
proof (cases call)
  case (Call_Open c4 c6)
  then show ?thesis
    using assms by (cases c4; cases c6) (auto simp: Bind_Open_def connected_def sockets_def split: option.splits)
next
  case (Call_Close close)
  then show ?thesis using assms by (simp add: Bind_Close_def sockets_def)
qed

lemma bind_run_live:
  "list_all whole calls \<Longrightarrow> snd (bind_run calls) = sockets (bd_conn4 (fst (bind_run calls))) @ sockets (bd_conn6 (fst (bind_run calls)))"
proof (induction calls rule: rev_induct)
  case Nil
  then show ?case by (simp add: bind_run_def newBind_def sockets_def)
next
  case (snoc call calls)
  then have "whole call" "snd (bind_run calls) = sockets (bd_conn4 (fst (bind_run calls))) @ sockets (bd_conn6 (fst (bind_run calls)))"
    by simp_all
  moreover have "bind_run (calls @ [call]) = bind_step call (fst (bind_run calls), snd (bind_run calls))"
    by (simp add: bind_run_def)
  ultimately show ?case by (metis bind_step_keeps)
qed

text \<open>
  C32. The sockets of an AmneziaWG device over any sequence of openings and closings.  As long as no opening fails for the
  second address family after it got a socket for the first one, the open sockets are exactly those the adapter knows, and
  after a closing none is open.  An opening that fails so leaves the first socket open: the adapter does not know it, and
  closing does not close it.\<close>

theorem bind_sockets_balance:
  "(list_all whole calls \<longrightarrow>
      snd (bind_run calls) = sockets (bd_conn4 (fst (bind_run calls))) @ sockets (bd_conn6 (fst (bind_run calls))) \<and>
      snd (bind_run (calls @ [Call_Close close])) = []) \<and>
   (\<not> error_Is e EAFNOSUPPORT \<longrightarrow> bind_run [Call_Open (Inr c) (Inl e), Call_Close close] = (newBind, [c]))"
proof (intro conjI impI)
  assume w: "list_all whole calls"
  then show "snd (bind_run calls) = sockets (bd_conn4 (fst (bind_run calls))) @ sockets (bd_conn6 (fst (bind_run calls)))"
    by (rule bind_run_live)
  from w have "list_all whole (calls @ [Call_Close close])" by simp
  then show "snd (bind_run (calls @ [Call_Close close])) = []"
    by (cases "fold bind_step calls (newBind, [])")
      (simp only: bind_run_live, simp add: bind_run_def Bind_Close_def sockets_def)
next
  assume "\<not> error_Is e EAFNOSUPPORT"
  then show "bind_run [Call_Open (Inr c) (Inl e), Call_Close close] = (newBind, [c])"
    by (simp add: bind_run_def newBind_def Bind_Open_def Bind_Close_def connected_def sockets_def)
qed

theorem bind_sockets_balance_witness:
  "snd (bind_run [Call_Open (Inr 1) (Inl EAFNOSUPPORT)]) = [1] \<and>
   snd (bind_run ([Call_Open (Inr 1) (Inl EAFNOSUPPORT)] @ [Call_Close (\<lambda>_. None)])) = [] \<and>
   bind_run [Call_Open (Inr 1) (Inl (New ''busy'')), Call_Close (\<lambda>_. None)] = (newBind, [1])"
proof -
  have "list_all whole [Call_Open (Inr 1) (Inl EAFNOSUPPORT)]" "\<not> error_Is (New ''busy'') EAFNOSUPPORT"
    by (simp_all add: EAFNOSUPPORT_def)
  moreover have "snd (bind_run [Call_Open (Inr 1) (Inl EAFNOSUPPORT)]) = [1]"
    by (simp add: bind_run_def newBind_def Bind_Open_def connected_def sockets_def EAFNOSUPPORT_def)
  ultimately show ?thesis
    using bind_sockets_balance [of "[Call_Open (Inr 1) (Inl EAFNOSUPPORT)]" "\<lambda>_. None" "New ''busy''" 1] by simp
qed

end
