(* ===== verification/Spec2Isabelle.thy ===== *)
theory Spec2Isabelle
  imports Route_Lifecycle Group Srs Awg
begin

text \<open>
  A verification library for the routing core of sing-box with AmneziaWG.  File names are relative to \<^verbatim>\<open>src/\<close>.

  \<^bold>\<open>The program.\<close>  A connection arrives with its metadata.  The router finds the process and the neighbor it comes from and the
  domain behind a fake address, then goes through its rules: a rule matches by its items, its rule sets and its nested
  rules; its action changes the metadata, sniffs the first bytes, resolves the destination or decides.  The
  deciding rule names an outbound, which may be a group or an endpoint.  DNS queries go through rules of their own to a client
  with caches and to DNS servers, one of which hands out fake addresses.  Managers start and stop all these components.

  \<^bold>\<open>Basis.\<close>  \<open>Go_Prelude\<close> has error values, the result type, early-return loops and strings; \<open>Metadata\<close> the addresses, the
  metadata of a connection (\<^verbatim>\<open>adapter/inbound.go\<close>) and the record \<open>env\<close> of what rules ask the outside; \<open>Byte_Order\<close> words and
  addresses as bytes; \<open>Options\<close> the decoded configuration (\<^verbatim>\<open>option/rule*.go\<close>).

  \<^bold>\<open>Rules.\<close>  \<open>Match_State\<close> (\<^verbatim>\<open>route/rule/match_state.go\<close>) has the bit sets of the engine and their meaning as sets, the locale
  \<open>state_set\<close>.  \<open>Rule_Items\<close> (\<^verbatim>\<open>route/rule/rule_item_*.go\<close>) has the conditions, \<open>Rule_Engine\<close> (\<^verbatim>\<open>rule_abstract.go\<close>) the matching,
  with the documented meaning of default and logical rules and of merged rule sets; its three merging loops are instances of
  the locale \<open>merging_loop\<close>.  \<open>Rule_Action\<close> (\<^verbatim>\<open>rule_action.go\<close>) has the actions and the flood window of \<^verbatim>\<open>reject\<close>, \<open>Rule_Build\<close>
  (\<^verbatim>\<open>rule_default.go\<close>, \<^verbatim>\<open>rule_headless.go\<close>, \<^verbatim>\<open>rule_dns.go\<close>) the constructors: a built rule matches what its options say.
  \<open>Rule_Set\<close> and \<open>Rule_Set_Lifecycle\<close> (\<^verbatim>\<open>rule_set*.go\<close>) have local, inline and remote rule sets; over every order of
  operations references balance (locale \<open>ref_counted\<close>), updates are atomic, and a fetched set survives a restart.
  \<open>Srs\<close> (\<^verbatim>\<open>common/srs\<close>) is the binary format, with its round trip.  Reading a nested rule uses fuel; the length of the data is
  enough, since each level takes a byte, and more fuel does not change the result.

  \<^bold>\<open>DNS.\<close>  \<open>Dns_Rule\<close> is the matching of DNS rules and \<open>Dns_Message\<close> the rewriting of messages (\<^verbatim>\<open>dns/client*.go\<close>).  \<open>Fakeip\<close>
  (\<^verbatim>\<open>dns/transport/fakeip\<close>) hands out fake addresses over a storage behind the locale \<open>fakeip_storage\<close>: every query is answered,
  and an address is not given away again before the pool is used up.  \<open>Cache_File\<close> and \<open>Dns_Cache_File\<close> (\<^verbatim>\<open>experimental/cachefile\<close>)
  are the operations on the database, with the goroutine that writes DNS responses as a step relation, which ends.
  \<open>Dns_Client\<close>, \<open>Dns_Client_Cache\<close> and \<open>Dns_Client_Store\<close> (\<^verbatim>\<open>dns/client.go\<close>) have the client: a cached answer was given by the
  server it is served for, over any store with the laws of \<open>dns_cache_store\<close>, which the cache file has.  \<open>Dns_Mode\<close>,
  \<open>Dns_Router_Rules\<close> and \<open>Dns_Router\<close> (\<^verbatim>\<open>dns/router.go\<close>) have the legacy mode, which updates of rule sets keep, the references of
  the rules, and queries: the restarting loop of the legacy mode is one pass over the rules.

  \<^bold>\<open>Managers.\<close>  \<open>Component_Manager\<close>, \<open>Start_Order\<close>, \<open>Outbound_Manager\<close> and \<open>Dns_Transport_Manager\<close> (\<^verbatim>\<open>adapter/*/manager.go\<close>,
  \<^verbatim>\<open>dns/transport_manager.go\<close>): components start after what they depend on, and the tables stay consistent.

  \<^bold>\<open>Routing.\<close>  \<open>Sniff\<close> (\<^verbatim>\<open>common/sniff\<close>): sniffing does not depend on how a stream is cut into reads.  \<open>Route_Match\<close>, \<open>Route\<close> and
  \<open>Route_Lifecycle\<close> (\<^verbatim>\<open>route/route.go\<close>, \<^verbatim>\<open>route/dns.go\<close>, \<^verbatim>\<open>route/router.go\<close>): the bytes and packets that were sniffed reach the
  outbound, a connection to a fake address is routed by its domain, and an outbound that is chosen exists and supports the
  network.  \<open>Group\<close> (\<^verbatim>\<open>protocol/group\<close>): a choice survives a restart, and a URL test selects a member that is slower than no
  other by more than the tolerance.  \<open>Awg\<close> (\<^verbatim>\<open>protocol/awg\<close>, \<^verbatim>\<open>transport/awg\<close>): the configuration of the device says what the
  options say, the device is asked for addresses only, and it closes the sockets it knows, which are all unless an opening failed halfway.

  \<^bold>\<open>Conventions.\<close>  An operation takes its state and returns it; what the code does under a lock is one step.  Libraries
  outside \<^verbatim>\<open>src/\<close> (\<^verbatim>\<open>sing\<close>, \<^verbatim>\<open>netipx\<close>, bbolt, the DNS library, \<^verbatim>\<open>zlib\<close>, the WireGuard device), sockets and the clock are
  arguments; the predicates \<open>..._documented\<close> collect what is used of their documentation, and the examples give concrete
  functions for them.  Go's nil slice differs from an empty one where the code tells them apart.  Logging, description strings
  and metrics are left out.

  \<^bold>\<open>Not modelled.\<close>  Decoding of the configuration from JSON (a reflective library); the main program and the commands
  (wiring); copying between sockets, inbound and outbound protocols, transports, TLS and dialers (adapters of network and
  cryptographic libraries); DNS servers over the network; network, process and neighbor information of the operating system; the
  HTTP and gRPC interfaces, the mobile library and the services; QUIC sniffing, which decrypts packets.
\<close>

end
